(* ===== verification/Drogue_Prelude.thy ===== *)
theory Drogue_Prelude
  imports Main "HOL-Library.Word" "HOL-Library.AList" "HOL-Library.Sublist"
begin

text \<open>
  Shared vocabulary of the development: the Rust integer and identifier types, the
  \<open>Result\<close> combinator, the string functions of the standard library that the sources
  call (\<open>split\<close>, \<open>split_once\<close>, \<open>starts_with\<close>, \<open>join\<close>, decimal \<open>format!\<close>), hash maps
  as association lists with their order-insensitive equality, and SQL tables as lists of
  rows with a primary key.  The lemmas are collected in three named collections:
  \<open>result_simps\<close> (case analysis of results), \<open>table_simps\<close> (row operations) and
  \<open>table_intros\<close> (preservation of primary keys).
\<close>

named_theorems result_simps
named_theorems table_simps
named_theorems table_intros

section \<open>Integers and identifiers\<close>

type_synonym u64 = "64 word"
type_synonym uuid = "128 word"
type_synonym timestamp = int

definition uuid_nil :: uuid where
  "uuid_nil = 0"

text \<open>
  The sources cast a \<open>u64\<close> to \<open>i64\<close> before it is stored and back when it is read.  Both
  casts keep the bits, so a stored value is the same word; a comparison made by the
  database is a comparison of the signed values.
\<close>

definition i64_less :: "u64 \<Rightarrow> u64 \<Rightarrow> bool" where
  "i64_less a b \<longleftrightarrow> sint a < sint b"

definition i64_le :: "u64 \<Rightarrow> u64 \<Rightarrow> bool" where
  "i64_le a b \<longleftrightarrow> sint a \<le> sint b"

lemma i64_le_refl [simp]: "i64_le a a"
  by (simp add: i64_le_def)

lemma i64_le_iff_not_less: "i64_le a b \<longleftrightarrow> \<not> i64_less b a"
  by (auto simp: i64_le_def i64_less_def)

lemma i64_less_trans: "i64_less a b \<Longrightarrow> i64_less b c \<Longrightarrow> i64_less a c"
  by (simp add: i64_less_def)

lemma i64_less_irrefl [simp]: "\<not> i64_less a a"
  by (simp add: i64_less_def)

lemma max_word_plus_one: "(x::u64) < x + 1 \<longleftrightarrow> x \<noteq> -1"
  using inc_less_eq_self_iff_eq by fastforce

section \<open>Results\<close>

text \<open>\<open>Result<T, E>\<close> is \<open>'e + 'a\<close>, the \<open>?\<close> operator is \<open>rbind\<close>.\<close>

fun rbind :: "'e + 'a \<Rightarrow> ('a \<Rightarrow> 'e + 'b) \<Rightarrow> 'e + 'b" where
  "rbind (Inl e) f = Inl e"
| "rbind (Inr x) f = f x"

fun ok_or :: "'e \<Rightarrow> 'a option \<Rightarrow> 'e + 'a" where
  "ok_or e None = Inl e"
| "ok_or e (Some x) = Inr x"

fun is_ok :: "'e + 'a \<Rightarrow> bool" where
  "is_ok (Inl e) = False"
| "is_ok (Inr x) = True"

lemma rbind_eq_Inr [result_simps]:
  "rbind m f = Inr y \<longleftrightarrow> (\<exists>x. m = Inr x \<and> f x = Inr y)"
  by (cases m) auto

lemma rbind_eq_Inl [result_simps]:
  "rbind m f = Inl e \<longleftrightarrow> m = Inl e \<or> (\<exists>x. m = Inr x \<and> f x = Inl e)"
  by (cases m) auto

lemma ok_or_eq_Inr [result_simps]: "ok_or e v = Inr x \<longleftrightarrow> v = Some x"
  by (cases v) auto

lemma ok_or_eq_Inl [result_simps]: "ok_or e v = Inl e' \<longleftrightarrow> v = None \<and> e' = e"
  by (cases v) auto

section \<open>Strings\<close>

text \<open>\<open>str::split(c)\<close>: never empty, the empty string gives one empty part.\<close>

fun split_on :: "char \<Rightarrow> string \<Rightarrow> string list" where
  "split_on c [] = [[]]"
| "split_on c (x # xs) =
     (if x = c then [] # split_on c xs
      else (case split_on c xs of [] \<Rightarrow> [[x]] | p # ps \<Rightarrow> (x # p) # ps))"

text \<open>\<open>str::split_once(c)\<close>: the parts before and after the first \<open>c\<close>, if there is one.\<close>

fun split_once :: "char \<Rightarrow> string \<Rightarrow> (string \<times> string) option" where
  "split_once c [] = None"
| "split_once c (x # xs) =
     (if x = c then Some ([], xs)
      else map_option (\<lambda>(a, b). (x # a, b)) (split_once c xs))"

fun join :: "string \<Rightarrow> string list \<Rightarrow> string" where
  "join sep [] = []"
| "join sep [p] = p"
| "join sep (p # q # ps) = p @ sep @ join sep (q # ps)"

definition starts_with :: "string \<Rightarrow> string \<Rightarrow> bool" where
  "starts_with s p \<longleftrightarrow> prefix p s"

lemma split_on_not_Nil [simp]: "split_on c s \<noteq> []"
  by (induction s) (auto split: list.splits)

lemma split_on_no_sep [simp]: "c \<notin> set s \<Longrightarrow> split_on c s = [s]"
  by (induction s) auto

lemma split_on_append_sep:
  "c \<notin> set a \<Longrightarrow> split_on c (a @ c # b) = a # split_on c b"
  by (induction a) auto

lemma split_on_parts_no_sep: "p \<in> set (split_on c s) \<Longrightarrow> c \<notin> set p"
  by (induction s arbitrary: p) (auto split: list.splits if_splits)

lemma join_Cons: "ps \<noteq> [] \<Longrightarrow> join sep (p # ps) = p @ sep @ join sep ps"
  by (cases ps) auto

lemma join_split_on: "join [c] (split_on c s) = s"
proof (induction s)
  case (Cons x xs)
  obtain p ps where pps: "split_on c xs = p # ps"
    by (cases "split_on c xs") auto
  show ?case
  proof (cases "ps = []")
    case True
    with Cons pps show ?thesis by auto
  next
    case False
    with Cons pps show ?thesis by (auto simp: join_Cons)
  qed
qed simp

lemma split_once_eq_Some:
  "split_once c s = Some (a, b) \<longleftrightarrow> s = a @ c # b \<and> c \<notin> set a"
proof (induction s arbitrary: a)
  case (Cons x xs)
  show ?case
    by (cases a) (auto simp: Cons)
qed simp

lemma split_once_eq_None: "split_once c s = None \<longleftrightarrow> c \<notin> set s"
  by (induction s) auto

text \<open>Decimal rendering of an unsigned number, as \<open>format!("{}", n)\<close> does.\<close>

definition digit_char :: "nat \<Rightarrow> char" where
  "digit_char d = ''0123456789'' ! d"

fun nat_str :: "nat \<Rightarrow> string" where
  "nat_str n = (if n < 10 then [digit_char n] else nat_str (n div 10) @ [digit_char (n mod 10)])"

declare nat_str.simps [simp del]

lemma nat_str_small [simp]: "n < 10 \<Longrightarrow> nat_str n = [digit_char n]"
  by (simp add: nat_str.simps)

section \<open>Hash maps\<close>

text \<open>
  \<open>HashMap\<close>, \<open>IndexMap\<close> and \<open>serde_json::Map\<close> are association lists with distinct keys:
  \<open>get\<close> is \<open>map_of\<close>, \<open>insert\<close> is \<open>AList.update\<close>, \<open>remove\<close> is \<open>AList.delete\<close>.  Equality
  of these maps ignores the order: equal lengths, and every entry of one is found in the
  other with an equal value.
\<close>

type_synonym 'v smap = "(string \<times> 'v) list"

abbreviation keys_of :: "('k \<times> 'v) list \<Rightarrow> 'k list" where
  "keys_of m \<equiv> map fst m"

abbreviation wf_map :: "('k \<times> 'v) list \<Rightarrow> bool" where
  "wf_map m \<equiv> distinct (keys_of m)"

lemma in_keys_iff: "k \<in> fst ` set m \<longleftrightarrow> (\<exists>v. map_of m k = Some v)"
  by (metis map_of_eq_None_iff not_None_eq)

lemma map_of_fst: "wf_map m \<Longrightarrow> p \<in> set m \<Longrightarrow> map_of m (fst p) = Some (snd p)"
  by (metis map_of_is_SomeI prod.collapse)

lemma set_map_filter_keys:
  "set (map (\<lambda>p. f (fst p)) (filter (\<lambda>p. P (fst p) (snd p)) m)) =
     {f k | k. \<exists>v. (k, v) \<in> set m \<and> P k v}"
  by force

lemma UN_two_maps:
  assumes "\<And>s. s \<notin> fst ` set xs \<Longrightarrow> s \<notin> fst ` set ys \<Longrightarrow> d s = {}"
  shows "(\<Union>s. d s) = (\<Union>p \<in> set xs. d (fst p)) \<union>
     (\<Union>p \<in> {p \<in> set ys. fst p \<notin> fst ` set xs}. d (fst p))"
proof
  show "(\<Union>s. d s) \<subseteq> (\<Union>p \<in> set xs. d (fst p)) \<union>
     (\<Union>p \<in> {p \<in> set ys. fst p \<notin> fst ` set xs}. d (fst p))"
  proof
    fix x assume "x \<in> (\<Union>s. d s)"
    then obtain s where s: "x \<in> d s" by blast
    with assms[of s] consider "s \<in> fst ` set xs" | "s \<notin> fst ` set xs" "s \<in> fst ` set ys" by blast
    then show "x \<in> (\<Union>p \<in> set xs. d (fst p)) \<union>
     (\<Union>p \<in> {p \<in> set ys. fst p \<notin> fst ` set xs}. d (fst p))"
      using s by cases blast+
  qed
qed blast

definition map_eq :: "('v \<Rightarrow> 'v \<Rightarrow> bool) \<Rightarrow> ('k \<times> 'v) list \<Rightarrow> ('k \<times> 'v) list \<Rightarrow> bool" where
  "map_eq eq xs ys \<longleftrightarrow> length xs = length ys \<and>
     (\<forall>p \<in> set xs. case map_of ys (fst p) of None \<Rightarrow> False | Some w \<Rightarrow> eq (snd p) w)"

lemma map_eq_keys:
  assumes "map_eq eq xs ys" and "wf_map xs" and "wf_map ys"
  shows "set (keys_of xs) = set (keys_of ys)"
proof (rule card_subset_eq)
  show "finite (set (keys_of ys))" by simp
  show "set (keys_of xs) \<subseteq> set (keys_of ys)"
  proof
    fix k assume "k \<in> set (keys_of xs)"
    then obtain v where "(k, v) \<in> set xs" by auto
    with assms(1) have "map_of ys k \<noteq> None" by (fastforce simp: map_eq_def split: option.splits)
    then show "k \<in> set (keys_of ys)" by (metis map_of_eq_None_iff list.set_map)
  qed
  have "card (set (keys_of xs)) = length xs" "card (set (keys_of ys)) = length ys"
    using assms(2,3) distinct_card[of "keys_of xs"] distinct_card[of "keys_of ys"] by simp_all
  then show "card (set (keys_of xs)) = card (set (keys_of ys))"
    using assms(1) by (simp add: map_eq_def)
qed

text \<open>On well-formed maps the equality is that of the maps they stand for.\<close>

lemma map_eq_iff:
  assumes "wf_map xs" and "wf_map ys"
  shows "map_eq (=) xs ys \<longleftrightarrow> map_of xs = map_of ys"
proof
  assume eq: "map_eq (=) xs ys"
  show "map_of xs = map_of ys"
  proof
    fix k
    show "map_of xs k = map_of ys k"
    proof (cases "map_of xs k")
      case None
      then have "k \<notin> set (keys_of ys)"
        using map_eq_keys[OF eq assms] by (simp add: map_of_eq_None_iff)
      then have "map_of ys k = None" by (simp add: map_of_eq_None_iff)
      with None show ?thesis by simp
    next
      case (Some v)
      then have "(k, v) \<in> set xs" by (rule map_of_SomeD)
      then show ?thesis using eq Some by (fastforce simp: map_eq_def split: option.splits)
    qed
  qed
next
  assume m: "map_of xs = map_of ys"
  have "set xs = set ys" using map_of_inject_set[OF assms] m by simp
  moreover from this have "length xs = length ys"
    using assms distinct_card[of "keys_of xs"] distinct_card[of "keys_of ys"] by simp
  moreover have "\<forall>p \<in> set xs. map_of ys (fst p) = Some (snd p)"
    using assms(1) m by (metis map_of_is_SomeI prod.collapse)
  ultimately show "map_eq (=) xs ys" by (auto simp: map_eq_def)
qed

lemma size_zip_fst [termination_simp]:
  "(a, b) \<in> set (zip xs ys) \<Longrightarrow> size a < Suc (size_list size xs)"
  by (meson less_SucI set_zip_leftD size_list_estimation' le_imp_less_Suc order_refl)

section \<open>Tables\<close>

text \<open>
  A SQL table is a list of rows; \<open>key\<close> reads the primary key.  \<open>INSERT\<close> fails on an
  existing key, \<open>UPDATE \<dots> WHERE\<close> maps the matching rows, \<open>DELETE \<dots> WHERE\<close> drops them,
  \<open>SELECT \<dots> WHERE\<close> filters; the row counts are what \<open>execute\<close> returns.
\<close>

definition lookup_row :: "('r \<Rightarrow> 'k) \<Rightarrow> 'k \<Rightarrow> 'r list \<Rightarrow> 'r option" where
  "lookup_row key k rows = List.find (\<lambda>r. key r = k) rows"

definition insert_row :: "('r \<Rightarrow> 'k) \<Rightarrow> 'r \<Rightarrow> 'r list \<Rightarrow> 'r list option" where
  "insert_row key r rows = (if key r \<in> key ` set rows then None else Some (rows @ [r]))"

definition update_where :: "('r \<Rightarrow> bool) \<Rightarrow> ('r \<Rightarrow> 'r) \<Rightarrow> 'r list \<Rightarrow> 'r list" where
  "update_where P f rows = map (\<lambda>r. if P r then f r else r) rows"

definition delete_where :: "('r \<Rightarrow> bool) \<Rightarrow> 'r list \<Rightarrow> 'r list" where
  "delete_where P rows = filter (\<lambda>r. \<not> P r) rows"

definition count_where :: "('r \<Rightarrow> bool) \<Rightarrow> 'r list \<Rightarrow> nat" where
  "count_where P rows = length (filter P rows)"

abbreviation pk :: "('r \<Rightarrow> 'k) \<Rightarrow> 'r list \<Rightarrow> bool" where
  "pk key rows \<equiv> distinct (map key rows)"

lemma set_update_where [table_simps]:
  "set (update_where P f rows) = {r \<in> set rows. \<not> P r} \<union> f ` {r \<in> set rows. P r}"
  by (auto simp: update_where_def)

lemma set_delete_where [table_simps]: "set (delete_where P rows) = {r \<in> set rows. \<not> P r}"
  by (auto simp: delete_where_def)

lemma count_where_0 [table_simps]: "count_where P rows = 0 \<longleftrightarrow> (\<forall>r \<in> set rows. \<not> P r)"
  by (auto simp: count_where_def filter_empty_conv)

lemma count_where_pos [table_simps]: "0 < count_where P rows \<longleftrightarrow> (\<exists>r \<in> set rows. P r)"
  using count_where_0[of P rows] by auto

lemma insert_row_Some [table_simps]:
  "insert_row key r rows = Some rows' \<longleftrightarrow> key r \<notin> key ` set rows \<and> rows' = rows @ [r]"
  by (auto simp: insert_row_def)

lemma insert_row_None [table_simps]: "insert_row key r rows = None \<longleftrightarrow> key r \<in> key ` set rows"
  by (auto simp: insert_row_def)

lemma pk_insert_row [table_intros]: "pk key rows \<Longrightarrow> insert_row key r rows = Some rows' \<Longrightarrow> pk key rows'"
  by (auto simp: insert_row_def split: if_splits)

lemma map_key_update_where:
  "(\<And>r. P r \<Longrightarrow> key (f r) = key r) \<Longrightarrow> map key (update_where P f rows) = map key rows"
  by (auto simp: update_where_def)

lemma pk_update_where [table_intros]:
  "pk key rows \<Longrightarrow> (\<And>r. P r \<Longrightarrow> key (f r) = key r) \<Longrightarrow> pk key (update_where P f rows)"
  by (simp add: map_key_update_where)

lemma pk_delete_where [table_intros]: "pk key rows \<Longrightarrow> pk key (delete_where P rows)"
  by (simp add: delete_where_def distinct_map_filter)

lemma lookup_row_SomeD: "lookup_row key k rows = Some r \<Longrightarrow> r \<in> set rows \<and> key r = k"
  by (auto simp: lookup_row_def find_Some_iff)

lemma lookup_row_None: "lookup_row key k rows = None \<longleftrightarrow> k \<notin> key ` set rows"
  by (auto simp: lookup_row_def find_None_iff)

lemma lookup_row_pk: "pk key rows \<Longrightarrow> lookup_row key k rows = Some r \<longleftrightarrow> r \<in> set rows \<and> key r = k"
proof (induction rows)
  case (Cons x xs)
  then show ?case by (force simp: lookup_row_def)
qed (simp add: lookup_row_def)

lemma lookup_row_append:
  "lookup_row key k (xs @ ys) =
     (case lookup_row key k xs of None \<Rightarrow> lookup_row key k ys | Some r \<Rightarrow> Some r)"
  by (induction xs) (auto simp: lookup_row_def)

lemma lookup_row_delete_where_key:
  "lookup_row key k (delete_where (\<lambda>r. key r = k') rows) =
     (if k = k' then None else lookup_row key k rows)"
  by (induction rows) (auto simp: lookup_row_def delete_where_def)

lemma lookup_row_update_where_key:
  assumes "\<And>r. key r = k' \<Longrightarrow> key (f r) = k'"
  shows "lookup_row key k (update_where (\<lambda>r. key r = k') f rows) =
     (if k = k' then map_option f (lookup_row key k rows) else lookup_row key k rows)"
  using assms by (induction rows) (auto simp: lookup_row_def update_where_def)

lemma lookup_update_where:
  assumes "\<And>r. P r \<Longrightarrow> key (f r) = key r"
  shows "lookup_row key k (update_where P f rows) =
     map_option (\<lambda>r. if P r then f r else r) (lookup_row key k rows)"
  using assms by (induction rows) (auto simp: lookup_row_def update_where_def)

lemma lookup_delete_where:
  assumes "pk key rows"
  shows "lookup_row key k (delete_where P rows) =
     (case lookup_row key k rows of None \<Rightarrow> None | Some r \<Rightarrow> if P r then None else Some r)"
proof (cases "lookup_row key k rows")
  case None
  then have "k \<notin> key ` set (delete_where P rows)" by (auto simp: lookup_row_None set_delete_where)
  with None show ?thesis by (simp add: lookup_row_None[symmetric])
next
  case (Some r)
  then have r: "r \<in> set rows" "key r = k" by (auto dest: lookup_row_SomeD)
  show ?thesis
  proof (cases "P r")
    case True
    have "k \<notin> key ` set (delete_where P rows)"
      using True r assms by (auto simp: set_delete_where distinct_map inj_on_def)
    with Some True show ?thesis by (simp add: lookup_row_None)
  next
    case False
    have "lookup_row key k (delete_where P rows) = Some r"
      using r False by (simp add: lookup_row_pk[OF pk_delete_where[OF assms]] set_delete_where)
    with Some False show ?thesis by simp
  qed
qed

end
