(* ===== verification/Json_Diff.thy ===== *)
theory Json_Diff
  imports Drogue_Prelude
begin

text \<open>
  Change detection of the registry (\<open>database-common/src/models/diff.rs\<close>): the paths
  that differ between the stored and the new version of a resource.  The paths decide
  whether an update is written at all, whether it starts a new generation, and which
  change events are sent.

  A JSON value is \<open>serde_json::Value\<close>; a number is kept as its text, since the code only
  compares numbers.  Objects are maps and their equality ignores the order of the keys.
\<close>

datatype json =
    Null
  | Bool bool
  | Number string
  | String string
  | Array "json list"
  | Object "json smap"

fun json_eq :: "json \<Rightarrow> json \<Rightarrow> bool" where
  "json_eq Null Null = True"
| "json_eq (Bool a) (Bool b) = (a = b)"
| "json_eq (Number a) (Number b) = (a = b)"
| "json_eq (String a) (String b) = (a = b)"
| "json_eq (Array xs) (Array ys) =
     (length xs = length ys \<and> (\<forall>p \<in> set (zip xs ys). json_eq (fst p) (snd p)))"
| "json_eq (Object xs) (Object ys) =
     (length xs = length ys \<and>
      (\<forall>p \<in> set xs. case map_of ys (fst p) of None \<Rightarrow> False | Some w \<Rightarrow> json_eq (snd p) w))"
| "json_eq _ _ = False"

fun as_object :: "json \<Rightarrow> json smap option" where
  "as_object (Object m) = Some m"
| "as_object _ = None"

fun wf_json :: "json \<Rightarrow> bool" where
  "wf_json (Array xs) = (\<forall>x \<in> set xs. wf_json x)"
| "wf_json (Object m) = (wf_map m \<and> (\<forall>p \<in> set m. wf_json (snd p)))"
| "wf_json _ = True"

text \<open>
  \<open>diff_maps\<close> checks the last level: a key of the current map that is missing or has a
  different value in the new one, then the keys that were added.  \<open>diff_maps_data\<close> is the
  four-way match on whether the two sections are objects.
\<close>

definition diff_maps :: "json smap \<Rightarrow> json smap \<Rightarrow> string \<Rightarrow> string list" where
  "diff_maps current new pfx =
     map (\<lambda>p. pfx @ ''.'' @ fst p)
       (filter (\<lambda>p. case map_of new (fst p) of
                      Some other \<Rightarrow> \<not> json_eq (snd p) other
                    | None \<Rightarrow> True) current)
     @ map (\<lambda>k. pfx @ ''.'' @ k)
         (filter (\<lambda>k. k \<notin> set (keys_of current)) (keys_of new))"

fun diff_maps_data :: "json \<Rightarrow> json \<Rightarrow> string \<Rightarrow> string list" where
  "diff_maps_data (Object current) (Object new) pfx = diff_maps current new pfx"
| "diff_maps_data (Object current) _ pfx = map (\<lambda>k. pfx @ ''.'' @ k) (keys_of current)"
| "diff_maps_data _ (Object new) pfx = map (\<lambda>k. pfx @ ''.'' @ k) (keys_of new)"
| "diff_maps_data _ _ pfx = []"

definition diff_section :: "json smap \<Rightarrow> json smap \<Rightarrow> string list" where
  "diff_section current new =
     concat (map (\<lambda>(k, v). diff_maps_data v
               (case map_of new k of Some w \<Rightarrow> w | None \<Rightarrow> Null) (''.'' @ k)) current)
     @ concat (map (\<lambda>(k, v). diff_maps_data
               (case map_of current k of Some w \<Rightarrow> w | None \<Rightarrow> Null) v (''.'' @ k))
         (filter (\<lambda>p. fst p \<notin> set (keys_of current)) new))"

definition diff_data :: "json \<Rightarrow> json \<Rightarrow> string list" where
  "diff_data current new =
     diff_section (case as_object current of Some m \<Rightarrow> m | None \<Rightarrow> [])
                  (case as_object new of Some m \<Rightarrow> m | None \<Rightarrow> [])"

text \<open>
  \<open>diff_paths\<close> is generic over the \<open>Diffable\<close> trait: the four accessors are its first
  arguments, one for each method of the trait.
\<close>

definition diff_paths ::
  "('d \<Rightarrow> string smap) \<Rightarrow> ('d \<Rightarrow> string smap) \<Rightarrow> ('d \<Rightarrow> string list) \<Rightarrow> ('d \<Rightarrow> json)
    \<Rightarrow> 'd \<Rightarrow> 'd \<Rightarrow> string list" where
  "diff_paths labels annotations finalizers data current new =
     (if \<not> map_eq (=) (annotations current) (annotations new)
         \<or> \<not> map_eq (=) (labels current) (labels new)
         \<or> finalizers current \<noteq> finalizers new
      then [''.metadata''] else [])
     @ diff_data (data current) (data new)"


section \<open>What the paths say\<close>

text \<open>
  The reference view of a resource's data: the entry \<open>k\<close> of section \<open>s\<close>, if the data is an
  object, the section is an object and the entry exists.
\<close>

definition section_field :: "json \<Rightarrow> string \<Rightarrow> string \<Rightarrow> json option" where
  "section_field v s k =
     Option.bind (as_object v) (\<lambda>m. Option.bind (map_of m s)
       (\<lambda>w. Option.bind (as_object w) (\<lambda>n. map_of n k)))"

fun opt_json_eq :: "json option \<Rightarrow> json option \<Rightarrow> bool" where
  "opt_json_eq None None = True"
| "opt_json_eq (Some a) (Some b) = json_eq a b"
| "opt_json_eq _ _ = False"

lemma json_eq_refl: "wf_json v \<Longrightarrow> json_eq v v"
proof (induction v)
  case (Array xs)
  then show ?case by (auto simp: in_set_zip)
next
  case (Object m)
  show ?case
  proof -
    have "case map_of m (fst p) of None \<Rightarrow> False | Some w \<Rightarrow> json_eq (snd p) w"
      if p: "p \<in> set m" for p
    proof -
      have "map_of m (fst p) = Some (snd p)" using Object.prems p by simp
      moreover have "json_eq (snd p) (snd p)"
        using Object.IH[of p "snd p"] Object.prems p by (auto simp: snds.simps)
      ultimately show ?thesis by simp
    qed
    then show ?thesis by simp
  qed
qed simp_all

lemma set_diff_maps:
  assumes "wf_map current" and "wf_map new"
  shows "set (diff_maps current new pfx) =
     {pfx @ ''.'' @ k | k. \<not> opt_json_eq (map_of current k) (map_of new k)}"
proof -
  have removed: "(\<exists>v. (k, v) \<in> set current \<and>
        (case map_of new k of Some w \<Rightarrow> \<not> json_eq v w | None \<Rightarrow> True)) \<longleftrightarrow>
      map_of current k \<noteq> None \<and> \<not> opt_json_eq (map_of current k) (map_of new k)" for k
    by (cases "map_of current k"; cases "map_of new k")
      (simp_all add: map_of_eq_Some_iff[OF assms(1), symmetric])
  have added: "k \<in> set (keys_of new) \<and> k \<notin> set (keys_of current) \<longleftrightarrow>
      map_of current k = None \<and> \<not> opt_json_eq (map_of current k) (map_of new k)" for k
    by (cases "map_of current k"; cases "map_of new k") (simp_all add: in_keys_iff)
  have "set (diff_maps current new pfx) =
      {pfx @ ''.'' @ k | k. (\<exists>v. (k, v) \<in> set current \<and>
          (case map_of new k of Some w \<Rightarrow> \<not> json_eq v w | None \<Rightarrow> True))} \<union>
      {pfx @ ''.'' @ k | k. k \<in> set (keys_of new) \<and> k \<notin> set (keys_of current)}"
    unfolding diff_maps_def set_append set_map_filter_keys[of "\<lambda>k. pfx @ ''.'' @ k"
        "\<lambda>k v. case map_of new k of Some w \<Rightarrow> \<not> json_eq v w | None \<Rightarrow> True"] by auto
  then show ?thesis unfolding removed added by blast
qed

lemma as_object_Some: "as_object v = Some m \<longleftrightarrow> v = Object m"
  by (cases v) auto

lemma set_diff_maps_data:
  assumes "wf_json c" and "wf_json n"
  shows "set (diff_maps_data c n pfx) =
     {pfx @ ''.'' @ k | k. \<not> opt_json_eq (Option.bind (as_object c) (\<lambda>m. map_of m k))
                                            (Option.bind (as_object n) (\<lambda>m. map_of m k))}"
proof -
  have keys: "k \<in> fst ` set m \<longleftrightarrow> \<not> opt_json_eq (map_of m k) None" for k and m :: "json smap"
    by (cases "map_of m k") (simp_all add: in_keys_iff)
  have keys': "k \<in> fst ` set m \<longleftrightarrow> \<not> opt_json_eq None (map_of m k)" for k and m :: "json smap"
    by (cases "map_of m k") (simp_all add: in_keys_iff)
  show ?thesis
  proof (cases "as_object c"; cases "as_object n")
    fix a b assume "as_object c = Some a" "as_object n = Some b"
    then show ?thesis using assms set_diff_maps[of a b pfx] by (simp add: as_object_Some)
  next
    fix a assume "as_object c = Some a" "as_object n = None"
    then show ?thesis using keys[of _ a] by (cases n) (auto simp: as_object_Some)
  next
    fix b assume "as_object c = None" "as_object n = Some b"
    then show ?thesis using keys'[of _ b] by (cases c) (auto simp: as_object_Some)
  next
    assume "as_object c = None" "as_object n = None"
    then show ?thesis by (cases c; cases n) auto
  qed
qed

lemma section_lookup:
  assumes "wf_json v" and "as_object v = Some m" and "map_of m s = Some w"
  shows "wf_json w"
  using assms by (auto simp: as_object_Some dest: map_of_SomeD)

text \<open>The two loops of \<open>diff_section\<close> visit every section of either side once.\<close>

lemma set_diff_section:
  assumes "wf_map current" and "wf_map new"
  shows "set (diff_section current new) =
     (\<Union>s. set (diff_maps_data (case map_of current s of Some w \<Rightarrow> w | None \<Rightarrow> Null)
                               (case map_of new s of Some w \<Rightarrow> w | None \<Rightarrow> Null) (''.'' @ s)))"
    (is "_ = (\<Union>s. ?d s)")
proof -
  let ?or_null = "\<lambda>m s. case map_of m s of Some w \<Rightarrow> w | None \<Rightarrow> Null"
  have first: "(\<Union>p \<in> set current. set (diff_maps_data (snd p) (?or_null new (fst p)) (''.'' @ fst p))) =
      (\<Union>p \<in> set current. ?d (fst p))"
    using assms(1) by (intro SUP_cong refl) (simp add: map_of_fst)
  have second: "(\<Union>p \<in> {p \<in> set new. fst p \<notin> fst ` set current}.
        set (diff_maps_data (?or_null current (fst p)) (snd p) (''.'' @ fst p))) =
      (\<Union>p \<in> {p \<in> set new. fst p \<notin> fst ` set current}. ?d (fst p))"
    using assms(2) by (intro SUP_cong refl) (simp add: map_of_fst)
  have "set (diff_section current new) =
      (\<Union>p \<in> set current. ?d (fst p)) \<union>
      (\<Union>p \<in> {p \<in> set new. fst p \<notin> fst ` set current}. ?d (fst p))"
    unfolding first[symmetric] second[symmetric] by (simp add: diff_section_def case_prod_beta)
  moreover have "?d s = {}" if "s \<notin> fst ` set current" "s \<notin> fst ` set new" for s
    using that by (auto simp: in_keys_iff split: option.splits)
  ultimately show ?thesis using UN_two_maps[of current new ?d] by simp
qed

text \<open>
  The paths of \<open>diff_data\<close> are exactly the entries \<open>.section.key\<close> whose values differ.
\<close>

lemma set_diff_data:
  assumes "wf_json current" and "wf_json new"
  shows "set (diff_data current new) =
     {''.'' @ s @ ''.'' @ k | s k.
        \<not> opt_json_eq (section_field current s k) (section_field new s k)}"
proof -
  let ?obj = "\<lambda>v. case as_object v of Some m \<Rightarrow> m | None \<Rightarrow> []"
  let ?sec = "\<lambda>v s. case map_of (?obj v) s of Some w \<Rightarrow> w | None \<Rightarrow> Null"
  have wf: "wf_map (?obj v)" "wf_json (?sec v s)" if "wf_json v" for v s
    using that section_lookup[of v] by (auto simp: as_object_Some split: option.splits)
  have field: "Option.bind (as_object (?sec v s)) (\<lambda>m. map_of m k) = section_field v s k" for v s k
    by (auto simp: section_field_def split: option.splits)
  have "set (diff_data current new) =
      (\<Union>s. set (diff_maps_data (?sec current s) (?sec new s) (''.'' @ s)))"
    unfolding diff_data_def using set_diff_section wf(1)[OF assms(1)] wf(1)[OF assms(2)] by blast
  also have "\<dots> = (\<Union>s. {(''.'' @ s) @ ''.'' @ k | k.
        \<not> opt_json_eq (section_field current s k) (section_field new s k)})"
    by (simp only: set_diff_maps_data wf assms field)
  also have "\<dots> = {''.'' @ s @ ''.'' @ k | s k.
        \<not> opt_json_eq (section_field current s k) (section_field new s k)}"
    by auto
  finally show ?thesis .
qed

lemma opt_json_eq_refl: "wf_json v \<Longrightarrow> opt_json_eq (section_field v s k) (section_field v s k)"
proof (cases "section_field v s k")
  case (Some w)
  moreover assume "wf_json v"
  ultimately obtain m n u where "as_object v = Some m" "map_of m s = Some u" "as_object u = Some n"
    "map_of n k = Some w" by (auto simp: section_field_def bind_eq_Some_conv)
  with \<open>wf_json v\<close> have "wf_json w" by (metis section_lookup)
  with Some show ?thesis by (simp add: json_eq_refl)
qed simp

section \<open>The \<open>Diffable\<close> interface\<close>

text \<open>
  A \<open>Diffable\<close> resource gives four views of itself.  The laws are those of the Rust types
  of the views: maps have distinct keys.
\<close>

locale diffable =
  fixes labels :: "'d \<Rightarrow> string smap"
    and annotations :: "'d \<Rightarrow> string smap"
    and finalizers :: "'d \<Rightarrow> string list"
    and data :: "'d \<Rightarrow> json"
    and invar :: "'d \<Rightarrow> bool"
  assumes wf_labels: "invar d \<Longrightarrow> wf_map (labels d)"
    and wf_annotations: "invar d \<Longrightarrow> wf_map (annotations d)"
    and wf_data: "invar d \<Longrightarrow> wf_json (data d)"
begin

lemma metadata_reported:
  assumes "invar c" and "invar n"
  shows "''.metadata'' \<in> set (diff_paths labels annotations finalizers data c n) \<longleftrightarrow>
     map_of (labels c) \<noteq> map_of (labels n) \<or> map_of (annotations c) \<noteq> map_of (annotations n)
     \<or> finalizers c \<noteq> finalizers n \<or> ''.metadata'' \<in> set (diff_data (data c) (data n))"
  using assms by (simp add: diff_paths_def map_eq_iff wf_labels wf_annotations) blast

lemma no_paths_iff:
  assumes "invar c" and "invar n"
  shows "diff_paths labels annotations finalizers data c n = [] \<longleftrightarrow>
     map_of (labels c) = map_of (labels n) \<and> map_of (annotations c) = map_of (annotations n)
     \<and> finalizers c = finalizers n
     \<and> (\<forall>s k. opt_json_eq (section_field (data c) s k) (section_field (data n) s k))"
proof -
  have "diff_data (data c) (data n) = [] \<longleftrightarrow>
      (\<forall>s k. opt_json_eq (section_field (data c) s k) (section_field (data n) s k))"
    using set_diff_data[OF wf_data wf_data, OF assms] by (auto simp flip: set_empty)
  then show ?thesis
    using assms by (auto simp: diff_paths_def map_eq_iff wf_labels wf_annotations)
qed

lemma no_paths_refl: "invar d \<Longrightarrow> diff_paths labels annotations finalizers data d d = []"
  by (simp add: no_paths_iff opt_json_eq_refl wf_data)

lemma path_reported:
  assumes "invar c" and "invar n" and "p \<noteq> ''.metadata''"
  shows "p \<in> set (diff_paths labels annotations finalizers data c n) \<longleftrightarrow>
     (\<exists>s k. p = ''.'' @ s @ ''.'' @ k
        \<and> \<not> opt_json_eq (section_field (data c) s k) (section_field (data n) s k))"
  using assms(3) set_diff_data[OF wf_data wf_data, OF assms(1,2)]
  by (auto simp: diff_paths_def)

end

end
