(* ===== verification/Versioning.thy ===== *)
theory Versioning
  imports Drogue_Prelude
begin

text \<open>
  Generations and revisions (\<open>database-common/src/models/gen.rs\<close>).  The macros
  \<open>generation!\<close> and \<open>revision!\<close> implement the setters for both entity types, the blanket
  implementation of \<open>Advance\<close> works on any type that has them; here the accessors of a
  type are the first arguments, and the locale \<open>versioned\<close> states what they promise.
  \<open>u64\<close> additions wrap around, as they do in a release build.
\<close>

datatype advance_error = NotIncrementing u64 u64

definition set_generation ::
  "('t \<Rightarrow> u64) \<Rightarrow> (u64 \<Rightarrow> 't \<Rightarrow> 't) \<Rightarrow> u64 \<Rightarrow> 't \<Rightarrow> advance_error + (u64 \<times> 't)" where
  "set_generation get put generation self =
     (let current = get self in
      if current \<le> generation then Inr (generation, put generation self)
      else Inl (NotIncrementing current generation))"

definition set_revision ::
  "('t \<Rightarrow> u64) \<Rightarrow> (u64 \<Rightarrow> 't \<Rightarrow> 't) \<Rightarrow> u64 \<Rightarrow> 't \<Rightarrow> advance_error + (u64 \<times> 't)" where
  "set_revision get put revision self =
     (let current = get self in
      if current < revision then Inr (revision, put revision self)
      else Inl (NotIncrementing current revision))"

text \<open>
  \<open>advance_from\<close> keeps the outcome of \<open>set_revision\<close> for the end: the generation is set
  in between, once, to the next one if some path starts with \<open>.spec\<close> (the loop breaks
  there), otherwise to the current one, and an error there wins.  The result carries the
  final state of \<open>self\<close>, which on an error of \<open>set_revision\<close> has the new generation
  nevertheless; callers drop it then.
\<close>

definition advance_from ::
  "('t \<Rightarrow> u64) \<Rightarrow> (u64 \<Rightarrow> 't \<Rightarrow> 't) \<Rightarrow> ('t \<Rightarrow> u64) \<Rightarrow> (u64 \<Rightarrow> 't \<Rightarrow> 't)
    \<Rightarrow> string list \<Rightarrow> 't \<Rightarrow> 't \<Rightarrow> advance_error + (u64 \<times> 't)" where
  "advance_from gen put_gen revn put_revn paths self current =
     (let result = set_revision revn put_revn (revn current + 1) self;
          self' = (case result of Inl _ \<Rightarrow> self | Inr (_, s) \<Rightarrow> s);
          generation = (if list_ex (\<lambda>path. starts_with path ''.spec'') paths
                        then gen current + 1 else gen current)
      in rbind (set_generation gen put_gen generation self')
           (\<lambda>(_, self''). rbind result (\<lambda>(r, _). Inr (r, self''))))"

definition advance_revision ::
  "('t \<Rightarrow> u64) \<Rightarrow> (u64 \<Rightarrow> 't \<Rightarrow> 't) \<Rightarrow> 't \<Rightarrow> advance_error + (u64 \<times> 't)" where
  "advance_revision revn put_revn self = set_revision revn put_revn (revn self + 1) self"

section \<open>The \<open>Generation\<close> and \<open>Revision\<close> interface\<close>

locale versioned =
  fixes gen :: "'t \<Rightarrow> u64" and put_gen :: "u64 \<Rightarrow> 't \<Rightarrow> 't"
    and revn :: "'t \<Rightarrow> u64" and put_revn :: "u64 \<Rightarrow> 't \<Rightarrow> 't"
  assumes gen_put [simp]: "gen (put_gen g t) = g" "revn (put_gen g t) = revn t"
    and revn_put [simp]: "revn (put_revn r t) = r" "gen (put_revn r t) = gen t"
    and put_comm: "put_gen g (put_revn r t) = put_revn r (put_gen g t)"
begin

text \<open>A revision never stands still: it moves up by one, or the operation fails.\<close>

lemma advance_revision_Inr:
  "advance_revision revn put_revn t = Inr (r, t') \<longleftrightarrow>
     revn t \<noteq> -1 \<and> r = revn t + 1 \<and> t' = put_revn (revn t + 1) t"
  by (auto simp: advance_revision_def set_revision_def Let_def max_word_plus_one)

lemma advance_from_fresh:
  assumes "gen self = 0" and "revn self = 0"
  shows "advance_from gen put_gen revn put_revn paths self current =
     (if revn current = -1 then Inl (NotIncrementing 0 0)
      else Inr (revn current + 1,
        put_gen (if list_ex (\<lambda>path. starts_with path ''.spec'') paths then gen current + 1
                 else gen current) (put_revn (revn current + 1) self)))"
proof (cases "revn current = -1")
  case True
  then show ?thesis
    using assms by (simp add: advance_from_def set_revision_def set_generation_def Let_def)
next
  case False
  then have "0 < revn current + 1"
    by (metis add_eq_0_iff2 word_neq_0_conv)
  with False show ?thesis
    using assms by (simp add: advance_from_def set_revision_def set_generation_def Let_def)
qed

lemma advance_from_Inr:
  assumes "advance_from gen put_gen revn put_revn paths self current = Inr (r, t)"
  shows "r = revn current + 1" and "revn t = r" and "revn self < r"
    and "gen t = (if list_ex (\<lambda>path. starts_with path ''.spec'') paths
                  then gen current + 1 else gen current)"
    and "gen self \<le> gen t"
  using assms
  by (auto simp: advance_from_def set_revision_def set_generation_def Let_def result_simps
      split: if_splits)

end

end
