(* ===== verification/Authz.thy ===== *)
theory Authz
  imports Drogue_Prelude
begin

text \<open>
  Authorization of registry operations: the users and roles
  (\<open>service-api/src/auth/user/mod.rs\<close>, \<open>service-api/src/admin\<close>), the service errors
  (\<open>database-common/src/error.rs\<close>) and the decision function \<open>authorize\<close> with its
  wrappers (\<open>database-common/src/auth.rs\<close>).
\<close>

section \<open>Service errors\<close>

datatype sql_state = UNIQUE_VIOLATION | FOREIGN_KEY_VIOLATION | OtherState string

datatype service_error =
    Internal string
  | Pool string
  | Database sql_state
  | NotAuthorized
  | NotFound
  | Conflict string
  | ReferenceNotFound
  | BadRequest string
  | OptimisticLockFailed

fun err_sql_state :: "service_error \<Rightarrow> sql_state option" where
  "err_sql_state (Database st) = Some st"
| "err_sql_state _ = None"

text \<open>The HTTP status and the error code of the response a service error becomes.\<close>

fun error_response :: "service_error \<Rightarrow> nat \<times> string" where
  "error_response (Internal _) = (500, ''InternalError'')"
| "error_response (Pool _) = (503, ''PoolError'')"
| "error_response (Database _) = (503, ''DatabaseError'')"
| "error_response NotAuthorized = (403, ''AuthenticationError'')"
| "error_response NotFound = (404, ''NotFound'')"
| "error_response (Conflict _) = (409, ''Conflict'')"
| "error_response ReferenceNotFound = (404, ''ReferenceNotFound'')"
| "error_response (BadRequest _) = (400, ''BadRequest'')"
| "error_response OptimisticLockFailed = (409, ''OptimisticLockFailed'')"

section \<open>Users and roles\<close>

record user_details =
  ud_user_id :: string
  ud_roles :: "string list"

datatype user_information = Authenticated user_details | Anonymous

fun user_id :: "user_information \<Rightarrow> string option" where
  "user_id (Authenticated d) = Some (ud_user_id d)"
| "user_id Anonymous = None"

fun is_admin :: "user_information \<Rightarrow> bool" where
  "is_admin (Authenticated details) = list_ex (\<lambda>s. s = ''drogue-admin'') (ud_roles details)"
| "is_admin Anonymous = False"

datatype role = RoleAdmin | RoleManager | RoleReader

datatype permission = PermOwner | PermAdmin | PermWrite | PermRead

datatype outcome = Allow | Deny

record resource =
  res_owner :: "string option"
  res_members :: "role smap"

section \<open>The decision\<close>

fun member_allows :: "role \<Rightarrow> permission \<Rightarrow> outcome" where
  "member_allows r PermOwner = Deny"
| "member_allows r PermAdmin = (case r of RoleAdmin \<Rightarrow> Allow | _ \<Rightarrow> Deny)"
| "member_allows r PermWrite =
     (case r of RoleAdmin \<Rightarrow> Allow | RoleManager \<Rightarrow> Allow | _ \<Rightarrow> Deny)"
| "member_allows r PermRead = Allow"

definition authorize :: "resource \<Rightarrow> user_information \<Rightarrow> permission \<Rightarrow> outcome" where
  "authorize resource identity permission =
     (if is_admin identity then Allow
      else case (res_owner resource, user_id identity) of
        (None, _) \<Rightarrow> Allow
      | (Some owner, user) \<Rightarrow>
          if user = Some owner then Allow
          else if permission = PermOwner then Deny
          else (let user = (case user of Some u \<Rightarrow> u | None \<Rightarrow> []) in
                case map_of (res_members resource) user of
                  Some member \<Rightarrow> member_allows member permission
                | None \<Rightarrow> Deny))"

definition ensure_with ::
  "resource \<Rightarrow> user_information \<Rightarrow> permission \<Rightarrow> service_error \<Rightarrow> service_error + unit" where
  "ensure_with resource identity permission f =
     (case authorize resource identity permission of Allow \<Rightarrow> Inr () | Deny \<Rightarrow> Inl f)"

definition ensure :: "resource \<Rightarrow> user_information \<Rightarrow> permission \<Rightarrow> service_error + unit" where
  "ensure resource identity permission = ensure_with resource identity permission NotAuthorized"

lemma ensure_with_eq [result_simps]:
  "ensure_with r i p f = Inr u \<longleftrightarrow> authorize r i p = Allow"
  "ensure_with r i p f = Inl e \<longleftrightarrow> authorize r i p = Deny \<and> e = f"
  by (auto simp: ensure_with_def split: outcome.splits)

lemma ensure_eq [result_simps]:
  "ensure r i p = Inr u \<longleftrightarrow> authorize r i p = Allow"
  "ensure r i p = Inl e \<longleftrightarrow> authorize r i p = Deny \<and> e = NotAuthorized"
  by (auto simp: ensure_def result_simps)

section \<open>Permissions are ordered\<close>

text \<open>
  Read, write, admin, owner: each permission includes the ones before it.  The order makes
  "may do at least this" a comparison.
\<close>

fun perm_rank :: "permission \<Rightarrow> nat" where
  "perm_rank PermRead = 0"
| "perm_rank PermWrite = 1"
| "perm_rank PermAdmin = 2"
| "perm_rank PermOwner = 3"

lemma perm_rank_inj: "perm_rank p = perm_rank q \<Longrightarrow> p = q"
  by (cases p; cases q) auto

instantiation permission :: linorder
begin

definition less_eq_permission :: "permission \<Rightarrow> permission \<Rightarrow> bool" where
  "less_eq_permission p q \<longleftrightarrow> perm_rank p \<le> perm_rank q"

definition less_permission :: "permission \<Rightarrow> permission \<Rightarrow> bool" where
  "less_permission p q \<longleftrightarrow> perm_rank p < perm_rank q"

instance
  by standard (auto simp: less_eq_permission_def less_permission_def dest: perm_rank_inj)

end

text \<open>The strongest permission a role carries.\<close>

fun role_permission :: "role \<Rightarrow> permission" where
  "role_permission RoleAdmin = PermAdmin"
| "role_permission RoleManager = PermWrite"
| "role_permission RoleReader = PermRead"

lemma member_allows_iff: "member_allows r p = Allow \<longleftrightarrow> p \<le> role_permission r"
  by (cases p; cases r) (auto simp: less_eq_permission_def)

text \<open>The name under which the member list is searched: the empty one for anonymous access.\<close>

definition member_name :: "user_information \<Rightarrow> string" where
  "member_name i = (case user_id i of Some u \<Rightarrow> u | None \<Rightarrow> [])"

text \<open>
  The reference decision: administrators and everybody on an unowned resource may do
  anything, the owner too, and a member what the role carries.
\<close>

definition may :: "resource \<Rightarrow> user_information \<Rightarrow> permission \<Rightarrow> bool" where
  "may r i p \<longleftrightarrow> is_admin i \<or> res_owner r = None \<or> user_id i = res_owner r
     \<or> (\<exists>m. map_of (res_members r) (member_name i) = Some m \<and> p \<le> role_permission m)"

lemma role_not_owner: "\<not> PermOwner \<le> role_permission m"
  by (cases m) (auto simp: less_eq_permission_def)

lemma authorize_Deny: "authorize r i p = Deny \<longleftrightarrow> authorize r i p \<noteq> Allow"
  by (cases "authorize r i p") auto

end
