(* ===== verification/Sql_Select.thy ===== *)
theory Sql_Select
  imports Authz
begin

text \<open>
  The query builder of the registry (\<open>database-common/src/models/sql.rs\<close>) over the label
  operations of \<open>service-api/src/labels\<close> and the locks of \<open>database-common/src/models/mod.rs\<close>.

  The builder appends text and parameters.  Beside the text the model keeps the list of
  conditions that were appended, as a ghost field: \<open>render_clauses\<close> says what text they
  have and the builder's invariant says that the text is exactly theirs.  \<open>holds\<close> is the
  meaning of a condition on a row, with SQL's three truth values (\<open>None\<close> is unknown), and
  \<open>run_select\<close> the rows a built query selects.
\<close>

section \<open>Labels, locks, parameters\<close>

datatype operation =
    Eq string string
  | NotEq string string
  | In string "string list"
  | NotIn string "string list"
  | Exists string
  | NotExists string

datatype lock = LockNone | ForUpdate | ForShare

definition nl :: string where "nl = [CHR 0x0A]"

definition quoted :: "string \<Rightarrow> string" where
  "quoted s = [CHR 0x27] @ s @ [CHR 0x27]"

fun lock_str :: "lock \<Rightarrow> string" where
  "lock_str LockNone = []"
| "lock_str ForUpdate = ''FOR UPDATE''"
| "lock_str ForShare = ''FOR SHARE''"

datatype sql_param = PStr string | PStrs "string list"

datatype sql_type = VARCHAR | VARCHAR_ARRAY

section \<open>Conditions\<close>

text \<open>A condition refers to the parameters by their one-based position.\<close>

datatype clause =
    CName nat
  | CExists nat
  | CNotExists nat
  | CEq nat nat
  | CNotEq nat nat
  | CIn nat nat
  | CNotIn nat nat
  | CAuth nat

definition ph :: "nat \<Rightarrow> string" where
  "ph n = ''$'' @ nat_str n"

definition role_set :: string where
  "role_set = '' IN ('' @ quoted ''reader'' @ '', '' @ quoted ''manager'' @ '', ''
     @ quoted ''admin'' @ '')''"

definition auth_text :: "nat \<Rightarrow> string" where
  "auth_text idx = nl @ ''    ('' @ nl
     @ ''        OWNER='' @ ph idx @ nl
     @ ''    OR'' @ nl
     @ ''        MEMBERS->'' @ ph idx @ ''->>'' @ quoted ''role'' @ role_set @ nl
     @ ''    OR'' @ nl
     @ ''        MEMBERS->'' @ quoted [] @ ''->>'' @ quoted ''role'' @ role_set @ nl
     @ ''    )'' @ nl"

fun clause_text :: "clause \<Rightarrow> string" where
  "clause_text (CName i) = '' NAME='' @ ph i"
| "clause_text (CExists i) = '' LABELS ? '' @ ph i"
| "clause_text (CNotExists i) = '' (NOT LABELS ? '' @ ph i @ '')''"
| "clause_text (CEq i j) = '' LABELS ->> '' @ ph i @ '' = '' @ ph j"
| "clause_text (CNotEq i j) = '' LABELS ->> '' @ ph i @ '' <> '' @ ph j"
| "clause_text (CIn i j) = '' LABELS ->> '' @ ph i @ '' = ANY ('' @ ph j @ '')''"
| "clause_text (CNotIn i j) = '' NOT(LABELS ->> '' @ ph i @ '' = ANY ('' @ ph j @ ''))''"
| "clause_text (CAuth i) = auth_text i"

text \<open>
  The text of a list of conditions: the first one is introduced by \<open>WHERE\<close>, unless the
  select text already has one, every other by \<open>AND\<close>.
\<close>

fun render_clauses :: "bool \<Rightarrow> clause list \<Rightarrow> string" where
  "render_clauses have_where [] = []"
| "render_clauses have_where (c # cs) =
     nl @ (if have_where then ''AND'' else ''WHERE'') @ clause_text c @ render_clauses True cs"

lemma render_clauses_snoc:
  "render_clauses w (cs @ [c]) = render_clauses w cs
     @ nl @ (if w \<or> cs \<noteq> [] then ''AND'' else ''WHERE'') @ clause_text c"
  by (induction cs arbitrary: w) auto

section \<open>The builder\<close>

record builder =
  sb_select :: string
  sb_params :: "sql_param list"
  sb_types :: "sql_type list"
  sb_have_where :: bool
  sb_sort :: "string list"
  sb_lock :: lock
  sb_limit :: "nat option"
  sb_offset :: "nat option"
  sb_clauses :: "clause list"

definition builder_new :: "string \<Rightarrow> sql_param list \<Rightarrow> sql_type list \<Rightarrow> builder" where
  "builder_new select params types =
     \<lparr>sb_select = select, sb_params = params, sb_types = types, sb_have_where = False,
      sb_sort = [], sb_lock = LockNone, sb_limit = None, sb_offset = None, sb_clauses = []\<rparr>"

definition has_where :: "builder \<Rightarrow> builder" where
  "has_where b = b\<lparr>sb_have_where := True\<rparr>"

definition ensure_where_or_and :: "builder \<Rightarrow> builder" where
  "ensure_where_or_and b =
     (if \<not> sb_have_where b
      then b\<lparr>sb_have_where := True, sb_select := sb_select b @ nl @ ''WHERE''\<rparr>
      else b\<lparr>sb_select := sb_select b @ nl @ ''AND''\<rparr>)"

definition sb_limit_to :: "nat option \<Rightarrow> builder \<Rightarrow> builder" where
  "sb_limit_to limit b = b\<lparr>sb_limit := limit\<rparr>"

definition sb_offset_to :: "nat option \<Rightarrow> builder \<Rightarrow> builder" where
  "sb_offset_to offset b = b\<lparr>sb_offset := offset\<rparr>"

definition sb_lock_to :: "lock \<Rightarrow> builder \<Rightarrow> builder" where
  "sb_lock_to lock b = b\<lparr>sb_lock := lock\<rparr>"

definition sb_sort_by :: "string list \<Rightarrow> builder \<Rightarrow> builder" where
  "sb_sort_by columns b = b\<lparr>sb_sort := columns\<rparr>"

text \<open>\<open>params.push\<close> with its type, and the text of one condition appended.\<close>

definition push_param :: "sql_param \<Rightarrow> sql_type \<Rightarrow> builder \<Rightarrow> builder" where
  "push_param p t b = b\<lparr>sb_params := sb_params b @ [p], sb_types := sb_types b @ [t]\<rparr>"

definition push_clause :: "clause \<Rightarrow> builder \<Rightarrow> builder" where
  "push_clause c b = b\<lparr>sb_select := sb_select b @ clause_text c, sb_clauses := sb_clauses b @ [c]\<rparr>"

definition sb_name :: "string option \<Rightarrow> builder \<Rightarrow> builder" where
  "sb_name name b =
     (case name of
        None \<Rightarrow> b
      | Some n \<Rightarrow>
          let b = push_param (PStr n) VARCHAR (ensure_where_or_and b)
          in push_clause (CName (length (sb_params b))) b)"

fun sb_label :: "operation \<Rightarrow> builder \<Rightarrow> builder" where
  "sb_label (Exists label) b =
     (let b = push_param (PStr label) VARCHAR (ensure_where_or_and b)
      in push_clause (CExists (length (sb_params b))) b)"
| "sb_label (NotExists label) b =
     (let b = push_param (PStr label) VARCHAR (ensure_where_or_and b)
      in push_clause (CNotExists (length (sb_params b))) b)"
| "sb_label (Eq label value) b =
     (let b = push_param (PStr value) VARCHAR (push_param (PStr label) VARCHAR (ensure_where_or_and b))
      in push_clause (CEq (length (sb_params b) - 1) (length (sb_params b))) b)"
| "sb_label (NotEq label value) b =
     (let b = push_param (PStr value) VARCHAR (push_param (PStr label) VARCHAR (ensure_where_or_and b))
      in push_clause (CNotEq (length (sb_params b) - 1) (length (sb_params b))) b)"
| "sb_label (In label values) b =
     (let b = push_param (PStrs values) VARCHAR_ARRAY (push_param (PStr label) VARCHAR (ensure_where_or_and b))
      in push_clause (CIn (length (sb_params b) - 1) (length (sb_params b))) b)"
| "sb_label (NotIn label values) b =
     (let b = push_param (PStrs values) VARCHAR_ARRAY (push_param (PStr label) VARCHAR (ensure_where_or_and b))
      in push_clause (CNotIn (length (sb_params b) - 1) (length (sb_params b))) b)"

definition sb_labels :: "operation list \<Rightarrow> builder \<Rightarrow> builder" where
  "sb_labels labels b = fold sb_label labels b"

definition auth_read :: "user_information option \<Rightarrow> builder \<Rightarrow> builder" where
  "auth_read user b =
     (case user of
        None \<Rightarrow> b
      | Some user \<Rightarrow>
          if is_admin user then b
          else let b = ensure_where_or_and b;
                   b = (case user of
                          Authenticated d \<Rightarrow> push_param (PStr (ud_user_id d)) VARCHAR b
                        | Anonymous \<Rightarrow> push_param (PStr []) VARCHAR b);
                   idx = length (sb_params b)
               in push_clause (CAuth idx) b)"

definition build :: "builder \<Rightarrow> string \<times> sql_param list \<times> sql_type list" where
  "build b =
     (let select = sb_select b
            @ (if sb_sort b \<noteq> [] then nl @ ''ORDER BY '' @ join '','' (sb_sort b) else [])
            @ (case sb_limit b of Some n \<Rightarrow> nl @ ''LIMIT '' @ nat_str n | None \<Rightarrow> [])
            @ (case sb_offset b of Some n \<Rightarrow> nl @ ''OFFSET '' @ nat_str n | None \<Rightarrow> [])
            @ nl @ lock_str (sb_lock b)
      in (select, sb_params b, sb_types b))"

section \<open>The meaning of a query\<close>

record sel_row =
  sr_name :: string
  sr_labels :: "string smap option"
  sr_owner :: "string option"
  sr_members :: "role smap option"

text \<open>SQL comparison: unknown if a side is \<open>NULL\<close>; disjunction and negation of truth values.\<close>

definition sql_eq :: "'a option \<Rightarrow> 'a option \<Rightarrow> bool option" where
  "sql_eq x y = Option.bind x (\<lambda>a. map_option (\<lambda>b. a = b) y)"

fun sql_or :: "bool option \<Rightarrow> bool option \<Rightarrow> bool option" where
  "sql_or (Some True) _ = Some True"
| "sql_or _ (Some True) = Some True"
| "sql_or (Some False) (Some False) = Some False"
| "sql_or _ _ = None"

definition sql_not :: "bool option \<Rightarrow> bool option" where
  "sql_not = map_option Not"

text \<open>\<open>x = ANY (array)\<close>: false on an empty array, unknown on a \<open>NULL\<close> left side.\<close>

definition sql_eq_any :: "'a option \<Rightarrow> 'a list \<Rightarrow> bool option" where
  "sql_eq_any x ys = (if ys = [] then Some False else map_option (\<lambda>a. a \<in> set ys) x)"

text \<open>\<open>MEMBERS->name->>'role' IN ('reader', 'manager', 'admin')\<close>: the three names are all roles.\<close>

definition sql_member :: "role smap option \<Rightarrow> string \<Rightarrow> bool option" where
  "sql_member members name = map_option (\<lambda>_. True) (Option.bind members (\<lambda>m. map_of m name))"

definition param_str :: "sql_param list \<Rightarrow> nat \<Rightarrow> string option" where
  "param_str ps i =
     (if 0 < i \<and> i \<le> length ps then (case ps ! (i - 1) of PStr s \<Rightarrow> Some s | _ \<Rightarrow> None) else None)"

definition param_strs :: "sql_param list \<Rightarrow> nat \<Rightarrow> string list option" where
  "param_strs ps i =
     (if 0 < i \<and> i \<le> length ps then (case ps ! (i - 1) of PStrs s \<Rightarrow> Some s | _ \<Rightarrow> None) else None)"

definition label_of :: "sel_row \<Rightarrow> string \<Rightarrow> string option" where
  "label_of row l = Option.bind (sr_labels row) (\<lambda>m. map_of m l)"

fun holds :: "sql_param list \<Rightarrow> clause \<Rightarrow> sel_row \<Rightarrow> bool option" where
  "holds ps (CName i) row = sql_eq (Some (sr_name row)) (param_str ps i)"
| "holds ps (CExists i) row =
     Option.bind (param_str ps i) (\<lambda>l. map_option (\<lambda>m. l \<in> set (keys_of m)) (sr_labels row))"
| "holds ps (CNotExists i) row =
     sql_not (Option.bind (param_str ps i) (\<lambda>l. map_option (\<lambda>m. l \<in> set (keys_of m)) (sr_labels row)))"
| "holds ps (CEq i j) row = sql_eq (Option.bind (param_str ps i) (label_of row)) (param_str ps j)"
| "holds ps (CNotEq i j) row =
     sql_not (sql_eq (Option.bind (param_str ps i) (label_of row)) (param_str ps j))"
| "holds ps (CIn i j) row =
     Option.bind (param_strs ps j) (sql_eq_any (Option.bind (param_str ps i) (label_of row)))"
| "holds ps (CNotIn i j) row =
     sql_not (Option.bind (param_strs ps j) (sql_eq_any (Option.bind (param_str ps i) (label_of row))))"
| "holds ps (CAuth i) row =
     Option.bind (param_str ps i) (\<lambda>u. sql_or (sql_eq (sr_owner row) (Some u))
       (sql_or (sql_member (sr_members row) u) (sql_member (sr_members row) [])))"

definition selects :: "builder \<Rightarrow> sel_row \<Rightarrow> bool" where
  "selects b row \<longleftrightarrow> (\<forall>c \<in> set (sb_clauses b). holds (sb_params b) c row = Some True)"

text \<open>
  The rows of a query: filtered, ordered by name if the builder sorts (\<open>collate\<close> stands for
  the collation of the database), then \<open>OFFSET\<close> and \<open>LIMIT\<close>.
\<close>

definition run_select :: "(string \<Rightarrow> nat) \<Rightarrow> ('r \<Rightarrow> sel_row) \<Rightarrow> builder \<Rightarrow> 'r list \<Rightarrow> 'r list" where
  "run_select collate view b rows =
     (let rs = filter (\<lambda>r. selects b (view r)) rows;
          rs = (if sb_sort b \<noteq> [] then sort_key (\<lambda>r. collate (sr_name (view r))) rs else rs);
          rs = (case sb_offset b of Some n \<Rightarrow> drop n rs | None \<Rightarrow> rs)
      in (case sb_limit b of Some n \<Rightarrow> take n rs | None \<Rightarrow> rs))"

section \<open>The builder's invariant\<close>

fun param_typed :: "sql_param \<Rightarrow> sql_type \<Rightarrow> bool" where
  "param_typed (PStr _) VARCHAR = True"
| "param_typed (PStrs _) VARCHAR_ARRAY = True"
| "param_typed _ _ = False"

fun clause_ok :: "sql_param list \<Rightarrow> clause \<Rightarrow> bool" where
  "clause_ok ps (CName i) = (param_str ps i \<noteq> None)"
| "clause_ok ps (CExists i) = (param_str ps i \<noteq> None)"
| "clause_ok ps (CNotExists i) = (param_str ps i \<noteq> None)"
| "clause_ok ps (CEq i j) = (param_str ps i \<noteq> None \<and> param_str ps j \<noteq> None)"
| "clause_ok ps (CNotEq i j) = (param_str ps i \<noteq> None \<and> param_str ps j \<noteq> None)"
| "clause_ok ps (CIn i j) = (param_str ps i \<noteq> None \<and> param_strs ps j \<noteq> None)"
| "clause_ok ps (CNotIn i j) = (param_str ps i \<noteq> None \<and> param_strs ps j \<noteq> None)"
| "clause_ok ps (CAuth i) = (param_str ps i \<noteq> None)"

definition sb_inv :: "string \<Rightarrow> bool \<Rightarrow> builder \<Rightarrow> bool" where
  "sb_inv base w b \<longleftrightarrow>
     sb_select b = base @ render_clauses w (sb_clauses b)
     \<and> sb_have_where b = (w \<or> sb_clauses b \<noteq> [])
     \<and> list_all2 param_typed (sb_params b) (sb_types b)
     \<and> (\<forall>c \<in> set (sb_clauses b). clause_ok (sb_params b) c)"

text \<open>
  Every condition is appended the same way: the connective, the parameters, the text.
  \<open>add_clause\<close> is that common step and the operations are instances of it.
\<close>

definition add_clause :: "sql_param list \<Rightarrow> sql_type list \<Rightarrow> clause \<Rightarrow> builder \<Rightarrow> builder" where
  "add_clause ps ts c b = push_clause c
     ((ensure_where_or_and b)\<lparr>sb_params := sb_params b @ ps, sb_types := sb_types b @ ts\<rparr>)"

lemmas push_defs = push_param_def push_clause_def ensure_where_or_and_def add_clause_def

lemma sb_name_add: "sb_name (Some n) b = add_clause [PStr n] [VARCHAR] (CName (Suc (length (sb_params b)))) b"
  by (simp add: sb_name_def push_defs)

fun op_clause :: "nat \<Rightarrow> operation \<Rightarrow> clause" where
  "op_clause n (Exists l) = CExists (Suc n)"
| "op_clause n (NotExists l) = CNotExists (Suc n)"
| "op_clause n (Eq l v) = CEq (Suc n) (Suc (Suc n))"
| "op_clause n (NotEq l v) = CNotEq (Suc n) (Suc (Suc n))"
| "op_clause n (In l vs) = CIn (Suc n) (Suc (Suc n))"
| "op_clause n (NotIn l vs) = CNotIn (Suc n) (Suc (Suc n))"

fun op_params :: "operation \<Rightarrow> sql_param list" where
  "op_params (Exists l) = [PStr l]"
| "op_params (NotExists l) = [PStr l]"
| "op_params (Eq l v) = [PStr l, PStr v]"
| "op_params (NotEq l v) = [PStr l, PStr v]"
| "op_params (In l vs) = [PStr l, PStrs vs]"
| "op_params (NotIn l vs) = [PStr l, PStrs vs]"

fun type_of_param :: "sql_param \<Rightarrow> sql_type" where
  "type_of_param (PStr _) = VARCHAR"
| "type_of_param (PStrs _) = VARCHAR_ARRAY"

lemma sb_label_add:
  "sb_label op b = add_clause (op_params op) (map type_of_param (op_params op))
     (op_clause (length (sb_params b)) op) b"
  by (cases op) (simp_all add: push_defs Let_def)

lemma auth_read_open [simp]:
  "auth_read None b = b"
  "is_admin u \<Longrightarrow> auth_read (Some u) b = b"
  by (simp_all add: auth_read_def)

lemma auth_read_add:
  "\<not> is_admin u \<Longrightarrow> auth_read (Some u) b =
     add_clause [PStr (member_name u)] [VARCHAR] (CAuth (Suc (length (sb_params b)))) b"
  by (cases u) (simp_all add: auth_read_def push_defs member_name_def Let_def)

lemma param_append:
  "param_str ps i \<noteq> None \<Longrightarrow> param_str (ps @ qs) i = param_str ps i"
  "param_strs ps i \<noteq> None \<Longrightarrow> param_strs (ps @ qs) i = param_strs ps i"
  by (auto simp: param_str_def param_strs_def nth_append split: if_splits)

lemma param_next [simp]:
  "param_str (ps @ PStr s # qs) (Suc (length ps)) = Some s"
  "param_str (ps @ [p, PStr s]) (Suc (Suc (length ps))) = Some s"
  "param_strs (ps @ [p, PStrs ss]) (Suc (Suc (length ps))) = Some ss"
  by (simp_all add: param_str_def param_strs_def nth_append)

lemma clause_ok_append: "clause_ok ps c \<Longrightarrow> clause_ok (ps @ qs) c"
  by (cases c) (auto simp: param_append)

lemma holds_append: "clause_ok ps c \<Longrightarrow> holds (ps @ qs) c row = holds ps c row"
  by (cases c) (simp_all add: param_append del: not_None_eq)

lemma param_typed_type_of1: "param_typed p (type_of_param p)"
  by (cases p) auto

lemma param_typed_type_of: "list_all2 param_typed ps (map type_of_param ps)"
  by (induction ps) (auto simp: param_typed_type_of1)

lemma sb_inv_add_clause:
  assumes "sb_inv base w b" and "list_all2 param_typed ps ts" and "clause_ok (sb_params b @ ps) c"
  shows "sb_inv base w (add_clause ps ts c b)"
  using assms
  by (auto simp: sb_inv_def push_defs render_clauses_snoc list_all2_appendI clause_ok_append)

lemma selects_add_clause:
  assumes "sb_inv base w b"
  shows "selects (add_clause ps ts c b) row \<longleftrightarrow>
     selects b row \<and> holds (sb_params b @ ps) c row = Some True"
  using assms by (auto simp: sb_inv_def selects_def push_defs holds_append)

lemma sb_params_add_clause [simp]: "sb_params (add_clause ps ts c b) = sb_params b @ ps"
  by (simp add: push_defs)

text \<open>The operations keep the invariant.\<close>

lemma sb_inv_new: "sb_inv s False (builder_new s [] [])"
  by (simp add: sb_inv_def builder_new_def)

lemma sb_inv_has_where:
  "list_all2 param_typed ps ts \<Longrightarrow> sb_inv s True (has_where (builder_new s ps ts))"
  by (simp add: sb_inv_def builder_new_def has_where_def)

lemma sb_inv_name: "sb_inv base w b \<Longrightarrow> sb_inv base w (sb_name n b)"
  by (cases n) (auto simp: sb_name_add sb_name_def[of None] intro!: sb_inv_add_clause)

lemma op_clause_ok: "clause_ok (ps @ op_params op) (op_clause (length ps) op)"
  by (cases op) simp_all

lemma sb_inv_label: "sb_inv base w b \<Longrightarrow> sb_inv base w (sb_label op b)"
  unfolding sb_label_add by (intro sb_inv_add_clause param_typed_type_of op_clause_ok)

lemma sb_inv_labels: "sb_inv base w b \<Longrightarrow> sb_inv base w (sb_labels ops b)"
  unfolding sb_labels_def by (induction ops arbitrary: b) (auto intro: sb_inv_label)

lemma sb_inv_auth_read: "sb_inv base w b \<Longrightarrow> sb_inv base w (auth_read u b)"
  by (cases u; cases "is_admin (the u)") (auto simp: auth_read_add intro!: sb_inv_add_clause)

lemma sb_inv_options:
  "sb_inv base w b \<Longrightarrow> sb_inv base w (sb_limit_to n b)"
  "sb_inv base w b \<Longrightarrow> sb_inv base w (sb_offset_to n b)"
  "sb_inv base w b \<Longrightarrow> sb_inv base w (sb_lock_to l b)"
  "sb_inv base w b \<Longrightarrow> sb_inv base w (sb_sort_by cols b)"
  by (simp_all add: sb_inv_def sb_limit_to_def sb_offset_to_def sb_lock_to_def sb_sort_by_def)

lemmas sb_inv_intros = sb_inv_new sb_inv_has_where sb_inv_name sb_inv_labels sb_inv_auth_read
  sb_inv_options

section \<open>What the conditions select\<close>

text \<open>
  The reference meaning of a label operation on a row.  A missing label makes \<open>!=\<close> unknown,
  so the row is not selected; \<open>notin\<close> is the same but for an empty list of values.
\<close>

fun label_match :: "operation \<Rightarrow> sel_row \<Rightarrow> bool" where
  "label_match (Exists l) row \<longleftrightarrow> label_of row l \<noteq> None"
| "label_match (NotExists l) row \<longleftrightarrow> sr_labels row \<noteq> None \<and> label_of row l = None"
| "label_match (Eq l v) row \<longleftrightarrow> label_of row l = Some v"
| "label_match (NotEq l v) row \<longleftrightarrow> (\<exists>w. label_of row l = Some w \<and> w \<noteq> v)"
| "label_match (In l vs) row \<longleftrightarrow> (\<exists>w \<in> set vs. label_of row l = Some w)"
| "label_match (NotIn l vs) row \<longleftrightarrow> vs = [] \<or> (\<exists>w. label_of row l = Some w \<and> w \<notin> set vs)"

definition read_visible :: "user_information \<Rightarrow> sel_row \<Rightarrow> bool" where
  "read_visible u row \<longleftrightarrow> is_admin u \<or> sr_owner row = Some (member_name u)
     \<or> (\<exists>m. sr_members row = Some m \<and> (map_of m (member_name u) \<noteq> None \<or> map_of m [] \<noteq> None))"

lemma sql_or_True [simp]: "sql_or a b = Some True \<longleftrightarrow> a = Some True \<or> b = Some True"
  by (cases "(a, b)" rule: sql_or.cases) auto

lemma holds_op:
  "holds (ps @ op_params op) (op_clause (length ps) op) row = Some True \<longleftrightarrow> label_match op row"
  by (cases op)
    (auto simp: sql_eq_def sql_not_def sql_eq_any_def label_of_def bind_eq_Some_conv
       map_option_case in_keys_iff split: option.splits)

lemma holds_auth:
  "\<not> is_admin u \<Longrightarrow>
     holds (ps @ [PStr (member_name u)]) (CAuth (Suc (length ps))) row = Some True \<longleftrightarrow> read_visible u row"
  by (auto simp: read_visible_def sql_eq_def sql_member_def bind_eq_Some_conv split: option.splits)

lemma selects_new [simp]: "selects (builder_new s ps ts) row"
  "selects (has_where (builder_new s ps ts)) row"
  by (simp_all add: selects_def builder_new_def has_where_def)

lemma selects_name:
  "sb_inv base w b \<Longrightarrow> selects (sb_name n b) row \<longleftrightarrow>
     selects b row \<and> (case n of None \<Rightarrow> True | Some x \<Rightarrow> sr_name row = x)"
  by (cases n) (auto simp: sb_name_add sb_name_def[of None] selects_add_clause sql_eq_def)

lemma selects_labels:
  "sb_inv base w b \<Longrightarrow> selects (sb_labels ops b) row \<longleftrightarrow>
     selects b row \<and> (\<forall>op \<in> set ops. label_match op row)"
  unfolding sb_labels_def
proof (induction ops arbitrary: b)
  case (Cons op ops)
  have "selects (sb_label op b) row \<longleftrightarrow> selects b row \<and> label_match op row"
    unfolding sb_label_add using selects_add_clause[OF Cons.prems] holds_op by simp
  then show ?case using Cons.IH[OF sb_inv_label[OF Cons.prems]] by auto
qed simp

lemma selects_auth_read:
  "sb_inv base w b \<Longrightarrow> selects (auth_read u b) row \<longleftrightarrow>
     selects b row \<and> (case u of None \<Rightarrow> True | Some i \<Rightarrow> read_visible i row)"
  by (cases u; cases "is_admin (the u)")
    (auto simp: auth_read_add selects_add_clause holds_auth simp del: holds.simps,
     simp_all add: read_visible_def)

lemma selects_options [simp]:
  "selects (sb_limit_to n b) row = selects b row"
  "selects (sb_offset_to n b) row = selects b row"
  "selects (sb_lock_to l b) row = selects b row"
  "selects (sb_sort_by cols b) row = selects b row"
  by (simp_all add: selects_def sb_limit_to_def sb_offset_to_def sb_lock_to_def sb_sort_by_def)

lemma set_run_select: "set (run_select collate view b rows) \<subseteq> {r \<in> set rows. selects b (view r)}"
  by (auto simp: run_select_def Let_def split: option.splits if_splits
      dest!: in_set_takeD in_set_dropD)

lemma run_select_unlimited:
  "sb_limit b = None \<Longrightarrow> sb_offset b = None \<Longrightarrow>
     set (run_select collate view b rows) = {r \<in> set rows. selects b (view r)}"
  by (auto simp: run_select_def Let_def)

text \<open>
  The two decisions that the sources ask to keep aligned.  For a non-administrator they
  differ in two ways: the query does not list unowned applications, which \<open>authorize\<close>
  opens to everybody, and it lists an application shared with the anonymous member to
  every user, whom \<open>authorize\<close> then rejects.
\<close>

definition row_resource :: "sel_row \<Rightarrow> resource" where
  "row_resource row = \<lparr>res_owner = sr_owner row,
     res_members = (case sr_members row of None \<Rightarrow> [] | Some m \<Rightarrow> m)\<rparr>"

lemma map_of_row_members:
  "map_of (res_members (row_resource row)) k = Option.bind (sr_members row) (\<lambda>m. map_of m k)"
  by (auto simp: row_resource_def split: option.splits)

end
