(* ===== verification/Registry_Db.thy ===== *)
theory Registry_Db
  imports Json_Diff Versioning Sql_Select
begin

text \<open>
  The registry's tables and their accessors: \<open>database-common/src/models/app.rs\<close> and
  \<open>database-common/src/models/device.rs\<close>, over the schema of \<open>database-common/migrations\<close>.
  An entity is what the services work on, a row is what the table holds: \<open>LABELS\<close>,
  \<open>ANNOTATIONS\<close> and \<open>MEMBERS\<close> may be \<open>NULL\<close> there and \<open>from_row\<close> reads a default instead.

  Every accessor is one function on the database.  Deleting an application cascades to its
  devices and aliases, deleting a device to its aliases, as the foreign keys of the schema
  say.  Row locks have no effect in a sequential model and are only carried as arguments.
  Connection failures are not modelled; violated constraints are.
\<close>

section \<open>Entities and rows\<close>

datatype typed_alias = TypedAlias string string

record application =
  app_uid :: uuid
  app_name :: string
  app_labels :: "string smap"
  app_annotations :: "string smap"
  app_creation_timestamp :: timestamp
  app_resource_version :: uuid
  app_generation :: u64
  app_revision :: u64
  app_deletion_timestamp :: "timestamp option"
  app_finalizers :: "string list"
  app_owner :: "string option"
  app_transfer_owner :: "string option"
  app_members :: "role smap"
  app_data :: json

record device =
  dev_application :: string
  dev_uid :: uuid
  dev_name :: string
  dev_labels :: "string smap"
  dev_annotations :: "string smap"
  dev_creation_timestamp :: timestamp
  dev_resource_version :: uuid
  dev_generation :: u64
  dev_revision :: u64
  dev_deletion_timestamp :: "timestamp option"
  dev_finalizers :: "string list"
  dev_data :: json

record app_row =
  ar_NAME :: string
  ar_UID :: uuid
  ar_LABELS :: "string smap option"
  ar_ANNOTATIONS :: "string smap option"
  ar_CREATION_TIMESTAMP :: timestamp
  ar_GENERATION :: u64
  ar_REVISION :: u64
  ar_RESOURCE_VERSION :: uuid
  ar_DELETION_TIMESTAMP :: "timestamp option"
  ar_FINALIZERS :: "string list"
  ar_OWNER :: "string option"
  ar_TRANSFER_OWNER :: "string option"
  ar_MEMBERS :: "role smap option"
  ar_DATA :: json

record dev_row =
  dr_APP :: string
  dr_NAME :: string
  dr_UID :: uuid
  dr_LABELS :: "string smap option"
  dr_ANNOTATIONS :: "string smap option"
  dr_CREATION_TIMESTAMP :: timestamp
  dr_GENERATION :: u64
  dr_REVISION :: u64
  dr_RESOURCE_VERSION :: uuid
  dr_DELETION_TIMESTAMP :: "timestamp option"
  dr_FINALIZERS :: "string list"
  dr_DATA :: json

record app_alias_row =
  aa_TYPE :: string
  aa_ALIAS :: string
  aa_APP :: string

record dev_alias_row =
  da_APP :: string
  da_DEVICE :: string
  da_TYPE :: string
  da_ALIAS :: string

record registry =
  r_applications :: "app_row list"
  r_app_aliases :: "app_alias_row list"
  r_devices :: "dev_row list"
  r_dev_aliases :: "dev_alias_row list"

text \<open>\<open>row_to_map\<close> and \<open>fix_null_default\<close>: a \<open>NULL\<close> map is read as the empty one.\<close>

definition row_to_map :: "'v smap option \<Rightarrow> 'v smap" where
  "row_to_map col = (case col of None \<Rightarrow> [] | Some m \<Rightarrow> m)"

definition app_from_row :: "app_row \<Rightarrow> application" where
  "app_from_row row = \<lparr>
     app_uid = ar_UID row, app_name = ar_NAME row,
     app_labels = row_to_map (ar_LABELS row), app_annotations = row_to_map (ar_ANNOTATIONS row),
     app_creation_timestamp = ar_CREATION_TIMESTAMP row,
     app_resource_version = ar_RESOURCE_VERSION row,
     app_generation = ar_GENERATION row, app_revision = ar_REVISION row,
     app_deletion_timestamp = ar_DELETION_TIMESTAMP row,
     app_finalizers = ar_FINALIZERS row,
     app_owner = ar_OWNER row, app_transfer_owner = ar_TRANSFER_OWNER row,
     app_members = row_to_map (ar_MEMBERS row), app_data = ar_DATA row\<rparr>"

definition dev_from_row :: "dev_row \<Rightarrow> device" where
  "dev_from_row row = \<lparr>
     dev_application = dr_APP row, dev_uid = dr_UID row, dev_name = dr_NAME row,
     dev_labels = row_to_map (dr_LABELS row), dev_annotations = row_to_map (dr_ANNOTATIONS row),
     dev_creation_timestamp = dr_CREATION_TIMESTAMP row,
     dev_resource_version = dr_RESOURCE_VERSION row,
     dev_generation = dr_GENERATION row, dev_revision = dr_REVISION row,
     dev_deletion_timestamp = dr_DELETION_TIMESTAMP row,
     dev_finalizers = dr_FINALIZERS row, dev_data = dr_DATA row\<rparr>"

text \<open>\<open>impl Resource for Application\<close>: what an authorization looks at.\<close>

definition app_resource :: "application \<Rightarrow> resource" where
  "app_resource app = \<lparr>res_owner = app_owner app, res_members = app_members app\<rparr>"

definition app_view :: "app_row \<Rightarrow> sel_row" where
  "app_view row = \<lparr>sr_name = ar_NAME row, sr_labels = ar_LABELS row,
     sr_owner = ar_OWNER row, sr_members = ar_MEMBERS row\<rparr>"

definition dev_view :: "dev_row \<Rightarrow> sel_row" where
  "dev_view row = \<lparr>sr_name = dr_NAME row, sr_labels = dr_LABELS row,
     sr_owner = None, sr_members = None\<rparr>"

section \<open>Applications\<close>

definition app_query ::
  "string option \<Rightarrow> operation list \<Rightarrow> nat option \<Rightarrow> nat option \<Rightarrow> user_information option
    \<Rightarrow> lock \<Rightarrow> string list \<Rightarrow> builder" where
  "app_query name labels limit offset identity lck columns =
     sb_offset_to offset (sb_limit_to limit (sb_sort_by columns (sb_lock_to lck
       (auth_read identity (sb_labels labels (sb_name name (builder_new
          (nl @ ''SELECT'' @ nl @ ''    NAME,'' @ nl @ ''    UID,'' @ nl @ ''    LABELS,'' @ nl
           @ ''    ANNOTATIONS,'' @ nl @ ''    CREATION_TIMESTAMP,'' @ nl @ ''    GENERATION,'' @ nl
           @ ''    REVISION,'' @ nl @ ''    RESOURCE_VERSION,'' @ nl @ ''    DELETION_TIMESTAMP,'' @ nl
           @ ''    FINALIZERS,'' @ nl @ ''    OWNER,'' @ nl @ ''    TRANSFER_OWNER,'' @ nl
           @ ''    MEMBERS,'' @ nl @ ''    DATA'' @ nl @ ''FROM APPLICATIONS'' @ nl) [] [])))))))"

definition app_list ::
  "(string \<Rightarrow> nat) \<Rightarrow> string option \<Rightarrow> operation list \<Rightarrow> nat option \<Rightarrow> nat option
    \<Rightarrow> user_information option \<Rightarrow> lock \<Rightarrow> string list \<Rightarrow> registry \<Rightarrow> application list" where
  "app_list collate name labels limit offset identity lck columns db =
     map app_from_row (run_select collate app_view
       (app_query name labels limit offset identity lck columns) (r_applications db))"

definition app_get :: "(string \<Rightarrow> nat) \<Rightarrow> string \<Rightarrow> lock \<Rightarrow> registry \<Rightarrow> application option" where
  "app_get collate app lck db =
     (case app_list collate (Some app) [] (Some 1) None None lck [] db of
        [] \<Rightarrow> None
      | a # _ \<Rightarrow> Some a)"

text \<open>\<open>query_opt\<close>: no row, one row, or an error.\<close>

fun query_opt :: "'r list \<Rightarrow> service_error + 'r option" where
  "query_opt [] = Inr None"
| "query_opt [r] = Inr (Some r)"
| "query_opt _ = Inl (Database (OtherState ''RowCount''))"

definition app_lookup :: "string \<Rightarrow> registry \<Rightarrow> service_error + application option" where
  "app_lookup alias db =
     rbind (query_opt [a2. a1 \<leftarrow> r_app_aliases db, a2 \<leftarrow> r_applications db,
                           aa_APP a1 = ar_NAME a2 \<and> aa_ALIAS a1 = alias])
       (\<lambda>row. Inr (map_option app_from_row row))"

definition app_delete :: "string \<Rightarrow> registry \<Rightarrow> service_error + registry" where
  "app_delete app_id db =
     (if count_where (\<lambda>r. ar_NAME r = app_id) (r_applications db) > 0
      then Inr (db\<lparr>r_applications := delete_where (\<lambda>r. ar_NAME r = app_id) (r_applications db),
                   r_app_aliases := delete_where (\<lambda>r. aa_APP r = app_id) (r_app_aliases db),
                   r_devices := delete_where (\<lambda>r. dr_APP r = app_id) (r_devices db),
                   r_dev_aliases := delete_where (\<lambda>r. da_APP r = app_id) (r_dev_aliases db)\<rparr>)
      else Inl NotFound)"

text \<open>The values the code takes from its environment: new identifiers and the time.\<close>

record fresh =
  fr_uid :: uuid
  fr_resource_version :: uuid
  fr_db_uid :: uuid
  fr_now :: timestamp

fun app_insert_aliases :: "string \<Rightarrow> typed_alias list \<Rightarrow> registry \<Rightarrow> service_error + registry" where
  "app_insert_aliases app_id [] db = Inr db"
| "app_insert_aliases app_id (TypedAlias t a # as) db =
     (case insert_row aa_ALIAS \<lparr>aa_TYPE = t, aa_ALIAS = a, aa_APP = app_id\<rparr> (r_app_aliases db) of
        None \<Rightarrow> Inl (Database UNIQUE_VIOLATION)
      | Some rows \<Rightarrow> app_insert_aliases app_id as (db\<lparr>r_app_aliases := rows\<rparr>))"

definition app_new_row :: "fresh \<Rightarrow> application \<Rightarrow> app_row" where
  "app_new_row fr application =
     \<lparr>ar_NAME = app_name application, ar_UID = app_uid application,
      ar_LABELS = Some (app_labels application), ar_ANNOTATIONS = Some (app_annotations application),
      ar_CREATION_TIMESTAMP = fr_now fr, ar_GENERATION = app_generation application,
      ar_REVISION = app_revision application, ar_RESOURCE_VERSION = fr_resource_version fr,
      ar_DELETION_TIMESTAMP = None, ar_FINALIZERS = app_finalizers application,
      ar_OWNER = app_owner application, ar_TRANSFER_OWNER = None, ar_MEMBERS = None,
      ar_DATA = app_data application\<rparr>"

definition app_create ::
  "fresh \<Rightarrow> application \<Rightarrow> typed_alias list \<Rightarrow> registry \<Rightarrow> service_error + registry" where
  "app_create fr application aliases db =
     (case insert_row ar_NAME (app_new_row fr application) (r_applications db) of
        None \<Rightarrow> Inl (Database UNIQUE_VIOLATION)
      | Some rows \<Rightarrow>
          app_insert_aliases (app_name application) aliases (db\<lparr>r_applications := rows\<rparr>))"

text \<open>The macro \<open>update_aliases!\<close>.\<close>

definition update_aliases ::
  "nat \<Rightarrow> 'a option \<Rightarrow> registry \<Rightarrow> ('a \<Rightarrow> service_error + registry) \<Rightarrow> service_error + (nat \<times> registry)" where
  "update_aliases count aliases db code =
     (case (0 < count, aliases) of
        (True, Some a) \<Rightarrow> rbind (code a) (\<lambda>db'. Inr (count, db'))
      | (True, None) \<Rightarrow> Inr (count, db)
      | (False, _) \<Rightarrow> Inl NotFound)"

definition app_update_data ::
  "fresh \<Rightarrow> application \<Rightarrow> typed_alias list option \<Rightarrow> registry \<Rightarrow> service_error + (nat \<times> registry)" where
  "app_update_data fr application aliases db =
     (let name = app_name application;
          matches = (\<lambda>r. ar_NAME r = name);
          db' = db\<lparr>r_applications := update_where matches
            (\<lambda>r. r\<lparr>ar_LABELS := Some (app_labels application),
                  ar_ANNOTATIONS := Some (app_annotations application),
                  ar_GENERATION := app_generation application,
                  ar_REVISION := app_revision application,
                  ar_RESOURCE_VERSION := fr_resource_version fr,
                  ar_DELETION_TIMESTAMP := app_deletion_timestamp application,
                  ar_FINALIZERS := app_finalizers application,
                  ar_DATA := app_data application\<rparr>) (r_applications db)\<rparr>
      in update_aliases (count_where matches (r_applications db)) aliases db'
           (\<lambda>as. app_insert_aliases name as
              (db'\<lparr>r_app_aliases := delete_where (\<lambda>r. aa_APP r = name) (r_app_aliases db')\<rparr>)))"

definition app_update_transfer ::
  "string \<Rightarrow> string option \<Rightarrow> string option \<Rightarrow> registry \<Rightarrow> nat \<times> registry" where
  "app_update_transfer app owner transfer_owner db =
     (count_where (\<lambda>r. ar_NAME r = app) (r_applications db),
      db\<lparr>r_applications := update_where (\<lambda>r. ar_NAME r = app)
           (\<lambda>r. r\<lparr>ar_OWNER := owner, ar_TRANSFER_OWNER := transfer_owner\<rparr>) (r_applications db)\<rparr>)"

definition app_set_members :: "string \<Rightarrow> role smap \<Rightarrow> registry \<Rightarrow> nat \<times> registry" where
  "app_set_members app members db =
     (count_where (\<lambda>r. ar_NAME r = app) (r_applications db),
      db\<lparr>r_applications := update_where (\<lambda>r. ar_NAME r = app)
           (\<lambda>r. r\<lparr>ar_MEMBERS := Some members\<rparr>) (r_applications db)\<rparr>)"

section \<open>Devices\<close>

definition dev_query ::
  "string \<Rightarrow> string option \<Rightarrow> operation list \<Rightarrow> nat option \<Rightarrow> nat option \<Rightarrow> lock \<Rightarrow> builder" where
  "dev_query app name labels limit offset lck =
     sb_offset_to offset (sb_limit_to limit (sb_sort_by [''NAME''] (sb_lock_to lck
       (sb_labels labels (sb_name name (has_where (builder_new
          (nl @ ''SELECT'' @ nl @ ''    UID,'' @ nl @ ''    NAME,'' @ nl @ ''    APP,'' @ nl
           @ ''    LABELS,'' @ nl @ ''    ANNOTATIONS,'' @ nl @ ''    CREATION_TIMESTAMP,'' @ nl
           @ ''    GENERATION,'' @ nl @ ''    REVISION,'' @ nl @ ''    RESOURCE_VERSION,'' @ nl
           @ ''    DELETION_TIMESTAMP,'' @ nl @ ''    FINALIZERS,'' @ nl @ ''    DATA'' @ nl
           @ ''FROM DEVICES'' @ nl @ ''WHERE APP=$1'' @ nl) [PStr app] [VARCHAR])))))))"

definition dev_list ::
  "(string \<Rightarrow> nat) \<Rightarrow> string \<Rightarrow> string option \<Rightarrow> operation list \<Rightarrow> nat option \<Rightarrow> nat option
    \<Rightarrow> lock \<Rightarrow> registry \<Rightarrow> device list" where
  "dev_list collate app name labels limit offset lck db =
     map dev_from_row (run_select collate dev_view (dev_query app name labels limit offset lck)
       (filter (\<lambda>r. dr_APP r = app) (r_devices db)))"

definition dev_get :: "(string \<Rightarrow> nat) \<Rightarrow> string \<Rightarrow> string \<Rightarrow> lock \<Rightarrow> registry \<Rightarrow> device option" where
  "dev_get collate app device lck db =
     (case dev_list collate app (Some device) [] (Some 1) None lck db of
        [] \<Rightarrow> None
      | d # _ \<Rightarrow> Some d)"

definition dev_lookup :: "string \<Rightarrow> string \<Rightarrow> registry \<Rightarrow> service_error + device option" where
  "dev_lookup app alias db =
     rbind (query_opt [d. a \<leftarrow> r_dev_aliases db, d \<leftarrow> r_devices db,
                          da_DEVICE a = dr_NAME d \<and> da_APP a = dr_APP d
                          \<and> da_APP a = app \<and> da_ALIAS a = alias])
       (\<lambda>row. Inr (map_option dev_from_row row))"

definition dev_delete :: "string \<Rightarrow> string \<Rightarrow> registry \<Rightarrow> service_error + registry" where
  "dev_delete app device db =
     (if count_where (\<lambda>r. dr_APP r = app \<and> dr_NAME r = device) (r_devices db) > 0
      then Inr (db\<lparr>r_devices := delete_where (\<lambda>r. dr_APP r = app \<and> dr_NAME r = device) (r_devices db),
                   r_dev_aliases := delete_where (\<lambda>r. da_APP r = app \<and> da_DEVICE r = device)
                                      (r_dev_aliases db)\<rparr>)
      else Inl NotFound)"

fun dev_insert_aliases ::
  "string \<Rightarrow> string \<Rightarrow> typed_alias list \<Rightarrow> registry \<Rightarrow> service_error + registry" where
  "dev_insert_aliases app device [] db = Inr db"
| "dev_insert_aliases app device (TypedAlias t a # as) db =
     (case insert_row (\<lambda>r. (da_ALIAS r, da_APP r))
        \<lparr>da_APP = app, da_DEVICE = device, da_TYPE = t, da_ALIAS = a\<rparr> (r_dev_aliases db) of
        None \<Rightarrow> Inl (Database UNIQUE_VIOLATION)
      | Some rows \<Rightarrow> dev_insert_aliases app device as (db\<lparr>r_dev_aliases := rows\<rparr>))"

text \<open>
  \<open>create\<close> does not insert the \<open>UID\<close> of the entity: the column default of the schema,
  \<open>gen_random_uuid()\<close>, gives the row another one.
\<close>

definition dev_new_row :: "fresh \<Rightarrow> device \<Rightarrow> dev_row" where
  "dev_new_row fr device =
     \<lparr>dr_APP = dev_application device, dr_NAME = dev_name device, dr_UID = fr_db_uid fr,
      dr_LABELS = Some (dev_labels device), dr_ANNOTATIONS = Some (dev_annotations device),
      dr_CREATION_TIMESTAMP = fr_now fr, dr_GENERATION = dev_generation device,
      dr_REVISION = dev_revision device, dr_RESOURCE_VERSION = fr_resource_version fr,
      dr_DELETION_TIMESTAMP = None, dr_FINALIZERS = dev_finalizers device,
      dr_DATA = dev_data device\<rparr>"

definition dev_create ::
  "fresh \<Rightarrow> device \<Rightarrow> typed_alias list \<Rightarrow> registry \<Rightarrow> service_error + registry" where
  "dev_create fr device aliases db =
     (case insert_row (\<lambda>r. (dr_NAME r, dr_APP r)) (dev_new_row fr device) (r_devices db) of
        None \<Rightarrow> Inl (Database UNIQUE_VIOLATION)
      | Some rows \<Rightarrow>
          if dev_application device \<notin> ar_NAME ` set (r_applications db)
          then Inl (Database FOREIGN_KEY_VIOLATION)
          else dev_insert_aliases (dev_application device) (dev_name device) aliases
                 (db\<lparr>r_devices := rows\<rparr>))"

definition dev_update ::
  "fresh \<Rightarrow> device \<Rightarrow> typed_alias list option \<Rightarrow> registry \<Rightarrow> service_error + (nat \<times> registry)" where
  "dev_update fr device aliases db =
     (let app = dev_application device; name = dev_name device;
          matches = (\<lambda>r. dr_APP r = app \<and> dr_NAME r = name);
          db' = db\<lparr>r_devices := update_where matches
            (\<lambda>r. r\<lparr>dr_LABELS := Some (dev_labels device),
                  dr_ANNOTATIONS := Some (dev_annotations device),
                  dr_GENERATION := dev_generation device,
                  dr_REVISION := dev_revision device,
                  dr_RESOURCE_VERSION := fr_resource_version fr,
                  dr_DELETION_TIMESTAMP := dev_deletion_timestamp device,
                  dr_FINALIZERS := dev_finalizers device,
                  dr_DATA := dev_data device\<rparr>) (r_devices db)\<rparr>
      in update_aliases (count_where matches (r_devices db)) aliases db'
           (\<lambda>as. dev_insert_aliases app name as
              (db'\<lparr>r_dev_aliases := delete_where (\<lambda>r. da_APP r = app \<and> da_DEVICE r = name)
                                     (r_dev_aliases db')\<rparr>)))"

definition count_devices :: "string \<Rightarrow> registry \<Rightarrow> nat" where
  "count_devices app_id db = count_where (\<lambda>r. dr_APP r = app_id) (r_devices db)"

definition dev_delete_app :: "string \<Rightarrow> registry \<Rightarrow> nat \<times> registry" where
  "dev_delete_app app_id db =
     (let gone = (\<lambda>r. dr_APP r = app_id \<and> dr_FINALIZERS r = []);
          db' = db\<lparr>r_devices := delete_where gone (r_devices db),
                   r_dev_aliases := delete_where
                     (\<lambda>a. \<exists>r \<in> set (r_devices db). gone r \<and> da_APP a = dr_APP r \<and> da_DEVICE a = dr_NAME r)
                     (r_dev_aliases db)\<rparr>
      in (count_devices app_id db', db'))"

section \<open>The generic interfaces on the two entities\<close>

abbreviation app_put_generation :: "u64 \<Rightarrow> application \<Rightarrow> application" where
  "app_put_generation g a \<equiv> a\<lparr>app_generation := g\<rparr>"

abbreviation app_put_revision :: "u64 \<Rightarrow> application \<Rightarrow> application" where
  "app_put_revision r a \<equiv> a\<lparr>app_revision := r\<rparr>"

abbreviation dev_put_generation :: "u64 \<Rightarrow> device \<Rightarrow> device" where
  "dev_put_generation g d \<equiv> d\<lparr>dev_generation := g\<rparr>"

abbreviation dev_put_revision :: "u64 \<Rightarrow> device \<Rightarrow> device" where
  "dev_put_revision r d \<equiv> d\<lparr>dev_revision := r\<rparr>"

definition app_wf :: "application \<Rightarrow> bool" where
  "app_wf a \<longleftrightarrow> wf_map (app_labels a) \<and> wf_map (app_annotations a) \<and> wf_json (app_data a)"

definition dev_wf :: "device \<Rightarrow> bool" where
  "dev_wf d \<longleftrightarrow> wf_map (dev_labels d) \<and> wf_map (dev_annotations d) \<and> wf_json (dev_data d)"

interpretation app_ver: versioned app_generation app_put_generation app_revision app_put_revision
  by unfold_locales simp_all

interpretation dev_ver: versioned dev_generation dev_put_generation dev_revision dev_put_revision
  by unfold_locales simp_all

interpretation app_diff: diffable app_labels app_annotations app_finalizers app_data app_wf
  by unfold_locales (simp_all add: app_wf_def)

interpretation dev_diff: diffable dev_labels dev_annotations dev_finalizers dev_data dev_wf
  by unfold_locales (simp_all add: dev_wf_def)

section \<open>What the queries select\<close>

lemma selects_app_query:
  "selects (app_query name labels limit offset identity lck columns) row \<longleftrightarrow>
     (case name of None \<Rightarrow> True | Some x \<Rightarrow> sr_name row = x)
     \<and> (\<forall>op \<in> set labels. label_match op row)
     \<and> (case identity of None \<Rightarrow> True | Some i \<Rightarrow> read_visible i row)"
  unfolding app_query_def
  by (simp add: selects_auth_read[OF sb_inv_labels[OF sb_inv_name[OF sb_inv_new]]]
      selects_labels[OF sb_inv_name[OF sb_inv_new]] selects_name[OF sb_inv_new])

lemma selects_dev_query:
  "selects (dev_query app name labels limit offset lck) row \<longleftrightarrow>
     (case name of None \<Rightarrow> True | Some x \<Rightarrow> sr_name row = x)
     \<and> (\<forall>op \<in> set labels. label_match op row)"
proof -
  have inv: "sb_inv s True (has_where (builder_new s [PStr app] [VARCHAR]))" for s
    by (rule sb_inv_has_where) simp
  show ?thesis unfolding dev_query_def
    by (simp add: selects_labels[OF sb_inv_name[OF inv]] selects_name[OF inv])
qed

lemma query_fields [simp]:
  "sb_limit (app_query name labels limit offset identity lck columns) = limit"
  "sb_offset (app_query name labels limit offset identity lck columns) = offset"
  "sb_sort (app_query name labels limit offset identity lck columns) = columns"
  "sb_limit (dev_query app name labels limit offset lck) = limit"
  "sb_offset (dev_query app name labels limit offset lck) = offset"
  "sb_sort (dev_query app name labels limit offset lck) = [''NAME'']"
  by (simp_all add: app_query_def dev_query_def sb_offset_to_def sb_limit_to_def sb_sort_by_def)

lemma filter_pk:
  "pk key rows \<Longrightarrow> filter (\<lambda>r. key r = k) rows = (case lookup_row key k rows of None \<Rightarrow> [] | Some r \<Rightarrow> [r])"
proof (induction rows)
  case (Cons x xs)
  then show ?case
  proof (cases "key x = k")
    case True
    with Cons.prems have "filter (\<lambda>r. key r = k) xs = []" by (simp add: filter_empty_conv) (metis imageI)
    with True show ?thesis by (simp add: lookup_row_def)
  qed (simp add: lookup_row_def)
qed (simp add: lookup_row_def)

text \<open>\<open>get\<close> finds the row with the given primary key.\<close>

lemma app_get_eq:
  assumes "pk ar_NAME (r_applications db)"
  shows "app_get collate app lck db = map_option app_from_row (lookup_row ar_NAME app (r_applications db))"
proof -
  have "app_list collate (Some app) [] (Some 1) None None lck [] db =
      map app_from_row (take 1 (filter (\<lambda>r. ar_NAME r = app) (r_applications db)))"
    by (simp add: app_list_def run_select_def selects_app_query Let_def app_view_def)
  then show ?thesis
    by (simp add: app_get_def filter_pk[OF assms] split: option.splits)
qed

lemma dev_filter_pk:
  assumes "pk (\<lambda>r. (dr_NAME r, dr_APP r)) rows"
  shows "filter (\<lambda>r. dr_NAME r = name) (filter (\<lambda>r. dr_APP r = app) rows) =
     (case lookup_row (\<lambda>r. (dr_NAME r, dr_APP r)) (name, app) rows of None \<Rightarrow> [] | Some r \<Rightarrow> [r])"
proof -
  have "filter (\<lambda>r. dr_NAME r = name) (filter (\<lambda>r. dr_APP r = app) rows) =
      filter (\<lambda>r. (dr_NAME r, dr_APP r) = (name, app)) rows"
    by (simp add: conj_commute)
  also have "\<dots> = (case lookup_row (\<lambda>r. (dr_NAME r, dr_APP r)) (name, app) rows of None \<Rightarrow> [] | Some r \<Rightarrow> [r])"
    by (rule filter_pk[OF assms])
  finally show ?thesis .
qed

lemma dev_get_eq:
  assumes "pk (\<lambda>r. (dr_NAME r, dr_APP r)) (r_devices db)"
  shows "dev_get collate app device lck db =
     map_option dev_from_row (lookup_row (\<lambda>r. (dr_NAME r, dr_APP r)) (device, app) (r_devices db))"
proof -
  have "dev_list collate app (Some device) [] (Some 1) None lck db =
      map dev_from_row (take 1 (sort_key (\<lambda>r. collate (dr_NAME r))
        (filter (\<lambda>r. dr_NAME r = device) (filter (\<lambda>r. dr_APP r = app) (r_devices db)))))"
    by (simp add: dev_list_def run_select_def selects_dev_query Let_def dev_view_def del: filter_filter)
  then show ?thesis
    unfolding dev_filter_pk[OF assms] by (simp add: dev_get_def split: option.splits)
qed

section \<open>The invariant of the tables\<close>

definition reg_keys :: "registry \<Rightarrow> bool" where
  "reg_keys db \<longleftrightarrow> pk ar_NAME (r_applications db) \<and> pk aa_ALIAS (r_app_aliases db)
     \<and> pk (\<lambda>r. (dr_NAME r, dr_APP r)) (r_devices db)
     \<and> pk (\<lambda>r. (da_ALIAS r, da_APP r)) (r_dev_aliases db)"

definition reg_refs :: "registry \<Rightarrow> bool" where
  "reg_refs db \<longleftrightarrow>
     (\<forall>r \<in> set (r_app_aliases db). aa_APP r \<in> ar_NAME ` set (r_applications db))
     \<and> (\<forall>r \<in> set (r_devices db). dr_APP r \<in> ar_NAME ` set (r_applications db))
     \<and> (\<forall>r \<in> set (r_dev_aliases db).
          (da_DEVICE r, da_APP r) \<in> (\<lambda>r. (dr_NAME r, dr_APP r)) ` set (r_devices db))"

definition reg_wf :: "registry \<Rightarrow> bool" where
  "reg_wf db \<longleftrightarrow> (\<forall>r \<in> set (r_applications db). app_wf (app_from_row r))
     \<and> (\<forall>r \<in> set (r_devices db). dev_wf (dev_from_row r))"

definition reg_inv :: "registry \<Rightarrow> bool" where
  "reg_inv db \<longleftrightarrow> reg_keys db \<and> reg_refs db \<and> reg_wf db"

lemmas reg_inv_defs = reg_inv_def reg_keys_def reg_refs_def reg_wf_def

lemmas app_wf_from_row = app_wf_def app_from_row_def row_to_map_def

lemmas dev_wf_from_row = dev_wf_def dev_from_row_def row_to_map_def

lemma reg_inv_app_insert_aliases:
  "reg_inv db \<Longrightarrow> app_id \<in> ar_NAME ` set (r_applications db) \<Longrightarrow>
     app_insert_aliases app_id as db = Inr db' \<Longrightarrow>
     reg_inv db' \<and> r_applications db' = r_applications db \<and> r_devices db' = r_devices db"
proof (induction as arbitrary: db)
  case (Cons x as)
  obtain t a where x: "x = TypedAlias t a" by (cases x)
  from Cons.prems(3) obtain rows where
    ins: "insert_row aa_ALIAS \<lparr>aa_TYPE = t, aa_ALIAS = a, aa_APP = app_id\<rparr> (r_app_aliases db) = Some rows"
    and rest: "app_insert_aliases app_id as (db\<lparr>r_app_aliases := rows\<rparr>) = Inr db'"
    by (auto simp: x split: option.splits)
  have "reg_inv (db\<lparr>r_app_aliases := rows\<rparr>)"
    using Cons.prems(1,2) ins by (auto simp: reg_inv_defs table_simps)
  with Cons.IH[OF _ _ rest] Cons.prems(2) show ?case by simp
qed simp

lemma reg_inv_dev_insert_aliases:
  "reg_inv db \<Longrightarrow> (device, app) \<in> (\<lambda>r. (dr_NAME r, dr_APP r)) ` set (r_devices db) \<Longrightarrow>
     dev_insert_aliases app device as db = Inr db' \<Longrightarrow>
     reg_inv db' \<and> r_applications db' = r_applications db \<and> r_devices db' = r_devices db"
proof (induction as arbitrary: db)
  case (Cons x as)
  obtain t a where x: "x = TypedAlias t a" by (cases x)
  from Cons.prems(3) obtain rows where
    ins: "insert_row (\<lambda>r. (da_ALIAS r, da_APP r))
       \<lparr>da_APP = app, da_DEVICE = device, da_TYPE = t, da_ALIAS = a\<rparr> (r_dev_aliases db) = Some rows"
    and rest: "dev_insert_aliases app device as (db\<lparr>r_dev_aliases := rows\<rparr>) = Inr db'"
    by (auto simp: x split: option.splits)
  have "reg_inv (db\<lparr>r_dev_aliases := rows\<rparr>)"
    using Cons.prems(1,2) ins by (auto simp: reg_inv_defs table_simps)
  with Cons.IH[OF _ _ rest] Cons.prems(2) show ?case by simp
qed simp

lemma app_insert_aliases_rows:
  "app_insert_aliases n as db = Inr db' \<Longrightarrow>
     r_applications db' = r_applications db \<and> r_devices db' = r_devices db"
proof (induction as arbitrary: db)
  case (Cons x as)
  then show ?case by (cases x) (fastforce split: option.splits)
qed simp

lemma dev_insert_aliases_rows:
  "dev_insert_aliases n d as db = Inr db' \<Longrightarrow>
     r_applications db' = r_applications db \<and> r_devices db' = r_devices db
     \<and> r_app_aliases db' = r_app_aliases db"
proof (induction as arbitrary: db)
  case (Cons x as)
  then show ?case by (cases x) (fastforce split: option.splits)
qed simp

text \<open>Replacing rows of a table by rows with the same key keeps everything but \<open>reg_wf\<close>.\<close>

lemma image_update_where:
  "(\<And>r. P r \<Longrightarrow> key (f r) = key r) \<Longrightarrow> key ` set (update_where P f rows) = key ` set rows"
  by (metis list.set_map map_key_update_where)

lemma reg_inv_update_apps:
  assumes "reg_inv db" and "\<And>r. P r \<Longrightarrow> ar_NAME (f r) = ar_NAME r"
    and "\<And>r. r \<in> set (r_applications db) \<Longrightarrow> P r \<Longrightarrow> app_wf (app_from_row (f r))"
  shows "reg_inv (db\<lparr>r_applications := update_where P f (r_applications db)\<rparr>)"
proof -
  let ?rows = "update_where P f (r_applications db)"
  have "map ar_NAME ?rows = map ar_NAME (r_applications db)"
    using map_key_update_where[of P ar_NAME f] assms(2) by blast
  moreover from this have "ar_NAME ` set ?rows = ar_NAME ` set (r_applications db)"
    by (metis list.set_map)
  moreover have "\<forall>r \<in> set ?rows. app_wf (app_from_row r)"
    using assms(1,3) by (auto simp: reg_inv_defs set_update_where)
  ultimately show ?thesis using assms(1) by (simp add: reg_inv_defs)
qed

lemma reg_inv_update_devs:
  assumes "reg_inv db" and "\<And>r. P r \<Longrightarrow> (dr_NAME (f r), dr_APP (f r)) = (dr_NAME r, dr_APP r)"
    and "\<And>r. r \<in> set (r_devices db) \<Longrightarrow> P r \<Longrightarrow> dev_wf (dev_from_row (f r))"
  shows "reg_inv (db\<lparr>r_devices := update_where P f (r_devices db)\<rparr>)"
proof -
  let ?rows = "update_where P f (r_devices db)"
  have keys: "map (\<lambda>r. (dr_NAME r, dr_APP r)) ?rows = map (\<lambda>r. (dr_NAME r, dr_APP r)) (r_devices db)"
    using map_key_update_where[of P "\<lambda>r. (dr_NAME r, dr_APP r)" f] assms(2) by blast
  have "dr_APP ` set ?rows = dr_APP ` set (r_devices db)"
    using image_update_where[of P dr_APP f] assms(2) by blast
  then have apps: "\<forall>r \<in> set ?rows. dr_APP r \<in> ar_NAME ` set (r_applications db)"
    using assms(1) unfolding reg_inv_defs by (metis (no_types, lifting) imageE imageI)
  have "(\<lambda>r. (dr_NAME r, dr_APP r)) ` set ?rows = (\<lambda>r. (dr_NAME r, dr_APP r)) ` set (r_devices db)"
    by (metis keys list.set_map)
  moreover have "\<forall>r \<in> set ?rows. dev_wf (dev_from_row r)"
    using assms(1,3) by (auto simp: reg_inv_defs set_update_where)
  ultimately show ?thesis using assms(1) apps keys by (simp add: reg_inv_defs)
qed

lemma reg_inv_delete_aliases:
  "reg_inv db \<Longrightarrow> reg_inv (db\<lparr>r_app_aliases := delete_where P (r_app_aliases db)\<rparr>)"
  "reg_inv db \<Longrightarrow> reg_inv (db\<lparr>r_dev_aliases := delete_where Q (r_dev_aliases db)\<rparr>)"
  by (auto simp: reg_inv_defs table_simps intro: table_intros)

lemma update_aliases_Inr [result_simps]:
  "update_aliases n as db code = Inr (m, db') \<longleftrightarrow>
     0 < n \<and> m = n \<and> (case as of None \<Rightarrow> db' = db | Some a \<Rightarrow> code a = Inr db')"
  by (auto simp: update_aliases_def result_simps split: option.splits bool.splits)

lemma app_create_Inr:
  "app_create fr a as db = Inr db' \<longleftrightarrow> app_name a \<notin> ar_NAME ` set (r_applications db)
     \<and> app_insert_aliases (app_name a) as (db\<lparr>r_applications := r_applications db @ [app_new_row fr a]\<rparr>) = Inr db'"
  by (simp add: app_create_def insert_row_def app_new_row_def)

lemma dev_create_Inr:
  "dev_create fr d as db = Inr db' \<longleftrightarrow>
     (dev_name d, dev_application d) \<notin> (\<lambda>r. (dr_NAME r, dr_APP r)) ` set (r_devices db)
     \<and> dev_application d \<in> ar_NAME ` set (r_applications db)
     \<and> dev_insert_aliases (dev_application d) (dev_name d) as
         (db\<lparr>r_devices := r_devices db @ [dev_new_row fr d]\<rparr>) = Inr db'"
  by (simp add: dev_create_def insert_row_def dev_new_row_def)

lemma reg_inv_app_create:
  assumes "reg_inv db" and "app_wf a" and "app_create fr a as db = Inr db'"
  shows "reg_inv db'"
proof -
  from assms(3) obtain rows row where
    ins: "insert_row ar_NAME row (r_applications db) = Some rows"
    and row: "ar_NAME row = app_name a" "app_wf (app_from_row row)"
    and rest: "app_insert_aliases (app_name a) as (db\<lparr>r_applications := rows\<rparr>) = Inr db'"
    using assms(2) by (auto simp: app_create_def app_new_row_def app_wf_from_row split: option.splits)
  have "reg_inv (db\<lparr>r_applications := rows\<rparr>)"
    using assms(1) ins row by (auto simp: reg_inv_defs table_simps)
  then show ?thesis using reg_inv_app_insert_aliases[OF _ _ rest] ins row
    by (simp add: insert_row_Some)
qed

lemma reg_inv_dev_create:
  assumes "reg_inv db" and "dev_wf d" and "dev_create fr d as db = Inr db'"
  shows "reg_inv db'"
proof -
  let ?key = "\<lambda>r. (dr_NAME r, dr_APP r)"
  from assms(3) obtain rows row where
    ins: "insert_row ?key row (r_devices db) = Some rows"
    and row: "dr_NAME row = dev_name d" "dr_APP row = dev_application d" "dev_wf (dev_from_row row)"
    and fk: "dev_application d \<in> ar_NAME ` set (r_applications db)"
    and rest: "dev_insert_aliases (dev_application d) (dev_name d) as (db\<lparr>r_devices := rows\<rparr>) = Inr db'"
    using assms(2)
    by (auto simp: dev_create_def dev_new_row_def dev_wf_from_row split: option.splits if_splits)
  have "reg_inv (db\<lparr>r_devices := rows\<rparr>)"
    using assms(1) ins row fk by (auto simp: reg_inv_defs table_simps)
  moreover have "(dev_name d, dev_application d) \<in> ?key ` set (r_devices (db\<lparr>r_devices := rows\<rparr>))"
    using ins row by (auto simp: insert_row_Some)
  ultimately show ?thesis using reg_inv_dev_insert_aliases[OF _ _ rest] by blast
qed

lemma reg_inv_app_update_data:
  assumes "reg_inv db" and "app_wf a" and "app_update_data fr a as db = Inr (n, db')"
  shows "reg_inv db'"
proof -
  define db1 where "db1 = db\<lparr>r_applications := update_where (\<lambda>r. ar_NAME r = app_name a)
    (\<lambda>r. r\<lparr>ar_LABELS := Some (app_labels a), ar_ANNOTATIONS := Some (app_annotations a),
           ar_GENERATION := app_generation a, ar_REVISION := app_revision a,
           ar_RESOURCE_VERSION := fr_resource_version fr,
           ar_DELETION_TIMESTAMP := app_deletion_timestamp a,
           ar_FINALIZERS := app_finalizers a, ar_DATA := app_data a\<rparr>) (r_applications db)\<rparr>"
  have inv: "reg_inv db1"
    unfolding db1_def using assms(1,2)
    by (intro reg_inv_update_apps) (simp_all add: app_wf_from_row)
  from assms(3) have "0 < count_where (\<lambda>r. ar_NAME r = app_name a) (r_applications db)"
    and res: "case as of None \<Rightarrow> db' = db1
      | Some l \<Rightarrow> app_insert_aliases (app_name a) l
          (db1\<lparr>r_app_aliases := delete_where (\<lambda>r. aa_APP r = app_name a) (r_app_aliases db1)\<rparr>) = Inr db'"
    unfolding db1_def by (cases as; simp add: app_update_data_def Let_def result_simps)+
  then have known: "app_name a \<in> ar_NAME ` set (r_applications db1)"
    by (simp add: db1_def image_update_where count_where_pos) (metis imageI)
  show ?thesis
  proof (cases as)
    case None
    with res inv show ?thesis by simp
  next
    case (Some l)
    with res have "app_insert_aliases (app_name a) l
        (db1\<lparr>r_app_aliases := delete_where (\<lambda>r. aa_APP r = app_name a) (r_app_aliases db1)\<rparr>) = Inr db'"
      by simp
    from reg_inv_app_insert_aliases[OF reg_inv_delete_aliases(1)[OF inv] _ this] known
    show ?thesis by simp
  qed
qed

lemma reg_inv_dev_update:
  assumes "reg_inv db" and "dev_wf d" and "dev_update fr d as db = Inr (n, db')"
  shows "reg_inv db'"
proof -
  define P where "P = (\<lambda>r :: dev_row. dr_APP r = dev_application d \<and> dr_NAME r = dev_name d)"
  define db1 where "db1 = db\<lparr>r_devices := update_where P
    (\<lambda>r. r\<lparr>dr_LABELS := Some (dev_labels d), dr_ANNOTATIONS := Some (dev_annotations d),
           dr_GENERATION := dev_generation d, dr_REVISION := dev_revision d,
           dr_RESOURCE_VERSION := fr_resource_version fr,
           dr_DELETION_TIMESTAMP := dev_deletion_timestamp d,
           dr_FINALIZERS := dev_finalizers d, dr_DATA := dev_data d\<rparr>) (r_devices db)\<rparr>"
  have inv: "reg_inv db1"
    unfolding db1_def using assms(1,2)
    by (intro reg_inv_update_devs) (simp_all add: dev_wf_from_row)
  from assms(3) have "0 < count_where P (r_devices db)"
    and res: "case as of None \<Rightarrow> db' = db1
      | Some l \<Rightarrow> dev_insert_aliases (dev_application d) (dev_name d) l
          (db1\<lparr>r_dev_aliases := delete_where
             (\<lambda>r. da_APP r = dev_application d \<and> da_DEVICE r = dev_name d) (r_dev_aliases db1)\<rparr>) = Inr db'"
    unfolding db1_def P_def by (cases as; simp add: dev_update_def Let_def result_simps)+
  then obtain r where "r \<in> set (r_devices db)" "P r" by (auto simp: count_where_pos)
  then have known: "(dev_name d, dev_application d) \<in> (\<lambda>r. (dr_NAME r, dr_APP r)) ` set (r_devices db1)"
    by (subst db1_def, simp add: image_update_where) (force simp: P_def)
  show ?thesis
  proof (cases as)
    case None
    with res inv show ?thesis by simp
  next
    case (Some l)
    with res have "dev_insert_aliases (dev_application d) (dev_name d) l
        (db1\<lparr>r_dev_aliases := delete_where
           (\<lambda>r. da_APP r = dev_application d \<and> da_DEVICE r = dev_name d) (r_dev_aliases db1)\<rparr>) = Inr db'"
      by simp
    from reg_inv_dev_insert_aliases[OF reg_inv_delete_aliases(2)[OF inv] _ this] known
    show ?thesis by simp
  qed
qed

lemma reg_inv_app_owner:
  "reg_inv db \<Longrightarrow> app_update_transfer app owner transfer db = (n, db') \<Longrightarrow> reg_inv db'"
  "reg_inv db \<Longrightarrow> app_set_members app members db = (n, db') \<Longrightarrow> reg_inv db'"
  by (auto simp: app_update_transfer_def app_set_members_def intro!: reg_inv_update_apps)
    (auto simp: reg_inv_defs app_wf_from_row)

text \<open>
  The deletions remove a set of devices together with the aliases that refer to them, and
  an application's deletion all that refers to it.
\<close>

lemma reg_inv_delete_devs:
  assumes "reg_inv db"
    and "\<And>a r. a \<in> set (r_dev_aliases db) \<Longrightarrow> r \<in> set (r_devices db) \<Longrightarrow> P r \<Longrightarrow>
       da_APP a = dr_APP r \<Longrightarrow> da_DEVICE a = dr_NAME r \<Longrightarrow> Q a"
  shows "reg_inv (db\<lparr>r_devices := delete_where P (r_devices db),
     r_dev_aliases := delete_where Q (r_dev_aliases db)\<rparr>)"
proof -
  have "(da_DEVICE a, da_APP a) \<in> (\<lambda>r. (dr_NAME r, dr_APP r)) ` {r \<in> set (r_devices db). \<not> P r}"
    if a: "a \<in> set (r_dev_aliases db)" "\<not> Q a" for a
  proof -
    from a(1) assms(1) obtain r where "r \<in> set (r_devices db)" "dr_NAME r = da_DEVICE a" "dr_APP r = da_APP a"
      by (auto simp: reg_inv_defs)
    with assms(2)[OF a(1), of r] a(2) show ?thesis by force
  qed
  then show ?thesis using assms(1)
    by (simp add: reg_inv_defs set_delete_where pk_delete_where)
qed

lemma reg_inv_app_delete:
  assumes "reg_inv db" and "app_delete app db = Inr db'"
  shows "reg_inv db'"
proof -
  let ?db = "db\<lparr>r_devices := delete_where (\<lambda>r. dr_APP r = app) (r_devices db),
    r_dev_aliases := delete_where (\<lambda>r. da_APP r = app) (r_dev_aliases db)\<rparr>"
  have inv: "reg_inv ?db" using assms(1) by (rule reg_inv_delete_devs) simp
  have names: "n \<in> ar_NAME ` {r \<in> set (r_applications db). ar_NAME r \<noteq> app}"
    if "n \<in> ar_NAME ` set (r_applications db)" "n \<noteq> app" for n
    using that by blast
  from assms(2) have db': "r_applications db' = delete_where (\<lambda>r. ar_NAME r = app) (r_applications db)"
    "r_app_aliases db' = delete_where (\<lambda>r. aa_APP r = app) (r_app_aliases db)"
    "r_devices db' = r_devices ?db" "r_dev_aliases db' = r_dev_aliases ?db"
    by (auto simp: app_delete_def split: if_splits)
  have "reg_keys db'" using inv by (simp add: reg_inv_defs db' pk_delete_where)
  moreover have "reg_refs db'" using inv by (simp add: reg_inv_defs db' set_delete_where names)
  moreover have "reg_wf db'" using inv by (simp add: reg_inv_defs db' set_delete_where)
  ultimately show ?thesis by (simp add: reg_inv_def)
qed

lemma reg_inv_dev_delete:
  assumes "reg_inv db" and "dev_delete app device db = Inr db'"
  shows "reg_inv db'"
  using reg_inv_delete_devs[OF assms(1), of "\<lambda>r. dr_APP r = app \<and> dr_NAME r = device"
      "\<lambda>r. da_APP r = app \<and> da_DEVICE r = device"] assms(2)
  by (simp add: dev_delete_def split: if_splits)

lemma reg_inv_dev_delete_app:
  assumes "reg_inv db" and "dev_delete_app app db = (n, db')"
  shows "reg_inv db'"
proof -
  let ?gone = "\<lambda>r. dr_APP r = app \<and> dr_FINALIZERS r = []"
  have "db' = db\<lparr>r_devices := delete_where ?gone (r_devices db),
      r_dev_aliases := delete_where (\<lambda>a. \<exists>r \<in> set (r_devices db).
         ?gone r \<and> da_APP a = dr_APP r \<and> da_DEVICE a = dr_NAME r) (r_dev_aliases db)\<rparr>"
    using assms(2) by (simp add: dev_delete_app_def Let_def)
  then show ?thesis by (simp only:) (rule reg_inv_delete_devs[OF assms(1)], blast)
qed

end
