(* ===== verification/Registry_Events.thy ===== *)
theory Registry_Events
  imports Json_Diff
begin

text \<open>
  Registry change events (\<open>registry-events/src\<close>): their constructors, their encoding as
  cloud events and back, sending them to Kafka and the consumer loop that retries and
  acknowledges them.

  A cloud event is the part of it that the sources read and write.  Parameters stand for
  the crates: \<open>valid_uri\<close> is the check the event builder makes on the source, \<open>parse_data\<close>
  the deserialisation of a textual payload, \<open>deliver\<close> whether the broker takes a record,
  \<open>new_id\<close> the supply of event identifiers.
\<close>

section \<open>Decimal numbers\<close>

definition digit_of :: "char \<Rightarrow> nat option" where
  "digit_of c = (let n = of_char c :: nat in if 48 \<le> n \<and> n \<le> 57 then Some (n - 48) else None)"

fun digits_val :: "nat \<Rightarrow> string \<Rightarrow> nat option" where
  "digits_val acc [] = Some acc"
| "digits_val acc (c # cs) = Option.bind (digit_of c) (\<lambda>d. digits_val (acc * 10 + d) cs)"

definition str_nat :: "string \<Rightarrow> nat option" where
  "str_nat s = (if s = [] then None else digits_val 0 s)"

definition str_u64 :: "string \<Rightarrow> u64 option" where
  "str_u64 s = Option.bind (str_nat s) (\<lambda>n. if n < 2 ^ 64 then Some (of_nat n) else None)"

definition int_str :: "int \<Rightarrow> string" where
  "int_str i = (if i < 0 then ''-'' @ nat_str (nat (- i)) else nat_str (nat i))"

lemma digit_of_digit_char: "d < 10 \<Longrightarrow> digit_of (digit_char d) = Some d"
  by (simp add: less_Suc_eq numeral_nat(2,3) digit_char_def digit_of_def)
    (auto simp: digit_char_def digit_of_def)

lemma digits_val_append:
  "digits_val acc (xs @ ys) = Option.bind (digits_val acc xs) (\<lambda>a. digits_val a ys)"
  by (induction xs arbitrary: acc) (auto split: bind_splits)

lemma nat_str_not_Nil [simp]: "nat_str n \<noteq> []"
  by (subst nat_str.simps) simp

lemma digits_val_nat_str: "digits_val 0 (nat_str n) = Some n"
proof (induction n rule: nat_str.induct)
  case (1 n)
  show ?case
  proof (cases "n < 10")
    case False
    then have "nat_str n = nat_str (n div 10) @ [digit_char (n mod 10)]"
      by (subst nat_str.simps) simp
    then show ?thesis using 1[OF False]
      by (simp add: digits_val_append digit_of_digit_char)
  qed (simp add: digit_of_digit_char)
qed

lemma str_u64_nat_str [simp]: "str_u64 (nat_str (unat (r::u64))) = Some r"
  using unsigned_less[of r] by (simp add: str_u64_def str_nat_def digits_val_nat_str)

section \<open>Events\<close>

datatype event =
    Application (ev_instance: string) (ev_application: string) (ev_uid: string)
      (ev_path: string) (ev_revision: u64)
  | Device (ev_instance: string) (ev_application: string) (ev_device: string) (ev_uid: string)
      (ev_path: string) (ev_revision: u64)

record event_data =
  ed_revision :: u64
  ed_uid :: string

datatype event_error = Parse string | Builder | PayloadEncoder | UnknownType string

datatype event_sender_error = Sender | EventErr event_error | CloudEvent

definition new_change :: "string list \<Rightarrow> (string \<Rightarrow> event) \<Rightarrow> event list" where
  "new_change paths c = (if paths = [] then [c ''.''] else map c paths)"

definition new_app :: "string \<Rightarrow> string \<Rightarrow> string \<Rightarrow> u64 \<Rightarrow> string list \<Rightarrow> event list" where
  "new_app inst app uid revision paths =
     new_change paths (\<lambda>path. Application inst app uid path revision)"

definition new_device ::
  "string \<Rightarrow> string \<Rightarrow> string \<Rightarrow> string \<Rightarrow> u64 \<Rightarrow> string list \<Rightarrow> event list" where
  "new_device instance_id app_id device_id uid revision paths =
     new_change paths (\<lambda>path. Device instance_id app_id device_id uid path revision)"

lemma new_change_not_Nil [simp]: "new_change paths c \<noteq> []"
  by (simp add: new_change_def)

section \<open>Cloud events\<close>

datatype ext_value = EVString string | EVBoolean bool | EVInteger int

fun ext_to_string :: "ext_value \<Rightarrow> string" where
  "ext_to_string (EVString s) = s"
| "ext_to_string (EVBoolean b) = (if b then ''true'' else ''false'')"
| "ext_to_string (EVInteger i) = int_str i"

datatype ce_data = DJson json | DBinary string | DString string

record cloud_event =
  ce_id :: string
  ce_ty :: string
  ce_source :: string
  ce_subject :: "string option"
  ce_extensions :: "ext_value smap"
  ce_payload :: "ce_data option"

definition EXT_PARTITIONKEY :: string where "EXT_PARTITIONKEY = ''partitionkey''"
definition EXT_INSTANCE :: string where "EXT_INSTANCE = ''instance''"
definition EXT_APPLICATION :: string where "EXT_APPLICATION = ''application''"
definition EXT_DEVICE :: string where "EXT_DEVICE = ''device''"

definition EVENT_TYPE_APPLICATION :: string where
  "EVENT_TYPE_APPLICATION = ''io.drogue.registry.change.application''"

definition EVENT_TYPE_DEVICE :: string where
  "EVENT_TYPE_DEVICE = ''io.drogue.registry.change.device''"

lemmas event_consts = EXT_PARTITIONKEY_def EXT_INSTANCE_def EXT_APPLICATION_def EXT_DEVICE_def
  EVENT_TYPE_APPLICATION_def EVENT_TYPE_DEVICE_def

definition missing_field :: "string \<Rightarrow> event_error" where
  "missing_field field = Parse (''Missing field: '' @ [CHR 0x27] @ field @ [CHR 0x27])"

text \<open>
  The derived (de)serialisation of \<open>EventData\<close>: an object whose revision may also be called
  \<open>generation\<close> (but not both), or an array of the two fields in order.
\<close>

definition event_data_to_value :: "event_data \<Rightarrow> json" where
  "event_data_to_value d = Object [(''revision'', Number (nat_str (unat (ed_revision d)))),
                                   (''uid'', String (ed_uid d))]"

fun event_data_fields :: "json option \<Rightarrow> json option \<Rightarrow> event_data option" where
  "event_data_fields (Some (Number n)) (Some (String u)) =
     map_option (\<lambda>r. \<lparr>ed_revision = r, ed_uid = u\<rparr>) (str_u64 n)"
| "event_data_fields _ _ = None"

fun event_data_from_value :: "json \<Rightarrow> event_data option" where
  "event_data_from_value (Object m) =
     (case (map_of m ''revision'', map_of m ''generation'') of
        (Some _, Some _) \<Rightarrow> None
      | (Some r, None) \<Rightarrow> event_data_fields (Some r) (map_of m ''uid'')
      | (None, r) \<Rightarrow> event_data_fields r (map_of m ''uid''))"
| "event_data_from_value (Array [r, u]) = event_data_fields (Some r) (Some u)"
| "event_data_from_value _ = None"

definition get_data ::
  "(string \<Rightarrow> event_data option) \<Rightarrow> cloud_event \<Rightarrow> event_error + event_data" where
  "get_data parse_data event =
     ok_or (Parse ''Missing or unrecognized event payload'')
       (Option.bind (ce_payload event) (\<lambda>data. case data of
          DJson json \<Rightarrow> event_data_from_value json
        | DBinary json \<Rightarrow> parse_data json
        | DString json \<Rightarrow> parse_data json))"

definition get_ext :: "cloud_event \<Rightarrow> string \<Rightarrow> event_error + string" where
  "get_ext event name = rbind (ok_or (missing_field name) (map_of (ce_extensions event) name))
     (\<lambda>v. Inr (ext_to_string v))"

definition from_app :: "(string \<Rightarrow> event_data option) \<Rightarrow> cloud_event \<Rightarrow> event_error + event" where
  "from_app parse_data event =
     rbind (get_data parse_data event) (\<lambda>data.
     rbind (get_ext event EXT_INSTANCE) (\<lambda>inst.
     rbind (get_ext event EXT_APPLICATION) (\<lambda>app.
     rbind (ok_or (missing_field ''subject'') (ce_subject event)) (\<lambda>path.
       Inr (Application inst app (ed_uid data) path (ed_revision data))))))"

definition from_device :: "(string \<Rightarrow> event_data option) \<Rightarrow> cloud_event \<Rightarrow> event_error + event" where
  "from_device parse_data event =
     rbind (get_data parse_data event) (\<lambda>data.
     rbind (get_ext event EXT_INSTANCE) (\<lambda>inst.
     rbind (get_ext event EXT_APPLICATION) (\<lambda>app.
     rbind (get_ext event EXT_DEVICE) (\<lambda>dev.
     rbind (ok_or (missing_field ''subject'') (ce_subject event)) (\<lambda>path.
       Inr (Device inst app dev (ed_uid data) path (ed_revision data)))))))"

definition event_from_cloud ::
  "(string \<Rightarrow> event_data option) \<Rightarrow> cloud_event \<Rightarrow> event_error + event" where
  "event_from_cloud parse_data event =
     (if ce_ty event = EVENT_TYPE_APPLICATION then from_app parse_data event
      else if ce_ty event = EVENT_TYPE_DEVICE then from_device parse_data event
      else Inl (UnknownType (ce_ty event)))"

fun event_to_builder :: "string \<Rightarrow> event \<Rightarrow> cloud_event" where
  "event_to_builder new_id (Application inst app uid path revision) =
     \<lparr>ce_id = new_id, ce_ty = EVENT_TYPE_APPLICATION,
      ce_source = ''drogue:/'' @ inst @ ''/'' @ app, ce_subject = Some path,
      ce_extensions = [(EXT_PARTITIONKEY, EVString (inst @ ''/'' @ app)),
                       (EXT_INSTANCE, EVString inst), (EXT_APPLICATION, EVString app)],
      ce_payload = Some (DJson (event_data_to_value \<lparr>ed_revision = revision, ed_uid = uid\<rparr>))\<rparr>"
| "event_to_builder new_id (Device inst app dev uid path revision) =
     \<lparr>ce_id = new_id, ce_ty = EVENT_TYPE_DEVICE,
      ce_source = ''drogue:/'' @ inst @ ''/'' @ app @ ''/'' @ dev, ce_subject = Some path,
      ce_extensions = [(EXT_PARTITIONKEY, EVString (inst @ ''/'' @ app @ ''/'' @ dev)),
                       (EXT_INSTANCE, EVString inst), (EXT_APPLICATION, EVString app),
                       (EXT_DEVICE, EVString dev)],
      ce_payload = Some (DJson (event_data_to_value \<lparr>ed_revision = revision, ed_uid = uid\<rparr>))\<rparr>"

definition event_to_cloud ::
  "(string \<Rightarrow> bool) \<Rightarrow> string \<Rightarrow> event \<Rightarrow> event_error + cloud_event" where
  "event_to_cloud valid_uri new_id value =
     (let event = event_to_builder new_id value
      in if valid_uri (ce_source event) then Inr event else Inl Builder)"

section \<open>Sending to Kafka\<close>

type_synonym kafka_log = "(string \<times> cloud_event) list"

definition record_key :: "cloud_event \<Rightarrow> string" where
  "record_key event = (case map_of (ce_extensions event) EXT_PARTITIONKEY of
     Some (EVString key) \<Rightarrow> key | _ \<Rightarrow> ce_id event)"

fun kafka_notify ::
  "(string \<Rightarrow> bool) \<Rightarrow> (string \<times> cloud_event \<Rightarrow> bool) \<Rightarrow> (nat \<Rightarrow> string) \<Rightarrow> nat \<Rightarrow> event list
    \<Rightarrow> kafka_log \<Rightarrow> (event_sender_error + unit) \<times> kafka_log" where
  "kafka_notify valid_uri deliver new_id n [] log = (Inr (), log)"
| "kafka_notify valid_uri deliver new_id n (event # events) log =
     (case event_to_cloud valid_uri (new_id n) event of
        Inl e \<Rightarrow> (Inl (EventErr e), log)
      | Inr ce \<Rightarrow>
          let rec = (record_key ce, ce) in
          if deliver rec then kafka_notify valid_uri deliver new_id (Suc n) events (log @ [rec])
          else (Inl Sender, log))"

section \<open>The consumer loop\<close>

text \<open>
  \<open>KafkaEventStream::run\<close>: a failing handler is called again while \<open>cnt \<le> 10\<close>; if it still
  fails, the loop ends with an error and the event is not acknowledged.  The handler is a
  function of its own state.
\<close>

function try_handle :: "('s \<Rightarrow> bool \<times> 's) \<Rightarrow> nat \<Rightarrow> 's \<Rightarrow> bool \<times> 's" where
  "try_handle handle cnt s =
     (case handle s of
        (True, s') \<Rightarrow> (True, s')
      | (False, s') \<Rightarrow> if cnt > 10 then (False, s') else try_handle handle (cnt + 1) s')"
  by pat_completeness auto
termination by (relation "measure (\<lambda>(_, cnt, _). 11 - cnt)") auto

declare try_handle.simps [simp del]

fun stream_run ::
  "(event \<Rightarrow> 's \<Rightarrow> bool \<times> 's) \<Rightarrow> event list \<Rightarrow> 's \<Rightarrow> event list \<times> string \<times> 's" where
  "stream_run handle [] s = ([], ''Stream must not end'', s)"
| "stream_run handle (event # events) s =
     (case try_handle (handle event) 0 s of
        (False, s') \<Rightarrow> ([], ''Failed to process event'', s')
      | (True, s') \<Rightarrow> (let (acked, msg, s'') = stream_run handle events s' in (event # acked, msg, s'')))"

section \<open>Properties\<close>

lemma from_to_value [simp]: "event_data_from_value (event_data_to_value d) = Some d"
  by (simp add: event_data_to_value_def)

text \<open>
  Every registry event survives its encoding as a cloud event: whatever event is
  built, decoding it gives the same event back, for applications and devices alike.
\<close>

theorem cloud_event_roundtrip:
  assumes "event_to_cloud valid_uri new_id e = Inr ce"
  shows "event_from_cloud parse_data ce = Inr e"
  using assms
  by (cases e)
    (auto simp: event_to_cloud_def event_from_cloud_def from_app_def from_device_def get_data_def
       get_ext_def event_consts Let_def split: if_splits)

theorem cloud_event_roundtrip_witness:
  "event_from_cloud (\<lambda>_. None)
     (event_to_builder ''1'' (Device ''i'' ''a'' ''d'' ''u'' ''.spec.x'' 18446744073709551615)) =
   Inr (Device ''i'' ''a'' ''d'' ''u'' ''.spec.x'' 18446744073709551615)"
  by (rule cloud_event_roundtrip[of "\<lambda>_. True" "''1''"]) (simp add: event_to_cloud_def)

definition event_key :: "event \<Rightarrow> string" where
  "event_key e = (case e of
     Application inst app _ _ _ \<Rightarrow> inst @ ''/'' @ app
   | Device inst app dev _ _ _ \<Rightarrow> inst @ ''/'' @ app @ ''/'' @ dev)"

lemma record_key_event: "event_to_cloud valid_uri new_id e = Inr ce \<Longrightarrow> record_key ce = event_key e"
  by (cases e) (auto simp: event_to_cloud_def record_key_def event_key_def event_consts Let_def
      split: if_splits)

lemma event_to_cloud_Inr_iff:
  "(\<exists>ce. event_to_cloud valid_uri new_id e = Inr ce \<and> P ce) \<longleftrightarrow>
     valid_uri (ce_source (event_to_builder new_id e)) \<and> P (event_to_builder new_id e)"
  by (auto simp: event_to_cloud_def Let_def)

text \<open>
  \<open>notify\<close> on Kafka writes a prefix of the events, in order, each under the key of its
  resource, so that all changes of one resource land in one partition; the prefix is the
  whole list exactly if the result is \<open>Ok\<close>.
\<close>

theorem kafka_notify_prefix:
  "\<exists>k. k \<le> length events
     \<and> snd (kafka_notify valid_uri deliver new_id n events log) =
         log @ map (\<lambda>i. (event_key (events ! i), event_to_builder (new_id (n + i)) (events ! i))) [0..<k]
     \<and> (is_ok (fst (kafka_notify valid_uri deliver new_id n events log)) \<longleftrightarrow> k = length events)"
proof (induction events arbitrary: n log)
  case (Cons e es)
  let ?ce = "event_to_builder (new_id n) e"
  have key: "record_key ?ce = event_key e" if "valid_uri (ce_source ?ce)"
    using that record_key_event[of valid_uri "new_id n" e ?ce] by (simp add: event_to_cloud_def)
  show ?case
  proof (cases "valid_uri (ce_source ?ce) \<and> deliver (event_key e, ?ce)")
    case True
    let ?log = "log @ [(event_key e, ?ce)]"
    from True have eq: "kafka_notify valid_uri deliver new_id n (e # es) log =
        kafka_notify valid_uri deliver new_id (Suc n) es ?log"
      by (simp add: event_to_cloud_def key Let_def)
    obtain k where k: "k \<le> length es"
      "snd (kafka_notify valid_uri deliver new_id (Suc n) es ?log) = ?log @
         map (\<lambda>i. (event_key (es ! i), event_to_builder (new_id (Suc n + i)) (es ! i))) [0..<k]"
      "is_ok (fst (kafka_notify valid_uri deliver new_id (Suc n) es ?log)) \<longleftrightarrow> k = length es"
      using Cons.IH by blast
    have "[0..<Suc k] = 0 # map Suc [0..<k]" by (metis map_Suc_upt upt_conv_Cons zero_less_Suc)
    with k show ?thesis unfolding eq
      by (intro exI[of _ "Suc k"]) (simp add: comp_def del: upt_Suc)
  next
    case False
    then show ?thesis
      by (intro exI[of _ 0]) (auto simp: event_to_cloud_def key Let_def)
  qed
qed simp

text \<open>The attempts on one event: the states the handler is called in.\<close>

fun attempt :: "('s \<Rightarrow> bool \<times> 's) \<Rightarrow> nat \<Rightarrow> 's \<Rightarrow> 's" where
  "attempt handle 0 s = s"
| "attempt handle (Suc n) s = attempt handle n (snd (handle s))"

lemma try_handle_attempts:
  "cnt \<le> 11 \<Longrightarrow> fst (try_handle handle cnt s) \<longleftrightarrow> (\<exists>n \<le> 11 - cnt. fst (handle (attempt handle n s)))"
proof (induction handle cnt s rule: try_handle.induct)
  case (1 handle cnt s)
  obtain ok s' where h: "handle s = (ok, s')" by fastforce
  show ?case
  proof (cases "ok \<or> cnt > 10")
    case True
    with 1(2) h show ?thesis
      by (subst try_handle.simps) (cases ok; auto intro: exI[of _ 0])
  next
    case False
    then have "fst (try_handle handle cnt s) \<longleftrightarrow> (\<exists>n \<le> 10 - cnt. fst (handle (attempt handle n s')))"
      using 1(1)[of ok s'] h 1(2) by (subst try_handle.simps) simp
    also have "\<dots> \<longleftrightarrow> (\<exists>n \<le> 11 - cnt. n \<noteq> 0 \<and> fst (handle (attempt handle n s)))"
    proof
      assume "\<exists>n \<le> 10 - cnt. fst (handle (attempt handle n s'))"
      then obtain n where "n \<le> 10 - cnt" "fst (handle (attempt handle n s'))" by blast
      then show "\<exists>n \<le> 11 - cnt. n \<noteq> 0 \<and> fst (handle (attempt handle n s))"
        using h False by (intro exI[of _ "Suc n"]) auto
    next
      assume "\<exists>n \<le> 11 - cnt. n \<noteq> 0 \<and> fst (handle (attempt handle n s))"
      then obtain m where "Suc m \<le> 11 - cnt" "fst (handle (attempt handle (Suc m) s))"
        by (metis not0_implies_Suc)
      then show "\<exists>n \<le> 10 - cnt. fst (handle (attempt handle n s'))"
        using h by (intro exI[of _ m]) auto
    qed
    also have "\<dots> \<longleftrightarrow> (\<exists>n \<le> 11 - cnt. fst (handle (attempt handle n s)))"
      using h False by (metis attempt.simps(1) fst_conv)
    finally show ?thesis .
  qed
qed

text \<open>
  The consumer acknowledges the events in order up to the first one whose handler
  fails twelve times in a row: the acknowledged ones are a prefix, and if an event
  follows the prefix then all its twelve attempts failed.
\<close>

theorem stream_run_acks:
  "\<exists>rest. events = fst (stream_run handle events s) @ rest
     \<and> (case rest of [] \<Rightarrow> True
        | e # _ \<Rightarrow> \<forall>n \<le> 11. \<not> fst (handle e (attempt (handle e) n
             (snd (snd (stream_run handle (fst (stream_run handle events s)) s))))))"
proof (induction events arbitrary: s)
  case (Cons e es)
  obtain ok s' where t: "try_handle (handle e) 0 s = (ok, s')" by fastforce
  show ?case
  proof (cases ok)
    case True
    with t have acked: "fst (stream_run handle (e # es) s) = e # fst (stream_run handle es s')"
      and reached: "\<And>es. snd (snd (stream_run handle (e # es) s)) = snd (snd (stream_run handle es s'))"
      by (simp_all add: case_prod_beta Let_def)
    show ?thesis unfolding acked reached using Cons[of s'] by simp
  next
    case False
    then have "\<forall>n \<le> 11. \<not> fst (handle e (attempt (handle e) n s))"
      using try_handle_attempts[of 0 "handle e" s] t by simp
    then show ?thesis using t False by (intro exI[of _ "e # es"]) simp
  qed
qed simp

theorem stream_run_acks_witness:
  "fst (stream_run (\<lambda>e n. (n > 3 \<and> ev_revision e = 1, Suc n))
      [Application ''i'' ''a'' ''u'' [] 1, Application ''i'' ''b'' ''u'' [] 2] (0::nat)) =
     [Application ''i'' ''a'' ''u'' [] 1]
   \<and> (\<exists>rest. [Application ''i'' ''a'' ''u'' [] 1, Application ''i'' ''b'' ''u'' [] 2] =
       fst (stream_run (\<lambda>e n. (n > 3 \<and> ev_revision e = 1, Suc n))
         [Application ''i'' ''a'' ''u'' [] 1, Application ''i'' ''b'' ''u'' [] 2] (0::nat)) @ rest)"
  (is "?l = _ \<and> _")
proof
  show "?l = [Application ''i'' ''a'' ''u'' [] 1]" by code_simp
qed (use stream_run_acks[of "[Application ''i'' ''a'' ''u'' [] 1, Application ''i'' ''b'' ''u'' [] 2]"
    "\<lambda>e n. (n > 3 \<and> ev_revision e = 1, Suc n)" 0] in blast)

end
