(* ===== verification/Outbox.thy ===== *)
theory Outbox
  imports Registry_Events Authz
begin

text \<open>
  The transactional outbox: the table and its accessor
  (\<open>database-common/src/models/outbox.rs\<close>), the conversion of events into entries and back
  and the event sender on top of it (\<open>registry-events/src/db.rs\<close>), and the controller that
  marks entries as seen and sends missed ones again (\<open>outbox-controller/src\<close>).

  The locale \<open>outbox_store\<close> is the contract between the registry, which records events, and
  the controller, which removes them: what is pending for a key after each operation.
\<close>

section \<open>Entries and rows\<close>

record outbox_entry =
  oe_instance :: string
  oe_app :: string
  oe_device :: "string option"
  oe_path :: string
  oe_revision :: u64
  oe_uid :: string

record outbox_row =
  ob_INSTANCE :: string
  ob_APP :: string
  ob_DEVICE :: string
  ob_PATH :: string
  ob_REVISION :: u64
  ob_UID :: string
  ob_TS :: timestamp

fun entry_of_event :: "event \<Rightarrow> outbox_entry" where
  "entry_of_event (Application inst app uid path revision) =
     \<lparr>oe_instance = inst, oe_app = app, oe_device = None, oe_path = path,
      oe_revision = revision, oe_uid = uid\<rparr>"
| "entry_of_event (Device inst app dev uid path revision) =
     \<lparr>oe_instance = inst, oe_app = app, oe_device = Some dev, oe_path = path,
      oe_revision = revision, oe_uid = uid\<rparr>"

definition event_of_entry :: "outbox_entry \<Rightarrow> event" where
  "event_of_entry entry = (case oe_device entry of
     Some dev \<Rightarrow> Device (oe_instance entry) (oe_app entry) dev (oe_uid entry) (oe_path entry)
                   (oe_revision entry)
   | None \<Rightarrow> Application (oe_instance entry) (oe_app entry) (oe_uid entry) (oe_path entry)
                   (oe_revision entry))"

definition entry_of_row :: "outbox_row \<Rightarrow> outbox_entry" where
  "entry_of_row row =
     \<lparr>oe_instance = ob_INSTANCE row, oe_app = ob_APP row,
      oe_device = (if ob_DEVICE row = [] then None else Some (ob_DEVICE row)),
      oe_path = ob_PATH row, oe_revision = ob_REVISION row, oe_uid = ob_UID row\<rparr>"

text \<open>\<open>entry.device.unwrap_or_default()\<close>\<close>

definition device_column :: "outbox_entry \<Rightarrow> string" where
  "device_column entry = (case oe_device entry of Some d \<Rightarrow> d | None \<Rightarrow> [])"

type_synonym outbox_key = "string \<times> string \<times> string"

definition entry_key :: "outbox_entry \<Rightarrow> outbox_key" where
  "entry_key entry = (oe_app entry, device_column entry, oe_path entry)"

definition row_key :: "outbox_row \<Rightarrow> outbox_key" where
  "row_key row = (ob_APP row, ob_DEVICE row, ob_PATH row)"

section \<open>The accessor\<close>

text \<open>
  \<open>INSERT \<dots> ON CONFLICT DO UPDATE\<close>: the row with the same key is overwritten, but for its
  instance, if the new revision is greater or the object is another one.
\<close>

definition outbox_create :: "timestamp \<Rightarrow> outbox_entry \<Rightarrow> outbox_row list \<Rightarrow> outbox_row list" where
  "outbox_create now entry rows =
     (if entry_key entry \<in> row_key ` set rows
      then update_where (\<lambda>r. row_key r = entry_key entry
               \<and> (i64_less (ob_REVISION r) (oe_revision entry) \<or> ob_UID r \<noteq> oe_uid entry))
             (\<lambda>r. r\<lparr>ob_REVISION := oe_revision entry, ob_UID := oe_uid entry, ob_TS := now\<rparr>) rows
      else rows @ [\<lparr>ob_INSTANCE = oe_instance entry, ob_APP = oe_app entry,
             ob_DEVICE = device_column entry, ob_PATH = oe_path entry,
             ob_REVISION = oe_revision entry, ob_UID = oe_uid entry, ob_TS = now\<rparr>])"

definition seen_matches :: "outbox_entry \<Rightarrow> outbox_row \<Rightarrow> bool" where
  "seen_matches entry r \<longleftrightarrow> ob_APP r = oe_app entry \<and> ob_DEVICE r = device_column entry
     \<and> ob_PATH r = oe_path entry \<and> i64_le (ob_REVISION r) (oe_revision entry)
     \<and> ob_UID r = oe_uid entry"

definition outbox_mark_seen :: "outbox_entry \<Rightarrow> outbox_row list \<Rightarrow> bool \<times> outbox_row list" where
  "outbox_mark_seen entry rows =
     (count_where (seen_matches entry) rows > 0, delete_where (seen_matches entry) rows)"

definition fetch_unread :: "timestamp \<Rightarrow> int \<Rightarrow> outbox_row list \<Rightarrow> outbox_entry list" where
  "fetch_unread now duration rows =
     (let beginning = now - duration
      in map entry_of_row (sort_key ob_TS (filter (\<lambda>r. ob_TS r < beginning) rows)))"

text \<open>\<open>EventSender for OutboxAccessor\<close>: one entry for each event, in order.\<close>

fun outbox_notify :: "timestamp \<Rightarrow> event list \<Rightarrow> outbox_row list \<Rightarrow> outbox_row list" where
  "outbox_notify now [] rows = rows"
| "outbox_notify now (e # events) rows =
     outbox_notify now events (outbox_create now (entry_of_event e) rows)"

section \<open>The controller\<close>

text \<open>\<open>OutboxHandler::handle\<close> through \<open>OutboxService::mark_seen\<close>\<close>

definition service_mark_seen :: "event \<Rightarrow> outbox_row list \<Rightarrow> outbox_row list" where
  "service_mark_seen event rows = snd (outbox_mark_seen (entry_of_event event) rows)"

definition outbox_handle :: "event \<Rightarrow> outbox_row list \<Rightarrow> bool \<times> outbox_row list" where
  "outbox_handle event rows = (True, service_mark_seen event rows)"

definition retrieve_unseen :: "timestamp \<Rightarrow> int \<Rightarrow> outbox_row list \<Rightarrow> outbox_entry list" where
  "retrieve_unseen now before rows = fetch_unread now before rows"

text \<open>
  \<open>Resender::process\<close>: the entries of the stream are sent one by one; the first failure ends
  it.  \<open>notify\<close> is the configured event sender on its own state.
\<close>

definition send_entry ::
  "(event list \<Rightarrow> 'k \<Rightarrow> (event_sender_error + unit) \<times> 'k) \<Rightarrow> outbox_entry \<Rightarrow> 'k
    \<Rightarrow> (event_sender_error + unit) \<times> 'k" where
  "send_entry notify entry k = notify [event_of_entry entry] k"

fun resend_loop ::
  "(event list \<Rightarrow> 'k \<Rightarrow> (event_sender_error + unit) \<times> 'k) \<Rightarrow> nat \<Rightarrow> outbox_entry list \<Rightarrow> 'k
    \<Rightarrow> (service_error + nat) \<times> 'k" where
  "resend_loop notify n [] k = (Inr n, k)"
| "resend_loop notify n (entry # stream) k =
     (case send_entry notify entry k of
        (Inl _, k') \<Rightarrow> (Inl (Internal (''Failed to send event (n = '' @ nat_str n @ '')'')), k')
      | (Inr _, k') \<Rightarrow> resend_loop notify (n + 1) stream k')"

definition resend_process ::
  "(event list \<Rightarrow> 'k \<Rightarrow> (event_sender_error + unit) \<times> 'k) \<Rightarrow> timestamp \<Rightarrow> int \<Rightarrow> outbox_row list
    \<Rightarrow> 'k \<Rightarrow> (service_error + nat) \<times> 'k" where
  "resend_process notify now before rows k = resend_loop notify 0 (retrieve_unseen now before rows) k"

section \<open>The contract of the outbox\<close>

type_synonym pending = "(string \<times> u64) option"

definition supersede :: "outbox_entry \<Rightarrow> pending \<Rightarrow> pending" where
  "supersede e p = (case p of
     None \<Rightarrow> Some (oe_uid e, oe_revision e)
   | Some (u, r) \<Rightarrow> if i64_less r (oe_revision e) \<or> u \<noteq> oe_uid e then Some (oe_uid e, oe_revision e)
                   else Some (u, r))"

definition settle :: "outbox_entry \<Rightarrow> pending \<Rightarrow> pending" where
  "settle e p = (case p of
     None \<Rightarrow> None
   | Some (u, r) \<Rightarrow> if i64_le r (oe_revision e) \<and> u = oe_uid e then None else Some (u, r))"

datatype outbox_op = Record timestamp outbox_entry | Seen outbox_entry

fun op_entry :: "outbox_op \<Rightarrow> outbox_entry" where
  "op_entry (Record t e) = e"
| "op_entry (Seen e) = e"

text \<open>One operation on a store, in an arbitrary interleaving of writers and the controller.\<close>

fun apply_op ::
  "(timestamp \<Rightarrow> outbox_entry \<Rightarrow> 's \<Rightarrow> 's) \<Rightarrow> (outbox_entry \<Rightarrow> 's \<Rightarrow> 's) \<Rightarrow> outbox_op \<Rightarrow> 's \<Rightarrow> 's" where
  "apply_op create seen (Record t e) s = create t e s"
| "apply_op create seen (Seen e) s = seen e s"

locale outbox_store =
  fixes create :: "timestamp \<Rightarrow> outbox_entry \<Rightarrow> 's \<Rightarrow> 's"
    and seen :: "outbox_entry \<Rightarrow> 's \<Rightarrow> 's"
    and pending :: "'s \<Rightarrow> outbox_key \<Rightarrow> pending"
    and invar :: "'s \<Rightarrow> bool"
  assumes invar_create: "invar s \<Longrightarrow> invar (create t e s)"
    and invar_seen: "invar s \<Longrightarrow> invar (seen e s)"
    and pending_create: "invar s \<Longrightarrow> pending (create t e s) k =
       (if k = entry_key e then supersede e (pending s k) else pending s k)"
    and pending_seen: "invar s \<Longrightarrow> pending (seen e s) k =
       (if k = entry_key e then settle e (pending s k) else pending s k)"
begin

lemma invar_ops: "invar s \<Longrightarrow> invar (fold (apply_op create seen) ops s)"
proof (induction ops arbitrary: s)
  case (Cons x xs)
  then show ?case by (cases x) (simp_all add: invar_create invar_seen)
qed simp

text \<open>
  What is pending with revision at least \<open>r\<close> stays so, while nothing is recorded for another
  object with the same key and only older revisions of this object are reported as seen;
  reports about other objects with the same key have no effect.
\<close>

lemma pending_kept:
  assumes "invar s" and "pending s k = Some (u, r)" and "\<not> i64_less r r0"
    and "\<And>t e. Record t e \<in> set ops \<Longrightarrow> entry_key e = k \<Longrightarrow> oe_uid e = u"
    and "\<And>e. Seen e \<in> set ops \<Longrightarrow> entry_key e = k \<Longrightarrow> oe_uid e = u \<Longrightarrow> i64_less (oe_revision e) r0"
  shows "\<exists>r'. pending (fold (apply_op create seen) ops s) k = Some (u, r') \<and> \<not> i64_less r' r0"
  using assms
proof (induction ops arbitrary: s r)
  case (Cons x xs)
  have "\<exists>r'. pending (apply_op create seen x s) k = Some (u, r') \<and> \<not> i64_less r' r0"
  proof (cases x)
    case (Record t e)
    with Cons.prems(1-3) Cons.prems(4)[of t e] show ?thesis
      by (auto simp: pending_create supersede_def i64_less_def)
  next
    case (Seen e)
    with Cons.prems(1-3) Cons.prems(5)[of e] show ?thesis
      by (auto simp: pending_seen settle_def i64_less_def i64_le_def)
  qed
  then obtain r' where p: "pending (apply_op create seen x s) k = Some (u, r')" "\<not> i64_less r' r0"
    by blast
  have "invar (apply_op create seen x s)"
    using Cons.prems(1) by (cases x) (simp_all add: invar_create invar_seen)
  then have "\<exists>r'. pending (fold (apply_op create seen) xs (apply_op create seen x s)) k = Some (u, r')
      \<and> \<not> i64_less r' r0"
    by (rule Cons.IH[OF _ p]) (use Cons.prems(4,5) in auto)
  then show ?case by simp
qed auto

text \<open>No recorded event is lost before it, or a newer one, has been seen.\<close>

lemma recorded_not_lost:
  assumes "invar s"
    and "\<And>t' e'. Record t' e' \<in> set ops \<Longrightarrow> entry_key e' = entry_key e \<Longrightarrow> oe_uid e' = oe_uid e"
    and "\<And>e'. Seen e' \<in> set ops \<Longrightarrow> entry_key e' = entry_key e \<Longrightarrow> oe_uid e' = oe_uid e \<Longrightarrow>
            i64_less (oe_revision e') (oe_revision e)"
  shows "\<exists>r. pending (fold (apply_op create seen) ops (create t e s)) (entry_key e) = Some (oe_uid e, r)
     \<and> \<not> i64_less r (oe_revision e)"
proof -
  obtain r where "pending (create t e s) (entry_key e) = Some (oe_uid e, r)" "\<not> i64_less r (oe_revision e)"
    using pending_create[OF assms(1), of t e "entry_key e"]
    by (auto simp: supersede_def split: option.splits if_splits)
  from pending_kept[OF invar_create[OF assms(1)] this] assms(2,3) show ?thesis by blast
qed

lemma seen_settles:
  assumes "invar s" and "pending s (entry_key e) = Some (oe_uid e, r)" and "i64_le r (oe_revision e)"
  shows "pending (seen e s) (entry_key e) = None"
  using assms by (simp add: pending_seen settle_def)

end

section \<open>The table implements the contract\<close>

definition row_pending :: "outbox_row list \<Rightarrow> outbox_key \<Rightarrow> pending" where
  "row_pending rows k = map_option (\<lambda>r. (ob_UID r, ob_REVISION r)) (lookup_row row_key k rows)"

abbreviation outbox_seen :: "outbox_entry \<Rightarrow> outbox_row list \<Rightarrow> outbox_row list" where
  "outbox_seen e rows \<equiv> snd (outbox_mark_seen e rows)"

lemma seen_matches_key: "seen_matches e r \<longleftrightarrow> row_key r = entry_key e
    \<and> i64_le (ob_REVISION r) (oe_revision e) \<and> ob_UID r = oe_uid e"
  by (auto simp: seen_matches_def row_key_def entry_key_def)

lemma row_key_new: "row_key \<lparr>ob_INSTANCE = oe_instance entry, ob_APP = oe_app entry,
     ob_DEVICE = device_column entry, ob_PATH = oe_path entry,
     ob_REVISION = oe_revision entry, ob_UID = oe_uid entry, ob_TS = now\<rparr> = entry_key entry"
  by (simp add: row_key_def entry_key_def)

lemma row_key_upd [simp]:
  "row_key (r\<lparr>ob_REVISION := v, ob_UID := u, ob_TS := t\<rparr>) = row_key r"
  by (simp add: row_key_def)

lemma pk_outbox_create: "pk row_key rows \<Longrightarrow> pk row_key (outbox_create t e rows)"
  by (simp add: outbox_create_def row_key_new pk_update_where)

lemma pending_outbox_create:
  "row_pending (outbox_create t e s) k =
     (if k = entry_key e then supersede e (row_pending s k) else row_pending s k)"
proof (cases "lookup_row row_key k s")
  case None
  moreover from this have "k \<notin> row_key ` set s" by (simp add: lookup_row_None)
  ultimately show ?thesis
    by (auto simp: outbox_create_def row_pending_def lookup_update_where lookup_row_append
        supersede_def row_key_new lookup_row_def[of _ _ "[_]"])
next
  case (Some r)
  then have "k = row_key r" "k \<in> row_key ` set s" by (auto dest: lookup_row_SomeD)
  with Some show ?thesis
    by (auto simp: outbox_create_def row_pending_def lookup_update_where lookup_row_append
        supersede_def)
qed

lemma pk_outbox_seen: "pk row_key s \<Longrightarrow> pk row_key (outbox_seen e s)"
  by (simp add: outbox_mark_seen_def pk_delete_where)

lemma pending_outbox_seen:
  assumes "pk row_key s"
  shows "row_pending (outbox_seen e s) k =
     (if k = entry_key e then settle e (row_pending s k) else row_pending s k)"
  by (cases "lookup_row row_key k s")
    (use assms in \<open>auto simp: outbox_mark_seen_def row_pending_def lookup_delete_where settle_def
        seen_matches_key dest: lookup_row_SomeD\<close>)

interpretation ob: outbox_store outbox_create outbox_seen row_pending "pk row_key"
  by unfold_locales
    (simp_all add: pk_outbox_create pending_outbox_create pending_outbox_seen pk_outbox_seen)

section \<open>Properties\<close>

text \<open>
  C4. No event is lost: after an event has been recorded in the outbox, and whatever is
  recorded and seen afterwards for this or any other key, as long as neither that revision nor
  a newer one of the same object (the same UID) is reported as seen, it stays pending for its
  key, possibly replaced by a newer revision of the same object.  The one exception is stated:
  the entry is replaced when an event of another object with the same names (an application
  or device created again under another UID) is recorded for the same key.
\<close>

theorem outbox_no_loss:
  assumes "pk row_key rows"
    and "\<forall>e'. Seen e' \<in> set ops \<and> entry_key e' = entry_key e \<and> oe_uid e' = oe_uid e \<longrightarrow>
           i64_less (oe_revision e') (oe_revision e)"
  shows "(\<exists>r. row_pending (fold (apply_op outbox_create outbox_seen) ops (outbox_create t e rows))
       (entry_key e) = Some (oe_uid e, r) \<and> \<not> i64_less r (oe_revision e))
     \<or> (\<exists>t' e'. Record t' e' \<in> set ops \<and> entry_key e' = entry_key e \<and> oe_uid e' \<noteq> oe_uid e)"
proof (rule disjCI)
  assume "\<not> (\<exists>t' e'. Record t' e' \<in> set ops \<and> entry_key e' = entry_key e \<and> oe_uid e' \<noteq> oe_uid e)"
  with assms show "\<exists>r. row_pending (fold (apply_op outbox_create outbox_seen) ops
       (outbox_create t e rows)) (entry_key e) = Some (oe_uid e, r) \<and> \<not> i64_less r (oe_revision e)"
    by (intro ob.recorded_not_lost) auto
qed

definition demo_entry :: "u64 \<Rightarrow> outbox_entry" where
  "demo_entry r = \<lparr>oe_instance = ''i'', oe_app = ''a'', oe_device = None, oe_path = ''.'',
     oe_revision = r, oe_uid = ''u''\<rparr>"

theorem outbox_no_loss_witness:
  "\<exists>r. row_pending (fold (apply_op outbox_create outbox_seen)
       [Record 1 (demo_entry 3), Seen (demo_entry 1), Seen (demo_entry 4\<lparr>oe_uid := ''v''\<rparr>)]
       (outbox_create 0 (demo_entry 2) []))
       (entry_key (demo_entry 2)) = Some (''u'', r) \<and> \<not> i64_less r 2"
proof -
  let ?ops = "[Record 1 (demo_entry 3), Seen (demo_entry 1), Seen (demo_entry 4\<lparr>oe_uid := ''v''\<rparr>)]"
  have "\<forall>e'. Seen e' \<in> set ?ops \<and> entry_key e' = entry_key (demo_entry 2)
      \<and> oe_uid e' = oe_uid (demo_entry 2) \<longrightarrow> i64_less (oe_revision e') (oe_revision (demo_entry 2))"
    by (auto simp: demo_entry_def i64_less_def)
  from outbox_no_loss[OF _ this, of "[]" 0] show ?thesis by (auto simp: demo_entry_def)
qed

lemma entry_event_roundtrip: "event_of_entry (entry_of_event e) = e"
  by (cases e) (simp_all add: event_of_entry_def)

lemma row_event_roundtrip: "entry_of_event (event_of_entry (entry_of_row r)) = entry_of_row r"
  by (simp add: event_of_entry_def entry_of_row_def)

lemma seen_matches_row: "seen_matches (entry_of_row r) r"
  by (simp add: seen_matches_def entry_of_row_def device_column_def)

lemma set_fold_seen:
  "set (fold service_mark_seen es rows) =
     {r \<in> set rows. \<forall>e \<in> set es. \<not> seen_matches (entry_of_event e) r}"
  by (induction es arbitrary: rows)
    (auto simp: service_mark_seen_def outbox_mark_seen_def set_delete_where)

lemma set_fetch_unread:
  "set (fetch_unread now before rows) = entry_of_row ` {r \<in> set rows. ob_TS r < now - before}"
  by (auto simp: fetch_unread_def Let_def)

definition kafka_sender ::
  "(string \<Rightarrow> bool) \<Rightarrow> (string \<times> cloud_event \<Rightarrow> bool) \<Rightarrow> (nat \<Rightarrow> string) \<Rightarrow> event list
    \<Rightarrow> kafka_log \<Rightarrow> (event_sender_error + unit) \<times> kafka_log" where
  "kafka_sender valid_uri deliver new_id events log =
     kafka_notify valid_uri deliver new_id (length log) events log"

lemma kafka_sender_one:
  "kafka_sender valid_uri deliver new_id [e] log = (Inr u, log') \<Longrightarrow>
     \<exists>ce key. log' = log @ [(key, ce)] \<and> (\<forall>parse_data. event_from_cloud parse_data ce = Inr e)"
  by (cases e)
    (auto simp: kafka_sender_def event_to_cloud_def event_from_cloud_def from_app_def
       from_device_def get_data_def get_ext_def event_consts Let_def split: if_splits sum.splits)

lemma resend_loop_Inr:
  assumes "resend_loop (kafka_sender valid_uri deliver new_id) n es log = (Inr m, log')"
  shows "m = n + length es \<and> (\<exists>recs. log' = log @ recs \<and>
     map (\<lambda>rec. event_from_cloud parse_data (snd rec)) recs = map (Inr \<circ> event_of_entry) es)"
  using assms
proof (induction es arbitrary: n log)
  case (Cons x es)
  from Cons.prems obtain u log1 where
    one: "kafka_sender valid_uri deliver new_id [event_of_entry x] log = (Inr u, log1)"
    and rest: "resend_loop (kafka_sender valid_uri deliver new_id) (n + 1) es log1 = (Inr m, log')"
    by (auto simp: send_entry_def split: prod.splits sum.splits)
  from kafka_sender_one[OF one] obtain rec where
    "log1 = log @ [rec]" "event_from_cloud parse_data (snd rec) = Inr (event_of_entry x)" by auto
  moreover obtain recs where "m = n + 1 + length es" "log' = log1 @ recs"
    "map (\<lambda>rec. event_from_cloud parse_data (snd rec)) recs = map (Inr \<circ> event_of_entry) es"
    using Cons.IH[OF rest] by blast
  ultimately show ?case by (intro conjI exI[of _ "rec # recs"]) simp_all
qed simp

text \<open>
  A resend round that succeeds delivers every entry that is older than the given
  duration, oldest first, and once the controller has handled what was delivered, nothing
  of that age is left in the outbox.
\<close>

theorem resend_clears:
  assumes "resend_process (kafka_sender valid_uri deliver new_id) now before rows log = (Inr n, log')"
  shows "\<exists>recs events. log' = log @ recs
     \<and> map (\<lambda>rec. event_from_cloud parse_data (snd rec)) recs = map Inr events
     \<and> events = map event_of_entry (fetch_unread now before rows) \<and> n = length events
     \<and> fetch_unread now before (fold service_mark_seen events rows) = []"
proof -
  let ?events = "map event_of_entry (fetch_unread now before rows)"
  have "set (fetch_unread now before (fold service_mark_seen ?events rows)) = {}"
    using seen_matches_row
    by (auto simp: set_fetch_unread set_fold_seen) (metis row_event_roundtrip)
  then show ?thesis
    using resend_loop_Inr[OF assms[unfolded resend_process_def], of parse_data]
    by (auto simp: retrieve_unseen_def intro!: exI[of _ ?events])
qed

theorem resend_clears_witness:
  "fetch_unread 100 10 (fold service_mark_seen [Application ''i'' ''a'' ''u'' ''.'' 2]
     (outbox_create 0 (demo_entry 2) [])) = []"
  using resend_clears[of "\<lambda>_. True" "\<lambda>_. True" "\<lambda>_. ''id''" 100 10
      "outbox_create 0 (demo_entry 2) []" "[]" 1
      "[(''i/a'', event_to_builder ''id'' (Application ''i'' ''a'' ''u'' ''.'' 2))]"]
  by (simp add: resend_process_def retrieve_unseen_def fetch_unread_def outbox_create_def
      demo_entry_def device_column_def entry_of_row_def send_entry_def event_of_entry_def
      kafka_sender_def event_to_cloud_def record_key_def event_consts Let_def)

end
