(* ===== verification/Registry_Api.thy ===== *)
theory Registry_Api
  imports Registry_Db Outbox
begin

text \<open>
  The public form of applications and devices and its conversion into entities and back
  (\<open>app_to_entity\<close>, \<open>device_to_entity\<close> of \<open>device-management-service/src/service/mod.rs\<close>, the
  \<open>From\<close> implementations of \<open>database-common/src/models/app.rs\<close> and \<open>device.rs\<close>), the trust
  anchors (\<open>service/x509.rs\<close>), the version checks (\<open>service/utils.rs\<close>) and the service errors
  (\<open>service/error.rs\<close>).

  \<open>env\<close> collects what the service takes from crates and from its configuration: the typed
  sections of the client crate, the PEM and X.509 parsers, UUID text, the collation, and
  which events the sender accepts.
\<close>

section \<open>Public resources\<close>

record api_application =
  pa_name :: string
  pa_uid :: string
  pa_resource_version :: string
  pa_labels :: "string smap"
  pa_annotations :: "string smap"
  pa_creation_timestamp :: timestamp
  pa_generation :: u64
  pa_deletion_timestamp :: "timestamp option"
  pa_finalizers :: "string list"
  pa_spec :: "json smap"
  pa_status :: "json smap"

record api_device =
  pd_name :: string
  pd_application :: string
  pd_uid :: string
  pd_resource_version :: string
  pd_labels :: "string smap"
  pd_annotations :: "string smap"
  pd_creation_timestamp :: timestamp
  pd_generation :: u64
  pd_deletion_timestamp :: "timestamp option"
  pd_finalizers :: "string list"
  pd_spec :: "json smap"
  pd_status :: "json smap"

datatype password = Plain string | BCrypt string | Sha512 string

record pre_shared_key =
  psk_key :: string
  psk_validity :: "(timestamp \<times> timestamp) option"

datatype credential =
    CPassword password
  | CUsernamePassword string password bool
  | CCertificate string
  | CPreSharedKey pre_shared_key

datatype anchor_entry =
    Valid string string timestamp timestamp
  | Invalid string string

record x509_certificate =
  xc_subject :: string
  xc_not_before :: timestamp
  xc_not_after :: timestamp

record env =
  env_instance :: string
  env_collate :: "string \<Rightarrow> nat"
  env_parse_uuid :: "string \<Rightarrow> uuid option"
  env_uuid_str :: "uuid \<Rightarrow> string"
  env_trust_anchors :: "json smap \<Rightarrow> string list option"
  env_anchors_value :: "anchor_entry list \<Rightarrow> string + json"
  env_parse_pems :: "string \<Rightarrow> string + (string \<times> string) list"
  env_parse_x509 :: "string \<Rightarrow> string + x509_certificate"
  env_aliases :: "json smap \<Rightarrow> string list option"
  env_authentication :: "json smap \<Rightarrow> credential list option"
  env_accepts :: "event \<Rightarrow> bool"

section \<open>Service errors\<close>

datatype mgmt_error = Service service_error | EventSender event_sender_error

fun advance_err :: "advance_error \<Rightarrow> service_error" where
  "advance_err (NotIncrementing current desired) =
     Internal (''not incrementing (was: '' @ nat_str (unat current)
       @ '', desired: '' @ nat_str (unat desired) @ '')'')"

fun map_err :: "('e \<Rightarrow> 'f) \<Rightarrow> 'e + 'a \<Rightarrow> 'f + 'a" where
  "map_err f (Inl e) = Inl (f e)"
| "map_err f (Inr x) = Inr x"

lemma map_err_eq [result_simps]:
  "map_err f r = Inr x \<longleftrightarrow> r = Inr x"
  "map_err f r = Inl e' \<longleftrightarrow> (\<exists>e. r = Inl e \<and> e' = f e)"
  by (cases r; auto)+

fun mgmt_error_response :: "mgmt_error \<Rightarrow> nat \<times> string" where
  "mgmt_error_response (Service err) = error_response err"
| "mgmt_error_response (EventSender err) = (502, ''EventSenderError'')"

section \<open>Trust anchors\<close>

fun first_certificate :: "env \<Rightarrow> string \<Rightarrow> (string \<times> string) list \<Rightarrow> string + anchor_entry" where
  "first_certificate env certs [] =
     Inr (Invalid ''NoCertificateFound'' ''No PEM encoded certificate was found'')"
| "first_certificate env certs ((tag, contents) # pems) =
     (if tag = ''CERTIFICATE''
      then rbind (map_err (\<lambda>err. ''Failed to parse certificate: '' @ err) (env_parse_x509 env contents))
             (\<lambda>cert. Inr (Valid (xc_subject cert) certs (xc_not_before cert) (xc_not_after cert)))
      else first_certificate env certs pems)"

definition process_anchor :: "env \<Rightarrow> string \<Rightarrow> string + anchor_entry" where
  "process_anchor env certs =
     rbind (map_err (\<lambda>err. ''Failed to parse PEM: '' @ err) (env_parse_pems env certs))
       (first_certificate env certs)"

fun process_anchors :: "env \<Rightarrow> string list \<Rightarrow> anchor_entry list \<times> typed_alias list" where
  "process_anchors env [] = ([], [])"
| "process_anchors env (certificate # rest) =
     (let (anchors, aliases) = process_anchors env rest in
      case process_anchor env certificate of
        Inr (Valid subject c nb na) \<Rightarrow>
          (Valid subject c nb na # anchors, List.insert (TypedAlias ''x509/ca'' subject) aliases)
      | Inr (Invalid e m) \<Rightarrow> (Invalid e m # anchors, aliases)
      | Inl message \<Rightarrow> (Invalid ''Failed'' message # anchors, aliases))"

section \<open>Conversion\<close>

text \<open>\<open>json!({"spec": \<dots>, "status": \<dots>})\<close>\<close>

definition sections_value :: "json smap \<Rightarrow> json smap \<Rightarrow> json" where
  "sections_value spec status = Object [(''spec'', Object spec), (''status'', Object status)]"

definition app_to_entity ::
  "env \<Rightarrow> api_application \<Rightarrow> service_error + (application \<times> typed_alias list)" where
  "app_to_entity env app =
     (let aliases = [TypedAlias ''name'' (pa_name app)] in
      rbind (case env_trust_anchors env (pa_spec app) of
               Some anchors \<Rightarrow>
                 (let status = process_anchors env anchors in
                  rbind (map_err BadRequest (env_anchors_value env (fst status))) (\<lambda>v.
                    Inr (AList.update ''trustAnchors'' v (pa_status app),
                         fold List.insert (snd status) aliases)))
             | None \<Rightarrow> Inr (pa_status app, aliases))
        (\<lambda>(status, aliases). Inr
          (\<lparr>app_uid = uuid_nil, app_name = pa_name app, app_labels = pa_labels app,
            app_annotations = pa_annotations app, app_creation_timestamp = 0,
            app_resource_version = uuid_nil, app_generation = 0, app_revision = 0,
            app_deletion_timestamp = None, app_finalizers = pa_finalizers app,
            app_owner = None, app_transfer_owner = None, app_members = [],
            app_data = sections_value (pa_spec app) status\<rparr>, aliases)))"

fun credential_alias :: "credential \<Rightarrow> typed_alias list \<Rightarrow> typed_alias list" where
  "credential_alias (CUsernamePassword username _ unique) aliases =
     (if unique then List.insert (TypedAlias ''username'' username) aliases else aliases)"
| "credential_alias _ aliases = aliases"

definition device_to_entity :: "env \<Rightarrow> api_device \<Rightarrow> device \<times> typed_alias list" where
  "device_to_entity env device =
     (let aliases = [TypedAlias ''name'' (pd_name device)];
          aliases = (case env_aliases env (pd_spec device) of
              Some spec \<Rightarrow> fold (\<lambda>a. List.insert (TypedAlias ''alias'' a)) spec aliases
            | None \<Rightarrow> aliases);
          aliases = (case env_authentication env (pd_spec device) of
              Some credentials \<Rightarrow> fold credential_alias credentials aliases
            | None \<Rightarrow> aliases)
      in (\<lparr>dev_application = pd_application device, dev_uid = uuid_nil, dev_name = pd_name device,
           dev_labels = pd_labels device, dev_annotations = pd_annotations device,
           dev_creation_timestamp = 0, dev_resource_version = uuid_nil, dev_generation = 0,
           dev_revision = 0, dev_deletion_timestamp = None, dev_finalizers = pd_finalizers device,
           dev_data = sections_value (pd_spec device) (pd_status device)\<rparr>, aliases))"

text \<open>\<open>extract_sect\<close>, and indexing a value by a section name: no object reads as no section.\<close>

definition section_of :: "json \<Rightarrow> string \<Rightarrow> json smap" where
  "section_of data key =
     (case Option.bind (as_object data) (\<lambda>m. Option.bind (map_of m key) as_object) of
        Some s \<Rightarrow> s | None \<Rightarrow> [])"

definition app_to_api :: "env \<Rightarrow> application \<Rightarrow> api_application" where
  "app_to_api env app =
     \<lparr>pa_name = app_name app, pa_uid = env_uuid_str env (app_uid app),
      pa_resource_version = env_uuid_str env (app_resource_version app),
      pa_labels = app_labels app, pa_annotations = app_annotations app,
      pa_creation_timestamp = app_creation_timestamp app, pa_generation = app_generation app,
      pa_deletion_timestamp = app_deletion_timestamp app, pa_finalizers = app_finalizers app,
      pa_spec = section_of (app_data app) ''spec'', pa_status = section_of (app_data app) ''status''\<rparr>"

definition device_to_api :: "env \<Rightarrow> device \<Rightarrow> api_device" where
  "device_to_api env device =
     \<lparr>pd_name = dev_name device, pd_application = dev_application device,
      pd_uid = env_uuid_str env (dev_uid device),
      pd_resource_version = env_uuid_str env (dev_resource_version device),
      pd_labels = dev_labels device, pd_annotations = dev_annotations device,
      pd_creation_timestamp = dev_creation_timestamp device, pd_generation = dev_generation device,
      pd_deletion_timestamp = dev_deletion_timestamp device, pd_finalizers = dev_finalizers device,
      pd_spec = section_of (dev_data device) ''spec'',
      pd_status = section_of (dev_data device) ''status''\<rparr>"

lemma section_of_sections [simp]:
  "section_of (sections_value spec status) ''spec'' = spec"
  "section_of (sections_value spec status) ''status'' = status"
  by (simp_all add: section_of_def sections_value_def)

section \<open>Version checks\<close>

record constraints =
  con_uid :: uuid
  con_resource_version :: uuid

record preconditions =
  pre_uid :: string
  pre_resource_version :: string

definition is_ok_and_equal :: "env \<Rightarrow> string \<Rightarrow> uuid \<Rightarrow> uuid option" where
  "is_ok_and_equal env expected actual =
     (if expected = [] then Some actual
      else case env_parse_uuid env expected of
        Some e \<Rightarrow> if e = actual then Some e else None
      | None \<Rightarrow> None)"

definition check_versions ::
  "env \<Rightarrow> string \<Rightarrow> string \<Rightarrow> uuid \<Rightarrow> uuid \<Rightarrow> service_error + constraints" where
  "check_versions env expected_uid expected_resource_version uid resource_version =
     rbind (if expected_uid \<noteq> []
            then ok_or (Conflict (''Update request for non-existent ID - current: ''
                     @ env_uuid_str env uid @ '', requested: '' @ expected_uid))
                   (is_ok_and_equal env expected_uid uid)
            else Inr uid) (\<lambda>u.
     rbind (ok_or (Conflict (''Update request for modified object - current: ''
                     @ env_uuid_str env resource_version @ '', requested: ''
                     @ expected_resource_version))
              (is_ok_and_equal env expected_resource_version resource_version)) (\<lambda>v.
       Inr \<lparr>con_uid = u, con_resource_version = v\<rparr>))"

definition check_preconditions ::
  "env \<Rightarrow> preconditions option \<Rightarrow> uuid \<Rightarrow> uuid \<Rightarrow> service_error + constraints" where
  "check_preconditions env pre uid resource_version =
     check_versions env (case pre of Some p \<Rightarrow> pre_uid p | None \<Rightarrow> [])
       (case pre of Some p \<Rightarrow> pre_resource_version p | None \<Rightarrow> []) uid resource_version"

text \<open>What an expectation means: empty, or the text of the actual identifier.\<close>

definition expects :: "env \<Rightarrow> string \<Rightarrow> uuid \<Rightarrow> bool" where
  "expects env expected actual \<longleftrightarrow> expected = [] \<or> env_parse_uuid env expected = Some actual"

lemma is_ok_and_equal_Some [simp]:
  "is_ok_and_equal env e a = Some c \<longleftrightarrow> expects env e a \<and> c = a"
  by (auto simp: is_ok_and_equal_def expects_def split: option.splits)

lemma check_versions_Inr [result_simps]:
  "check_versions env eu ev u v = Inr c \<longleftrightarrow>
     expects env eu u \<and> expects env ev v \<and> c = \<lparr>con_uid = u, con_resource_version = v\<rparr>"
  by (auto simp: check_versions_def result_simps expects_def)

lemma check_preconditions_Inr [result_simps]:
  "check_preconditions env pre u v = Inr c \<longleftrightarrow>
     (\<forall>p. pre = Some p \<longrightarrow> expects env (pre_uid p) u \<and> expects env (pre_resource_version p) v)
     \<and> c = \<lparr>con_uid = u, con_resource_version = v\<rparr>"
  by (cases pre) (auto simp: check_preconditions_def result_simps expects_def)

section \<open>Well-formedness\<close>

definition api_app_wf :: "env \<Rightarrow> api_application \<Rightarrow> bool" where
  "api_app_wf env a \<longleftrightarrow> wf_map (pa_labels a) \<and> wf_map (pa_annotations a)
     \<and> wf_json (Object (pa_spec a)) \<and> wf_json (Object (pa_status a))
     \<and> (\<forall>l v. env_anchors_value env l = Inr v \<longrightarrow> wf_json v)"

definition api_dev_wf :: "api_device \<Rightarrow> bool" where
  "api_dev_wf d \<longleftrightarrow> wf_map (pd_labels d) \<and> wf_map (pd_annotations d)
     \<and> wf_json (Object (pd_spec d)) \<and> wf_json (Object (pd_status d))"

lemma set_update_subset: "set (AList.update k v m) \<subseteq> insert (k, v) (set m)"
  by (induction m) auto

lemma wf_json_update:
  "wf_json (Object m) \<Longrightarrow> wf_json v \<Longrightarrow> wf_json (Object (AList.update k v m))"
  using set_update_subset[of k v m] by (auto simp: distinct_update)

lemma app_to_entity_wf:
  "api_app_wf env a \<Longrightarrow> app_to_entity env a = Inr (e, as) \<Longrightarrow> app_wf e"
  using wf_json_update[of "pa_status a"]
  by (auto simp: app_to_entity_def api_app_wf_def app_wf_def sections_value_def result_simps
      Let_def distinct_update split: option.splits) (metis snd_conv)

lemma device_to_entity_wf: "api_dev_wf d \<Longrightarrow> dev_wf (fst (device_to_entity env d))"
  by (simp add: device_to_entity_def api_dev_wf_def dev_wf_def sections_value_def Let_def)

lemma app_to_entity_fields:
  assumes "app_to_entity env a = Inr (e, as)"
  shows "app_name e = pa_name a" "app_labels e = pa_labels a" "app_annotations e = pa_annotations a"
    "app_finalizers e = pa_finalizers a" "app_generation e = 0" "app_revision e = 0"
    "app_uid e = uuid_nil" "app_deletion_timestamp e = None"
    "section_of (app_data e) ''spec'' = pa_spec a"
  using assms by (auto simp: app_to_entity_def result_simps Let_def)

lemma device_to_entity_fields [simp]:
  "dev_name (fst (device_to_entity env d)) = pd_name d"
  "dev_application (fst (device_to_entity env d)) = pd_application d"
  "dev_labels (fst (device_to_entity env d)) = pd_labels d"
  "dev_annotations (fst (device_to_entity env d)) = pd_annotations d"
  "dev_finalizers (fst (device_to_entity env d)) = pd_finalizers d"
  "dev_generation (fst (device_to_entity env d)) = 0"
  "dev_revision (fst (device_to_entity env d)) = 0"
  "dev_deletion_timestamp (fst (device_to_entity env d)) = None"
  "dev_data (fst (device_to_entity env d)) = sections_value (pd_spec d) (pd_status d)"
  by (simp_all add: device_to_entity_def Let_def)

end
