(* ===== verification/Management.thy ===== *)
theory Management
  imports Registry_Api
begin

text \<open>
  The device registry service: \<open>ManagementService for PostgresManagementService\<close>
  (\<open>device-management-service/src/service/management/mod.rs\<close>) with its helpers
  \<open>perform_update_app\<close>, \<open>check_clean_app\<close> and \<open>send_to_outbox\<close> (\<open>service/mod.rs\<close>).

  The state is the registry, the outbox and the log of the events the sender has accepted.
  Every modifying operation is a transaction that returns the events it causes; \<open>transact\<close>
  is the frame they share: on an error the transaction is rolled back, otherwise the events
  are recorded in the outbox, all is committed, and then the events are sent.
\<close>

section \<open>State and transactions\<close>

record mgmt =
  m_reg :: registry
  m_outbox :: "outbox_row list"
  m_sent :: "event list"

fun send_events :: "(event \<Rightarrow> bool) \<Rightarrow> event list \<Rightarrow> event list \<Rightarrow> (event_sender_error + unit) \<times> event list" where
  "send_events accepts [] sent = (Inr (), sent)"
| "send_events accepts (e # events) sent =
     (if accepts e then send_events accepts events (sent @ [e]) else (Inl Sender, sent))"

definition send_to_outbox :: "timestamp \<Rightarrow> event list \<Rightarrow> outbox_row list \<Rightarrow> outbox_row list" where
  "send_to_outbox now events rows = outbox_notify now events rows"

definition transact ::
  "env \<Rightarrow> fresh \<Rightarrow> (registry \<Rightarrow> service_error + (event list \<times> registry)) \<Rightarrow> mgmt
    \<Rightarrow> (mgmt_error + unit) \<times> mgmt" where
  "transact env fr body s =
     (case body (m_reg s) of
        Inl e \<Rightarrow> (Inl (Service e), s)
      | Inr (events, reg) \<Rightarrow>
          let (r, sent) = send_events (env_accepts env) events (m_sent s)
          in (map_err EventSender r,
              \<lparr>m_reg = reg, m_outbox = send_to_outbox (fr_now fr) events (m_outbox s), m_sent = sent\<rparr>))"

text \<open>The mapping of a violated unique key, and for new devices of a violated reference.\<close>

definition conflict_err :: "service_error \<Rightarrow> service_error" where
  "conflict_err err = (if err_sql_state err = Some UNIQUE_VIOLATION
     then Conflict ''Unique key violation'' else err)"

definition create_device_err :: "service_error \<Rightarrow> service_error" where
  "create_device_err err =
     (if err_sql_state err = Some UNIQUE_VIOLATION then Conflict ''Unique key violation''
      else if err_sql_state err = Some FOREIGN_KEY_VIOLATION then ReferenceNotFound
      else err)"

abbreviation app_paths :: "application \<Rightarrow> application \<Rightarrow> string list" where
  "app_paths \<equiv> diff_paths app_labels app_annotations app_finalizers app_data"

abbreviation dev_paths :: "device \<Rightarrow> device \<Rightarrow> string list" where
  "dev_paths \<equiv> diff_paths dev_labels dev_annotations dev_finalizers dev_data"

abbreviation app_advance_from :: "string list \<Rightarrow> application \<Rightarrow> application \<Rightarrow> advance_error + (u64 \<times> application)" where
  "app_advance_from \<equiv> advance_from app_generation app_put_generation app_revision app_put_revision"

abbreviation dev_advance_from :: "string list \<Rightarrow> device \<Rightarrow> device \<Rightarrow> advance_error + (u64 \<times> device)" where
  "dev_advance_from \<equiv> advance_from dev_generation dev_put_generation dev_revision dev_put_revision"

section \<open>Applications\<close>

definition create_app_tx ::
  "env \<Rightarrow> fresh \<Rightarrow> user_information \<Rightarrow> api_application \<Rightarrow> registry
    \<Rightarrow> service_error + (event list \<times> registry)" where
  "create_app_tx env fr identity application db =
     rbind (app_to_entity env application) (\<lambda>(app, aliases).
       let generation = app_generation app;
           uid = fr_uid fr;
           app = app\<lparr>app_uid := uid, app_owner := user_id identity\<rparr>
       in rbind (map_err conflict_err (app_create fr app aliases db)) (\<lambda>db'.
            Inr (new_app (env_instance env) (app_name app) (env_uuid_str env uid) generation [], db')))"

definition create_app ::
  "env \<Rightarrow> fresh \<Rightarrow> user_information \<Rightarrow> api_application \<Rightarrow> mgmt \<Rightarrow> (mgmt_error + unit) \<times> mgmt" where
  "create_app env fr identity application = transact env fr (create_app_tx env fr identity application)"

definition get_app ::
  "env \<Rightarrow> user_information \<Rightarrow> string \<Rightarrow> mgmt \<Rightarrow> mgmt_error + api_application option" where
  "get_app env identity name s =
     map_err Service
       (case app_get (env_collate env) name LockNone (m_reg s) of
          None \<Rightarrow> Inr None
        | Some app \<Rightarrow> rbind (ensure (app_resource app) identity PermRead)
            (\<lambda>_. Inr (Some (app_to_api env app))))"

definition list_apps ::
  "env \<Rightarrow> user_information \<Rightarrow> operation list \<Rightarrow> nat option \<Rightarrow> nat option \<Rightarrow> mgmt
    \<Rightarrow> api_application list" where
  "list_apps env identity labels limit offset s =
     map (app_to_api env)
       (filter (\<lambda>app. is_ok (ensure (app_resource app) identity PermRead))
         (app_list (env_collate env) None labels limit offset (Some identity) LockNone [''NAME''] (m_reg s)))"

definition perform_update_app ::
  "env \<Rightarrow> fresh \<Rightarrow> user_information option \<Rightarrow> application \<Rightarrow> typed_alias list option \<Rightarrow> string
    \<Rightarrow> string \<Rightarrow> registry \<Rightarrow> service_error + (event list \<times> registry)" where
  "perform_update_app env fr identity app aliases expected_uid expected_resource_version db =
     rbind (ok_or NotFound (app_get (env_collate env) (app_name app) ForUpdate db)) (\<lambda>current.
     rbind (case identity of
              Some i \<Rightarrow> ensure (app_resource current) i PermWrite
            | None \<Rightarrow> Inr ()) (\<lambda>_.
     rbind (check_versions env expected_uid expected_resource_version
              (app_uid current) (app_resource_version current)) (\<lambda>_.
       let app = app\<lparr>app_deletion_timestamp := app_deletion_timestamp current\<rparr> in
       if app_deletion_timestamp app \<noteq> None \<and> app_finalizers app = []
       then rbind (app_delete (app_name app) db) (\<lambda>db'. Inr ([], db'))
       else let paths = app_paths current app in
         if paths = [] then Inr ([], db)
         else rbind (map_err advance_err (app_advance_from paths app current)) (\<lambda>(revision, app).
              rbind (map_err conflict_err (app_update_data fr app aliases db)) (\<lambda>(_, db').
                Inr (new_app (env_instance env) (app_name app) (env_uuid_str env (app_uid app))
                       revision paths, db'))))))"

definition update_app ::
  "env \<Rightarrow> fresh \<Rightarrow> user_information \<Rightarrow> api_application \<Rightarrow> mgmt \<Rightarrow> (mgmt_error + unit) \<times> mgmt" where
  "update_app env fr identity application =
     transact env fr (\<lambda>db. rbind (app_to_entity env application) (\<lambda>(app, aliases).
       perform_update_app env fr (Some identity) app (Some aliases) (pa_uid application)
         (pa_resource_version application) db))"

definition delete_app_tx ::
  "env \<Rightarrow> fresh \<Rightarrow> user_information \<Rightarrow> string \<Rightarrow> preconditions option \<Rightarrow> registry
    \<Rightarrow> service_error + (event list \<times> registry)" where
  "delete_app_tx env fr identity name pre db =
     rbind (ok_or NotFound (app_get (env_collate env) name ForUpdate db)) (\<lambda>current.
     rbind (if app_deletion_timestamp current \<noteq> None then Inl NotFound else Inr ()) (\<lambda>_.
     rbind (ensure (app_resource current) identity PermAdmin) (\<lambda>_.
     rbind (check_preconditions env pre (app_uid current) (app_resource_version current)) (\<lambda>_.
       let (remaining_devices, db) = dev_delete_app name db;
           current = (if remaining_devices > 0
                      then current\<lparr>app_finalizers := app_finalizers current @ [''has-devices'']\<rparr>
                      else current)
       in rbind (map_err advance_err (advance_revision app_revision app_put_revision current))
            (\<lambda>(revision, current).
          rbind (if app_finalizers current = []
                 then rbind (app_delete name db) (\<lambda>db. Inr ([], db))
                 else let current = current\<lparr>app_deletion_timestamp := Some (fr_now fr)\<rparr> in
                   rbind (app_update_data fr current None db) (\<lambda>(_, db). Inr ([''.metadata''], db)))
            (\<lambda>(paths, db). Inr (new_app (env_instance env) name (env_uuid_str env (app_uid current))
                                   revision paths, db)))))))"

definition delete_app ::
  "env \<Rightarrow> fresh \<Rightarrow> user_information \<Rightarrow> string \<Rightarrow> preconditions option \<Rightarrow> mgmt
    \<Rightarrow> (mgmt_error + unit) \<times> mgmt" where
  "delete_app env fr identity name pre = transact env fr (delete_app_tx env fr identity name pre)"

definition check_clean_app ::
  "env \<Rightarrow> fresh \<Rightarrow> string \<Rightarrow> registry \<Rightarrow> service_error + registry" where
  "check_clean_app env fr app_id db =
     (case app_get (env_collate env) app_id ForUpdate db of
        None \<Rightarrow> Inr db
      | Some app \<Rightarrow>
          if app_deletion_timestamp app = None then Inr db
          else if count_devices app_id db > 0 then Inr db
          else let app = app\<lparr>app_finalizers := filter (\<lambda>f. f \<noteq> ''has-devices'') (app_finalizers app)\<rparr>
               in rbind (perform_update_app env fr None app None [] [] db) (\<lambda>(_, db'). Inr db'))"

section \<open>Devices\<close>

definition create_device_tx ::
  "env \<Rightarrow> fresh \<Rightarrow> user_information \<Rightarrow> api_device \<Rightarrow> registry
    \<Rightarrow> service_error + (event list \<times> registry)" where
  "create_device_tx env fr identity dev db =
     (let (device, aliases) = device_to_entity env dev;
          generation = dev_generation device;
          application = dev_application device in
      rbind (case app_get (env_collate env) application ForShare db of
               Some app \<Rightarrow> if app_deletion_timestamp app = None then Inr app else Inl ReferenceNotFound
             | None \<Rightarrow> Inl ReferenceNotFound) (\<lambda>app.
      rbind (ensure_with (app_resource app) identity PermWrite ReferenceNotFound) (\<lambda>_.
        let uid = fr_uid fr;
            device = device\<lparr>dev_uid := uid\<rparr>
        in rbind (map_err create_device_err (dev_create fr device aliases db)) (\<lambda>db'.
             Inr (new_device (env_instance env) application (dev_name device)
                    (env_uuid_str env uid) generation [], db')))))"

definition create_device ::
  "env \<Rightarrow> fresh \<Rightarrow> user_information \<Rightarrow> api_device \<Rightarrow> mgmt \<Rightarrow> (mgmt_error + unit) \<times> mgmt" where
  "create_device env fr identity device = transact env fr (create_device_tx env fr identity device)"

definition get_device ::
  "env \<Rightarrow> user_information \<Rightarrow> string \<Rightarrow> string \<Rightarrow> mgmt \<Rightarrow> mgmt_error + api_device option" where
  "get_device env identity app_id device_id s =
     map_err Service
       (rbind (ok_or NotFound (app_get (env_collate env) app_id LockNone (m_reg s))) (\<lambda>app.
        rbind (ensure_with (app_resource app) identity PermRead NotFound) (\<lambda>_.
          Inr (map_option (device_to_api env)
                 (dev_get (env_collate env) app_id device_id LockNone (m_reg s))))))"

definition list_devices ::
  "env \<Rightarrow> user_information \<Rightarrow> string \<Rightarrow> operation list \<Rightarrow> nat option \<Rightarrow> nat option \<Rightarrow> mgmt
    \<Rightarrow> mgmt_error + api_device list" where
  "list_devices env identity app_id labels limit offset s =
     map_err Service
       (rbind (ok_or NotFound (app_get (env_collate env) app_id LockNone (m_reg s))) (\<lambda>app.
        rbind (ensure_with (app_resource app) identity PermRead NotFound) (\<lambda>_.
          Inr (map (device_to_api env)
                 (dev_list (env_collate env) app_id None labels limit offset LockNone (m_reg s))))))"

definition update_device_tx ::
  "env \<Rightarrow> fresh \<Rightarrow> user_information \<Rightarrow> api_device \<Rightarrow> registry
    \<Rightarrow> service_error + (event list \<times> registry)" where
  "update_device_tx env fr identity dev db =
     (let (device, aliases) = device_to_entity env dev;
          application = dev_application device;
          name = dev_name device in
      rbind (ok_or NotFound (app_get (env_collate env) application LockNone db)) (\<lambda>app.
      rbind (ensure_with (app_resource app) identity PermWrite NotFound) (\<lambda>_.
      rbind (ok_or NotFound (dev_get (env_collate env) application name ForUpdate db)) (\<lambda>current.
      rbind (check_versions env (pd_uid dev) (pd_resource_version dev)
               (dev_uid current) (dev_resource_version current)) (\<lambda>_.
        let device = device\<lparr>dev_deletion_timestamp := dev_deletion_timestamp current\<rparr> in
        if dev_deletion_timestamp device \<noteq> None \<and> dev_finalizers device = []
        then rbind (dev_delete application name db) (\<lambda>db.
             rbind (check_clean_app env fr application db) (\<lambda>db. Inr ([], db)))
        else let paths = dev_paths current device in
          if paths = [] then Inr ([], db)
          else rbind (map_err advance_err (dev_advance_from paths device current)) (\<lambda>(revision, device).
               rbind (map_err conflict_err (dev_update fr device (Some aliases) db)) (\<lambda>(_, db).
                 Inr (new_device (env_instance env) application name
                        (env_uuid_str env (dev_uid current)) revision paths, db))))))))"

definition update_device ::
  "env \<Rightarrow> fresh \<Rightarrow> user_information \<Rightarrow> api_device \<Rightarrow> mgmt \<Rightarrow> (mgmt_error + unit) \<times> mgmt" where
  "update_device env fr identity device = transact env fr (update_device_tx env fr identity device)"

definition delete_device_tx ::
  "env \<Rightarrow> fresh \<Rightarrow> user_information \<Rightarrow> string \<Rightarrow> string \<Rightarrow> preconditions option \<Rightarrow> registry
    \<Rightarrow> service_error + (event list \<times> registry)" where
  "delete_device_tx env fr identity application device pre db =
     rbind (ok_or NotFound (dev_get (env_collate env) application device ForUpdate db)) (\<lambda>current.
     rbind (if dev_deletion_timestamp current \<noteq> None then Inl NotFound else Inr ()) (\<lambda>_.
     rbind (ok_or NotFound (app_get (env_collate env) application LockNone db)) (\<lambda>app.
     rbind (ensure_with (app_resource app) identity PermWrite NotFound) (\<lambda>_.
     rbind (check_preconditions env pre (dev_uid current) (dev_resource_version current)) (\<lambda>_.
     rbind (map_err advance_err (advance_revision dev_revision dev_put_revision current))
       (\<lambda>(revision, current).
     rbind (if dev_finalizers current = []
            then rbind (dev_delete application device db) (\<lambda>db. Inr ([], db))
            else let current = current\<lparr>dev_deletion_timestamp := Some (fr_now fr)\<rparr> in
              rbind (dev_update fr current None db) (\<lambda>(_, db). Inr ([''.metadata''], db)))
       (\<lambda>(paths, db). Inr (new_device (env_instance env) application device
                              (env_uuid_str env (dev_uid current)) revision paths, db))))))))"

definition delete_device ::
  "env \<Rightarrow> fresh \<Rightarrow> user_information \<Rightarrow> string \<Rightarrow> string \<Rightarrow> preconditions option \<Rightarrow> mgmt
    \<Rightarrow> (mgmt_error + unit) \<times> mgmt" where
  "delete_device env fr identity application device pre =
     transact env fr (delete_device_tx env fr identity application device pre)"

section \<open>The tables stay consistent\<close>

lemmas tx_defs = create_app_tx_def delete_app_tx_def create_device_tx_def update_device_tx_def
  delete_device_tx_def perform_update_app_def

lemma app_wf_upd [simp]:
  "app_wf (a\<lparr>app_uid := u\<rparr>) = app_wf a" "app_wf (a\<lparr>app_owner := w\<rparr>) = app_wf a"
  "app_wf (a\<lparr>app_finalizers := l\<rparr>) = app_wf a" "app_wf (a\<lparr>app_deletion_timestamp := t\<rparr>) = app_wf a"
  "app_wf (a\<lparr>app_generation := g\<rparr>) = app_wf a" "app_wf (a\<lparr>app_revision := r\<rparr>) = app_wf a"
  by (simp_all add: app_wf_def)

lemma dev_wf_upd [simp]:
  "dev_wf (d\<lparr>dev_uid := u\<rparr>) = dev_wf d" "dev_wf (d\<lparr>dev_deletion_timestamp := t\<rparr>) = dev_wf d"
  "dev_wf (d\<lparr>dev_generation := g\<rparr>) = dev_wf d" "dev_wf (d\<lparr>dev_revision := r\<rparr>) = dev_wf d"
  by (simp_all add: dev_wf_def)

lemma app_get_wf:
  "reg_inv db \<Longrightarrow> app_get c n l db = Some a \<Longrightarrow> app_wf a"
  by (auto simp: app_get_eq reg_inv_defs dest: lookup_row_SomeD)

lemma dev_get_wf:
  "reg_inv db \<Longrightarrow> dev_get c app n l db = Some d \<Longrightarrow> dev_wf d"
  by (auto simp: dev_get_eq reg_inv_defs dest: lookup_row_SomeD)

lemma app_advance_wf:
  "app_advance_from paths a c = Inr (r, a') \<Longrightarrow> app_wf a' = app_wf a \<and> app_name a' = app_name a"
  by (auto simp: advance_from_def set_revision_def set_generation_def Let_def result_simps app_wf_def
      split: if_splits)

lemma dev_advance_wf:
  "dev_advance_from paths d c = Inr (r, d') \<Longrightarrow> dev_wf d' = dev_wf d"
  by (auto simp: advance_from_def set_revision_def set_generation_def Let_def result_simps dev_wf_def
      split: if_splits)

lemma create_app_tx_inv:
  assumes "reg_inv db" and "api_app_wf env a" and "create_app_tx env fr i a db = Inr (evs, db')"
  shows "reg_inv db'"
proof -
  from assms(3) obtain app aliases where e: "app_to_entity env a = Inr (app, aliases)"
    and c: "app_create fr (app\<lparr>app_uid := fr_uid fr, app_owner := user_id i\<rparr>) aliases db = Inr db'"
    by (auto simp: create_app_tx_def Let_def result_simps)
  have "app_wf (app\<lparr>app_uid := fr_uid fr, app_owner := user_id i\<rparr>)"
    using app_to_entity_wf[OF assms(2) e] by simp
  with reg_inv_app_create[OF assms(1) _ c] show ?thesis by blast
qed

text \<open>The three ways an application update succeeds: nothing to do, gone, or written.\<close>

lemma perform_update_app_cases:
  assumes "perform_update_app env fr i a as eu ev db = Inr (evs, db')"
  obtains (same) cur where
      "app_get (env_collate env) (app_name a) ForUpdate db = Some cur"
      "case i of None \<Rightarrow> True | Some u \<Rightarrow> authorize (app_resource cur) u PermWrite = Allow"
      "expects env eu (app_uid cur)" "expects env ev (app_resource_version cur)"
      "app_paths cur (a\<lparr>app_deletion_timestamp := app_deletion_timestamp cur\<rparr>) = []"
      "db' = db" "evs = []"
  | (gone) cur where
      "app_get (env_collate env) (app_name a) ForUpdate db = Some cur"
      "case i of None \<Rightarrow> True | Some u \<Rightarrow> authorize (app_resource cur) u PermWrite = Allow"
      "expects env eu (app_uid cur)" "expects env ev (app_resource_version cur)"
      "app_deletion_timestamp cur \<noteq> None" "app_finalizers a = []"
      "app_delete (app_name a) db = Inr db'" "evs = []"
  | (written) cur r new m where
      "app_get (env_collate env) (app_name a) ForUpdate db = Some cur"
      "case i of None \<Rightarrow> True | Some u \<Rightarrow> authorize (app_resource cur) u PermWrite = Allow"
      "expects env eu (app_uid cur)" "expects env ev (app_resource_version cur)"
      "app_paths cur (a\<lparr>app_deletion_timestamp := app_deletion_timestamp cur\<rparr>) \<noteq> []"
      "app_advance_from (app_paths cur (a\<lparr>app_deletion_timestamp := app_deletion_timestamp cur\<rparr>))
         (a\<lparr>app_deletion_timestamp := app_deletion_timestamp cur\<rparr>) cur = Inr (r, new)"
      "app_update_data fr new as db = Inr (m, db')"
      "evs = new_app (env_instance env) (app_name new) (env_uuid_str env (app_uid new)) r
         (app_paths cur (a\<lparr>app_deletion_timestamp := app_deletion_timestamp cur\<rparr>))"
      "app_deletion_timestamp cur = None \<or> app_finalizers a \<noteq> []"
proof -
  have perm: "(case i of Some u \<Rightarrow> ensure (app_resource cur) u PermWrite | None \<Rightarrow> Inr ()) = Inr () \<longleftrightarrow>
      (case i of None \<Rightarrow> True | Some u \<Rightarrow> authorize (app_resource cur) u PermWrite = Allow)" for cur
    by (auto simp: result_simps split: option.splits)
  from assms obtain cur where cur: "app_get (env_collate env) (app_name a) ForUpdate db = Some cur"
      "case i of None \<Rightarrow> True | Some u \<Rightarrow> authorize (app_resource cur) u PermWrite = Allow"
      "expects env eu (app_uid cur)" "expects env ev (app_resource_version cur)"
    by (auto simp: perform_update_app_def result_simps perm)
  let ?a = "a\<lparr>app_deletion_timestamp := app_deletion_timestamp cur\<rparr>"
  consider (d) "app_deletion_timestamp cur \<noteq> None" "app_finalizers a = []"
    | (s) "app_deletion_timestamp cur = None \<or> app_finalizers a \<noteq> []" "app_paths cur ?a = []"
    | (w) "app_deletion_timestamp cur = None \<or> app_finalizers a \<noteq> []" "app_paths cur ?a \<noteq> []"
    by fast
  then show ?thesis
  proof cases
    case d
    with assms cur show ?thesis
      by (intro gone[OF cur d]) (auto simp: perform_update_app_def Let_def result_simps)
  next
    case s
    with assms cur show ?thesis
      by (intro same[OF cur s(2)]) (auto simp: perform_update_app_def Let_def result_simps)
  next
    case w
    with assms cur obtain r new m where "app_advance_from (app_paths cur ?a) ?a cur = Inr (r, new)"
        "app_update_data fr new as db = Inr (m, db')"
        "evs = new_app (env_instance env) (app_name new) (env_uuid_str env (app_uid new)) r (app_paths cur ?a)"
      by (auto simp: perform_update_app_def Let_def result_simps)
    then show ?thesis by (rule written[OF cur w(2) _ _ _ w(1)])
  qed
qed

lemma perform_update_app_inv:
  assumes "reg_inv db" and "app_wf app"
    and "perform_update_app env fr i app as eu ev db = Inr (evs, db')"
  shows "reg_inv db'"
  using assms(3)
proof (cases rule: perform_update_app_cases)
  case (written cur r new m)
  have "app_wf new" using app_advance_wf[OF written(6)] assms(2) by simp
  then show ?thesis using reg_inv_app_update_data[OF assms(1)] written(7) by blast
qed (use assms(1) reg_inv_app_delete in blast)+

text \<open>What a successful deletion did, with the intermediate values named.\<close>

lemma delete_app_tx_cases:
  assumes "delete_app_tx env fr i n pre db = Inr (evs, db')"
  obtains (hard) c db1 where
      "app_get (env_collate env) n ForUpdate db = Some c"
      "authorize (app_resource c) i PermAdmin = Allow"
      "app_deletion_timestamp c = None"
      "dev_delete_app n db = (0, db1)" "app_finalizers c = []" "app_delete n db1 = Inr db'"
      "evs = new_app (env_instance env) n (env_uuid_str env (app_uid c)) (app_revision c + 1) []"
  | (soft) c k db1 l m where
      "app_get (env_collate env) n ForUpdate db = Some c"
      "authorize (app_resource c) i PermAdmin = Allow"
      "app_deletion_timestamp c = None"
      "dev_delete_app n db = (k, db1)"
      "l = app_finalizers c @ (if k > 0 then [''has-devices''] else [])" "l \<noteq> []"
      "app_update_data fr (c\<lparr>app_revision := app_revision c + 1, app_deletion_timestamp := Some (fr_now fr),
          app_finalizers := l\<rparr>) None db1 = Inr (m, db')"
      "evs = new_app (env_instance env) n (env_uuid_str env (app_uid c)) (app_revision c + 1) [''.metadata'']"
proof -
  obtain k db1 where d: "dev_delete_app n db = (k, db1)" by fastforce
  have upd: "c\<lparr>app_finalizers := l, app_revision := r, app_deletion_timestamp := t\<rparr> =
      c\<lparr>app_revision := r, app_deletion_timestamp := t, app_finalizers := l\<rparr>" for c l r t
    by simp
  show ?thesis
    using assms hard[of _ db1] soft[of _ k db1] d
    by (auto simp: delete_app_tx_def Let_def result_simps app_ver.advance_revision_Inr upd
        split: if_splits)
qed

lemma delete_app_tx_inv:
  assumes "reg_inv db" and "delete_app_tx env fr i n pre db = Inr (evs, db')"
  shows "reg_inv db'"
  using assms(2)
proof (cases rule: delete_app_tx_cases)
  case (hard c db1)
  then show ?thesis using assms(1) reg_inv_dev_delete_app reg_inv_app_delete by blast
next
  case (soft c k db1 l m)
  have "app_wf (c\<lparr>app_revision := app_revision c + 1, app_deletion_timestamp := Some (fr_now fr),
      app_finalizers := l\<rparr>)"
    using app_get_wf[OF assms(1) soft(1)] by simp
  then show ?thesis
    using soft(7) reg_inv_app_update_data[OF reg_inv_dev_delete_app[OF assms(1) soft(4)]] by blast
qed

lemma check_clean_app_inv:
  assumes "reg_inv db" and "check_clean_app env fr n db = Inr db'"
  shows "reg_inv db'"
proof (cases "app_get (env_collate env) n ForUpdate db")
  case (Some a)
  have "app_wf (a\<lparr>app_finalizers := l\<rparr>)" for l
    using app_get_wf[OF assms(1) Some] by simp
  from perform_update_app_inv[OF assms(1) this] show ?thesis
    using assms Some
    by (auto simp: check_clean_app_def Let_def result_simps simp del: app_wf_upd split: if_splits)
qed (use assms in \<open>simp add: check_clean_app_def\<close>)

lemma create_device_tx_Inr:
  assumes "create_device_tx env fr i d db = Inr (evs, db')"
    and "dev = fst (device_to_entity env d)" and "as = snd (device_to_entity env d)"
  obtains app where
      "app_get (env_collate env) (pd_application d) ForShare db = Some app"
      "app_deletion_timestamp app = None" "authorize (app_resource app) i PermWrite = Allow"
      "dev_create fr (dev\<lparr>dev_uid := fr_uid fr\<rparr>) as db = Inr db'"
      "evs = new_device (env_instance env) (pd_application d) (pd_name d)
         (env_uuid_str env (fr_uid fr)) 0 []"
proof -
  have e: "device_to_entity env d = (dev, as)" "dev_application dev = pd_application d"
    "dev_name dev = pd_name d" "dev_generation dev = 0"
    using assms(2,3) by simp_all
  from assms(1) show ?thesis
    by (auto simp: create_device_tx_def e Let_def result_simps split: option.splits if_splits
        intro: that)
qed

lemma create_device_tx_inv:
  assumes "reg_inv db" and "api_dev_wf d" and "create_device_tx env fr i d db = Inr (evs, db')"
  shows "reg_inv db'"
  using assms(3) refl refl
proof (rule create_device_tx_Inr)
  assume "dev_create fr ((fst (device_to_entity env d))\<lparr>dev_uid := fr_uid fr\<rparr>)
    (snd (device_to_entity env d)) db = Inr db'"
  from reg_inv_dev_create[OF assms(1) _ this] show ?thesis
    using device_to_entity_wf[OF assms(2)] by simp
qed

text \<open>The three ways a device update succeeds: nothing to do, gone, or written.\<close>

lemma update_device_tx_cases:
  assumes "update_device_tx env fr i d db = Inr (evs, db')"
    and "dev = fst (device_to_entity env d)" and "as = snd (device_to_entity env d)"
  obtains (same) app cur where
      "app_get (env_collate env) (pd_application d) LockNone db = Some app"
      "authorize (app_resource app) i PermWrite = Allow"
      "dev_get (env_collate env) (pd_application d) (pd_name d) ForUpdate db = Some cur"
      "dev_paths cur (dev\<lparr>dev_deletion_timestamp := dev_deletion_timestamp cur\<rparr>) = []"
      "db' = db" "evs = []"
  | (gone) app cur db1 where
      "app_get (env_collate env) (pd_application d) LockNone db = Some app"
      "authorize (app_resource app) i PermWrite = Allow"
      "dev_get (env_collate env) (pd_application d) (pd_name d) ForUpdate db = Some cur"
      "dev_deletion_timestamp cur \<noteq> None" "pd_finalizers d = []"
      "dev_delete (pd_application d) (pd_name d) db = Inr db1"
      "check_clean_app env fr (pd_application d) db1 = Inr db'" "evs = []"
  | (written) app cur r new m where
      "app_get (env_collate env) (pd_application d) LockNone db = Some app"
      "authorize (app_resource app) i PermWrite = Allow"
      "dev_get (env_collate env) (pd_application d) (pd_name d) ForUpdate db = Some cur"
      "dev_paths cur (dev\<lparr>dev_deletion_timestamp := dev_deletion_timestamp cur\<rparr>) \<noteq> []"
      "dev_advance_from (dev_paths cur (dev\<lparr>dev_deletion_timestamp := dev_deletion_timestamp cur\<rparr>))
         (dev\<lparr>dev_deletion_timestamp := dev_deletion_timestamp cur\<rparr>) cur = Inr (r, new)"
      "dev_update fr new (Some as) db = Inr (m, db')"
      "evs = new_device (env_instance env) (pd_application d) (pd_name d)
         (env_uuid_str env (dev_uid cur)) r
         (dev_paths cur (dev\<lparr>dev_deletion_timestamp := dev_deletion_timestamp cur\<rparr>))"
      "dev_deletion_timestamp cur = None \<or> pd_finalizers d \<noteq> []"
proof -
  have e: "device_to_entity env d = (dev, as)" "dev_application dev = pd_application d"
    "dev_name dev = pd_name d" "dev_finalizers dev = pd_finalizers d"
    using assms(2,3) by simp_all
  from assms(1) obtain app cur where cur: "app_get (env_collate env) (pd_application d) LockNone db = Some app"
      "authorize (app_resource app) i PermWrite = Allow"
      "dev_get (env_collate env) (pd_application d) (pd_name d) ForUpdate db = Some cur"
    by (auto simp: update_device_tx_def e Let_def result_simps)
  let ?d = "dev\<lparr>dev_deletion_timestamp := dev_deletion_timestamp cur\<rparr>"
  consider (d) "dev_deletion_timestamp cur \<noteq> None" "pd_finalizers d = []"
    | (s) "dev_deletion_timestamp cur = None \<or> pd_finalizers d \<noteq> []" "dev_paths cur ?d = []"
    | (w) "dev_deletion_timestamp cur = None \<or> pd_finalizers d \<noteq> []" "dev_paths cur ?d \<noteq> []"
    by fast
  then show ?thesis
  proof cases
    case d
    with assms(1) cur show ?thesis
      by (auto simp: update_device_tx_def e Let_def result_simps intro: gone[OF cur d])
  next
    case s
    with assms(1) cur show ?thesis
      by (intro same[OF cur s(2)]) (auto simp: update_device_tx_def e Let_def result_simps)
  next
    case w
    with assms(1) cur obtain r new m where "dev_advance_from (dev_paths cur ?d) ?d cur = Inr (r, new)"
        "dev_update fr new (Some as) db = Inr (m, db')"
        "evs = new_device (env_instance env) (pd_application d) (pd_name d)
           (env_uuid_str env (dev_uid cur)) r (dev_paths cur ?d)"
      by (auto simp: update_device_tx_def e Let_def result_simps)
    then show ?thesis by (rule written[OF cur w(2) _ _ _ w(1)])
  qed
qed

lemma update_device_tx_inv:
  assumes "reg_inv db" and "api_dev_wf d" and "update_device_tx env fr i d db = Inr (evs, db')"
  shows "reg_inv db'"
  using assms(3) refl refl
proof (cases rule: update_device_tx_cases)
  case same
  then show ?thesis using assms(1) by simp
next
  case (gone app cur db1)
  then show ?thesis using reg_inv_dev_delete[OF assms(1)] check_clean_app_inv by blast
next
  case (written app cur r new m)
  have "dev_wf new"
    using dev_advance_wf[OF written(5)] device_to_entity_wf[OF assms(2), of env] by simp
  then show ?thesis using reg_inv_dev_update[OF assms(1)] written(6) by blast
qed

lemma delete_device_tx_cases:
  assumes "delete_device_tx env fr i app n pre db = Inr (evs, db')"
  obtains (hard) c a where
      "dev_get (env_collate env) app n ForUpdate db = Some c" "dev_deletion_timestamp c = None"
      "app_get (env_collate env) app LockNone db = Some a"
      "authorize (app_resource a) i PermWrite = Allow" "dev_finalizers c = []"
      "dev_delete app n db = Inr db'"
      "evs = new_device (env_instance env) app n (env_uuid_str env (dev_uid c)) (dev_revision c + 1) []"
  | (soft) c a m where
      "dev_get (env_collate env) app n ForUpdate db = Some c" "dev_deletion_timestamp c = None"
      "app_get (env_collate env) app LockNone db = Some a"
      "authorize (app_resource a) i PermWrite = Allow" "dev_finalizers c \<noteq> []"
      "dev_update fr (c\<lparr>dev_revision := dev_revision c + 1,
          dev_deletion_timestamp := Some (fr_now fr)\<rparr>) None db = Inr (m, db')"
      "evs = new_device (env_instance env) app n (env_uuid_str env (dev_uid c)) (dev_revision c + 1)
         [''.metadata'']"
  using assms hard soft
  by (auto simp: delete_device_tx_def Let_def result_simps dev_ver.advance_revision_Inr split: if_splits)

lemma delete_device_tx_inv:
  assumes "reg_inv db" and "delete_device_tx env fr i app n pre db = Inr (evs, db')"
  shows "reg_inv db'"
  using assms(2)
proof (cases rule: delete_device_tx_cases)
  case (hard c a)
  then show ?thesis using reg_inv_dev_delete[OF assms(1)] by blast
next
  case (soft c a m)
  have "dev_wf (c\<lparr>dev_revision := dev_revision c + 1, dev_deletion_timestamp := Some (fr_now fr)\<rparr>)"
    using dev_get_wf[OF assms(1) soft(1)] by simp
  then show ?thesis using reg_inv_dev_update[OF assms(1)] soft(6) by blast
qed

end
