(* ===== verification/Admin.thy ===== *)
theory Admin
  imports Management
begin

text \<open>
  Ownership and members of applications: \<open>AdminService for PostgresManagementService\<close>
  (\<open>device-management-service/src/service/admin/mod.rs\<close>).  The two functions of the identity
  provider (\<open>id_from_username\<close>, \<open>username_from_id\<close>) are parameters, with \<open>None\<close> for their
  errors.  These operations record no events.
\<close>

section \<open>Operations\<close>

record keycloak =
  id_from_username :: "string \<Rightarrow> string option"
  username_from_id :: "string \<Rightarrow> string option"

record members =
  mb_resource_version :: "string option"
  mb_members :: "role smap"

definition admin_tx ::
  "(registry \<Rightarrow> service_error + registry) \<Rightarrow> mgmt \<Rightarrow> (mgmt_error + unit) \<times> mgmt" where
  "admin_tx body s = (case body (m_reg s) of
     Inl e \<Rightarrow> (Inl (Service e), s)
   | Inr reg \<Rightarrow> (Inr (), s\<lparr>m_reg := reg\<rparr>))"

definition transfer_tx ::
  "env \<Rightarrow> keycloak \<Rightarrow> user_information \<Rightarrow> string \<Rightarrow> string \<Rightarrow> registry \<Rightarrow> service_error + registry" where
  "transfer_tx env kc identity app_id new_user db =
     (if new_user = [] then Inl (BadRequest ''Invalid user id'')
      else rbind (ok_or NotFound (app_get (env_collate env) app_id ForUpdate db)) (\<lambda>app.
           rbind (ensure_with (app_resource app) identity PermOwner NotFound) (\<lambda>_.
           rbind (ok_or (BadRequest (''Username '' @ new_user @ '' does not exist''))
                    (id_from_username kc new_user)) (\<lambda>new_user_id.
             Inr (snd (app_update_transfer (app_name app) (user_id identity) (Some new_user_id) db))))))"

definition transfer ::
  "env \<Rightarrow> keycloak \<Rightarrow> user_information \<Rightarrow> string \<Rightarrow> string \<Rightarrow> mgmt \<Rightarrow> (mgmt_error + unit) \<times> mgmt" where
  "transfer env kc identity app_id new_user = admin_tx (transfer_tx env kc identity app_id new_user)"

definition read_transfer_state ::
  "env \<Rightarrow> keycloak \<Rightarrow> user_information \<Rightarrow> string \<Rightarrow> mgmt \<Rightarrow> mgmt_error + string option" where
  "read_transfer_state env kc identity app_id s =
     map_err Service
       (rbind (ok_or NotFound (app_get (env_collate env) app_id ForUpdate (m_reg s))) (\<lambda>app.
          if app_transfer_owner app = user_id identity \<or> app_owner app = user_id identity
          then (case app_transfer_owner app of
                  Some new_user \<Rightarrow>
                    rbind (ok_or (Internal ''Transfer owner is no longer a keycloak user'')
                             (username_from_id kc new_user)) (\<lambda>u. Inr (Some u))
                | None \<Rightarrow> Inr None)
          else Inl NotFound))"

definition cancel_tx ::
  "env \<Rightarrow> user_information \<Rightarrow> string \<Rightarrow> registry \<Rightarrow> service_error + registry" where
  "cancel_tx env identity app_id db =
     rbind (ok_or NotFound (app_get (env_collate env) app_id ForUpdate db)) (\<lambda>app.
       if app_transfer_owner app = user_id identity \<or> app_owner app = user_id identity
       then Inr (snd (app_update_transfer (app_name app) (app_owner app) None db))
       else Inl NotFound)"

definition cancel ::
  "env \<Rightarrow> user_information \<Rightarrow> string \<Rightarrow> mgmt \<Rightarrow> (mgmt_error + unit) \<times> mgmt" where
  "cancel env identity app_id = admin_tx (cancel_tx env identity app_id)"

definition accept_tx ::
  "env \<Rightarrow> user_information \<Rightarrow> string \<Rightarrow> registry \<Rightarrow> service_error + registry" where
  "accept_tx env identity app_id db =
     rbind (ok_or NotFound (app_get (env_collate env) app_id ForUpdate db)) (\<lambda>app.
       if app_transfer_owner app = user_id identity
       then Inr (snd (app_update_transfer (app_name app) (user_id identity) None db))
       else Inl NotFound)"

definition accept ::
  "env \<Rightarrow> user_information \<Rightarrow> string \<Rightarrow> mgmt \<Rightarrow> (mgmt_error + unit) \<times> mgmt" where
  "accept env identity app_id = admin_tx (accept_tx env identity app_id)"

text \<open>\<open>IndexMap::insert\<close>: a later entry with the same key replaces the value.\<close>

fun member_names :: "keycloak \<Rightarrow> role smap \<Rightarrow> role smap \<Rightarrow> role smap" where
  "member_names kc [] ms = ms"
| "member_names kc ((k, v) # rest) ms =
     member_names kc rest
       (if k = [] then AList.update k v ms
        else case username_from_id kc k of
          Some u \<Rightarrow> AList.update u v ms
        | None \<Rightarrow> ms)"

definition get_members ::
  "env \<Rightarrow> keycloak \<Rightarrow> user_information \<Rightarrow> string \<Rightarrow> mgmt \<Rightarrow> mgmt_error + members" where
  "get_members env kc identity app_id s =
     map_err Service
       (rbind (ok_or NotFound (app_get (env_collate env) app_id LockNone (m_reg s))) (\<lambda>app.
        rbind (ensure_with (app_resource app) identity PermAdmin NotFound) (\<lambda>_.
          Inr \<lparr>mb_resource_version = Some (env_uuid_str env (app_resource_version app)),
               mb_members = member_names kc (app_members app) []\<rparr>)))"

fun member_ids :: "keycloak \<Rightarrow> role smap \<Rightarrow> role smap \<Rightarrow> service_error + role smap" where
  "member_ids kc [] ms = Inr ms"
| "member_ids kc ((k, v) # rest) ms =
     (if k \<noteq> [] then
        (case id_from_username kc k of
           Some u \<Rightarrow> member_ids kc rest (AList.update u v ms)
         | None \<Rightarrow> Inl (BadRequest (''Username '' @ k @ '' does not exist'')))
      else member_ids kc rest (AList.update k v ms))"

definition set_members_tx ::
  "env \<Rightarrow> keycloak \<Rightarrow> user_information \<Rightarrow> string \<Rightarrow> members \<Rightarrow> registry \<Rightarrow> service_error + registry" where
  "set_members_tx env kc identity app_id ms db =
     rbind (ok_or NotFound (app_get (env_collate env) app_id ForUpdate db)) (\<lambda>app.
     rbind (case mb_resource_version ms of
              Some expected_version \<Rightarrow>
                if expected_version \<noteq> env_uuid_str env (app_resource_version app)
                then Inl OptimisticLockFailed else Inr ()
            | None \<Rightarrow> Inr ()) (\<lambda>_.
     rbind (ensure_with (app_resource app) identity PermAdmin NotFound) (\<lambda>_.
     rbind (member_ids kc (mb_members ms) []) (\<lambda>id_members.
       Inr (snd (app_set_members app_id id_members db))))))"

definition set_members ::
  "env \<Rightarrow> keycloak \<Rightarrow> user_information \<Rightarrow> string \<Rightarrow> members \<Rightarrow> mgmt \<Rightarrow> (mgmt_error + unit) \<times> mgmt" where
  "set_members env kc identity app_id ms = admin_tx (set_members_tx env kc identity app_id ms)"

section \<open>Lemmas\<close>

lemma admin_tx_reg:
  "admin_tx body s = (r, s') \<Longrightarrow> s' = s \<or> (\<exists>reg. body (m_reg s) = Inr reg \<and> s' = s\<lparr>m_reg := reg\<rparr>)"
  by (auto simp: admin_tx_def split: sum.splits)

lemma admin_tx_Inr: "admin_tx body s = (Inr u, s') \<longleftrightarrow> (\<exists>reg. body (m_reg s) = Inr reg \<and> s' = s\<lparr>m_reg := reg\<rparr>)"
  by (auto simp: admin_tx_def split: sum.splits)

text \<open>
  Every admin operation that succeeds is one update of the application's owner columns or
  of its member list.
\<close>

lemma admin_tx_cases:
  assumes "tx db = Inr db'"
    and "tx = transfer_tx env kc i n u \<or> tx = cancel_tx env i n \<or> tx = accept_tx env i n
       \<or> tx = set_members_tx env kc i n ms"
  shows "(\<exists>a owner next_owner. app_get (env_collate env) n ForUpdate db = Some a
            \<and> db' = snd (app_update_transfer (app_name a) owner next_owner db))
       \<or> (\<exists>l. db' = snd (app_set_members n l db))"
  using assms
  by (auto simp: transfer_tx_def cancel_tx_def accept_tx_def set_members_tx_def result_simps
      split: if_splits) blast+

lemma admin_tx_inv:
  assumes "reg_inv db"
  shows "transfer_tx env kc i n u db = Inr db' \<Longrightarrow> reg_inv db'"
    and "cancel_tx env i n db = Inr db' \<Longrightarrow> reg_inv db'"
    and "accept_tx env i n db = Inr db' \<Longrightarrow> reg_inv db'"
    and "set_members_tx env kc i n ms db = Inr db' \<Longrightarrow> reg_inv db'"
  using admin_tx_cases reg_inv_app_owner[OF assms] by (metis prod.collapse)+

lemma app_get_owner_update:
  assumes "reg_inv db" and "app_get c n l db = Some a"
  shows "app_get c n l (snd (app_update_transfer n owner next_owner db)) =
     Some (a\<lparr>app_owner := owner, app_transfer_owner := next_owner\<rparr>)"
proof -
  have inv: "reg_inv (snd (app_update_transfer n owner next_owner db))"
    using reg_inv_app_owner(1)[OF assms(1)] by (metis prod.collapse)
  from assms obtain r where r: "lookup_row ar_NAME n (r_applications db) = Some r" "a = app_from_row r"
    by (auto simp: app_get_eq reg_inv_defs)
  with inv show ?thesis
    by (simp add: app_get_eq reg_inv_defs app_update_transfer_def lookup_update_where
        lookup_row_SomeD[OF r(1)] app_from_row_def)
qed

lemma app_get_members_update:
  assumes "reg_inv db" and "app_get c n l db = Some a"
  shows "app_get c n l (snd (app_set_members n ms db)) = Some (a\<lparr>app_members := ms\<rparr>)"
proof -
  have inv: "reg_inv (snd (app_set_members n ms db))"
    using reg_inv_app_owner(2)[OF assms(1)] by (metis prod.collapse)
  from assms obtain r where r: "lookup_row ar_NAME n (r_applications db) = Some r" "a = app_from_row r"
    by (auto simp: app_get_eq reg_inv_defs)
  with inv show ?thesis
    by (simp add: app_get_eq reg_inv_defs app_set_members_def lookup_update_where
        lookup_row_SomeD[OF r(1)] app_from_row_def row_to_map_def)
qed

lemma app_get_name: "reg_inv db \<Longrightarrow> app_get c n l db = Some a \<Longrightarrow> app_name a = n"
  by (auto simp: app_get_eq reg_inv_defs app_from_row_def dest: lookup_row_SomeD)

section \<open>Properties\<close>

text \<open>
  Transfer of ownership, end to end: if an owner who is authenticated starts the
  transfer to a known user and that user accepts it, the application belongs to the new
  user and no transfer is pending; nothing else of the application changes.
\<close>

theorem transfer_accept:
  assumes "reg_inv (m_reg s)" and "app_get (env_collate env) app_id ForUpdate (m_reg s) = Some a"
    and "app_owner a = user_id owner" and "new_user \<noteq> []" and "id_from_username kc new_user = Some uid"
    and "user_id receiver = Some uid"
  shows "\<exists>s1 s2. transfer env kc owner app_id new_user s = (Inr (), s1)
     \<and> accept env receiver app_id s1 = (Inr (), s2)
     \<and> app_get (env_collate env) app_id ForUpdate (m_reg s2) =
         Some (a\<lparr>app_owner := Some uid, app_transfer_owner := None\<rparr>)"
proof -
  let ?db1 = "snd (app_update_transfer app_id (user_id owner) (Some uid) (m_reg s))"
  have name: "app_name a = app_id" using app_get_name[OF assms(1,2)] .
  have auth: "authorize (app_resource a) owner PermOwner = Allow"
    using assms(3) by (auto simp: authorize_def app_resource_def split: option.splits)
  have t: "transfer env kc owner app_id new_user s = (Inr (), s\<lparr>m_reg := ?db1\<rparr>)"
    using assms(2,4,5) auth name
    by (simp add: transfer_def transfer_tx_def admin_tx_def ensure_with_def)
  have inv1: "reg_inv ?db1" using reg_inv_app_owner(1)[OF assms(1)] by (metis prod.collapse)
  note get1 = app_get_owner_update[OF assms(1,2), of "user_id owner" "Some uid"]
  let ?db2 = "snd (app_update_transfer app_id (Some uid) None ?db1)"
  have "accept env receiver app_id (s\<lparr>m_reg := ?db1\<rparr>) = (Inr (), s\<lparr>m_reg := ?db2\<rparr>)"
    using get1 assms(6) name by (simp add: accept_def accept_tx_def admin_tx_def)
  moreover have "app_get (env_collate env) app_id ForUpdate ?db2 =
      Some (a\<lparr>app_owner := Some uid, app_transfer_owner := None\<rparr>)"
    using app_get_owner_update[OF inv1 get1, of "Some uid" None] by simp
  ultimately show ?thesis using t
    by (intro exI[of _ "s\<lparr>m_reg := ?db1\<rparr>"] exI[of _ "s\<lparr>m_reg := ?db2\<rparr>"]) simp
qed

definition demo_env :: env where
  "demo_env = \<lparr>env_instance = ''drogue'', env_collate = length,
     env_parse_uuid = (\<lambda>s. Option.bind (str_nat s) (\<lambda>n. Some (of_nat n))),
     env_uuid_str = (\<lambda>u. nat_str (unat u)),
     env_trust_anchors = (\<lambda>_. None), env_anchors_value = (\<lambda>_. Inr Null),
     env_parse_pems = (\<lambda>_. Inr []), env_parse_x509 = (\<lambda>_. Inl []),
     env_aliases = (\<lambda>_. None), env_authentication = (\<lambda>_. None), env_accepts = (\<lambda>_. True)\<rparr>"

definition demo_app :: "string option \<Rightarrow> app_row" where
  "demo_app owner = \<lparr>ar_NAME = ''a'', ar_UID = 7, ar_LABELS = Some [], ar_ANNOTATIONS = Some [],
     ar_CREATION_TIMESTAMP = 0, ar_GENERATION = 1, ar_REVISION = 2, ar_RESOURCE_VERSION = 9,
     ar_DELETION_TIMESTAMP = None, ar_FINALIZERS = [], ar_OWNER = owner, ar_TRANSFER_OWNER = None,
     ar_MEMBERS = Some [], ar_DATA = Object []\<rparr>"

definition demo_state :: "string option \<Rightarrow> mgmt" where
  "demo_state owner = \<lparr>m_reg = \<lparr>r_applications = [demo_app owner], r_app_aliases = [], r_devices = [],
     r_dev_aliases = []\<rparr>, m_outbox = [], m_sent = []\<rparr>"

definition demo_user :: "string \<Rightarrow> user_information" where
  "demo_user u = Authenticated \<lparr>ud_user_id = u, ud_roles = []\<rparr>"

definition demo_keycloak :: keycloak where
  "demo_keycloak = \<lparr>id_from_username = Some, username_from_id = Some\<rparr>"

lemma demo_reg_inv: "reg_inv (m_reg (demo_state owner))"
  by (simp add: demo_state_def reg_inv_defs demo_app_def app_wf_from_row)

lemma demo_get:
  "app_get c ''a'' l (m_reg (demo_state owner)) = Some (app_from_row (demo_app owner))"
  using demo_reg_inv[of owner]
  by (simp add: app_get_eq reg_inv_defs demo_state_def lookup_row_def demo_app_def)

theorem transfer_accept_witness:
  "\<exists>s1 s2. transfer demo_env demo_keycloak (demo_user ''x'') ''a'' ''y'' (demo_state (Some ''x'')) = (Inr (), s1)
     \<and> accept demo_env (demo_user ''y'') ''a'' s1 = (Inr (), s2)
     \<and> app_get (env_collate demo_env) ''a'' ForUpdate (m_reg s2) =
         Some (app_from_row (demo_app (Some ''x''))\<lparr>app_owner := Some ''y'', app_transfer_owner := None\<rparr>)"
  by (rule transfer_accept[OF demo_reg_inv demo_get])
    (simp_all add: demo_user_def demo_keycloak_def app_from_row_def demo_app_def)

text \<open>
  The receiver check of \<open>accept\<close> compares two optional names, so an anonymous caller
  passes it on every application without a pending transfer.  The application then has no
  owner, and \<open>authorize\<close> grants every permission on it to everybody.
\<close>

theorem anonymous_accept_opens_app:
  assumes "reg_inv (m_reg s)" and "app_get (env_collate env) app_id ForUpdate (m_reg s) = Some a"
    and "app_transfer_owner a = None"
  shows "\<exists>s' a'. accept env Anonymous app_id s = (Inr (), s')
     \<and> app_get (env_collate env) app_id ForUpdate (m_reg s') = Some a'
     \<and> (\<forall>i p. authorize (app_resource a') i p = Allow)"
  using app_get_owner_update[OF assms(1,2), of None None] app_get_name[OF assms(1,2)] assms(2,3)
  by (simp add: accept_def accept_tx_def admin_tx_def authorize_def app_resource_def)

theorem anonymous_accept_opens_app_witness:
  "authorize (app_resource (app_from_row (demo_app (Some ''x'')))) (demo_user ''z'') PermRead = Deny
   \<and> (\<exists>s' a'. accept demo_env Anonymous ''a'' (demo_state (Some ''x'')) = (Inr (), s')
     \<and> app_get (env_collate demo_env) ''a'' ForUpdate (m_reg s') = Some a'
     \<and> (\<forall>i p. authorize (app_resource a') i p = Allow))"
  using anonymous_accept_opens_app[OF demo_reg_inv[of "Some ''x''"] demo_get]
  by (simp add: app_from_row_def demo_app_def authorize_def app_resource_def demo_user_def row_to_map_def)

text \<open>
  A transfer makes the caller the owner at once: an administrator who starts the
  transfer of somebody else's application takes it from its owner before the receiver has
  accepted anything.
\<close>

theorem transfer_by_admin_takes_over:
  assumes "reg_inv (m_reg s)" and "app_get (env_collate env) app_id ForUpdate (m_reg s) = Some a"
    and "is_admin i" and "new_user \<noteq> []" and "id_from_username kc new_user = Some uid"
  shows "\<exists>s'. transfer env kc i app_id new_user s = (Inr (), s')
     \<and> app_get (env_collate env) app_id ForUpdate (m_reg s') =
         Some (a\<lparr>app_owner := user_id i, app_transfer_owner := Some uid\<rparr>)"
  using app_get_owner_update[OF assms(1,2), of "user_id i" "Some uid"] app_get_name[OF assms(1,2)]
    assms(2-5)
  by (simp add: transfer_def transfer_tx_def admin_tx_def ensure_with_def authorize_def)

theorem transfer_by_admin_takes_over_witness:
  "\<exists>s'. transfer demo_env demo_keycloak (Authenticated \<lparr>ud_user_id = ''root'', ud_roles = [''drogue-admin'']\<rparr>)
       ''a'' ''y'' (demo_state (Some ''x'')) = (Inr (), s')
     \<and> app_get (env_collate demo_env) ''a'' ForUpdate (m_reg s') =
         Some (app_from_row (demo_app (Some ''x''))\<lparr>app_owner := Some ''root'', app_transfer_owner := Some ''y''\<rparr>)"
  using transfer_by_admin_takes_over[OF demo_reg_inv demo_get,
      of "Authenticated \<lparr>ud_user_id = ''root'', ud_roles = [''drogue-admin'']\<rparr>" "''y''" demo_keycloak "''y''"
         demo_env "Some ''x''"]
  by (simp add: demo_keycloak_def)

lemma update_fresh: "k \<notin> fst ` set m \<Longrightarrow> AList.update k v m = m @ [(k, v)]"
  by (induction m) auto

definition member_id :: "keycloak \<Rightarrow> string \<Rightarrow> string" where
  "member_id kc k = (if k = [] then [] else the (id_from_username kc k))"

lemma member_ids_eq:
  assumes "\<forall>k \<in> set (keys_of ms). k \<noteq> [] \<longrightarrow> id_from_username kc k \<noteq> None"
    and "distinct (keys_of acc @ map (member_id kc \<circ> fst) ms)"
  shows "member_ids kc ms acc = Inr (acc @ map (\<lambda>p. (member_id kc (fst p), snd p)) ms)"
  using assms
proof (induction kc ms acc rule: member_ids.induct)
  case (2 kc k v rest ms)
  have new: "AList.update (member_id kc k) v ms = ms @ [(member_id kc k, v)]"
    using 2(4) by (intro update_fresh) auto
  show ?case
  proof (cases "k = []")
    case True
    with 2(2)[OF _ _] 2(3,4) new show ?thesis by (simp add: member_id_def)
  next
    case False
    with 2(3) obtain u where "id_from_username kc k = Some u" by auto
    with False 2(1)[OF _ this] 2(3,4) new show ?thesis by (simp add: member_id_def)
  qed
qed simp

lemma member_names_eq:
  assumes "\<forall>p \<in> set ms. fst p \<noteq> [] \<longrightarrow>
      username_from_id kc (member_id kc (fst p)) = Some (fst p) \<and> member_id kc (fst p) \<noteq> []"
    and "distinct (keys_of acc @ keys_of ms)"
  shows "member_names kc (map (\<lambda>p. (member_id kc (fst p), snd p)) ms) acc = acc @ ms"
  using assms
proof (induction ms arbitrary: acc)
  case (Cons p ms)
  have "AList.update (fst p) (snd p) acc = acc @ [p]"
    using Cons.prems(2) update_fresh[of "fst p" acc "snd p"] by auto
  then show ?case
    using Cons.prems Cons.IH[of "acc @ [p]"] by (cases "fst p = []") (auto simp: member_id_def)
qed simp

text \<open>
  Members survive the translation between user names and user identifiers: what
  \<open>set_members\<close> stores is what \<open>get_members\<close> returns, in the same order, for every list of
  distinct members whose names and identifiers the identity provider maps to each other.
\<close>

theorem members_roundtrip:
  assumes "reg_inv (m_reg s)" and "app_get (env_collate env) app_id ForUpdate (m_reg s) = Some a"
    and "authorize (app_resource a) i PermOwner = Allow"
    and "wf_map ms" and "inj_on (member_id kc) (set (keys_of ms))"
    and "\<forall>k \<in> set (keys_of ms). k \<noteq> [] \<longrightarrow> id_from_username kc k = Some (member_id kc k)
           \<and> username_from_id kc (member_id kc k) = Some k \<and> member_id kc k \<noteq> []"
  shows "\<exists>s'. set_members env kc i app_id \<lparr>mb_resource_version = None, mb_members = ms\<rparr> s = (Inr (), s')
     \<and> get_members env kc i app_id s' = Inr \<lparr>mb_resource_version =
          Some (env_uuid_str env (app_resource_version a)), mb_members = ms\<rparr>"
proof -
  let ?ids = "map (\<lambda>p. (member_id kc (fst p), snd p)) ms"
  have "distinct (map (member_id kc \<circ> fst) ms)"
    using assms(4,5) by (simp add: distinct_map comp_inj_on)
  then have ids: "member_ids kc ms [] = Inr ?ids"
    using member_ids_eq[of ms kc "[]"] assms(6) by auto
  have names: "member_names kc ?ids [] = ms"
    using member_names_eq[of ms kc "[]"] assms(4,6) by auto
  have auth: "authorize (app_resource a) i PermAdmin = Allow"
    "authorize (app_resource (a\<lparr>app_members := ?ids\<rparr>)) i PermAdmin = Allow"
    using assms(3) by (auto simp: authorize_def app_resource_def split: option.splits if_splits)
  have get: "app_get (env_collate env) app_id LockNone (m_reg s) = Some a"
    using assms(1,2) by (simp add: app_get_eq reg_inv_defs)
  let ?db = "snd (app_set_members app_id ?ids (m_reg s))"
  have "set_members env kc i app_id \<lparr>mb_resource_version = None, mb_members = ms\<rparr> s =
      (Inr (), s\<lparr>m_reg := ?db\<rparr>)"
    using assms(2) auth ids by (simp add: set_members_def set_members_tx_def admin_tx_def ensure_with_def)
  then show ?thesis
    using app_get_members_update[OF assms(1) get, of ?ids] names auth
    by (simp add: get_members_def ensure_with_def)
qed

theorem members_roundtrip_witness:
  "\<exists>s'. set_members demo_env demo_keycloak (demo_user ''x'') ''a''
       \<lparr>mb_resource_version = None, mb_members = [(''u'', RoleReader), (''v'', RoleAdmin)]\<rparr>
       (demo_state (Some ''x'')) = (Inr (), s')
     \<and> get_members demo_env demo_keycloak (demo_user ''x'') ''a'' s' =
         Inr \<lparr>mb_resource_version = Some ''9'', mb_members = [(''u'', RoleReader), (''v'', RoleAdmin)]\<rparr>"
  using members_roundtrip[of "demo_state (Some ''x'')" demo_env "''a''",
      OF demo_reg_inv demo_get, of "demo_user ''x''" "[(''u'', RoleReader), (''v'', RoleAdmin)]" demo_keycloak]
  by (simp add: demo_keycloak_def member_id_def demo_user_def authorize_def app_resource_def
      app_from_row_def demo_app_def demo_env_def digit_char_def)

text \<open>
  The optimistic lock of \<open>set_members\<close> does not notice another change of the members:
  the resource version stays the same, so two updates made from the same version both
  succeed and the second overwrites the first.
\<close>

theorem set_members_lost_update:
  assumes "reg_inv (m_reg s)" and "app_get (env_collate env) app_id ForUpdate (m_reg s) = Some a"
    and "is_admin i" and "v = Some (env_uuid_str env (app_resource_version a))"
    and "member_ids kc ms1 [] = Inr ids1" and "member_ids kc ms2 [] = Inr ids2"
  shows "\<exists>s1 s2. set_members env kc i app_id \<lparr>mb_resource_version = v, mb_members = ms1\<rparr> s = (Inr (), s1)
     \<and> set_members env kc i app_id \<lparr>mb_resource_version = v, mb_members = ms2\<rparr> s1 = (Inr (), s2)
     \<and> app_get (env_collate env) app_id ForUpdate (m_reg s2) = Some (a\<lparr>app_members := ids2\<rparr>)"
proof -
  let ?db1 = "snd (app_set_members app_id ids1 (m_reg s))"
  let ?db2 = "snd (app_set_members app_id ids2 ?db1)"
  note get1 = app_get_members_update[OF assms(1,2), of ids1]
  have inv1: "reg_inv ?db1" using reg_inv_app_owner(2)[OF assms(1)] by (metis prod.collapse)
  have auth: "authorize r i PermAdmin = Allow" for r using assms(3) by (simp add: authorize_def)
  have "set_members env kc i app_id \<lparr>mb_resource_version = v, mb_members = ms1\<rparr> s = (Inr (), s\<lparr>m_reg := ?db1\<rparr>)"
    using assms(2,4,5) auth
    by (simp add: set_members_def set_members_tx_def admin_tx_def ensure_with_def)
  moreover have "set_members env kc i app_id \<lparr>mb_resource_version = v, mb_members = ms2\<rparr>
      (s\<lparr>m_reg := ?db1\<rparr>) = (Inr (), s\<lparr>m_reg := ?db2\<rparr>)"
    using get1 assms(4,6) auth
    by (simp add: set_members_def set_members_tx_def admin_tx_def ensure_with_def)
  moreover have "app_get (env_collate env) app_id ForUpdate ?db2 = Some (a\<lparr>app_members := ids2\<rparr>)"
    using app_get_members_update[OF inv1 get1, of ids2] by simp
  ultimately show ?thesis
    by (intro exI[of _ "s\<lparr>m_reg := ?db1\<rparr>"] exI[of _ "s\<lparr>m_reg := ?db2\<rparr>"]) simp
qed

theorem set_members_lost_update_witness:
  "\<exists>s1 s2. set_members demo_env demo_keycloak (Authenticated \<lparr>ud_user_id = ''r'', ud_roles = [''drogue-admin'']\<rparr>)
       ''a'' \<lparr>mb_resource_version = Some ''9'', mb_members = [(''u'', RoleReader)]\<rparr> (demo_state None) = (Inr (), s1)
     \<and> set_members demo_env demo_keycloak (Authenticated \<lparr>ud_user_id = ''r'', ud_roles = [''drogue-admin'']\<rparr>)
       ''a'' \<lparr>mb_resource_version = Some ''9'', mb_members = [(''v'', RoleAdmin)]\<rparr> s1 = (Inr (), s2)
     \<and> app_get (env_collate demo_env) ''a'' ForUpdate (m_reg s2) =
         Some (app_from_row (demo_app None)\<lparr>app_members := [(''v'', RoleAdmin)]\<rparr>)"
  by (rule set_members_lost_update[of "demo_state None" demo_env "''a''", OF demo_reg_inv demo_get,
        of _ _ demo_keycloak _ "[(''u'', RoleReader)]"])
    (simp_all add: demo_keycloak_def demo_env_def app_from_row_def demo_app_def digit_char_def)

end
