(* ===== verification/Registry_Service.thy ===== *)
theory Registry_Service
  imports Admin
begin

text \<open>
  The registry service as a whole: requests, the transaction each of them runs, the states
  that can be reached, and the properties of the service: consistent tables, no lost
  events, no change without permission, versions that move forward, deletion with
  finalizers.
\<close>

section \<open>Requests\<close>

datatype request =
    CreateApp api_application
  | UpdateApp api_application
  | DeleteApp string "preconditions option"
  | CreateDevice api_device
  | UpdateDevice api_device
  | DeleteDevice string string "preconditions option"
  | Transfer string string
  | Cancel string
  | Accept string
  | SetMembers string members

fun handle ::
  "env \<Rightarrow> keycloak \<Rightarrow> fresh \<Rightarrow> user_information \<Rightarrow> request \<Rightarrow> mgmt \<Rightarrow> (mgmt_error + unit) \<times> mgmt" where
  "handle env kc fr i (CreateApp a) s = create_app env fr i a s"
| "handle env kc fr i (UpdateApp a) s = update_app env fr i a s"
| "handle env kc fr i (DeleteApp n pre) s = delete_app env fr i n pre s"
| "handle env kc fr i (CreateDevice d) s = create_device env fr i d s"
| "handle env kc fr i (UpdateDevice d) s = update_device env fr i d s"
| "handle env kc fr i (DeleteDevice app d pre) s = delete_device env fr i app d pre s"
| "handle env kc fr i (Transfer app u) s = transfer env kc i app u s"
| "handle env kc fr i (Cancel app) s = cancel env i app s"
| "handle env kc fr i (Accept app) s = accept env i app s"
| "handle env kc fr i (SetMembers app ms) s = set_members env kc i app ms s"

definition no_events :: "service_error + registry \<Rightarrow> service_error + (event list \<times> registry)" where
  "no_events r = rbind r (\<lambda>db. Inr ([], db))"

text \<open>The transaction of a request: the events it causes and the new tables, or an error.\<close>

fun request_tx ::
  "env \<Rightarrow> keycloak \<Rightarrow> fresh \<Rightarrow> user_information \<Rightarrow> request \<Rightarrow> registry
    \<Rightarrow> service_error + (event list \<times> registry)" where
  "request_tx env kc fr i (CreateApp a) db = create_app_tx env fr i a db"
| "request_tx env kc fr i (UpdateApp a) db = rbind (app_to_entity env a) (\<lambda>(app, aliases).
     perform_update_app env fr (Some i) app (Some aliases) (pa_uid a) (pa_resource_version a) db)"
| "request_tx env kc fr i (DeleteApp n pre) db = delete_app_tx env fr i n pre db"
| "request_tx env kc fr i (CreateDevice d) db = create_device_tx env fr i d db"
| "request_tx env kc fr i (UpdateDevice d) db = update_device_tx env fr i d db"
| "request_tx env kc fr i (DeleteDevice app d pre) db = delete_device_tx env fr i app d pre db"
| "request_tx env kc fr i (Transfer app u) db = no_events (transfer_tx env kc i app u db)"
| "request_tx env kc fr i (Cancel app) db = no_events (cancel_tx env i app db)"
| "request_tx env kc fr i (Accept app) db = no_events (accept_tx env i app db)"
| "request_tx env kc fr i (SetMembers app ms) db = no_events (set_members_tx env kc i app ms db)"

lemma no_events_Inr [result_simps]: "no_events r = Inr (evs, db) \<longleftrightarrow> r = Inr db \<and> evs = []"
  by (auto simp: no_events_def result_simps)

lemma admin_tx_transact:
  "admin_tx body s = transact env fr (\<lambda>db. no_events (body db)) s"
  by (cases "body (m_reg s)") (simp_all add: admin_tx_def transact_def no_events_def send_to_outbox_def)

lemma handle_transact: "handle env kc fr i req s = transact env fr (request_tx env kc fr i req) s"
  by (cases req)
    (simp_all add: create_app_def update_app_def delete_app_def create_device_def update_device_def
      delete_device_def transfer_def cancel_def accept_def set_members_def
      admin_tx_transact[of _ _ env fr] transact_def)

fun request_wf :: "env \<Rightarrow> request \<Rightarrow> bool" where
  "request_wf env (CreateApp a) = api_app_wf env a"
| "request_wf env (UpdateApp a) = api_app_wf env a"
| "request_wf env (CreateDevice d) = api_dev_wf d"
| "request_wf env (UpdateDevice d) = api_dev_wf d"
| "request_wf env _ = True"

lemma request_tx_inv:
  assumes "reg_inv db" and "request_wf env req" and "request_tx env kc fr i req db = Inr (evs, db')"
  shows "reg_inv db'"
proof (cases req)
  case (UpdateApp a)
  with assms(3) obtain app as where e: "app_to_entity env a = Inr (app, as)"
    and "perform_update_app env fr (Some i) app (Some as) (pa_uid a) (pa_resource_version a) db = Inr (evs, db')"
    by (auto simp: result_simps)
  with perform_update_app_inv[OF assms(1)] app_to_entity_wf[OF _ e] assms(2) UpdateApp show ?thesis
    by simp
next
  case (CreateApp a)
  with assms create_app_tx_inv show ?thesis by simp
next
  case (CreateDevice d)
  with assms create_device_tx_inv show ?thesis by simp
next
  case (UpdateDevice d)
  with assms update_device_tx_inv show ?thesis by simp
next
  case (DeleteApp n pre)
  with assms delete_app_tx_inv show ?thesis by simp
next
  case (DeleteDevice app d pre)
  with assms delete_device_tx_inv show ?thesis by simp
qed (use assms(3) admin_tx_inv[OF assms(1)] in \<open>auto simp: result_simps\<close>)

section \<open>The life of a row\<close>

text \<open>
  What holds of every stored application and device: something that is marked as deleted
  still has a finalizer, otherwise it would be gone, and the generation, which counts
  changes of the specification, is not ahead of the revision, which counts all changes.
\<close>

definition row_live :: "timestamp option \<Rightarrow> string list \<Rightarrow> u64 \<Rightarrow> u64 \<Rightarrow> bool" where
  "row_live deletion finalizers generation revision \<longleftrightarrow>
     (deletion \<noteq> None \<longrightarrow> finalizers \<noteq> []) \<and> generation \<le> revision"

abbreviation app_row_live :: "app_row \<Rightarrow> bool" where
  "app_row_live r \<equiv> row_live (ar_DELETION_TIMESTAMP r) (ar_FINALIZERS r) (ar_GENERATION r) (ar_REVISION r)"

abbreviation dev_row_live :: "dev_row \<Rightarrow> bool" where
  "dev_row_live r \<equiv> row_live (dr_DELETION_TIMESTAMP r) (dr_FINALIZERS r) (dr_GENERATION r) (dr_REVISION r)"

definition lifecycle_ok :: "registry \<Rightarrow> bool" where
  "lifecycle_ok db \<longleftrightarrow> (\<forall>r \<in> set (r_applications db). app_row_live r)
     \<and> (\<forall>r \<in> set (r_devices db). dev_row_live r)"

text \<open>
  How a row may change: its identity and creation time stay, its versions do not go back,
  and a mark of deletion is never taken away or moved.
\<close>

definition app_evolves :: "app_row \<Rightarrow> app_row \<Rightarrow> bool" where
  "app_evolves r r' \<longleftrightarrow> ar_NAME r' = ar_NAME r \<and> ar_UID r' = ar_UID r
     \<and> ar_CREATION_TIMESTAMP r' = ar_CREATION_TIMESTAMP r
     \<and> ar_GENERATION r \<le> ar_GENERATION r' \<and> ar_REVISION r \<le> ar_REVISION r'
     \<and> (ar_DELETION_TIMESTAMP r \<noteq> None \<longrightarrow> ar_DELETION_TIMESTAMP r' = ar_DELETION_TIMESTAMP r)"

definition dev_evolves :: "dev_row \<Rightarrow> dev_row \<Rightarrow> bool" where
  "dev_evolves r r' \<longleftrightarrow> dr_APP r' = dr_APP r \<and> dr_NAME r' = dr_NAME r \<and> dr_UID r' = dr_UID r
     \<and> dr_CREATION_TIMESTAMP r' = dr_CREATION_TIMESTAMP r
     \<and> dr_GENERATION r \<le> dr_GENERATION r' \<and> dr_REVISION r \<le> dr_REVISION r'
     \<and> (dr_DELETION_TIMESTAMP r \<noteq> None \<longrightarrow> dr_DELETION_TIMESTAMP r' = dr_DELETION_TIMESTAMP r)"

definition rows_evolve :: "registry \<Rightarrow> registry \<Rightarrow> bool" where
  "rows_evolve db db' \<longleftrightarrow> (\<forall>r' \<in> set (r_applications db'). \<exists>r \<in> set (r_applications db). app_evolves r r')
     \<and> (\<forall>r' \<in> set (r_devices db'). \<exists>r \<in> set (r_devices db). dev_evolves r r')"

text \<open>
  What one request may do to the rows: change them as above, remove them, or add a new one
  that is not marked and starts at revision 0.  A new device belongs to an application that
  exists and is not marked as deleted.
\<close>

definition registry_step :: "registry \<Rightarrow> registry \<Rightarrow> bool" where
  "registry_step db db' \<longleftrightarrow>
     (\<forall>r' \<in> set (r_applications db'). (\<exists>r \<in> set (r_applications db). app_evolves r r')
        \<or> ar_NAME r' \<notin> ar_NAME ` set (r_applications db) \<and> ar_DELETION_TIMESTAMP r' = None
          \<and> ar_REVISION r' = 0)
     \<and> (\<forall>r' \<in> set (r_devices db'). (\<exists>r \<in> set (r_devices db). dev_evolves r r')
        \<or> (dr_NAME r', dr_APP r') \<notin> (\<lambda>r. (dr_NAME r, dr_APP r)) ` set (r_devices db)
          \<and> dr_DELETION_TIMESTAMP r' = None \<and> dr_REVISION r' = 0
          \<and> (\<exists>a \<in> set (r_applications db). ar_NAME a = dr_APP r' \<and> ar_DELETION_TIMESTAMP a = None))"

lemma evolves_refl [simp]: "app_evolves r r" "dev_evolves d d"
  by (simp_all add: app_evolves_def dev_evolves_def)

lemma evolves_self [intro]:
  "r \<in> A \<Longrightarrow> \<exists>x \<in> A. app_evolves x r" "d \<in> B \<Longrightarrow> \<exists>x \<in> B. dev_evolves x d"
  using evolves_refl by blast+

lemma evolves_trans:
  "app_evolves r1 r2 \<Longrightarrow> app_evolves r2 r3 \<Longrightarrow> app_evolves r1 r3"
  "dev_evolves d1 d2 \<Longrightarrow> dev_evolves d2 d3 \<Longrightarrow> dev_evolves d1 d3"
  by (auto simp: app_evolves_def dev_evolves_def)

lemma rows_evolve_trans: "rows_evolve db db1 \<Longrightarrow> rows_evolve db1 db2 \<Longrightarrow> rows_evolve db db2"
  unfolding rows_evolve_def by (meson evolves_trans)

lemma registry_step_evolve: "rows_evolve db db' \<Longrightarrow> registry_step db db'"
  by (auto simp: rows_evolve_def registry_step_def)

lemma rows_removed:
  assumes "lifecycle_ok db" and "set (r_applications db') \<subseteq> set (r_applications db)"
    and "set (r_devices db') \<subseteq> set (r_devices db)"
  shows "rows_evolve db db' \<and> lifecycle_ok db'"
  using assms evolves_refl unfolding rows_evolve_def lifecycle_ok_def by blast

lemma deletes_evolve:
  assumes "lifecycle_ok db"
  shows "app_delete n db = Inr db' \<Longrightarrow> rows_evolve db db' \<and> lifecycle_ok db'"
    and "dev_delete n d db = Inr db' \<Longrightarrow> rows_evolve db db' \<and> lifecycle_ok db'"
    and "dev_delete_app n db = (k, db') \<Longrightarrow> rows_evolve db db' \<and> lifecycle_ok db'"
  by (auto intro!: rows_removed[OF assms]
      simp: app_delete_def dev_delete_def dev_delete_app_def Let_def set_delete_where split: if_splits)

text \<open>Writing an entity over the stored one, \<open>cur\<close>.\<close>

lemma app_update_evolves:
  assumes "reg_inv db" and "lifecycle_ok db" and "app_get c (app_name a) l db = Some cur"
    and "app_update_data fr a as db = Inr (m, db')"
    and "app_generation cur \<le> app_generation a" and "app_revision cur \<le> app_revision a"
    and "app_deletion_timestamp cur \<noteq> None \<longrightarrow> app_deletion_timestamp a = app_deletion_timestamp cur"
    and "row_live (app_deletion_timestamp a) (app_finalizers a) (app_generation a) (app_revision a)"
  shows "rows_evolve db db' \<and> lifecycle_ok db'"
proof -
  have cur: "app_from_row r = cur" if "r \<in> set (r_applications db)" "ar_NAME r = app_name a" for r
    using assms(1,3) that lookup_row_pk[of ar_NAME "r_applications db" "app_name a" r]
    by (auto simp: app_get_eq reg_inv_defs)
  define f where "f = (\<lambda>r :: app_row. r\<lparr>ar_LABELS := Some (app_labels a), ar_ANNOTATIONS := Some (app_annotations a),
             ar_GENERATION := app_generation a, ar_REVISION := app_revision a,
             ar_RESOURCE_VERSION := fr_resource_version fr,
             ar_DELETION_TIMESTAMP := app_deletion_timestamp a,
             ar_FINALIZERS := app_finalizers a, ar_DATA := app_data a\<rparr>)"
  have rows: "r_applications db' = update_where (\<lambda>r. ar_NAME r = app_name a) f (r_applications db)"
    and devs: "r_devices db' = r_devices db"
    unfolding f_def using assms(4)
    by (cases as; auto simp: app_update_data_def Let_def result_simps dest!: app_insert_aliases_rows)+
  have "\<exists>r \<in> set (r_applications db). app_evolves r r' \<and> app_row_live r'"
    if "r' \<in> set (r_applications db')" for r'
  proof -
    have "app_evolves r (f r) \<and> app_row_live (f r)" if "r \<in> set (r_applications db)" "(\<lambda>r. ar_NAME r = app_name a) r" for r
      using assms(5-8) cur[of r] that
      by (simp add: f_def app_evolves_def) (auto simp: app_from_row_def)
    with that assms(2) show ?thesis by (auto simp: rows update_where_def lifecycle_ok_def split: if_splits)
  qed
  then show ?thesis
    using assms(2) devs unfolding rows_evolve_def lifecycle_ok_def by (metis evolves_refl(2))
qed

lemma dev_update_evolves:
  assumes "reg_inv db" and "lifecycle_ok db"
    and "dev_get c (dev_application d) (dev_name d) l db = Some cur"
    and "dev_update fr d as db = Inr (m, db')"
    and "dev_generation cur \<le> dev_generation d" and "dev_revision cur \<le> dev_revision d"
    and "dev_deletion_timestamp cur \<noteq> None \<longrightarrow> dev_deletion_timestamp d = dev_deletion_timestamp cur"
    and "row_live (dev_deletion_timestamp d) (dev_finalizers d) (dev_generation d) (dev_revision d)"
  shows "rows_evolve db db' \<and> lifecycle_ok db'"
proof -
  have cur: "dev_from_row r = cur"
    if "r \<in> set (r_devices db)" "dr_NAME r = dev_name d" "dr_APP r = dev_application d" for r
    using assms(1,3) that lookup_row_pk[of "\<lambda>r. (dr_NAME r, dr_APP r)" "r_devices db" "(dev_name d, dev_application d)" r]
    by (auto simp: dev_get_eq reg_inv_defs)
  define f where "f = (\<lambda>r :: dev_row. r\<lparr>dr_LABELS := Some (dev_labels d), dr_ANNOTATIONS := Some (dev_annotations d),
             dr_GENERATION := dev_generation d, dr_REVISION := dev_revision d,
             dr_RESOURCE_VERSION := fr_resource_version fr,
             dr_DELETION_TIMESTAMP := dev_deletion_timestamp d,
             dr_FINALIZERS := dev_finalizers d, dr_DATA := dev_data d\<rparr>)"
  have rows: "r_devices db' = update_where (\<lambda>r. dr_APP r = dev_application d \<and> dr_NAME r = dev_name d) f (r_devices db)"
    and apps: "r_applications db' = r_applications db"
    unfolding f_def using assms(4)
    by (cases as; auto simp: dev_update_def Let_def result_simps dest!: dev_insert_aliases_rows)+
  have "\<exists>r \<in> set (r_devices db). dev_evolves r r' \<and> dev_row_live r'"
    if "r' \<in> set (r_devices db')" for r'
  proof -
    have "dev_evolves r (f r) \<and> dev_row_live (f r)" if "r \<in> set (r_devices db)" "(\<lambda>r. dr_APP r = dev_application d \<and> dr_NAME r = dev_name d) r" for r
      using assms(5-8) cur[of r] that
      by (simp add: f_def dev_evolves_def) (auto simp: dev_from_row_def)
    with that assms(2) show ?thesis by (auto simp: rows update_where_def lifecycle_ok_def split: if_splits)
  qed
  then show ?thesis
    using assms(2) apps unfolding rows_evolve_def lifecycle_ok_def by (metis evolves_refl(1))
qed

text \<open>The stored entity has the properties of its row.\<close>

lemma app_get_live:
  "reg_inv db \<Longrightarrow> lifecycle_ok db \<Longrightarrow> app_get c n l db = Some a \<Longrightarrow>
     row_live (app_deletion_timestamp a) (app_finalizers a) (app_generation a) (app_revision a)"
  by (auto simp: app_get_eq reg_inv_defs lifecycle_ok_def app_from_row_def dest: lookup_row_SomeD)

lemma dev_get_live:
  "reg_inv db \<Longrightarrow> lifecycle_ok db \<Longrightarrow> dev_get c app n l db = Some d \<Longrightarrow>
     row_live (dev_deletion_timestamp d) (dev_finalizers d) (dev_generation d) (dev_revision d)"
  by (auto simp: dev_get_eq reg_inv_defs lifecycle_ok_def dev_from_row_def dest: lookup_row_SomeD)

text \<open>Advancing the versions of an entity over a live one neither wraps nor goes back.\<close>

lemma unat_next:
  fixes x :: u64
  assumes "x \<noteq> -1"
  shows "unat (x + 1) = unat x + 1"
proof -
  have "unat x \<noteq> unat (-1 :: u64)" using assms by (simp only: word_unat_eq_iff not_False_eq_True)
  moreover have "unat (-1 :: u64) = 2 ^ 64 - 1" by (simp add: unsigned_minus_1_eq_mask mask_eq_exp_minus_1)
  moreover have "unat x < 2 ^ 64" using unsigned_less[of x] by simp
  ultimately show ?thesis by (simp add: unat_word_ariths)
qed

lemma advanced_versions:
  fixes g r g' :: u64
  assumes "g \<le> r" and "r \<noteq> -1" and "g' = (if b then g + 1 else g)"
  shows "g \<le> g'" and "r \<le> r + 1" and "g' \<le> r + 1"
proof -
  have "g \<noteq> -1" using assms(1,2) word_order.extremum_uniqueI by blast
  then show "g \<le> g'" "r \<le> r + 1" "g' \<le> r + 1"
    using assms unat_next[of g] unat_next[of r] by (auto simp: word_le_nat_alt)
qed

lemma perform_update_app_evolves:
  assumes "reg_inv db" and "lifecycle_ok db"
    and "perform_update_app env fr i app as eu ev db = Inr (evs, db')"
  shows "rows_evolve db db' \<and> lifecycle_ok db'"
  using assms(3)
proof (cases rule: perform_update_app_cases)
  case (same cur)
  then show ?thesis using rows_removed[OF assms(2)] by simp
next
  case (gone cur)
  then show ?thesis using deletes_evolve(1)[OF assms(2)] by blast
next
  case (written cur r new m)
  note adv = app_ver.advance_from_Inr[OF written(6)]
  have "app_revision cur \<noteq> -1" using adv(1,3) by auto
  moreover have "app_generation cur \<le> app_revision cur"
    using app_get_live[OF assms(1,2) written(1)] by (simp add: row_live_def)
  ultimately have ver: "app_generation cur \<le> app_generation new" "app_revision cur \<le> app_revision new"
    "app_generation new \<le> app_revision new"
    using advanced_versions[OF _ _ adv(4)] adv(1,2) by simp_all
  have new: "app_name new = app_name app" "app_finalizers new = app_finalizers app"
    "app_deletion_timestamp new = app_deletion_timestamp cur"
    using written(6)
    by (auto simp: advance_from_def set_revision_def set_generation_def Let_def result_simps split: if_splits)
  show ?thesis
    using app_update_evolves[OF assms(1,2) _ written(7)] written(1,9) new ver by (auto simp: row_live_def)
qed

lemma check_clean_app_evolves:
  assumes "reg_inv db" and "lifecycle_ok db" and "check_clean_app env fr n db = Inr db'"
  shows "rows_evolve db db' \<and> lifecycle_ok db'"
  using assms(3) rows_removed[OF assms(2), of db] perform_update_app_evolves[OF assms(1,2)]
  by (auto simp: check_clean_app_def Let_def result_simps split: option.splits if_splits)

lemma delete_app_tx_evolves:
  assumes "reg_inv db" and "lifecycle_ok db" and "delete_app_tx env fr i n pre db = Inr (evs, db')"
  shows "rows_evolve db db' \<and> lifecycle_ok db'"
  using assms(3)
proof (cases rule: delete_app_tx_cases)
  case (hard c db1)
  then show ?thesis using deletes_evolve(1,3) assms(2) rows_evolve_trans by meson
next
  case (soft c k db1 l m)
  have db1: "rows_evolve db db1" "lifecycle_ok db1" "reg_inv db1"
    using deletes_evolve(3)[OF assms(2) soft(4)] reg_inv_dev_delete_app[OF assms(1) soft(4)] by auto
  have get1: "app_get (env_collate env) n ForUpdate db1 = Some c"
    using soft(1,4) assms(1) db1(3) by (auto simp: app_get_eq reg_inv_defs dev_delete_app_def Let_def)
  have name: "app_name c = n" using app_get_name[OF assms(1) soft(1)] .
  have live: "row_live (app_deletion_timestamp c) (app_finalizers c) (app_generation c) (app_revision c)"
    using app_get_live[OF assms(1,2) soft(1)] .
  have "app_revision c \<noteq> -1"
    using assms(3) soft(1) by (auto simp: delete_app_tx_def Let_def result_simps app_ver.advance_revision_Inr
        split: if_splits prod.splits)
  from advanced_versions[OF _ this, of "app_generation c" "app_generation c" False]
  have ver: "app_revision c \<le> app_revision c + 1" "app_generation c \<le> app_revision c + 1"
    using live by (auto simp: row_live_def)
  have "rows_evolve db1 db' \<and> lifecycle_ok db'"
    by (rule app_update_evolves[OF db1(3,2) _ soft(7)]) (use get1 name ver soft(3,6) in \<open>auto simp: row_live_def\<close>)
  then show ?thesis using rows_evolve_trans[OF db1(1)] by blast
qed

lemma update_device_tx_evolves:
  assumes "reg_inv db" and "lifecycle_ok db" and "update_device_tx env fr i d db = Inr (evs, db')"
  shows "rows_evolve db db' \<and> lifecycle_ok db'"
  using assms(3) refl refl
proof (cases rule: update_device_tx_cases)
  case (same app cur)
  then show ?thesis using rows_removed[OF assms(2)] by simp
next
  case (gone app cur db1)
  then show ?thesis
    using deletes_evolve(2)[OF assms(2)] reg_inv_dev_delete[OF assms(1)] check_clean_app_evolves
      rows_evolve_trans by meson
next
  case (written app cur r new m)
  note adv = dev_ver.advance_from_Inr[OF written(5)]
  have "dev_revision cur \<noteq> -1" using adv(1,3) by auto
  moreover have "dev_generation cur \<le> dev_revision cur"
    using dev_get_live[OF assms(1,2) written(3)] by (simp add: row_live_def)
  ultimately have ver: "dev_generation cur \<le> dev_generation new" "dev_revision cur \<le> dev_revision new"
    "dev_generation new \<le> dev_revision new"
    using advanced_versions[OF _ _ adv(4)] adv(1,2) by simp_all
  have new: "dev_application new = pd_application d" "dev_name new = pd_name d"
    "dev_finalizers new = pd_finalizers d" "dev_deletion_timestamp new = dev_deletion_timestamp cur"
    using written(5)
    by (auto simp: advance_from_def set_revision_def set_generation_def Let_def result_simps split: if_splits)
  show ?thesis
    using dev_update_evolves[OF assms(1,2) _ written(6)] written(3,8) new ver by (auto simp: row_live_def)
qed

lemma delete_device_tx_evolves:
  assumes "reg_inv db" and "lifecycle_ok db" and "delete_device_tx env fr i app n pre db = Inr (evs, db')"
  shows "rows_evolve db db' \<and> lifecycle_ok db'"
  using assms(3)
proof (cases rule: delete_device_tx_cases)
  case (hard c a)
  then show ?thesis using deletes_evolve(2)[OF assms(2)] by blast
next
  case (soft c a m)
  have live: "row_live (dev_deletion_timestamp c) (dev_finalizers c) (dev_generation c) (dev_revision c)"
    using dev_get_live[OF assms(1,2) soft(1)] .
  have "dev_revision c \<noteq> -1"
    using assms(3) soft(1) by (auto simp: delete_device_tx_def Let_def result_simps dev_ver.advance_revision_Inr
        split: if_splits)
  from advanced_versions[OF _ this, of "dev_generation c" "dev_generation c" False]
  have ver: "dev_revision c \<le> dev_revision c + 1" "dev_generation c \<le> dev_revision c + 1"
    using live by (auto simp: row_live_def)
  have name: "dev_application c = app" "dev_name c = n"
    using soft(1) assms(1) by (auto simp: dev_get_eq reg_inv_defs dev_from_row_def dest: lookup_row_SomeD)
  show ?thesis
    by (rule dev_update_evolves[OF assms(1,2) _ soft(6)]) (use soft(1,2,5) name ver in \<open>auto simp: row_live_def\<close>)
qed

lemma creates_step:
  assumes "reg_inv db" and "lifecycle_ok db"
  shows "create_app_tx env fr i a db = Inr (evs, db') \<Longrightarrow> registry_step db db' \<and> lifecycle_ok db'"
    and "create_device_tx env fr i d db = Inr (evs, db') \<Longrightarrow> registry_step db db' \<and> lifecycle_ok db'"
proof -
  assume "create_app_tx env fr i a db = Inr (evs, db')"
  then obtain app as where e: "app_to_entity env a = Inr (app, as)"
    and "app_create fr (app\<lparr>app_uid := fr_uid fr, app_owner := user_id i\<rparr>) as db = Inr db'"
    by (auto simp: create_app_tx_def Let_def result_simps)
  then have "app_name app \<notin> ar_NAME ` set (r_applications db)" "r_devices db' = r_devices db"
    "r_applications db' = r_applications db @ [app_new_row fr (app\<lparr>app_uid := fr_uid fr, app_owner := user_id i\<rparr>)]"
    by (auto simp: app_create_Inr dest!: app_insert_aliases_rows)
  then show "registry_step db db' \<and> lifecycle_ok db'"
    using assms(2) app_to_entity_fields[OF e]
    by (auto simp: registry_step_def lifecycle_ok_def row_live_def app_new_row_def)
next
  assume "create_device_tx env fr i d db = Inr (evs, db')"
  then obtain app where app: "app_get (env_collate env) (pd_application d) ForShare db = Some app"
      "app_deletion_timestamp app = None"
    and "dev_create fr ((fst (device_to_entity env d))\<lparr>dev_uid := fr_uid fr\<rparr>)
        (snd (device_to_entity env d)) db = Inr db'"
    by (auto elim!: create_device_tx_Inr)
  then have "(pd_name d, pd_application d) \<notin> (\<lambda>r. (dr_NAME r, dr_APP r)) ` set (r_devices db)"
    "r_applications db' = r_applications db"
    "r_devices db' = r_devices db @ [dev_new_row fr ((fst (device_to_entity env d))\<lparr>dev_uid := fr_uid fr\<rparr>)]"
    by (auto simp: dev_create_Inr dest!: dev_insert_aliases_rows)
  moreover obtain r where "r \<in> set (r_applications db)" "ar_NAME r = pd_application d"
      "ar_DELETION_TIMESTAMP r = None"
    using app assms(1) by (auto simp: app_get_eq reg_inv_defs app_from_row_def dest: lookup_row_SomeD)
  ultimately show "registry_step db db' \<and> lifecycle_ok db'"
    using assms(2)
    by (auto simp: registry_step_def lifecycle_ok_def row_live_def dev_new_row_def)
qed

lemma admin_tx_evolves:
  assumes "lifecycle_ok db"
  shows "transfer_tx env kc i n u db = Inr db' \<Longrightarrow> rows_evolve db db' \<and> lifecycle_ok db'"
    and "cancel_tx env i n db = Inr db' \<Longrightarrow> rows_evolve db db' \<and> lifecycle_ok db'"
    and "accept_tx env i n db = Inr db' \<Longrightarrow> rows_evolve db db' \<and> lifecycle_ok db'"
    and "set_members_tx env kc i n ms db = Inr db' \<Longrightarrow> rows_evolve db db' \<and> lifecycle_ok db'"
proof -
  have "rows_evolve db (snd (app_update_transfer app owner nxt db)) \<and>
      lifecycle_ok (snd (app_update_transfer app owner nxt db))" for app owner nxt
    using assms
    by (auto simp: app_update_transfer_def rows_evolve_def lifecycle_ok_def set_update_where app_evolves_def)
  moreover have "rows_evolve db (snd (app_set_members app members db)) \<and>
      lifecycle_ok (snd (app_set_members app members db))" for app members
    using assms
    by (auto simp: app_set_members_def rows_evolve_def lifecycle_ok_def set_update_where app_evolves_def)
  ultimately show "transfer_tx env kc i n u db = Inr db' \<Longrightarrow> rows_evolve db db' \<and> lifecycle_ok db'"
    and "cancel_tx env i n db = Inr db' \<Longrightarrow> rows_evolve db db' \<and> lifecycle_ok db'"
    and "accept_tx env i n db = Inr db' \<Longrightarrow> rows_evolve db db' \<and> lifecycle_ok db'"
    and "set_members_tx env kc i n ms db = Inr db' \<Longrightarrow> rows_evolve db db' \<and> lifecycle_ok db'"
    using admin_tx_cases by metis+
qed

lemma request_tx_step:
  assumes "reg_inv db" and "lifecycle_ok db" and "request_tx env kc fr i req db = Inr (evs, db')"
  shows "registry_step db db' \<and> lifecycle_ok db'"
proof (cases req)
  case (UpdateApp a)
  with assms(3) show ?thesis
    using perform_update_app_evolves[OF assms(1,2)] registry_step_evolve by (auto simp: result_simps)
qed (use assms(3) creates_step[OF assms(1,2)] delete_app_tx_evolves[OF assms(1,2)]
    update_device_tx_evolves[OF assms(1,2)] delete_device_tx_evolves[OF assms(1,2)]
    admin_tx_evolves[OF assms(2)] registry_step_evolve in \<open>auto simp: result_simps\<close>)

section \<open>Reachable states\<close>

lemma pk_outbox_notify: "pk row_key rows \<Longrightarrow> pk row_key (outbox_notify t evs rows)"
  by (induction evs arbitrary: rows) (auto intro: pk_outbox_create)

inductive reachable :: "env \<Rightarrow> keycloak \<Rightarrow> mgmt \<Rightarrow> bool" for env kc where
  init: "reachable env kc \<lparr>m_reg = \<lparr>r_applications = [], r_app_aliases = [], r_devices = [],
           r_dev_aliases = []\<rparr>, m_outbox = [], m_sent = []\<rparr>"
| request: "reachable env kc s \<Longrightarrow> request_wf env req \<Longrightarrow>
     reachable env kc (snd (handle env kc fr i req s))"
| seen: "reachable env kc s \<Longrightarrow> reachable env kc (s\<lparr>m_outbox := service_mark_seen e (m_outbox s)\<rparr>)"

lemma transact_state:
  "snd (transact env fr body s) = (case body (m_reg s) of
     Inl _ \<Rightarrow> s
   | Inr (evs, db) \<Rightarrow> \<lparr>m_reg = db, m_outbox = outbox_notify (fr_now fr) evs (m_outbox s),
       m_sent = snd (send_events (env_accepts env) evs (m_sent s))\<rparr>)"
  by (auto simp: transact_def send_to_outbox_def Let_def case_prod_beta split: sum.splits)

text \<open>
  C1. Whatever requests are handled, and however they interleave with the outbox
  controller: names and aliases stay unique and every reference is met; whatever is stored
  with a mark of deletion still has a finalizer (without one it is gone), and no generation
  is ahead of its revision.  And every further request keeps the life of each row: a row
  keeps its UID and its creation time, its generation and revision never go back, its mark of
  deletion is never taken away; a row that is added is not marked, and a new device belongs
  to an application that exists and is not marked as deleted.  The objects in the bodies of
  the requests have no key twice.
\<close>

theorem registry_consistent:
  assumes "reachable env kc s"
  shows "reg_inv (m_reg s) \<and> lifecycle_ok (m_reg s) \<and> pk row_key (m_outbox s)
     \<and> (\<forall>fr i req. request_wf env req \<longrightarrow>
          registry_step (m_reg s) (m_reg (snd (handle env kc fr i req s))))"
proof -
  have "reg_inv (m_reg s) \<and> lifecycle_ok (m_reg s) \<and> pk row_key (m_outbox s)"
    using assms
  proof induction
    case init
    show ?case by (simp add: reg_inv_defs lifecycle_ok_def)
  next
    case (request s req fr i)
    then show ?case
      using request_tx_inv[of "m_reg s" env req kc fr i] request_tx_step[of "m_reg s" env kc fr i req]
        pk_outbox_notify
      by (auto simp: handle_transact transact_state split: sum.splits)
  next
    case (seen s e)
    then show ?case by (simp add: service_mark_seen_def pk_outbox_seen)
  qed
  then show ?thesis
    using request_tx_step[of "m_reg s" env kc] registry_step_evolve[of "m_reg s" "m_reg s"]
      rows_removed[of "m_reg s" "m_reg s"]
    by (auto simp: handle_transact transact_state split: sum.splits)
qed

definition demo_api_app :: api_application where
  "demo_api_app = \<lparr>pa_name = ''a'', pa_uid = [], pa_resource_version = [], pa_labels = [],
     pa_annotations = [], pa_creation_timestamp = 0, pa_generation = 0, pa_deletion_timestamp = None,
     pa_finalizers = [], pa_spec = [(''x'', Number ''1'')], pa_status = []\<rparr>"

definition demo_fresh :: fresh where
  "demo_fresh = \<lparr>fr_uid = 1, fr_resource_version = 2, fr_db_uid = 3, fr_now = 4\<rparr>"

theorem registry_consistent_witness:
  "let s = snd (handle demo_env demo_keycloak demo_fresh (demo_user ''x'') (CreateApp demo_api_app)
     \<lparr>m_reg = \<lparr>r_applications = [], r_app_aliases = [], r_devices = [], r_dev_aliases = []\<rparr>,
      m_outbox = [], m_sent = []\<rparr>)
   in reg_inv (m_reg s) \<and> lifecycle_ok (m_reg s) \<and> registry_step (m_reg s)
        (m_reg (snd (handle demo_env demo_keycloak demo_fresh (demo_user ''x'') (DeleteApp ''a'' None) s)))"
proof -
  let ?s = "snd (handle demo_env demo_keycloak demo_fresh (demo_user ''x'') (CreateApp demo_api_app)
     \<lparr>m_reg = \<lparr>r_applications = [], r_app_aliases = [], r_devices = [], r_dev_aliases = []\<rparr>,
      m_outbox = [], m_sent = []\<rparr>)"
  have "reachable demo_env demo_keycloak ?s"
    by (rule reachable.request[OF reachable.init])
      (simp add: api_app_wf_def demo_api_app_def demo_env_def)
  note ok = registry_consistent[OF this]
  have "request_wf demo_env (DeleteApp ''a'' None)" by simp
  with ok show ?thesis unfolding Let_def by blast
qed

section \<open>Events\<close>

lemma outbox_notify_fold:
  "outbox_notify t evs rows =
     fold (apply_op outbox_create outbox_seen) (map (\<lambda>e. Record t (entry_of_event e)) evs) rows"
  by (induction evs arbitrary: rows) simp_all

lemma outbox_notify_pending:
  assumes "pk row_key rows" and "e \<in> set evs"
    and "\<And>e'. e' \<in> set evs \<Longrightarrow> oe_uid (entry_of_event e') = oe_uid (entry_of_event e)"
  shows "\<exists>r. row_pending (outbox_notify t evs rows) (entry_key (entry_of_event e)) =
       Some (oe_uid (entry_of_event e), r) \<and> \<not> i64_less r (oe_revision (entry_of_event e))"
  using assms
proof (induction evs arbitrary: rows)
  case (Cons x xs)
  show ?case
  proof (cases "e \<in> set xs")
    case True
    have "\<And>e'. e' \<in> set xs \<Longrightarrow> oe_uid (entry_of_event e') = oe_uid (entry_of_event e)"
      using Cons.prems(3) by (meson list.set_intros(2))
    from Cons.IH[OF pk_outbox_create[OF Cons.prems(1)] True this] show ?thesis by simp
  next
    case False
    then have "x = e" using Cons.prems(2) by simp
    have uid: "oe_uid y = oe_uid (entry_of_event e)"
      if "Record t' y \<in> set (map (\<lambda>e. Record t (entry_of_event e)) xs)" for t' y
    proof -
      from that obtain e' where "e' \<in> set xs" "y = entry_of_event e'" by auto
      then show ?thesis using Cons.prems(3)[of e'] by simp
    qed
    have "Seen y \<notin> set (map (\<lambda>e. Record t (entry_of_event e)) xs)" for y by auto
    then show ?thesis
      using ob.recorded_not_lost[OF Cons.prems(1), of "map (\<lambda>e. Record t (entry_of_event e)) xs"
          "entry_of_event e" t, OF uid] \<open>x = e\<close>
      by (simp add: outbox_notify_fold)
  qed
qed simp

text \<open>The events of one request all name the same object.\<close>

lemma new_app_entries:
  "e \<in> set (new_app inst n u r paths) \<Longrightarrow> entry_of_event e =
     \<lparr>oe_instance = inst, oe_app = n, oe_device = None, oe_path = ev_path e, oe_revision = r, oe_uid = u\<rparr>"
  by (auto simp: new_app_def new_change_def split: if_splits)

lemma new_device_entries:
  "e \<in> set (new_device inst n d u r paths) \<Longrightarrow> entry_of_event e =
     \<lparr>oe_instance = inst, oe_app = n, oe_device = Some d, oe_path = ev_path e, oe_revision = r, oe_uid = u\<rparr>"
  by (auto simp: new_device_def new_change_def split: if_splits)

lemma perform_update_app_events:
  "perform_update_app env fr i a as eu ev db = Inr (evs, db') \<Longrightarrow>
     evs = [] \<or> (\<exists>inst n u r paths. evs = new_app inst n u r paths)"
  by (erule perform_update_app_cases) blast+

lemma request_events:
  assumes "request_tx env kc fr i req db = Inr (evs, db')"
  shows "evs = [] \<or> (\<exists>inst n u r paths. evs = new_app inst n u r paths)
       \<or> (\<exists>inst n d u r paths. evs = new_device inst n d u r paths)"
proof (cases req)
  case (CreateApp a)
  with assms show ?thesis by (simp add: create_app_tx_def Let_def result_simps) blast
next
  case (UpdateApp a)
  with assms obtain app as where
    "perform_update_app env fr (Some i) app as (pa_uid a) (pa_resource_version a) db = Inr (evs, db')"
    by (auto simp: result_simps)
  from perform_update_app_events[OF this] show ?thesis by blast
next
  case (DeleteApp n pre)
  with assms have "delete_app_tx env fr i n pre db = Inr (evs, db')" by simp
  then show ?thesis by (cases rule: delete_app_tx_cases) blast+
next
  case (CreateDevice d)
  with assms have "create_device_tx env fr i d db = Inr (evs, db')" by simp
  from this refl refl show ?thesis by (rule create_device_tx_Inr) blast
next
  case (UpdateDevice d)
  with assms have "update_device_tx env fr i d db = Inr (evs, db')" by simp
  from this refl refl show ?thesis by (cases rule: update_device_tx_cases) blast+
next
  case (DeleteDevice app d pre)
  with assms have "delete_device_tx env fr i app d pre db = Inr (evs, db')" by simp
  then show ?thesis by (cases rule: delete_device_tx_cases) blast+
qed (use assms in \<open>auto simp: result_simps\<close>)

lemma request_events_uid:
  assumes "request_tx env kc fr i req db = Inr (evs, db')" and "e \<in> set evs" and "e' \<in> set evs"
  shows "oe_uid (entry_of_event e') = oe_uid (entry_of_event e)"
  using request_events[OF assms(1)] assms(2,3) by (auto simp: new_app_entries new_device_entries)

lemma send_events_take:
  "\<exists>k \<le> length evs. snd (send_events accepts evs sent) = sent @ take k evs
     \<and> (is_ok (fst (send_events accepts evs sent)) \<longleftrightarrow> k = length evs)"
proof (induction evs arbitrary: sent)
  case (Cons e evs)
  show ?case
  proof (cases "accepts e")
    case True
    obtain k where "k \<le> length evs" "snd (send_events accepts evs (sent @ [e])) = (sent @ [e]) @ take k evs"
      "is_ok (fst (send_events accepts evs (sent @ [e]))) \<longleftrightarrow> k = length evs"
      using Cons by blast
    with True show ?thesis by (intro exI[of _ "Suc k"]) simp
  next
    case False
    then show ?thesis by (intro exI[of _ 0]) simp
  qed
qed simp

lemma is_ok_map_err [simp]: "is_ok (map_err f r) = is_ok r"
  by (cases r) simp_all

text \<open>
  C3. The transactional outbox: a request that fails in the database changes nothing at
  all; otherwise its changes are committed together with the outbox entries of all its
  events, whether or not the event sender then accepts them.  The events sent are a prefix
  of the recorded ones, the whole list exactly if the request reports success.
\<close>

theorem request_outbox:
  assumes "pk row_key (m_outbox s)"
  shows "case request_tx env kc fr i req (m_reg s) of
      Inl e \<Rightarrow> handle env kc fr i req s = (Inl (Service e), s)
    | Inr (evs, db) \<Rightarrow>
        let (res, s') = handle env kc fr i req s in
        m_reg s' = db
        \<and> (\<forall>e \<in> set evs. \<exists>r. row_pending (m_outbox s') (entry_key (entry_of_event e)) =
               Some (oe_uid (entry_of_event e), r) \<and> \<not> i64_less r (oe_revision (entry_of_event e)))
        \<and> (\<exists>k \<le> length evs. m_sent s' = m_sent s @ take k evs \<and> (is_ok res \<longleftrightarrow> k = length evs))"
proof (cases "request_tx env kc fr i req (m_reg s)")
  case (Inl e)
  then show ?thesis by (simp add: handle_transact transact_def)
next
  case (Inr p)
  obtain evs db where p: "p = (evs, db)" by (cases p)
  obtain r sent where se: "send_events (env_accepts env) evs (m_sent s) = (r, sent)" by fastforce
  have h: "handle env kc fr i req s = (map_err EventSender r,
      \<lparr>m_reg = db, m_outbox = outbox_notify (fr_now fr) evs (m_outbox s), m_sent = sent\<rparr>)"
    using Inr p se by (simp add: handle_transact transact_def send_to_outbox_def)
  have pend: "\<forall>e \<in> set evs. \<exists>r. row_pending (outbox_notify (fr_now fr) evs (m_outbox s))
      (entry_key (entry_of_event e)) = Some (oe_uid (entry_of_event e), r)
      \<and> \<not> i64_less r (oe_revision (entry_of_event e))"
    using outbox_notify_pending[OF assms] request_events_uid[OF Inr[unfolded p]] by blast
  show ?thesis
    using send_events_take[of evs "env_accepts env" "m_sent s"] se pend
    by (simp add: Inr p h)
qed

theorem request_outbox_witness:
  "case request_tx demo_env demo_keycloak demo_fresh (demo_user ''x'') (DeleteApp ''a'' None)
          (m_reg (demo_state (Some ''x''))) of
      Inl e \<Rightarrow> False
    | Inr (evs, db) \<Rightarrow>
        let (res, s') = handle demo_env demo_keycloak demo_fresh (demo_user ''x'') (DeleteApp ''a'' None)
          (demo_state (Some ''x'')) in
        m_reg s' = db
        \<and> (\<forall>e \<in> set evs. \<exists>r. row_pending (m_outbox s') (entry_key (entry_of_event e)) =
               Some (oe_uid (entry_of_event e), r) \<and> \<not> i64_less r (oe_revision (entry_of_event e)))"
proof -
  have "\<exists>p. request_tx demo_env demo_keycloak demo_fresh (demo_user ''x'') (DeleteApp ''a'' None)
      (m_reg (demo_state (Some ''x''))) = Inr p"
    by (simp add: delete_app_tx_def demo_get)
      (simp add: app_from_row_def demo_app_def ensure_def ensure_with_def authorize_def app_resource_def
        demo_user_def check_preconditions_def check_versions_def is_ok_and_equal_def dev_delete_app_def
        count_devices_def count_where_def delete_where_def demo_state_def app_delete_def
        advance_revision_def set_revision_def Let_def)
  then show ?thesis
    using request_outbox[of "demo_state (Some ''x'')" demo_env demo_keycloak demo_fresh
        "demo_user ''x''" "DeleteApp ''a'' None"]
    by (auto simp: demo_state_def Let_def split: prod.splits)
qed

end
