(* ===== verification/Registry_Access.thy ===== *)
theory Registry_Access
  imports Registry_Service
begin

text \<open>
  Authorization of the registry service.  \<open>authorize\<close> is shown to be the intended decision,
  the list query is compared with it, and a frame argument shows that a request changes
  nothing of an application its user may not write: every table access is confined to the
  part of the tables that belongs to one application.
\<close>

section \<open>The decision\<close>

lemma authorize_may: "authorize r i p = Allow \<longleftrightarrow> may r i p"
proof (cases "is_admin i \<or> res_owner r = None \<or> user_id i = res_owner r")
  case True
  then show ?thesis by (auto simp: authorize_def may_def split: option.splits)
next
  case False
  then obtain w where w: "res_owner r = Some w" "user_id i \<noteq> Some w" by auto
  then show ?thesis using False role_not_owner
    by (auto simp: authorize_def may_def member_name_def member_allows_iff Let_def
        split: option.splits)
qed

lemma authorize_weaker:
  assumes "authorize r i p = Allow" and "q \<le> p"
  shows "authorize r i q = Allow"
  using assms order_trans by (auto simp: authorize_may may_def)

lemma read_any_role [simp]: "PermRead \<le> role_permission m"
  by (cases m) (simp_all add: less_eq_permission_def)

text \<open>
  \<open>authorize\<close> allows an operation exactly if the user is an administrator, the resource
  has no owner, the user is the owner, or the user is a member whose role carries the
  permission.
\<close>

theorem authorize_iff_may: "authorize r i p = Allow \<longleftrightarrow> may r i p"
  by (rule authorize_may)

text \<open>
  The query that lists applications and the decision on a single one, which the sources
  ask to keep aligned, agree but for two cases: a user who is no administrator does not see
  unowned applications, though \<open>authorize\<close> lets everybody read them, and a named user sees
  an application that is shared with the anonymous member only, though \<open>authorize\<close> refuses
  to let that user read it.
\<close>

theorem list_query_alignment:
  assumes "sr_owner row \<noteq> Some []"
  shows "read_visible i row \<noteq> (authorize (row_resource row) i PermRead = Allow) \<longleftrightarrow>
     \<not> is_admin i \<and>
     (if sr_owner row = None
      then \<not> (\<exists>m. sr_members row = Some m \<and> (map_of m (member_name i) \<noteq> None \<or> map_of m [] \<noteq> None))
      else user_id i \<noteq> sr_owner row
        \<and> (\<exists>m. sr_members row = Some m \<and> map_of m [] \<noteq> None \<and> map_of m (member_name i) = None))"
proof -
  have owner: "sr_owner row = Some (member_name i) \<longleftrightarrow> user_id i = sr_owner row \<and> sr_owner row \<noteq> None"
    using assms by (auto simp: member_name_def split: option.splits)
  have "authorize (row_resource row) i PermRead = Allow \<longleftrightarrow>
      is_admin i \<or> sr_owner row = None \<or> user_id i = sr_owner row
      \<or> (\<exists>m. sr_members row = Some m \<and> map_of m (member_name i) \<noteq> None)"
    by (auto simp: authorize_may may_def map_of_row_members bind_eq_Some_conv)
      (auto simp: row_resource_def)
  then show ?thesis using owner by (auto simp: read_visible_def)
qed

theorem list_query_alignment_witness:
  "read_visible (demo_user ''u'') \<lparr>sr_name = ''a'', sr_labels = None, sr_owner = Some ''o'',
     sr_members = Some [([], RoleReader)]\<rparr> \<noteq>
   (authorize (row_resource \<lparr>sr_name = ''a'', sr_labels = None, sr_owner = Some ''o'',
     sr_members = Some [([], RoleReader)]\<rparr>) (demo_user ''u'') PermRead = Allow)"
  using list_query_alignment[of "\<lparr>sr_name = ''a'', sr_labels = None, sr_owner = Some ''o'',
     sr_members = Some [([], RoleReader)]\<rparr>" "demo_user ''u''"]
  by (simp add: demo_user_def member_name_def)

section \<open>Frames\<close>

text \<open>The part of the tables that belongs to one application.\<close>

definition app_part ::
  "string \<Rightarrow> registry \<Rightarrow> app_row option \<times> app_alias_row list \<times> dev_row list \<times> dev_alias_row list" where
  "app_part n db =
     (lookup_row ar_NAME n (r_applications db), filter (\<lambda>r. aa_APP r = n) (r_app_aliases db),
      filter (\<lambda>r. dr_APP r = n) (r_devices db), filter (\<lambda>r. da_APP r = n) (r_dev_aliases db))"

lemma filter_update_where:
  "\<forall>r. P r \<longrightarrow> \<not> Q r \<and> \<not> Q (f r) \<Longrightarrow> filter Q (update_where P f rows) = filter Q rows"
  by (induction rows) (auto simp: update_where_def)

lemma filter_delete_where:
  "\<forall>r. P r \<longrightarrow> \<not> Q r \<Longrightarrow> filter Q (delete_where P rows) = filter Q rows"
  by (induction rows) (auto simp: delete_where_def)

lemma lookup_delete_other:
  "\<forall>r. P r \<longrightarrow> key r \<noteq> k \<Longrightarrow> lookup_row key k (delete_where P rows) = lookup_row key k rows"
  by (induction rows) (auto simp: lookup_row_def delete_where_def)

lemma lookup_update_other:
  "\<forall>r. P r \<longrightarrow> key r \<noteq> k \<and> key (f r) \<noteq> k \<Longrightarrow>
     lookup_row key k (update_where P f rows) = lookup_row key k rows"
  by (induction rows) (auto simp: lookup_row_def update_where_def)

lemmas part_simps = app_part_def filter_update_where filter_delete_where lookup_delete_other
  lookup_update_other

lemma part_app_insert_aliases:
  "app_insert_aliases m as db = Inr db' \<Longrightarrow> m \<noteq> n \<Longrightarrow> app_part n db' = app_part n db"
proof (induction as arbitrary: db)
  case (Cons x as)
  then show ?case by (cases x) (auto simp: app_part_def insert_row_def split: if_splits)
qed simp

lemma part_dev_insert_aliases:
  "dev_insert_aliases m d as db = Inr db' \<Longrightarrow> m \<noteq> n \<Longrightarrow> app_part n db' = app_part n db"
proof (induction as arbitrary: db)
  case (Cons x as)
  then show ?case by (cases x) (auto simp: app_part_def insert_row_def split: if_splits)
qed simp

lemma part_app_create:
  assumes "app_create fr a as db = Inr db'" and "app_name a \<noteq> n"
  shows "app_part n db' = app_part n db"
proof -
  from assms(1) have "app_insert_aliases (app_name a) as
      (db\<lparr>r_applications := r_applications db @ [app_new_row fr a]\<rparr>) = Inr db'"
    by (simp add: app_create_Inr)
  from part_app_insert_aliases[OF this assms(2)] show ?thesis
    using assms(2)
    by (auto simp: app_part_def lookup_row_append lookup_row_def[of _ _ "[_]"] app_new_row_def
        split: option.splits)
qed

lemma part_dev_create:
  assumes "dev_create fr d as db = Inr db'" and "dev_application d \<noteq> n"
  shows "app_part n db' = app_part n db"
proof -
  from assms(1) have "dev_insert_aliases (dev_application d) (dev_name d) as
      (db\<lparr>r_devices := r_devices db @ [dev_new_row fr d]\<rparr>) = Inr db'"
    by (simp add: dev_create_Inr)
  with part_dev_insert_aliases[OF this assms(2)] assms(2) show ?thesis
    by (simp add: app_part_def dev_new_row_def)
qed

lemma part_app_update_data:
  assumes "app_update_data fr a as db = Inr (k, db')" and "app_name a \<noteq> n"
  shows "app_part n db' = app_part n db"
  using assms
  by (auto simp: app_update_data_def Let_def result_simps part_simps
      split: option.splits dest!: part_app_insert_aliases[where n = n])

lemma part_dev_update:
  assumes "dev_update fr d as db = Inr (k, db')" and "dev_application d \<noteq> n"
  shows "app_part n db' = app_part n db"
  using assms
  by (auto simp: dev_update_def Let_def result_simps part_simps
      split: option.splits dest!: part_dev_insert_aliases[where n = n])

lemma part_deletes:
  "app_delete m db = Inr db' \<Longrightarrow> m \<noteq> n \<Longrightarrow> app_part n db' = app_part n db"
  "dev_delete m d db = Inr db' \<Longrightarrow> m \<noteq> n \<Longrightarrow> app_part n db' = app_part n db"
  "dev_delete_app m db = (k, db') \<Longrightarrow> m \<noteq> n \<Longrightarrow> app_part n db' = app_part n db"
  by (auto simp: app_delete_def dev_delete_def dev_delete_app_def Let_def app_part_def
      split: if_splits intro!: filter_delete_where lookup_delete_other)

lemma part_owner:
  "m \<noteq> n \<Longrightarrow> app_part n (snd (app_update_transfer m owner next_owner db)) = app_part n db"
  "m \<noteq> n \<Longrightarrow> app_part n (snd (app_set_members m l db)) = app_part n db"
  by (auto simp: app_update_transfer_def app_set_members_def part_simps)

lemma app_advance_name: "app_advance_from paths a c = Inr (r, a') \<Longrightarrow> app_name a' = app_name a"
  using app_advance_wf by blast

lemma dev_advance_names:
  "dev_advance_from paths d c = Inr (r, d') \<Longrightarrow>
     dev_application d' = dev_application d \<and> dev_name d' = dev_name d"
  by (auto simp: advance_from_def set_revision_def set_generation_def Let_def result_simps
      split: if_splits)

lemma part_perform_update_app:
  assumes "perform_update_app env fr i a as eu ev db = Inr (evs, db')" and "app_name a \<noteq> n"
  shows "app_part n db' = app_part n db"
  using assms(1)
proof (cases rule: perform_update_app_cases)
  case (gone cur)
  with part_deletes(1) assms(2) show ?thesis by blast
next
  case (written cur r new m)
  with part_app_update_data assms(2) app_advance_name show ?thesis by fastforce
qed simp

lemma part_check_clean_app:
  assumes "reg_inv db" and "check_clean_app env fr m db = Inr db'" and "m \<noteq> n"
  shows "app_part n db' = app_part n db"
proof (cases "app_get (env_collate env) m ForUpdate db")
  case (Some a)
  have "app_name a = m" using app_get_name[OF assms(1) Some] .
  with assms(2,3) Some part_perform_update_app show ?thesis
    by (fastforce simp: check_clean_app_def Let_def result_simps split: if_splits)
qed (use assms(2) in \<open>simp add: check_clean_app_def\<close>)

section \<open>No change without permission\<close>

fun request_app :: "request \<Rightarrow> string" where
  "request_app (CreateApp a) = pa_name a"
| "request_app (UpdateApp a) = pa_name a"
| "request_app (DeleteApp n pre) = n"
| "request_app (CreateDevice d) = pd_application d"
| "request_app (UpdateDevice d) = pd_application d"
| "request_app (DeleteDevice app d pre) = app"
| "request_app (Transfer app u) = app"
| "request_app (Cancel app) = app"
| "request_app (Accept app) = app"
| "request_app (SetMembers app ms) = app"

lemma app_get_lock: "reg_inv db \<Longrightarrow> app_get c n l db = app_get c' n l' db"
  by (simp add: app_get_eq reg_inv_defs)

lemma part_delete_app:
  assumes "delete_app_tx env fr i m pre db = Inr (evs, db')" and "reg_inv db" and "m \<noteq> n"
  shows "app_part n db' = app_part n db"
  using assms(1)
proof (cases rule: delete_app_tx_cases)
  case (hard c db1)
  then show ?thesis using part_deletes(1,3) assms(3) by metis
next
  case (soft c k db1 l m')
  have "app_name c = m" using app_get_name[OF assms(2) soft(1)] .
  with part_app_update_data[OF soft(7)] part_deletes(3)[OF soft(4)] assms(3) show ?thesis by simp
qed

lemma part_update_device:
  assumes "update_device_tx env fr i d db = Inr (evs, db')" and "reg_inv db" and "pd_application d \<noteq> n"
  shows "app_part n db' = app_part n db"
  using assms(1) refl refl
proof (cases rule: update_device_tx_cases)
  case (gone app cur db1)
  have "reg_inv db1" using reg_inv_dev_delete[OF assms(2) gone(6)] .
  from part_check_clean_app[OF this gone(7) assms(3)] part_deletes(2)[OF gone(6) assms(3)]
  show ?thesis by simp
next
  case (written app cur r new m)
  have "dev_application new = pd_application d" using dev_advance_names[OF written(5)] by simp
  with part_dev_update[OF written(6)] assms(3) show ?thesis by simp
qed simp

lemma part_create_device:
  assumes "create_device_tx env fr i d db = Inr (evs, db')" and "pd_application d \<noteq> n"
  shows "app_part n db' = app_part n db"
  using assms(1) refl refl
proof (rule create_device_tx_Inr)
  assume "dev_create fr ((fst (device_to_entity env d))\<lparr>dev_uid := fr_uid fr\<rparr>)
    (snd (device_to_entity env d)) db = Inr db'"
  from part_dev_create[OF this] assms(2) show ?thesis by simp
qed

lemma dev_get_app: "reg_inv db \<Longrightarrow> dev_get c app n l db = Some d \<Longrightarrow> dev_application d = app"
  by (auto simp: dev_get_eq reg_inv_defs dev_from_row_def dest: lookup_row_SomeD)

lemma part_delete_device:
  assumes "delete_device_tx env fr i app d pre db = Inr (evs, db')" and "reg_inv db" and "app \<noteq> n"
  shows "app_part n db' = app_part n db"
  using assms(1)
proof (cases rule: delete_device_tx_cases)
  case (hard c a)
  then show ?thesis using part_deletes(2) assms(3) by blast
next
  case (soft c a m)
  have "dev_application c = app" using dev_get_app[OF assms(2) soft(1)] .
  with part_dev_update[OF soft(6)] assms(3) show ?thesis by simp
qed

lemma part_admin:
  assumes "reg_inv db" and "m \<noteq> n"
  shows "transfer_tx env kc i m u db = Inr db' \<Longrightarrow> app_part n db' = app_part n db"
    and "cancel_tx env i m db = Inr db' \<Longrightarrow> app_part n db' = app_part n db"
    and "accept_tx env i m db = Inr db' \<Longrightarrow> app_part n db' = app_part n db"
    and "set_members_tx env kc i m ms db = Inr db' \<Longrightarrow> app_part n db' = app_part n db"
proof -
  have step: "app_part n db' = app_part n db"
    if "tx db = Inr db'" "tx = transfer_tx env kc i m u \<or> tx = cancel_tx env i m \<or> tx = accept_tx env i m
       \<or> tx = set_members_tx env kc i m ms" for tx
    using admin_tx_cases[OF that] part_owner[OF assms(2)] app_get_name[OF assms(1)] by auto
  show "transfer_tx env kc i m u db = Inr db' \<Longrightarrow> app_part n db' = app_part n db"
    "cancel_tx env i m db = Inr db' \<Longrightarrow> app_part n db' = app_part n db"
    "accept_tx env i m db = Inr db' \<Longrightarrow> app_part n db' = app_part n db"
    "set_members_tx env kc i m ms db = Inr db' \<Longrightarrow> app_part n db' = app_part n db"
    by (rule step, assumption, simp)+
qed

lemma request_frame:
  assumes "reg_inv db" and "request_tx env kc fr i req db = Inr (evs, db')" and "request_app req \<noteq> n"
  shows "app_part n db' = app_part n db"
proof (cases req)
  case (CreateApp a)
  with assms(2) obtain app as where e: "app_to_entity env a = Inr (app, as)"
    and c: "app_create fr (app\<lparr>app_uid := fr_uid fr, app_owner := user_id i\<rparr>) as db = Inr db'"
    by (auto simp: create_app_tx_def Let_def result_simps)
  from part_app_create[OF c] app_to_entity_fields(1)[OF e] assms(3) CreateApp show ?thesis by simp
next
  case (UpdateApp a)
  with assms(2) obtain app as where e: "app_to_entity env a = Inr (app, as)"
    and u: "perform_update_app env fr (Some i) app (Some as) (pa_uid a) (pa_resource_version a) db = Inr (evs, db')"
    by (auto simp: result_simps)
  from part_perform_update_app[OF u] app_to_entity_fields(1)[OF e] assms(3) UpdateApp show ?thesis by simp
qed (use assms part_delete_app part_create_device part_update_device part_delete_device
      part_admin[OF assms(1)] in \<open>auto simp: result_simps\<close>)

lemma perform_update_app_allowed:
  "perform_update_app env fr (Some i) a as eu ev db = Inr x \<Longrightarrow>
     \<exists>cur. app_get (env_collate env) (app_name a) ForUpdate db = Some cur
       \<and> authorize (app_resource cur) i PermWrite = Allow"
  by (cases x) (auto elim!: perform_update_app_cases)

lemma request_denied:
  assumes "reg_inv db" and "app_get c (request_app req) l db = Some a"
    and "authorize (app_resource a) i PermWrite = Deny"
    and "req \<in> {Accept (request_app req), Cancel (request_app req)} \<Longrightarrow> app_transfer_owner a \<noteq> user_id i"
  shows "\<exists>e. request_tx env kc fr i req db = Inl e"
proof (rule ccontr)
  assume "\<not> ?thesis"
  then obtain evs db' where ok: "request_tx env kc fr i req db = Inr (evs, db')"
    by (cases "request_tx env kc fr i req db") auto
  let ?get = "\<lambda>lck. app_get (env_collate env) (request_app req) lck db"
  have get: "?get lck = Some a" for lck using app_get_lock[OF assms(1)] assms(2) by metis
  have not: "authorize (app_resource a) i p \<noteq> Allow" if "PermWrite \<le> p" for p
    using authorize_weaker[OF _ that] assms(3) by force
  then have deny: "authorize (app_resource a) i PermWrite \<noteq> Allow"
    "authorize (app_resource a) i PermAdmin \<noteq> Allow" "authorize (app_resource a) i PermOwner \<noteq> Allow"
    by (simp_all add: less_eq_permission_def)
  have owner: "app_owner a \<noteq> user_id i" using deny(1) by (auto simp: authorize_may may_def app_resource_def)
  have exists: "request_app req \<in> ar_NAME ` set (r_applications db)"
    using assms(1,2) by (simp add: app_get_eq reg_inv_defs) (metis imageI lookup_row_SomeD)
  show False
  proof (cases req)
    case (CreateApp x)
    with ok exists show False
      by (auto simp: create_app_tx_def Let_def result_simps app_create_Inr dest!: app_to_entity_fields(1))
  next
    case (UpdateApp x)
    with ok get deny(1) show False
      by (auto simp: result_simps dest!: perform_update_app_allowed app_to_entity_fields(1))
  next
    case (DeleteApp n pre)
    with ok get deny(2) show False by (auto elim!: delete_app_tx_cases)
  next
    case (CreateDevice d)
    with ok get deny(1) show False by (auto elim!: create_device_tx_Inr)
  next
    case (UpdateDevice d)
    with ok get deny(1) show False by (auto elim!: update_device_tx_cases)
  next
    case (DeleteDevice app d pre)
    with ok get deny(1) show False by (auto elim!: delete_device_tx_cases)
  next
    case (Transfer app u)
    with ok get[of ForUpdate] deny(3) show False
      by (auto simp: transfer_tx_def result_simps split: if_splits)
  next
    case (Cancel app)
    with ok get[of ForUpdate] owner assms(4) show False by (auto simp: cancel_tx_def result_simps)
  next
    case (Accept app)
    with ok get[of ForUpdate] assms(4) show False by (auto simp: accept_tx_def result_simps)
  next
    case (SetMembers app ms)
    with ok get[of ForUpdate] deny(2) show False by (auto simp: set_members_tx_def result_simps)
  qed
qed

text \<open>
  C2. No change without permission: whatever create, update, delete, transfer or member
  request a user or an anonymous caller makes, an application that the caller may not write
  keeps its record, its aliases, its devices and their aliases as they are.  For the two
  requests that answer a transfer, accept and cancel, the same holds if the recorded
  transfer owner differs from the user id of the caller.  Both being absent does not count
  as different: an anonymous caller can accept, and so change, an application without a
  pending transfer (\<open>Admin.anonymous_accept_opens_app\<close>), and the property does not
  cover that case.
\<close>

theorem no_unauthorized_change:
  assumes "reg_inv (m_reg s)" and "app_get c n l (m_reg s) = Some a"
    and "authorize (app_resource a) i PermWrite = Deny"
    and "req \<in> {Accept n, Cancel n} \<longrightarrow> app_transfer_owner a \<noteq> user_id i"
  shows "app_part n (m_reg (snd (handle env kc fr i req s))) = app_part n (m_reg s)"
proof (cases "request_app req = n")
  case True
  with request_denied[OF assms(1) _ assms(3), of c req l env kc fr] assms(2,4)
  obtain e where "request_tx env kc fr i req (m_reg s) = Inl e" by auto
  then show ?thesis by (simp add: handle_transact transact_state)
next
  case False
  then show ?thesis
    using request_frame[OF assms(1) _ False, of env kc fr i]
    by (auto simp: handle_transact transact_state split: sum.splits)
qed

theorem no_unauthorized_change_witness:
  "app_part ''a'' (m_reg (snd (handle demo_env demo_keycloak demo_fresh Anonymous
      (DeleteApp ''a'' None) (demo_state (Some ''x''))))) = app_part ''a'' (m_reg (demo_state (Some ''x'')))"
  by (rule no_unauthorized_change[OF demo_reg_inv demo_get])
    (simp_all add: app_from_row_def demo_app_def authorize_def app_resource_def row_to_map_def)

end
