(* ===== verification/Registry_Lifecycle.thy ===== *)
theory Registry_Lifecycle
  imports Registry_Access
begin

text \<open>
  The life of a registry object: creation and read back, updates with their versions and
  their optimistic lock, updates that change nothing, and deletion with finalizers,
  including the collection of an application once its last device is gone.
\<close>

section \<open>Reading back what was written\<close>

definition dev_written :: "fresh \<Rightarrow> device \<Rightarrow> device \<Rightarrow> device" where
  "dev_written fr new old = new\<lparr>dev_uid := dev_uid old,
     dev_creation_timestamp := dev_creation_timestamp old, dev_resource_version := fr_resource_version fr\<rparr>"

definition app_written :: "fresh \<Rightarrow> application \<Rightarrow> application \<Rightarrow> application" where
  "app_written fr new old = old\<lparr>app_labels := app_labels new, app_annotations := app_annotations new,
     app_generation := app_generation new, app_revision := app_revision new,
     app_resource_version := fr_resource_version fr,
     app_deletion_timestamp := app_deletion_timestamp new, app_finalizers := app_finalizers new,
     app_data := app_data new\<rparr>"

lemma dev_get_after_update:
  assumes "reg_inv db" and "dev_wf new" and "dev_update fr new as db = Inr (m, db')"
    and "dev_get c (dev_application new) (dev_name new) l db = Some old"
  shows "dev_get c (dev_application new) (dev_name new) l db' = Some (dev_written fr new old)"
proof -
  let ?key = "(dev_name new, dev_application new)"
  have inv': "reg_inv db'" using reg_inv_dev_update[OF assms(1-3)] .
  from assms(1,4) obtain r where r: "lookup_row (\<lambda>r. (dr_NAME r, dr_APP r)) ?key (r_devices db) = Some r"
    and old: "old = dev_from_row r"
    by (auto simp: dev_get_eq reg_inv_defs)
  have "r_devices db' = update_where (\<lambda>r. dr_APP r = dev_application new \<and> dr_NAME r = dev_name new)
      (\<lambda>r. r\<lparr>dr_LABELS := Some (dev_labels new), dr_ANNOTATIONS := Some (dev_annotations new),
             dr_GENERATION := dev_generation new, dr_REVISION := dev_revision new,
             dr_RESOURCE_VERSION := fr_resource_version fr,
             dr_DELETION_TIMESTAMP := dev_deletion_timestamp new,
             dr_FINALIZERS := dev_finalizers new, dr_DATA := dev_data new\<rparr>) (r_devices db)"
    using assms(3)
    by (cases as) (auto simp: dev_update_def Let_def result_simps dest!: dev_insert_aliases_rows)
  then have "lookup_row (\<lambda>r. (dr_NAME r, dr_APP r)) ?key (r_devices db') =
      Some (r\<lparr>dr_LABELS := Some (dev_labels new), dr_ANNOTATIONS := Some (dev_annotations new),
             dr_GENERATION := dev_generation new, dr_REVISION := dev_revision new,
             dr_RESOURCE_VERSION := fr_resource_version fr,
             dr_DELETION_TIMESTAMP := dev_deletion_timestamp new,
             dr_FINALIZERS := dev_finalizers new, dr_DATA := dev_data new\<rparr>)"
    using lookup_row_SomeD[OF r] r by (simp add: lookup_update_where)
  then show ?thesis
    using inv' old lookup_row_SomeD[OF r]
    by (simp add: dev_get_eq reg_inv_defs dev_written_def dev_from_row_def row_to_map_def)
qed

lemma app_get_after_update:
  assumes "reg_inv db" and "app_wf new" and "app_update_data fr new as db = Inr (m, db')"
    and "app_get c (app_name new) l db = Some old"
  shows "app_get c (app_name new) l db' = Some (app_written fr new old)"
proof -
  have inv': "reg_inv db'" using reg_inv_app_update_data[OF assms(1-3)] .
  from assms(1,4) obtain r where r: "lookup_row ar_NAME (app_name new) (r_applications db) = Some r"
    and old: "old = app_from_row r"
    by (auto simp: app_get_eq reg_inv_defs)
  have "r_applications db' = update_where (\<lambda>r. ar_NAME r = app_name new)
      (\<lambda>r. r\<lparr>ar_LABELS := Some (app_labels new), ar_ANNOTATIONS := Some (app_annotations new),
             ar_GENERATION := app_generation new, ar_REVISION := app_revision new,
             ar_RESOURCE_VERSION := fr_resource_version fr,
             ar_DELETION_TIMESTAMP := app_deletion_timestamp new,
             ar_FINALIZERS := app_finalizers new, ar_DATA := app_data new\<rparr>) (r_applications db)"
    using assms(3)
    by (cases as) (auto simp: app_update_data_def Let_def result_simps dest!: app_insert_aliases_rows)
  then have "lookup_row ar_NAME (app_name new) (r_applications db') =
      Some (r\<lparr>ar_LABELS := Some (app_labels new), ar_ANNOTATIONS := Some (app_annotations new),
             ar_GENERATION := app_generation new, ar_REVISION := app_revision new,
             ar_RESOURCE_VERSION := fr_resource_version fr,
             ar_DELETION_TIMESTAMP := app_deletion_timestamp new,
             ar_FINALIZERS := app_finalizers new, ar_DATA := app_data new\<rparr>)"
    using lookup_row_SomeD[OF r] r by (simp add: lookup_update_where)
  then show ?thesis
    using inv' old by (simp add: app_get_eq reg_inv_defs app_written_def app_from_row_def row_to_map_def)
qed

section \<open>Versions\<close>

abbreviation spec_changed :: "string list \<Rightarrow> bool" where
  "spec_changed paths \<equiv> list_ex (\<lambda>path. starts_with path ''.spec'') paths"

text \<open>The paths look at labels, annotations, finalizers and data only.\<close>

lemma dev_paths_meta [simp]:
  "dev_paths c (d\<lparr>dev_generation := g\<rparr>) = dev_paths c d" "dev_paths c (d\<lparr>dev_revision := r\<rparr>) = dev_paths c d"
  "dev_paths c (d\<lparr>dev_uid := u\<rparr>) = dev_paths c d" "dev_paths c (d\<lparr>dev_resource_version := v\<rparr>) = dev_paths c d"
  "dev_paths c (d\<lparr>dev_creation_timestamp := t\<rparr>) = dev_paths c d"
  "dev_paths c (d\<lparr>dev_deletion_timestamp := t'\<rparr>) = dev_paths c d"
  by (simp_all add: diff_paths_def)

lemma app_paths_meta [simp]:
  "app_paths c (d\<lparr>app_generation := g\<rparr>) = app_paths c d" "app_paths c (d\<lparr>app_revision := r\<rparr>) = app_paths c d"
  "app_paths c (d\<lparr>app_deletion_timestamp := t'\<rparr>) = app_paths c d"
  by (simp_all add: diff_paths_def)

lemma dev_advance_fresh:
  assumes "dev_generation d = 0" and "dev_revision d = 0"
    and "dev_advance_from paths d cur = Inr (r, new)"
  shows "dev_revision cur \<noteq> -1 \<and> r = dev_revision cur + 1
     \<and> new = d\<lparr>dev_revision := r, dev_generation :=
           (if spec_changed paths then dev_generation cur + 1 else dev_generation cur)\<rparr>"
  using assms(3) unfolding dev_ver.advance_from_fresh[OF assms(1,2)]
  by (auto split: if_splits)

text \<open>
  C5. A device update that changes something is written with the next revision and a new
  resource version, and starts a new generation exactly if a path of the specification
  changed; the identity and the creation time stay.  Its events carry that identity, the
  new revision and the changed paths.
\<close>

theorem update_device_versions:
  assumes "reg_inv db" and "api_dev_wf d" and "update_device_tx env fr i d db = Inr (evs, db')"
    and "dev_get (env_collate env) (pd_application d) (pd_name d) ForUpdate db = Some cur"
    and "evs \<noteq> []"
  shows "\<exists>new paths. dev_get (env_collate env) (pd_application d) (pd_name d) ForUpdate db' = Some new
     \<and> evs = new_device (env_instance env) (pd_application d) (pd_name d)
               (env_uuid_str env (dev_uid cur)) (dev_revision new) paths
     \<and> paths = dev_paths cur new
     \<and> dev_revision cur < dev_revision new \<and> dev_revision new = dev_revision cur + 1
     \<and> dev_generation new = (if spec_changed paths then dev_generation cur + 1 else dev_generation cur)
     \<and> dev_resource_version new = fr_resource_version fr \<and> dev_uid new = dev_uid cur
     \<and> dev_creation_timestamp new = dev_creation_timestamp cur
     \<and> dev_data new = sections_value (pd_spec d) (pd_status d)"
  using assms(3) refl refl
proof (cases rule: update_device_tx_cases)
  case (written app cur' r new m)
  let ?dev = "(fst (device_to_entity env d))\<lparr>dev_deletion_timestamp := dev_deletion_timestamp cur\<rparr>"
  let ?paths = "dev_paths cur ?dev"
  have cur: "cur' = cur" using assms(4) written(3) by simp
  have adv: "dev_revision cur \<noteq> -1" "r = dev_revision cur + 1"
    "new = ?dev\<lparr>dev_revision := r, dev_generation :=
       (if spec_changed ?paths then dev_generation cur + 1 else dev_generation cur)\<rparr>"
    using dev_advance_fresh[OF _ _ written(5)] by (simp_all add: cur)
  have names: "dev_application new = pd_application d" "dev_name new = pd_name d" by (simp_all add: adv(3))
  have wf: "dev_wf new" using device_to_entity_wf[OF assms(2)] by (simp add: adv(3))
  have get: "dev_get (env_collate env) (pd_application d) (pd_name d) ForUpdate db' = Some (dev_written fr new cur)"
    using dev_get_after_update[OF assms(1) wf written(6)] assms(4) names by simp
  show ?thesis
    using get written(7) adv max_word_plus_one[of "dev_revision cur"]
    by (intro exI[of _ "dev_written fr new cur"] exI[of _ ?paths])
      (simp add: cur dev_written_def)
qed (use assms(5) in simp_all)

definition demo_dev :: "string list \<Rightarrow> timestamp option \<Rightarrow> dev_row" where
  "demo_dev fin del = \<lparr>dr_APP = ''a'', dr_NAME = ''d'', dr_UID = 11, dr_LABELS = Some [], dr_ANNOTATIONS = Some [],
     dr_CREATION_TIMESTAMP = 0, dr_GENERATION = 1, dr_REVISION = 3, dr_RESOURCE_VERSION = 13,
     dr_DELETION_TIMESTAMP = del, dr_FINALIZERS = fin, dr_DATA = sections_value [] []\<rparr>"

definition demo_reg :: "app_row \<Rightarrow> dev_row list \<Rightarrow> registry" where
  "demo_reg a ds = \<lparr>r_applications = [a], r_app_aliases = [], r_devices = ds, r_dev_aliases = []\<rparr>"

definition demo_api_dev :: "string list \<Rightarrow> json smap \<Rightarrow> string \<Rightarrow> api_device" where
  "demo_api_dev fin spec ver = \<lparr>pd_name = ''d'', pd_application = ''a'', pd_uid = [], pd_resource_version = ver,
     pd_labels = [], pd_annotations = [], pd_creation_timestamp = 0, pd_generation = 0,
     pd_deletion_timestamp = None, pd_finalizers = fin, pd_spec = spec, pd_status = []\<rparr>"

lemmas demo_defs = demo_dev_def demo_reg_def demo_api_dev_def demo_app_def demo_env_def demo_user_def
  demo_fresh_def

lemma demo_reg_inv_dev: "reg_inv (demo_reg (demo_app w) [demo_dev fin del])"
  by (simp add: demo_defs reg_inv_defs app_wf_from_row dev_wf_from_row sections_value_def)

lemma demo_dev_get:
  "dev_get c ''a'' ''d'' l (demo_reg (demo_app w) [demo_dev fin del]) = Some (dev_from_row (demo_dev fin del))"
  using demo_reg_inv_dev[of w fin del]
  by (simp add: dev_get_eq reg_inv_defs demo_defs lookup_row_def)

lemma demo_app_get:
  "app_get c ''a'' l (demo_reg (demo_app w) [demo_dev fin del]) = Some (app_from_row (demo_app w))"
  using demo_reg_inv_dev[of w fin del]
  by (simp add: app_get_eq reg_inv_defs demo_defs lookup_row_def)

theorem update_device_versions_witness:
  "\<exists>evs db' new. update_device_tx demo_env demo_fresh (demo_user ''x'') (demo_api_dev [] [(''k'', Null)] [])
       (demo_reg (demo_app (Some ''x'')) [demo_dev [] None]) = Inr (evs, db')
     \<and> dev_get (env_collate demo_env) ''a'' ''d'' ForUpdate db' = Some new
     \<and> dev_revision new = 4 \<and> dev_uid new = 11 \<and> dev_resource_version new = 2"
proof -
  let ?d = "demo_api_dev [] [(''k'', Null)] []" and ?db = "demo_reg (demo_app (Some ''x'')) [demo_dev [] None]"
  have wf: "api_dev_wf ?d" by (simp add: api_dev_wf_def demo_defs)
  have "(case update_device_tx demo_env demo_fresh (demo_user ''x'') ?d ?db of
      Inl _ \<Rightarrow> False | Inr (evs, db') \<Rightarrow> evs \<noteq> [])"
    by code_simp
  then obtain evs db' where tx: "update_device_tx demo_env demo_fresh (demo_user ''x'') ?d ?db = Inr (evs, db')"
    and evs: "evs \<noteq> []"
    by (auto split: sum.splits prod.splits)
  have get: "dev_get (env_collate demo_env) (pd_application ?d) (pd_name ?d) ForUpdate ?db =
      Some (dev_from_row (demo_dev [] None))"
    using demo_dev_get by (simp add: demo_api_dev_def)
  from update_device_versions[OF demo_reg_inv_dev wf tx get evs] tx show ?thesis
    by (auto simp: demo_api_dev_def dev_from_row_def demo_dev_def demo_fresh_def)
qed

text \<open>
  An application update that changes something behaves the same way: next revision,
  new resource version, a new generation exactly for a changed specification, and owner,
  members and a pending transfer untouched.
\<close>

theorem update_app_versions:
  assumes "reg_inv db" and "api_app_wf env a" and "request_tx env kc fr i (UpdateApp a) db = Inr (evs, db')"
    and "app_get (env_collate env) (pa_name a) ForUpdate db = Some cur" and "evs \<noteq> []"
  shows "\<exists>new. app_get (env_collate env) (pa_name a) ForUpdate db' = Some new
     \<and> app_revision cur < app_revision new \<and> app_revision new = app_revision cur + 1
     \<and> app_generation new =
         (if spec_changed (app_paths cur new) then app_generation cur + 1 else app_generation cur)
     \<and> app_resource_version new = fr_resource_version fr \<and> app_uid new = app_uid cur
     \<and> app_owner new = app_owner cur \<and> app_members new = app_members cur
     \<and> app_transfer_owner new = app_transfer_owner cur
     \<and> app_labels new = pa_labels a \<and> app_finalizers new = pa_finalizers a"
proof -
  from assms(3) obtain app as where e: "app_to_entity env a = Inr (app, as)"
    and u: "perform_update_app env fr (Some i) app (Some as) (pa_uid a) (pa_resource_version a) db = Inr (evs, db')"
    by (auto simp: result_simps)
  note fields = app_to_entity_fields[OF e]
  from u show ?thesis
  proof (cases rule: perform_update_app_cases)
    case (written cur' r new m)
    have cur: "cur' = cur" using assms(4) written(1) fields by simp
    have adv: "app_revision cur \<noteq> -1" "r = app_revision cur + 1"
      "new = app\<lparr>app_deletion_timestamp := app_deletion_timestamp cur, app_revision := r,
         app_generation := (if spec_changed (app_paths cur app) then app_generation cur + 1
                            else app_generation cur)\<rparr>"
      using written(6) unfolding cur
      by (subst (asm) app_ver.advance_from_fresh; auto simp: fields split: if_splits)+
    have wf: "app_wf new" using app_to_entity_wf[OF assms(2) e] by (simp add: adv(3))
    have "app_get (env_collate env) (pa_name a) ForUpdate db' = Some (app_written fr new cur)"
      using app_get_after_update[OF assms(1) wf written(7)] assms(4) fields by (simp add: adv(3))
    moreover have "app_paths cur (app_written fr new cur) = app_paths cur app"
      by (simp add: diff_paths_def app_written_def adv(3))
    ultimately show ?thesis
      using adv max_word_plus_one[of "app_revision cur"] fields by (simp add: app_written_def)
  qed (use assms(5) in simp_all)
qed

theorem update_app_versions_witness:
  "\<exists>evs db' new. request_tx demo_env demo_keycloak demo_fresh (demo_user ''x'') (UpdateApp demo_api_app)
       (demo_reg (demo_app (Some ''x'')) [demo_dev [] None]) = Inr (evs, db')
     \<and> app_get (env_collate demo_env) ''a'' ForUpdate db' = Some new
     \<and> app_revision new = 3 \<and> app_owner new = Some ''x''"
proof -
  let ?db = "demo_reg (demo_app (Some ''x'')) [demo_dev [] None]"
  have wf: "api_app_wf demo_env demo_api_app" by (simp add: api_app_wf_def demo_api_app_def demo_env_def)
  have "(case request_tx demo_env demo_keycloak demo_fresh (demo_user ''x'') (UpdateApp demo_api_app) ?db of
      Inl _ \<Rightarrow> False | Inr (evs, db') \<Rightarrow> evs \<noteq> [])"
    by code_simp
  then obtain evs db' where
    tx: "request_tx demo_env demo_keycloak demo_fresh (demo_user ''x'') (UpdateApp demo_api_app) ?db = Inr (evs, db')"
    and evs: "evs \<noteq> []"
    by (auto split: sum.splits prod.splits)
  have get: "app_get (env_collate demo_env) (pa_name demo_api_app) ForUpdate ?db =
      Some (app_from_row (demo_app (Some ''x'')))"
    using demo_app_get by (simp add: demo_api_app_def)
  from update_app_versions[OF demo_reg_inv_dev wf tx get evs] tx show ?thesis
    by (auto simp: demo_api_app_def app_from_row_def demo_app_def demo_fresh_def)
qed

text \<open>
  The optimistic lock: an update that names a resource version or an identity other
  than the current one is refused with a conflict and changes nothing.
\<close>

theorem stale_update_rejected:
  assumes "app_get (env_collate env) (pd_application d) LockNone (m_reg s) = Some app"
    and "authorize (app_resource app) i PermWrite = Allow"
    and "dev_get (env_collate env) (pd_application d) (pd_name d) ForUpdate (m_reg s) = Some cur"
    and "\<not> (expects env (pd_uid d) (dev_uid cur) \<and> expects env (pd_resource_version d) (dev_resource_version cur))"
  shows "\<exists>msg. update_device env fr i d s = (Inl (Service (Conflict msg)), s)"
proof -
  obtain dev as where e: "device_to_entity env d = (dev, as)" by fastforce
  have names: "dev_application dev = pd_application d" "dev_name dev = pd_name d"
    using device_to_entity_fields[of env d] e by simp_all
  have "\<exists>msg. check_versions env (pd_uid d) (pd_resource_version d) (dev_uid cur) (dev_resource_version cur) =
      Inl (Conflict msg)"
    using assms(4)
    by (auto simp: check_versions_def is_ok_and_equal_def expects_def split: option.splits)
  then show ?thesis
    using assms(1-3) by (auto simp: update_device_def transact_def update_device_tx_def e names Let_def ensure_with_def)
qed

theorem stale_update_rejected_witness:
  "\<exists>msg. update_device demo_env demo_fresh (demo_user ''x'') (demo_api_dev [] [(''k'', Null)] ''12'')
     \<lparr>m_reg = demo_reg (demo_app (Some ''x'')) [demo_dev [] None], m_outbox = [], m_sent = []\<rparr> =
   (Inl (Service (Conflict msg)), \<lparr>m_reg = demo_reg (demo_app (Some ''x'')) [demo_dev [] None], m_outbox = [], m_sent = []\<rparr>)"
proof (rule stale_update_rejected)
  show "\<not> (expects demo_env (pd_uid (demo_api_dev [] [(''k'', Null)] ''12'')) (dev_uid (dev_from_row (demo_dev [] None)))
      \<and> expects demo_env (pd_resource_version (demo_api_dev [] [(''k'', Null)] ''12''))
          (dev_resource_version (dev_from_row (demo_dev [] None))))"
    by (simp add: expects_def demo_api_dev_def demo_env_def demo_dev_def dev_from_row_def str_nat_def
        digit_of_def)
qed (simp_all add: demo_api_dev_def demo_app_get demo_dev_get, simp add: app_from_row_def demo_app_def
      authorize_def app_resource_def demo_user_def)

section \<open>Round trips\<close>

text \<open>
  Reading a device and writing it back unchanged, with its version, is accepted and
  changes nothing: no new revision, no event.
\<close>

theorem update_device_noop:
  assumes "reg_inv (m_reg s)"
    and "app_get (env_collate env) app LockNone (m_reg s) = Some a" and "authorize (app_resource a) i PermWrite = Allow"
    and "dev_get (env_collate env) app n ForUpdate (m_reg s) = Some cur"
    and "dev_data cur = sections_value spec status"
    and "dev_deletion_timestamp cur = None \<or> dev_finalizers cur \<noteq> []"
    and "\<And>u. env_parse_uuid env (env_uuid_str env u) = Some u"
  shows "update_device env fr i (device_to_api env cur) s = (Inr (), s)"
proof -
  let ?d = "device_to_api env cur"
  obtain dev as where e: "device_to_entity env ?d = (dev, as)" by fastforce
  have names: "dev_application cur = app" "dev_name cur = n"
    using assms(1,4) by (auto simp: dev_get_eq reg_inv_defs dev_from_row_def dest: lookup_row_SomeD)
  have dev: "dev_application dev = app" "dev_name dev = n" "dev_labels dev = dev_labels cur"
    "dev_annotations dev = dev_annotations cur" "dev_finalizers dev = dev_finalizers cur"
    "dev_data dev = dev_data cur"
    unfolding fst_conv[of dev as, symmetric, folded e] device_to_entity_fields
    by (simp_all add: device_to_api_def names assms(5))
  have "dev_paths cur dev = dev_paths cur cur" using dev by (simp add: diff_paths_def)
  also have "\<dots> = []" using dev_diff.no_paths_refl[OF dev_get_wf[OF assms(1,4)]] .
  finally have none: "dev_paths cur dev = []" .
  have "check_versions env (pd_uid ?d) (pd_resource_version ?d) (dev_uid cur) (dev_resource_version cur) =
      Inr \<lparr>con_uid = dev_uid cur, con_resource_version = dev_resource_version cur\<rparr>"
    using assms(7) by (simp add: check_versions_Inr expects_def device_to_api_def)
  with assms(2-4,6) none show ?thesis
    by (auto simp: update_device_def transact_def update_device_tx_def e dev Let_def ensure_with_def
        send_to_outbox_def)
qed

lemma demo_uuid_roundtrip: "env_parse_uuid demo_env (env_uuid_str demo_env u) = Some u"
  by (simp add: demo_env_def str_nat_def digits_val_nat_str)

theorem update_device_noop_witness:
  "update_device demo_env demo_fresh (demo_user ''x'') (device_to_api demo_env (dev_from_row (demo_dev [] None)))
     \<lparr>m_reg = demo_reg (demo_app (Some ''x'')) [demo_dev [] None], m_outbox = [], m_sent = []\<rparr> =
   (Inr (), \<lparr>m_reg = demo_reg (demo_app (Some ''x'')) [demo_dev [] None], m_outbox = [], m_sent = []\<rparr>)"
  by (rule update_device_noop[where app = "''a''" and n = "''d''" and spec = "[]" and status = "[]"
        and a = "app_from_row (demo_app (Some ''x''))"])
    (simp_all add: demo_reg_inv_dev demo_app_get demo_dev_get demo_uuid_roundtrip,
     simp_all add: app_from_row_def demo_app_def authorize_def app_resource_def demo_user_def
       dev_from_row_def demo_dev_def)

text \<open>
  What is created can be read: after a successful creation the creator gets the
  application with the name, labels, annotations, finalizers and specification that were
  sent, its new identity, generation zero and no deletion mark.
\<close>

theorem create_get_app:
  assumes "reg_inv (m_reg s)" and "api_app_wf env a" and "create_app env fr i a s = (res, s')"
    and "m_reg s' \<noteq> m_reg s"
  shows "\<exists>x. get_app env i (pa_name a) s' = Inr (Some x) \<and> pa_name x = pa_name a
     \<and> pa_labels x = pa_labels a \<and> pa_annotations x = pa_annotations a
     \<and> pa_finalizers x = pa_finalizers a \<and> pa_spec x = pa_spec a
     \<and> pa_uid x = env_uuid_str env (fr_uid fr) \<and> pa_generation x = 0 \<and> pa_deletion_timestamp x = None"
proof -
  have s': "s' = snd (transact env fr (create_app_tx env fr i a) s)"
    using assms(3) by (simp add: create_app_def)
  with assms(4) obtain evs where tx: "create_app_tx env fr i a (m_reg s) = Inr (evs, m_reg s')"
    by (auto simp: transact_state split: sum.splits)
  then obtain app as where e: "app_to_entity env a = Inr (app, as)"
    and c: "app_create fr (app\<lparr>app_uid := fr_uid fr, app_owner := user_id i\<rparr>) as (m_reg s) = Inr (m_reg s')"
    by (auto simp: create_app_tx_def Let_def result_simps)
  let ?app = "app\<lparr>app_uid := fr_uid fr, app_owner := user_id i\<rparr>"
  note fields = app_to_entity_fields[OF e]
  have inv': "reg_inv (m_reg s')" using create_app_tx_inv[OF assms(1,2) tx] .
  have "r_applications (m_reg s') = r_applications (m_reg s) @ [app_new_row fr ?app]"
    and fresh_name: "pa_name a \<notin> ar_NAME ` set (r_applications (m_reg s))"
    using c fields by (auto simp: app_create_Inr dest!: app_insert_aliases_rows)
  moreover have "lookup_row ar_NAME (pa_name a) (r_applications (m_reg s)) = None"
    using fresh_name by (simp add: lookup_row_None)
  ultimately have "lookup_row ar_NAME (pa_name a) (r_applications (m_reg s')) = Some (app_new_row fr ?app)"
    using fields by (simp add: lookup_row_append lookup_row_def[of _ _ "[_]"] app_new_row_def)
  then have get: "app_get (env_collate env) (pa_name a) LockNone (m_reg s') = Some (app_from_row (app_new_row fr ?app))"
    using inv' by (simp add: app_get_eq reg_inv_defs)
  have "authorize (app_resource (app_from_row (app_new_row fr ?app))) i PermRead = Allow"
    by (auto simp: authorize_may may_def app_resource_def app_from_row_def app_new_row_def)
  then show ?thesis
    using get fields
    by (simp add: get_app_def ensure_def ensure_with_def app_to_api_def app_from_row_def app_new_row_def
        row_to_map_def)
qed

theorem create_get_app_witness:
  "\<exists>x. get_app demo_env (demo_user ''x'') ''a'' (snd (create_app demo_env demo_fresh (demo_user ''x'') demo_api_app
       \<lparr>m_reg = \<lparr>r_applications = [], r_app_aliases = [], r_devices = [], r_dev_aliases = []\<rparr>,
        m_outbox = [], m_sent = []\<rparr>)) = Inr (Some x) \<and> pa_spec x = [(''x'', Number ''1'')]"
proof -
  let ?s = "\<lparr>m_reg = \<lparr>r_applications = [], r_app_aliases = [], r_devices = [], r_dev_aliases = []\<rparr>,
        m_outbox = [], m_sent = []\<rparr>"
  let ?r = "create_app demo_env demo_fresh (demo_user ''x'') demo_api_app ?s"
  have "r_applications (m_reg (snd ?r)) \<noteq> []" by code_simp
  then have "m_reg (snd ?r) \<noteq> m_reg ?s" by auto
  moreover have "reg_inv (m_reg ?s)" by (simp add: reg_inv_defs)
  moreover have "api_app_wf demo_env demo_api_app" by (simp add: api_app_wf_def demo_api_app_def demo_env_def)
  ultimately show ?thesis
    using create_get_app[of ?s demo_env demo_api_app demo_fresh "demo_user ''x''" "fst ?r" "snd ?r"]
    by (auto simp: demo_api_app_def)
qed

section \<open>Deletion\<close>

lemma app_part_gone:
  assumes "reg_inv db" and "lookup_row ar_NAME n (r_applications db) = None"
  shows "app_part n db = (None, [], [], [])"
proof -
  have no: "n \<notin> ar_NAME ` set (r_applications db)" using assms(2) by (simp add: lookup_row_None)
  have "aa_APP r \<noteq> n" if "r \<in> set (r_app_aliases db)" for r using assms(1) no that by (auto simp: reg_inv_defs)
  moreover have dev: "dr_APP r \<noteq> n" if "r \<in> set (r_devices db)" for r
    using assms(1) no that by (auto simp: reg_inv_defs)
  moreover have "da_APP r \<noteq> n" if r: "r \<in> set (r_dev_aliases db)" for r
  proof -
    from r assms(1) obtain d where "d \<in> set (r_devices db)" "dr_APP d = da_APP r"
      by (auto simp: reg_inv_defs)
    with dev show ?thesis by auto
  qed
  ultimately show ?thesis using assms(2) by (auto simp: app_part_def filter_empty_conv)
qed

lemma app_delete_lookup:
  "app_delete n db = Inr db' \<Longrightarrow> lookup_row ar_NAME n (r_applications db') = None"
  by (auto simp: app_delete_def lookup_row_None set_delete_where split: if_splits)

lemma dev_delete_app_rows:
  "dev_delete_app n db = (k, db') \<Longrightarrow> r_applications db' = r_applications db
     \<and> r_devices db' = delete_where (\<lambda>r. dr_APP r = n \<and> dr_FINALIZERS r = []) (r_devices db)
     \<and> k = length (filter (\<lambda>r. dr_APP r = n) (r_devices db'))"
  by (auto simp: dev_delete_app_def Let_def count_devices_def count_where_def)

text \<open>
  C6. Deleting an application removes its devices that have no finalizers.  If no device
  is left and the application has no finalizer itself, every trace of it is gone from the
  tables; otherwise it stays, marked as deleted, with the finalizer \<open>has-devices\<close> added if
  devices are left, and these are exactly the devices with finalizers, untouched.
\<close>

theorem delete_app_outcome:
  assumes "reg_inv db" and "delete_app_tx env fr i n pre db = Inr (evs, db')"
    and "app_get (env_collate env) n ForUpdate db = Some cur"
  shows "let left = filter (\<lambda>r. dr_APP r = n \<and> dr_FINALIZERS r \<noteq> []) (r_devices db) in
     if left = [] \<and> app_finalizers cur = [] then app_part n db' = (None, [], [], [])
     else filter (\<lambda>r. dr_APP r = n) (r_devices db') = left
       \<and> app_get (env_collate env) n ForUpdate db' = Some (cur\<lparr>
           app_finalizers := app_finalizers cur @ (if left = [] then [] else [''has-devices'']),
           app_deletion_timestamp := Some (fr_now fr), app_revision := app_revision cur + 1,
           app_resource_version := fr_resource_version fr\<rparr>)"
proof -
  let ?left = "filter (\<lambda>r. dr_APP r = n \<and> dr_FINALIZERS r \<noteq> []) (r_devices db)"
  have left: "filter (\<lambda>r. dr_APP r = n) (delete_where (\<lambda>r. dr_APP r = n \<and> dr_FINALIZERS r = []) (r_devices db)) = ?left"
    by (simp add: delete_where_def) (metis (mono_tags, lifting))
  from assms(2) show ?thesis
  proof (cases rule: delete_app_tx_cases)
    case (hard c db1)
    have "?left = []" using dev_delete_app_rows[OF hard(4)] left by (metis length_0_conv)
    moreover have "app_part n db' = (None, [], [], [])"
      using delete_app_tx_inv[OF assms(1,2)] app_delete_lookup[OF hard(6)] by (rule app_part_gone)
    ultimately show ?thesis using hard(1,5) assms(3) by (simp add: Let_def)
  next
    case (soft c k db1 l m)
    let ?c = "c\<lparr>app_revision := app_revision c + 1, app_deletion_timestamp := Some (fr_now fr),
      app_finalizers := l\<rparr>"
    have c: "c = cur" using soft(1) assms(3) by simp
    have inv1: "reg_inv db1" using reg_inv_dev_delete_app[OF assms(1) soft(4)] .
    note rows = dev_delete_app_rows[OF soft(4)]
    have k: "k > 0 \<longleftrightarrow> ?left \<noteq> []" using rows left by (metis length_greater_0_conv)
    have name: "app_name c = n" using app_get_name[OF assms(1) soft(1)] .
    have get1: "app_get (env_collate env) n ForUpdate db1 = Some c"
      using assms(1) inv1 soft(1) rows by (simp add: app_get_eq reg_inv_defs)
    have wf: "app_wf ?c" using app_get_wf[OF assms(1) soft(1)] by simp
    have "app_get (env_collate env) n ForUpdate db' = Some (app_written fr ?c c)"
      using app_get_after_update[OF inv1 wf soft(7)] get1 name by simp
    moreover have "r_devices db' = r_devices db1"
      using soft(7) by (auto simp: app_update_data_def Let_def result_simps)
    ultimately show ?thesis
      using soft(5,6) k rows left c by (auto simp: Let_def app_written_def)
  qed
qed

theorem delete_app_outcome_witness:
  "\<exists>evs db'. delete_app_tx demo_env demo_fresh (demo_user ''x'') ''a'' None
       (demo_reg (demo_app (Some ''x'')) [demo_dev [''f''] None]) = Inr (evs, db')
     \<and> map dr_NAME (filter (\<lambda>r. dr_APP r = ''a'') (r_devices db')) = [''d'']"
proof -
  let ?db = "demo_reg (demo_app (Some ''x'')) [demo_dev [''f''] None]"
  have "(case delete_app_tx demo_env demo_fresh (demo_user ''x'') ''a'' None ?db of Inl _ \<Rightarrow> False | Inr (evs, db') \<Rightarrow> True)"
    by code_simp
  then obtain evs db' where tx: "delete_app_tx demo_env demo_fresh (demo_user ''x'') ''a'' None ?db = Inr (evs, db')"
    by (auto split: sum.splits prod.splits)
  from delete_app_outcome[OF demo_reg_inv_dev tx demo_app_get] tx show ?thesis
    by (simp add: demo_reg_def demo_dev_def Let_def)
qed

lemma dev_delete_rows:
  "dev_delete app n db = Inr db' \<Longrightarrow> r_applications db' = r_applications db
     \<and> r_devices db' = delete_where (\<lambda>r. dr_APP r = app \<and> dr_NAME r = n) (r_devices db)"
  by (auto simp: dev_delete_def split: if_splits)

lemma check_clean_app_collects:
  assumes "reg_inv db" and "check_clean_app env fr n db = Inr db'"
    and "app_get (env_collate env) n ForUpdate db = Some a" and "app_deletion_timestamp a \<noteq> None"
    and "set (app_finalizers a) \<subseteq> {''has-devices''}" and "count_devices n db = 0"
  shows "app_part n db' = (None, [], [], [])"
proof -
  have name: "app_name a = n" using app_get_name[OF assms(1,3)] .
  have none: "filter (\<lambda>f. f \<noteq> ''has-devices'') (app_finalizers a) = []"
    using assms(5) by (auto simp: filter_empty_conv)
  have "app_delete n db = Inr db'"
    using assms(2-4,6) none name
    by (auto simp: check_clean_app_def Let_def result_simps perform_update_app_def)
  then show ?thesis
    using app_part_gone[OF check_clean_app_inv[OF assms(1,2)]] app_delete_lookup by blast
qed

text \<open>
  The last device of an application that waits for its devices takes the application
  with it: once an update removes the last finalizer of the only device, and nothing but
  \<open>has-devices\<close> holds the application, every trace of both is gone from the tables.
\<close>

theorem last_device_collects_app:
  assumes "reg_inv db" and "update_device_tx env fr i d db = Inr (evs, db')"
    and "dev_get (env_collate env) (pd_application d) (pd_name d) ForUpdate db = Some cur"
    and "dev_deletion_timestamp cur \<noteq> None" and "pd_finalizers d = []"
    and "app_get (env_collate env) (pd_application d) ForUpdate db = Some a"
    and "app_deletion_timestamp a \<noteq> None" and "set (app_finalizers a) \<subseteq> {''has-devices''}"
    and "\<forall>r \<in> set (r_devices db). dr_APP r = pd_application d \<longrightarrow> dr_NAME r = pd_name d"
  shows "app_part (pd_application d) db' = (None, [], [], [])"
proof -
  obtain dev as where e: "device_to_entity env d = (dev, as)" by fastforce
  have names: "dev_application dev = pd_application d" "dev_name dev = pd_name d" "dev_finalizers dev = []"
    using device_to_entity_fields[of env d] e assms(5) by simp_all
  from assms(2-4) obtain db1 where del: "dev_delete (pd_application d) (pd_name d) db = Inr db1"
    and clean: "check_clean_app env fr (pd_application d) db1 = Inr db'"
    by (auto simp: update_device_tx_def e names Let_def result_simps)
  note rows = dev_delete_rows[OF del]
  have inv1: "reg_inv db1" using reg_inv_dev_delete[OF assms(1) del] .
  have "app_get (env_collate env) (pd_application d) ForUpdate db1 = Some a"
    using assms(1,6) inv1 rows by (simp add: app_get_eq reg_inv_defs)
  moreover have "count_devices (pd_application d) db1 = 0"
    using assms(9) rows by (auto simp: count_devices_def count_where_0 set_delete_where)
  ultimately show ?thesis using check_clean_app_collects[OF inv1 clean] assms(7,8) by blast
qed

definition demo_app_deleted :: app_row where
  "demo_app_deleted = (demo_app (Some ''x''))\<lparr>ar_DELETION_TIMESTAMP := Some 5, ar_FINALIZERS := [''has-devices'']\<rparr>"

theorem last_device_collects_app_witness:
  "\<exists>evs db'. update_device_tx demo_env demo_fresh (demo_user ''x'') (demo_api_dev [] [] [])
       (demo_reg demo_app_deleted [demo_dev [''f''] (Some 5)]) = Inr (evs, db')
     \<and> app_part ''a'' db' = (None, [], [], [])"
proof -
  let ?db = "demo_reg demo_app_deleted [demo_dev [''f''] (Some 5)]" and ?d = "demo_api_dev [] [] []"
  have "(case update_device_tx demo_env demo_fresh (demo_user ''x'') ?d ?db of Inl _ \<Rightarrow> False | Inr (evs, db') \<Rightarrow> True)"
    by code_simp
  then obtain evs db' where tx: "update_device_tx demo_env demo_fresh (demo_user ''x'') ?d ?db = Inr (evs, db')"
    by (auto split: sum.splits prod.splits)
  have inv: "reg_inv ?db"
    by (simp add: demo_defs demo_app_deleted_def reg_inv_defs app_wf_from_row dev_wf_from_row sections_value_def)
  have ga: "app_get (env_collate demo_env) (pd_application ?d) ForUpdate ?db = Some (app_from_row demo_app_deleted)"
    using inv by (simp add: app_get_eq reg_inv_defs demo_defs demo_app_deleted_def lookup_row_def)
  have gd: "dev_get (env_collate demo_env) (pd_application ?d) (pd_name ?d) ForUpdate ?db =
      Some (dev_from_row (demo_dev [''f''] (Some 5)))"
    using inv by (simp add: dev_get_eq reg_inv_defs demo_defs demo_app_deleted_def lookup_row_def)
  have "app_part (pd_application ?d) db' = (None, [], [], [])"
    by (rule last_device_collects_app[OF inv tx gd _ _ ga])
      (simp_all add: demo_reg_def demo_dev_def demo_app_deleted_def demo_app_def app_from_row_def
        dev_from_row_def demo_api_dev_def)
  with tx show ?thesis by (auto simp: demo_api_dev_def)
qed

text \<open>
  Deleting a device directly never collects its application: the record of the
  application stays as it is, even if the application is marked as deleted and waited for
  this device only.
\<close>

theorem delete_device_keeps_app:
  assumes "delete_device_tx env fr i app n pre db = Inr (evs, db')"
  shows "r_applications db' = r_applications db"
  using assms
proof (cases rule: delete_device_tx_cases)
  case (hard c a)
  then show ?thesis using dev_delete_rows by blast
next
  case (soft c a m)
  then show ?thesis by (auto simp: dev_update_def Let_def result_simps)
qed

theorem delete_device_keeps_app_witness:
  "\<exists>evs db'. delete_device_tx demo_env demo_fresh (demo_user ''x'') ''a'' ''d'' None
       (demo_reg demo_app_deleted [demo_dev [] None]) = Inr (evs, db')
     \<and> r_devices db' = [] \<and> map ar_FINALIZERS (r_applications db') = [[''has-devices'']]"
proof -
  let ?db = "demo_reg demo_app_deleted [demo_dev [] None]"
  have "(case delete_device_tx demo_env demo_fresh (demo_user ''x'') ''a'' ''d'' None ?db of
      Inl _ \<Rightarrow> False | Inr (evs, db') \<Rightarrow> r_devices db' = [])"
    by code_simp
  then obtain evs db' where "delete_device_tx demo_env demo_fresh (demo_user ''x'') ''a'' ''d'' None ?db = Inr (evs, db')"
    and "r_devices db' = []"
    by (auto split: sum.splits prod.splits)
  with delete_device_keeps_app[OF this(1)] show ?thesis
    by (simp add: demo_reg_def demo_app_deleted_def)
qed

section \<open>Identities in events\<close>

text \<open>
  The events of an application update carry the nil UUID instead of the identity of
  the application.
\<close>

theorem update_app_event_uid:
  assumes "request_tx env kc fr i (UpdateApp a) db = Inr (evs, db')" and "e \<in> set evs"
  shows "ev_uid e = env_uuid_str env uuid_nil"
proof -
  from assms(1) obtain app as where e: "app_to_entity env a = Inr (app, as)"
    and u: "perform_update_app env fr (Some i) app (Some as) (pa_uid a) (pa_resource_version a) db = Inr (evs, db')"
    by (auto simp: result_simps)
  from u show ?thesis
  proof (cases rule: perform_update_app_cases)
    case (written cur r new m)
    have "app_uid new = uuid_nil"
      using written(6) app_to_entity_fields(7)[OF e]
      by (auto simp: advance_from_def set_revision_def set_generation_def Let_def result_simps split: if_splits)
    then show ?thesis using written(8) assms(2) by (auto simp: new_app_def new_change_def split: if_splits)
  qed (use assms(2) in simp_all)
qed

theorem update_app_event_uid_witness:
  "\<exists>evs db'. request_tx demo_env demo_keycloak demo_fresh (demo_user ''x'') (UpdateApp demo_api_app)
       (demo_reg (demo_app (Some ''x'')) []) = Inr (evs, db')
     \<and> ev_uid (hd evs) = ''0'' \<and> map ar_UID (r_applications db') = [7]"
proof -
  let ?db = "demo_reg (demo_app (Some ''x'')) []"
  have "(case request_tx demo_env demo_keycloak demo_fresh (demo_user ''x'') (UpdateApp demo_api_app) ?db of
      Inl _ \<Rightarrow> False | Inr (evs, db') \<Rightarrow> evs \<noteq> [] \<and> map ar_UID (r_applications db') = [7])"
    by code_simp
  then obtain evs db' where
    "request_tx demo_env demo_keycloak demo_fresh (demo_user ''x'') (UpdateApp demo_api_app) ?db = Inr (evs, db')"
    and "evs \<noteq> []" "map ar_UID (r_applications db') = [7]"
    by (auto split: sum.splits prod.splits)
  with update_app_event_uid[OF this(1), of "hd evs"] show ?thesis
    by (auto simp: demo_env_def uuid_nil_def digit_char_def)
qed

end
