(* ===== verification/Kafka_Names.thy ===== *)
theory Kafka_Names
  imports Drogue_Prelude
begin

text \<open>
  The names of Kafka resources (\<open>service-api/src/kafka/mod.rs\<close>): topics, users and passwords
  of an application.  The MD5 digest in hexadecimal is a parameter.  Names are sequences of
  ASCII characters.

  The pattern of simple names is a regular expression; \<open>is_match\<close> on an anchored pattern is
  modelled by derivatives, which are shown to decide the language of the expression.
\<close>

section \<open>Regular expressions\<close>

datatype rexp =
    Empty
  | Chars "char \<Rightarrow> bool"
  | Seq rexp rexp
  | Alt rexp rexp
  | Star rexp

abbreviation Maybe :: "rexp \<Rightarrow> rexp" where "Maybe r \<equiv> Alt r Empty"

abbreviation Nothing :: rexp where "Nothing \<equiv> Chars (\<lambda>_. False)"

fun nullable :: "rexp \<Rightarrow> bool" where
  "nullable Empty = True"
| "nullable (Chars P) = False"
| "nullable (Seq r s) = (nullable r \<and> nullable s)"
| "nullable (Alt r s) = (nullable r \<or> nullable s)"
| "nullable (Star r) = True"

fun deriv :: "char \<Rightarrow> rexp \<Rightarrow> rexp" where
  "deriv c Empty = Nothing"
| "deriv c (Chars P) = (if P c then Empty else Nothing)"
| "deriv c (Seq r s) = (if nullable r then Alt (Seq (deriv c r) s) (deriv c s) else Seq (deriv c r) s)"
| "deriv c (Alt r s) = Alt (deriv c r) (deriv c s)"
| "deriv c (Star r) = Seq (deriv c r) (Star r)"

definition is_match :: "rexp \<Rightarrow> string \<Rightarrow> bool" where
  "is_match r s = nullable (fold deriv s r)"

inductive in_lang :: "rexp \<Rightarrow> string \<Rightarrow> bool" where
  Empty: "in_lang Empty []"
| Chars: "P c \<Longrightarrow> in_lang (Chars P) [c]"
| Seq: "in_lang r u \<Longrightarrow> in_lang s v \<Longrightarrow> in_lang (Seq r s) (u @ v)"
| Left: "in_lang r u \<Longrightarrow> in_lang (Alt r s) u"
| Right: "in_lang s u \<Longrightarrow> in_lang (Alt r s) u"
| StarNil: "in_lang (Star r) []"
| StarCons: "in_lang r u \<Longrightarrow> in_lang (Star r) v \<Longrightarrow> in_lang (Star r) (u @ v)"

inductive_simps in_lang_Empty [simp]: "in_lang Empty u"
inductive_simps in_lang_Chars [simp]: "in_lang (Chars P) u"
inductive_simps in_lang_Seq: "in_lang (Seq r s) u"
inductive_simps in_lang_Alt [simp]: "in_lang (Alt r s) u"

lemma nullable_iff: "nullable r \<longleftrightarrow> in_lang r []"
  by (induction r) (auto simp: in_lang_Seq intro: in_lang.intros)

lemma star_cons:
  assumes "in_lang (Star r) (c # v)"
  shows "\<exists>v1 v2. v = v1 @ v2 \<and> in_lang r (c # v1) \<and> in_lang (Star r) v2"
  using assms
proof (induction "Star r" "c # v" arbitrary: c v rule: in_lang.induct)
  case (StarCons u w)
  then show ?case by (cases u) auto
qed

lemma deriv_iff: "in_lang (deriv c r) v \<longleftrightarrow> in_lang r (c # v)"
proof (induction r arbitrary: v)
  case (Seq r s)
  show ?case
  proof
    assume "in_lang (deriv c (Seq r s)) v"
    then consider v1 v2 where "v = v1 @ v2" "in_lang (deriv c r) v1" "in_lang s v2"
      | "nullable r" "in_lang (deriv c s) v"
      by (auto simp: in_lang_Seq split: if_splits)
    then show "in_lang (Seq r s) (c # v)"
    proof cases
      case 1
      then show ?thesis using Seq.IH in_lang.Seq[of r "c # v1" s v2] by simp
    next
      case 2
      then show ?thesis using Seq.IH in_lang.Seq[of r "[]" s "c # v"] by (simp add: nullable_iff)
    qed
  next
    assume "in_lang (Seq r s) (c # v)"
    then obtain u w where "c # v = u @ w" "in_lang r u" "in_lang s w" by (auto simp: in_lang_Seq)
    then show "in_lang (deriv c (Seq r s)) v"
      using Seq.IH by (cases u) (auto simp: nullable_iff in_lang_Seq)
  qed
next
  case (Star r)
  then show ?case
    using star_cons[of r c v] in_lang.StarCons[of r "c # _" _]
    by (fastforce simp: in_lang_Seq)
qed auto

lemma is_match_iff: "is_match r s \<longleftrightarrow> in_lang r s"
  unfolding is_match_def by (induction s arbitrary: r) (simp_all add: nullable_iff deriv_iff)

section \<open>Names\<close>

datatype resource_type = Events string | Commands string | Users string | Passwords string

datatype kafka_event_type = CommandsType | EventsType

fun resource_app_name :: "resource_type \<Rightarrow> string" where
  "resource_app_name (Commands app) = app"
| "resource_app_name (Events app) = app"
| "resource_app_name (Users app) = app"
| "resource_app_name (Passwords app) = app"

definition MAX_NAME_LEN :: nat where "MAX_NAME_LEN = 63"

definition in_range :: "char \<Rightarrow> char \<Rightarrow> char \<Rightarrow> bool" where
  "in_range a b c \<longleftrightarrow> (of_char a :: nat) \<le> of_char c \<and> (of_char c :: nat) \<le> of_char b"

definition alnum :: "char \<Rightarrow> bool" where
  "alnum c \<longleftrightarrow> in_range CHR ''a'' CHR ''z'' c \<or> in_range CHR ''0'' CHR ''9'' c"

definition alnum_dash :: "char \<Rightarrow> bool" where
  "alnum_dash c \<longleftrightarrow> c = CHR ''-'' \<or> alnum c"

text \<open>\<open>[a-z0-9]([-a-z0-9]*[a-z0-9])?\<close>\<close>

definition label_rexp :: rexp where
  "label_rexp = Seq (Chars alnum) (Maybe (Seq (Star (Chars alnum_dash)) (Chars alnum)))"

text \<open>
  The pattern is a raw string, so its two backslashes stand for a literal backslash, and the
  dot for any character but the newline.
\<close>

definition NAME_PATTERN :: rexp where
  "NAME_PATTERN = Seq label_rexp (Star (Seq (Chars (\<lambda>c. c = CHR 0x5C))
     (Seq (Chars (\<lambda>c. c \<noteq> CHR 0x0A)) label_rexp)))"

definition resource_name :: "(string \<Rightarrow> string) \<Rightarrow> string \<Rightarrow> string \<Rightarrow> string \<Rightarrow> string" where
  "resource_name md5 pfx hashed_prefix resource =
     (let name = pfx @ ''-'' @ resource in
      if length name < MAX_NAME_LEN \<and> is_match NAME_PATTERN resource then name
      else hashed_prefix @ ''-'' @ md5 resource @ ''-'' @ resource)"

definition to_lowercase :: "char \<Rightarrow> char" where
  "to_lowercase c = (if in_range CHR ''A'' CHR ''Z'' c then char_of (of_char c + (32 :: nat)) else c)"

definition clean_char :: "char \<Rightarrow> char" where
  "clean_char c = (if alnum_dash c then c else CHR ''-'')"

definition trim_end :: "char \<Rightarrow> string \<Rightarrow> string" where
  "trim_end c s = rev (dropWhile (\<lambda>x. x = c) (rev s))"

definition clean_name :: "string \<Rightarrow> string" where
  "clean_name name = trim_end CHR ''-'' (take MAX_NAME_LEN (map clean_char (map to_lowercase name)))"

fun make_kafka_resource_name :: "(string \<Rightarrow> string) \<Rightarrow> resource_type \<Rightarrow> string" where
  "make_kafka_resource_name md5 (Events app) = clean_name (resource_name md5 ''events'' ''evt'' app)"
| "make_kafka_resource_name md5 (Users app) = clean_name (resource_name md5 ''user'' ''usr'' app)"
| "make_kafka_resource_name md5 (Passwords app) = clean_name (resource_name md5 ''password'' ''pwd'' app)"
| "make_kafka_resource_name md5 (Commands _) = ''iot-commands''"

fun make_topic :: "(string \<Rightarrow> string) \<Rightarrow> kafka_event_type \<Rightarrow> string \<Rightarrow> string" where
  "make_topic md5 CommandsType name = make_kafka_resource_name md5 (Commands name)"
| "make_topic md5 EventsType name = make_kafka_resource_name md5 (Events name)"

section \<open>What the names look like\<close>

lemma alnum_dash_alnum [simp]: "alnum c \<Longrightarrow> alnum_dash c" "alnum_dash CHR ''-''"
  by (simp_all add: alnum_dash_def)

lemma alnum_not_dash [simp]: "\<not> alnum CHR ''-''"
  by (simp add: alnum_def in_range_def)

lemma to_lowercase_alnum_dash [simp]: "alnum_dash c \<Longrightarrow> to_lowercase c = c"
  by (auto simp: to_lowercase_def alnum_dash_def alnum_def in_range_def)

lemma clean_char_id [simp]: "alnum_dash c \<Longrightarrow> clean_char c = c"
  by (simp add: clean_char_def)

lemma clean_char_range [simp]: "alnum_dash (clean_char c)"
  by (simp add: clean_char_def)

lemma star_chars: "in_lang (Star (Chars P)) v \<Longrightarrow> \<forall>c \<in> set v. P c"
  by (induction "Star (Chars P)" v rule: in_lang.induct) auto

lemma in_lang_label:
  assumes "in_lang label_rexp s"
  shows "s \<noteq> [] \<and> alnum (hd s) \<and> alnum (last s) \<and> (\<forall>c \<in> set s. alnum_dash c)"
proof -
  obtain c v where s: "s = c # v" "alnum c"
    and v: "v = [] \<or> (\<exists>u d. v = u @ [d] \<and> in_lang (Star (Chars alnum_dash)) u \<and> alnum d)"
    using assms by (auto simp: label_rexp_def in_lang_Seq)
  show ?thesis
  proof (cases "v = []")
    case False
    then obtain u d where "v = u @ [d]" "in_lang (Star (Chars alnum_dash)) u" "alnum d" using v by blast
    then show ?thesis using s star_chars[of alnum_dash u] by auto
  qed (use s in simp)
qed

lemma star_first:
  assumes "in_lang (Star (Seq (Chars P) r)) v"
  shows "v = [] \<or> (\<exists>c \<in> set v. P c)"
  using assms by (cases v) (auto dest!: star_cons simp: in_lang_Seq)

lemma name_pattern_chars:
  assumes "is_match NAME_PATTERN s" and "CHR 0x5C \<notin> set s"
  shows "s \<noteq> [] \<and> alnum (last s) \<and> (\<forall>c \<in> set s. alnum_dash c)"
proof -
  obtain u v where "s = u @ v" "in_lang label_rexp u"
    "in_lang (Star (Seq (Chars (\<lambda>c. c = CHR 0x5C)) (Seq (Chars (\<lambda>c. c \<noteq> CHR 0x0A)) label_rexp))) v"
    using assms(1) by (auto simp: is_match_iff NAME_PATTERN_def in_lang_Seq[of label_rexp])
  moreover from this star_first have "v = []" using assms(2) by fastforce
  ultimately show ?thesis using in_lang_label[of u] by simp
qed

lemma trim_end_append:
  assumes "u \<noteq> []" and "last u \<noteq> c"
  shows "\<exists>rest. trim_end c (u @ v) = u @ rest"
proof (cases "\<forall>x \<in> set v. x = c")
  case True
  have "rev u \<noteq> [] \<and> hd (rev u) \<noteq> c" using assms by (simp add: hd_rev)
  then have "dropWhile (\<lambda>x. x = c) (rev u) = rev u" by (cases "rev u") auto
  with True show ?thesis by (simp add: trim_end_def dropWhile_append)
next
  case False
  then have "\<exists>x \<in> set (rev v). x \<noteq> c" by simp
  then show ?thesis by (auto simp: trim_end_def dropWhile_append1)
qed

lemma trim_end_id: "u = [] \<or> last u \<noteq> c \<Longrightarrow> trim_end c u = u"
  by (cases u rule: rev_cases) (auto simp: trim_end_def)

lemma clean_name_keeps:
  assumes "u \<noteq> []" and "alnum (last u)" and "\<forall>c \<in> set u. alnum_dash c" and "length u \<le> MAX_NAME_LEN"
  shows "\<exists>rest. clean_name (u @ v) = u @ rest"
proof -
  have "map clean_char (map to_lowercase u) = u" using assms(3) by (simp add: map_idI)
  then have "clean_name (u @ v) = trim_end CHR ''-'' (u @ take (MAX_NAME_LEN - length u)
      (map clean_char (map to_lowercase v)))"
    using assms(4) by (simp add: clean_name_def)
  moreover have "last u \<noteq> CHR ''-''" using assms(2) by (metis alnum_not_dash)
  ultimately show ?thesis using trim_end_append[OF assms(1)] by metis
qed

lemma clean_name_id:
  assumes "u \<noteq> []" and "alnum (last u)" and "\<forall>c \<in> set u. alnum_dash c" and "length u \<le> MAX_NAME_LEN"
  shows "clean_name u = u"
proof -
  have "map clean_char (map to_lowercase u) = u" using assms(3) by (simp add: map_idI)
  moreover have "last u \<noteq> CHR ''-''" using assms(2) by (metis alnum_not_dash)
  ultimately show ?thesis using assms(1,4) by (simp add: clean_name_def trim_end_id)
qed

text \<open>What the code relies on of the digest in hexadecimal.\<close>

definition hex_digest :: "(string \<Rightarrow> string) \<Rightarrow> bool" where
  "hex_digest md5 \<longleftrightarrow> (\<forall>x. length (md5 x) = 32 \<and> (\<forall>c \<in> set (md5 x). alnum c))"

lemma clean_resource_name:
  assumes "hex_digest md5" and "CHR 0x5C \<notin> set app"
    and "\<forall>c \<in> set (p @ hp). alnum c" and "length hp = 3"
  shows "clean_name (resource_name md5 p hp app) = p @ ''-'' @ app
     \<or> (\<exists>rest. clean_name (resource_name md5 p hp app) = hp @ ''-'' @ md5 app @ rest)"
proof (cases "length (p @ ''-'' @ app) < MAX_NAME_LEN \<and> is_match NAME_PATTERN app")
  case True
  then have "clean_name (p @ ''-'' @ app) = p @ ''-'' @ app"
    using name_pattern_chars[of app] assms(2,3) by (intro clean_name_id) auto
  with True show ?thesis by (simp add: resource_name_def Let_def)
next
  case False
  have md5: "length (md5 app) = 32" "\<forall>c \<in> set (md5 app). alnum c" using assms(1) by (auto simp: hex_digest_def)
  then have ne: "md5 app \<noteq> []" by auto
  have "\<exists>rest. clean_name ((hp @ ''-'' @ md5 app) @ ''-'' @ app) = (hp @ ''-'' @ md5 app) @ rest"
    using md5 ne assms(3,4) by (intro clean_name_keeps) (auto simp: MAX_NAME_LEN_def)
  with False show ?thesis by (auto simp: resource_name_def Let_def)
qed

fun name_prefixes :: "resource_type \<Rightarrow> string \<times> string" where
  "name_prefixes (Events _) = (''events-'', ''evt-'')"
| "name_prefixes (Users _) = (''user-'', ''usr-'')"
| "name_prefixes (Passwords _) = (''password-'', ''pwd-'')"
| "name_prefixes (Commands _) = (''iot-commands'', ''iot-commands'')"

lemma kafka_name_form:
  assumes "hex_digest md5" and "CHR 0x5C \<notin> set (resource_app_name t)" and "\<forall>a. t \<noteq> Commands a"
  shows "make_kafka_resource_name md5 t = fst (name_prefixes t) @ resource_app_name t
     \<or> (\<exists>rest. make_kafka_resource_name md5 t = snd (name_prefixes t) @ md5 (resource_app_name t) @ rest)"
proof -
  have chars: "\<forall>c \<in> set (''events'' @ ''evt''). alnum c" "\<forall>c \<in> set (''user'' @ ''usr''). alnum c"
    "\<forall>c \<in> set (''password'' @ ''pwd''). alnum c"
    by (simp_all add: alnum_def in_range_def)
  show ?thesis
  proof (cases t)
    case (Events a)
    then show ?thesis using clean_resource_name[OF assms(1) _ chars(1), of a] assms(2) by simp
  next
    case (Users a)
    then show ?thesis using clean_resource_name[OF assms(1) _ chars(2), of a] assms(2) by simp
  next
    case (Passwords a)
    then show ?thesis using clean_resource_name[OF assms(1) _ chars(3), of a] assms(2) by simp
  qed (use assms(3) in simp)
qed

lemma name_prefixes_disjoint:
  "\<forall>a. t \<noteq> Commands a \<Longrightarrow> \<forall>a. t' \<noteq> Commands a \<Longrightarrow>
     snd (name_prefixes t) @ x = fst (name_prefixes t') @ y \<longleftrightarrow> False"
  "\<forall>a. t \<noteq> Commands a \<Longrightarrow> \<forall>a. t' \<noteq> Commands a \<Longrightarrow>
     fst (name_prefixes t) @ x = snd (name_prefixes t') @ y \<longleftrightarrow> False"
  "\<forall>a. t \<noteq> Commands a \<Longrightarrow> \<forall>a. t' \<noteq> Commands a \<Longrightarrow>
     fst (name_prefixes t) @ x = fst (name_prefixes t') @ y \<longleftrightarrow> name_prefixes t = name_prefixes t' \<and> x = y"
  "\<forall>a. t \<noteq> Commands a \<Longrightarrow> \<forall>a. t' \<noteq> Commands a \<Longrightarrow>
     snd (name_prefixes t) @ x = snd (name_prefixes t') @ y \<longleftrightarrow> name_prefixes t = name_prefixes t' \<and> x = y"
  by (cases t; cases t'; simp)+

lemma name_prefixes_inj:
  "\<forall>a. t \<noteq> Commands a \<Longrightarrow> name_prefixes t = name_prefixes t' \<Longrightarrow> resource_app_name t = resource_app_name t' \<Longrightarrow> t = t'"
  by (cases t; cases t'; simp)

lemma commands_name:
  "\<forall>a. t \<noteq> Commands a \<Longrightarrow> fst (name_prefixes t) @ x \<noteq> ''iot-commands'' \<and> snd (name_prefixes t) @ x \<noteq> ''iot-commands''"
  by (cases t) simp_all

section \<open>Properties\<close>

text \<open>
  Kafka resources of different applications never share a name, and neither do topics,
  users and passwords, or any of them with the topic of the commands: for application names
  without a backslash, which the REST endpoint ensures, two resources with the same name are
  the same, unless the digests of two different application names collide.
\<close>

theorem kafka_names_distinct:
  assumes "hex_digest md5" and "CHR 0x5C \<notin> set (resource_app_name t)" and "CHR 0x5C \<notin> set (resource_app_name t')"
    and "md5 (resource_app_name t) = md5 (resource_app_name t') \<longrightarrow> resource_app_name t = resource_app_name t'"
    and "make_kafka_resource_name md5 t = make_kafka_resource_name md5 t'"
  shows "t = t' \<or> (\<exists>a b. t = Commands a \<and> t' = Commands b)"
proof -
  have cmd: False if "\<forall>a. u \<noteq> Commands a" "CHR 0x5C \<notin> set (resource_app_name u)"
    "make_kafka_resource_name md5 u = ''iot-commands''" for u
    using kafka_name_form[OF assms(1) that(2,1)] unfolding that(3) using commands_name[OF that(1)] by metis
  show ?thesis
  proof (cases "(\<exists>a. t = Commands a) \<or> (\<exists>a. t' = Commands a)")
    case True
    then show ?thesis using cmd[of t] cmd[of t'] assms(2,3,5) by (metis make_kafka_resource_name.simps(4))
  next
    case False
    then have nc: "\<forall>a. t \<noteq> Commands a" "\<forall>a. t' \<noteq> Commands a" by auto
    have len: "length (md5 x) = length (md5 y)" for x y using assms(1) by (simp add: hex_digest_def)
    have "name_prefixes t = name_prefixes t' \<and> resource_app_name t = resource_app_name t'"
      using kafka_name_form[OF assms(1,2) nc(1)] kafka_name_form[OF assms(1,3) nc(2)] assms(4,5)
        len by (elim disjE exE) (auto simp: name_prefixes_disjoint[OF nc])
    then show ?thesis using name_prefixes_inj[OF nc(1)] by blast
  qed
qed

definition demo_md5 :: "string \<Rightarrow> string" where
  "demo_md5 s = (if length s < 32 then map (\<lambda>c. if alnum c then c else CHR ''0'') s
     @ replicate (32 - length s) CHR ''0'' else replicate 32 CHR ''f'')"

theorem kafka_names_distinct_witness:
  "make_kafka_resource_name demo_md5 (Events ''foo'') \<noteq> make_kafka_resource_name demo_md5 (Events ''FOO'')"
proof
  assume eq: "make_kafka_resource_name demo_md5 (Events ''foo'') = make_kafka_resource_name demo_md5 (Events ''FOO'')"
  have "hex_digest demo_md5"
    by (auto simp: hex_digest_def demo_md5_def alnum_def in_range_def)
  moreover have "demo_md5 ''foo'' \<noteq> demo_md5 ''FOO''" by code_simp
  ultimately show False using kafka_names_distinct[of demo_md5 "Events ''foo''" "Events ''FOO''"] eq by simp
qed

text \<open>
  C38. Every resource name is accepted by Kubernetes and Kafka: it has at most 63 characters, all of
  them lower case letters, digits and dashes, and it neither starts nor ends with a dash.
\<close>

theorem kafka_names_valid:
  "let name = make_kafka_resource_name md5 t in
     length name \<le> 63 \<and> set name \<subseteq> Collect alnum_dash \<and> name \<noteq> [] \<and> alnum (hd name) \<and> alnum (last name)"
proof -
  have trim: "length (trim_end c u) \<le> length u \<and> set (trim_end c u) \<subseteq> set u" for c u
    using length_dropWhile_le[of "\<lambda>x. x = c" "rev u"] by (auto simp: trim_end_def dest: set_dropWhileD)
  have last: "trim_end c u \<noteq> [] \<Longrightarrow> last (trim_end c u) \<noteq> c" for c u
    using hd_dropWhile[of "\<lambda>x. x = c" "rev u"] by (simp add: trim_end_def last_rev)
  have clean: "length (clean_name n) \<le> 63 \<and> set (clean_name n) \<subseteq> Collect alnum_dash \<and> clean_name n \<noteq> []
      \<and> alnum (hd (clean_name n)) \<and> alnum (last (clean_name n))" if "n = c # m" "alnum c" for n c m
  proof -
    let ?u = "take MAX_NAME_LEN (map clean_char (map to_lowercase n))"
    have u: "set ?u \<subseteq> Collect alnum_dash" "length ?u \<le> 63"
      by (auto simp: MAX_NAME_LEN_def dest!: in_set_takeD)
    have "\<exists>rest. clean_name n = c # rest"
      using clean_name_keeps[of "[c]" m] that(2) unfolding that(1) by (auto simp: MAX_NAME_LEN_def)
    then obtain rest where "clean_name n = c # rest" by blast
    moreover have "last (clean_name n) \<noteq> CHR ''-''"
      using calculation last[of "CHR ''-''" ?u] by (simp add: clean_name_def)
    moreover have "set (clean_name n) \<subseteq> Collect alnum_dash" "length (clean_name n) \<le> 63"
      using trim[of "CHR ''-''" ?u] u unfolding clean_name_def by (blast, linarith)
    ultimately show ?thesis
      using that(2) by (auto simp: alnum_dash_def dest: last_in_set)
  qed
  have res: "let name = clean_name (resource_name md5 p hp app) in
      length name \<le> 63 \<and> set name \<subseteq> Collect alnum_dash \<and> name \<noteq> [] \<and> alnum (hd name) \<and> alnum (last name)"
    if "p = c # p'" "hp = d # hp'" "alnum c" "alnum d" for p hp c d p' hp' app
  proof -
    have "\<exists>c m. resource_name md5 p hp app = c # m \<and> alnum c"
      using that by (auto simp: resource_name_def Let_def)
    then show ?thesis using clean unfolding Let_def by blast
  qed
  have "alnum CHR ''e''" "alnum CHR ''u''" "alnum CHR ''p''" "alnum CHR ''i''" "alnum CHR ''s''"
    by (simp_all add: alnum_def in_range_def)
  then show ?thesis
  proof (cases t)
    case (Commands a)
    then show ?thesis by (simp add: alnum_dash_def alnum_def in_range_def)
  qed (auto simp only: make_kafka_resource_name.simps intro!: res)
qed

end
