(* ===== verification/Label_Selector.thy ===== *)
theory Label_Selector
  imports Sql_Select Kafka_Names
begin

text \<open>
  The text of a label selector (\<open>service-api/src/labels/parser.rs\<close>).  The parser is written
  with the combinators of a library: character classes, alternatives and lists of this
  library are parameters, with their documented behaviour as hypothesis; sequences are
  written out.
\<close>

section \<open>Parsers\<close>

text \<open>A parser returns an error, or the rest of the input and a value.\<close>

type_synonym 'a parser = "string \<Rightarrow> string + string \<times> 'a"

record nom =
  nm_tag :: "string \<Rightarrow> string parser"
  nm_space0 :: "string parser"
  nm_space1 :: "string parser"
  nm_alpha1 :: "string parser"
  nm_alphanumeric1 :: "string parser"
  nm_many_satisfy :: "(char \<Rightarrow> bool) \<Rightarrow> string parser"
  nm_is_alphanum :: "char \<Rightarrow> bool"
  nm_alt :: "operation parser list \<Rightarrow> operation parser"
  nm_list_ops :: "string parser \<Rightarrow> operation parser \<Rightarrow> operation list parser"
  nm_list_values :: "string parser \<Rightarrow> string parser \<Rightarrow> string list parser"

definition then_parse :: "'a parser \<Rightarrow> ('a \<Rightarrow> 'b parser) \<Rightarrow> 'b parser" where
  "then_parse p f input = rbind (p input) (\<lambda>(rest, a). f a rest)"

definition give :: "'a \<Rightarrow> 'a parser" where
  "give a input = Inr (input, a)"

definition optional :: "'a parser \<Rightarrow> 'a option parser" where
  "optional p input = (case p input of Inr (rest, a) \<Rightarrow> Inr (rest, Some a) | Inl _ \<Rightarrow> Inr (input, None))"

definition recognize :: "'a parser \<Rightarrow> string parser" where
  "recognize p input = rbind (p input) (\<lambda>(rest, _). Inr (rest, take (length input - length rest) input))"

section \<open>Labels and values\<close>

definition prefix_char :: "nom \<Rightarrow> char \<Rightarrow> bool" where
  "prefix_char nm c \<longleftrightarrow> nm_is_alphanum nm c \<or> c = CHR ''.''"

definition value_char :: "nom \<Rightarrow> char \<Rightarrow> bool" where
  "value_char nm c \<longleftrightarrow> nm_is_alphanum nm c \<or> c = CHR ''_'' \<or> c = CHR ''-'' \<or> c = CHR ''.''"

definition parse_raw_value :: "nom \<Rightarrow> string parser" where
  "parse_raw_value nm = recognize (then_parse (nm_alphanumeric1 nm) (\<lambda>_. nm_many_satisfy nm (value_char nm)))"

definition parse_value :: "nom \<Rightarrow> string parser" where
  "parse_value nm =
     then_parse (nm_space0 nm) (\<lambda>_. then_parse (parse_raw_value nm) (\<lambda>result. then_parse (nm_space0 nm) (\<lambda>_. give result)))"

definition parse_label :: "nom \<Rightarrow> string parser" where
  "parse_label nm =
     then_parse (nm_space0 nm) (\<lambda>_. recognize (
       then_parse (optional (then_parse (then_parse (nm_alpha1 nm) (\<lambda>_. nm_many_satisfy nm (prefix_char nm))) (\<lambda>_. nm_tag nm ''/''))) (\<lambda>_.
         parse_raw_value nm)))"

section \<open>Operations\<close>

definition parse_not_in :: "nom \<Rightarrow> operation parser" where
  "parse_not_in nm =
     then_parse (parse_label nm) (\<lambda>label. then_parse (nm_space1 nm) (\<lambda>_. then_parse (nm_tag nm ''notin'') (\<lambda>_.
     then_parse (nm_space0 nm) (\<lambda>_. then_parse (nm_tag nm ''('') (\<lambda>_. then_parse (nm_list_values nm (nm_tag nm '','') (parse_value nm)) (\<lambda>value.
     then_parse (nm_tag nm '')'') (\<lambda>_. give (NotIn label value))))))))"

definition parse_in :: "nom \<Rightarrow> operation parser" where
  "parse_in nm =
     then_parse (parse_label nm) (\<lambda>label. then_parse (nm_space1 nm) (\<lambda>_. then_parse (nm_tag nm ''in'') (\<lambda>_.
     then_parse (nm_space0 nm) (\<lambda>_. then_parse (nm_tag nm ''('') (\<lambda>_. then_parse (nm_list_values nm (nm_tag nm '','') (parse_value nm)) (\<lambda>value.
     then_parse (nm_tag nm '')'') (\<lambda>_. give (In label value))))))))"

definition parse_not_equals :: "nom \<Rightarrow> operation parser" where
  "parse_not_equals nm =
     then_parse (parse_label nm) (\<lambda>label. then_parse (nm_space0 nm) (\<lambda>_. then_parse (nm_tag nm ''!='') (\<lambda>_.
     then_parse (parse_value nm) (\<lambda>value. give (NotEq label value)))))"

definition parse_equals :: "nom \<Rightarrow> operation parser" where
  "parse_equals nm =
     then_parse (parse_label nm) (\<lambda>label. then_parse (nm_space0 nm) (\<lambda>_. then_parse (nm_tag nm ''='') (\<lambda>_.
     then_parse (parse_value nm) (\<lambda>value. give (Eq label value)))))"

definition parse_not_exists :: "nom \<Rightarrow> operation parser" where
  "parse_not_exists nm = then_parse (nm_tag nm ''!'') (\<lambda>_. then_parse (parse_label nm) (\<lambda>label. give (NotExists label)))"

definition parse_exists :: "nom \<Rightarrow> operation parser" where
  "parse_exists nm = then_parse (parse_label nm) (\<lambda>label. give (Exists label))"

definition parse_one :: "nom \<Rightarrow> operation parser" where
  "parse_one nm = nm_alt nm [parse_in nm, parse_not_in nm, parse_equals nm, parse_not_equals nm, parse_exists nm, parse_not_exists nm]"

definition parse_ops :: "nom \<Rightarrow> operation list parser" where
  "parse_ops nm = nm_list_ops nm (nm_tag nm '','') (parse_one nm)"

definition parse_from :: "nom \<Rightarrow> string \<Rightarrow> string + operation list" where
  "parse_from nm text =
     rbind (parse_ops nm text) (\<lambda>(remain, ops).
       if remain \<noteq> [] then Inl (''Unparsable remaining content: '' @ quoted remain) else Inr ops)"

definition parser_error_text :: "string \<Rightarrow> string" where
  "parser_error_text details = ''ParserError: '' @ details"

section \<open>The library\<close>

definition blank :: "char \<Rightarrow> bool" where "blank c \<longleftrightarrow> c = CHR '' '' \<or> c = CHR 0x09"

definition letter :: "char \<Rightarrow> bool" where
  "letter c \<longleftrightarrow> in_range CHR ''a'' CHR ''z'' c \<or> in_range CHR ''A'' CHR ''Z'' c"

definition letter_or_digit :: "char \<Rightarrow> bool" where
  "letter_or_digit c \<longleftrightarrow> letter c \<or> in_range CHR ''0'' CHR ''9'' c"

text \<open>A parser of one or more characters of a class, and lists with separators.\<close>

definition spans1 :: "(char \<Rightarrow> bool) \<Rightarrow> string parser \<Rightarrow> bool" where
  "spans1 C p \<longleftrightarrow> (\<forall>i. (takeWhile C i = [] \<longrightarrow> (\<exists>e. p i = Inl e)) \<and> (takeWhile C i \<noteq> [] \<longrightarrow> p i = Inr (dropWhile C i, takeWhile C i)))"

definition list_law :: "(string parser \<Rightarrow> 'a parser \<Rightarrow> 'a list parser) \<Rightarrow> bool" where
  "list_law f \<longleftrightarrow> (\<forall>sep p i.
     (\<forall>e. p i = Inl e \<longrightarrow> f sep p i = Inr (i, []))
   \<and> (\<forall>r a e. p i = Inr (r, a) \<longrightarrow> sep r = Inl e \<longrightarrow> f sep p i = Inr (r, [a]))
   \<and> (\<forall>r a r1 s e. p i = Inr (r, a) \<longrightarrow> sep r = Inr (r1, s) \<longrightarrow> p r1 = Inl e \<longrightarrow> f sep p i = Inr (r, [a]))
   \<and> (\<forall>r a r1 s r2 b. p i = Inr (r, a) \<longrightarrow> sep r = Inr (r1, s) \<longrightarrow> p r1 = Inr (r2, b) \<longrightarrow> length r1 < length i
        \<longrightarrow> f sep p i = rbind (f sep p r1) (\<lambda>(r', as). Inr (r', a # as))))"

definition nom_works :: "nom \<Rightarrow> bool" where
  "nom_works nm \<longleftrightarrow>
     (\<forall>t i. (prefix t i \<longrightarrow> nm_tag nm t i = Inr (drop (length t) i, t)) \<and> (\<not> prefix t i \<longrightarrow> (\<exists>e. nm_tag nm t i = Inl e)))
     \<and> (\<forall>i. nm_space0 nm i = Inr (dropWhile blank i, takeWhile blank i))
     \<and> spans1 blank (nm_space1 nm) \<and> spans1 letter (nm_alpha1 nm) \<and> spans1 letter_or_digit (nm_alphanumeric1 nm)
     \<and> (\<forall>C i. nm_many_satisfy nm C i = Inr (dropWhile C i, takeWhile C i)) \<and> nm_is_alphanum nm = letter_or_digit
     \<and> (\<forall>p ps i. nm_alt nm (p # ps) i = (case p i of Inr x \<Rightarrow> Inr x | Inl e \<Rightarrow> if ps = [] then Inl e else nm_alt nm ps i))
     \<and> list_law (nm_list_ops nm) \<and> list_law (nm_list_values nm)"

section \<open>The texts of operations\<close>

definition value_ok :: "string \<Rightarrow> bool" where
  "value_ok v \<longleftrightarrow> v \<noteq> [] \<and> letter_or_digit (hd v) \<and> (\<forall>c \<in> set v. letter_or_digit c \<or> c \<in> {CHR ''_'', CHR ''-'', CHR ''.''})"

definition prefix_ok :: "string \<Rightarrow> bool" where
  "prefix_ok p \<longleftrightarrow> p \<noteq> [] \<and> letter (hd p) \<and> (\<forall>c \<in> set p. letter_or_digit c \<or> c = CHR ''.'')"

definition label_ok :: "string \<Rightarrow> bool" where
  "label_ok l \<longleftrightarrow> value_ok l \<or> (\<exists>p v. l = p @ ''/'' @ v \<and> prefix_ok p \<and> value_ok v)"

fun render_op :: "operation \<Rightarrow> string" where
  "render_op (Eq l v) = l @ ''='' @ v"
| "render_op (NotEq l v) = l @ ''!='' @ v"
| "render_op (In l vs) = l @ '' in ('' @ join '','' vs @ '')''"
| "render_op (NotIn l vs) = l @ '' notin ('' @ join '','' vs @ '')''"
| "render_op (Exists l) = l"
| "render_op (NotExists l) = ''!'' @ l"

fun op_ok :: "operation \<Rightarrow> bool" where
  "op_ok (Eq l v) \<longleftrightarrow> label_ok l \<and> value_ok v"
| "op_ok (NotEq l v) \<longleftrightarrow> label_ok l \<and> value_ok v"
| "op_ok (In l vs) \<longleftrightarrow> label_ok l \<and> (\<forall>v \<in> set vs. value_ok v)"
| "op_ok (NotIn l vs) \<longleftrightarrow> label_ok l \<and> (\<forall>v \<in> set vs. value_ok v)"
| "op_ok (Exists l) \<longleftrightarrow> label_ok l"
| "op_ok (NotExists l) \<longleftrightarrow> label_ok l"

section \<open>Parsing a text\<close>

definition fails :: "'a parser \<Rightarrow> string \<Rightarrow> bool" where
  "fails p i \<longleftrightarrow> (\<exists>e. p i = Inl e)"

lemma then_fails: "fails p i \<Longrightarrow> fails (then_parse p f) i"
  by (auto simp: fails_def then_parse_def)

lemma then_ok: "p i = Inr (r, a) \<Longrightarrow> then_parse p f i = f a r"
  by (simp add: then_parse_def)

lemma then_fails_later: "p i = Inr (r, a) \<Longrightarrow> fails (f a) r \<Longrightarrow> fails (then_parse p f) i"
  by (simp add: fails_def then_ok)

lemma char_classes:
  "letter c \<Longrightarrow> letter_or_digit c" "\<not> letter_or_digit (CHR ''/'')" "\<not> letter_or_digit (CHR '','')" "\<not> letter_or_digit (CHR ''!'')"
  "\<not> letter_or_digit (CHR ''='')" "\<not> letter_or_digit (CHR '')'')" "\<not> letter_or_digit (CHR '' '')" "\<not> letter_or_digit (CHR 0x09)"
  by (simp_all add: letter_or_digit_def letter_def in_range_def)

lemma lod_not_blank: "letter_or_digit c \<Longrightarrow> \<not> blank c"
  using char_classes(7,8) by (auto simp: blank_def)

lemma dropWhile_weaker: "(\<And>c. P c \<Longrightarrow> Q c) \<Longrightarrow> dropWhile Q (dropWhile P xs) = dropWhile Q xs"
  by (induction xs) auto

lemma dropWhile_stop: "(\<And>c. c \<in> set v \<Longrightarrow> P c) \<Longrightarrow> t = [] \<or> \<not> P (hd t) \<Longrightarrow> dropWhile P (v @ t) = t"
  by (cases t) (auto simp: dropWhile_append2)

lemma takeWhile_hd: "takeWhile P xs = [] \<longleftrightarrow> xs = [] \<or> \<not> P (hd xs)"
  by (cases xs) auto

lemma nomD:
  assumes "nom_works nm"
  shows "nm_tag nm t (t @ r) = Inr (r, t)" and "\<not> prefix t i \<Longrightarrow> fails (nm_tag nm t) i"
    and "nm_space0 nm i = Inr (dropWhile blank i, takeWhile blank i)"
    and "nm_many_satisfy nm C i = Inr (dropWhile C i, takeWhile C i)" and "nm_is_alphanum nm = letter_or_digit"
    and "spans1 blank (nm_space1 nm)" and "spans1 letter (nm_alpha1 nm)" and "spans1 letter_or_digit (nm_alphanumeric1 nm)"
    and "list_law (nm_list_ops nm)" and "list_law (nm_list_values nm)"
  using assms by (simp_all add: nom_works_def fails_def)

lemma spans1D:
  assumes "spans1 C p"
  shows "i \<noteq> [] \<Longrightarrow> C (hd i) \<Longrightarrow> p i = Inr (dropWhile C i, takeWhile C i)" and "i = [] \<or> \<not> C (hd i) \<Longrightarrow> fails p i"
  using assms by (auto simp: spans1_def fails_def takeWhile_hd)

lemma alt_simps:
  assumes "nom_works nm"
  shows "p i = Inr x \<Longrightarrow> nm_alt nm (p # ps) i = Inr x" and "fails p i \<Longrightarrow> ps \<noteq> [] \<Longrightarrow> nm_alt nm (p # ps) i = nm_alt nm ps i"
    and "fails p i \<Longrightarrow> fails (nm_alt nm [p]) i"
  using assms by (auto simp: nom_works_def fails_def)

lemma value_chars: "nom_works nm \<Longrightarrow> value_ok v \<Longrightarrow> c \<in> set v \<Longrightarrow> value_char nm c"
  by (auto simp: value_ok_def value_char_def nomD)

lemma recognize_ok: "p (v @ t) = Inr (t, a) \<Longrightarrow> recognize p (v @ t) = Inr (t, v)"
  by (simp add: recognize_def)

lemma recognize_fails: "fails p i \<Longrightarrow> fails (recognize p) i"
  by (auto simp: recognize_def fails_def)

lemma raw_value_ok:
  assumes "nom_works nm" and "value_ok v" and "t = [] \<or> \<not> value_char nm (hd t)"
  shows "parse_raw_value nm (v @ t) = Inr (t, v)"
proof -
  have v: "v \<noteq> []" "letter_or_digit (hd v)" using assms(2) by (auto simp: value_ok_def)
  have first: "nm_alphanumeric1 nm (v @ t) = Inr (dropWhile letter_or_digit (v @ t), takeWhile letter_or_digit (v @ t))"
    using v by (intro spans1D(1)[OF nomD(8)[OF assms(1)]]) auto
  have "dropWhile (value_char nm) (dropWhile letter_or_digit (v @ t)) = dropWhile (value_char nm) (v @ t)"
    by (rule dropWhile_weaker) (simp add: value_char_def nomD[OF assms(1)])
  also have "\<dots> = t" by (rule dropWhile_stop) (use assms value_chars in auto)
  finally show ?thesis unfolding parse_raw_value_def by (intro recognize_ok) (simp add: then_parse_def first nomD(4)[OF assms(1)])
qed

lemma raw_value_fails: "nom_works nm \<Longrightarrow> i = [] \<or> \<not> letter_or_digit (hd i) \<Longrightarrow> fails (parse_raw_value nm) i"
  unfolding parse_raw_value_def by (intro recognize_fails then_fails spans1D(2)[OF nomD(8)])

lemma no_blank: "nom_works nm \<Longrightarrow> i = [] \<or> \<not> blank (hd i) \<Longrightarrow> nm_space0 nm i = Inr (i, [])"
  by (cases i) (simp_all add: nomD)

lemma value_parses:
  assumes "nom_works nm" and "value_ok v" and "t = [] \<or> hd t = CHR '','' \<or> hd t = CHR '')''"
  shows "parse_value nm (v @ t) = Inr (t, v)"
proof -
  have "nm_space0 nm (v @ t) = Inr (v @ t, [])" using assms(2) lod_not_blank by (intro no_blank[OF assms(1)]) (auto simp: value_ok_def)
  moreover have "nm_space0 nm t = Inr (t, [])" using assms(3) by (intro no_blank[OF assms(1)]) (auto simp: blank_def)
  moreover have "parse_raw_value nm (v @ t) = Inr (t, v)"
    using assms(3) char_classes(3,6) by (intro raw_value_ok[OF assms(1,2)]) (auto simp: value_char_def nomD[OF assms(1)])
  ultimately show ?thesis by (simp add: parse_value_def then_parse_def give_def)
qed

lemma value_fails: "nom_works nm \<Longrightarrow> i = [] \<or> \<not> letter_or_digit (hd i) \<and> \<not> blank (hd i) \<Longrightarrow> fails (parse_value nm) i"
  unfolding parse_value_def by (rule then_fails_later[OF no_blank]) (auto intro: then_fails raw_value_fails)

subsection \<open>Labels\<close>

definition parse_prefix :: "nom \<Rightarrow> string parser" where
  "parse_prefix nm = then_parse (then_parse (nm_alpha1 nm) (\<lambda>_. nm_many_satisfy nm (prefix_char nm))) (\<lambda>_. nm_tag nm ''/'')"

lemma parse_label_alt:
  "parse_label nm = then_parse (nm_space0 nm) (\<lambda>_. recognize (then_parse (optional (parse_prefix nm)) (\<lambda>_. parse_raw_value nm)))"
  by (simp add: parse_label_def parse_prefix_def)

lemma prefix_run:
  assumes "nom_works nm" and "i \<noteq> []" and "letter (hd i)"
  shows "parse_prefix nm i = nm_tag nm ''/'' (dropWhile (prefix_char nm) i)"
proof -
  have "dropWhile (prefix_char nm) (dropWhile letter i) = dropWhile (prefix_char nm) i"
    by (rule dropWhile_weaker) (simp add: prefix_char_def nomD[OF assms(1)] char_classes)
  then show ?thesis using spans1D(1)[OF nomD(7)[OF assms(1)] assms(2,3)]
    by (simp add: parse_prefix_def then_parse_def nomD(4)[OF assms(1)])
qed

lemma prefix_ok_parses:
  assumes "nom_works nm" and "prefix_ok p"
  shows "parse_prefix nm (p @ ''/'' @ r) = Inr (r, ''/'')"
proof -
  have "dropWhile (prefix_char nm) (p @ ''/'' @ r) = ''/'' @ r"
    using assms(2) char_classes(2) by (intro dropWhile_stop) (auto simp: prefix_ok_def prefix_char_def nomD[OF assms(1)])
  then show ?thesis using assms nomD(1)[OF assms(1), of "''/''" r] by (simp add: prefix_run prefix_ok_def)
qed

lemma no_prefix:
  assumes "nom_works nm" and "\<forall>c \<in> set v. c \<noteq> CHR ''/''" and "t = [] \<or> \<not> prefix_char nm (hd t) \<and> hd t \<noteq> CHR ''/''"
  shows "fails (parse_prefix nm) (v @ t)"
proof (cases "v @ t \<noteq> [] \<and> letter (hd (v @ t))")
  case True
  have "\<not> prefix ''/'' (dropWhile (prefix_char nm) (v @ t))"
  proof (cases "\<forall>c \<in> set v. prefix_char nm c")
    case True
    have "dropWhile (prefix_char nm) (v @ t) = t" by (rule dropWhile_stop) (use True assms(3) in auto)
    moreover have "\<not> prefix ''/'' t" using assms(3) by (cases t) auto
    ultimately show ?thesis by simp
  next
    case False
    then have "dropWhile (prefix_char nm) (v @ t) = dropWhile (prefix_char nm) v @ t" "dropWhile (prefix_char nm) v \<noteq> []"
      by (auto simp: dropWhile_append1 dropWhile_eq_Nil_conv)
    then show ?thesis using assms(2) set_dropWhileD[of _ "prefix_char nm" v] by (cases "dropWhile (prefix_char nm) v") fastforce+
  qed
  then show ?thesis using prefix_run[OF assms(1)] True nomD(2)[OF assms(1)] by (simp add: fails_def)
next
  case False
  then show ?thesis unfolding parse_prefix_def by (intro then_fails spans1D(2)[OF nomD(7)[OF assms(1)]]) auto
qed

lemma label_parses:
  assumes "nom_works nm" and "label_ok l" and "t = [] \<or> \<not> value_char nm (hd t) \<and> hd t \<noteq> CHR ''/''"
  shows "parse_label nm (l @ t) = Inr (t, l)"
proof -
  have lod: "letter_or_digit (hd l) \<and> l \<noteq> []" using assms(2) char_classes(1) by (auto simp: label_ok_def value_ok_def prefix_ok_def)
  have t: "t = [] \<or> \<not> value_char nm (hd t)" "t = [] \<or> \<not> prefix_char nm (hd t) \<and> hd t \<noteq> CHR ''/''"
    using assms(3) by (auto simp: value_char_def prefix_char_def)
  have "\<exists>v. then_parse (optional (parse_prefix nm)) (\<lambda>_. parse_raw_value nm) (l @ t) = Inr (t, v)" if "value_ok l"
  proof -
    have "\<forall>c \<in> set l. c \<noteq> CHR ''/''" using that char_classes(2) by (auto simp: value_ok_def)
    then obtain e where "parse_prefix nm (l @ t) = Inl e" using no_prefix[OF assms(1) _ t(2)] by (auto simp: fails_def)
    then show ?thesis using raw_value_ok[OF assms(1) that t(1)] by (simp add: then_parse_def optional_def)
  qed
  moreover have "\<exists>v. then_parse (optional (parse_prefix nm)) (\<lambda>_. parse_raw_value nm) (l @ t) = Inr (t, v)"
    if "l = p @ ''/'' @ v" "prefix_ok p" "value_ok v" for p v
    using prefix_ok_parses[OF assms(1) that(2), of "v @ t"] raw_value_ok[OF assms(1) that(3) t(1)] that(1)
    by (simp add: then_parse_def optional_def)
  ultimately obtain v where "then_parse (optional (parse_prefix nm)) (\<lambda>_. parse_raw_value nm) (l @ t) = Inr (t, v)"
    using assms(2) unfolding label_ok_def by metis
  then have "recognize (then_parse (optional (parse_prefix nm)) (\<lambda>_. parse_raw_value nm)) (l @ t) = Inr (t, l)"
    by (rule recognize_ok)
  moreover have "nm_space0 nm (l @ t) = Inr (l @ t, [])" using lod lod_not_blank by (intro no_blank[OF assms(1)]) auto
  ultimately show ?thesis by (simp add: parse_label_alt then_parse_def)
qed

lemma label_fails:
  assumes "nom_works nm" and "i = [] \<or> \<not> letter_or_digit (hd i) \<and> \<not> blank (hd i)"
  shows "fails (parse_label nm) i"
proof -
  have "fails (parse_prefix nm) i"
    unfolding parse_prefix_def using assms(2) char_classes(1) by (intro then_fails spans1D(2)[OF nomD(7)[OF assms(1)]]) auto
  then have "fails (then_parse (optional (parse_prefix nm)) (\<lambda>_. parse_raw_value nm)) i"
    using raw_value_fails[OF assms(1), of i] assms(2) by (auto simp: then_parse_def optional_def fails_def)
  moreover have "nm_space0 nm i = Inr (i, [])" using assms by (intro no_blank) auto
  ultimately show ?thesis unfolding parse_label_alt by (intro then_fails_later) (auto intro: recognize_fails)
qed

subsection \<open>Lists and operations\<close>

lemma listsD:
  assumes "list_law f"
  shows "fails p i \<Longrightarrow> f sep p i = Inr (i, [])"
    and "p i = Inr (r, a) \<Longrightarrow> fails sep r \<Longrightarrow> f sep p i = Inr (r, [a])"
    and "p i = Inr (r, a) \<Longrightarrow> sep r = Inr (r1, s) \<Longrightarrow> p r1 = Inr (r2, b) \<Longrightarrow> length r1 < length i \<Longrightarrow> f sep p r1 = Inr (r', as)
      \<Longrightarrow> f sep p i = Inr (r', a # as)"
proof -
  note law = assms[unfolded list_law_def, THEN spec, of sep, THEN spec, of p, THEN spec, of i]
  show "f sep p i = Inr (i, [])" if "fails p i" using law[THEN conjunct1] that unfolding fails_def by blast
  show "f sep p i = Inr (r, [a])" if "p i = Inr (r, a)" "fails sep r"
    using law[THEN conjunct2, THEN conjunct1] that unfolding fails_def by blast
  show "f sep p i = Inr (r', a # as)"
    if "p i = Inr (r, a)" "sep r = Inr (r1, s)" "p r1 = Inr (r2, b)" "length r1 < length i" "f sep p r1 = Inr (r', as)"
    using law[THEN conjunct2, THEN conjunct2, THEN conjunct2] that by simp
qed

text \<open>A list of texts, each of which is parsed up to a separator or the end, is parsed item by item.\<close>

lemma list_parses:
  assumes "nom_works nm" and "list_law f" and "fails p t" and "fails (nm_tag nm '','') t"
    and "\<And>x r. x \<in> set xs \<Longrightarrow> r = t \<or> (\<exists>r'. r = '','' @ r') \<Longrightarrow> p (text x @ r) = Inr (r, x)"
  shows "f (nm_tag nm '','') p (join '','' (map text xs) @ t) = Inr (t, xs)"
  using assms(5)
proof (induction xs)
  case Nil
  then show ?case using listsD(1)[OF assms(2,3)] by simp
next
  case (Cons x xs)
  show ?case
  proof (cases xs)
    case Nil
    then show ?thesis using listsD(2)[OF assms(2) _ assms(4)] Cons.prems[of x t] by simp
  next
    case (Cons y ys)
    let ?rest = "join '','' (map text xs) @ t"
    have whole: "join '','' (map text (x # xs)) @ t = text x @ '','' @ ?rest" by (simp add: Cons join_Cons)
    obtain r2 where next_item: "p ?rest = Inr (r2, y)"
    proof (cases ys)
      case Nil
      then show ?thesis using that Cons.prems[of y t] \<open>xs = y # ys\<close> by simp
    next
      case (Cons z zs)
      then show ?thesis using that Cons.prems[of y "'','' @ join '','' (map text ys) @ t"] \<open>xs = y # ys\<close> by (simp add: join_Cons)
    qed
    have "f (nm_tag nm '','') p ?rest = Inr (t, xs)" using Cons.IH Cons.prems by simp
    then show ?thesis unfolding whole
      using Cons.prems[of x "'','' @ ?rest"] nomD(1)[OF assms(1), of "'',''" ?rest] next_item by (intro listsD(3)[OF assms(2)]) simp_all
  qed
qed

lemma values_parse:
  assumes "nom_works nm" and "\<forall>v \<in> set vs. value_ok v"
  shows "nm_list_values nm (nm_tag nm '','') (parse_value nm) (join '','' vs @ '')'' @ r) = Inr ('')'' @ r, vs)"
proof -
  have "nm_list_values nm (nm_tag nm '','') (parse_value nm) (join '','' (map id vs) @ '')'' @ r) = Inr ('')'' @ r, vs)"
  proof (rule list_parses[OF assms(1) nomD(10)[OF assms(1)]])
    show "fails (parse_value nm) ('')'' @ r)" using char_classes(6) by (intro value_fails[OF assms(1)]) (simp add: blank_def)
    show "fails (nm_tag nm '','') ('')'' @ r)" by (rule nomD(2)[OF assms(1)]) simp
    show "parse_value nm (id v @ t) = Inr (t, v)" if "v \<in> set vs" "t = '')'' @ r \<or> (\<exists>r'. t = '','' @ r')" for v t
      unfolding id_apply by (rule value_parses[OF assms(1)]) (use that assms(2) in auto)
  qed
  then show ?thesis by simp
qed

text \<open>What may follow an operation.\<close>

abbreviation op_end :: "string \<Rightarrow> bool" where
  "op_end t \<equiv> t = [] \<or> hd t = CHR '',''"

lemma after_label:
  assumes "nom_works nm" and "label_ok l" and "t = [] \<or> hd t \<in> {CHR '','', CHR ''='', CHR ''!'', CHR '' ''}"
  shows "then_parse (parse_label nm) f (l @ t) = f l t"
  using assms(3) char_classes(3-7) by (intro then_ok label_parses[OF assms(1,2)]) (auto simp: value_char_def nomD[OF assms(1)])

lemma tagged:
  assumes "nom_works nm"
  shows "then_parse (nm_tag nm t) f (t @ r) = f t r" and "\<not> prefix t i \<Longrightarrow> fails (then_parse (nm_tag nm t) f) i"
  by (intro then_ok nomD(1) assms) (intro then_fails nomD(2) assms)

lemma unspaced:
  assumes "nom_works nm" and "i = [] \<or> \<not> blank (hd i)"
  shows "then_parse (nm_space0 nm) f i = f [] i" and "fails (then_parse (nm_space1 nm) f) i"
  by (intro then_ok no_blank assms) (intro then_fails spans1D(2)[OF nomD(6)] assms)

lemma spaced:
  assumes "nom_works nm" and "r \<noteq> []" and "\<not> blank (hd r)"
  shows "then_parse (nm_space0 nm) f ('' '' @ r) = f '' '' r" and "then_parse (nm_space1 nm) f ('' '' @ r) = f '' '' r"
proof -
  have "dropWhile blank ('' '' @ r) = r" "takeWhile blank ('' '' @ r) = '' ''" using assms(2,3) by (cases r; simp add: blank_def)+
  then show "then_parse (nm_space0 nm) f ('' '' @ r) = f '' '' r" "then_parse (nm_space1 nm) f ('' '' @ r) = f '' '' r"
    using spans1D(1)[OF nomD(6)[OF assms(1)], of "'' '' @ r"] by (auto intro!: then_ok simp: nomD(3)[OF assms(1)] blank_def)
qed

lemma valued:
  assumes "nom_works nm" and "value_ok v" and "op_end t"
  shows "then_parse (parse_value nm) f (v @ t) = f v t"
  using assms by (intro then_ok value_parses) auto

lemma listed:
  assumes "nom_works nm" and "\<forall>v \<in> set vs. value_ok v"
  shows "then_parse (nm_tag nm ''('') (\<lambda>_. then_parse (nm_list_values nm (nm_tag nm '','') (parse_value nm)) (\<lambda>value.
     then_parse (nm_tag nm '')'') (\<lambda>_. give (f value)))) (''('' @ join '','' vs @ '')'' @ t) = Inr (t, f vs)"
  unfolding tagged(1)[OF assms(1)] then_parse_def[of "nm_list_values nm _ _"] values_parse[OF assms]
  by (simp only: rbind.simps prod.case tagged(1)[OF assms(1)] give_def)

text \<open>Which alternatives give up after the label of an operation.\<close>

lemma in_fails:
  assumes "nom_works nm" and "label_ok l" and "t = [] \<or> hd t \<in> {CHR '','', CHR ''='', CHR ''!''}"
  shows "fails (parse_in nm) (l @ t)" and "fails (parse_not_in nm) (l @ t)"
proof -
  have t: "t = [] \<or> hd t \<in> {CHR '','', CHR ''='', CHR ''!'', CHR '' ''}" "t = [] \<or> \<not> blank (hd t)" using assms(3) by (auto simp: blank_def)
  show "fails (parse_in nm) (l @ t)" "fails (parse_not_in nm) (l @ t)"
    unfolding parse_in_def parse_not_in_def fails_def after_label[OF assms(1,2) t(1)] using unspaced(2)[OF assms(1) t(2)] by (simp_all add: fails_def)
qed

lemma equals_fail:
  assumes "nom_works nm" and "label_ok l" and "t = [] \<or> hd t \<in> {CHR '','', CHR ''='', CHR ''!''}"
  shows "\<not> prefix ''='' t \<Longrightarrow> fails (parse_equals nm) (l @ t)" and "\<not> prefix ''!='' t \<Longrightarrow> fails (parse_not_equals nm) (l @ t)"
proof -
  have t: "t = [] \<or> hd t \<in> {CHR '','', CHR ''='', CHR ''!'', CHR '' ''}" "t = [] \<or> \<not> blank (hd t)" using assms(3) by (auto simp: blank_def)
  show "fails (parse_equals nm) (l @ t)" if "\<not> prefix ''='' t"
    unfolding parse_equals_def fails_def after_label[OF assms(1,2) t(1)] unspaced(1)[OF assms(1) t(2)]
    using tagged(2)[OF assms(1) that] by (simp add: fails_def)
  show "fails (parse_not_equals nm) (l @ t)" if "\<not> prefix ''!='' t"
    unfolding parse_not_equals_def fails_def after_label[OF assms(1,2) t(1)] unspaced(1)[OF assms(1) t(2)]
    using tagged(2)[OF assms(1) that] by (simp add: fails_def)
qed

lemmas alt_rules = parse_one_def append_assoc list.distinct not_False_eq_True simp_thms render_op.simps

lemma one_exists:
  assumes N: "nom_works nm" and l: "label_ok l" and "op_end t"
  shows "parse_one nm (render_op (Exists l) @ t) = Inr (t, Exists l)"
proof -
  have t: "t = [] \<or> hd t \<in> {CHR '','', CHR ''='', CHR ''!''}" "\<not> prefix ''='' t" "\<not> prefix ''!='' t"
    using assms(3) by (cases t; auto)+
  have "parse_exists nm (l @ t) = Inr (t, Exists l)"
    unfolding parse_exists_def by (subst after_label[OF N l]) (use t(1) in \<open>auto simp: give_def\<close>)
  then show ?thesis
    by (simp only: alt_rules alt_simps[OF N] in_fails[OF N l t(1)] equals_fail(1)[OF N l t(1,2)] equals_fail(2)[OF N l t(1,3)])
qed

lemma one_not_exists:
  assumes N: "nom_works nm" and l: "label_ok l" and "op_end t"
  shows "parse_one nm (render_op (NotExists l) @ t) = Inr (t, NotExists l)"
proof -
  have bad: "fails (then_parse (parse_label nm) f) (''!'' @ l @ t)" for f :: "string \<Rightarrow> operation parser"
    using char_classes(4) by (intro then_fails label_fails[OF N]) (simp add: blank_def)
  have "parse_not_exists nm (''!'' @ l @ t) = Inr (t, NotExists l)"
    unfolding parse_not_exists_def tagged(1)[OF N] by (subst after_label[OF N l]) (use assms(3) in \<open>auto simp: give_def\<close>)
  then show ?thesis
    by (simp only: alt_rules alt_simps[OF N] bad parse_in_def parse_not_in_def parse_equals_def parse_not_equals_def parse_exists_def)
qed

lemma one_eq:
  assumes N: "nom_works nm" and l: "label_ok l" and v: "value_ok v" and e: "op_end t"
  shows "parse_one nm (render_op (Eq l v) @ t) = Inr (t, Eq l v)"
proof -
  have t: "''='' @ v @ t = [] \<or> hd (''='' @ v @ t) \<in> {CHR '','', CHR ''='', CHR ''!''}" "''='' @ v @ t = [] \<or> \<not> blank (hd (''='' @ v @ t))"
    "''='' @ v @ t = [] \<or> hd (''='' @ v @ t) \<in> {CHR '','', CHR ''='', CHR ''!'', CHR '' ''}" by (simp_all add: blank_def)
  have "parse_equals nm (l @ ''='' @ v @ t) = Inr (t, Eq l v)"
    unfolding parse_equals_def after_label[OF N l t(3)] unspaced(1)[OF N t(2)] tagged(1)[OF N] valued[OF N v e] give_def ..
  then show ?thesis by (simp only: alt_rules alt_simps[OF N] in_fails[OF N l t(1)])
qed

lemma one_not_eq:
  assumes N: "nom_works nm" and l: "label_ok l" and v: "value_ok v" and e: "op_end t"
  shows "parse_one nm (render_op (NotEq l v) @ t) = Inr (t, NotEq l v)"
proof -
  have t: "''!='' @ v @ t = [] \<or> hd (''!='' @ v @ t) \<in> {CHR '','', CHR ''='', CHR ''!''}" "''!='' @ v @ t = [] \<or> \<not> blank (hd (''!='' @ v @ t))"
    "''!='' @ v @ t = [] \<or> hd (''!='' @ v @ t) \<in> {CHR '','', CHR ''='', CHR ''!'', CHR '' ''}" "\<not> prefix ''='' (''!='' @ v @ t)" by (simp_all add: blank_def)
  have "parse_not_equals nm (l @ ''!='' @ v @ t) = Inr (t, NotEq l v)"
    unfolding parse_not_equals_def after_label[OF N l t(3)] unspaced(1)[OF N t(2)] tagged(1)[OF N] valued[OF N v e] give_def ..
  then show ?thesis by (simp only: alt_rules alt_simps[OF N] in_fails[OF N l t(1)] equals_fail(1)[OF N l t(1,4)])
qed

lemma one_in:
  assumes N: "nom_works nm" and l: "label_ok l" and vs: "\<forall>v \<in> set vs. value_ok v"
  shows "parse_one nm (render_op (In l vs) @ t) = Inr (t, In l vs)"
proof -
  let ?vs = "''('' @ join '','' vs @ '')'' @ t"
  have t: "'' '' @ ''in'' @ '' '' @ ?vs = [] \<or> hd ('' '' @ ''in'' @ '' '' @ ?vs) \<in> {CHR '','', CHR ''='', CHR ''!'', CHR '' ''}" by simp
  have b: "?vs \<noteq> []" "\<not> blank (hd ?vs)" "''in'' @ '' '' @ ?vs \<noteq> []" "\<not> blank (hd (''in'' @ '' '' @ ?vs))" by (simp_all add: blank_def)
  have "parse_in nm (l @ '' '' @ ''in'' @ '' '' @ ?vs) = Inr (t, In l vs)"
    unfolding parse_in_def after_label[OF N l t] spaced(2)[OF N b(3,4)] tagged(1)[OF N, of "''in''"] spaced(1)[OF N b(1,2)] listed[OF N vs] ..
  moreover have "render_op (In l vs) @ t = l @ '' '' @ ''in'' @ '' '' @ ?vs" by simp
  ultimately show ?thesis by (simp only: parse_one_def alt_simps(1)[OF N])
qed

lemma one_not_in:
  assumes N: "nom_works nm" and l: "label_ok l" and vs: "\<forall>v \<in> set vs. value_ok v"
  shows "parse_one nm (render_op (NotIn l vs) @ t) = Inr (t, NotIn l vs)"
proof -
  let ?vs = "''('' @ join '','' vs @ '')'' @ t"
  let ?i = "'' '' @ ''notin'' @ '' '' @ ?vs"
  have t: "?i = [] \<or> hd ?i \<in> {CHR '','', CHR ''='', CHR ''!'', CHR '' ''}" by simp
  have b: "?vs \<noteq> []" "\<not> blank (hd ?vs)" "''notin'' @ '' '' @ ?vs \<noteq> []" "\<not> blank (hd (''notin'' @ '' '' @ ?vs))" by (simp_all add: blank_def)
  have "parse_not_in nm (l @ ?i) = Inr (t, NotIn l vs)"
    unfolding parse_not_in_def after_label[OF N l t] spaced(2)[OF N b(3,4)] tagged(1)[OF N, of "''notin''"] spaced(1)[OF N b(1,2)] listed[OF N vs] ..
  moreover have "fails (parse_in nm) (l @ ?i)"
    unfolding parse_in_def fails_def after_label[OF N l t] spaced(2)[OF N b(3,4)]
    using tagged(2)[OF N, of "''in''" "''notin'' @ '' '' @ ?vs"] by (simp add: fails_def)
  moreover have "render_op (NotIn l vs) @ t = l @ ?i" by simp
  ultimately show ?thesis by (simp only: parse_one_def alt_simps(1,2)[OF N] list.distinct not_False_eq_True simp_thms)
qed

lemmas one_ops = one_exists one_not_exists one_eq one_not_eq one_in one_not_in

lemma parse_one_op:
  assumes "nom_works nm" and "op_ok op" and "op_end t"
  shows "parse_one nm (render_op op @ t) = Inr (t, op)"
  using assms one_ops[OF assms(1)] by (cases op) (auto simp only: op_ok.simps)

lemma parse_one_nothing:
  assumes N: "nom_works nm"
  shows "fails (parse_one nm) []"
proof -
  have bad: "fails (then_parse (parse_label nm) f) []" for f :: "string \<Rightarrow> operation parser" by (intro then_fails label_fails[OF N]) simp
  have "fails (parse_not_exists nm) []" unfolding parse_not_exists_def by (intro tagged(2)[OF N]) simp
  then have "fails (nm_alt nm [parse_not_exists nm]) []" by (rule alt_simps(3)[OF N])
  then show ?thesis unfolding fails_def
    by (simp only: alt_rules alt_simps(2)[OF N] bad parse_in_def parse_not_in_def parse_equals_def parse_not_equals_def parse_exists_def)
qed

text \<open>
  A selector is read as it is written: the text of any list of conditions on well-formed
  labels and values, in the order of the list, is parsed to this list, whatever the conditions
  are and whatever characters their values have.
\<close>

lemma selector_roundtrip:
  assumes "nom_works nm" and "\<forall>op \<in> set ops. op_ok op"
  shows "parse_from nm (join '','' (map render_op ops)) = Inr ops"
proof -
  have "nm_list_ops nm (nm_tag nm '','') (parse_one nm) (join '','' (map render_op ops) @ []) = Inr ([], ops)"
  proof (rule list_parses[OF assms(1) nomD(9)[OF assms(1)] parse_one_nothing[OF assms(1)]])
    show "fails (nm_tag nm '','') []" by (rule nomD(2)[OF assms(1)]) simp
    show "parse_one nm (render_op op @ r) = Inr (r, op)" if "op \<in> set ops" "r = [] \<or> (\<exists>r'. r = '','' @ r')" for op r
      by (rule parse_one_op[OF assms(1)]) (use that assms(2) in auto)
  qed
  then show ?thesis by (simp add: parse_from_def parse_ops_def)
qed

section \<open>An example\<close>

fun demo_alt :: "operation parser list \<Rightarrow> operation parser" where
  "demo_alt [] i = Inl []"
| "demo_alt (p # ps) i = (case p i of Inr x \<Rightarrow> Inr x | Inl e \<Rightarrow> if ps = [] then Inl e else demo_alt ps i)"

function demo_list :: "string parser \<Rightarrow> 'a parser \<Rightarrow> 'a list parser" where
  "demo_list sep p i =
     (case p i of
        Inl _ \<Rightarrow> Inr (i, [])
      | Inr (r, a) \<Rightarrow> (case sep r of
          Inl _ \<Rightarrow> Inr (r, [a])
        | Inr (r1, _) \<Rightarrow> (case p r1 of
            Inl _ \<Rightarrow> Inr (r, [a])
          | Inr _ \<Rightarrow> if length r1 < length i then rbind (demo_list sep p r1) (\<lambda>(r', as). Inr (r', a # as)) else Inl [])))"
  by auto
termination by (relation "measure (\<lambda>(_, _, i). length i)") auto

definition demo_span1 :: "(char \<Rightarrow> bool) \<Rightarrow> string parser" where
  "demo_span1 C i = (if takeWhile C i = [] then Inl [] else Inr (dropWhile C i, takeWhile C i))"

definition demo_nom :: nom where
  "demo_nom = \<lparr>nm_tag = (\<lambda>t i. if prefix t i then Inr (drop (length t) i, t) else Inl []),
     nm_space0 = (\<lambda>i. Inr (dropWhile blank i, takeWhile blank i)), nm_space1 = demo_span1 blank, nm_alpha1 = demo_span1 letter,
     nm_alphanumeric1 = demo_span1 letter_or_digit, nm_many_satisfy = (\<lambda>C i. Inr (dropWhile C i, takeWhile C i)), nm_is_alphanum = letter_or_digit,
     nm_alt = demo_alt, nm_list_ops = demo_list, nm_list_values = demo_list\<rparr>"

lemma demo_list_law: "list_law demo_list"
  unfolding list_law_def by (intro allI conjI impI; subst demo_list.simps; simp)

lemma demo_nom_works: "nom_works demo_nom"
  by (simp add: nom_works_def demo_nom_def demo_list_law spans1_def demo_span1_def split: sum.split)

end
