(* ===== verification/Rest_Endpoints.thy ===== *)
theory Rest_Endpoints
  imports Registry_Lifecycle Label_Selector
begin

text \<open>
  The web handlers of the management service (\<open>device-management-service/src/endpoints\<close>) and of
  its administration (\<open>admin-service/src/apps/endpoints.rs\<close>): what they check, what they ask
  the service for, and what they answer; and the streamer of lists.

  Parameters: the host name validator, the URLs of resources, the JSON codec, and the parser
  library.  A list is streamed without waiting; an item that is not ready yet only delays the
  next chunk.
\<close>

section \<open>The array streamer\<close>

datatype streamer_state = StreamStart | StreamData | StreamEnd

text \<open>The encoder and the items of the stream may fail; a failed item is reported and skipped.\<close>

definition poll_next ::
  "('a \<Rightarrow> string + string) \<Rightarrow> streamer_state \<Rightarrow> (string + 'a) list \<Rightarrow> (string + string) option \<times> streamer_state \<times> (string + 'a) list" where
  "poll_next to_vec st items =
     (if st = StreamEnd then (None, st, items)
      else let data = (if st = StreamStart then ''['' else []) in
        case items of
          Inl err # rest \<Rightarrow> (Some (Inl err), st, rest)
        | Inr item # rest \<Rightarrow>
            let data = (if st = StreamData then data @ '','' else data) in
            (case to_vec item of
               Inr buffer \<Rightarrow> ((if data @ buffer = [] then None else Some (Inr (data @ buffer))), StreamData, rest)
             | Inl err \<Rightarrow> (Some (Inl err), st, rest))
        | [] \<Rightarrow> (Some (Inr (data @ '']'')), StreamEnd, []))"

text \<open>All chunks, until the streamer has no more.\<close>

function stream_chunks :: "('a \<Rightarrow> string + string) \<Rightarrow> streamer_state \<Rightarrow> (string + 'a) list \<Rightarrow> (string + string) list" where
  "stream_chunks to_vec st items =
     (case poll_next to_vec st items of
        (None, _) \<Rightarrow> []
      | (Some chunk, st', items') \<Rightarrow> chunk # stream_chunks to_vec st' items')"
  by auto
termination
  by (relation "measure (\<lambda>(_, st, items). 2 * length items + (if st = StreamEnd then 0 else 1))")
    (auto simp: poll_next_def Let_def split: list.splits sum.splits if_splits)

declare stream_chunks.simps [simp del]

section \<open>Handlers\<close>

datatype web_body = WebEmpty | WebApp api_application | WebDevice api_device | WebTransfer string | WebMembers members
  | WebStream "(string + string) list"

record web_response =
  wb_status :: nat
  wb_location :: "string option"
  wb_body :: web_body

datatype web_error = WebService mgmt_error | InvalidRequest string | UrlGeneration string

definition respond :: "nat \<Rightarrow> web_body \<Rightarrow> web_response" where
  "respond status body = \<lparr>wb_status = status, wb_location = None, wb_body = body\<rparr>"

abbreviation bad_request :: web_response where
  "bad_request \<equiv> respond 400 WebEmpty"

record rest_env =
  rx_env :: env
  rx_keycloak :: keycloak
  rx_nom :: nom
  rx_hostname_valid :: "string \<Rightarrow> bool"
  rx_url_for :: "string \<Rightarrow> string list \<Rightarrow> string + string"
  rx_app_json :: "api_application \<Rightarrow> string + string"
  rx_device_json :: "api_device \<Rightarrow> string + string"

record list_params =
  lp_labels :: string
  lp_limit :: "nat option"
  lp_offset :: "nat option"

text \<open>The answer to a call of the service that changes something, and to one that reads.\<close>

definition answer :: "web_response \<Rightarrow> (mgmt_error + unit) \<times> mgmt \<Rightarrow> (web_error + web_response) \<times> mgmt" where
  "answer resp r = (map_sum WebService (\<lambda>_. resp) (fst r), snd r)"

definition found :: "('a \<Rightarrow> web_body) \<Rightarrow> mgmt_error + 'a option \<Rightarrow> web_error + web_response" where
  "found body r = map_sum WebService (\<lambda>x. case x of None \<Rightarrow> respond 404 WebEmpty | Some a \<Rightarrow> respond 200 (body a)) r"

definition apps_create :: "rest_env \<Rightarrow> fresh \<Rightarrow> user_information \<Rightarrow> api_application \<Rightarrow> mgmt \<Rightarrow> (web_error + web_response) \<times> mgmt" where
  "apps_create rx fr user app s =
     (if pa_name app = [] \<or> \<not> rx_hostname_valid rx (pa_name app) \<or> map to_lowercase (pa_name app) \<noteq> pa_name app
      then (Inr bad_request, s)
      else case rx_url_for rx ''app'' [pa_name app] of
        Inl e \<Rightarrow> (Inl (UrlGeneration e), s)
      | Inr location \<Rightarrow> answer ((respond 201 WebEmpty)\<lparr>wb_location := Some location\<rparr>) (create_app (rx_env rx) fr user app s))"

definition apps_update ::
  "rest_env \<Rightarrow> fresh \<Rightarrow> user_information \<Rightarrow> string \<Rightarrow> api_application \<Rightarrow> mgmt \<Rightarrow> (web_error + web_response) \<times> mgmt" where
  "apps_update rx fr user app_id app s =
     (if app_id = [] then (Inr bad_request, s)
      else if app_id \<noteq> pa_name app then (Inr bad_request, s)
      else answer (respond 204 WebEmpty) (update_app (rx_env rx) fr user app s))"

definition apps_delete ::
  "rest_env \<Rightarrow> fresh \<Rightarrow> user_information \<Rightarrow> string \<Rightarrow> preconditions option \<Rightarrow> mgmt \<Rightarrow> (web_error + web_response) \<times> mgmt" where
  "apps_delete rx fr user app params s =
     (if app = [] then (Inr bad_request, s)
      else answer (respond 204 WebEmpty) (delete_app (rx_env rx) fr user app params s))"

definition apps_read :: "rest_env \<Rightarrow> user_information \<Rightarrow> string \<Rightarrow> mgmt \<Rightarrow> web_error + web_response" where
  "apps_read rx user app_id s =
     (if app_id = [] then Inr bad_request else found WebApp (get_app (rx_env rx) user app_id s))"

definition read_selector :: "rest_env \<Rightarrow> list_params \<Rightarrow> web_error + operation list" where
  "read_selector rx params = map_err (\<lambda>err. InvalidRequest (parser_error_text err)) (parse_from (rx_nom rx) (lp_labels params))"

definition apps_list :: "rest_env \<Rightarrow> user_information \<Rightarrow> list_params \<Rightarrow> mgmt \<Rightarrow> web_error + web_response" where
  "apps_list rx user params s =
     rbind (read_selector rx params) (\<lambda>selector.
       Inr (respond 200 (WebStream (stream_chunks (rx_app_json rx) StreamStart
         (map Inr (list_apps (rx_env rx) user selector (lp_limit params) (lp_offset params) s))))))"

text \<open>The check that the name of a device is UTF-8 is left out: it is a string already.\<close>

definition devices_create ::
  "rest_env \<Rightarrow> fresh \<Rightarrow> user_information \<Rightarrow> string \<Rightarrow> api_device \<Rightarrow> mgmt \<Rightarrow> (web_error + web_response) \<times> mgmt" where
  "devices_create rx fr user app_id device s =
     (if pd_name device = [] \<or> pd_application device = [] \<or> length (pd_name device) > 255
      then (Inr bad_request, s)
      else case rx_url_for rx ''device'' [app_id, pd_name device] of
        Inl e \<Rightarrow> (Inl (UrlGeneration e), s)
      | Inr location \<Rightarrow> answer ((respond 201 WebEmpty)\<lparr>wb_location := Some location\<rparr>) (create_device (rx_env rx) fr user device s))"

definition devices_update ::
  "rest_env \<Rightarrow> fresh \<Rightarrow> user_information \<Rightarrow> string \<Rightarrow> string \<Rightarrow> api_device \<Rightarrow> mgmt \<Rightarrow> (web_error + web_response) \<times> mgmt" where
  "devices_update rx fr user app_id device_id device s =
     (if app_id = [] \<or> device_id = [] then (Inr bad_request, s)
      else if app_id \<noteq> pd_application device \<or> device_id \<noteq> pd_name device then (Inr bad_request, s)
      else answer (respond 204 WebEmpty) (update_device (rx_env rx) fr user device s))"

definition devices_delete ::
  "rest_env \<Rightarrow> fresh \<Rightarrow> user_information \<Rightarrow> string \<Rightarrow> string \<Rightarrow> preconditions option \<Rightarrow> mgmt \<Rightarrow> (web_error + web_response) \<times> mgmt" where
  "devices_delete rx fr user app device params s =
     (if app = [] \<or> device = [] then (Inr bad_request, s)
      else answer (respond 204 WebEmpty) (delete_device (rx_env rx) fr user app device params s))"

definition devices_read :: "rest_env \<Rightarrow> user_information \<Rightarrow> string \<Rightarrow> string \<Rightarrow> mgmt \<Rightarrow> web_error + web_response" where
  "devices_read rx user app_id device_id s =
     (if app_id = [] \<or> device_id = [] then Inr bad_request else found WebDevice (get_device (rx_env rx) user app_id device_id s))"

definition devices_list :: "rest_env \<Rightarrow> user_information \<Rightarrow> string \<Rightarrow> list_params \<Rightarrow> mgmt \<Rightarrow> web_error + web_response" where
  "devices_list rx user app_id params s =
     (if app_id = [] then Inr bad_request
      else rbind (read_selector rx params) (\<lambda>selector.
        map_sum WebService (\<lambda>devices. respond 200 (WebStream (stream_chunks (rx_device_json rx) StreamStart (map Inr devices))))
          (list_devices (rx_env rx) user app_id selector (lp_limit params) (lp_offset params) s)))"

subsection \<open>Administration\<close>

definition admin_transfer :: "rest_env \<Rightarrow> user_information \<Rightarrow> string \<Rightarrow> string \<Rightarrow> mgmt \<Rightarrow> (web_error + web_response) \<times> mgmt" where
  "admin_transfer rx user app_id new_user s = answer (respond 202 WebEmpty) (transfer (rx_env rx) (rx_keycloak rx) user app_id new_user s)"

definition admin_read_transfer_state :: "rest_env \<Rightarrow> user_information \<Rightarrow> string \<Rightarrow> mgmt \<Rightarrow> web_error + web_response" where
  "admin_read_transfer_state rx user app_id s =
     map_sum WebService (\<lambda>r. case r of Some payload \<Rightarrow> respond 200 (WebTransfer payload) | None \<Rightarrow> respond 204 WebEmpty)
       (read_transfer_state (rx_env rx) (rx_keycloak rx) user app_id s)"

definition admin_cancel :: "rest_env \<Rightarrow> user_information \<Rightarrow> string \<Rightarrow> mgmt \<Rightarrow> (web_error + web_response) \<times> mgmt" where
  "admin_cancel rx user app_id s = answer (respond 204 WebEmpty) (cancel (rx_env rx) user app_id s)"

definition admin_accept :: "rest_env \<Rightarrow> user_information \<Rightarrow> string \<Rightarrow> mgmt \<Rightarrow> (web_error + web_response) \<times> mgmt" where
  "admin_accept rx user app_id s = answer (respond 204 WebEmpty) (accept (rx_env rx) user app_id s)"

definition admin_get_members :: "rest_env \<Rightarrow> user_information \<Rightarrow> string \<Rightarrow> mgmt \<Rightarrow> web_error + web_response" where
  "admin_get_members rx user app_id s =
     map_sum WebService (\<lambda>ms. respond 200 (WebMembers ms)) (get_members (rx_env rx) (rx_keycloak rx) user app_id s)"

definition admin_set_members :: "rest_env \<Rightarrow> user_information \<Rightarrow> string \<Rightarrow> members \<Rightarrow> mgmt \<Rightarrow> (web_error + web_response) \<times> mgmt" where
  "admin_set_members rx user app_id ms s = answer (respond 204 WebEmpty) (set_members (rx_env rx) (rx_keycloak rx) user app_id ms s)"

text \<open>\<open>error_response\<close> of the errors a handler returns.\<close>

fun web_error_status :: "web_error \<Rightarrow> nat" where
  "web_error_status (WebService (Service e)) = fst (error_response e)"
| "web_error_status (WebService (EventSender e)) = 502"
| "web_error_status (InvalidRequest _) = 400"
| "web_error_status (UrlGeneration _) = 500"

subsection \<open>Calls by path\<close>

text \<open>A call that changes something, with the path it is made for.\<close>

datatype web_call =
    PostApp api_application
  | PutApp string api_application
  | DeleteAppCall string "preconditions option"
  | PostDevice string api_device
  | PutDevice string string api_device
  | DeleteDeviceCall string string "preconditions option"
  | PutTransfer string string
  | DeleteTransfer string
  | PutAccept string
  | PutMembers string members

fun web_handle :: "rest_env \<Rightarrow> fresh \<Rightarrow> user_information \<Rightarrow> web_call \<Rightarrow> mgmt \<Rightarrow> (web_error + web_response) \<times> mgmt" where
  "web_handle rx fr user (PostApp app) s = apps_create rx fr user app s"
| "web_handle rx fr user (PutApp path app) s = apps_update rx fr user path app s"
| "web_handle rx fr user (DeleteAppCall path params) s = apps_delete rx fr user path params s"
| "web_handle rx fr user (PostDevice path device) s = devices_create rx fr user path device s"
| "web_handle rx fr user (PutDevice path device_id device) s = devices_update rx fr user path device_id device s"
| "web_handle rx fr user (DeleteDeviceCall path device_id params) s = devices_delete rx fr user path device_id params s"
| "web_handle rx fr user (PutTransfer path new_user) s = admin_transfer rx user path new_user s"
| "web_handle rx fr user (DeleteTransfer path) s = admin_cancel rx user path s"
| "web_handle rx fr user (PutAccept path) s = admin_accept rx user path s"
| "web_handle rx fr user (PutMembers path ms) s = admin_set_members rx user path ms s"

text \<open>The application in the path of a call; the path of a new application has none, there it is the name that is created.\<close>

fun call_path :: "web_call \<Rightarrow> string" where
  "call_path (PostApp app) = pa_name app"
| "call_path (PutApp path _) = path"
| "call_path (DeleteAppCall path _) = path"
| "call_path (PostDevice path _) = path"
| "call_path (PutDevice path _ _) = path"
| "call_path (DeleteDeviceCall path _ _) = path"
| "call_path (PutTransfer path _) = path"
| "call_path (DeleteTransfer path) = path"
| "call_path (PutAccept path) = path"
| "call_path (PutMembers path _) = path"

text \<open>The application that a new device names in its body.\<close>

fun posted_app :: "web_call \<Rightarrow> string option" where
  "posted_app (PostDevice _ device) = Some (pd_application device)"
| "posted_app _ = None"

text \<open>An update whose body is for something else than its path.\<close>

fun body_differs :: "web_call \<Rightarrow> bool" where
  "body_differs (PutApp path app) = (pa_name app \<noteq> path)"
| "body_differs (PutDevice path device_id device) = (pd_application device \<noteq> path \<or> pd_name device \<noteq> device_id)"
| "body_differs _ = False"

section \<open>What a call changes\<close>

fun call_request :: "web_call \<Rightarrow> request" where
  "call_request (PostApp app) = CreateApp app"
| "call_request (PutApp _ app) = UpdateApp app"
| "call_request (DeleteAppCall path params) = DeleteApp path params"
| "call_request (PostDevice _ device) = CreateDevice device"
| "call_request (PutDevice _ _ device) = UpdateDevice device"
| "call_request (DeleteDeviceCall path device_id params) = DeleteDevice path device_id params"
| "call_request (PutTransfer path new_user) = Transfer path new_user"
| "call_request (DeleteTransfer path) = Cancel path"
| "call_request (PutAccept path) = Accept path"
| "call_request (PutMembers path ms) = SetMembers path ms"

lemmas handler_defs = apps_create_def apps_update_def apps_delete_def devices_create_def devices_update_def devices_delete_def
  admin_transfer_def admin_cancel_def admin_accept_def admin_set_members_def

text \<open>A call is refused, or becomes one request to the service, for the application of its path or, for a new device, of its body.\<close>

lemma web_handle_cases:
  "(\<exists>r. web_handle rx fr user call s = (r, s))
   \<or> (\<exists>resp. web_handle rx fr user call s = answer resp (handle (rx_env rx) (rx_keycloak rx) fr user (call_request call) s)
        \<and> (request_app (call_request call) = call_path call \<or> posted_app call = Some (request_app (call_request call))))"
  by (cases call) (auto simp: handler_defs split: sum.split)

text \<open>
  C8. A call changes nothing outside the application in its path (for a new application: the
  one it names): after any call, however it ends, the rows of every other application, with its
  devices and aliases, are what they were.  The one exception is the call that creates a
  device: its body is not compared with its path, the device is created in the application the
  body names (\<open>device_created_elsewhere\<close>), and the claim excludes that application too.  An update
  is compared: when its body names another application or device than its path, the answer is
  400 and nothing at all changes.
\<close>

theorem web_call_stays_in_path:
  assumes "reg_inv (m_reg s)" and "n \<noteq> call_path call" and "posted_app call \<noteq> Some n"
  shows "app_part n (m_reg (snd (web_handle rx fr user call s))) = app_part n (m_reg s)
     \<and> (body_differs call \<longrightarrow> web_handle rx fr user call s = (Inr (respond 400 WebEmpty), s))"
proof -
  consider r where "web_handle rx fr user call s = (r, s)"
    | resp where "web_handle rx fr user call s = answer resp (handle (rx_env rx) (rx_keycloak rx) fr user (call_request call) s)"
        "request_app (call_request call) = call_path call \<or> posted_app call = Some (request_app (call_request call))"
    using web_handle_cases[of rx fr user call s] by blast
  then have "app_part n (m_reg (snd (web_handle rx fr user call s))) = app_part n (m_reg s)"
  proof cases
    case 2
    then show ?thesis using request_frame[OF assms(1), of "rx_env rx" "rx_keycloak rx" fr user "call_request call"] assms(2,3)
      by (auto simp: answer_def handle_transact transact_state split: sum.splits)
  qed simp
  moreover have "body_differs call \<longrightarrow> web_handle rx fr user call s = (Inr (respond 400 WebEmpty), s)"
    by (cases call) (auto simp: apps_update_def devices_update_def)
  ultimately show ?thesis by blast
qed

text \<open>The path of a new device is not compared with the device: the device is created where it says, the location names the path.\<close>

lemma device_created_elsewhere:
  assumes "pd_name device \<noteq> []" and "pd_application device \<noteq> []" and "length (pd_name device) \<le> 255"
    and "rx_url_for rx ''device'' [path, pd_name device] = Inr location" and "create_device (rx_env rx) fr user device s = (Inr (), s')"
  shows "web_handle rx fr user (PostDevice path device) s = (Inr \<lparr>wb_status = 201, wb_location = Some location, wb_body = WebEmpty\<rparr>, s')"
  using assms by (simp add: devices_create_def answer_def respond_def)

section \<open>Lists\<close>

fun good_texts :: "('a \<Rightarrow> string + string) \<Rightarrow> (string + 'a) list \<Rightarrow> string list" where
  "good_texts to_vec [] = []"
| "good_texts to_vec (Inl e # items) = good_texts to_vec items"
| "good_texts to_vec (Inr a # items) = (case to_vec a of Inr t \<Rightarrow> t # good_texts to_vec items | Inl e \<Rightarrow> good_texts to_vec items)"

definition streamed :: "(string + string) list \<Rightarrow> string" where
  "streamed chunks = concat (map (\<lambda>c. case c of Inr data \<Rightarrow> data | Inl _ \<Rightarrow> []) chunks)"

lemma streamed_end: "streamed (stream_chunks to_vec StreamEnd items) = []"
  by (subst stream_chunks.simps) (simp add: poll_next_def streamed_def)

lemma streamed_data: "streamed (stream_chunks to_vec StreamData items) = concat (map ((#) (CHR '','')) (good_texts to_vec items)) @ '']''"
proof (induction items rule: good_texts.induct[of _ to_vec])
  case (1 to_vec)
  then show ?case using streamed_end[of to_vec "[]"] by (subst stream_chunks.simps) (simp add: poll_next_def streamed_def)
next
  case (2 to_vec e items)
  then show ?case by (subst stream_chunks.simps) (simp add: poll_next_def streamed_def)
next
  case (3 to_vec a items)
  then show ?case by (subst stream_chunks.simps) (auto simp: poll_next_def streamed_def split: sum.splits)
qed

lemma join_commas: "join '','' (t # ts) = t @ concat (map ((#) (CHR '','')) ts)"
  by (induction ts arbitrary: t) (simp_all add: join_Cons)

text \<open>
  The body of a list is a well-formed array: whatever items and encodings fail, the data
  that is sent is one array of the texts of the other items, in their order.
\<close>

lemma array_streamer_wellformed:
  "streamed (stream_chunks to_vec StreamStart items) = ''['' @ join '','' (good_texts to_vec items) @ '']''"
proof (induction items rule: good_texts.induct[of _ to_vec])
  case (1 to_vec)
  then show ?case using streamed_end[of to_vec "[]"] by (subst stream_chunks.simps) (simp add: poll_next_def streamed_def)
next
  case (2 to_vec e items)
  then show ?case by (subst stream_chunks.simps) (simp add: poll_next_def streamed_def)
next
  case (3 to_vec a items)
  then show ?case using streamed_data[of to_vec items]
    by (subst stream_chunks.simps) (auto simp: poll_next_def streamed_def join_commas split: sum.splits)
qed

lemma good_texts_total: "(\<And>a. a \<in> set xs \<Longrightarrow> to_vec a = Inr (enc a)) \<Longrightarrow> good_texts to_vec (map Inr xs) = map enc xs"
  by (induction xs) simp_all

lemma may_read: "is_ok (ensure r i p) \<longleftrightarrow> authorize r i p = Allow"
  by (cases "authorize r i p") (simp_all add: ensure_def ensure_with_def)

text \<open>
  Which applications a list has, of those the user may read: all that have an owner; without
  an owner, and so readable by everybody, only those listed for an administrator or for a member.
\<close>

definition listed :: "user_information \<Rightarrow> app_row \<Rightarrow> bool" where
  "listed user r \<longleftrightarrow> ar_OWNER r \<noteq> None \<or> is_admin user
     \<or> (\<exists>ms. ar_MEMBERS r = Some ms \<and> (map_of ms (case user_id user of Some u \<Rightarrow> u | None \<Rightarrow> []) \<noteq> None \<or> map_of ms [] \<noteq> None))"

lemma read_visible_listed:
  assumes "authorize (app_resource (app_from_row r)) user PermRead = Allow"
  shows "read_visible user (app_view r) \<longleftrightarrow> listed user r"
  using assms
  by (cases user; cases "ar_OWNER r")
    (auto simp: read_visible_def listed_def authorize_def app_resource_def app_from_row_def app_view_def row_to_map_def
      member_name_def split: option.splits if_splits)

lemma list_apps_eq:
  "list_apps env user ops None None s = map (app_to_api env \<circ> app_from_row) (sort_key (\<lambda>r. env_collate env (ar_NAME r))
     (filter (\<lambda>r. (\<forall>op \<in> set ops. label_match op (app_view r)) \<and> listed user r
       \<and> authorize (app_resource (app_from_row r)) user PermRead = Allow) (r_applications (m_reg s))))"
proof -
  have "list_apps env user ops None None s = map (app_to_api env \<circ> app_from_row) (sort_key (\<lambda>r. env_collate env (ar_NAME r))
     (filter (\<lambda>r. ((\<forall>op \<in> set ops. label_match op (app_view r)) \<and> read_visible user (app_view r))
       \<and> authorize (app_resource (app_from_row r)) user PermRead = Allow) (r_applications (m_reg s))))"
    unfolding list_apps_def app_list_def may_read run_select_def Let_def
    by (simp add: selects_app_query app_view_def filter_map filter_sort o_def conj_commute)
  also have "(\<lambda>r. ((\<forall>op \<in> set ops. label_match op (app_view r)) \<and> read_visible user (app_view r))
       \<and> authorize (app_resource (app_from_row r)) user PermRead = Allow) =
      (\<lambda>r. (\<forall>op \<in> set ops. label_match op (app_view r)) \<and> listed user r
       \<and> authorize (app_resource (app_from_row r)) user PermRead = Allow)"
    using read_visible_listed by blast
  finally show ?thesis .
qed

text \<open>
  C7. From the text of a selector to the body of the answer: a list request without limit and
  offset, whose parameter is the text of some conditions, answers with an array of exactly
  these applications, in the order of their names: those that satisfy all the conditions, that
  the user may read, and that are listed for the user.  Every application with an owner is
  listed; one without, although everybody may read it, is listed only to administrators and
  where its members have an entry for the user or the anonymous one (\<open>listed\<close>).
\<close>

theorem list_by_selector:
  assumes "nom_works (rx_nom rx)" and "\<forall>op \<in> set ops. op_ok op" and "\<And>a. rx_app_json rx a = Inr (enc a)"
  shows "\<exists>chunks apps. apps_list rx user \<lparr>lp_labels = join '','' (map render_op ops), lp_limit = None, lp_offset = None\<rparr> s
       = Inr (respond 200 (WebStream chunks))
     \<and> streamed chunks = ''['' @ join '','' (map enc apps) @ '']''
     \<and> apps = map (app_to_api (rx_env rx) \<circ> app_from_row) (sort_key (\<lambda>r. env_collate (rx_env rx) (ar_NAME r))
         (filter (\<lambda>r. (\<forall>op \<in> set ops. label_match op (app_view r)) \<and> listed user r
           \<and> authorize (app_resource (app_from_row r)) user PermRead = Allow) (r_applications (m_reg s))))"
proof -
  let ?apps = "list_apps (rx_env rx) user ops None None s"
  let ?chunks = "stream_chunks (rx_app_json rx) StreamStart (map Inr ?apps)"
  have "apps_list rx user \<lparr>lp_labels = join '','' (map render_op ops), lp_limit = None, lp_offset = None\<rparr> s = Inr (respond 200 (WebStream ?chunks))"
    by (simp add: apps_list_def read_selector_def selector_roundtrip[OF assms(1,2)])
  moreover have "streamed ?chunks = ''['' @ join '','' (map enc ?apps) @ '']''"
    using good_texts_total[of ?apps "rx_app_json rx" enc] assms(3) by (simp add: array_streamer_wellformed)
  ultimately show ?thesis using list_apps_eq[of "rx_env rx" user ops s] by blast
qed

section \<open>An example\<close>

definition demo_rest :: rest_env where
  "demo_rest = \<lparr>rx_env = demo_env, rx_keycloak = demo_keycloak, rx_nom = demo_nom, rx_hostname_valid = (\<lambda>_. True),
     rx_url_for = (\<lambda>k ps. Inr (join ''/'' (k # ps))), rx_app_json = (\<lambda>a. Inr (pa_name a)), rx_device_json = (\<lambda>d. Inr (pd_name d))\<rparr>"

theorem web_call_stays_in_path_witness:
  "app_part ''a'' (m_reg (snd (web_handle demo_rest demo_fresh (demo_user ''x'') (PutApp ''b'' demo_api_app) (demo_state (Some ''x'')))))
     = app_part ''a'' (m_reg (demo_state (Some ''x'')))
   \<and> web_handle demo_rest demo_fresh (demo_user ''x'') (PutApp ''b'' demo_api_app) (demo_state (Some ''x'')) =
       (Inr (respond 400 WebEmpty), demo_state (Some ''x''))"
  using web_call_stays_in_path[OF demo_reg_inv, of "''a''" "PutApp ''b'' demo_api_app" demo_rest demo_fresh "demo_user ''x''" "Some ''x''"]
  by (simp add: demo_api_app_def)

theorem list_by_selector_witness:
  "\<exists>chunks (apps :: api_application list). apps_list demo_rest (demo_user ''x'') \<lparr>lp_labels = ''!foo'', lp_limit = None, lp_offset = None\<rparr> (demo_state (Some ''x''))
       = Inr (respond 200 (WebStream chunks)) \<and> streamed chunks = ''['' @ join '','' (map pa_name apps) @ '']'' \<and> map pa_name apps = [''a'']"
proof -
  have "label_ok ''foo''" by (simp add: label_ok_def value_ok_def letter_or_digit_def letter_def in_range_def)
  then have ops: "\<forall>op \<in> set [NotExists ''foo'']. op_ok op" by simp
  have rx: "nom_works (rx_nom demo_rest)" "rx_app_json demo_rest a = Inr (pa_name a)" for a by (simp_all add: demo_rest_def demo_nom_works)
  have label: "join '','' (map render_op [NotExists ''foo'']) = ''!foo''" by simp
  have "map pa_name (map (app_to_api (rx_env demo_rest) \<circ> app_from_row) (sort_key (\<lambda>r. env_collate (rx_env demo_rest) (ar_NAME r))
         (filter (\<lambda>r. (\<forall>op \<in> set [NotExists ''foo'']. label_match op (app_view r)) \<and> listed (demo_user ''x'') r
           \<and> authorize (app_resource (app_from_row r)) (demo_user ''x'') PermRead = Allow)
          (r_applications (m_reg (demo_state (Some ''x''))))))) = [''a'']"
    by (simp add: demo_state_def demo_app_def listed_def authorize_def app_resource_def app_from_row_def demo_user_def
        app_view_def app_to_api_def label_of_def)
  moreover from list_by_selector[OF rx(1) ops rx(2), of "demo_user ''x''" "demo_state (Some ''x'')", unfolded label]
  obtain chunks apps where "apps_list demo_rest (demo_user ''x'') \<lparr>lp_labels = ''!foo'', lp_limit = None, lp_offset = None\<rparr>
      (demo_state (Some ''x'')) = Inr (respond 200 (WebStream chunks))"
    "streamed chunks = ''['' @ join '','' (map pa_name apps) @ '']''"
    "apps = map (app_to_api (rx_env demo_rest) \<circ> app_from_row) (sort_key (\<lambda>r. env_collate (rx_env demo_rest) (ar_NAME r))
         (filter (\<lambda>r. (\<forall>op \<in> set [NotExists ''foo'']. label_match op (app_view r)) \<and> listed (demo_user ''x'') r
           \<and> authorize (app_resource (app_from_row r)) (demo_user ''x'') PermRead = Allow)
          (r_applications (m_reg (demo_state (Some ''x''))))))"
    by (elim exE conjE) (rule that)
  ultimately show ?thesis by (intro exI conjI) (assumption | simp only:)+
qed

end
