(* ===== verification/Event_Rules.thy ===== *)
theory Event_Rules
  imports Registry_Events
begin

text \<open>
  The pre-processing of published events (\<open>endpoint-common/src/sender/process\<close>): rules with
  conditions and steps, external endpoints that validate or enrich an event, and the pool of
  HTTP clients.

  Parameters: the parsers of URLs, HTTP methods, headers and certificates, the HTTP
  transport, the codecs of cloud events and JSON.  The transport may answer differently from
  call to call: it sees the calls made so far.
\<close>

section \<open>Data\<close>

record data_event = cloud_event +
  de_time :: "timestamp option"
  de_datacontenttype :: "string option"
  de_dataschema :: "string option"

datatype when_cond =
    WhenAlways
  | WhenNot when_cond
  | WhenAnd "when_cond list"
  | WhenOr "when_cond list"
  | WhenIsChannel string

datatype endpoint_auth = AuthNone | AuthBasic string "string option" | AuthBearer string

record tls_options =
  tls_insecure :: bool
  tls_certificate :: "string option"

record external_endpoint =
  ep_method :: "string option"
  ep_url :: string
  ep_tls :: "tls_options option"
  ep_auth :: endpoint_auth
  ep_headers :: "(string \<times> string) list"
  ep_timeout :: "nat option"

datatype content_mode = ModeBinary | ModeStructured

datatype request_type = RequestCloudEvent content_mode

datatype response_type = ResponseCloudEvent | ResponseRaw | ResponseAssumeStructured

record validate_spec =
  vs_request :: request_type
  vs_endpoint :: external_endpoint

record enrich_spec =
  es_request :: request_type
  es_response :: response_type
  es_endpoint :: external_endpoint

datatype step =
    StepDrop
  | StepBreak
  | StepReject string
  | StepSetAttribute string string
  | StepRemoveAttribute string
  | StepSetExtension string string
  | StepRemoveExtension string
  | StepValidate validate_spec
  | StepEnrich enrich_spec

record rule =
  ru_when :: when_cond
  ru_then :: "step list"

datatype step_outcome = Continue data_event | Accept data_event | Reject string | Drop

datatype process_outcome = OutAccepted data_event | OutRejected string | OutDropped

datatype external_error = InvalidConfiguration string | RequestError | CloudEventError

datatype process_error =
    EventFailure
  | Config string
  | ExternalEndpointError external_error
  | ExternalResponse nat

section \<open>External endpoints\<close>

record ext_client =
  xc_accept_invalid :: bool
  xc_root_certificate :: "string option"

datatype request_payload = PayloadCloudEvent content_mode data_event

record ext_request =
  xr_method :: string
  xr_url :: string
  xr_headers :: "string smap"
  xr_auth :: endpoint_auth
  xr_timeout :: nat
  xr_payload :: request_payload

record http_response =
  hr_status :: nat
  hr_content_type :: "string option"
  hr_body :: "string option"

type_synonym ext_call = "ext_client \<times> ext_request"

record rules_env =
  re_to_method :: "string \<Rightarrow> string + string option"
  re_valid_url :: "string \<Rightarrow> bool"
  re_header_name :: "string \<Rightarrow> string option"
  re_header_value_ok :: "string \<Rightarrow> bool"
  re_certificate_ok :: "string \<Rightarrow> bool"
  re_encodes :: "content_mode \<Rightarrow> data_event \<Rightarrow> bool"
  re_send :: "ext_call list \<Rightarrow> ext_client \<Rightarrow> ext_request \<Rightarrow> http_response option"
  re_json :: "string \<Rightarrow> json option"
  re_text :: "string \<Rightarrow> string"
  re_response_event :: "http_response \<Rightarrow> data_event option"
  re_event_of_json :: "string \<Rightarrow> data_event option"

type_synonym client_cache = "(tls_options option \<times> ext_client) list"

record proc_state =
  ps_cache :: client_cache
  ps_calls :: "ext_call list"

definition DEFAULT_TIMEOUT :: nat where "DEFAULT_TIMEOUT = 5000"

definition client_new :: "rules_env \<Rightarrow> tls_options option \<Rightarrow> external_error + ext_client" where
  "client_new env tls =
     (case tls of
        None \<Rightarrow> Inr \<lparr>xc_accept_invalid = False, xc_root_certificate = None\<rparr>
      | Some tls \<Rightarrow>
          (case tls_certificate tls of
             None \<Rightarrow> Inr \<lparr>xc_accept_invalid = tls_insecure tls, xc_root_certificate = None\<rparr>
           | Some cert \<Rightarrow>
               if re_certificate_ok env cert
               then Inr \<lparr>xc_accept_invalid = tls_insecure tls, xc_root_certificate = Some cert\<rparr>
               else Inl RequestError))"

text \<open>The LRU cache: the entries from the most to the least recently used one.\<close>

definition lru_get :: "'k \<Rightarrow> ('k \<times> 'v) list \<Rightarrow> 'v option \<times> ('k \<times> 'v) list" where
  "lru_get k cache =
     (case map_of cache k of
        None \<Rightarrow> (None, cache)
      | Some v \<Rightarrow> (Some v, (k, v) # filter (\<lambda>e. fst e \<noteq> k) cache))"

definition lru_put :: "nat \<Rightarrow> 'k \<Rightarrow> 'v \<Rightarrow> ('k \<times> 'v) list \<Rightarrow> ('k \<times> 'v) list" where
  "lru_put capacity k v cache = take capacity ((k, v) # filter (\<lambda>e. fst e \<noteq> k) cache)"

definition pool_get ::
  "rules_env \<Rightarrow> nat \<Rightarrow> external_endpoint \<Rightarrow> client_cache \<Rightarrow> (external_error + ext_client) \<times> client_cache" where
  "pool_get env capacity endpoint cache =
     (case lru_get (ep_tls endpoint) cache of
        (Some client, cache') \<Rightarrow> (Inr client, cache')
      | (None, cache') \<Rightarrow>
          (case client_new env (ep_tls endpoint) of
             Inl e \<Rightarrow> (Inl e, cache')
           | Inr client \<Rightarrow> (Inr client, lru_put capacity (ep_tls endpoint) client cache')))"

fun request_headers ::
  "rules_env \<Rightarrow> (string \<times> string) list \<Rightarrow> string smap \<Rightarrow> external_error + string smap" where
  "request_headers env [] headers = Inr headers"
| "request_headers env ((n, v) # entries) headers =
     (case re_header_name env n of
        None \<Rightarrow> Inl (InvalidConfiguration ''Invalid header name'')
      | Some name \<Rightarrow>
          if re_header_value_ok env v then request_headers env entries (AList.update name v headers)
          else Inl (InvalidConfiguration ''Invalid header value''))"

fun to_payload :: "request_type \<Rightarrow> data_event \<Rightarrow> request_payload" where
  "to_payload (RequestCloudEvent mode) event = PayloadCloudEvent mode event"

definition build_request ::
  "rules_env \<Rightarrow> request_payload \<Rightarrow> external_endpoint \<Rightarrow> external_error + ext_request" where
  "build_request env payload endpoint =
     rbind (case re_to_method env (case ep_method endpoint of Some m \<Rightarrow> m | None \<Rightarrow> []) of
              Inl e \<Rightarrow> Inl (InvalidConfiguration e)
            | Inr m \<Rightarrow> Inr (case m of Some m \<Rightarrow> m | None \<Rightarrow> ''POST'')) (\<lambda>meth.
     rbind (if re_valid_url env (ep_url endpoint) then Inr (ep_url endpoint)
            else Inl (InvalidConfiguration ''Invalid URL'')) (\<lambda>url.
     rbind (request_headers env (ep_headers endpoint) []) (\<lambda>headers.
     rbind (case payload of PayloadCloudEvent mode event \<Rightarrow>
              if re_encodes env mode event then Inr payload else Inl CloudEventError) (\<lambda>payload.
       Inr \<lparr>xr_method = meth, xr_url = url, xr_headers = headers, xr_auth = ep_auth endpoint,
            xr_timeout = (case ep_timeout endpoint of Some t \<Rightarrow> t | None \<Rightarrow> DEFAULT_TIMEOUT),
            xr_payload = payload\<rparr>))))"

definition client_process ::
  "rules_env \<Rightarrow> ext_client \<Rightarrow> request_payload \<Rightarrow> external_endpoint \<Rightarrow> ext_call list
    \<Rightarrow> (external_error + http_response) \<times> ext_call list" where
  "client_process env client payload endpoint calls =
     (case build_request env payload endpoint of
        Inl e \<Rightarrow> (Inl e, calls)
      | Inr request \<Rightarrow>
          (ok_or RequestError (re_send env calls client request), calls @ [(client, request)]))"

text \<open>\<open>self.pool.get(..)\<close> followed by \<open>client.process(..)\<close>, with the errors of both.\<close>

definition call_endpoint ::
  "rules_env \<Rightarrow> nat \<Rightarrow> request_type \<Rightarrow> external_endpoint \<Rightarrow> data_event \<Rightarrow> proc_state
    \<Rightarrow> (process_error + http_response) \<times> proc_state" where
  "call_endpoint env capacity rt endpoint event s =
     (case pool_get env capacity endpoint (ps_cache s) of
        (Inl e, cache) \<Rightarrow> (Inl (ExternalEndpointError e), s\<lparr>ps_cache := cache\<rparr>)
      | (Inr client, cache) \<Rightarrow>
          (case client_process env client (to_payload rt event) endpoint (ps_calls s) of
             (Inl e, calls) \<Rightarrow> (Inl (ExternalEndpointError e), \<lparr>ps_cache = cache, ps_calls = calls\<rparr>)
           | (Inr response, calls) \<Rightarrow> (Inr response, \<lparr>ps_cache = cache, ps_calls = calls\<rparr>)))"

section \<open>Steps\<close>

definition ends_with :: "string \<Rightarrow> string \<Rightarrow> bool" where
  "ends_with s suff \<longleftrightarrow> (length suff \<le> length s \<and> drop (length s - length suff) s = suff)"

definition is_json :: "string \<Rightarrow> bool" where
  "is_json content_type \<longleftrightarrow> starts_with content_type ''application/json''
     \<or> starts_with content_type ''text/json'' \<or> ends_with content_type ''+json''"

fun is_when :: "when_cond \<Rightarrow> data_event \<Rightarrow> bool" where
  "is_when WhenAlways event = True"
| "is_when (WhenNot w) event = (\<not> is_when w event)"
| "is_when (WhenAnd ws) event = (if ws = [] then False else list_all (\<lambda>w. is_when w event) ws)"
| "is_when (WhenOr ws) event = list_ex (\<lambda>w. is_when w event) ws"
| "is_when (WhenIsChannel channel) event =
     (case ce_subject event of Some subject \<Rightarrow> channel = subject | None \<Rightarrow> False)"

definition set_attribute ::
  "rules_env \<Rightarrow> data_event \<Rightarrow> string \<Rightarrow> string option \<Rightarrow> process_error + data_event" where
  "set_attribute env event name value =
     (if name = ''datacontenttype'' then Inr (event\<lparr>de_datacontenttype := value\<rparr>)
      else if name = ''dataschema'' then
        (case value of
           None \<Rightarrow> Inr (event\<lparr>de_dataschema := None\<rparr>)
         | Some url \<Rightarrow> if re_valid_url env url then Inr (event\<lparr>de_dataschema := Some url\<rparr>)
                       else Inl (Config ''Invalid URL''))
      else if name = ''subject'' then Inr (event\<lparr>ce_subject := value\<rparr>)
      else if name = ''type'' then
        (case value of
           Some v \<Rightarrow> Inr (event\<lparr>ce_ty := v\<rparr>)
         | None \<Rightarrow> Inl (Config (''Removing the '' @ [CHR 0x27] @ ''type'' @ [CHR 0x27] @ '' attribute is not valid'')))
      else Inl (Config (''Unknown or immutable attribute: '' @ name)))"

definition enrich ::
  "rules_env \<Rightarrow> nat \<Rightarrow> enrich_spec \<Rightarrow> data_event \<Rightarrow> proc_state \<Rightarrow> (process_error + step_outcome) \<times> proc_state" where
  "enrich env capacity spec event s =
     (let (r, s') = call_endpoint env capacity (es_request spec) (es_endpoint spec) event s
      in (rbind r (\<lambda>response.
            if hr_status response \<noteq> 200 then Inl (ExternalResponse (hr_status response))
            else (case es_response spec of
                    ResponseRaw \<Rightarrow>
                      rbind (ok_or (ExternalEndpointError RequestError) (hr_body response)) (\<lambda>data.
                        Inr (Continue (event\<lparr>
                          de_datacontenttype := Some (case hr_content_type response of
                             Some t \<Rightarrow> t | None \<Rightarrow> ''application/octet-stream''),
                          ce_payload := Some (DBinary data)\<rparr>)))
                  | ResponseAssumeStructured \<Rightarrow>
                      rbind (ok_or (ExternalEndpointError RequestError)
                               (Option.bind (hr_body response) (re_event_of_json env))) (\<lambda>event.
                        Inr (Continue event))
                  | ResponseCloudEvent \<Rightarrow>
                      rbind (ok_or EventFailure (re_response_event env response)) (\<lambda>event.
                        Inr (Continue event)))), s'))"

definition reject_reason :: "rules_env \<Rightarrow> http_response \<Rightarrow> process_error + string" where
  "reject_reason env response =
     (if is_json (case hr_content_type response of Some t \<Rightarrow> t | None \<Rightarrow> [])
      then rbind (ok_or (ExternalEndpointError RequestError) (Option.bind (hr_body response) (re_json env))) (\<lambda>body.
             Inr (case body of
                    Object m \<Rightarrow> (case map_of m ''reason'' of Some (String r) \<Rightarrow> r | _ \<Rightarrow> ''Rejected'')
                  | _ \<Rightarrow> ''Rejected''))
      else rbind (ok_or (ExternalEndpointError RequestError) (hr_body response)) (\<lambda>body. Inr (re_text env body)))"

definition validate ::
  "rules_env \<Rightarrow> nat \<Rightarrow> validate_spec \<Rightarrow> data_event \<Rightarrow> proc_state \<Rightarrow> (process_error + step_outcome) \<times> proc_state" where
  "validate env capacity spec event s =
     (let (r, s') = call_endpoint env capacity (vs_request spec) (vs_endpoint spec) event s
      in (rbind r (\<lambda>response.
            let code = hr_status response in
            if code = 200 \<or> code = 204 then Inr (Continue event)
            else if code = 202 then Inr (Accept event)
            else if 400 \<le> code \<and> code < 500 then rbind (reject_reason env response) (\<lambda>reason. Inr (Reject reason))
            else Inl (ExternalResponse code)), s'))"

fun do_step ::
  "rules_env \<Rightarrow> nat \<Rightarrow> step \<Rightarrow> data_event \<Rightarrow> proc_state \<Rightarrow> (process_error + step_outcome) \<times> proc_state" where
  "do_step env capacity StepDrop event s = (Inr Drop, s)"
| "do_step env capacity StepBreak event s = (Inr (Accept event), s)"
| "do_step env capacity (StepReject reason) event s = (Inr (Reject reason), s)"
| "do_step env capacity (StepSetAttribute name value) event s =
     (rbind (set_attribute env event name (Some value)) (\<lambda>event. Inr (Continue event)), s)"
| "do_step env capacity (StepRemoveAttribute name) event s =
     (rbind (set_attribute env event name None) (\<lambda>event. Inr (Continue event)), s)"
| "do_step env capacity (StepSetExtension name value) event s =
     (Inr (Continue (event\<lparr>ce_extensions := AList.update name (EVString value) (ce_extensions event)\<rparr>)), s)"
| "do_step env capacity (StepRemoveExtension name) event s =
     (Inr (Continue (event\<lparr>ce_extensions := AList.delete name (ce_extensions event)\<rparr>)), s)"
| "do_step env capacity (StepValidate spec) event s = validate env capacity spec event s"
| "do_step env capacity (StepEnrich spec) event s = enrich env capacity spec event s"

fun handle_steps ::
  "rules_env \<Rightarrow> nat \<Rightarrow> step list \<Rightarrow> data_event \<Rightarrow> proc_state \<Rightarrow> (process_error + step_outcome) \<times> proc_state" where
  "handle_steps env capacity [] event s = (Inr (Continue event), s)"
| "handle_steps env capacity (st # steps) event s =
     (case do_step env capacity st event s of
        (Inl e, s') \<Rightarrow> (Inl e, s')
      | (Inr (Continue event'), s') \<Rightarrow> handle_steps env capacity steps event' s'
      | (Inr (Accept event'), s') \<Rightarrow> (Inr (Accept event'), s')
      | (Inr Drop, s') \<Rightarrow> (Inr Drop, s')
      | (Inr (Reject reason), s') \<Rightarrow> (Inr (Reject reason), s'))"

fun process ::
  "rules_env \<Rightarrow> nat \<Rightarrow> rule list \<Rightarrow> data_event \<Rightarrow> proc_state \<Rightarrow> (process_error + process_outcome) \<times> proc_state" where
  "process env capacity [] event s = (Inr (OutAccepted event), s)"
| "process env capacity (r # rules) event s =
     (if is_when (ru_when r) event then
        (case handle_steps env capacity (ru_then r) event s of
           (Inl e, s') \<Rightarrow> (Inl e, s')
         | (Inr (Continue event'), s') \<Rightarrow> process env capacity rules event' s'
         | (Inr (Accept event'), s') \<Rightarrow> (Inr (OutAccepted event'), s')
         | (Inr Drop, s') \<Rightarrow> (Inr OutDropped, s')
         | (Inr (Reject reason), s') \<Rightarrow> (Inr (OutRejected reason), s'))
      else process env capacity rules event s)"

section \<open>The pool is only a cache\<close>

text \<open>
  What a client of a cache needs of it: it returns what was stored, and neither looking up
  nor storing makes other entries appear.
\<close>

locale memo =
  fixes lookup_entry :: "'k \<Rightarrow> 'c \<Rightarrow> 'v option \<times> 'c"
    and store :: "'k \<Rightarrow> 'v \<Rightarrow> 'c \<Rightarrow> 'c"
    and entries :: "'c \<Rightarrow> ('k \<times> 'v) set"
  assumes lookup_sound: "lookup_entry k c = (Some v, c') \<Longrightarrow> (k, v) \<in> entries c"
    and lookup_entries: "entries (snd (lookup_entry k c)) \<subseteq> entries c"
    and store_entries: "entries (store k v c) \<subseteq> insert (k, v) (entries c)"
begin

lemma memoised:
  assumes "\<forall>(k, v) \<in> entries c. mk k = Inr v"
  shows "fst (case lookup_entry k c of
        (Some v, c') \<Rightarrow> (Inr v, c')
      | (None, c') \<Rightarrow> (case mk k of Inl e \<Rightarrow> (Inl e, c') | Inr v \<Rightarrow> (Inr v, store k v c'))) = mk k
   \<and> (\<forall>(k, v) \<in> entries (snd (case lookup_entry k c of
        (Some v, c') \<Rightarrow> (Inr v, c')
      | (None, c') \<Rightarrow> (case mk k of Inl e \<Rightarrow> (Inl e, c') | Inr v \<Rightarrow> (Inr v, store k v c')))). mk k = Inr v)"
proof (cases "lookup_entry k c")
  case (Pair r c')
  have sub: "entries c' \<subseteq> entries c" using lookup_entries[of k c] Pair by simp
  show ?thesis
  proof (cases r)
    case None
    show ?thesis
    proof (cases "mk k")
      case (Inl e)
      then show ?thesis using assms sub Pair None by auto
    next
      case (Inr v)
      then show ?thesis using assms sub Pair None store_entries[of k v c'] by fastforce
    qed
  next
    case (Some v)
    then have "mk k = Inr v" using lookup_sound Pair assms by fastforce
    then show ?thesis using assms sub Pair Some by auto
  qed
qed

end

interpretation lru: memo lru_get "lru_put capacity" set for capacity
  by unfold_locales
    (auto simp: lru_get_def lru_put_def dest: map_of_SomeD in_set_takeD split: option.splits)

definition cache_ok :: "rules_env \<Rightarrow> proc_state \<Rightarrow> bool" where
  "cache_ok env s \<longleftrightarrow> (\<forall>(k, v) \<in> set (ps_cache s). client_new env k = Inr v)"

lemma pool_get_ok:
  assumes "\<forall>(k, v) \<in> set cache. client_new env k = Inr v"
  shows "fst (pool_get env capacity ep cache) = client_new env (ep_tls ep)
     \<and> (\<forall>(k, v) \<in> set (snd (pool_get env capacity ep cache)). client_new env k = Inr v)"
  using lru.memoised[OF assms, of capacity "ep_tls ep"] unfolding pool_get_def .

lemma pool_get_bounded:
  assumes "length cache \<le> capacity"
  shows "length (snd (pool_get env capacity ep cache)) \<le> capacity"
proof -
  have "length (filter (\<lambda>e. fst e \<noteq> k) cache) < length cache" if "map_of cache k = Some v" for k v
    using map_of_SomeD[OF that] by (intro length_filter_less[of "(k, v)"]) auto
  then show ?thesis
    using assms by (fastforce simp: pool_get_def lru_get_def lru_put_def split: option.splits sum.splits)
qed

text \<open>Two states that differ in their caches only, both of them sound.\<close>

definition same_world :: "rules_env \<Rightarrow> proc_state \<Rightarrow> proc_state \<Rightarrow> bool" where
  "same_world env s t \<longleftrightarrow> ps_calls s = ps_calls t \<and> cache_ok env s \<and> cache_ok env t"

definition alike :: "rules_env \<Rightarrow> 'r \<times> proc_state \<Rightarrow> 'r \<times> proc_state \<Rightarrow> bool" where
  "alike env x y \<longleftrightarrow> fst x = fst y \<and> same_world env (snd x) (snd y)"

lemma alikeE:
  assumes "alike env x y"
  obtains r s t where "x = (r, s)" "y = (r, t)" "same_world env s t"
  using assms by (cases x; cases y) (auto simp: alike_def)

lemma call_endpoint_alike:
  assumes "same_world env s t"
  shows "alike env (call_endpoint env cap rt ep ev s) (call_endpoint env cap' rt ep ev t)"
proof -
  have s: "\<forall>(k, v) \<in> set (ps_cache s). client_new env k = Inr v"
    and t: "\<forall>(k, v) \<in> set (ps_cache t). client_new env k = Inr v"
    using assms by (auto simp: same_world_def cache_ok_def)
  obtain r c1 c2 where "pool_get env cap ep (ps_cache s) = (r, c1)" "pool_get env cap' ep (ps_cache t) = (r, c2)"
    "\<forall>(k, v) \<in> set c1. client_new env k = Inr v" "\<forall>(k, v) \<in> set c2. client_new env k = Inr v"
    using pool_get_ok[OF s, of cap ep] pool_get_ok[OF t, of cap' ep] by (metis prod.collapse)
  then show ?thesis
    using assms by (auto simp: call_endpoint_def alike_def same_world_def cache_ok_def split: sum.splits prod.splits)
qed

lemma do_step_alike:
  assumes "same_world env s t"
  shows "alike env (do_step env cap st ev s) (do_step env cap' st ev t)"
proof (cases st)
  case (StepValidate spec)
  show ?thesis
    using call_endpoint_alike[OF assms, of cap "vs_request spec" "vs_endpoint spec" ev cap']
    unfolding StepValidate by (elim alikeE) (simp add: validate_def alike_def Let_def)
next
  case (StepEnrich spec)
  show ?thesis
    using call_endpoint_alike[OF assms, of cap "es_request spec" "es_endpoint spec" ev cap']
    unfolding StepEnrich by (elim alikeE) (simp add: enrich_def alike_def Let_def)
qed (use assms in \<open>simp_all add: alike_def\<close>)

lemma handle_steps_alike:
  "same_world env s t \<Longrightarrow> alike env (handle_steps env cap steps ev s) (handle_steps env cap' steps ev t)"
proof (induction steps arbitrary: ev s t)
  case (Cons st steps)
  obtain r s' t' where *: "do_step env cap st ev s = (r, s')" "do_step env cap' st ev t = (r, t')" "same_world env s' t'"
    using do_step_alike[OF Cons.prems] by (rule alikeE)
  then show ?case
    using Cons.IH[OF *(3)] by (simp add: alike_def split: sum.splits step_outcome.splits)
qed (simp add: alike_def)

lemma process_alike:
  "same_world env s t \<Longrightarrow> alike env (process env cap rules ev s) (process env cap' rules ev t)"
proof (induction rules arbitrary: ev s t)
  case (Cons r rules)
  show ?case
  proof (cases "is_when (ru_when r) ev")
    case True
    obtain x s' t' where *: "handle_steps env cap (ru_then r) ev s = (x, s')"
        "handle_steps env cap' (ru_then r) ev t = (x, t')" "same_world env s' t'"
      using handle_steps_alike[OF Cons.prems] by (rule alikeE)
    then show ?thesis
      using True Cons.IH[OF *(3)] by (simp add: alike_def split: sum.splits step_outcome.splits)
  qed (simp add: Cons)
qed (simp add: alike_def)

text \<open>
  C35. The pool of HTTP clients is only a cache: with a sound cache of any capacity the outcome
  of the rules and the calls of external endpoints are those of a run that creates every
  client anew, and the cache is sound afterwards.
\<close>

theorem process_cache_transparent:
  assumes "cache_ok env s"
  shows "fst (process env capacity rules ev s) = fst (process env 0 rules ev (s\<lparr>ps_cache := []\<rparr>))
     \<and> ps_calls (snd (process env capacity rules ev s)) = ps_calls (snd (process env 0 rules ev (s\<lparr>ps_cache := []\<rparr>)))
     \<and> cache_ok env (snd (process env capacity rules ev s))"
proof -
  have "same_world env s (s\<lparr>ps_cache := []\<rparr>)" using assms by (simp add: same_world_def cache_ok_def)
  from process_alike[OF this] show ?thesis by (simp add: alike_def same_world_def)
qed

definition demo_rules_env :: rules_env where
  "demo_rules_env = \<lparr>re_to_method = (\<lambda>m. Inr (if m = [] then None else Some m)), re_valid_url = (\<lambda>_. True),
     re_header_name = Some, re_header_value_ok = (\<lambda>_. True), re_certificate_ok = (\<lambda>_. True),
     re_encodes = (\<lambda>_ _. True),
     re_send = (\<lambda>calls _ _. Some \<lparr>hr_status = 200, hr_content_type = Some ''text/plain'',
        hr_body = Some (nat_str (length calls))\<rparr>),
     re_json = (\<lambda>_. None), re_text = (\<lambda>s. s), re_response_event = (\<lambda>_. None), re_event_of_json = (\<lambda>_. None)\<rparr>"

definition demo_endpoint :: external_endpoint where
  "demo_endpoint = \<lparr>ep_method = None, ep_url = ''http://e'', ep_tls = Some \<lparr>tls_insecure = True, tls_certificate = None\<rparr>,
     ep_auth = AuthNone, ep_headers = [], ep_timeout = None\<rparr>"

definition demo_rules :: "rule list" where
  "demo_rules = [\<lparr>ru_when = WhenIsChannel ''state'', ru_then =
     [StepValidate \<lparr>vs_request = RequestCloudEvent ModeBinary, vs_endpoint = demo_endpoint\<rparr>,
      StepEnrich \<lparr>es_request = RequestCloudEvent ModeBinary, es_response = ResponseRaw, es_endpoint = demo_endpoint\<rparr>,
      StepSetExtension ''x'' ''y'']\<rparr>, \<lparr>ru_when = WhenNot (WhenAnd []), ru_then = [StepBreak]\<rparr>]"

definition demo_event :: data_event where
  "demo_event = \<lparr>ce_id = ''1'', ce_ty = ''t'', ce_source = ''drogue://a/d'', ce_subject = Some ''state'',
     ce_extensions = [(''device'', EVString ''d'')], ce_payload = None, de_time = Some 0, de_datacontenttype = None,
     de_dataschema = None\<rparr>"

definition demo_proc_state :: proc_state where
  "demo_proc_state = \<lparr>ps_cache = [], ps_calls = []\<rparr>"

lemmas demo_process_defs = demo_rules_env_def demo_endpoint_def demo_rules_def demo_event_def demo_proc_state_def
  validate_def enrich_def call_endpoint_def client_process_def build_request_def pool_get_def lru_get_def lru_put_def
  client_new_def

theorem process_cache_transparent_witness:
  "length (ps_calls (snd (process demo_rules_env 0 demo_rules demo_event demo_proc_state))) = 2
   \<and> cache_ok demo_rules_env (snd (process demo_rules_env 1 demo_rules demo_event demo_proc_state))
   \<and> fst (process demo_rules_env 1 demo_rules demo_event demo_proc_state) =
       fst (process demo_rules_env 0 demo_rules demo_event (demo_proc_state\<lparr>ps_cache := []\<rparr>))"
proof -
  have "cache_ok demo_rules_env demo_proc_state" by (simp add: cache_ok_def demo_proc_state_def)
  from process_cache_transparent[OF this, of 1 demo_rules demo_event]
  show ?thesis by (intro conjI) (simp add: demo_process_defs, blast+)
qed

section \<open>What rules can change\<close>

datatype attribute = AttrId | AttrSource | AttrType | AttrSubject | AttrTime | AttrContentType | AttrSchema
  | AttrData | AttrExtension string

fun same_attribute :: "attribute \<Rightarrow> data_event \<Rightarrow> data_event \<Rightarrow> bool" where
  "same_attribute AttrId e f \<longleftrightarrow> ce_id e = ce_id f"
| "same_attribute AttrSource e f \<longleftrightarrow> ce_source e = ce_source f"
| "same_attribute AttrType e f \<longleftrightarrow> ce_ty e = ce_ty f"
| "same_attribute AttrSubject e f \<longleftrightarrow> ce_subject e = ce_subject f"
| "same_attribute AttrTime e f \<longleftrightarrow> de_time e = de_time f"
| "same_attribute AttrContentType e f \<longleftrightarrow> de_datacontenttype e = de_datacontenttype f"
| "same_attribute AttrSchema e f \<longleftrightarrow> de_dataschema e = de_dataschema f"
| "same_attribute AttrData e f \<longleftrightarrow> ce_payload e = ce_payload f"
| "same_attribute (AttrExtension k) e f \<longleftrightarrow> map_of (ce_extensions e) k = map_of (ce_extensions f) k"

text \<open>The attributes a step may change; an enriched event may replace all of them.\<close>

fun named_attribute :: "string \<Rightarrow> attribute set" where
  "named_attribute name = (if name = ''datacontenttype'' then {AttrContentType}
     else if name = ''dataschema'' then {AttrSchema} else if name = ''subject'' then {AttrSubject}
     else if name = ''type'' then {AttrType} else {})"

fun step_changes :: "step \<Rightarrow> attribute set" where
  "step_changes (StepSetAttribute name _) = named_attribute name"
| "step_changes (StepRemoveAttribute name) = named_attribute name"
| "step_changes (StepSetExtension name _) = {AttrExtension name}"
| "step_changes (StepRemoveExtension name) = {AttrExtension name}"
| "step_changes (StepEnrich spec) =
     (if es_response spec = ResponseRaw then {AttrContentType, AttrData} else UNIV)"
| "step_changes _ = {}"

definition rules_change :: "rule list \<Rightarrow> attribute set" where
  "rules_change rules = (\<Union>r \<in> set rules. \<Union>st \<in> set (ru_then r). step_changes st)"

lemma same_attribute_refl [simp]: "same_attribute a e e"
  by (cases a) simp_all

lemma same_attribute_trans: "same_attribute a e f \<Longrightarrow> same_attribute a f g \<Longrightarrow> same_attribute a e g"
  by (cases a) simp_all

lemma set_attribute_keeps:
  "set_attribute env e name v = Inr f \<Longrightarrow> a \<notin> named_attribute name \<Longrightarrow> same_attribute a e f"
  by (cases a) (auto simp: set_attribute_def split: if_splits option.splits)

lemma do_step_keeps:
  assumes "do_step env cap st e s = (Inr out, s')" and "out = Continue f \<or> out = Accept f"
    and "a \<notin> step_changes st"
  shows "same_attribute a e f"
proof (cases st)
  case (StepEnrich spec)
  then have "es_response spec = ResponseRaw" "a \<noteq> AttrContentType" "a \<noteq> AttrData"
    using assms(3) by (auto split: if_splits)
  then show ?thesis
    using assms(1,2) StepEnrich by (cases a) (auto simp: enrich_def Let_def rbind_eq_Inr split: if_splits prod.splits)
next
  case (StepValidate spec)
  then show ?thesis
    using assms(1,2) by (auto simp: validate_def Let_def rbind_eq_Inr split: if_splits prod.splits)
next
  case (StepSetExtension name v)
  then show ?thesis using assms by (cases a) (auto simp: update_conv')
next
  case (StepRemoveExtension name)
  then show ?thesis using assms by (cases a) (auto simp: delete_conv')
qed (use assms in \<open>auto simp: rbind_eq_Inr intro: set_attribute_keeps\<close>)

lemma handle_steps_keeps:
  "handle_steps env cap steps e s = (Inr out, s') \<Longrightarrow> out = Continue f \<or> out = Accept f \<Longrightarrow>
    \<forall>st \<in> set steps. a \<notin> step_changes st \<Longrightarrow> same_attribute a e f"
proof (induction steps arbitrary: e s)
  case (Cons st steps)
  obtain x s1 where x: "do_step env cap st e s = (x, s1)" by fastforce
  show ?case
  proof (cases "\<exists>e1. x = Inr (Continue e1)")
    case True
    then obtain e1 where e1: "x = Inr (Continue e1)" by blast
    then have "same_attribute a e e1" using do_step_keeps[of env cap st e s "Continue e1"] x Cons.prems(3) by simp
    moreover have "same_attribute a e1 f" using Cons.IH[of e1 s1] Cons.prems x e1 by simp
    ultimately show ?thesis by (rule same_attribute_trans)
  next
    case False
    then have "x = Inr out" using Cons.prems(1) x by (auto split: sum.splits step_outcome.splits)
    then show ?thesis using do_step_keeps[of env cap st e s out s1] x Cons.prems(2,3) by simp
  qed
qed auto

lemma process_keep_attributes:
  assumes "process env capacity rules e s = (Inr (OutAccepted f), s')" and "a \<notin> rules_change rules"
  shows "same_attribute a e f"
  using assms
proof (induction rules arbitrary: e s)
  case (Cons r rules)
  have ch: "a \<notin> rules_change rules" "\<forall>st \<in> set (ru_then r). a \<notin> step_changes st"
    using Cons.prems(2) by (auto simp: rules_change_def)
  show ?case
  proof (cases "is_when (ru_when r) e")
    case True
    obtain x s1 where x: "handle_steps env capacity (ru_then r) e s = (x, s1)" by fastforce
    show ?thesis
    proof (cases "\<exists>e1. x = Inr (Continue e1)")
      case True
      then obtain e1 where e1: "x = Inr (Continue e1)" by blast
      then have "same_attribute a e e1"
        using handle_steps_keeps[of env capacity "ru_then r" e s "Continue e1"] x ch(2) by simp
      moreover have "same_attribute a e1 f"
        using Cons.IH[of e1 s1] Cons.prems(1) x e1 \<open>is_when (ru_when r) e\<close> ch(1) by simp
      ultimately show ?thesis by (rule same_attribute_trans)
    next
      case False
      then have "x = Inr (Accept f)"
        using Cons.prems(1) x True by (auto split: sum.splits step_outcome.splits)
      then show ?thesis using handle_steps_keeps[of env capacity "ru_then r" e s "Accept f"] x ch(2) by simp
    qed
  qed (use Cons ch in simp)
qed simp

text \<open>
  Rules change an event only as configured: whatever the external endpoints answer, an
  accepted event has every attribute and extension of the original one that no step of the
  rules names; in particular its id, source and time, unless an endpoint may replace the
  whole event.
\<close>

theorem process_keeps:
  assumes "process env capacity rules e s = (Inr (OutAccepted f), s')" and "a \<notin> rules_change rules"
  shows "same_attribute a e f"
  using assms by (rule process_keep_attributes)

theorem process_keeps_witness:
  "case process demo_rules_env 1 demo_rules demo_event demo_proc_state of
     (Inr (OutAccepted f), _) \<Rightarrow> ce_id f = ''1'' \<and> map_of (ce_extensions f) ''device'' = Some (EVString ''d'')
   | _ \<Rightarrow> False"
proof -
  have "case process demo_rules_env 1 demo_rules demo_event demo_proc_state of
      (Inr (OutAccepted f), _) \<Rightarrow> True | _ \<Rightarrow> False" by (simp add: demo_process_defs)
  then obtain f s' where p: "process demo_rules_env 1 demo_rules demo_event demo_proc_state = (Inr (OutAccepted f), s')"
    by (auto split: prod.splits sum.splits process_outcome.splits)
  have "AttrId \<notin> rules_change demo_rules" "AttrExtension ''device'' \<notin> rules_change demo_rules"
    by (simp_all add: rules_change_def demo_rules_def)
  from process_keeps[OF p this(1)] process_keeps[OF p this(2)] show ?thesis
    unfolding p by (simp add: demo_event_def)
qed

end
