(* ===== verification/Event_Sender.thy ===== *)
theory Event_Sender
  imports Registry_Api Event_Rules Kafka_Names
begin

text \<open>
  Publishing events of devices and commands (\<open>endpoint-common/src/sender/mod.rs\<close>): the cloud
  event that is built from a message, the rules of the application, and the sinks
  (\<open>endpoint-common/src/sink\<close>) that deliver it.

  Parameters: percent encoding, the JSON and cloud event codecs, the typed sections of the
  application, and the Kafka producer or HTTP client behind a sink.
\<close>

section \<open>Data\<close>

record publish_id =
  pi_name :: string
  pi_uid :: "string option"

record publish_options =
  po_time :: "timestamp option"
  po_topic :: "string option"
  po_data_schema :: "string option"
  po_content_type :: "string option"
  po_extensions :: "string smap"
  po_type :: "string option"

definition default_options :: publish_options where
  "default_options = \<lparr>po_time = None, po_topic = None, po_data_schema = None, po_content_type = None,
     po_extensions = [], po_type = None\<rparr>"

record publish =
  pb_application :: api_application
  pb_device :: publish_id
  pb_sender :: publish_id
  pb_channel :: string
  pb_options :: publish_options

datatype publish_outcome = Accepted | Rejected | QueueFull

datatype direction = Upstream | Downstream

datatype sink_error = SinkEvent | SinkTransport | SinkTarget

datatype publish_error =
    PubSink sink_error
  | PubSpec
  | PubEvent
  | PubProcessor process_error

definition device_publish_id :: "api_device \<Rightarrow> publish_id" where
  "device_publish_id device = \<lparr>pi_name = pd_name device, pi_uid = Some (pd_uid device)\<rparr>"

text \<open>\<open>PublishIdPair::with_devices\<close>: the device and the sender of an event.\<close>

definition with_devices :: "api_device \<Rightarrow> api_device option \<Rightarrow> publish_id \<times> publish_id" where
  "with_devices device as_device =
     (case as_device of Some d \<Rightarrow> device_publish_id d | None \<Rightarrow> device_publish_id device,
      device_publish_id device)"

section \<open>Sinks\<close>

datatype produce_result = Delivered | DeliveryFailed | Canceled | ProducerQueueFull | NotQueued

type_synonym sink_record = "string \<times> string \<times> data_event"

record sender_env =
  sn_instance :: string
  sn_encode :: "string \<Rightarrow> string"
  sn_valid_uri :: "string \<Rightarrow> bool"
  sn_json :: "string \<Rightarrow> json option"
  sn_rules :: rules_env
  sn_capacity :: nat
  sn_publish_spec :: "api_application \<Rightarrow> (unit + rule list) option"
  sn_command_spec :: "api_application \<Rightarrow> (unit + rule list) option"
  sn_conditions :: "api_application \<Rightarrow> (unit + (string \<times> string) list) option"
  sn_md5 :: "string \<Rightarrow> string"
  sn_record_ok :: "data_event \<Rightarrow> bool"
  sn_produce :: "sink_record \<Rightarrow> produce_result"
  sn_http_post :: "data_event \<Rightarrow> nat option"

datatype sink = KafkaSink bool | HttpSink

definition is_ready :: "sender_env \<Rightarrow> api_application \<Rightarrow> bool" where
  "is_ready env app =
     (case sn_conditions env app of
        Some (Inr conditions) \<Rightarrow>
          (case List.find (\<lambda>c. fst c = ''KafkaReady'') conditions of
             Some c \<Rightarrow> snd c = ''True'' | None \<Rightarrow> False)
      | _ \<Rightarrow> False)"

definition check_ready :: "sender_env \<Rightarrow> bool \<Rightarrow> api_application \<Rightarrow> bool" where
  "check_ready env flag app = (if flag then is_ready env app else True)"

definition kafka_topic :: "sender_env \<Rightarrow> direction \<Rightarrow> api_application \<Rightarrow> string" where
  "kafka_topic env target app =
     (case target of
        Upstream \<Rightarrow> make_topic (sn_md5 env) CommandsType (pa_name app)
      | Downstream \<Rightarrow> make_topic (sn_md5 env) EventsType (pa_name app))"

definition send_with :: "sender_env \<Rightarrow> sink_record \<Rightarrow> sink_record list \<Rightarrow> (sink_error + publish_outcome) \<times> sink_record list" where
  "send_with env rec log =
     (case sn_produce env rec of
        Delivered \<Rightarrow> (Inr Accepted, log @ [rec])
      | DeliveryFailed \<Rightarrow> (Inl SinkTransport, log)
      | Canceled \<Rightarrow> (Inl SinkTransport, log)
      | ProducerQueueFull \<Rightarrow> (Inr QueueFull, log)
      | NotQueued \<Rightarrow> (Inl SinkTransport, log))"

definition sink_key :: "data_event \<Rightarrow> string" where
  "sink_key event = (case map_of (ce_extensions event) EXT_PARTITIONKEY of
     Some (EVString key) \<Rightarrow> key | _ \<Rightarrow> ce_id event)"

definition kafka_sink_publish ::
  "sender_env \<Rightarrow> bool \<Rightarrow> direction \<Rightarrow> api_application \<Rightarrow> data_event \<Rightarrow> sink_record list
    \<Rightarrow> (sink_error + publish_outcome) \<times> sink_record list" where
  "kafka_sink_publish env flag target app event log =
     (if \<not> check_ready env flag app then (Inl SinkTransport, log)
      else let topic = kafka_topic env target app; key = sink_key event in
        if sn_record_ok env event then send_with env (topic, key, event) log else (Inl SinkEvent, log))"

definition http_sink_publish ::
  "sender_env \<Rightarrow> data_event \<Rightarrow> sink_record list \<Rightarrow> (sink_error + publish_outcome) \<times> sink_record list" where
  "http_sink_publish env event log =
     (if \<not> sn_record_ok env event then (Inl SinkEvent, log)
      else case sn_http_post env event of
             None \<Rightarrow> (Inl SinkTransport, log)
           | Some code \<Rightarrow> if 200 \<le> code \<and> code < 300
               then (Inr Accepted, log @ [([], sink_key event, event)]) else (Inr Rejected, log))"

fun sink_publish ::
  "sender_env \<Rightarrow> sink \<Rightarrow> direction \<Rightarrow> api_application \<Rightarrow> data_event \<Rightarrow> sink_record list
    \<Rightarrow> (sink_error + publish_outcome) \<times> sink_record list" where
  "sink_publish env (KafkaSink flag) target app event log = kafka_sink_publish env flag target app event log"
| "sink_publish env HttpSink target app event log = http_sink_publish env event log"

section \<open>Publishing\<close>

definition DEFAULT_TYPE_EVENT :: string where "DEFAULT_TYPE_EVENT = ''io.drogue.event.v1''"

definition EXT_SENDER :: string where "EXT_SENDER = ''sender''"
definition EXT_APPLICATION_UID :: string where "EXT_APPLICATION_UID = ''applicationuid''"
definition EXT_DEVICE_UID :: string where "EXT_DEVICE_UID = ''deviceuid''"
definition EXT_SENDER_UID :: string where "EXT_SENDER_UID = ''senderuid''"

lemmas sender_consts = EXT_SENDER_def EXT_APPLICATION_UID_def EXT_DEVICE_UID_def EXT_SENDER_UID_def

definition extension :: "string \<Rightarrow> string \<Rightarrow> ext_value smap \<Rightarrow> ext_value smap" where
  "extension k v exts = AList.update k (EVString v) exts"

definition opt_extension :: "string \<Rightarrow> string option \<Rightarrow> ext_value smap \<Rightarrow> ext_value smap" where
  "opt_extension k v exts = (case v of Some v \<Rightarrow> extension k v exts | None \<Rightarrow> exts)"

definition inject_id :: "string \<Rightarrow> string \<Rightarrow> ext_value smap \<Rightarrow> ext_value smap" where
  "inject_id app_id device_id exts = extension EXT_DEVICE device_id (extension EXT_APPLICATION app_id exts)"

definition partition_key :: "sender_env \<Rightarrow> publish \<Rightarrow> string" where
  "partition_key env pub =
     sn_encode env (pa_name (pb_application pub)) @ ''/'' @ sn_encode env (pi_name (pb_sender pub))"

definition publish_extensions :: "sender_env \<Rightarrow> publish \<Rightarrow> ext_value smap" where
  "publish_extensions env pub =
     (let exts = inject_id (pa_name (pb_application pub)) (pi_name (pb_device pub)) [];
          exts = extension EXT_APPLICATION_UID (pa_uid (pb_application pub)) exts;
          exts = opt_extension EXT_DEVICE_UID (pi_uid (pb_device pub)) exts;
          exts = opt_extension EXT_SENDER_UID (pi_uid (pb_sender pub)) exts;
          exts = extension EXT_PARTITIONKEY (partition_key env pub) exts;
          exts = extension EXT_INSTANCE (sn_instance env) exts;
          exts = extension EXT_SENDER (pi_name (pb_sender pub)) exts;
          exts = opt_extension ''dataschema'' (po_data_schema (pb_options pub)) exts
      in fold (\<lambda>(k, v). extension k v) (po_extensions (pb_options pub)) exts)"

text \<open>The content type and the data of the event; a payload that claims to be JSON has to be.\<close>

definition publish_data :: "sender_env \<Rightarrow> string option \<Rightarrow> string \<Rightarrow> (string \<times> ce_data) option" where
  "publish_data env content_type body =
     (case content_type of
        Some t \<Rightarrow>
          if is_json t then map_option (\<lambda>v. (''application/json'', DJson v)) (sn_json env body)
          else Some (t, DBinary body)
      | None \<Rightarrow>
          (case sn_json env body of
             Some v \<Rightarrow> Some (''application/json'', DJson v)
           | None \<Rightarrow> Some (''application/octet-stream'', DBinary body)))"

definition publish_event :: "sender_env \<Rightarrow> string \<Rightarrow> timestamp \<Rightarrow> publish \<Rightarrow> string \<times> ce_data \<Rightarrow> data_event" where
  "publish_event env new_id now pub data =
     \<lparr>ce_id = new_id,
      ce_ty = (case po_type (pb_options pub) of Some t \<Rightarrow> t | None \<Rightarrow> DEFAULT_TYPE_EVENT),
      ce_source = ''drogue://'' @ pa_name (pb_application pub) @ ''/'' @ sn_encode env (pi_name (pb_device pub)),
      ce_subject = Some (pb_channel pub), ce_extensions = publish_extensions env pub,
      ce_payload = Some (snd data), de_time = Some now, de_datacontenttype = Some (fst data),
      de_dataschema = None\<rparr>"

definition processor_rules :: "sender_env \<Rightarrow> direction \<Rightarrow> api_application \<Rightarrow> unit + rule list" where
  "processor_rules env dir app =
     (case (case dir of Upstream \<Rightarrow> sn_command_spec env app | Downstream \<Rightarrow> sn_publish_spec env app) of
        None \<Rightarrow> Inr []
      | Some r \<Rightarrow> r)"

record sender_state =
  ss_proc :: proc_state
  ss_log :: "sink_record list"

definition publisher_publish ::
  "sender_env \<Rightarrow> sink \<Rightarrow> direction \<Rightarrow> string \<Rightarrow> timestamp \<Rightarrow> publish \<Rightarrow> string \<Rightarrow> sender_state
    \<Rightarrow> (publish_error + publish_outcome) \<times> sender_state" where
  "publisher_publish env snk dir new_id now pub body s =
     (case publish_data env (po_content_type (pb_options pub)) body of
        None \<Rightarrow> (Inr Rejected, s)
      | Some data \<Rightarrow>
          let event = publish_event env new_id now pub data in
          if \<not> sn_valid_uri env (ce_source event) then (Inl PubEvent, s)
          else (case processor_rules env dir (pb_application pub) of
                  Inl _ \<Rightarrow> (Inl PubSpec, s)
                | Inr rules \<Rightarrow>
                    (case process (sn_rules env) (sn_capacity env) rules event (ss_proc s) of
                       (Inl e, ps) \<Rightarrow> (Inl (PubProcessor e), s\<lparr>ss_proc := ps\<rparr>)
                     | (Inr (OutRejected _), ps) \<Rightarrow> (Inr Rejected, s\<lparr>ss_proc := ps\<rparr>)
                     | (Inr (OutAccepted event), ps) \<Rightarrow>
                         let (r, log) = sink_publish env snk dir (pb_application pub) event (ss_log s)
                         in (case r of Inl e \<Rightarrow> Inl (PubSink e) | Inr out \<Rightarrow> Inr out, \<lparr>ss_proc = ps, ss_log = log\<rparr>)
                     | (Inr OutDropped, ps) \<Rightarrow> (Inr Accepted, s\<lparr>ss_proc := ps\<rparr>))))"

text \<open>\<open>publish_http_default\<close>: the answer to a device that publishes over HTTP.\<close>

fun publish_http_status :: "publish_error + publish_outcome \<Rightarrow> nat" where
  "publish_http_status (Inr Accepted) = 202"
| "publish_http_status (Inr Rejected) = 406"
| "publish_http_status (Inr QueueFull) = 503"
| "publish_http_status (Inl _) = 500"

section \<open>What is delivered\<close>

lemma map_of_extension [simp]: "map_of (extension k v exts) = (map_of exts)(k \<mapsto> EVString v)"
  by (simp add: extension_def update_conv')

lemma map_of_opt_extension:
  "map_of (opt_extension k v exts) k' = (if k = k' \<and> v \<noteq> None then map_option EVString v else map_of exts k')"
  by (cases v) (auto simp: opt_extension_def)

lemma map_of_fold_extension:
  "k \<notin> set (keys_of kvs) \<Longrightarrow> map_of (fold (\<lambda>(k, v). extension k v) kvs exts) k = map_of exts k"
  by (induction kvs arbitrary: exts) auto

text \<open>The identifying extensions of an event, and their values for a message.\<close>

definition id_extensions :: "sender_env \<Rightarrow> publish \<Rightarrow> string smap" where
  "id_extensions env pub =
     [(EXT_APPLICATION, pa_name (pb_application pub)), (EXT_DEVICE, pi_name (pb_device pub)),
      (EXT_SENDER, pi_name (pb_sender pub)), (EXT_INSTANCE, sn_instance env),
      (EXT_PARTITIONKEY, partition_key env pub)]"

lemma extension_names_distinct:
  "distinct [EXT_APPLICATION, EXT_DEVICE, EXT_APPLICATION_UID, EXT_DEVICE_UID, EXT_SENDER_UID, EXT_PARTITIONKEY,
     EXT_INSTANCE, EXT_SENDER, ''dataschema'']"
  by (simp add: sender_consts event_consts)

lemma extension_names_sym:
  "distinct [''dataschema'', EXT_SENDER, EXT_INSTANCE, EXT_PARTITIONKEY, EXT_SENDER_UID, EXT_DEVICE_UID,
     EXT_APPLICATION_UID, EXT_DEVICE, EXT_APPLICATION]"
  by (simp add: sender_consts event_consts)

lemma publish_extensions_id:
  assumes "(k, v) \<in> set (id_extensions env pub)" and "k \<notin> set (keys_of (po_extensions (pb_options pub)))"
  shows "map_of (publish_extensions env pub) k = Some (EVString v)"
proof -
  have eq: "map_of (publish_extensions env pub) k =
      map_of (opt_extension ''dataschema'' (po_data_schema (pb_options pub))
        (extension EXT_SENDER (pi_name (pb_sender pub)) (extension EXT_INSTANCE (sn_instance env)
        (extension EXT_PARTITIONKEY (partition_key env pub) (opt_extension EXT_SENDER_UID (pi_uid (pb_sender pub))
        (opt_extension EXT_DEVICE_UID (pi_uid (pb_device pub)) (extension EXT_APPLICATION_UID (pa_uid (pb_application pub))
        (extension EXT_DEVICE (pi_name (pb_device pub)) (extension EXT_APPLICATION (pa_name (pb_application pub)) []))))))))) k"
    by (simp only: publish_extensions_def Let_def map_of_fold_extension[OF assms(2)] inject_id_def)
  have "(k, v) = (EXT_APPLICATION, pa_name (pb_application pub)) \<or> (k, v) = (EXT_DEVICE, pi_name (pb_device pub))
      \<or> (k, v) = (EXT_SENDER, pi_name (pb_sender pub)) \<or> (k, v) = (EXT_INSTANCE, sn_instance env)
      \<or> (k, v) = (EXT_PARTITIONKEY, partition_key env pub)"
    using assms(1) by (simp add: id_extensions_def)
  then show ?thesis
    unfolding eq
    by (elim disjE) (simp_all add: map_of_opt_extension extension_names_distinct[simplified] extension_names_sym[simplified])
qed

definition clean_rules :: "sender_env \<Rightarrow> direction \<Rightarrow> publish \<Rightarrow> string \<Rightarrow> bool" where
  "clean_rules env dir pub k \<longleftrightarrow> k \<notin> set (keys_of (po_extensions (pb_options pub)))
     \<and> (\<forall>rules. processor_rules env dir (pb_application pub) = Inr rules \<longrightarrow> AttrExtension k \<notin> rules_change rules)"

definition sink_topic :: "sender_env \<Rightarrow> sink \<Rightarrow> direction \<Rightarrow> api_application \<Rightarrow> string" where
  "sink_topic env snk dir app = (case snk of KafkaSink _ \<Rightarrow> kafka_topic env dir app | HttpSink \<Rightarrow> [])"

lemma sink_publish_cases:
  assumes "sink_publish env snk dir app event log = (r, log')"
  shows "(log' = log \<and> r \<noteq> Inr Accepted)
     \<or> (log' = log @ [(sink_topic env snk dir app, sink_key event, event)] \<and> r = Inr Accepted)"
  using assms
  by (cases snk) (auto simp: kafka_sink_publish_def http_sink_publish_def send_with_def sink_topic_def Let_def split: if_splits option.splits produce_result.splits)

text \<open>A run of \<open>publish\<close>: nothing is delivered, or the event as the rules left it.\<close>

lemma publish_cases:
  assumes "publisher_publish env snk dir new_id now pub body s = (r, s')"
  obtains (none) "ss_log s' = ss_log s" "r \<noteq> Inr Accepted"
  | (dropped) data rules ps where "ss_log s' = ss_log s" "r = Inr Accepted"
      "publish_data env (po_content_type (pb_options pub)) body = Some data"
      "processor_rules env dir (pb_application pub) = Inr rules"
      "process (sn_rules env) (sn_capacity env) rules (publish_event env new_id now pub data) (ss_proc s) = (Inr OutDropped, ps)"
  | (delivered) data rules ps event where "r = Inr Accepted"
      "publish_data env (po_content_type (pb_options pub)) body = Some data"
      "processor_rules env dir (pb_application pub) = Inr rules"
      "process (sn_rules env) (sn_capacity env) rules (publish_event env new_id now pub data) (ss_proc s) = (Inr (OutAccepted event), ps)"
      "ss_log s' = ss_log s @ [(sink_topic env snk dir (pb_application pub), sink_key event, event)]"
proof (cases "publish_data env (po_content_type (pb_options pub)) body")
  case None
  then show ?thesis using none assms by (auto simp: publisher_publish_def)
next
  case (Some data)
  let ?e = "publish_event env new_id now pub data"
  show ?thesis
  proof (cases "sn_valid_uri env (ce_source ?e)")
    case False
    then show ?thesis using none assms Some by (auto simp: publisher_publish_def Let_def)
  next
    case True
    show ?thesis
    proof (cases "processor_rules env dir (pb_application pub)")
      case (Inl u)
      then show ?thesis using none assms Some True by (auto simp: publisher_publish_def Let_def)
    next
      case (Inr rules)
      obtain x ps where x: "process (sn_rules env) (sn_capacity env) rules ?e (ss_proc s) = (x, ps)" by fastforce
      show ?thesis
      proof (cases "\<exists>event. x = Inr (OutAccepted event)")
        case True
        then obtain event where ev: "x = Inr (OutAccepted event)" by blast
        obtain r' log' where sp: "sink_publish env snk dir (pb_application pub) event (ss_log s) = (r', log')" by fastforce
        have rs: "r = (case r' of Inl e \<Rightarrow> Inl (PubSink e) | Inr out \<Rightarrow> Inr out)" "ss_log s' = log'"
          using assms Some \<open>sn_valid_uri env (ce_source ?e)\<close> Inr x ev sp by (auto simp: publisher_publish_def Let_def)
        show ?thesis
          using sink_publish_cases[OF sp] rs none delivered[OF _ Some Inr x[unfolded ev]] by (auto split: sum.splits)
      next
        case False
        then show ?thesis
          using assms Some True Inr x none dropped[OF _ _ Some Inr]
          by (auto simp: publisher_publish_def Let_def split: sum.splits process_outcome.splits)
      qed
    qed
  qed
qed

lemma delivered_id:
  assumes "process (sn_rules env) (sn_capacity env) rules (publish_event env new_id now pub data) ps0 = (Inr (OutAccepted event), ps)"
    and "processor_rules env dir (pb_application pub) = Inr rules"
    and "(k, v) \<in> set (id_extensions env pub)" and "clean_rules env dir pub k"
  shows "map_of (ce_extensions event) k = Some (EVString v)"
proof -
  have "same_attribute (AttrExtension k) (publish_event env new_id now pub data) event"
    using assms(2,4) by (intro process_keep_attributes[OF assms(1)]) (simp add: clean_rules_def)
  then show ?thesis
    using publish_extensions_id[OF assms(3)] assms(4) by (simp add: publish_event_def clean_rules_def)
qed

text \<open>What a run of \<open>publish\<close> leaves in the sink.\<close>

lemma publish_sent:
  "let (r, s') = publisher_publish env snk dir new_id now pub body s in
   \<exists>sent. ss_log s' = ss_log s @ map (\<lambda>e. (sink_topic env snk dir (pb_application pub), sink_key e, e)) sent
     \<and> length sent \<le> 1
     \<and> (r \<noteq> Inr Accepted \<longrightarrow> sent = [])
     \<and> (r = Inr Accepted \<longrightarrow> (\<exists>data rules ps. publish_data env (po_content_type (pb_options pub)) body = Some data
          \<and> processor_rules env dir (pb_application pub) = Inr rules
          \<and> process (sn_rules env) (sn_capacity env) rules (publish_event env new_id now pub data) (ss_proc s) =
              (Inr (if sent = [] then OutDropped else OutAccepted (hd sent)), ps)))
     \<and> (\<forall>e \<in> set sent. \<forall>(k, v) \<in> set (id_extensions env pub). clean_rules env dir pub k \<longrightarrow>
          map_of (ce_extensions e) k = Some (EVString v))"
proof -
  obtain r s' where p: "publisher_publish env snk dir new_id now pub body s = (r, s')" by fastforce
  from p show ?thesis
  proof (cases rule: publish_cases)
    case none
    then show ?thesis unfolding p Let_def by (auto intro!: exI[of _ "[]"])
  next
    case (dropped data rules ps)
    then show ?thesis unfolding p Let_def by (auto intro!: exI[of _ "[]"])
  next
    case (delivered data rules ps event)
    then show ?thesis
      unfolding p Let_def using delivered_id[OF delivered(4,3)] by (auto intro!: exI[of _ "[event]"])
  qed
qed

section \<open>Properties\<close>

text \<open>
  A message is delivered at most once, and the outcome tells whether it was: anything but
  \<open>Accepted\<close> means that the sink has nothing of it, and an accepted message is in the sink
  unless the rules of the application drop it.  An event in the sink carries the application,
  the device, the sender, the instance and the partition key of its message, as long as
  neither the rules nor the options of the message replace them.
\<close>

theorem publish_delivers:
  "let (r, s') = publisher_publish env snk dir new_id now pub body s in
   \<exists>sent. ss_log s' = ss_log s @ map (\<lambda>e. (sink_topic env snk dir (pb_application pub), sink_key e, e)) sent
     \<and> length sent \<le> 1
     \<and> (r \<noteq> Inr Accepted \<longrightarrow> sent = [])
     \<and> (r = Inr Accepted \<longrightarrow> (\<exists>data rules ps. publish_data env (po_content_type (pb_options pub)) body = Some data
          \<and> processor_rules env dir (pb_application pub) = Inr rules
          \<and> process (sn_rules env) (sn_capacity env) rules (publish_event env new_id now pub data) (ss_proc s) =
              (Inr (if sent = [] then OutDropped else OutAccepted (hd sent)), ps)))
     \<and> (\<forall>e \<in> set sent. \<forall>(k, v) \<in> set (id_extensions env pub). clean_rules env dir pub k \<longrightarrow>
          map_of (ce_extensions e) k = Some (EVString v))"
  by (rule publish_sent)

definition demo_sender :: sender_env where
  "demo_sender = \<lparr>sn_instance = ''i'', sn_encode = (\<lambda>s. s), sn_valid_uri = (\<lambda>_. True), sn_json = (\<lambda>_. None),
     sn_rules = demo_rules_env, sn_capacity = 1, sn_publish_spec = (\<lambda>_. Some (Inr demo_rules)),
     sn_command_spec = (\<lambda>_. None), sn_conditions = (\<lambda>_. None), sn_md5 = demo_md5, sn_record_ok = (\<lambda>_. True),
     sn_produce = (\<lambda>_. Delivered), sn_http_post = (\<lambda>_. None)\<rparr>"

definition demo_publish :: "string \<Rightarrow> publish" where
  "demo_publish d = \<lparr>pb_application = \<lparr>pa_name = ''a'', pa_uid = ''u'', pa_resource_version = [],
       pa_labels = [], pa_annotations = [], pa_creation_timestamp = 0, pa_generation = 0,
       pa_deletion_timestamp = None, pa_finalizers = [], pa_spec = [], pa_status = []\<rparr>,
     pb_device = \<lparr>pi_name = d, pi_uid = None\<rparr>, pb_sender = \<lparr>pi_name = ''gw'', pi_uid = Some ''g''\<rparr>,
     pb_channel = ''state'', pb_options = default_options\<rparr>"

definition demo_device :: "string \<Rightarrow> api_device" where
  "demo_device n = \<lparr>pd_name = n, pd_application = ''a'', pd_uid = ''u'', pd_resource_version = [], pd_labels = [],
     pd_annotations = [], pd_creation_timestamp = 0, pd_generation = 0, pd_deletion_timestamp = None,
     pd_finalizers = [], pd_spec = [], pd_status = []\<rparr>"

definition demo_sender_state :: sender_state where
  "demo_sender_state = \<lparr>ss_proc = demo_proc_state, ss_log = []\<rparr>"

lemmas demo_publish_defs = publisher_publish_def publish_data_def publish_event_def processor_rules_def
  demo_sender_def demo_publish_def demo_sender_state_def default_options_def demo_process_defs send_with_def
  check_ready_def kafka_sink_publish_def

theorem publish_delivers_witness:
  "fst (publisher_publish demo_sender (KafkaSink False) Downstream ''1'' 0 (demo_publish ''d'') ''x'' demo_sender_state) = Inr Accepted
   \<and> (\<exists>e. ss_log (snd (publisher_publish demo_sender (KafkaSink False) Downstream ''1'' 0 (demo_publish ''d'') ''x'' demo_sender_state))
           = [(''events-a'', sink_key e, e)] \<and> map_of (ce_extensions e) EXT_DEVICE = Some (EVString ''d''))"
proof -
  let ?p = "publisher_publish demo_sender (KafkaSink False) Downstream ''1'' 0 (demo_publish ''d'') ''x'' demo_sender_state"
  have ok: "fst ?p = Inr Accepted" and len: "length (ss_log (snd ?p)) = 1"
    by (simp_all add: demo_publish_defs Let_def)
  have clean: "clean_rules demo_sender Downstream (demo_publish ''d'') EXT_DEVICE"
    by (simp add: clean_rules_def demo_publish_def default_options_def processor_rules_def demo_sender_def
        rules_change_def demo_rules_def event_consts)
  have topic: "sink_topic demo_sender (KafkaSink False) Downstream (pb_application (demo_publish ''d'')) = ''events-a''"
    by code_simp
  have idx: "(EXT_DEVICE, ''d'') \<in> set (id_extensions demo_sender (demo_publish ''d''))"
    by (simp add: id_extensions_def demo_publish_def)
  obtain sent where "ss_log (snd ?p) = ss_log demo_sender_state @ map (\<lambda>e. (sink_topic demo_sender (KafkaSink False) Downstream
       (pb_application (demo_publish ''d'')), sink_key e, e)) sent"
    and *: "\<forall>e \<in> set sent. \<forall>(k, v) \<in> set (id_extensions demo_sender (demo_publish ''d'')).
       clean_rules demo_sender Downstream (demo_publish ''d'') k \<longrightarrow> map_of (ce_extensions e) k = Some (EVString v)"
    using publish_delivers[of demo_sender "KafkaSink False" Downstream "''1''" 0 "demo_publish ''d''" "''x''" demo_sender_state]
    by (auto simp: case_prod_beta Let_def)
  then obtain e where "ss_log (snd ?p) = [(''events-a'', sink_key e, e)]" "e \<in> set sent"
    using len topic by (cases sent) (auto simp: demo_sender_state_def)
  moreover from this(2) have "map_of (ce_extensions e) EXT_DEVICE = Some (EVString ''d'')"
    using * idx clean by blast
  ultimately show ?thesis using ok by blast
qed

lemma split_at:
  "c \<notin> set a \<Longrightarrow> c \<notin> set a' \<Longrightarrow> a @ c # b = a' @ c # b' \<longleftrightarrow> a = a' \<and> b = b'"
proof (induction a arbitrary: a')
  case Nil
  then show ?case by (cases a') auto
next
  case (Cons x a)
  then show ?case by (cases a') auto
qed

text \<open>
  Events are partitioned by their sender: two delivered events have the same record key
  exactly if they belong to the same application and were sent by the same device or
  gateway, provided that percent encoding is injective and produces no slash, and the rules
  and options leave the partition key alone.
\<close>

theorem publish_partitioned:
  assumes "inj (sn_encode env)" and "\<And>x. CHR ''/'' \<notin> set (sn_encode env x)"
    and "publisher_publish env snk dir id1 t1 p1 b1 s1 = (r1, s1')" and "ss_log s1' = ss_log s1 @ [rec1]"
    and "publisher_publish env snk dir id2 t2 p2 b2 s2 = (r2, s2')" and "ss_log s2' = ss_log s2 @ [rec2]"
    and "clean_rules env dir p1 EXT_PARTITIONKEY" and "clean_rules env dir p2 EXT_PARTITIONKEY"
  shows "fst (snd rec1) = fst (snd rec2) \<longleftrightarrow>
     pa_name (pb_application p1) = pa_name (pb_application p2) \<and> pi_name (pb_sender p1) = pi_name (pb_sender p2)"
proof -
  have key: "fst (snd rec) = partition_key env p"
    if "publisher_publish env snk dir i t p b s = (r, s')" "ss_log s' = ss_log s @ [rec]"
      "clean_rules env dir p EXT_PARTITIONKEY" for i t p b s r s' rec
    using that(1)
  proof (cases rule: publish_cases)
    case (delivered data rules ps event)
    have "map_of (ce_extensions event) EXT_PARTITIONKEY = Some (EVString (partition_key env p))"
      using delivered_id[OF delivered(4,3) _ that(3)] by (simp add: id_extensions_def)
    then show ?thesis using delivered(5) that(2) by (simp add: sink_key_def)
  qed (use that(2) in simp_all)
  show ?thesis
    unfolding key[OF assms(3,4,7)] key[OF assms(5,6,8)] partition_key_def
    using split_at[OF assms(2) assms(2)] inj_eq[OF assms(1)] by simp
qed

definition demo_encode :: "string \<Rightarrow> string" where
  "demo_encode s = concat (map (\<lambda>c. replicate (of_char c) CHR ''x'' @ ''y'') s)"

lemma demo_encode_inj: "inj demo_encode"
proof -
  have "demo_encode a = demo_encode b \<Longrightarrow> a = b" for a b
  proof (induction a arbitrary: b)
    case Nil
    then show ?case by (cases b) (auto simp: demo_encode_def)
  next
    case (Cons c a)
    then obtain d b' where b: "b = d # b'" by (cases b) (auto simp: demo_encode_def)
    have "replicate (of_char c) CHR ''x'' @ CHR ''y'' # demo_encode a =
        replicate (of_char d) CHR ''x'' @ CHR ''y'' # demo_encode b'"
      using Cons.prems b by (simp add: demo_encode_def)
    then have "replicate (of_char c) CHR ''x'' = replicate (of_char d) CHR ''x''" "demo_encode a = demo_encode b'"
      by (subst (asm) split_at; auto)+
    then show ?case using Cons.IH b by (metis length_replicate of_char_eq_iff)
  qed
  then show ?thesis by (rule injI)
qed

theorem publish_partitioned_witness:
  "\<exists>rec1 rec2. ss_log (snd (publisher_publish (demo_sender\<lparr>sn_encode := demo_encode\<rparr>) (KafkaSink False) Downstream ''1'' 0
       (demo_publish ''d'') ''x'' demo_sender_state)) = [rec1]
   \<and> ss_log (snd (publisher_publish (demo_sender\<lparr>sn_encode := demo_encode\<rparr>) (KafkaSink False) Downstream ''2'' 1
       (demo_publish ''e'') ''y'' demo_sender_state)) = [rec2] \<and> fst (snd rec1) = fst (snd rec2)"
proof -
  let ?env = "demo_sender\<lparr>sn_encode := demo_encode\<rparr>"
  let ?p = "\<lambda>i t d b. publisher_publish ?env (KafkaSink False) Downstream i t (demo_publish d) b demo_sender_state"
  have len: "length (ss_log (snd (?p i t d b))) = 1" for i t d b
    by (simp add: demo_publish_defs Let_def)
  obtain r1 s1 rec1 r2 s2 rec2 where p: "?p ''1'' 0 ''d'' ''x'' = (r1, s1)" "ss_log s1 = ss_log demo_sender_state @ [rec1]"
    "?p ''2'' 1 ''e'' ''y'' = (r2, s2)" "ss_log s2 = ss_log demo_sender_state @ [rec2]"
    using len[of "''1''" 0 "''d''" "''x''"] len[of "''2''" 1 "''e''" "''y''"]
    by (auto simp: length_Suc_conv demo_sender_state_def) (metis prod.collapse)
  have clean: "clean_rules ?env Downstream (demo_publish d) EXT_PARTITIONKEY" for d
    by (simp add: clean_rules_def demo_publish_def default_options_def processor_rules_def demo_sender_def
        rules_change_def demo_rules_def event_consts)
  have "fst (snd rec1) = fst (snd rec2)"
    by (subst publish_partitioned[OF _ _ p(1,2) p(3,4) clean clean])
      (simp_all add: demo_encode_inj demo_publish_def, auto simp: demo_encode_def)
  then show ?thesis using p by (auto simp: demo_sender_state_def)
qed

end
