(* ===== verification/Commands.thy ===== *)
theory Commands
  imports Event_Sender
begin

text \<open>
  Commands for connected devices (\<open>endpoint-common/src/command\<close>): the address of a command
  and its form as a cloud event, the subscriptions of the endpoints, and the dispatcher that
  sends a command to the channels of the matching subscriptions.

  Parameters: MQTT topic filters, random numbers and the bytes of a payload.  A channel is a
  number with the queue of the commands sent to it; that a sender waits while a channel is
  full is not modelled.
\<close>

section \<open>Commands\<close>

record command_address =
  ca_app_id :: string
  ca_gateway_id :: string
  ca_device_id :: string

record command =
  cd_address :: command_address
  cd_command :: string
  cd_payload :: "string option"

datatype parse_command_error = MissingAttribute string | InvalidPayload

fun ext_string :: "ext_value option \<Rightarrow> string option" where
  "ext_string (Some (EVString s)) = Some s"
| "ext_string _ = None"

definition address_from_event :: "data_event \<Rightarrow> command_address option" where
  "address_from_event event =
     (let sender_id = ext_string (map_of (ce_extensions event) EXT_SENDER) in
      case (ext_string (map_of (ce_extensions event) EXT_APPLICATION),
            ext_string (map_of (ce_extensions event) EXT_DEVICE)) of
        (Some app_id, Some device_id) \<Rightarrow>
          Some \<lparr>ca_app_id = app_id,
                ca_gateway_id = (case sender_id of None \<Rightarrow> device_id | Some s \<Rightarrow> s),
                ca_device_id = device_id\<rparr>
      | _ \<Rightarrow> None)"

definition command_from_event ::
  "(ce_data \<Rightarrow> string option) \<Rightarrow> data_event \<Rightarrow> parse_command_error + command" where
  "command_from_event bytes event =
     rbind (ok_or (MissingAttribute ''Address'') (address_from_event event)) (\<lambda>address.
     rbind (case ce_payload event of
              Some data \<Rightarrow> rbind (ok_or InvalidPayload (bytes data)) (\<lambda>p. Inr (Some p))
            | None \<Rightarrow> Inr None) (\<lambda>payload.
     rbind (ok_or (MissingAttribute ''Command'') (ce_subject event)) (\<lambda>cmd.
       Inr \<lparr>cd_address = address, cd_command = cmd, cd_payload = payload\<rparr>)))"

section \<open>Filters and targets\<close>

record topic_env =
  te_filter_ok :: "string \<Rightarrow> bool"
  te_name_ok :: "string \<Rightarrow> bool"
  te_is_match :: "string \<Rightarrow> string \<Rightarrow> bool"

datatype name_filter = FilterAlways | FilterNever | FilterTopic string

definition filter_from :: "topic_env \<Rightarrow> string option \<Rightarrow> name_filter" where
  "filter_from te filt =
     (case filt of
        Some f \<Rightarrow> if te_filter_ok te f then FilterTopic f else FilterNever
      | None \<Rightarrow> FilterAlways)"

fun name_matches :: "topic_env \<Rightarrow> name_filter \<Rightarrow> string \<Rightarrow> bool" where
  "name_matches te (FilterTopic f) cmd = (if te_name_ok te cmd then te_is_match te f cmd else False)"
| "name_matches te FilterNever cmd = False"
| "name_matches te FilterAlways cmd = True"

record command_target =
  ct_tx :: nat
  ct_filter :: name_filter

record command_filter =
  cf_application :: string
  cf_gateway :: string
  cf_device :: "string option"
  cf_command_filter :: "string option"

definition filter_wildcard :: "string \<Rightarrow> string \<Rightarrow> command_filter" where
  "filter_wildcard app gateway =
     \<lparr>cf_application = app, cf_gateway = gateway, cf_device = None, cf_command_filter = None\<rparr>"

definition filter_proxied_device :: "string \<Rightarrow> string \<Rightarrow> string \<Rightarrow> command_filter" where
  "filter_proxied_device app gateway dev =
     \<lparr>cf_application = app, cf_gateway = gateway, cf_device = Some dev, cf_command_filter = None\<rparr>"

definition filter_device :: "string \<Rightarrow> string \<Rightarrow> command_filter" where
  "filter_device app dev =
     \<lparr>cf_application = app, cf_gateway = dev, cf_device = Some dev, cf_command_filter = None\<rparr>"

definition with_filter :: "string option \<Rightarrow> command_filter \<Rightarrow> command_filter" where
  "with_filter cmd_filter f = f\<lparr>cf_command_filter := cmd_filter\<rparr>"

section \<open>The dispatcher\<close>

type_synonym 'k command_map = "('k \<times> (u64 \<times> command_target) list) list"

record commands =
  cs_devices :: "command_address command_map"
  cs_wildcards :: "(string \<times> string) command_map"

record subscription_handle =
  sh_filter :: command_filter
  sh_id :: u64

record hub =
  hb_commands :: commands
  hb_next :: nat
  hb_queue :: "nat \<Rightarrow> command list"
  hb_closed :: "nat list"

definition hub_new :: hub where
  "hub_new = \<lparr>hb_commands = \<lparr>cs_devices = [], cs_wildcards = []\<rparr>, hb_next = 0, hb_queue = (\<lambda>_. []), hb_closed = []\<rparr>"

text \<open>The loop of \<open>add_entry\<close> draws random numbers until one is free.\<close>

partial_function (option) pick_id :: "(nat \<Rightarrow> u64) \<Rightarrow> nat \<Rightarrow> u64 list \<Rightarrow> u64 option" where
  "pick_id rnd n used = (if rnd n \<notin> set used then Some (rnd n) else pick_id rnd (Suc n) used)"

declare pick_id.simps [code]

definition inner :: "('k \<times> 'm list) list \<Rightarrow> 'k \<Rightarrow> 'm list" where
  "inner m key = (case map_of m key of Some entries \<Rightarrow> entries | None \<Rightarrow> [])"

definition add_entry ::
  "(nat \<Rightarrow> u64) \<Rightarrow> 'k \<Rightarrow> 'v \<Rightarrow> ('k \<times> (u64 \<times> 'v) list) list \<Rightarrow> (u64 \<times> ('k \<times> (u64 \<times> 'v) list) list) option" where
  "add_entry rnd key value m =
     map_option (\<lambda>id. (id, AList.update key (AList.update id value (inner m key)) m))
       (pick_id rnd 0 (map fst (inner m key)))"

definition remove_entry ::
  "'k \<Rightarrow> u64 \<Rightarrow> ('k \<times> (u64 \<times> 'v) list) list \<Rightarrow> ('k \<times> (u64 \<times> 'v) list) list" where
  "remove_entry key i m =
     (case map_of m key of
        None \<Rightarrow> m
      | Some entries \<Rightarrow>
          let entries' = AList.delete i entries in
          if entries' = [] then AList.delete key m else AList.update key entries' m)"

text \<open>A device that is its own gateway is subscribed to everything the gateway gets.\<close>

definition cleanup_filter :: "command_filter \<Rightarrow> command_filter" where
  "cleanup_filter f = (case cf_device f of
     Some dev \<Rightarrow> if dev = cf_gateway f then f\<lparr>cf_device := None\<rparr> else f
   | None \<Rightarrow> f)"

definition subscribe ::
  "topic_env \<Rightarrow> command_filter \<Rightarrow> (nat \<Rightarrow> u64) \<Rightarrow> hub \<Rightarrow> ((nat \<times> subscription_handle) \<times> hub) option" where
  "subscribe te filt rnd s =
     (let tx = hb_next s;
          target = \<lparr>ct_tx = tx, ct_filter = filter_from te (cf_command_filter filt)\<rparr>;
          filt = cleanup_filter filt;
          cs = hb_commands s
      in map_option (\<lambda>(id, cs'). ((tx, \<lparr>sh_filter = filt, sh_id = id\<rparr>), s\<lparr>hb_commands := cs', hb_next := Suc tx\<rparr>))
        (case cf_device filt of
           Some dev \<Rightarrow>
             map_option (\<lambda>(id, m). (id, cs\<lparr>cs_devices := m\<rparr>))
               (add_entry rnd \<lparr>ca_app_id = cf_application filt, ca_gateway_id = cf_gateway filt, ca_device_id = dev\<rparr>
                 target (cs_devices cs))
         | None \<Rightarrow>
             map_option (\<lambda>(id, m). (id, cs\<lparr>cs_wildcards := m\<rparr>))
               (add_entry rnd (cf_application filt, cf_gateway filt) target (cs_wildcards cs))))"

definition unsubscribe :: "subscription_handle \<Rightarrow> hub \<Rightarrow> hub" where
  "unsubscribe h s =
     (let f = sh_filter h; cs = hb_commands s in
      case cf_device f of
        Some dev \<Rightarrow> s\<lparr>hb_commands := cs\<lparr>cs_devices := remove_entry
            \<lparr>ca_app_id = cf_application f, ca_gateway_id = cf_gateway f, ca_device_id = dev\<rparr> (sh_id h) (cs_devices cs)\<rparr>\<rparr>
      | None \<Rightarrow> s\<lparr>hb_commands := cs\<lparr>cs_wildcards := remove_entry
            (cf_application f, cf_gateway f) (sh_id h) (cs_wildcards cs)\<rparr>\<rparr>)"

definition channel_send :: "nat \<Rightarrow> command \<Rightarrow> hub \<Rightarrow> hub" where
  "channel_send tx msg s = (if tx \<in> set (hb_closed s) then s
     else s\<lparr>hb_queue := (hb_queue s)(tx := hb_queue s tx @ [msg])\<rparr>)"

fun dispatch_command :: "topic_env \<Rightarrow> command_target list \<Rightarrow> command \<Rightarrow> hub \<Rightarrow> nat \<times> hub" where
  "dispatch_command te [] msg s = (0, s)"
| "dispatch_command te (t # ts) msg s =
     (if \<not> name_matches te (ct_filter t) (cd_command msg) then dispatch_command te ts msg s
      else let (n, s') = dispatch_command te ts msg (channel_send (ct_tx t) msg s) in (Suc n, s'))"

definition send_command :: "topic_env \<Rightarrow> command \<Rightarrow> hub \<Rightarrow> nat \<times> hub" where
  "send_command te msg s =
     (let a = cd_address msg; cs = hb_commands s;
          (n, s) = (case map_of (cs_devices cs) a of
                      Some m \<Rightarrow> dispatch_command te (map snd m) msg s | None \<Rightarrow> (0, s));
          (n', s) = (case map_of (cs_wildcards cs) (ca_app_id a, ca_gateway_id a) of
                       Some m \<Rightarrow> dispatch_command te (map snd m) msg s | None \<Rightarrow> (0, s))
      in (n + n', s))"

text \<open>The loop of \<open>KafkaCommandSource\<close>: an event that is not a command is skipped.\<close>

fun command_source :: "topic_env \<Rightarrow> (ce_data \<Rightarrow> string option) \<Rightarrow> (unit + data_event) list \<Rightarrow> hub \<Rightarrow> hub" where
  "command_source te bytes [] s = s"
| "command_source te bytes (Inl _ # events) s = command_source te bytes events s"
| "command_source te bytes (Inr event # events) s =
     (case command_from_event bytes event of
        Inl _ \<Rightarrow> command_source te bytes events s
      | Inr cmd \<Rightarrow> command_source te bytes events (snd (send_command te cmd s)))"

section \<open>Two level maps of subscriptions\<close>

text \<open>What the dispatcher needs of the maps: adding and removing one entry.\<close>

locale entry_map =
  fixes add :: "(nat \<Rightarrow> u64) \<Rightarrow> 'k \<Rightarrow> 'v \<Rightarrow> 'm \<Rightarrow> (u64 \<times> 'm) option"
    and remove :: "'k \<Rightarrow> u64 \<Rightarrow> 'm \<Rightarrow> 'm"
    and entries :: "'m \<Rightarrow> ('k \<times> u64 \<times> 'v) set"
  assumes add_fresh: "add rnd k v m = Some (i, m') \<Longrightarrow> (k, i, w) \<notin> entries m"
    and add_entries: "add rnd k v m = Some (i, m') \<Longrightarrow> entries m' = insert (k, i, v) (entries m)"
    and remove_entries: "entries (remove k i m) = {e \<in> entries m. (fst e, fst (snd e)) \<noteq> (k, i)}"
begin

lemma add_remove: "add rnd k v m = Some (i, m') \<Longrightarrow> entries (remove k i m') = entries m"
  using add_fresh[of rnd k v m i m'] by (auto simp: add_entries remove_entries)

lemma remove_other: "(k, i) \<noteq> (k', i') \<Longrightarrow> (k', i', v) \<in> entries m \<Longrightarrow> (k', i', v) \<in> entries (remove k i m)"
  by (auto simp: remove_entries)

end

definition map_entries :: "('k \<times> (u64 \<times> 'v) list) list \<Rightarrow> ('k \<times> u64 \<times> 'v) set" where
  "map_entries m = {(k, i, v). map_of (inner m k) i = Some v}"

lemma pick_id_fresh: "pick_id rnd n used = Some i \<Longrightarrow> i \<notin> set used"
proof (rule pick_id.raw_induct[where P = "\<lambda>rnd n used i. i \<notin> set used"])
  fix f :: "(nat \<Rightarrow> u64) \<Rightarrow> nat \<Rightarrow> u64 list \<Rightarrow> u64 option" and rnd n used i
  assume "\<And>rnd n used i. f rnd n used = Some i \<Longrightarrow> i \<notin> set used"
    and "(if rnd n \<notin> set used then Some (rnd n) else f rnd (Suc n) used) = Some i"
  then show "i \<notin> set used" by (auto split: if_splits)
qed

lemma pick_id_returns:
  assumes "rnd (n + k) \<notin> set used"
  shows "\<exists>i. pick_id rnd n used = Some i"
  using assms
proof (induction k arbitrary: n)
  case 0
  then show ?case by (subst pick_id.simps) simp
next
  case (Suc k)
  then show ?case using Suc.IH[of "Suc n"] by (subst pick_id.simps) simp
qed

lemma inner_update [simp]: "inner (AList.update k x m) k' = (if k' = k then x else inner m k')"
  by (simp add: inner_def update_conv')

lemma inner_delete [simp]: "inner (AList.delete k m) k' = (if k' = k then [] else inner m k')"
  by (simp add: inner_def delete_conv')

lemma inner_remove_entry: "inner (remove_entry k i m) k' = (if k' = k then AList.delete i (inner m k) else inner m k')"
  by (auto simp: remove_entry_def Let_def inner_def[of m] inner_def delete_conv' update_conv' split: option.splits)

lemma add_entryE:
  assumes "add_entry rnd k v m = Some (i, m')"
  shows "i \<notin> set (map fst (inner m k))" "m' = AList.update k (AList.update i v (inner m k)) m"
  using assms pick_id_fresh[of rnd 0 "map fst (inner m k)" i] by (auto simp: add_entry_def)

interpretation em: entry_map add_entry remove_entry map_entries
proof
  fix rnd :: "nat \<Rightarrow> u64" and k :: 'k and v w :: 'v and m m' i
  assume add: "add_entry rnd k v m = Some (i, m')"
  have none: "map_of (inner m k) i = None" using add_entryE(1)[OF add] by (simp add: map_of_eq_None_iff)
  then show "(k, i, w) \<notin> map_entries m" by (simp add: map_entries_def)
  show "map_entries m' = insert (k, i, v) (map_entries m)"
    using none unfolding add_entryE(2)[OF add] by (auto simp: map_entries_def update_conv' split: if_splits)
next
  fix k :: 'k and i and m :: "('k \<times> (u64 \<times> 'v) list) list"
  show "map_entries (remove_entry k i m) = {e \<in> map_entries m. (fst e, fst (snd e)) \<noteq> (k, i)}"
    by (auto simp: map_entries_def inner_remove_entry delete_conv' split: if_splits)
qed

section \<open>Subscriptions as a set\<close>

datatype sub_key = KeyDevice command_address | KeyWildcard string string

definition filter_key :: "command_filter \<Rightarrow> sub_key" where
  "filter_key f = (case cf_device f of
     Some dev \<Rightarrow> KeyDevice \<lparr>ca_app_id = cf_application f, ca_gateway_id = cf_gateway f, ca_device_id = dev\<rparr>
   | None \<Rightarrow> KeyWildcard (cf_application f) (cf_gateway f))"

fun key_matches :: "sub_key \<Rightarrow> command_address \<Rightarrow> bool" where
  "key_matches (KeyDevice a) b \<longleftrightarrow> a = b"
| "key_matches (KeyWildcard app gw) b \<longleftrightarrow> app = ca_app_id b \<and> gw = ca_gateway_id b"

definition subs :: "commands \<Rightarrow> (sub_key \<times> u64 \<times> command_target) set" where
  "subs cs = (\<lambda>(k, e). (KeyDevice k, e)) ` map_entries (cs_devices cs)
     \<union> (\<lambda>((a, g), e). (KeyWildcard a g, e)) ` map_entries (cs_wildcards cs)"

lemma subs_iff:
  "(KeyDevice k, e) \<in> subs cs \<longleftrightarrow> (k, e) \<in> map_entries (cs_devices cs)"
  "(KeyWildcard a g, e) \<in> subs cs \<longleftrightarrow> ((a, g), e) \<in> map_entries (cs_wildcards cs)"
  by (force simp: subs_def)+

lemma subs_eqI: "(\<And>k i t. (k, i, t) \<in> subs cs \<longleftrightarrow> (k, i, t) \<in> S) \<Longrightarrow> subs cs = S"
  by auto

lemma subscribe_subs:
  assumes "subscribe te f rnd s = Some ((tx, h), s')"
  shows "tx = hb_next s" "hb_next s' = Suc tx" "hb_queue s' = hb_queue s" "hb_closed s' = hb_closed s"
    "sh_filter h = cleanup_filter f" "(filter_key (cleanup_filter f), sh_id h, t) \<notin> subs (hb_commands s)"
    "subs (hb_commands s') = insert (filter_key (cleanup_filter f), sh_id h,
       \<lparr>ct_tx = tx, ct_filter = filter_from te (cf_command_filter f)\<rparr>) (subs (hb_commands s))"
proof -
  let ?t = "\<lparr>ct_tx = hb_next s, ct_filter = filter_from te (cf_command_filter f)\<rparr>" and ?f = "cleanup_filter f"
  show "tx = hb_next s" "hb_next s' = Suc tx" "hb_queue s' = hb_queue s" "hb_closed s' = hb_closed s" "sh_filter h = ?f"
    using assms by (auto simp: subscribe_def Let_def)
  show "(filter_key ?f, sh_id h, t) \<notin> subs (hb_commands s)"
    using assms by (auto simp: subscribe_def Let_def filter_key_def subs_iff split: option.splits dest: em.add_fresh)
  show "subs (hb_commands s') = insert (filter_key ?f, sh_id h, \<lparr>ct_tx = tx, ct_filter = filter_from te (cf_command_filter f)\<rparr>)
      (subs (hb_commands s))"
    by (rule subs_eqI, rename_tac k i t, case_tac k)
      (use assms in \<open>auto simp: subscribe_def Let_def filter_key_def subs_iff split: option.splits dest!: em.add_entries\<close>)
qed

definition handle_key :: "subscription_handle \<Rightarrow> sub_key \<times> u64" where
  "handle_key h = (filter_key (sh_filter h), sh_id h)"

lemma unsubscribe_subs:
  "subs (hb_commands (unsubscribe h s)) = {e \<in> subs (hb_commands s). (fst e, fst (snd e)) \<noteq> handle_key h}"
  by (rule subs_eqI, rename_tac k i t, case_tac k)
    (auto simp: unsubscribe_def Let_def subs_iff em.remove_entries handle_key_def filter_key_def split: option.splits)

lemma unsubscribe_rest [simp]:
  "hb_next (unsubscribe h s) = hb_next s" "hb_queue (unsubscribe h s) = hb_queue s" "hb_closed (unsubscribe h s) = hb_closed s"
  by (simp_all add: unsubscribe_def Let_def split: option.splits)

section \<open>The invariant of the dispatcher\<close>

definition inner_distinct :: "('k \<times> (u64 \<times> 'v) list) list \<Rightarrow> bool" where
  "inner_distinct m \<longleftrightarrow> (\<forall>k. distinct (map fst (inner m k)))"

text \<open>Every subscription has a channel of its own, and channels not yet created are empty.\<close>

definition hub_inv :: "hub \<Rightarrow> bool" where
  "hub_inv s \<longleftrightarrow> inner_distinct (cs_devices (hb_commands s)) \<and> inner_distinct (cs_wildcards (hb_commands s))
     \<and> inj_on (\<lambda>(k, i, t). ct_tx t) (subs (hb_commands s))
     \<and> (\<forall>(k, i, t) \<in> subs (hb_commands s). ct_tx t < hb_next s)
     \<and> (\<forall>c \<ge> hb_next s. hb_queue s c = [])"

lemma inner_distinct_add:
  "inner_distinct m \<Longrightarrow> add_entry rnd k v m = Some (i, m') \<Longrightarrow> inner_distinct m'"
  by (drule add_entryE(2)) (simp add: inner_distinct_def distinct_update)

lemma inner_distinct_remove: "inner_distinct m \<Longrightarrow> inner_distinct (remove_entry k i m)"
  by (simp add: inner_distinct_def inner_remove_entry distinct_delete)

lemma subscribe_inv:
  assumes "hub_inv s" and "subscribe te f rnd s = Some ((tx, h), s')"
  shows "hub_inv s'"
proof -
  note sub = subscribe_subs[OF assms(2)]
  have "inner_distinct (cs_devices (hb_commands s')) \<and> inner_distinct (cs_wildcards (hb_commands s'))"
    using assms by (auto simp: subscribe_def Let_def hub_inv_def split: option.splits dest: inner_distinct_add)
  moreover have "inj_on (\<lambda>(k, i, t). ct_tx t) (subs (hb_commands s'))"
    using assms(1) unfolding sub(7) inj_on_insert hub_inv_def by (fastforce simp: sub(1))
  ultimately show ?thesis
    using assms(1) unfolding hub_inv_def sub(2,3,7) by (auto simp: sub(1))
qed

lemma unsubscribe_inv: "hub_inv s \<Longrightarrow> hub_inv (unsubscribe h s)"
  unfolding hub_inv_def unsubscribe_subs
  by (auto simp: unsubscribe_def Let_def inner_distinct_remove split: option.splits intro: inj_on_subset)

section \<open>Dispatching\<close>

lemma channel_send_rest [simp]:
  "hb_commands (channel_send tx msg s) = hb_commands s" "hb_next (channel_send tx msg s) = hb_next s"
  "hb_closed (channel_send tx msg s) = hb_closed s"
  by (simp_all add: channel_send_def)

lemma dispatch_rest [simp]:
  "hb_commands (snd (dispatch_command te ts msg s)) = hb_commands s"
  "hb_next (snd (dispatch_command te ts msg s)) = hb_next s"
  "hb_closed (snd (dispatch_command te ts msg s)) = hb_closed s"
  by (induction te ts msg s rule: dispatch_command.induct) (auto simp: Let_def split: prod.splits)

definition takes :: "topic_env \<Rightarrow> command \<Rightarrow> nat \<Rightarrow> command_target \<Rightarrow> bool" where
  "takes te msg c t \<longleftrightarrow> ct_tx t = c \<and> name_matches te (ct_filter t) (cd_command msg)"

lemma dispatch_queue:
  "hb_queue (snd (dispatch_command te ts msg s)) c =
     hb_queue s c @ (if c \<in> set (hb_closed s) then [] else map (\<lambda>_. msg) (filter (takes te msg c) ts))"
  by (induction te ts msg s rule: dispatch_command.induct)
    (auto simp: Let_def channel_send_def takes_def[abs_def] case_prod_beta)

lemma filter_one:
  assumes "distinct (map f xs)"
  shows "length (filter (\<lambda>x. f x = c \<and> P x) xs) = (if \<exists>x \<in> set xs. f x = c \<and> P x then 1 else 0)"
  using assms by (induction xs) (auto, metis image_eqI)

lemma send_command_rest [simp]:
  "hb_commands (snd (send_command te msg s)) = hb_commands s" "hb_next (snd (send_command te msg s)) = hb_next s"
  "hb_closed (snd (send_command te msg s)) = hb_closed s"
  by (simp_all add: send_command_def Let_def case_prod_beta split: option.splits)

definition address_targets :: "commands \<Rightarrow> command_address \<Rightarrow> command_target list" where
  "address_targets cs a = map snd (inner (cs_devices cs) a @ inner (cs_wildcards cs) (ca_app_id a, ca_gateway_id a))"

lemma send_command_queue:
  "hb_queue (snd (send_command te msg s)) c = hb_queue s c @ (if c \<in> set (hb_closed s) then []
     else map (\<lambda>_. msg) (filter (takes te msg c) (address_targets (hb_commands s) (cd_address msg))))"
  by (simp add: send_command_def Let_def case_prod_beta dispatch_queue address_targets_def inner_def
      split: option.splits)

lemma inner_entries: "inner_distinct m \<Longrightarrow> (i, t) \<in> set (inner m k) \<longleftrightarrow> (k, i, t) \<in> map_entries m"
  by (simp add: map_entries_def inner_distinct_def)

lemma address_targets_distinct:
  assumes "hub_inv s"
  shows "distinct (map ct_tx (address_targets (hb_commands s) a))"
proof -
  let ?d = "inner (cs_devices (hb_commands s)) a" and ?w = "inner (cs_wildcards (hb_commands s)) (ca_app_id a, ca_gateway_id a)"
  have inv: "inner_distinct (cs_devices (hb_commands s))" "inner_distinct (cs_wildcards (hb_commands s))"
    "inj_on (\<lambda>(k, i, t). ct_tx t) (subs (hb_commands s))"
    using assms by (auto simp: hub_inv_def)
  have d: "(KeyDevice a, i, t) \<in> subs (hb_commands s)" if "(i, t) \<in> set ?d" for i t
    using that inner_entries[OF inv(1)] by (simp add: subs_iff)
  have w: "(KeyWildcard (ca_app_id a) (ca_gateway_id a), i, t) \<in> subs (hb_commands s)" if "(i, t) \<in> set ?w" for i t
    using that inner_entries[OF inv(2)] by (simp add: subs_iff)
  have same: "k = k' \<and> i = i' \<and> t = t'"
    if "(k, i, t) \<in> subs (hb_commands s)" "(k', i', t') \<in> subs (hb_commands s)" "ct_tx t = ct_tx t'" for k i t k' i' t'
    using inj_onD[OF inv(3) _ that(1,2)] that(3) by simp
  have "distinct ?d" "distinct ?w" using inv(1,2) by (auto simp: inner_distinct_def distinct_map)
  moreover have "inj_on (ct_tx \<circ> snd) (set ?d)"
  proof (rule inj_onI)
    fix x y assume "x \<in> set ?d" "y \<in> set ?d" "(ct_tx \<circ> snd) x = (ct_tx \<circ> snd) y"
    then show "x = y" using same[OF d d, of "fst x" "snd x" "fst y" "snd y"] by (simp add: prod_eq_iff)
  qed
  moreover have "inj_on (ct_tx \<circ> snd) (set ?w)"
  proof (rule inj_onI)
    fix x y assume "x \<in> set ?w" "y \<in> set ?w" "(ct_tx \<circ> snd) x = (ct_tx \<circ> snd) y"
    then show "x = y" using same[OF w w, of "fst x" "snd x" "fst y" "snd y"] by (simp add: prod_eq_iff)
  qed
  ultimately have "distinct (map (ct_tx \<circ> snd) ?d)" "distinct (map (ct_tx \<circ> snd) ?w)"
    unfolding distinct_map by blast+
  moreover have neq: "(ct_tx \<circ> snd) x \<noteq> (ct_tx \<circ> snd) y" if "x \<in> set ?d" "y \<in> set ?w" for x y
    using same[OF d w, of "fst x" "snd x" "fst y" "snd y"] that by auto
  then have "set (map (ct_tx \<circ> snd) ?d) \<inter> set (map (ct_tx \<circ> snd) ?w) = {}"
    unfolding set_map by blast
  ultimately show ?thesis unfolding address_targets_def map_map map_append distinct_append by blast
qed

lemma address_targets_subs:
  assumes "hub_inv s"
  shows "t \<in> set (address_targets (hb_commands s) a) \<longleftrightarrow> (\<exists>k i. (k, i, t) \<in> subs (hb_commands s) \<and> key_matches k a)"
proof -
  have inv: "inner_distinct (cs_devices (hb_commands s))" "inner_distinct (cs_wildcards (hb_commands s))"
    using assms by (auto simp: hub_inv_def)
  have "t \<in> set (address_targets (hb_commands s) a) \<longleftrightarrow> (\<exists>i. (KeyDevice a, i, t) \<in> subs (hb_commands s))
      \<or> (\<exists>i. (KeyWildcard (ca_app_id a) (ca_gateway_id a), i, t) \<in> subs (hb_commands s))"
    by (force simp: address_targets_def subs_iff inner_entries[OF inv(1), symmetric] inner_entries[OF inv(2), symmetric])
  also have "\<dots> \<longleftrightarrow> (\<exists>k i. (k, i, t) \<in> subs (hb_commands s) \<and> key_matches k a)"
    by (metis key_matches.simps sub_key.exhaust)
  finally show ?thesis .
qed

lemma hub_channels:
  "hub_inv s \<Longrightarrow> (k, i, t) \<in> subs (hb_commands s) \<Longrightarrow> (k', i', t') \<in> subs (hb_commands s) \<Longrightarrow> ct_tx t = ct_tx t' \<Longrightarrow>
     k = k' \<and> i = i' \<and> t = t'"
  using inj_onD[of "\<lambda>(k, i, t). ct_tx t" "subs (hb_commands s)" "(k, i, t)" "(k', i', t')"] by (simp add: hub_inv_def)

lemma send_command_delivers:
  assumes "hub_inv s"
  shows "hb_queue (snd (send_command te msg s)) c = hb_queue s c @
     (if c \<notin> set (hb_closed s) \<and> (\<exists>k i t. (k, i, t) \<in> subs (hb_commands s) \<and> key_matches k (cd_address msg) \<and> takes te msg c t)
      then [msg] else [])"
proof -
  let ?ts = "address_targets (hb_commands s) (cd_address msg)"
  have "length (filter (takes te msg c) ?ts) = (if \<exists>t \<in> set ?ts. takes te msg c t then 1 else 0)"
    unfolding takes_def by (rule filter_one) (rule address_targets_distinct[OF assms])
  moreover have "(\<exists>t \<in> set ?ts. takes te msg c t) \<longleftrightarrow>
      (\<exists>k i t. (k, i, t) \<in> subs (hb_commands s) \<and> key_matches k (cd_address msg) \<and> takes te msg c t)"
    unfolding Bex_def address_targets_subs[OF assms] by blast
  ultimately show ?thesis
    by (auto simp: send_command_queue length_Suc_conv split: if_splits)
qed

lemma send_command_inv:
  assumes "hub_inv s"
  shows "hub_inv (snd (send_command te msg s))"
proof -
  have "\<not> takes te msg c t" if "(k, i, t) \<in> subs (hb_commands s)" "c \<ge> hb_next s" for k i t c
    using assms that by (auto simp: hub_inv_def takes_def)
  then show ?thesis
    using assms unfolding hub_inv_def[of "snd _"] send_command_delivers[OF assms] by (auto simp: hub_inv_def)
qed

section \<open>Histories\<close>

datatype command_op =
    OpSubscribe command_filter "nat \<Rightarrow> u64"
  | OpUnsubscribe subscription_handle
  | OpSend command
  | OpDropReceiver nat

fun apply_command_op :: "topic_env \<Rightarrow> command_op \<Rightarrow> hub \<Rightarrow> hub option" where
  "apply_command_op te (OpSubscribe f rnd) s = map_option snd (subscribe te f rnd s)"
| "apply_command_op te (OpUnsubscribe h) s = Some (unsubscribe h s)"
| "apply_command_op te (OpSend msg) s = Some (snd (send_command te msg s))"
| "apply_command_op te (OpDropReceiver c) s = Some (s\<lparr>hb_closed := c # hb_closed s\<rparr>)"

fun run_commands :: "topic_env \<Rightarrow> command_op list \<Rightarrow> hub \<Rightarrow> hub option" where
  "run_commands te [] s = Some s"
| "run_commands te (x # ops) s = Option.bind (apply_command_op te x s) (run_commands te ops)"

fun sent_commands :: "command_op list \<Rightarrow> command list" where
  "sent_commands [] = []"
| "sent_commands (OpSend msg # ops) = msg # sent_commands ops"
| "sent_commands (_ # ops) = sent_commands ops"

lemma apply_command_op_inv:
  assumes "hub_inv s" and "apply_command_op te x s = Some s'"
  shows "hub_inv s'"
proof (cases x)
  case (OpSubscribe f rnd)
  then show ?thesis using assms subscribe_inv[of s te f rnd] by auto
next
  case (OpDropReceiver c)
  then show ?thesis using assms by (auto simp: hub_inv_def)
qed (use assms unsubscribe_inv send_command_inv in auto)

lemma map_entries_Nil [simp]: "map_entries [] = {}"
  by (simp add: map_entries_def inner_def)

lemma hub_new_inv: "hub_inv hub_new"
  by (simp add: hub_inv_def hub_new_def subs_def inner_def inner_distinct_def)

lemma run_commands_inv: "hub_inv s \<Longrightarrow> run_commands te ops s = Some s' \<Longrightarrow> hub_inv s'"
  by (induction ops arbitrary: s) (auto simp: bind_eq_Some_conv dest: apply_command_op_inv)

text \<open>Whether a subscription with a filter is meant for a command.\<close>

definition wants :: "topic_env \<Rightarrow> command_filter \<Rightarrow> command \<Rightarrow> bool" where
  "wants te f msg \<longleftrightarrow> cf_application f = ca_app_id (cd_address msg) \<and> cf_gateway f = ca_gateway_id (cd_address msg)
     \<and> cf_device f \<in> {None, Some (cf_gateway f), Some (ca_device_id (cd_address msg))}
     \<and> name_matches te (filter_from te (cf_command_filter f)) (cd_command msg)"

lemma wants_key:
  "wants te f = (\<lambda>msg. key_matches (filter_key (cleanup_filter f)) (cd_address msg)
     \<and> name_matches te (filter_from te (cf_command_filter f)) (cd_command msg))"
proof
  fix msg
  show "wants te f msg \<longleftrightarrow> key_matches (filter_key (cleanup_filter f)) (cd_address msg)
      \<and> name_matches te (filter_from te (cf_command_filter f)) (cd_command msg)"
    by (cases "cf_device f"; cases "cd_address msg") (auto simp: wants_def filter_key_def cleanup_filter_def)
qed

text \<open>What happens to one live subscription in one step.\<close>

lemma step_live:
  assumes "hub_inv s" and "(k, i, t) \<in> subs (hb_commands s)" and "apply_command_op te x s = Some s'"
    and "\<forall>h. x = OpUnsubscribe h \<longrightarrow> handle_key h \<noteq> (k, i)" and "ct_tx t \<notin> set (hb_closed s)" and "x \<noteq> OpDropReceiver (ct_tx t)"
  shows "(k, i, t) \<in> subs (hb_commands s') \<and> ct_tx t \<notin> set (hb_closed s')
     \<and> hb_queue s' (ct_tx t) = hb_queue s (ct_tx t) @
         filter (\<lambda>msg. key_matches k (cd_address msg) \<and> name_matches te (ct_filter t) (cd_command msg)) (sent_commands [x])"
proof (cases x)
  case (OpSubscribe f rnd)
  then obtain tx h where "subscribe te f rnd s = Some ((tx, h), s')" using assms(3) by auto
  from subscribe_subs(3,4,7)[OF this] show ?thesis using assms(2,5) OpSubscribe by simp
next
  case (OpUnsubscribe h)
  then show ?thesis using assms by (auto simp: unsubscribe_subs)
next
  case (OpSend msg)
  have *: "(\<exists>k' i' t'. (k', i', t') \<in> subs (hb_commands s) \<and> key_matches k' (cd_address msg) \<and> takes te msg (ct_tx t) t')
      \<longleftrightarrow> key_matches k (cd_address msg) \<and> takes te msg (ct_tx t) t"
  proof -
    have "k' = k \<and> i' = i \<and> t' = t" if "(k', i', t') \<in> subs (hb_commands s)" "ct_tx t' = ct_tx t" for k' i' t'
      using hub_channels[OF assms(1) that(1) assms(2) that(2)] .
    then show ?thesis using assms(2) unfolding takes_def by metis
  qed
  have q: "hb_queue (snd (send_command te msg s)) (ct_tx t) = hb_queue s (ct_tx t) @
      (if key_matches k (cd_address msg) \<and> name_matches te (ct_filter t) (cd_command msg) then [msg] else [])"
    unfolding send_command_delivers[OF assms(1)] * using assms(5) by (simp add: takes_def)
  have "s' = snd (send_command te msg s)" using assms(3) OpSend by simp
  then show ?thesis using assms(2,5) OpSend q by simp
qed (use assms in auto)

lemma run_live:
  assumes "hub_inv s" and "(k, i, t) \<in> subs (hb_commands s)" and "run_commands te ops s = Some s'"
    and "\<forall>h. OpUnsubscribe h \<in> set ops \<longrightarrow> handle_key h \<noteq> (k, i)" and "ct_tx t \<notin> set (hb_closed s)"
    and "OpDropReceiver (ct_tx t) \<notin> set ops"
  shows "hb_queue s' (ct_tx t) = hb_queue s (ct_tx t) @
         filter (\<lambda>msg. key_matches k (cd_address msg) \<and> name_matches te (ct_filter t) (cd_command msg)) (sent_commands ops)
     \<and> (k, i, t) \<in> subs (hb_commands s')"
  using assms
proof (induction ops arbitrary: s)
  case (Cons x ops)
  then obtain s1 where s1: "apply_command_op te x s = Some s1" "run_commands te ops s1 = Some s'"
    by (auto simp: bind_eq_Some_conv)
  have x: "\<forall>h. x = OpUnsubscribe h \<longrightarrow> handle_key h \<noteq> (k, i)" "x \<noteq> OpDropReceiver (ct_tx t)"
    using Cons.prems(4,6) by auto
  note live = step_live[OF Cons.prems(1,2) s1(1) x(1) Cons.prems(5) x(2)]
  have "hb_queue s' (ct_tx t) = hb_queue s1 (ct_tx t) @
         filter (\<lambda>msg. key_matches k (cd_address msg) \<and> name_matches te (ct_filter t) (cd_command msg)) (sent_commands ops)
     \<and> (k, i, t) \<in> subs (hb_commands s')"
    using Cons.IH[OF apply_command_op_inv[OF Cons.prems(1) s1(1)] _ s1(2)] live Cons.prems(4,6) by simp
  then show ?case using live by (cases x) simp_all
qed simp

lemma run_dead:
  assumes "hub_inv s" and "c < hb_next s" and "\<forall>(k, i, t) \<in> subs (hb_commands s). ct_tx t \<noteq> c"
    and "run_commands te ops s = Some s'"
  shows "hb_queue s' c = hb_queue s c"
  using assms
proof (induction ops arbitrary: s)
  case (Cons x ops)
  then obtain s1 where s1: "apply_command_op te x s = Some s1" "run_commands te ops s1 = Some s'"
    by (auto simp: bind_eq_Some_conv)
  have "hb_queue s1 c = hb_queue s c \<and> c < hb_next s1 \<and> (\<forall>(k, i, t) \<in> subs (hb_commands s1). ct_tx t \<noteq> c)"
  proof (cases x)
    case (OpSubscribe f rnd)
    then obtain tx h where "subscribe te f rnd s = Some ((tx, h), s1)" using s1(1) by auto
    from subscribe_subs(1,2,3,7)[OF this] show ?thesis using Cons.prems(2,3) by auto
  next
    case (OpUnsubscribe h)
    then show ?thesis using Cons.prems(2,3) s1(1) by (auto simp: unsubscribe_subs)
  next
    case (OpSend msg)
    then show ?thesis
      using Cons.prems(2,3) s1(1) by (auto simp: send_command_delivers[OF Cons.prems(1)] takes_def)
  qed (use Cons.prems(2,3) s1(1) in auto)
  then show ?case using Cons.IH[OF apply_command_op_inv[OF Cons.prems(1) s1(1)] _ _ s1(2)] by simp
qed simp

text \<open>The channel of a subscription between its start and its end.\<close>

lemma subscription_channel:
  assumes "hub_inv s" and "subscribe te f rnd s = Some ((c, h), s1)" and "c \<notin> set (hb_closed s)"
    and "run_commands te ops s1 = Some s2" and "\<forall>h'. OpUnsubscribe h' \<in> set ops \<longrightarrow> handle_key h' \<noteq> handle_key h"
    and "OpDropReceiver c \<notin> set ops"
  shows "hb_queue s2 c = filter (wants te f) (sent_commands ops) \<and> c < hb_next s2
     \<and> (\<forall>(k, i, t) \<in> subs (hb_commands (unsubscribe h s2)). ct_tx t \<noteq> c)"
proof -
  let ?k = "filter_key (cleanup_filter f)" and ?t = "\<lparr>ct_tx = c, ct_filter = filter_from te (cf_command_filter f)\<rparr>"
  note sub = subscribe_subs[OF assms(2)]
  have key: "handle_key h = (?k, sh_id h)" by (simp add: handle_key_def sub(5))
  have inv1: "hub_inv s1" by (rule subscribe_inv[OF assms(1,2)])
  have inv2: "hub_inv s2" by (rule run_commands_inv[OF inv1 assms(4)])
  have "(?k, sh_id h, ?t) \<in> subs (hb_commands s1)" unfolding sub(7) by simp
  from run_live[OF inv1 this assms(4)] have live: "hb_queue s2 c = hb_queue s1 c @ filter (wants te f) (sent_commands ops)"
    "(?k, sh_id h, ?t) \<in> subs (hb_commands s2)"
    using assms(3,5,6) key sub(4) by (auto simp: wants_key)
  moreover have "hb_queue s1 c = []" using assms(1) sub(1,3) by (simp add: hub_inv_def)
  moreover have "c < hb_next s2" using inv2 live(2) by (auto simp: hub_inv_def)
  moreover have "(k, i) = (?k, sh_id h)" if "(k, i, t) \<in> subs (hb_commands s2)" "ct_tx t = c" for k i t
    using hub_channels[OF inv2 that(1) live(2)] that(2) by simp
  then have "\<forall>(k, i, t) \<in> subs (hb_commands (unsubscribe h s2)). ct_tx t \<noteq> c"
    by (auto simp: unsubscribe_subs key)
  ultimately show ?thesis by simp
qed

section \<open>Properties\<close>

text \<open>
  C12. A subscription receives what it asked for, from the moment it is made to the moment it
  ends: whatever other subscriptions come and go, its channel holds exactly the commands sent
  in between that its filter wants, each once and in the order they were sent, and nothing
  is added after it is cancelled.
\<close>

theorem subscription_receives:
  assumes "hub_inv s" and "subscribe te f rnd s = Some ((c, h), s1)" and "c \<notin> set (hb_closed s)"
    and "run_commands te ops s1 = Some s2" and "\<forall>h'. OpUnsubscribe h' \<in> set ops \<longrightarrow> handle_key h' \<noteq> handle_key h"
    and "OpDropReceiver c \<notin> set ops" and "run_commands te ops' (unsubscribe h s2) = Some s3"
  shows "hb_queue s2 c = filter (wants te f) (sent_commands ops) \<and> hb_queue s3 c = hb_queue s2 c"
proof -
  note ch = subscription_channel[OF assms(1-6)]
  have "hub_inv s2" using assms(1,2,4) by (blast intro: subscribe_inv run_commands_inv)
  from run_dead[OF unsubscribe_inv[OF this] _ _ assms(7)] ch have "hb_queue s3 c = hb_queue (unsubscribe h s2) c" by simp
  then show ?thesis using ch by simp
qed

definition demo_topics :: topic_env where
  "demo_topics = \<lparr>te_filter_ok = (\<lambda>_. True), te_name_ok = (\<lambda>_. True), te_is_match = (=)\<rparr>"

definition demo_command :: "string \<Rightarrow> string \<Rightarrow> string \<Rightarrow> command" where
  "demo_command gw dev cmd = \<lparr>cd_address = \<lparr>ca_app_id = ''a'', ca_gateway_id = gw, ca_device_id = dev\<rparr>,
     cd_command = cmd, cd_payload = None\<rparr>"

definition demo_command_ops :: "command_op list" where
  "demo_command_ops = [OpSend (demo_command ''g'' ''d'' ''on''), OpSubscribe (filter_wildcard ''a'' ''g'') (\<lambda>_. 0),
     OpSend (demo_command ''g'' ''e'' ''on''), OpSend (demo_command ''g'' ''d'' ''off'')]"

theorem subscription_receives_witness:
  "\<exists>c h s1 s2. subscribe demo_topics (filter_proxied_device ''a'' ''g'' ''d'') (\<lambda>_. 0) hub_new = Some ((c, h), s1)
     \<and> run_commands demo_topics demo_command_ops s1 = Some s2
     \<and> hb_queue s2 c = [demo_command ''g'' ''d'' ''on'', demo_command ''g'' ''d'' ''off'']"
proof -
  have pick: "pick_id (\<lambda>_. 0) 0 [] = Some 0" by (simp add: pick_id.simps)
  obtain c h s1 where s1: "subscribe demo_topics (filter_proxied_device ''a'' ''g'' ''d'') (\<lambda>_. 0) hub_new = Some ((c, h), s1)"
    by (simp add: subscribe_def Let_def filter_proxied_device_def cleanup_filter_def hub_new_def add_entry_def inner_def pick)
  have s1': "s1 = hub_new\<lparr>hb_commands := \<lparr>cs_devices = [(\<lparr>ca_app_id = ''a'', ca_gateway_id = ''g'', ca_device_id = ''d''\<rparr>,
      [(0, \<lparr>ct_tx = 0, ct_filter = FilterAlways\<rparr>)])], cs_wildcards = []\<rparr>, hb_next := Suc 0\<rparr>"
    using s1 by (auto simp: subscribe_def Let_def filter_proxied_device_def cleanup_filter_def hub_new_def add_entry_def
        inner_def pick filter_from_def)
  have "\<exists>s2. run_commands demo_topics demo_command_ops s1 = Some s2"
    unfolding s1' by (simp add: demo_command_ops_def demo_command_def filter_wildcard_def subscribe_def Let_def
        cleanup_filter_def hub_new_def add_entry_def inner_def pick send_command_def filter_from_def channel_send_def)
  then obtain s2 where s2: "run_commands demo_topics demo_command_ops s1 = Some s2" by blast
  have "hb_queue s2 c = filter (wants demo_topics (filter_proxied_device ''a'' ''g'' ''d'')) (sent_commands demo_command_ops)"
    using subscription_receives[OF hub_new_inv s1 _ s2, of "[]"] by (simp add: hub_new_def demo_command_ops_def)
  also have "\<dots> = [demo_command ''g'' ''d'' ''on'', demo_command ''g'' ''d'' ''off'']"
    by (simp add: demo_command_ops_def wants_def filter_proxied_device_def demo_command_def filter_from_def)
  finally show ?thesis using s1 s2 by blast
qed

lemma add_entry_returns:
  assumes "inner_distinct m" and "\<forall>(k, i, v) \<in> map_entries m. rnd n \<noteq> i"
  shows "\<exists>i m'. add_entry rnd k v m = Some (i, m')"
proof -
  have "rnd n \<notin> set (map fst (inner m k))" using assms inner_entries[OF assms(1), of _ _ k] by fastforce
  then show ?thesis using pick_id_returns[of rnd 0 n "map fst (inner m k)"] by (auto simp: add_entry_def)
qed

text \<open>
  Subscribing ends: as soon as the random numbers hit one that no subscription has, the
  loop that draws them stops and a subscription is made.
\<close>

theorem subscribe_returns:
  assumes "hub_inv s" and "\<forall>(k, i, t) \<in> subs (hb_commands s). rnd n \<noteq> i"
  shows "\<exists>c h s'. subscribe te f rnd s = Some ((c, h), s')"
proof -
  have d: "\<forall>(k, i, v) \<in> map_entries (cs_devices (hb_commands s)). rnd n \<noteq> i"
    and w: "\<forall>(k, i, v) \<in> map_entries (cs_wildcards (hb_commands s)). rnd n \<noteq> i"
    using assms(2) subs_iff by fastforce+
  have inv: "inner_distinct (cs_devices (hb_commands s))" "inner_distinct (cs_wildcards (hb_commands s))"
    using assms(1) by (auto simp: hub_inv_def)
  show ?thesis
  proof (cases "cf_device (cleanup_filter f)")
    case None
    then show ?thesis
      using add_entry_returns[of _ rnd n, OF inv(2) w, of "(cf_application (cleanup_filter f), cf_gateway (cleanup_filter f))"
          "\<lparr>ct_tx = hb_next s, ct_filter = filter_from te (cf_command_filter f)\<rparr>"]
      by (auto simp: subscribe_def Let_def)
  next
    case (Some dev)
    then show ?thesis
      using add_entry_returns[of _ rnd n, OF inv(1) d, of "\<lparr>ca_app_id = cf_application (cleanup_filter f),
          ca_gateway_id = cf_gateway (cleanup_filter f), ca_device_id = dev\<rparr>"
          "\<lparr>ct_tx = hb_next s, ct_filter = filter_from te (cf_command_filter f)\<rparr>"]
      by (auto simp: subscribe_def Let_def)
  qed
qed

theorem subscribe_returns_witness:
  "\<exists>c h s'. subscribe demo_topics (filter_device ''a'' ''d'') of_nat hub_new = Some ((c, h), s')"
  by (rule subscribe_returns[OF hub_new_inv, of _ 7])
    (simp add: hub_new_def subs_def)

end
