(* ===== verification/Command_Service.thy ===== *)
theory Command_Service
  imports Commands
begin

text \<open>
  Sending a command to a device (\<open>integration-common/src/commands\<close>,
  \<open>command-endpoint/src/v1alpha1\<close>): to the external command endpoint of a gateway, or as
  events for the device and for every gateway it may be reached through.

  Parameters: the registry, the attributes of devices, the HTTP transport, base64, the text
  of a JSON value and URL handling.  Error messages are kept without the text that the
  libraries add to them.
\<close>

section \<open>External command endpoints\<close>

record external_command =
  xe_type :: "string option"
  xe_method :: string
  xe_url :: string
  xe_headers :: "string smap"

record command_options =
  op_application :: string
  op_device :: string
  op_command :: string
  op_content_type :: "string option"

datatype external_command_error = TransportError | UnknownExternalType string | BadConfiguration string | PayloadError string

record command_request =
  cr_method :: string
  cr_url :: string
  cr_headers :: "(string \<times> string) list"
  cr_json :: json

record command_env =
  ce_to_method :: "string \<Rightarrow> string + string option"
  ce_valid_url :: "string \<Rightarrow> bool"
  ce_extend_path :: "string \<Rightarrow> string list \<Rightarrow> string option"
  ce_header_ok :: "string \<Rightarrow> bool"
  ce_header_value_ok :: "string \<Rightarrow> bool"
  ce_base64 :: "string \<Rightarrow> string"
  ce_json_text :: "json \<Rightarrow> string"
  ce_post :: "command_request \<Rightarrow> nat option"
  ce_enabled :: "api_device \<Rightarrow> bool"
  ce_commands :: "api_device \<Rightarrow> external_command list"

fun builder_headers :: "command_env \<Rightarrow> string smap \<Rightarrow> external_command_error + (string \<times> string) list" where
  "builder_headers env [] = Inr []"
| "builder_headers env ((k, v) # hs) =
     (if \<not> ce_header_ok env k then Inl (BadConfiguration (''Invalid HTTP header key: '' @ [CHR 0x27] @ k @ [CHR 0x27]))
      else if \<not> ce_header_value_ok env v then Inl (BadConfiguration (''Invalid HTTP header value: '' @ [CHR 0x27] @ v @ [CHR 0x27]))
      else rbind (builder_headers env hs) (\<lambda>rest. Inr ((k, v) # rest)))"

text \<open>\<open>to_builder\<close>: method, URL and headers; the URL is changed by the given function.\<close>

definition to_builder ::
  "command_env \<Rightarrow> string \<Rightarrow> external_command \<Rightarrow> (string \<Rightarrow> external_command_error + string)
    \<Rightarrow> external_command_error + (string \<times> string \<times> (string \<times> string) list)" where
  "to_builder env default_method endpoint f =
     rbind (case ce_to_method env (xe_method endpoint) of
              Inl e \<Rightarrow> Inl (BadConfiguration e)
            | Inr m \<Rightarrow> Inr (case m of Some m \<Rightarrow> m | None \<Rightarrow> default_method)) (\<lambda>meth.
     rbind (if ce_valid_url env (xe_url endpoint) then Inr (xe_url endpoint)
            else Inl (BadConfiguration ''Unable to parse URL'')) (\<lambda>url.
     rbind (f url) (\<lambda>url.
     rbind (builder_headers env (xe_headers endpoint)) (\<lambda>headers. Inr (meth, url, headers)))))"

definition send_request :: "command_env \<Rightarrow> string \<times> string \<times> (string \<times> string) list \<Rightarrow> json \<Rightarrow> external_command_error + unit" where
  "send_request env req body =
     (case ce_post env \<lparr>cr_method = fst req, cr_url = fst (snd req), cr_headers = snd (snd req), cr_json = body\<rparr> of
        None \<Rightarrow> Inl TransportError
      | Some code \<Rightarrow> if 200 \<le> code \<and> code < 300 then Inr () else Inl TransportError)"

definition strip_prefix :: "string \<Rightarrow> string \<Rightarrow> string option" where
  "strip_prefix pfx s = (if starts_with s pfx then Some (drop (length pfx) s) else None)"

text \<open>\<open>str::parse::<u8>\<close>: an optional plus sign and decimal digits up to 255.\<close>

definition parse_u8 :: "string \<Rightarrow> nat option" where
  "parse_u8 s = Option.bind (str_nat (case s of c # cs \<Rightarrow> if c = CHR ''+'' then cs else s | [] \<Rightarrow> s))
     (\<lambda>n. if n < 256 then Some n else None)"

definition port_error :: "external_command_error" where
  "port_error = PayloadError ''Using 'port:<port>' command, but port was not a valid integer''"

definition send_default ::
  "command_env \<Rightarrow> external_command \<Rightarrow> command_options \<Rightarrow> string \<Rightarrow> external_command_error + unit" where
  "send_default env endpoint opts payload =
     rbind (to_builder env ''POST'' endpoint Inr) (\<lambda>req.
       send_request env req (Object [(''application'', String (op_application opts)), (''device'', String (op_device opts)),
         (''command'', String (op_command opts)), (''payload'', String (ce_base64 env payload))]))"

definition send_ttnv2 ::
  "command_env \<Rightarrow> external_command \<Rightarrow> command_options \<Rightarrow> string \<Rightarrow> external_command_error + unit" where
  "send_ttnv2 env endpoint opts payload =
     rbind (to_builder env ''POST'' endpoint Inr) (\<lambda>req.
     rbind (case strip_prefix ''port:'' (op_command opts) of
              Some port \<Rightarrow> rbind (ok_or port_error (parse_u8 port)) (\<lambda>port.
                Inr (Object [(''dev_id'', String (op_device opts)), (''port'', Number (nat_str port)),
                  (''confirmed'', Bool False), (''payload_raw'', String (ce_base64 env payload))]))
            | None \<Rightarrow> Inr (Object [(''dev_id'', String (op_device opts)), (''port'', Number ''1''),
                  (''confirmed'', Bool False), (''payload_fields'', Object [(''command'', String (op_command opts)),
                     (''command_payload'', String (ce_base64 env payload))])])) (\<lambda>body.
       send_request env req body))"

definition send_ttnv3 ::
  "command_env \<Rightarrow> string \<Rightarrow> external_command \<Rightarrow> command_options \<Rightarrow> string \<Rightarrow> external_command_error + unit" where
  "send_ttnv3 env device_id endpoint opts payload =
     rbind (to_builder env ''POST'' endpoint (\<lambda>url.
              ok_or (PayloadError ''Failed to extend path'') (ce_extend_path env url [device_id, ''down'', ''replace'']))) (\<lambda>req.
     rbind (case strip_prefix ''port:'' (op_command opts) of
              Some port \<Rightarrow> rbind (ok_or port_error (parse_u8 port)) (\<lambda>port. Inr (port, ce_base64 env payload))
            | None \<Rightarrow> Inr (1, ce_base64 env (ce_json_text env (Object [(''command'', String (op_command opts)),
                (''command_payload'', String (ce_base64 env payload))])))) (\<lambda>(port, payload).
       send_request env req (Object [(''downlinks'', Array [Object [(''f_port'', Number (nat_str port)),
         (''frm_payload'', String payload)]])])))"

definition send_to_external ::
  "command_env \<Rightarrow> string \<Rightarrow> external_command \<Rightarrow> command_options \<Rightarrow> string \<Rightarrow> external_command_error + unit" where
  "send_to_external env device_id endpoint opts payload =
     (case xe_type endpoint of
        None \<Rightarrow> send_default env endpoint opts payload
      | Some t \<Rightarrow>
          if t = ''ttn'' \<or> t = ''ttnv2'' then send_ttnv2 env endpoint opts payload
          else if t = ''ttnv3'' then send_ttnv3 env device_id endpoint opts payload
          else Inl (UnknownExternalType t))"

section \<open>Processing a command\<close>

text \<open>
  The loop over the gateways: the first enabled one with an external endpoint ends it, the
  names of the other enabled ones are collected.
\<close>

fun scan_gateways :: "command_env \<Rightarrow> api_device list \<Rightarrow> string list \<Rightarrow> external_command + string list" where
  "scan_gateways env [] targets = Inr targets"
| "scan_gateways env (gateway # gateways) targets =
     (if \<not> ce_enabled env gateway then scan_gateways env gateways targets
      else if ce_commands env gateway \<noteq> [] then Inl (last (ce_commands env gateway))
      else scan_gateways env gateways (targets @ [pd_name gateway]))"

definition command_publish :: "api_application \<Rightarrow> command_options \<Rightarrow> string \<Rightarrow> publish" where
  "command_publish application opts target =
     \<lparr>pb_application = application, pb_device = \<lparr>pi_name = op_device opts, pi_uid = None\<rparr>,
      pb_sender = \<lparr>pi_name = target, pi_uid = None\<rparr>, pb_channel = op_command opts,
      pb_options = default_options\<lparr>po_content_type := op_content_type opts\<rparr>\<rparr>"

fun publish_targets ::
  "sender_env \<Rightarrow> sink \<Rightarrow> (nat \<Rightarrow> string) \<Rightarrow> timestamp \<Rightarrow> api_application \<Rightarrow> command_options \<Rightarrow> string \<Rightarrow> string list
    \<Rightarrow> sender_state \<Rightarrow> nat \<times> sender_state" where
  "publish_targets sn snk ids now application opts body [] s = (202, s)"
| "publish_targets sn snk ids now application opts body (target # targets) s =
     (case publisher_publish sn snk Upstream (ids (length targets)) now (command_publish application opts target) body s of
        (Inr Accepted, s') \<Rightarrow> publish_targets sn snk ids now application opts body targets s'
      | (r, s') \<Rightarrow> (publish_http_status r, s'))"

definition process_command ::
  "command_env \<Rightarrow> sender_env \<Rightarrow> sink \<Rightarrow> (nat \<Rightarrow> string) \<Rightarrow> timestamp \<Rightarrow> api_application \<Rightarrow> api_device \<Rightarrow> api_device list
    \<Rightarrow> command_options \<Rightarrow> string \<Rightarrow> sender_state \<Rightarrow> nat \<times> sender_state" where
  "process_command env sn snk ids now application dev gateways opts body s =
     (if \<not> ce_enabled env dev then (406, s)
      else case scan_gateways env gateways [pd_name dev] of
             Inl endpoint \<Rightarrow>
               (if is_ok (send_to_external env (pd_name dev) endpoint opts body) then 200 else 406, s)
           | Inr targets \<Rightarrow> publish_targets sn snk ids now application opts body targets s)"

text \<open>The handler of the command endpoint; the registry is asked for both, and may fail.\<close>

definition command_endpoint ::
  "command_env \<Rightarrow> sender_env \<Rightarrow> sink \<Rightarrow> (nat \<Rightarrow> string) \<Rightarrow> timestamp
    \<Rightarrow> (string \<Rightarrow> unit + api_application option) \<Rightarrow> (string \<Rightarrow> string \<Rightarrow> unit + (api_device \<times> api_device list) option)
    \<Rightarrow> string \<Rightarrow> string \<Rightarrow> string \<Rightarrow> string option \<Rightarrow> string \<Rightarrow> sender_state \<Rightarrow> nat \<times> sender_state" where
  "command_endpoint env sn snk ids now get_app get_device_and_gateways aname dname cmd content_type body s =
     (case (get_app aname, get_device_and_gateways aname dname) of
        (Inr (Some application), Inr (Some (dev, gateways))) \<Rightarrow>
          process_command env sn snk ids now application dev gateways
            \<lparr>op_application = aname, op_device = dname, op_command = cmd, op_content_type = content_type\<rparr> body s
      | _ \<Rightarrow> (406, s))"


section \<open>From the command service to the device\<close>

lemma scan_gateways_targets:
  "scan_gateways env gateways targets = Inr targets' \<Longrightarrow>
     targets' = targets @ map pd_name (filter (ce_enabled env) gateways)"
  by (induction env gateways targets rule: scan_gateways.induct) (auto split: if_splits)

definition target_command :: "api_application \<Rightarrow> command_options \<Rightarrow> string option \<Rightarrow> string \<Rightarrow> command" where
  "target_command application opts payload target =
     \<lparr>cd_address = \<lparr>ca_app_id = pa_name application, ca_gateway_id = target, ca_device_id = op_device opts\<rparr>,
      cd_command = op_command opts, cd_payload = payload\<rparr>"

lemma command_publish_parses:
  assumes "bytes (snd data) = Some payload"
  shows "command_from_event bytes (publish_event sn new_id now (command_publish application opts target) data) =
     Inr (target_command application opts (Some payload) target)"
proof -
  let ?p = "command_publish application opts target"
  have "map_of (publish_extensions sn ?p) k = Some (EVString v)" if "(k, v) \<in> set (id_extensions sn ?p)" for k v
    by (rule publish_extensions_id[OF that]) (simp add: command_publish_def default_options_def)
  then have "map_of (publish_extensions sn ?p) EXT_SENDER = Some (EVString target)"
    "map_of (publish_extensions sn ?p) EXT_APPLICATION = Some (EVString (pa_name application))"
    "map_of (publish_extensions sn ?p) EXT_DEVICE = Some (EVString (op_device opts))"
    by (simp_all add: id_extensions_def command_publish_def)
  then show ?thesis
    using assms by (simp add: command_from_event_def address_from_event_def publish_event_def Let_def target_command_def)
      (simp add: command_publish_def)
qed

lemma publish_targets_delivers:
  assumes "publish_targets sn snk ids now application opts body targets s = (202, s')"
    and "processor_rules sn Upstream application = Inr []"
    and "\<And>data. publish_data sn (op_content_type opts) body = Some data \<Longrightarrow> bytes (snd data) = Some payload"
  shows "\<exists>events. ss_log s' = ss_log s @ events
     \<and> map (\<lambda>r. command_from_event bytes (snd (snd r))) events = map (Inr \<circ> target_command application opts (Some payload)) targets"
  using assms(1)
proof (induction targets arbitrary: s)
  case (Cons target targets)
  let ?p = "command_publish application opts target"
  have app: "pb_application ?p = application" and ct: "po_content_type (pb_options ?p) = op_content_type opts"
    by (simp_all add: command_publish_def)
  obtain r s1 where p: "publisher_publish sn snk Upstream (ids (length targets)) now ?p body s = (r, s1)" by fastforce
  have r: "r = Inr Accepted" and rest: "publish_targets sn snk ids now application opts body targets s1 = (202, s')"
    using Cons.prems p by (auto split: sum.splits publish_outcome.splits)
  obtain data where d: "publish_data sn (op_content_type opts) body = Some data"
    "ss_log s1 = ss_log s @ [(sink_topic sn snk Upstream application,
       sink_key (publish_event sn (ids (length targets)) now ?p data), publish_event sn (ids (length targets)) now ?p data)]"
    using p by (cases rule: publish_cases) (auto simp: r app ct assms(2))
  obtain events where e: "ss_log s' = ss_log s1 @ events"
    "map (\<lambda>r. command_from_event bytes (snd (snd r))) events = map (Inr \<circ> target_command application opts (Some payload)) targets"
    using Cons.IH[OF rest] by blast
  show ?case
    by (rule exI[of _ "(sink_topic sn snk Upstream application, sink_key (publish_event sn (ids (length targets)) now ?p data),
         publish_event sn (ids (length targets)) now ?p data) # events"])
      (simp add: d e command_publish_parses[where bytes = bytes, OF assms(3)[OF d(1)]])
qed simp

lemma command_source_sends:
  assumes "map (\<lambda>e. command_from_event bytes e) events = map Inr cmds"
  shows "run_commands te (map OpSend cmds) s = Some (command_source te bytes (map Inr events) s)"
  using assms
proof (induction events arbitrary: cmds s)
  case (Cons e events)
  then show ?case by (cases cmds) auto
qed simp

lemma sent_commands_OpSend [simp]: "sent_commands (map OpSend cmds) = cmds"
  by (induction cmds) auto

text \<open>
  C22. A command that is accepted reaches every subscription it is meant for: if no gateway of
  the device has an external command endpoint and the application has no rules for commands,
  then the sink holds one event for the device and one for each enabled gateway, and an
  endpoint that reads these events queues for each of its subscriptions, in this order, the
  commands its filter wants.
\<close>

theorem command_reaches_subscriptions:
  assumes "process_command env sn snk ids now application dev gateways opts body s = (202, s')"
    and "processor_rules sn Upstream application = Inr []"
    and "\<And>data. publish_data sn (op_content_type opts) body = Some data \<Longrightarrow> bytes (snd data) = Some payload"
    and "hub_inv h0" and "subscribe te f rnd h0 = Some ((tx, handle), h)" and "tx \<notin> set (hb_closed h0)"
  shows "\<exists>events. ss_log s' = ss_log s @ events
     \<and> hb_queue (command_source te bytes (map (\<lambda>r. Inr (snd (snd r))) events) h) tx =
         filter (wants te f) (map (target_command application opts (Some payload))
           (pd_name dev # map pd_name (filter (ce_enabled env) gateways)))"
proof -
  let ?ts = "pd_name dev # map pd_name (filter (ce_enabled env) gateways)"
  let ?cmds = "map (target_command application opts (Some payload)) ?ts"
  let ?t = "\<lparr>ct_tx = tx, ct_filter = filter_from te (cf_command_filter f)\<rparr>"
  obtain targets where t: "scan_gateways env gateways [pd_name dev] = Inr targets"
    and pub: "publish_targets sn snk ids now application opts body targets s = (202, s')"
    using assms(1) by (auto simp: process_command_def split: if_splits sum.splits)
  have ts: "targets = ?ts" using scan_gateways_targets[OF t] by simp
  obtain events where e: "ss_log s' = ss_log s @ events"
    "map (\<lambda>r. command_from_event bytes (snd (snd r))) events = map Inr ?cmds"
    using publish_targets_delivers[where bytes = bytes, OF pub assms(2,3)] unfolding ts by auto
  note sub = subscribe_subs[OF assms(5)]
  have inv: "hub_inv h" by (rule subscribe_inv[OF assms(4,5)])
  have "hb_queue h tx = []" using assms(4) by (simp add: sub(1,3) hub_inv_def)
  moreover have run: "run_commands te (map OpSend ?cmds) h = Some (command_source te bytes (map Inr (map (snd \<circ> snd) events)) h)"
    using e(2) by (intro command_source_sends) (simp add: comp_def)
  have "(filter_key (cleanup_filter f), sh_id handle, ?t) \<in> subs (hb_commands h)" by (simp add: sub(7))
  from run_live[OF inv this run] assms(6)
  have "hb_queue (command_source te bytes (map Inr (map (snd \<circ> snd) events)) h) tx = hb_queue h tx @ filter (wants te f) ?cmds"
    unfolding sent_commands_OpSend wants_key by (simp add: sub(4) image_iff del: list.map map_map)
  ultimately have "hb_queue (command_source te bytes (map Inr (map (snd \<circ> snd) events)) h) tx = filter (wants te f) ?cmds"
    by simp
  then show ?thesis using e(1) by (auto simp: comp_def)
qed

definition demo_command_env :: command_env where
  "demo_command_env = \<lparr>ce_to_method = (\<lambda>_. Inr None), ce_valid_url = (\<lambda>_. True), ce_extend_path = (\<lambda>_ _. None),
     ce_header_ok = (\<lambda>_. True), ce_header_value_ok = (\<lambda>_. True), ce_base64 = (\<lambda>s. s), ce_json_text = (\<lambda>_. []),
     ce_post = (\<lambda>_. None), ce_enabled = (\<lambda>d. pd_name d \<noteq> ''off''), ce_commands = (\<lambda>_. [])\<rparr>"

definition demo_options :: command_options where
  "demo_options = \<lparr>op_application = ''a'', op_device = ''d'', op_command = ''on'', op_content_type = None\<rparr>"

definition demo_bytes :: "ce_data \<Rightarrow> string option" where
  "demo_bytes d = (case d of DBinary b \<Rightarrow> Some b | _ \<Rightarrow> None)"

theorem command_reaches_subscriptions_witness:
  "\<exists>c h s1 events. subscribe demo_topics (filter_wildcard ''a'' ''g'') (\<lambda>_. 0) hub_new = Some ((c, h), s1)
     \<and> ss_log (snd (process_command demo_command_env demo_sender (KafkaSink False) (\<lambda>_. ''1'') 0
          (pb_application (demo_publish ''d'')) (demo_device ''d'') [demo_device ''off'', demo_device ''g''] demo_options ''x''
          demo_sender_state)) = events
     \<and> hb_queue (command_source demo_topics demo_bytes (map (\<lambda>r. Inr (snd (snd r))) events) s1) c =
         [(demo_command ''g'' ''d'' ''on'')\<lparr>cd_payload := Some ''x''\<rparr>]"
proof -
  let ?p = "process_command demo_command_env demo_sender (KafkaSink False) (\<lambda>_. ''1'') 0 (pb_application (demo_publish ''d''))
      (demo_device ''d'') [demo_device ''off'', demo_device ''g''] demo_options ''x'' demo_sender_state"
  have "fst ?p = 202"
    by (simp add: process_command_def demo_command_env_def demo_device_def demo_options_def command_publish_def
        demo_publish_defs Let_def)
  then have p: "?p = (202, snd ?p)" by (simp add: prod_eq_iff)
  have pick: "pick_id (\<lambda>_. 0) 0 [] = Some 0" by (simp add: pick_id.simps)
  obtain c h s1 where s1: "subscribe demo_topics (filter_wildcard ''a'' ''g'') (\<lambda>_. 0) hub_new = Some ((c, h), s1)"
    by (simp add: subscribe_def Let_def filter_wildcard_def cleanup_filter_def hub_new_def add_entry_def inner_def pick)
  have "\<exists>events. ss_log (snd ?p) = ss_log demo_sender_state @ events
     \<and> hb_queue (command_source demo_topics demo_bytes (map (\<lambda>r. Inr (snd (snd r))) events) s1) c =
         filter (wants demo_topics (filter_wildcard ''a'' ''g''))
           (map (target_command (pb_application (demo_publish ''d'')) demo_options (Some ''x''))
             (pd_name (demo_device ''d'') # map pd_name (filter (ce_enabled demo_command_env)
                [demo_device ''off'', demo_device ''g''])))"
    by (rule command_reaches_subscriptions[OF p _ _ hub_new_inv s1])
      (auto simp: processor_rules_def demo_sender_def publish_data_def demo_options_def demo_bytes_def hub_new_def)
  then show ?thesis
    using s1 by (simp add: demo_sender_state_def wants_def filter_wildcard_def target_command_def demo_publish_def
        demo_options_def demo_device_def demo_command_env_def filter_from_def demo_command_def)
qed

end
