(* ===== verification/Work_Queue.thy ===== *)
theory Work_Queue
  imports Drogue_Prelude
begin

text \<open>
  The work queue of the operators (\<open>operator-common/src/controller/base/queue.rs\<close>): a table
  of keys that are due at some time, a writer that adds keys and a reader that takes the
  earliest due key, handles it and acknowledges it.

  Two clocks: the writer computes the due time from its own clock, the database compares with
  its \<open>now()\<close>; nothing is assumed about their difference.  A failing database is the error
  of \<open>wq_insert\<close> and a skipped acknowledgement.
\<close>

section \<open>Keys\<close>

definition pair_to_string :: "string \<times> string \<Rightarrow> string" where
  "pair_to_string k = fst k @ ''/'' @ snd k"

definition pair_from_string :: "string \<Rightarrow> string + string \<times> string" where
  "pair_from_string s = (case split_on (CHR ''/'') s of [a, b] \<Rightarrow> Inr (a, b) | _ \<Rightarrow> Inl ''missing slash?'')"

definition name_from_string :: "string \<Rightarrow> string + string" where
  "name_from_string s = Inr s"

section \<open>The table\<close>

record wq_row =
  wq_INSTANCE :: string
  wq_TYPE :: string
  wq_KEY :: string
  wq_TS :: timestamp
  wq_REV :: int

definition wq_pk :: "wq_row \<Rightarrow> string \<times> string \<times> string" where
  "wq_pk r = (wq_INSTANCE r, wq_TYPE r, wq_KEY r)"

record queue_id =
  qi_instance :: string
  qi_type :: string

record 'k queue_entry =
  qe_key :: 'k
  qe_timestamp :: timestamp
  qe_rev :: u64

text \<open>
  The statement of \<open>insert\<close>: the delay of an entry is shortened, or moved if it is in the
  past, and its revision is incremented.  Values that do not fit their columns are errors.
\<close>

definition wq_insert ::
  "queue_id \<Rightarrow> string \<Rightarrow> timestamp \<Rightarrow> timestamp \<Rightarrow> wq_row list \<Rightarrow> unit + wq_row list" where
  "wq_insert q key ts now rows =
     (let k = (qi_instance q, qi_type q, key) in
      if length (qi_instance q) > 32 \<or> length (qi_type q) > 32 \<or> length key > 512 then Inl ()
      else (case filter (\<lambda>r. wq_pk r = k) rows of
              [] \<Rightarrow> Inr (rows @ [\<lparr>wq_INSTANCE = qi_instance q, wq_TYPE = qi_type q, wq_KEY = key, wq_TS = ts, wq_REV = 0\<rparr>])
            | r # _ \<Rightarrow>
                if wq_TS r > ts \<or> wq_TS r < now
                then if wq_REV r + 1 < 2 ^ 63
                     then Inr (update_where (\<lambda>r. wq_pk r = k) (\<lambda>r. r\<lparr>wq_TS := ts, wq_REV := wq_REV r + 1\<rparr>) rows)
                     else Inl ()
                else Inr rows))"

definition do_ack :: "queue_id \<Rightarrow> string \<Rightarrow> timestamp \<Rightarrow> u64 \<Rightarrow> wq_row list \<Rightarrow> wq_row list" where
  "do_ack q key ts rv rows =
     delete_where (\<lambda>r. wq_INSTANCE r = qi_instance q \<and> wq_TYPE r = qi_type q \<and> wq_KEY r = key
       \<and> wq_TS r \<le> ts \<and> wq_REV r = sint rv) rows"

definition wq_due :: "queue_id \<Rightarrow> timestamp \<Rightarrow> wq_row list \<Rightarrow> wq_row list" where
  "wq_due q now rows = sort_key wq_TS
     (filter (\<lambda>r. wq_INSTANCE r = qi_instance q \<and> wq_TYPE r = qi_type q \<and> wq_TS r < now) rows)"

text \<open>The revisions of a table fit into its column.\<close>

abbreviation rev_ok :: "wq_row \<Rightarrow> bool" where
  "rev_ok r \<equiv> 0 \<le> wq_REV r \<and> wq_REV r < 2 ^ 63"

lemma sint_rev: "rev_ok r \<Longrightarrow> sint (word_of_int (wq_REV r) :: u64) = wq_REV r"
  by (simp add: sint_sbintrunc' signed_take_bit_int_eq_self)

lemma set_wq_due:
  "r \<in> set (wq_due q now rows) \<longleftrightarrow> r \<in> set rows \<and> wq_INSTANCE r = qi_instance q \<and> wq_TYPE r = qi_type q \<and> wq_TS r < now"
  by (simp add: wq_due_def)

text \<open>
  The loop of \<open>fetch\<close>: a key that cannot be read is acknowledged and the next one is taken.
  The table must not hold a revision outside of its column, otherwise the loop would see
  the same row for ever; \<open>None\<close> stands for that.
\<close>

partial_function (option) fetch ::
  "(string \<Rightarrow> string + 'k) \<Rightarrow> queue_id \<Rightarrow> timestamp \<Rightarrow> wq_row list \<Rightarrow> ('k queue_entry option \<times> wq_row list) option" where
  "fetch parse q now rows =
     (case wq_due q now rows of
        [] \<Rightarrow> Some (None, rows)
      | r # _ \<Rightarrow>
          (case parse (wq_KEY r) of
             Inr k \<Rightarrow> Some (Some \<lparr>qe_key = k, qe_timestamp = wq_TS r, qe_rev = word_of_int (wq_REV r)\<rparr>, rows)
           | Inl _ \<Rightarrow> fetch parse q now (do_ack q (wq_KEY r) (wq_TS r) (word_of_int (wq_REV r)) rows)))"

declare fetch.simps [code]

section \<open>Writer and reader\<close>

definition writer_add ::
  "('k \<Rightarrow> string) \<Rightarrow> queue_id \<Rightarrow> 'k \<Rightarrow> int \<Rightarrow> timestamp \<Rightarrow> timestamp \<Rightarrow> wq_row list \<Rightarrow> unit + wq_row list" where
  "writer_add to_string q key after client_now now rows =
     wq_insert q (to_string key) (client_now + after) now rows"

definition reader_ack :: "('k \<Rightarrow> string) \<Rightarrow> queue_id \<Rightarrow> 'k queue_entry \<Rightarrow> wq_row list \<Rightarrow> wq_row list" where
  "reader_ack to_string q entry rows = do_ack q (to_string (qe_key entry)) (qe_timestamp entry) (qe_rev entry) rows"

text \<open>What the reader does after the handler returned; the writer may fail.\<close>

definition reader_finish ::
  "('k \<Rightarrow> string) \<Rightarrow> queue_id \<Rightarrow> 'k queue_entry \<Rightarrow> unit + ('k \<times> int) option \<Rightarrow> timestamp \<Rightarrow> timestamp
    \<Rightarrow> wq_row list \<Rightarrow> wq_row list" where
  "reader_finish to_string q entry result client_now now rows =
     (case result of
        Inr (Some (rt, after)) \<Rightarrow>
          (case writer_add to_string q rt after client_now now rows of
             Inr rows' \<Rightarrow> reader_ack to_string q entry rows'
           | Inl _ \<Rightarrow> rows)
      | Inr None \<Rightarrow> reader_ack to_string q entry rows
      | Inl _ \<Rightarrow> rows)"


section \<open>Fetching\<close>

definition is_due :: "queue_id \<Rightarrow> timestamp \<Rightarrow> wq_row \<Rightarrow> bool" where
  "is_due q now r \<longleftrightarrow> wq_INSTANCE r = qi_instance q \<and> wq_TYPE r = qi_type q \<and> wq_TS r < now"

lemma wq_due_Cons:
  assumes "wq_due q now rows = r # rs"
  shows "r \<in> set rows" "is_due q now r" "\<And>r'. r' \<in> set rows \<Longrightarrow> is_due q now r' \<Longrightarrow> wq_TS r \<le> wq_TS r'"
proof -
  have "r \<in> set (wq_due q now rows)" using assms by simp
  then show "r \<in> set rows" "is_due q now r" by (simp_all add: set_wq_due is_due_def)
  have "sorted (map wq_TS (wq_due q now rows))" by (simp add: wq_due_def)
  then show "wq_TS r \<le> wq_TS r'" if "r' \<in> set rows" "is_due q now r'" for r'
    using that set_wq_due[of r' q now rows] by (auto simp: assms is_due_def)
qed

lemma wq_due_Nil: "wq_due q now rows = [] \<Longrightarrow> r \<in> set rows \<Longrightarrow> \<not> is_due q now r"
  using set_wq_due[of r q now rows] by (simp add: is_due_def)

text \<open>
  What a fetch returns: the earliest due row, after the due rows with unreadable keys before
  it were removed.
\<close>

definition fetched ::
  "(string \<Rightarrow> string + 'k) \<Rightarrow> queue_id \<Rightarrow> timestamp \<Rightarrow> wq_row list \<Rightarrow> 'k queue_entry option \<times> wq_row list \<Rightarrow> bool" where
  "fetched parse q now rows res \<longleftrightarrow>
     (\<exists>P. snd res = filter P rows \<and> (\<forall>r \<in> set rows. \<not> P r \<longrightarrow> \<not> is_ok (parse (wq_KEY r))))
     \<and> (case fst res of
          None \<Rightarrow> \<forall>r \<in> set (snd res). \<not> is_due q now r
        | Some e \<Rightarrow> \<exists>r \<in> set (snd res). is_due q now r \<and> parse (wq_KEY r) = Inr (qe_key e) \<and> qe_timestamp e = wq_TS r
            \<and> sint (qe_rev e) = wq_REV r \<and> (\<forall>r' \<in> set (snd res). is_due q now r' \<longrightarrow> wq_TS r \<le> wq_TS r'))"

lemma fetch_returns:
  assumes "\<forall>r \<in> set rows. rev_ok r"
  shows "\<exists>res. fetch parse q now rows = Some res \<and> fetched parse q now rows res"
  using assms
proof (induction "length rows" arbitrary: rows rule: less_induct)
  case less
  show ?case
  proof (cases "wq_due q now rows")
    case Nil
    then show ?thesis
      using wq_due_Nil[OF Nil] by (subst fetch.simps) (auto simp: fetched_def intro!: exI[of _ "\<lambda>_. True"])
  next
    case (Cons r rs)
    note due = wq_due_Cons[OF Cons]
    have r: "sint (word_of_int (wq_REV r) :: u64) = wq_REV r" using due(1) less.prems sint_rev by blast
    show ?thesis
    proof (cases "parse (wq_KEY r)")
      case (Inr k)
      have "fetched parse q now rows (Some \<lparr>qe_key = k, qe_timestamp = wq_TS r, qe_rev = word_of_int (wq_REV r)\<rparr>, rows)"
        unfolding fetched_def using due r Inr by (auto intro!: exI[of _ "\<lambda>_. True"] bexI[of _ r])
      then show ?thesis by (subst fetch.simps) (simp add: Cons Inr)
    next
      case (Inl e)
      let ?P = "\<lambda>x. \<not> (wq_INSTANCE x = qi_instance q \<and> wq_TYPE x = qi_type q \<and> wq_KEY x = wq_KEY r
         \<and> wq_TS x \<le> wq_TS r \<and> wq_REV x = sint (word_of_int (wq_REV r) :: u64))"
      have rows1: "do_ack q (wq_KEY r) (wq_TS r) (word_of_int (wq_REV r)) rows = filter ?P rows"
        by (simp add: do_ack_def delete_where_def)
      have "length (filter ?P rows) < length rows"
        using due(1,2) r by (intro length_filter_less[of r]) (auto simp: is_due_def)
      then obtain res where res: "fetch parse q now (filter ?P rows) = Some res" "fetched parse q now (filter ?P rows) res"
        using less.hyps[of "filter ?P rows"] less.prems by auto
      then obtain Q where Q: "snd res = filter Q (filter ?P rows)" "\<forall>x \<in> set (filter ?P rows). \<not> Q x \<longrightarrow> \<not> is_ok (parse (wq_KEY x))"
        unfolding fetched_def by blast
      have "snd res = filter (\<lambda>x. ?P x \<and> Q x) rows" using Q(1) by (simp add: filter_filter conj_commute)
      moreover have "\<forall>x \<in> set rows. \<not> (?P x \<and> Q x) \<longrightarrow> \<not> is_ok (parse (wq_KEY x))"
        using Q(2) Inl by auto
      ultimately have "fetched parse q now rows res" using res(2) unfolding fetched_def by blast
      then show ?thesis using res(1) by (subst fetch.simps) (simp add: Cons Inl rows1)
    qed
  qed
qed

section \<open>The queue and its reader\<close>

record 'k wq_sys =
  ws_rows :: "wq_row list"
  ws_now :: timestamp
  ws_flight :: "'k queue_entry option"

datatype wq_label = Tick | SetBack | Added string | Fetched string | Idle | Acked | Skipped

text \<open>
  Any number of writers and one reader.  A handler that asks for another round is an \<open>Added\<close>
  followed by \<open>Acked\<close>; other writers may come in between.  The clocks of the writers are
  arbitrary.  The clock of the database, \<open>now()\<close> of the queries, usually runs forward (\<open>Tick\<close>),
  but it may also be set back (\<open>SetBack\<close>).
\<close>

inductive wq_step ::
  "(string \<Rightarrow> string + 'k) \<Rightarrow> ('k \<Rightarrow> string) \<Rightarrow> queue_id \<Rightarrow> wq_label \<Rightarrow> 'k wq_sys \<Rightarrow> 'k wq_sys \<Rightarrow> bool"
  for parse to_string q where
  tick: "ws_now s \<le> now' \<Longrightarrow> wq_step parse to_string q Tick s (s\<lparr>ws_now := now'\<rparr>)"
| set_back: "now' < ws_now s \<Longrightarrow> wq_step parse to_string q SetBack s (s\<lparr>ws_now := now'\<rparr>)"
| add: "writer_add to_string q k after client_now (ws_now s) (ws_rows s) = Inr rows \<Longrightarrow>
    wq_step parse to_string q (Added (to_string k)) s (s\<lparr>ws_rows := rows\<rparr>)"
| fetch: "ws_flight s = None \<Longrightarrow> fetch parse q (ws_now s) (ws_rows s) = Some (Some e, rows) \<Longrightarrow>
    wq_step parse to_string q (Fetched (to_string (qe_key e))) s (s\<lparr>ws_rows := rows, ws_flight := Some e\<rparr>)"
| idle: "ws_flight s = None \<Longrightarrow> fetch parse q (ws_now s) (ws_rows s) = Some (None, rows) \<Longrightarrow>
    wq_step parse to_string q Idle s (s\<lparr>ws_rows := rows\<rparr>)"
| ack: "ws_flight s = Some e \<Longrightarrow>
    wq_step parse to_string q Acked s (s\<lparr>ws_rows := reader_ack to_string q e (ws_rows s), ws_flight := None\<rparr>)"
| skip: "ws_flight s = Some e \<Longrightarrow> wq_step parse to_string q Skipped s (s\<lparr>ws_flight := None\<rparr>)"

inductive wq_run ::
  "(string \<Rightarrow> string + 'k) \<Rightarrow> ('k \<Rightarrow> string) \<Rightarrow> queue_id \<Rightarrow> wq_label list \<Rightarrow> 'k wq_sys \<Rightarrow> 'k wq_sys \<Rightarrow> bool"
  for parse to_string q where
  finish: "wq_run parse to_string q [] s s"
| step: "wq_step parse to_string q l s s1 \<Longrightarrow> wq_run parse to_string q ls s1 s2 \<Longrightarrow> wq_run parse to_string q (l # ls) s s2"


inductive_cases wq_addE: "wq_step parse to_string q (Added k) s s'"
inductive_cases wq_runE: "wq_run parse to_string q ls s s'"

definition wq_key :: "queue_id \<Rightarrow> string \<Rightarrow> string \<times> string \<times> string" where
  "wq_key q k = (qi_instance q, qi_type q, k)"

text \<open>A row that an acknowledgement of the entry does not remove.\<close>

definition outlives :: "wq_row \<Rightarrow> 'k queue_entry \<Rightarrow> bool" where
  "outlives r e \<longleftrightarrow> qe_timestamp e < wq_TS r \<or> sint (qe_rev e) < wq_REV r"

definition wq_inv :: "('k \<Rightarrow> string) \<Rightarrow> queue_id \<Rightarrow> 'k wq_sys \<Rightarrow> bool" where
  "wq_inv to_string q s \<longleftrightarrow> pk wq_pk (ws_rows s) \<and> (\<forall>r \<in> set (ws_rows s). rev_ok r)
     \<and> (\<forall>e. ws_flight s = Some e \<longrightarrow> qe_timestamp e < ws_now s
          \<and> (\<exists>r \<in> set (ws_rows s). wq_pk r = wq_key q (to_string (qe_key e)) \<and> sint (qe_rev e) \<le> wq_REV r))"

definition wq_ok :: "'k wq_sys \<Rightarrow> bool" where
  "wq_ok s \<longleftrightarrow> pk wq_pk (ws_rows s) \<and> (\<forall>r \<in> set (ws_rows s). rev_ok r)"

lemma wq_inv_ok: "wq_inv to_string q s \<Longrightarrow> wq_ok s"
  by (simp add: wq_inv_def wq_ok_def)

definition kept :: "('k \<Rightarrow> string) \<Rightarrow> queue_id \<Rightarrow> string \<Rightarrow> 'k wq_sys \<Rightarrow> bool" where
  "kept to_string q k s \<longleftrightarrow> (\<exists>r \<in> set (ws_rows s). wq_pk r = wq_key q k
     \<and> (\<forall>e. ws_flight s = Some e \<longrightarrow> to_string (qe_key e) = k \<longrightarrow> outlives r e))"

lemma pk_same: "pk key rows \<Longrightarrow> r \<in> set rows \<Longrightarrow> r' \<in> set rows \<Longrightarrow> key r = key r' \<Longrightarrow> r = r'"
  by (auto simp: distinct_map dest: inj_onD)

lemma wq_insert_cases:
  assumes "wq_insert q k ts now rows = Inr rows'" and "pk wq_pk rows"
  obtains (new) "wq_key q k \<notin> wq_pk ` set rows"
      "rows' = rows @ [\<lparr>wq_INSTANCE = qi_instance q, wq_TYPE = qi_type q, wq_KEY = k, wq_TS = ts, wq_REV = 0\<rparr>]"
  | (moved) r where "r \<in> set rows" "wq_pk r = wq_key q k" "wq_REV r + 1 < 2 ^ 63"
      "rows' = update_where (\<lambda>r. wq_pk r = wq_key q k) (\<lambda>r. r\<lparr>wq_TS := ts, wq_REV := wq_REV r + 1\<rparr>) rows"
  | (same) r where "r \<in> set rows" "wq_pk r = wq_key q k" "now \<le> wq_TS r" "rows' = rows"
proof (cases "filter (\<lambda>r. wq_pk r = wq_key q k) rows")
  case Nil
  then show ?thesis
    using assms(1) by (intro new) (auto simp: wq_insert_def Let_def wq_key_def filter_empty_conv split: if_splits)
next
  case (Cons r rs)
  then have "r \<in> set (filter (\<lambda>r. wq_pk r = wq_key q k) rows)" by simp
  then have r: "r \<in> set rows" "wq_pk r = wq_key q k" by auto
  then show ?thesis
    using assms(1) Cons moved[OF r] same[OF r] by (auto simp: wq_insert_def Let_def wq_key_def split: if_splits)
qed

lemma wq_pk_touch [simp]: "wq_pk (r\<lparr>wq_TS := ts, wq_REV := n\<rparr>) = wq_pk r"
  by (simp add: wq_pk_def)

lemma wq_insert_ok:
  assumes "wq_insert q k ts now rows = Inr rows'" and "pk wq_pk rows" and "\<forall>r \<in> set rows. rev_ok r"
  shows "pk wq_pk rows' \<and> (\<forall>r \<in> set rows'. rev_ok r)"
  using assms(1,2)
proof (cases rule: wq_insert_cases)
  case new
  then show ?thesis using assms(2,3) by (simp add: wq_pk_def wq_key_def)
next
  case (moved r)
  have "wq_REV x + 1 < 2 ^ 63" if "x \<in> set rows" "wq_pk x = wq_key q k" for x
    using pk_same[OF assms(2) that(1) moved(1)] that(2) moved(2,3) by simp
  moreover have "pk wq_pk rows'" unfolding moved(4) by (rule pk_update_where[OF assms(2)]) simp
  ultimately show ?thesis using assms(3) by (auto simp: moved(4) set_update_where)
qed (use assms in simp)

lemma wq_insert_mono:
  assumes "wq_insert q k ts now rows = Inr rows'" and "pk wq_pk rows" and "r \<in> set rows"
  shows "\<exists>r' \<in> set rows'. wq_pk r' = wq_pk r \<and> wq_REV r \<le> wq_REV r' \<and> (wq_pk r \<noteq> wq_key q k \<longrightarrow> r' = r)"
  using assms(1,2)
proof (cases rule: wq_insert_cases)
  case (moved r0)
  show ?thesis
  proof (cases "wq_pk r = wq_key q k")
    case True
    then have "r\<lparr>wq_TS := ts, wq_REV := wq_REV r + 1\<rparr> \<in> set rows'" using assms(3) by (auto simp: moved(4) set_update_where)
    then show ?thesis using True by (intro bexI) simp_all
  qed (use assms(3) in \<open>auto simp: moved(4) set_update_where\<close>)
qed (use assms(3) in auto)

lemma wq_insert_outlives:
  assumes "wq_insert q k ts now rows = Inr rows'" and "pk wq_pk rows"
  shows "\<exists>r' \<in> set rows'. wq_pk r' = wq_key q k \<and> (\<forall>e. (\<exists>r \<in> set rows. wq_pk r = wq_key q k \<and> sint (qe_rev e) \<le> wq_REV r)
       \<longrightarrow> qe_timestamp e < now \<longrightarrow> outlives r' e)"
  using assms
proof (cases rule: wq_insert_cases)
  case new
  then have "\<nexists>r. r \<in> set rows \<and> wq_pk r = wq_key q k" by (metis imageI)
  then show ?thesis using new(2) by (auto simp: wq_pk_def wq_key_def)
next
  case (moved r0)
  let ?r = "r0\<lparr>wq_TS := ts, wq_REV := wq_REV r0 + 1\<rparr>"
  have "?r \<in> set rows'" using moved(1,2) by (auto simp: moved(4) set_update_where)
  moreover have "r = r0" if "r \<in> set rows" "wq_pk r = wq_key q k" for r
    using pk_same[OF assms(2) that(1) moved(1)] that(2) moved(2) by simp
  ultimately show ?thesis using moved(2) by (intro bexI[of _ ?r]) (auto simp: outlives_def)
next
  case (same r0)
  then show ?thesis by (intro bexI[of _ r0]) (auto simp: outlives_def)
qed

lemma do_ack_outlives:
  "r \<in> set rows \<Longrightarrow> wq_pk r = wq_key q k \<longrightarrow> outlives r e \<Longrightarrow> r \<in> set (do_ack q k (qe_timestamp e) (qe_rev e) rows)"
  by (auto simp: do_ack_def set_delete_where wq_pk_def wq_key_def outlives_def)

text \<open>What the queue needs of its keys: a key that was read is written in the same way.\<close>

locale work_key =
  fixes parse :: "string \<Rightarrow> string + 'k" and to_string :: "'k \<Rightarrow> string"
  assumes reads: "parse s = Inr k \<Longrightarrow> to_string k = s"
begin

lemma fetch_some:
  assumes "fetch parse q now rows = Some (x, rows')" and "\<forall>r \<in> set rows. rev_ok r"
  shows "\<exists>P. rows' = filter P rows \<and> (\<forall>r \<in> set rows. \<not> P r \<longrightarrow> \<not> is_ok (parse (wq_KEY r)))"
    "x = Some e \<Longrightarrow> qe_timestamp e < now \<and> (\<exists>r \<in> set rows'. wq_pk r = wq_key q (to_string (qe_key e)) \<and> wq_REV r = sint (qe_rev e))"
proof -
  have f: "fetched parse q now rows (x, rows')" using fetch_returns[OF assms(2), of parse q now] by (auto simp: assms(1))
  then show "\<exists>P. rows' = filter P rows \<and> (\<forall>r \<in> set rows. \<not> P r \<longrightarrow> \<not> is_ok (parse (wq_KEY r)))"
    unfolding fetched_def by simp
  assume "x = Some e"
  then obtain r where "r \<in> set rows'" "is_due q now r" "parse (wq_KEY r) = Inr (qe_key e)" "qe_timestamp e = wq_TS r" "sint (qe_rev e) = wq_REV r"
    using f unfolding fetched_def by auto
  then show "qe_timestamp e < now \<and> (\<exists>r \<in> set rows'. wq_pk r = wq_key q (to_string (qe_key e)) \<and> wq_REV r = sint (qe_rev e))"
    using reads[of "wq_KEY r"] by (intro conjI bexI[of _ r]) (simp_all add: is_due_def wq_pk_def wq_key_def)
qed

text \<open>The table stays in order whatever happens; the rest needs a clock that is not set back.\<close>

lemma step_ok:
  assumes "wq_step parse to_string q l s s'" and "wq_ok s"
  shows "wq_ok s'"
  using assms
proof (induction rule: wq_step.induct)
  case (add k after client_now s rows)
  then show ?case using wq_insert_ok[of q "to_string k" "client_now + after" "ws_now s" "ws_rows s" rows]
    by (simp add: writer_add_def wq_ok_def)
next
  case (fetch s e rows)
  then show ?case using fetch_some(1)[OF fetch(2)] by (auto simp: wq_ok_def distinct_map_filter)
next
  case (idle s rows)
  then show ?case using fetch_some(1)[OF idle(2)] by (auto simp: wq_ok_def distinct_map_filter)
next
  case (ack s e)
  then show ?case by (auto simp: wq_ok_def reader_ack_def do_ack_def pk_delete_where set_delete_where)
qed (auto simp: wq_ok_def)

lemma step_inv:
  assumes "wq_step parse to_string q l s s'" and "wq_inv to_string q s" and "l \<noteq> SetBack"
  shows "wq_inv to_string q s'"
  using assms
proof (induction rule: wq_step.induct)
  case (add k after client_now s rows)
  then have ins: "wq_insert q (to_string k) (client_now + after) (ws_now s) (ws_rows s) = Inr rows" by (simp add: writer_add_def)
  have pk: "pk wq_pk (ws_rows s)" using add.prems by (simp add: wq_inv_def)
  have "\<exists>r' \<in> set rows. wq_pk r' = wq_key q (to_string (qe_key e)) \<and> sint (qe_rev e) \<le> wq_REV r'" if "ws_flight s = Some e" for e
    using add.prems that wq_insert_mono[OF ins pk] by (fastforce simp: wq_inv_def)
  then show ?case using add.prems wq_insert_ok[OF ins pk] by (auto simp: wq_inv_def)
next
  case (fetch s e rows)
  then show ?case using fetch_some[OF fetch(2)] by (auto simp: wq_inv_def distinct_map_filter)
next
  case (idle s rows)
  then show ?case using fetch_some(1)[OF idle(2)] by (auto simp: wq_inv_def distinct_map_filter)
next
  case (ack s e)
  then show ?case by (auto simp: wq_inv_def reader_ack_def do_ack_def pk_delete_where set_delete_where)
qed (auto simp: wq_inv_def)

lemma step_kept:
  assumes "wq_step parse to_string q l s s'" and "wq_inv to_string q s" and "kept to_string q k s"
    and "l \<noteq> Fetched k" and "l \<noteq> SetBack" and "is_ok (parse k)"
  shows "kept to_string q k s'"
  using assms
proof (induction rule: wq_step.induct)
  case (add k' after client_now s rows)
  then have ins: "wq_insert q (to_string k') (client_now + after) (ws_now s) (ws_rows s) = Inr rows" by (simp add: writer_add_def)
  have pk: "pk wq_pk (ws_rows s)" using add.prems by (simp add: wq_inv_def)
  show ?case
  proof (cases "to_string k' = k")
    case True
    then show ?thesis using wq_insert_outlives[OF ins pk] add.prems(1) by (fastforce simp: kept_def wq_inv_def)
  next
    case False
    then show ?thesis
      using add.prems(2) wq_insert_mono[OF ins pk] by (fastforce simp: kept_def wq_key_def)
  qed
next
  case (fetch s e rows)
  then show ?case using fetch_some[OF fetch(2)] by (fastforce simp: wq_inv_def kept_def wq_pk_def wq_key_def)
next
  case (idle s rows)
  then show ?case using fetch_some(1)[OF idle(2)] by (fastforce simp: wq_inv_def kept_def wq_pk_def wq_key_def)
next
  case (ack s e)
  then show ?case
    by (auto simp: kept_def reader_ack_def wq_key_def intro!: bexI do_ack_outlives)
qed (auto simp: kept_def)

lemma run_kept:
  "wq_run parse to_string q ls s s' \<Longrightarrow> wq_inv to_string q s \<Longrightarrow> kept to_string q k s \<Longrightarrow> Fetched k \<notin> set ls \<Longrightarrow>
     SetBack \<notin> set ls \<Longrightarrow> is_ok (parse k) \<Longrightarrow> kept to_string q k s'"
  by (induction rule: wq_run.induct) (auto dest: step_inv intro: step_kept)

lemma add_kept:
  assumes "wq_step parse to_string q (Added k) s s1" and "wq_inv to_string q s"
  shows "kept to_string q k s1"
proof -
  from assms(1) obtain k' after client_now rows where "k = to_string k'" "s1 = s\<lparr>ws_rows := rows\<rparr>"
    "writer_add to_string q k' after client_now (ws_now s) (ws_rows s) = Inr rows"
    by (elim wq_addE) blast
  then have s1: "s1 = s\<lparr>ws_rows := rows\<rparr>" and ins: "wq_insert q k (client_now + after) (ws_now s) (ws_rows s) = Inr rows"
    by (simp_all add: writer_add_def)
  have "pk wq_pk (ws_rows s)" using assms(2) by (simp add: wq_inv_def)
  from wq_insert_outlives[OF ins this] show ?thesis using assms(2) s1 by (fastforce simp: kept_def wq_inv_def)
qed

lemma fetched_readable:
  assumes "wq_step parse to_string q l s s'" and "wq_ok s" and "l = Fetched k"
  shows "is_ok (parse k)"
  using assms
proof (induction rule: wq_step.induct)
  case (fetch s e rows)
  have "fetched parse q (ws_now s) (ws_rows s) (Some e, rows)"
    using fetch_returns[of "ws_rows s" parse q "ws_now s"] fetch by (auto simp: wq_ok_def)
  then obtain x where "parse x = Inr (qe_key e)" unfolding fetched_def by auto
  then show ?case using reads[of x "qe_key e"] fetch(4) by simp
qed simp_all

lemma run_ok: "wq_run parse to_string q ls s s' \<Longrightarrow> wq_ok s \<Longrightarrow> wq_ok s'"
  by (induction rule: wq_run.induct) (auto dest: step_ok)

lemma idle_none_due:
  assumes "wq_step parse to_string q l s s'" and "wq_ok s" and "l = Idle" and "r \<in> set (ws_rows s')"
  shows "\<not> is_due q (ws_now s') r"
  using assms
proof (induction rule: wq_step.induct)
  case (idle s rows)
  have "fetched parse q (ws_now s) (ws_rows s) (None, rows)"
    using fetch_returns[of "ws_rows s" parse q "ws_now s"] idle by (auto simp: wq_ok_def)
  then show ?case using idle(5) by (auto simp: fetched_def)
qed simp_all

lemma run_fetched_readable:
  "wq_run parse to_string q ls s s' \<Longrightarrow> wq_ok s \<Longrightarrow> Fetched k \<in> set ls \<Longrightarrow> is_ok (parse k)"
  by (induction rule: wq_run.induct) (auto dest: step_ok fetched_readable)

end

interpretation name_key: work_key name_from_string "\<lambda>s. s"
  by unfold_locales (simp add: name_from_string_def)

lemma pair_key_reads: "pair_from_string s = Inr k \<Longrightarrow> pair_to_string k = s"
  using join_split_on[of "CHR ''/''" s]
  by (auto simp: pair_from_string_def pair_to_string_def split: list.splits)

interpretation pair_key: work_key pair_from_string pair_to_string
  by unfold_locales (rule pair_key_reads)

lemma pair_key_slash:
  "is_ok (pair_from_string (pair_to_string (a, b))) \<longleftrightarrow> CHR ''/'' \<notin> set a \<and> CHR ''/'' \<notin> set b"
proof
  assume "CHR ''/'' \<notin> set a \<and> CHR ''/'' \<notin> set b"
  then show "is_ok (pair_from_string (pair_to_string (a, b)))"
    by (simp add: pair_from_string_def pair_to_string_def split_on_append_sep)
next
  assume "is_ok (pair_from_string (pair_to_string (a, b)))"
  then obtain x y where xy: "split_on (CHR ''/'') (a @ CHR ''/'' # b) = [x, y]"
    by (auto simp: pair_from_string_def pair_to_string_def split: list.splits)
  have no: "CHR ''/'' \<notin> set x" "CHR ''/'' \<notin> set y"
    using split_on_parts_no_sep[of _ "CHR ''/''" "a @ CHR ''/'' # b"] by (auto simp: xy)
  have "x @ CHR ''/'' # y = a @ CHR ''/'' # b"
    using join_split_on[of "CHR ''/''" "a @ CHR ''/'' # b"] by (simp add: xy)
  then have "count_list (a @ CHR ''/'' # b) (CHR ''/'') = 1"
    using no by (metis count_list_append count_list_0_iff count_list.simps(2) add_0 add_0_right)
  then show "CHR ''/'' \<notin> set a \<and> CHR ''/'' \<notin> set b" by (simp add: count_list_0_iff)
qed

section \<open>Properties\<close>

text \<open>
  C23. Work that was added is not lost: after a device was added to the queue it stays there
  until the reader takes it, whatever the writers with their clocks and the reader do in
  between; in particular the acknowledgement of an older run for the same device does not
  remove it.  Two conditions: the names of the application and the device contain no slash, and
  the clock of the database is not set back (\<open>set_back_loses_work\<close> is a run where it is).
\<close>

theorem added_work_is_kept:
  assumes "wq_inv pair_to_string q s"
    and "wq_step pair_from_string pair_to_string q (Added (pair_to_string (app, dev))) s s1"
    and "wq_run pair_from_string pair_to_string q ls s1 s2" and "Fetched (pair_to_string (app, dev)) \<notin> set ls"
    and "SetBack \<notin> set ls" and "CHR ''/'' \<notin> set app" and "CHR ''/'' \<notin> set dev"
  shows "\<exists>r \<in> set (ws_rows s2). wq_pk r = wq_key q (pair_to_string (app, dev))"
proof -
  have "wq_inv pair_to_string q s1" using pair_key.step_inv[OF assms(2,1)] by simp
  then have "kept pair_to_string q (pair_to_string (app, dev)) s2"
    using pair_key.run_kept[OF assms(3) _ pair_key.add_kept[OF assms(2,1)] assms(4,5)]
      pair_key_slash assms(6,7) by blast
  then show ?thesis unfolding kept_def by blast
qed

text \<open>
  If the name of a device contains a slash, work for it that goes through the queue is
  never done: no fetch returns it, and once it is due a fetch that finds nothing else has
  removed it.
\<close>

theorem slashed_device_is_dropped:
  assumes "wq_ok s" and "CHR ''/'' \<in> set dev"
    and "wq_run pair_from_string pair_to_string q ls s s1"
  shows "Fetched (pair_to_string (app, dev)) \<notin> set ls
     \<and> (\<forall>s2. wq_step pair_from_string pair_to_string q Idle s1 s2 \<longrightarrow>
          (\<forall>r \<in> set (ws_rows s2). wq_pk r = wq_key q (pair_to_string (app, dev)) \<longrightarrow> ws_now s2 \<le> wq_TS r))"
proof -
  have "\<not> is_ok (pair_from_string (pair_to_string (app, dev)))" using assms(2) pair_key_slash by blast
  then have "Fetched (pair_to_string (app, dev)) \<notin> set ls" using pair_key.run_fetched_readable[OF assms(3,1)] by blast
  moreover have "ws_now s2 \<le> wq_TS r" if "wq_step pair_from_string pair_to_string q Idle s1 s2" "r \<in> set (ws_rows s2)"
    "wq_pk r = wq_key q (pair_to_string (app, dev))" for s2 r
    using pair_key.idle_none_due[OF that(1) pair_key.run_ok[OF assms(3,1)] refl that(2)] that(3)
    by (auto simp: is_due_def wq_pk_def wq_key_def)
  ultimately show ?thesis by blast
qed

definition demo_queue :: queue_id where
  "demo_queue = \<lparr>qi_instance = ''i'', qi_type = ''t''\<rparr>"

definition demo_work_row :: "string \<Rightarrow> timestamp \<Rightarrow> int \<Rightarrow> wq_row" where
  "demo_work_row k ts n = \<lparr>wq_INSTANCE = ''i'', wq_TYPE = ''t'', wq_KEY = k, wq_TS = ts, wq_REV = n\<rparr>"

definition demo_work_entry :: "(string \<times> string) queue_entry" where
  "demo_work_entry = \<lparr>qe_key = (''a'', ''d''), qe_timestamp = 1, qe_rev = 0\<rparr>"

text \<open>The device is being processed when it is added again; the writer's clock is behind.\<close>

theorem added_work_is_kept_witness:
  "\<exists>r \<in> set (reader_ack pair_to_string demo_queue demo_work_entry [demo_work_row ''a/d'' 0 1]). wq_pk r = wq_key demo_queue ''a/d''"
proof -
  let ?s = "\<lparr>ws_rows = [demo_work_row ''a/d'' 1 0], ws_now = 5, ws_flight = Some demo_work_entry\<rparr>"
  let ?s1 = "?s\<lparr>ws_rows := [demo_work_row ''a/d'' 0 1]\<rparr>"
  have inv: "wq_inv pair_to_string demo_queue ?s"
    by (simp add: wq_inv_def demo_work_row_def demo_work_entry_def wq_pk_def wq_key_def pair_to_string_def demo_queue_def)
  have "writer_add pair_to_string demo_queue (''a'', ''d'') 0 0 5 [demo_work_row ''a/d'' 1 0] = Inr [demo_work_row ''a/d'' 0 1]"
    by code_simp
  then have add: "wq_step pair_from_string pair_to_string demo_queue (Added (pair_to_string (''a'', ''d''))) ?s ?s1"
    using wq_step.add[of pair_to_string demo_queue "(''a'', ''d'')" 0 0 ?s] by simp
  have run: "wq_run pair_from_string pair_to_string demo_queue [Acked] ?s1
      (?s1\<lparr>ws_rows := reader_ack pair_to_string demo_queue demo_work_entry (ws_rows ?s1), ws_flight := None\<rparr>)"
    by (rule wq_run.step[OF wq_step.ack wq_run.finish]) simp
  show ?thesis
    using added_work_is_kept[OF inv add run] by (simp add: pair_to_string_def)
qed

text \<open>
  With the clock of the database set back, the same work is lost: the entry is fetched at time
  5; at time 1 the device is added again, which leaves its row alone, because the row seems to
  be still ahead; and the acknowledgement removes it.
\<close>

lemma set_back_loses_work:
  "\<exists>s1 s2 s3. wq_run pair_from_string pair_to_string demo_queue [Fetched ''a/d'', SetBack]
       \<lparr>ws_rows = [demo_work_row ''a/d'' 2 0], ws_now = 5, ws_flight = None\<rparr> s1
     \<and> wq_step pair_from_string pair_to_string demo_queue (Added ''a/d'') s1 s2
     \<and> wq_step pair_from_string pair_to_string demo_queue Acked s2 s3 \<and> ws_rows s3 = []"
proof -
  let ?rows = "[demo_work_row ''a/d'' 2 0]"
  let ?e = "\<lparr>qe_key = (''a'', ''d''), qe_timestamp = 2, qe_rev = 0\<rparr>"
  let ?s = "\<lparr>ws_rows = ?rows, ws_now = 5, ws_flight = None :: (string \<times> string) queue_entry option\<rparr>"
  let ?s1 = "\<lparr>ws_rows = ?rows, ws_now = 1, ws_flight = Some ?e\<rparr>"
  have key: "pair_to_string (''a'', ''d'') = ''a/d''" by (simp add: pair_to_string_def)
  have "fetch pair_from_string demo_queue 5 ?rows = Some (Some ?e, ?rows)" by code_simp
  then have "wq_step pair_from_string pair_to_string demo_queue (Fetched ''a/d'') ?s (?s\<lparr>ws_flight := Some ?e\<rparr>)"
    using wq_step.fetch[of ?s pair_from_string demo_queue ?e ?rows pair_to_string] by (simp add: key)
  moreover have "wq_step pair_from_string pair_to_string demo_queue SetBack (?s\<lparr>ws_flight := Some ?e\<rparr>) ?s1"
    using wq_step.set_back[of 1 "?s\<lparr>ws_flight := Some ?e\<rparr>" pair_from_string pair_to_string demo_queue] by simp
  ultimately have run: "wq_run pair_from_string pair_to_string demo_queue [Fetched ''a/d'', SetBack] ?s ?s1"
    by (rule wq_run.step[OF _ wq_run.step[OF _ wq_run.finish]])
  have "writer_add pair_to_string demo_queue (''a'', ''d'') 1 1 1 ?rows = Inr ?rows" by code_simp
  then have add: "wq_step pair_from_string pair_to_string demo_queue (Added ''a/d'') ?s1 ?s1"
    using wq_step.add[of pair_to_string demo_queue "(''a'', ''d'')" 1 1 ?s1 ?rows pair_from_string] by (simp add: key)
  have "reader_ack pair_to_string demo_queue ?e ?rows = []" by code_simp
  then have "wq_step pair_from_string pair_to_string demo_queue Acked ?s1 (?s1\<lparr>ws_rows := [], ws_flight := None\<rparr>)"
    using wq_step.ack[of ?s1 ?e pair_from_string pair_to_string demo_queue] by simp
  then show ?thesis using run add by fastforce
qed

theorem slashed_device_is_dropped_witness:
  "\<exists>s2. wq_step pair_from_string pair_to_string demo_queue Idle
       \<lparr>ws_rows = [demo_work_row ''a/x/y'' 1 0], ws_now = 5, ws_flight = None\<rparr> s2 \<and> ws_rows s2 = []"
proof -
  let ?s = "\<lparr>ws_rows = [demo_work_row ''a/x/y'' 1 0], ws_now = 5, ws_flight = None :: (string \<times> string) queue_entry option\<rparr>"
  have inv: "wq_ok ?s" by (simp add: wq_ok_def demo_work_row_def)
  have "fetch pair_from_string demo_queue 5 [demo_work_row ''a/x/y'' 1 0] = Some (None, [])" by code_simp
  then have step: "wq_step pair_from_string pair_to_string demo_queue Idle ?s (?s\<lparr>ws_rows := []\<rparr>)"
    using wq_step.idle[of ?s pair_from_string demo_queue "[]" pair_to_string] by simp
  have "Fetched (pair_to_string (''a'', ''x/y'')) \<notin> set []"
    using slashed_device_is_dropped[OF inv, of "''x/y''" demo_queue "[]" ?s "''a''"] by (simp add: wq_run.finish)
  with step show ?thesis by fastforce
qed

end
