(* ===== verification/Controller.thy ===== *)
theory Controller
  imports Work_Queue Registry_Events Registry_Api
begin

text \<open>
  The base of the operators (\<open>operator-common/src/controller\<close>): the operation that reads a
  resource, processes it and stores the result, the retries around it, the rescheduling
  through the work queue, and the dispatch of registry events.

  Parameters: what an operator does with a resource, and the registry client.
\<close>

section \<open>Operations\<close>

datatype reconcile_error = Permanent string | Temporary string

fun reconcile_error_text :: "reconcile_error \<Rightarrow> string" where
  "reconcile_error_text (Permanent m) = ''Reconciliation failed with a permanent error: '' @ m"
| "reconcile_error_text (Temporary m) = ''Reconciliation failed with a temporary error: '' @ m"

datatype op_outcome = OpComplete | OpRetryNow | OpRetryLater nat

definition op_retry :: "nat option \<Rightarrow> op_outcome" where
  "op_retry delay = (case delay of Some d \<Rightarrow> if d \<noteq> 0 then OpRetryLater d else OpRetryNow | None \<Rightarrow> OpRetryNow)"

datatype 'o process_result = ProcComplete 'o | ProcRetry 'o "nat option"

record ('k, 'ri, 'ro, 's) controller_op =
  on_get :: "'k \<Rightarrow> 's \<Rightarrow> (unit + 'ri option) \<times> 's"
  on_process_resource :: "'ri \<Rightarrow> 's \<Rightarrow> (reconcile_error + 'ro process_result) \<times> 's"
  on_recover :: "string \<Rightarrow> 'ri \<Rightarrow> 's \<Rightarrow> (unit + 'ro) \<times> 's"
  on_update_if :: "'ro \<Rightarrow> 'ro \<Rightarrow> 's \<Rightarrow> (reconcile_error + unit) \<times> 's"
  on_ref_output :: "'ri \<Rightarrow> 'ro"

definition store_outcome ::
  "('k, 'ri, 'ro, 's) controller_op \<Rightarrow> 'ri \<Rightarrow> 'ro \<Rightarrow> op_outcome \<Rightarrow> 's \<Rightarrow> (reconcile_error + op_outcome) \<times> 's" where
  "store_outcome on resource outcome result s =
     (case on_update_if on (on_ref_output on resource) outcome s of
        (Inl e, s') \<Rightarrow> (Inl e, s')
      | (Inr _, s') \<Rightarrow> (Inr result, s'))"

definition recover_and_store ::
  "('k, 'ri, 'ro, 's) controller_op \<Rightarrow> string \<Rightarrow> 'ri \<Rightarrow> op_outcome \<Rightarrow> 's \<Rightarrow> (reconcile_error + op_outcome) \<times> 's" where
  "recover_and_store on msg resource result s =
     (case on_recover on msg resource s of
        (Inl _, s') \<Rightarrow> (Inl (Permanent ''Failed to recover''), s')
      | (Inr outcome, s') \<Rightarrow> store_outcome on resource outcome result s')"

definition operation_process ::
  "('k, 'ri, 'ro, 's) controller_op \<Rightarrow> 'k \<Rightarrow> 's \<Rightarrow> (reconcile_error + op_outcome) \<times> 's" where
  "operation_process on key s =
     (case on_get on key s of
        (Inr (Some resource), s') \<Rightarrow>
          (case on_process_resource on resource s' of
             (Inr (ProcComplete outcome), s'') \<Rightarrow> store_outcome on resource outcome OpComplete s''
           | (Inr (ProcRetry outcome delay), s'') \<Rightarrow> store_outcome on resource outcome (op_retry delay) s''
           | (Inl (Temporary msg), s'') \<Rightarrow> recover_and_store on msg resource OpRetryNow s''
           | (Inl (Permanent msg), s'') \<Rightarrow> recover_and_store on msg resource OpComplete s'')
      | (Inr None, s') \<Rightarrow> (Inr OpComplete, s')
      | (Inl _, s') \<Rightarrow> (Inr OpRetryNow, s'))"

definition MAX_RETRIES :: nat where "MAX_RETRIES = 10"

text \<open>The loop of the inner controller; \<open>left\<close> is \<open>MAX_RETRIES\<close> less the retries so far.\<close>

fun process_loop ::
  "('k, 'ri, 'ro, 's) controller_op \<Rightarrow> 'k \<Rightarrow> nat \<Rightarrow> 's \<Rightarrow> ('k \<times> nat) option \<times> 's" where
  "process_loop on key left s =
     (case operation_process on key s of
        (Inr OpComplete, s') \<Rightarrow> (None, s')
      | (Inl (Permanent _), s') \<Rightarrow> (None, s')
      | (Inr (OpRetryLater delay), s') \<Rightarrow> (Some (key, delay), s')
      | (_, s') \<Rightarrow> (case left of 0 \<Rightarrow> (Some (key, 0), s') | Suc left' \<Rightarrow> process_loop on key left' s'))"

declare process_loop.simps [simp del]

definition inner_process :: "('k, 'ri, 'ro, 's) controller_op \<Rightarrow> 'k \<Rightarrow> 's \<Rightarrow> (unit + ('k \<times> nat) option) \<times> 's" where
  "inner_process on key s = (let (r, s') = process_loop on key MAX_RETRIES s in (Inr r, s'))"

section \<open>The controller and its queue\<close>

record clocks =
  ck_client :: timestamp
  ck_db :: timestamp

text \<open>\<open>BaseController::process\<close>: called for an event.\<close>

definition base_process ::
  "('k \<Rightarrow> string) \<Rightarrow> queue_id \<Rightarrow> ('k, 'ri, 'ro, 's) controller_op \<Rightarrow> clocks \<Rightarrow> 'k \<Rightarrow> 's \<times> wq_row list
    \<Rightarrow> (unit + unit) \<times> 's \<times> wq_row list" where
  "base_process to_string q on ck key sq =
     (case inner_process on key (fst sq) of
        (Inr (Some (k, after)), s') \<Rightarrow>
          (case writer_add to_string q k (int after) (ck_client ck) (ck_db ck) (snd sq) of
             Inr rows \<Rightarrow> (Inr (), s', rows)
           | Inl _ \<Rightarrow> (Inl (), s', snd sq))
      | (Inr None, s') \<Rightarrow> (Inr (), s', snd sq)
      | (Inl _, s') \<Rightarrow> (Inl (), s', snd sq))"

text \<open>One entry of the queue handled by the controller.\<close>

definition queue_round ::
  "('k \<Rightarrow> string) \<Rightarrow> queue_id \<Rightarrow> ('k, 'ri, 'ro, 's) controller_op \<Rightarrow> clocks \<Rightarrow> 'k queue_entry \<Rightarrow> 's \<times> wq_row list
    \<Rightarrow> 's \<times> wq_row list" where
  "queue_round to_string q on ck entry sq =
     (let (r, s') = inner_process on (qe_key entry) (fst sq)
      in (s', reader_finish to_string q entry (map_sum (\<lambda>e. e) (map_option (map_prod (\<lambda>k. k) int)) r)
                (ck_client ck) (ck_db ck) (snd sq)))"

section \<open>Events\<close>

definition fn_event_processor ::
  "('e \<Rightarrow> 'k option) \<Rightarrow> ('k \<Rightarrow> 's \<Rightarrow> (unit + unit) \<times> 's) \<Rightarrow> 'e \<Rightarrow> 's \<Rightarrow> (unit + bool) \<times> 's" where
  "fn_event_processor f process evt s =
     (case f evt of
        Some key \<Rightarrow> (case process key s of (Inl e, s') \<Rightarrow> (Inl e, s') | (Inr _, s') \<Rightarrow> (Inr True, s'))
      | None \<Rightarrow> (Inr False, s))"

fun event_dispatcher :: "('e \<Rightarrow> 's \<Rightarrow> (unit + bool) \<times> 's) list \<Rightarrow> 'e \<Rightarrow> 's \<Rightarrow> (unit + unit) \<times> 's" where
  "event_dispatcher [] evt s = (Inr (), s)"
| "event_dispatcher (p # ps) evt s =
     (case p evt s of
        (Inl e, s') \<Rightarrow> (Inl e, s')
      | (Inr True, s') \<Rightarrow> (Inr (), s')
      | (Inr False, s') \<Rightarrow> event_dispatcher ps evt s')"

section \<open>Applications and devices in the registry\<close>

datatype client_failure = Syntax string | OtherFailure string

record ('r, 's) registry_client =
  rc_aggregate_ready :: "'r \<Rightarrow> reconcile_error + 'r"
  rc_update :: "'r \<Rightarrow> 's \<Rightarrow> (client_failure + unit) \<times> 's"

definition registry_update_if ::
  "('r, 's) registry_client \<Rightarrow> 'r \<Rightarrow> 'r \<Rightarrow> 's \<Rightarrow> (reconcile_error + unit) \<times> 's" where
  "registry_update_if rc original current s =
     (case rc_aggregate_ready rc current of
        Inl e \<Rightarrow> (Inl e, s)
      | Inr current \<Rightarrow>
          if original \<noteq> current then
            (case rc_update rc current s of
               (Inr _, s') \<Rightarrow> (Inr (), s')
             | (Inl (Syntax msg), s') \<Rightarrow> (Inl (Permanent (''Failed to reconcile: '' @ msg)), s')
             | (Inl (OtherFailure msg), s') \<Rightarrow> (Inl (Temporary (''Failed to reconcile: '' @ msg)), s'))
          else (Inr (), s))"

definition device_get ::
  "(string \<Rightarrow> unit + 'a option) \<Rightarrow> (string \<Rightarrow> string \<Rightarrow> unit + 'd option) \<Rightarrow> string \<times> string \<Rightarrow> unit + ('a \<times> 'd) option" where
  "device_get get_app get_device key =
     rbind (get_app (fst key)) (\<lambda>a. rbind (get_device (fst key) (snd key)) (\<lambda>d.
       Inr (case (a, d) of (Some app, Some dev) \<Rightarrow> Some (app, dev) | _ \<Rightarrow> None)))"

section \<open>Retries\<close>

fun after_calls :: "('k, 'ri, 'ro, 's) controller_op \<Rightarrow> 'k \<Rightarrow> nat \<Rightarrow> 's \<Rightarrow> 's" where
  "after_calls on key 0 s = s"
| "after_calls on key (Suc n) s = after_calls on key n (snd (operation_process on key s))"

definition wants_retry :: "reconcile_error + op_outcome \<Rightarrow> bool" where
  "wants_retry r \<longleftrightarrow> r = Inr OpRetryNow \<or> (\<exists>m. r = Inl (Temporary m))"

definition loop_result :: "'k \<Rightarrow> reconcile_error + op_outcome \<Rightarrow> ('k \<times> nat) option" where
  "loop_result key r = (case r of
     Inr (OpRetryLater d) \<Rightarrow> Some (key, d)
   | _ \<Rightarrow> if wants_retry r then Some (key, 0) else None)"

lemma process_loop_step:
  "process_loop on key left s =
     (let (r, s') = operation_process on key s in
      if wants_retry r \<and> left \<noteq> 0 then process_loop on key (left - 1) s' else (loop_result key r, s'))"
  by (subst process_loop.simps)
    (auto simp: wants_retry_def loop_result_def Let_def split: prod.splits sum.splits op_outcome.splits reconcile_error.splits nat.splits)

lemma process_loop_done:
  "\<not> wants_retry (fst (operation_process on key s)) \<Longrightarrow>
     process_loop on key left s = (loop_result key (fst (operation_process on key s)), snd (operation_process on key s))"
  by (subst process_loop_step) (simp add: case_prod_beta)

lemma process_loop_calls:
  "\<exists>n \<le> left. (\<forall>i < n. wants_retry (fst (operation_process on key (after_calls on key i s))))
     \<and> (n < left \<longrightarrow> \<not> wants_retry (fst (operation_process on key (after_calls on key n s))))
     \<and> process_loop on key left s =
         (loop_result key (fst (operation_process on key (after_calls on key n s))), after_calls on key (Suc n) s)"
proof (induction left arbitrary: s)
  case 0
  show ?case by (intro exI[of _ 0]) (simp add: process_loop_step[of _ _ 0] case_prod_beta)
next
  case (Suc left)
  let ?r = "operation_process on key s"
  show ?case
  proof (cases "wants_retry (fst ?r)")
    case False
    then show ?thesis by (intro exI[of _ 0]) (simp add: process_loop_step[of _ _ "Suc left"] case_prod_beta)
  next
    case True
    obtain n where n: "n \<le> left" "\<forall>i < n. wants_retry (fst (operation_process on key (after_calls on key i (snd ?r))))"
      "n < left \<longrightarrow> \<not> wants_retry (fst (operation_process on key (after_calls on key n (snd ?r))))"
      "process_loop on key left (snd ?r) =
         (loop_result key (fst (operation_process on key (after_calls on key n (snd ?r)))), after_calls on key (Suc n) (snd ?r))"
      using Suc.IH[of "snd ?r"] by blast
    have "\<forall>i < Suc n. wants_retry (fst (operation_process on key (after_calls on key i s)))"
      using n(2) True by (auto simp: less_Suc_eq_0_disj)
    then show ?thesis
      using n(1,3,4) True by (intro exI[of _ "Suc n"]) (simp add: process_loop_step[of _ _ "Suc left"] case_prod_beta)
  qed
qed

text \<open>
  C36. Processing a key ends after at most eleven runs of the operation: it is repeated only
  after temporary errors and immediate retries, the first other outcome is the result, and
  the key is rescheduled without delay exactly if the last of eleven runs still asks for a
  retry.
\<close>

theorem inner_process_bounded:
  "\<exists>n \<le> MAX_RETRIES. (\<forall>i < n. wants_retry (fst (operation_process on key (after_calls on key i s))))
     \<and> (n < MAX_RETRIES \<longrightarrow> \<not> wants_retry (fst (operation_process on key (after_calls on key n s))))
     \<and> inner_process on key s =
         (Inr (loop_result key (fst (operation_process on key (after_calls on key n s)))), after_calls on key (Suc n) s)"
proof -
  obtain n where "n \<le> MAX_RETRIES" "\<forall>i < n. wants_retry (fst (operation_process on key (after_calls on key i s)))"
    "n < MAX_RETRIES \<longrightarrow> \<not> wants_retry (fst (operation_process on key (after_calls on key n s)))"
    "process_loop on key MAX_RETRIES s =
       (loop_result key (fst (operation_process on key (after_calls on key n s))), after_calls on key (Suc n) s)"
    using process_loop_calls[of MAX_RETRIES on key s] by blast
  then show ?thesis unfolding inner_process_def by (intro exI[of _ n]) (simp add: Let_def)
qed

lemma loop_result_key: "loop_result key r = Some (k, after) \<Longrightarrow> k = key"
  by (auto simp: loop_result_def split: sum.splits op_outcome.splits if_splits)

lemma inner_process_key: "inner_process on key s = (Inr (Some (k, after)), s') \<Longrightarrow> k = key"
  using process_loop_calls[of MAX_RETRIES on key s] by (auto simp: inner_process_def Let_def dest: loop_result_key)


definition demo_operation :: "(string \<times> string, unit, unit, nat) controller_op" where
  "demo_operation = \<lparr>on_get = (\<lambda>_ s. (Inr (Some ()), s)),
     on_process_resource = (\<lambda>_ s. (if s < 20 then Inl (Temporary []) else Inr (ProcComplete ()), Suc s)),
     on_recover = (\<lambda>_ _ s. (Inr (), s)), on_update_if = (\<lambda>_ _ s. (Inr (), s)), on_ref_output = (\<lambda>_. ())\<rparr>"


theorem inner_process_bounded_witness:
  "fst (inner_process demo_operation (''a'', ''d'') 15) = Inr None
   \<and> (\<exists>n \<le> 10. snd (inner_process demo_operation (''a'', ''d'') 15) = after_calls demo_operation (''a'', ''d'') (Suc n) 15)"
proof
  show "fst (inner_process demo_operation (''a'', ''d'') 15) = Inr None" by code_simp
  show "\<exists>n \<le> 10. snd (inner_process demo_operation (''a'', ''d'') 15) = after_calls demo_operation (''a'', ''d'') (Suc n) 15"
    using inner_process_bounded[of demo_operation "(''a'', ''d'')" 15] unfolding MAX_RETRIES_def by (metis snd_conv)
qed

end
