(* ===== verification/Management_Events.thy ===== *)
theory Management_Events
  imports Controller Event_Sender
begin

text \<open>
  The device management controller (\<open>device-management-controller\<close>): it turns every registry
  event of a device into an event on the channel \<open>devices\<close> of its application, with the base
  controller and its work queue.

  Parameters: the registry, the text of a JSON key, and those of the sender.
\<close>

record device_key =
  dk_application :: string
  dk_device :: string
  dk_device_uid :: string

record app_and_device =
  ad_key :: device_key
  ad_application :: api_application
  ad_device :: "api_device option"

record mgmt_env =
  mg_sender :: sender_env
  mg_sink :: sink
  mg_ids :: "nat \<Rightarrow> string"
  mg_clock :: "nat \<Rightarrow> timestamp"
  mg_get_app :: "string \<Rightarrow> unit + api_application option"
  mg_get_device :: "string \<Rightarrow> string \<Rightarrow> unit + api_device option"
  mg_retry_full :: nat
  mg_retry_failed :: nat
  mg_key_string :: "device_key \<Rightarrow> string"
  mg_queue :: queue_id

definition REGISTRY_TYPE_EVENT :: string where "REGISTRY_TYPE_EVENT = ''io.drogue.registry.v1''"

definition mgmt_get :: "mgmt_env \<Rightarrow> device_key \<Rightarrow> unit + app_and_device option" where
  "mgmt_get mg key =
     rbind (mg_get_app mg (dk_application key)) (\<lambda>a.
     rbind (mg_get_device mg (dk_application key) (dk_device key)) (\<lambda>d.
       Inr (case a of
              Some app \<Rightarrow> Some \<lparr>ad_key = key, ad_application = app, ad_device = d\<rparr>
            | None \<Rightarrow> None)))"

definition mgmt_publish :: "app_and_device \<Rightarrow> publish" where
  "mgmt_publish resource =
     \<lparr>pb_application = ad_application resource,
      pb_device = \<lparr>pi_name = dk_device (ad_key resource), pi_uid = Some (dk_device_uid (ad_key resource))\<rparr>,
      pb_sender = \<lparr>pi_name = dk_device (ad_key resource), pi_uid = Some (dk_device_uid (ad_key resource))\<rparr>,
      pb_channel = ''devices'', pb_options = default_options\<lparr>po_type := Some REGISTRY_TYPE_EVENT\<rparr>\<rparr>"

text \<open>The state: the calls of the publisher so far, and the sender.\<close>

definition mgmt_send_event :: "mgmt_env \<Rightarrow> app_and_device \<Rightarrow> nat \<times> sender_state \<Rightarrow> unit process_result \<times> nat \<times> sender_state" where
  "mgmt_send_event mg resource s =
     (let (r, ss) = publisher_publish (mg_sender mg) (mg_sink mg) Downstream (mg_ids mg (fst s)) (mg_clock mg (fst s))
            (mgmt_publish resource) [] (snd s);
          s' = (Suc (fst s), ss)
      in case r of
           Inr Accepted \<Rightarrow> (ProcComplete (), s')
         | Inr QueueFull \<Rightarrow> (ProcRetry () (Some (mg_retry_full mg)), s')
         | Inr Rejected \<Rightarrow> (ProcRetry () (Some (mg_retry_failed mg)), s')
         | Inl _ \<Rightarrow> (ProcComplete (), s'))"

definition mgmt_operation :: "mgmt_env \<Rightarrow> (device_key, app_and_device, unit, nat \<times> sender_state) controller_op" where
  "mgmt_operation mg =
     \<lparr>on_get = (\<lambda>key s. (mgmt_get mg key, s)),
      on_process_resource = (\<lambda>resource s. let (r, s') = mgmt_send_event mg resource s in (Inr r, s')),
      on_recover = (\<lambda>_ _ s. (Inr (), s)), on_update_if = (\<lambda>_ _ s. (Inr (), s)), on_ref_output = (\<lambda>_. ())\<rparr>"

fun mgmt_key :: "event \<Rightarrow> device_key option" where
  "mgmt_key (Device inst application device uid path revision) =
     Some \<lparr>dk_application = application, dk_device = device, dk_device_uid = uid\<rparr>"
| "mgmt_key _ = None"

definition mgmt_handle ::
  "mgmt_env \<Rightarrow> clocks \<Rightarrow> event \<Rightarrow> (nat \<times> sender_state) \<times> wq_row list \<Rightarrow> (unit + unit) \<times> (nat \<times> sender_state) \<times> wq_row list" where
  "mgmt_handle mg ck evt s =
     event_dispatcher [fn_event_processor mgmt_key (base_process (mg_key_string mg) (mg_queue mg) (mgmt_operation mg) ck)] evt s"

section \<open>What becomes of an event\<close>

lemma mgmt_process:
  "operation_process (mgmt_operation mg) key s =
     (case mgmt_get mg key of
        Inl _ \<Rightarrow> (Inr OpRetryNow, s)
      | Inr None \<Rightarrow> (Inr OpComplete, s)
      | Inr (Some resource) \<Rightarrow>
          (Inr (case fst (mgmt_send_event mg resource s) of ProcComplete _ \<Rightarrow> OpComplete | ProcRetry _ d \<Rightarrow> op_retry d),
           snd (mgmt_send_event mg resource s)))"
  by (simp add: operation_process_def mgmt_operation_def store_outcome_def Let_def case_prod_beta
      split: sum.splits option.splits process_result.splits)

lemma process_loop_stays:
  assumes "operation_process on key s = (Inr OpRetryNow, s)"
  shows "process_loop on key left s = (Some (key, 0), s)"
  by (induction left) (subst process_loop_step, simp add: assms wants_retry_def loop_result_def)+

lemma mgmt_send_event_result:
  assumes "mg_retry_full mg \<noteq> 0" and "mg_retry_failed mg \<noteq> 0"
  shows "fst (mgmt_send_event mg resource s) = ProcComplete ()
     \<or> (\<exists>d. d \<noteq> 0 \<and> fst (mgmt_send_event mg resource s) = ProcRetry () (Some d))"
  using assms by (auto simp: mgmt_send_event_def Let_def case_prod_beta split: sum.splits publish_outcome.splits)

lemma mgmt_inner:
  assumes "mg_retry_full mg \<noteq> 0" and "mg_retry_failed mg \<noteq> 0"
  shows "inner_process (mgmt_operation mg) key s =
     (case mgmt_get mg key of
        Inl _ \<Rightarrow> (Inr (Some (key, 0)), s)
      | Inr None \<Rightarrow> (Inr None, s)
      | Inr (Some resource) \<Rightarrow>
          (Inr (case fst (mgmt_send_event mg resource s) of ProcRetry _ (Some d) \<Rightarrow> Some (key, d) | _ \<Rightarrow> None),
           snd (mgmt_send_event mg resource s)))"
proof (cases "mgmt_get mg key")
  case (Inl u)
  then show ?thesis by (simp add: inner_process_def process_loop_stays mgmt_process)
next
  case (Inr a)
  then have "\<not> wants_retry (fst (operation_process (mgmt_operation mg) key s))"
    using mgmt_send_event_result[OF assms, of "the a" s]
    by (cases a) (auto simp: mgmt_process wants_retry_def op_retry_def)
  note loop = process_loop_done[OF this]
  show ?thesis
  proof (cases a)
    case None
    then show ?thesis by (simp add: inner_process_def loop mgmt_process Inr loop_result_def wants_retry_def)
  next
    case (Some resource)
    show ?thesis
      using mgmt_send_event_result[OF assms, of resource s]
      by (elim disjE exE) (simp_all add: inner_process_def loop mgmt_process Inr Some loop_result_def wants_retry_def op_retry_def)
  qed
qed

lemma mgmt_get_resource:
  "mgmt_get mg key = Inr (Some resource) \<Longrightarrow>
     mg_get_app mg (dk_application key) = Inr (Some (ad_application resource)) \<and> ad_key resource = key"
  by (auto simp: mgmt_get_def result_simps split: option.splits)

lemma sent_event:
  assumes "fst (mgmt_send_event mg resource (n, ss)) = ProcComplete ()" and "snd (mgmt_send_event mg resource (n, ss)) = (n', ss')"
  shows "\<exists>out. publisher_publish (mg_sender mg) (mg_sink mg) Downstream (mg_ids mg n) (mg_clock mg n) (mgmt_publish resource) [] ss = (out, ss')
     \<and> (out = Inr Accepted \<or> (\<exists>e. out = Inl e))
     \<and> (out = Inr Accepted \<longrightarrow> processor_rules (mg_sender mg) Downstream (ad_application resource) = Inr [] \<longrightarrow>
          (\<exists>e. ss_log ss' = ss_log ss @ [(sink_topic (mg_sender mg) (mg_sink mg) Downstream (ad_application resource), sink_key e, e)]
             \<and> ce_subject e = Some ''devices'' \<and> map_of (ce_extensions e) EXT_DEVICE = Some (EVString (dk_device (ad_key resource)))))"
proof -
  let ?pub = "mgmt_publish resource"
  obtain out ss1 where p: "publisher_publish (mg_sender mg) (mg_sink mg) Downstream (mg_ids mg n) (mg_clock mg n) ?pub [] ss = (out, ss1)"
    by fastforce
  have ss1: "ss1 = ss'" and out: "out = Inr Accepted \<or> (\<exists>e. out = Inl e)"
    using assms by (auto simp: mgmt_send_event_def p Let_def split: sum.splits publish_outcome.splits)
  have app: "pb_application ?pub = ad_application resource" by (simp add: mgmt_publish_def)
  have "map_of (publish_extensions (mg_sender mg) ?pub) EXT_DEVICE = Some (EVString (dk_device (ad_key resource)))"
    by (rule publish_extensions_id) (simp_all add: id_extensions_def mgmt_publish_def default_options_def)
  note ext = this
  have "\<exists>e. ss_log ss' = ss_log ss @ [(sink_topic (mg_sender mg) (mg_sink mg) Downstream (ad_application resource), sink_key e, e)]
       \<and> ce_subject e = Some ''devices'' \<and> map_of (ce_extensions e) EXT_DEVICE = Some (EVString (dk_device (ad_key resource)))"
    if acc: "out = Inr Accepted" and rules: "processor_rules (mg_sender mg) Downstream (ad_application resource) = Inr []"
    using p
  proof (cases rule: publish_cases)
    case (delivered data rules ps e)
    then have "e = publish_event (mg_sender mg) (mg_ids mg n) (mg_clock mg n) ?pub data" using rules by (simp add: app)
    then show ?thesis
      using delivered(5) ext by (intro exI[of _ e]) (simp add: ss1 app publish_event_def, simp add: mgmt_publish_def)
  qed (use acc rules app in simp_all)
  then show ?thesis using p out ss1 by blast
qed

text \<open>
  A registry event of a device is taken care of: if its handler succeeds, then the
  application is gone, or the event was given to the sink (or dropped by a rule of the
  application, or lost because publishing it failed with an error), or the device is in the
  work queue and is tried again.  If the application has no rules and publishing was
  accepted, the sink has exactly one new event, on the channel \<open>devices\<close>, that names the
  device.
\<close>

theorem device_event_handled:
  assumes "mgmt_handle mg ck (Device inst app dev uid path revision) ((n, ss), rows) = (Inr (), (n', ss'), rows')"
    and "pk wq_pk rows" and "mg_retry_full mg \<noteq> 0" and "mg_retry_failed mg \<noteq> 0"
  shows "(\<exists>r \<in> set rows'. wq_pk r = wq_key (mg_queue mg) (mg_key_string mg \<lparr>dk_application = app, dk_device = dev, dk_device_uid = uid\<rparr>))
     \<or> mg_get_app mg app = Inr None \<and> ss' = ss
     \<or> (\<exists>a resource out. mg_get_app mg app = Inr (Some a) \<and> ad_application resource = a
          \<and> ad_key resource = \<lparr>dk_application = app, dk_device = dev, dk_device_uid = uid\<rparr>
          \<and> publisher_publish (mg_sender mg) (mg_sink mg) Downstream (mg_ids mg n) (mg_clock mg n) (mgmt_publish resource) [] ss = (out, ss')
          \<and> (out = Inr Accepted \<or> (\<exists>e. out = Inl e))
          \<and> (out = Inr Accepted \<longrightarrow> processor_rules (mg_sender mg) Downstream a = Inr [] \<longrightarrow>
               (\<exists>e. ss_log ss' = ss_log ss @ [(sink_topic (mg_sender mg) (mg_sink mg) Downstream a, sink_key e, e)]
                  \<and> ce_subject e = Some ''devices'' \<and> map_of (ce_extensions e) EXT_DEVICE = Some (EVString dev))))"
proof -
  let ?key = "\<lparr>dk_application = app, dk_device = dev, dk_device_uid = uid\<rparr>"
  have base: "base_process (mg_key_string mg) (mg_queue mg) (mgmt_operation mg) ck ?key ((n, ss), rows) = (Inr (), (n', ss'), rows')"
    using assms(1) by (auto simp: mgmt_handle_def fn_event_processor_def split: prod.splits sum.splits)
  show ?thesis
  proof (cases "fst (inner_process (mgmt_operation mg) ?key (n, ss))")
    case (Inl u)
    then show ?thesis by (simp add: inner_process_def Let_def case_prod_beta)
  next
    case (Inr r)
    obtain s1 where r: "inner_process (mgmt_operation mg) ?key (n, ss) = (Inr r, s1)" using Inr by (metis prod.collapse)
    show ?thesis
    proof (cases r)
      case (Some ka)
      then obtain after where ka: "r = Some (?key, after)" using r inner_process_key by (cases ka) fastforce
      have "wq_insert (mg_queue mg) (mg_key_string mg ?key) (ck_client ck + int after) (ck_db ck) rows = Inr rows'"
        using base by (auto simp: base_process_def r ka writer_add_def split: sum.splits)
      from wq_insert_outlives[OF this assms(2)] show ?thesis by blast
    next
      case None
      then have s1: "s1 = (n', ss')" using base by (simp add: base_process_def r)
      show ?thesis
      proof (cases "mgmt_get mg ?key")
        case (Inl u)
        then show ?thesis using r None by (simp add: mgmt_inner[OF assms(3,4)])
      next
        case (Inr a)
        show ?thesis
        proof (cases a)
          case None
          then have "mg_get_app mg app = Inr None" using Inr
            by (auto simp: mgmt_get_def result_simps split: option.splits)
          moreover have "ss' = ss" using r Inr None s1 by (simp add: mgmt_inner[OF assms(3,4)])
          ultimately show ?thesis by blast
        next
          case (Some resource)
          have ev: "fst (mgmt_send_event mg resource (n, ss)) = ProcComplete ()" "snd (mgmt_send_event mg resource (n, ss)) = (n', ss')"
            using mgmt_send_event_result[OF assms(3,4), of resource "(n, ss)"] r Inr Some \<open>r = None\<close> s1
            by (auto simp: mgmt_inner[OF assms(3,4)])
          from sent_event[OF ev] mgmt_get_resource[of mg ?key resource] Inr Some show ?thesis by auto
        qed
      qed
    qed
  qed
qed

definition demo_mgmt :: mgmt_env where
  "demo_mgmt = \<lparr>mg_sender = demo_sender\<lparr>sn_publish_spec := (\<lambda>_. None)\<rparr>, mg_sink = KafkaSink False, mg_ids = nat_str, mg_clock = int,
     mg_get_app = (\<lambda>_. Inr (Some (pb_application (demo_publish ''d'')))), mg_get_device = (\<lambda>_ _. Inr None),
     mg_retry_full = 1, mg_retry_failed = 10, mg_key_string = (\<lambda>k. dk_application k @ dk_device k), mg_queue = demo_queue\<rparr>"

theorem device_event_handled_witness:
  "\<exists>ss'. mgmt_handle demo_mgmt \<lparr>ck_client = 0, ck_db = 0\<rparr> (Device ''i'' ''a'' ''d'' ''u'' ''.'' 1) ((0, demo_sender_state), [])
       = (Inr (), (1, ss'), [])
     \<and> (\<exists>e. map (\<lambda>x. snd (snd x)) (ss_log ss') = [e] \<and> map_of (ce_extensions e) EXT_DEVICE = Some (EVString ''d''))"
proof -
  let ?h = "mgmt_handle demo_mgmt \<lparr>ck_client = 0, ck_db = 0\<rparr> (Device ''i'' ''a'' ''d'' ''u'' ''.'' 1) ((0, demo_sender_state), [])"
  have sent: "fst (publisher_publish (mg_sender demo_mgmt) (KafkaSink False) Downstream i t p [] s) = Inr Accepted"
    if "pb_options p = default_options\<lparr>po_type := Some REGISTRY_TYPE_EVENT\<rparr>" for i t p s
    using that by (simp add: demo_mgmt_def demo_publish_defs Let_def)
  obtain ss' where h: "?h = (Inr (), (1, ss'), [])"
  proof -
    have "fst (mgmt_send_event demo_mgmt r (0, demo_sender_state)) = ProcComplete ()
        \<and> fst (snd (mgmt_send_event demo_mgmt r (0, demo_sender_state))) = 1" for r
      using sent[of "mgmt_publish r" "mg_ids demo_mgmt 0" "mg_clock demo_mgmt 0" demo_sender_state]
      by (simp add: mgmt_send_event_def Let_def case_prod_beta mgmt_publish_def demo_mgmt_def)
    then have "\<exists>ss'. inner_process (mgmt_operation demo_mgmt) \<lparr>dk_application = ''a'', dk_device = ''d'', dk_device_uid = ''u''\<rparr>
        (0, demo_sender_state) = (Inr None, 1, ss')"
      by (subst mgmt_inner) (simp_all add: mgmt_get_def demo_mgmt_def prod_eq_iff)
    then obtain ss' where "inner_process (mgmt_operation demo_mgmt) \<lparr>dk_application = ''a'', dk_device = ''d'', dk_device_uid = ''u''\<rparr>
        (0, demo_sender_state) = (Inr None, 1, ss')" by blast
    then show thesis by (intro that[of ss']) (simp add: mgmt_handle_def fn_event_processor_def base_process_def)
  qed
  have "\<exists>e. ss_log ss' = ss_log demo_sender_state @ [(sink_topic (mg_sender demo_mgmt) (mg_sink demo_mgmt) Downstream
      (pb_application (demo_publish ''d'')), sink_key e, e)] \<and> map_of (ce_extensions e) EXT_DEVICE = Some (EVString ''d'')"
  proof -
    have env: "mg_sink demo_mgmt = KafkaSink False" "mg_get_app demo_mgmt ''a'' = Inr (Some (pb_application (demo_publish ''d'')))"
      "processor_rules (mg_sender demo_mgmt) Downstream a = Inr []" "mg_retry_full demo_mgmt \<noteq> 0" "mg_retry_failed demo_mgmt \<noteq> 0" for a
      by (simp_all add: demo_mgmt_def processor_rules_def)
    have opts: "pb_options (mgmt_publish r) = default_options\<lparr>po_type := Some REGISTRY_TYPE_EVENT\<rparr>" for r
      by (simp add: mgmt_publish_def)
    from device_event_handled[OF h _ env(4,5)] obtain a resource out where
      "a = pb_application (demo_publish ''d'')"
      "publisher_publish (mg_sender demo_mgmt) (KafkaSink False) Downstream (mg_ids demo_mgmt 0) (mg_clock demo_mgmt 0)
         (mgmt_publish resource) [] demo_sender_state = (out, ss')"
      and imp: "out = Inr Accepted \<longrightarrow> (\<exists>e. ss_log ss' = ss_log demo_sender_state @ [(sink_topic (mg_sender demo_mgmt) (mg_sink demo_mgmt)
         Downstream a, sink_key e, e)] \<and> ce_subject e = Some ''devices'' \<and> map_of (ce_extensions e) EXT_DEVICE = Some (EVString ''d''))"
      by (simp add: env) blast
    moreover from this(2) have "out = Inr Accepted" using sent[OF opts[of resource], of "mg_ids demo_mgmt 0" "mg_clock demo_mgmt 0" demo_sender_state] by simp
    ultimately show ?thesis by blast
  qed
  then show ?thesis using h by (auto simp: demo_sender_state_def)
qed

end
