(* ===== verification/Device_Auth.thy ===== *)
theory Device_Auth
  imports Registry_Access
begin

text \<open>
  Authentication of devices: \<open>PostgresAuthenticationService\<close>
  (\<open>authentication-service/src/service.rs\<close>) over the registry tables.  The record
  \<open>authn_env\<close> holds what the service takes from crates: the typed sections of the client
  crate (\<open>None\<close> absent, \<open>Some None\<close> present but not decodable), the password hashes, PEM and
  chain verification, the validity and the order of pre-shared keys.
\<close>

section \<open>Parameters and outcomes\<close>

record authn_env =
  au_env :: env
  au_core :: "json smap \<Rightarrow> bool option option"
  au_authentication :: "json smap \<Rightarrow> credential list option option"
  au_gateway_selector :: "json smap \<Rightarrow> string list option"
  au_trust_anchors :: "json smap \<Rightarrow> anchor_entry list option"
  au_key_authentication :: string
  au_key_credentials :: string
  au_bcrypt_verify :: "string \<Rightarrow> string \<Rightarrow> bool"
  au_sha512_check :: "string \<Rightarrow> string \<Rightarrow> bool"
  au_read_pem :: "string \<Rightarrow> string option"
  au_root_ok :: "string \<Rightarrow> bool"
  au_verify_chain :: "string \<Rightarrow> string \<Rightarrow> string list \<Rightarrow> timestamp \<Rightarrow> bool"
  au_is_valid :: "timestamp \<times> timestamp \<Rightarrow> timestamp \<Rightarrow> bool"
  au_psk_rank :: "pre_shared_key \<Rightarrow> int"

datatype request_credential =
    RPassword string
  | RUsernamePassword string string
  | RCertificate "string list"

record authn_request =
  rq_application :: string
  rq_device :: string
  rq_credential :: request_credential
  rq_as :: "string option"

datatype authn_outcome =
    Pass api_application api_device "api_device option"
  | Fail

datatype psk_outcome = PskFound api_application api_device pre_shared_key | PskNotFound

datatype gateway_outcome = GatewayPass api_device | GatewayFail

section \<open>Checks\<close>

definition strip_credentials :: "authn_env \<Rightarrow> api_device \<Rightarrow> api_device" where
  "strip_credentials au device = device\<lparr>pd_spec :=
     AList.delete (au_key_credentials au) (AList.delete (au_key_authentication au) (pd_spec device))\<rparr>"

definition pass :: "authn_env \<Rightarrow> api_application \<Rightarrow> api_device \<Rightarrow> api_device option \<Rightarrow> authn_outcome" where
  "pass au application device as_device =
     Pass application (strip_credentials au device) (map_option (strip_credentials au) as_device)"

definition validate_app :: "authn_env \<Rightarrow> api_application \<Rightarrow> bool" where
  "validate_app au app =
     (if pa_deletion_timestamp app \<noteq> None then False
      else case au_core au (pa_spec app) of
        Some (Some disabled) \<Rightarrow> \<not> disabled
      | Some None \<Rightarrow> False
      | None \<Rightarrow> True)"

fun psk_of :: "credential \<Rightarrow> pre_shared_key option" where
  "psk_of (CPreSharedKey key) = Some key"
| "psk_of _ = None"

definition locate_psk :: "authn_env \<Rightarrow> timestamp \<Rightarrow> api_device \<Rightarrow> pre_shared_key option" where
  "locate_psk au now device =
     (if pd_deletion_timestamp device \<noteq> None then None
      else case au_authentication au (pd_spec device) of
        Some (Some credentials) \<Rightarrow>
          (let candidates = filter (\<lambda>k. case psk_validity k of Some v \<Rightarrow> au_is_valid au v now | None \<Rightarrow> True)
                              (List.map_filter psk_of credentials);
               candidates = sort_key (au_psk_rank au) candidates
           in case candidates of [] \<Rightarrow> None | k # _ \<Rightarrow> Some k)
      | _ \<Rightarrow> None)"

fun password_matches :: "authn_env \<Rightarrow> password \<Rightarrow> string \<Rightarrow> bool" where
  "password_matches au (Plain plain) provided = (plain = provided)"
| "password_matches au (BCrypt hashed) provided = au_bcrypt_verify au provided hashed"
| "password_matches au (Sha512 hashed) provided = au_sha512_check au provided hashed"

definition validate_password ::
  "authn_env \<Rightarrow> api_device \<Rightarrow> credential list \<Rightarrow> string \<Rightarrow> string \<Rightarrow> bool" where
  "validate_password au device credentials provided_device provided_password =
     list_ex (\<lambda>c. case c of
         CPassword stored_password \<Rightarrow> password_matches au stored_password provided_password
       | CUsernamePassword stored_username stored_password unique \<Rightarrow>
           (if unique \<and> stored_username = provided_device
            then password_matches au stored_password provided_password
            else if \<not> unique \<and> stored_username = pd_name device
            then password_matches au stored_password provided_password
            else False)
       | _ \<Rightarrow> False) credentials"

definition validate_username_password ::
  "authn_env \<Rightarrow> api_device \<Rightarrow> credential list \<Rightarrow> string \<Rightarrow> string \<Rightarrow> bool" where
  "validate_username_password au device credentials provided_username provided_password =
     list_ex (\<lambda>c. case c of
         CPassword stored_password \<Rightarrow>
           (if provided_username = pd_name device
            then password_matches au stored_password provided_password else False)
       | CUsernamePassword stored_username stored_password _ \<Rightarrow>
           stored_username = provided_username \<and> password_matches au stored_password provided_password
       | _ \<Rightarrow> False) credentials"

fun validate_trust_anchor :: "authn_env \<Rightarrow> timestamp \<Rightarrow> string list \<Rightarrow> anchor_entry \<Rightarrow> bool" where
  "validate_trust_anchor au now presented_certs (Valid subject certificate not_before not_after) =
     (if presented_certs = [] then False
      else if now < not_before then False
      else if now > not_after then False
      else case au_read_pem au certificate of
        None \<Rightarrow> False
      | Some der \<Rightarrow>
          if \<not> au_root_ok au der then False
          else au_verify_chain au der (last presented_certs) (butlast presented_certs) now)"
| "validate_trust_anchor au now presented_certs (Invalid _ _) = False"

definition validate_certificate ::
  "authn_env \<Rightarrow> timestamp \<Rightarrow> api_application \<Rightarrow> string list \<Rightarrow> bool" where
  "validate_certificate au now app provided_chain =
     (if provided_chain = [] then False
      else case au_trust_anchors au (pa_status app) of
        Some anchors \<Rightarrow> list_ex (validate_trust_anchor au now provided_chain) anchors
      | None \<Rightarrow> False)"

definition validate_credential ::
  "authn_env \<Rightarrow> timestamp \<Rightarrow> api_application \<Rightarrow> api_device \<Rightarrow> string \<Rightarrow> request_credential \<Rightarrow> bool" where
  "validate_credential au now app device provided_device cred =
     (if pd_deletion_timestamp device \<noteq> None then False
      else case au_authentication au (pd_spec device) of
        Some None \<Rightarrow> False
      | auth \<Rightarrow>
          let authentication = (case auth of Some (Some a) \<Rightarrow> a | _ \<Rightarrow> []) in
          (case cred of
             RPassword provided_password \<Rightarrow>
               validate_password au device authentication provided_device provided_password
           | RUsernamePassword provided_username provided_password \<Rightarrow>
               validate_username_password au device authentication provided_username provided_password
           | RCertificate chain \<Rightarrow> validate_certificate au now app chain))"

section \<open>The service\<close>

definition validate_gateway ::
  "authn_env \<Rightarrow> string \<Rightarrow> registry \<Rightarrow> api_application \<Rightarrow> api_device \<Rightarrow> service_error + authn_outcome" where
  "validate_gateway au as_id db application device =
     rbind (dev_lookup (pa_name application) as_id db) (\<lambda>as_device. Inr
       (case as_device of
          Some as_device \<Rightarrow>
            if dev_deletion_timestamp as_device = None
            then let as_manage = device_to_api (au_env au) as_device in
              (case au_gateway_selector au (pd_spec as_manage) of
                 Some match_names \<Rightarrow>
                   if pd_name device \<in> set match_names then pass au application device (Some as_manage)
                   else Fail
               | None \<Rightarrow> Fail)
            else Fail
        | None \<Rightarrow> Fail))"

definition request_key ::
  "authn_env \<Rightarrow> timestamp \<Rightarrow> string \<Rightarrow> string \<Rightarrow> registry \<Rightarrow> service_error + psk_outcome" where
  "request_key au now app_alias dev_alias db =
     rbind (app_lookup app_alias db) (\<lambda>application.
       case application of
         None \<Rightarrow> Inr PskNotFound
       | Some application \<Rightarrow>
           let application = app_to_api (au_env au) application in
           if \<not> validate_app au application then Inr PskNotFound
           else rbind (dev_lookup (pa_name application) dev_alias db) (\<lambda>device.
             case device of
               None \<Rightarrow> Inr PskNotFound
             | Some device \<Rightarrow>
                 let device = device_to_api (au_env au) device in
                 (case locate_psk au now device of
                    Some key \<Rightarrow> Inr (PskFound application (strip_credentials au device) key)
                  | None \<Rightarrow> Inr PskNotFound)))"

definition authenticate ::
  "authn_env \<Rightarrow> timestamp \<Rightarrow> authn_request \<Rightarrow> registry \<Rightarrow> service_error + authn_outcome" where
  "authenticate au now request db =
     rbind (app_lookup (rq_application request) db) (\<lambda>application.
       case application of
         None \<Rightarrow> Inr Fail
       | Some application \<Rightarrow>
           let application = app_to_api (au_env au) application in
           if \<not> validate_app au application then Inr Fail
           else rbind (dev_lookup (pa_name application) (rq_device request) db) (\<lambda>device.
             case device of
               None \<Rightarrow> Inr Fail
             | Some device \<Rightarrow>
                 let device = device_to_api (au_env au) device in
                 if validate_credential au now application device (rq_device request) (rq_credential request)
                 then (case rq_as request of
                         Some as_id \<Rightarrow>
                           if as_id \<noteq> rq_device request
                           then validate_gateway au as_id db application device
                           else Inr (pass au application device None)
                       | None \<Rightarrow> Inr (pass au application device None))
                 else Inr Fail))"

definition authorize_gateway ::
  "authn_env \<Rightarrow> string \<Rightarrow> string \<Rightarrow> string \<Rightarrow> registry \<Rightarrow> service_error + gateway_outcome" where
  "authorize_gateway au app_alias device as_id db =
     rbind (app_lookup app_alias db) (\<lambda>application.
       case application of
         None \<Rightarrow> Inr GatewayFail
       | Some application \<Rightarrow>
           let application = app_to_api (au_env au) application in
           if \<not> validate_app au application then Inr GatewayFail
           else (case dev_get (env_collate (au_env au)) (pa_name application) device LockNone db of
             None \<Rightarrow> Inr GatewayFail
           | Some device \<Rightarrow>
               rbind (validate_gateway au as_id db application (device_to_api (au_env au) device)) (\<lambda>out.
                 Inr (case out of
                        Pass _ _ (Some as_dev) \<Rightarrow> GatewayPass as_dev
                      | _ \<Rightarrow> GatewayFail))))"

section \<open>Aliases\<close>

text \<open>A join through a unique alias yields at most one row.\<close>

lemma concat_if_filter: "concat (map (\<lambda>b. if P b then [b] else []) ys) = filter P ys"
  by (induction ys) auto

lemma concat_if_pk:
  assumes "pk key xs"
  shows "concat (map (\<lambda>a. if key a = k then g a else []) xs) =
     (case lookup_row key k xs of None \<Rightarrow> [] | Some a \<Rightarrow> g a)"
  using assms
proof (induction xs)
  case (Cons x xs)
  show ?case
  proof (cases "key x = k")
    case True
    with Cons.prems have "concat (map (\<lambda>a. if key a = k then g a else []) xs) = []"
      by (auto simp: image_iff)
    with True show ?thesis by (simp add: lookup_row_def)
  qed (use Cons in \<open>simp add: lookup_row_def\<close>)
qed (simp add: lookup_row_def)

definition app_by_alias :: "string \<Rightarrow> registry \<Rightarrow> application option" where
  "app_by_alias alias db = map_option app_from_row
     (Option.bind (lookup_row aa_ALIAS alias (r_app_aliases db))
       (\<lambda>a. lookup_row ar_NAME (aa_APP a) (r_applications db)))"

definition dev_by_alias :: "string \<Rightarrow> string \<Rightarrow> registry \<Rightarrow> device option" where
  "dev_by_alias app alias db = map_option dev_from_row
     (Option.bind (lookup_row (\<lambda>r. (da_ALIAS r, da_APP r)) (alias, app) (r_dev_aliases db))
       (\<lambda>a. lookup_row (\<lambda>r. (dr_NAME r, dr_APP r)) (da_DEVICE a, app) (r_devices db)))"

lemma app_lookup_eq:
  assumes "reg_inv db"
  shows "app_lookup alias db = Inr (app_by_alias alias db)"
proof -
  have keys: "pk aa_ALIAS (r_app_aliases db)" "pk ar_NAME (r_applications db)"
    using assms by (simp_all add: reg_inv_defs)
  have inner: "concat (map (\<lambda>a2. if aa_APP a1 = ar_NAME a2 \<and> aa_ALIAS a1 = alias then [a2] else []) (r_applications db)) =
      (if aa_ALIAS a1 = alias then filter (\<lambda>r. ar_NAME r = aa_APP a1) (r_applications db) else [])" for a1
    by (simp add: concat_if_filter eq_commute cong: filter_cong)
  have "[a2. a1 \<leftarrow> r_app_aliases db, a2 \<leftarrow> r_applications db, aa_APP a1 = ar_NAME a2 \<and> aa_ALIAS a1 = alias] =
      (case lookup_row aa_ALIAS alias (r_app_aliases db) of None \<Rightarrow> []
       | Some a \<Rightarrow> filter (\<lambda>r. ar_NAME r = aa_APP a) (r_applications db))"
    unfolding inner by (rule concat_if_pk[OF keys(1)])
  then show ?thesis
    unfolding app_lookup_def app_by_alias_def
    by (auto simp: filter_pk[OF keys(2)] split: option.splits)
qed

lemma dev_lookup_eq:
  assumes "reg_inv db"
  shows "dev_lookup app alias db = Inr (dev_by_alias app alias db)"
proof -
  let ?ka = "\<lambda>r. (da_ALIAS r, da_APP r)" and ?kd = "\<lambda>r. (dr_NAME r, dr_APP r)"
  have keys: "pk ?ka (r_dev_aliases db)" "pk ?kd (r_devices db)"
    using assms by (simp_all add: reg_inv_defs)
  have inner: "concat (map (\<lambda>d. if da_DEVICE a = dr_NAME d \<and> da_APP a = dr_APP d \<and> da_APP a = app
        \<and> da_ALIAS a = alias then [d] else []) (r_devices db)) =
      (if ?ka a = (alias, app) then filter (\<lambda>r. ?kd r = (da_DEVICE a, app)) (r_devices db) else [])" for a
    by (auto simp: concat_if_filter filter_empty_conv intro!: filter_cong)
  have "[d. a \<leftarrow> r_dev_aliases db, d \<leftarrow> r_devices db, da_DEVICE a = dr_NAME d \<and> da_APP a = dr_APP d
        \<and> da_APP a = app \<and> da_ALIAS a = alias] =
      (case lookup_row ?ka (alias, app) (r_dev_aliases db) of None \<Rightarrow> []
       | Some a \<Rightarrow> filter (\<lambda>r. ?kd r = (da_DEVICE a, app)) (r_devices db))"
    unfolding inner by (rule concat_if_pk[OF keys(1)])
  then show ?thesis
    unfolding dev_lookup_def dev_by_alias_def
    by (auto simp: filter_pk[OF keys(2)] simp del: prod.inject split: option.splits)
qed

section \<open>Properties\<close>

lemma dev_by_alias_app: "dev_by_alias app alias db = Some d \<Longrightarrow> dev_application d = app"
  by (auto simp: dev_by_alias_def bind_eq_Some_conv dev_from_row_def dest: lookup_row_SomeD)

text \<open>The device on whose behalf a gateway may act.\<close>

definition may_act_as :: "authn_env \<Rightarrow> registry \<Rightarrow> string \<Rightarrow> string \<Rightarrow> string \<Rightarrow> device \<Rightarrow> bool" where
  "may_act_as au db app gateway as_id t \<longleftrightarrow> dev_by_alias app as_id db = Some t
     \<and> dev_deletion_timestamp t = None
     \<and> (\<exists>names. au_gateway_selector au (pd_spec (device_to_api (au_env au) t)) = Some names \<and> gateway \<in> set names)"

lemma validate_gateway_eq:
  assumes "reg_inv db"
  shows "validate_gateway au as_id db a d =
     Inr (case dev_by_alias (pa_name a) as_id db of
            Some t \<Rightarrow> if may_act_as au db (pa_name a) (pd_name d) as_id t
                     then pass au a d (Some (device_to_api (au_env au) t)) else Fail
          | None \<Rightarrow> Fail)"
  by (auto simp: validate_gateway_def dev_lookup_eq[OF assms] may_act_as_def Let_def split: option.splits)

lemma validate_app_iff:
  "validate_app au (app_to_api (au_env au) app) \<longleftrightarrow> app_deletion_timestamp app = None
     \<and> (au_core au (pa_spec (app_to_api (au_env au) app)) = None
       \<or> au_core au (pa_spec (app_to_api (au_env au) app)) = Some (Some False))"
  by (auto simp: validate_app_def app_to_api_def split: option.splits)

lemma authenticate_cases:
  assumes "reg_inv db"
  shows "\<exists>out. authenticate au now rq db = Inr out \<and>
     (out = Pass a d as_dev \<longleftrightarrow>
       (\<exists>app dev. app_by_alias (rq_application rq) db = Some app \<and> a = app_to_api (au_env au) app
          \<and> validate_app au (app_to_api (au_env au) app)
          \<and> dev_by_alias (app_name app) (rq_device rq) db = Some dev
          \<and> validate_credential au now a (device_to_api (au_env au) dev) (rq_device rq) (rq_credential rq)
          \<and> d = strip_credentials au (device_to_api (au_env au) dev)
          \<and> (if rq_as rq = None \<or> rq_as rq = Some (rq_device rq) then as_dev = None
             else \<exists>t. may_act_as au db (app_name app) (dev_name dev) (the (rq_as rq)) t
               \<and> as_dev = Some (strip_credentials au (device_to_api (au_env au) t)))))"
proof (cases "app_by_alias (rq_application rq) db")
  case None
  then show ?thesis by (simp add: authenticate_def app_lookup_eq[OF assms])
next
  case (Some app)
  note app = this
  have names: "pa_name (app_to_api (au_env au) app) = app_name app"
    "\<And>dev. pd_name (device_to_api (au_env au) dev) = dev_name dev"
    by (simp_all add: app_to_api_def device_to_api_def)
  show ?thesis
  proof (cases "dev_by_alias (app_name app) (rq_device rq) db")
    case None
    then show ?thesis
      using app by (simp add: authenticate_def app_lookup_eq[OF assms] dev_lookup_eq[OF assms] names Let_def)
  next
    case (Some dev)
    then show ?thesis
      using app
      by (auto simp: authenticate_def app_lookup_eq[OF assms] dev_lookup_eq[OF assms] names Let_def
          validate_gateway_eq[OF assms] pass_def may_act_as_def split: option.splits)
  qed
qed

text \<open>
  C9. A device is authenticated exactly if its alias names a device of an application that
  is neither being deleted nor disabled, the credentials are valid for that device, and, if
  it acts for another device, that one exists, is not being deleted and lists it as a
  gateway.  Database errors do not occur: aliases are unique.
\<close>

theorem authenticate_pass_iff:
  assumes "reg_inv db"
  shows "\<exists>out. authenticate au now rq db = Inr out \<and>
     (out = Pass a d as_dev \<longleftrightarrow>
       (\<exists>app dev. app_by_alias (rq_application rq) db = Some app \<and> a = app_to_api (au_env au) app
          \<and> app_deletion_timestamp app = None
          \<and> (au_core au (pa_spec (app_to_api (au_env au) app)) = None
             \<or> au_core au (pa_spec (app_to_api (au_env au) app)) = Some (Some False))
          \<and> dev_by_alias (app_name app) (rq_device rq) db = Some dev
          \<and> validate_credential au now a (device_to_api (au_env au) dev) (rq_device rq) (rq_credential rq)
          \<and> d = strip_credentials au (device_to_api (au_env au) dev)
          \<and> (if rq_as rq = None \<or> rq_as rq = Some (rq_device rq) then as_dev = None
             else \<exists>t. may_act_as au db (app_name app) (dev_name dev) (the (rq_as rq)) t
               \<and> as_dev = Some (strip_credentials au (device_to_api (au_env au) t)))))"
  using authenticate_cases[OF assms] unfolding validate_app_iff conj_assoc .

definition demo_authn :: authn_env where
  "demo_authn = \<lparr>au_env = demo_env, au_core = (\<lambda>_. None),
     au_authentication = (\<lambda>spec. if map_of spec ''credentials'' = None then None
        else Some (Some [CPassword (Plain ''pw'')])),
     au_gateway_selector = (\<lambda>_. None), au_trust_anchors = (\<lambda>_. None),
     au_key_authentication = ''authentication'', au_key_credentials = ''credentials'',
     au_bcrypt_verify = (\<lambda>_ _. False), au_sha512_check = (\<lambda>_ _. False), au_read_pem = (\<lambda>_. None),
     au_root_ok = (\<lambda>_. False), au_verify_chain = (\<lambda>_ _ _ _. False), au_is_valid = (\<lambda>v t. fst v \<le> t \<and> t \<le> snd v),
     au_psk_rank = (\<lambda>k. case psk_validity k of Some v \<Rightarrow> fst v | None \<Rightarrow> 0)\<rparr>"

definition demo_authn_db :: registry where
  "demo_authn_db = \<lparr>r_applications = [demo_app (Some ''x'')],
     r_app_aliases = [\<lparr>aa_TYPE = ''name'', aa_ALIAS = ''a'', aa_APP = ''a''\<rparr>],
     r_devices = [\<lparr>dr_APP = ''a'', dr_NAME = ''d'', dr_UID = 11, dr_LABELS = Some [], dr_ANNOTATIONS = Some [],
        dr_CREATION_TIMESTAMP = 0, dr_GENERATION = 1, dr_REVISION = 3, dr_RESOURCE_VERSION = 13,
        dr_DELETION_TIMESTAMP = None, dr_FINALIZERS = [],
        dr_DATA = sections_value [(''credentials'', Null)] []\<rparr>],
     r_dev_aliases = [\<lparr>da_APP = ''a'', da_DEVICE = ''d'', da_TYPE = ''name'', da_ALIAS = ''d''\<rparr>]\<rparr>"

lemma demo_authn_inv: "reg_inv demo_authn_db"
  by (simp add: demo_authn_db_def demo_app_def reg_inv_defs app_wf_from_row dev_wf_from_row sections_value_def)

definition demo_rq :: authn_request where
  "demo_rq = \<lparr>rq_application = ''a'', rq_device = ''d'', rq_credential = RPassword ''pw'', rq_as = None\<rparr>"

theorem authenticate_pass_iff_witness:
  "\<exists>a d. authenticate demo_authn 0 demo_rq demo_authn_db = Inr (Pass a d None)
     \<and> (\<exists>app dev. app_by_alias ''a'' demo_authn_db = Some app \<and> a = app_to_api demo_env app
          \<and> dev_by_alias (app_name app) ''d'' demo_authn_db = Some dev)"
proof -
  have "(case authenticate demo_authn 0 demo_rq demo_authn_db of Inr (Pass a d None) \<Rightarrow> True | _ \<Rightarrow> False)"
    by code_simp
  then obtain a d where "authenticate demo_authn 0 demo_rq demo_authn_db = Inr (Pass a d None)"
    by (auto split: sum.splits authn_outcome.splits option.splits)
  with authenticate_pass_iff[OF demo_authn_inv, of demo_authn 0 demo_rq a d None] show ?thesis
    by (auto simp: demo_rq_def demo_authn_def)
qed

lemma strip_credentials_spec [simp]:
  "map_of (pd_spec (strip_credentials au d)) (au_key_credentials au) = None"
  "map_of (pd_spec (strip_credentials au d)) (au_key_authentication au) = None"
  by (simp_all add: strip_credentials_def delete_conv')

definition hides_credentials :: "authn_env \<Rightarrow> api_device \<Rightarrow> bool" where
  "hides_credentials au d \<longleftrightarrow> map_of (pd_spec d) (au_key_credentials au) = None
     \<and> map_of (pd_spec d) (au_key_authentication au) = None"

lemma hides_strip [simp]: "hides_credentials au (strip_credentials au d)"
  by (simp add: hides_credentials_def)

lemma validate_gateway_hides:
  "validate_gateway au as_id db a d = Inr (Pass a' d' t) \<Longrightarrow>
     hides_credentials au d' \<and> (\<forall>x. t = Some x \<longrightarrow> hides_credentials au x)"
  by (cases "dev_lookup (pa_name a) as_id db")
    (auto simp: validate_gateway_def Let_def pass_def split: option.splits if_splits)

text \<open>The first steps of every operation: the application, its check, and the rest on it.\<close>

lemma app_step:
  assumes "rbind (app_lookup alias db) (\<lambda>app. case app of None \<Rightarrow> Inr none
       | Some app \<Rightarrow> let a = app_to_api (au_env au) app in if \<not> validate_app au a then Inr none else rest a) = Inr out"
    and "out \<noteq> none"
  obtains app where "rest (app_to_api (au_env au) app) = Inr out"
  using assms by (cases "app_lookup alias db") (auto simp: Let_def split: option.splits if_splits)

lemma dev_step:
  assumes "rbind (dev_lookup app alias db) (\<lambda>dev. case dev of None \<Rightarrow> Inr none
       | Some dev \<Rightarrow> let d = device_to_api (au_env au) dev in rest d) = Inr out"
    and "out \<noteq> none"
  obtains dev where "rest (device_to_api (au_env au) dev) = Inr out"
  using assms by (cases "dev_lookup app alias db") (auto simp: Let_def split: option.splits)

text \<open>
  C11. No credentials leave the service: in every answer of the three operations, each
  device record, of the device itself and of the one it acts for, has neither of the two
  sections that hold credentials.
\<close>

theorem answers_hide_credentials:
  "(authenticate au now rq db = Inr (Pass a d t) \<longrightarrow>
      hides_credentials au d \<and> (\<forall>x. t = Some x \<longrightarrow> hides_credentials au x))
   \<and> (request_key au now app_alias dev_alias db = Inr (PskFound a d key) \<longrightarrow> hides_credentials au d)
   \<and> (authorize_gateway au app_alias device as_id db = Inr (GatewayPass g) \<longrightarrow> hides_credentials au g)"
proof (intro conjI impI)
  assume "authenticate au now rq db = Inr (Pass a d t)"
  then show "hides_credentials au d" "\<forall>x. t = Some x \<longrightarrow> hides_credentials au x"
    unfolding authenticate_def
    by (auto simp: pass_def elim!: app_step dev_step dest!: validate_gateway_hides
        split: option.splits if_splits)
next
  assume "request_key au now app_alias dev_alias db = Inr (PskFound a d key)"
  then show "hides_credentials au d"
    unfolding request_key_def by (auto elim!: app_step dev_step split: option.splits)
next
  assume "authorize_gateway au app_alias device as_id db = Inr (GatewayPass g)"
  then show "hides_credentials au g"
    unfolding authorize_gateway_def
  proof (rule app_step)
    fix app
    let ?a = "app_to_api (au_env au) app"
    assume res: "(case dev_get (env_collate (au_env au)) (pa_name ?a) device LockNone db of
        None \<Rightarrow> Inr GatewayFail
      | Some device \<Rightarrow> rbind (validate_gateway au as_id db ?a (device_to_api (au_env au) device))
          (\<lambda>out. Inr (case out of Pass _ _ (Some as_dev) \<Rightarrow> GatewayPass as_dev | _ \<Rightarrow> GatewayFail))) =
      Inr (GatewayPass g)"
    then obtain d where "dev_get (env_collate (au_env au)) (pa_name ?a) device LockNone db = Some d"
      by (auto split: option.splits)
    with res show ?thesis
      by (cases "validate_gateway au as_id db ?a (device_to_api (au_env au) d)")
        (auto dest!: validate_gateway_hides split: authn_outcome.splits option.splits)
  qed simp
qed

theorem answers_hide_credentials_witness:
  "\<exists>a d. authenticate demo_authn 0 demo_rq demo_authn_db = Inr (Pass a d None)
     \<and> map_of (pd_spec d) ''credentials'' = None"
proof -
  have "(case authenticate demo_authn 0 demo_rq demo_authn_db of Inr (Pass a d None) \<Rightarrow> True | _ \<Rightarrow> False)"
    by code_simp
  then obtain a d where "authenticate demo_authn 0 demo_rq demo_authn_db = Inr (Pass a d None)"
    by (auto split: sum.splits authn_outcome.splits option.splits)
  with answers_hide_credentials[of demo_authn 0 demo_rq demo_authn_db a d None] show ?thesis
    by (auto simp: hides_credentials_def demo_authn_def)
qed

definition psk_usable :: "authn_env \<Rightarrow> timestamp \<Rightarrow> api_device \<Rightarrow> pre_shared_key \<Rightarrow> bool" where
  "psk_usable au now d k \<longleftrightarrow> pd_deletion_timestamp d = None
     \<and> (\<exists>creds. au_authentication au (pd_spec d) = Some (Some creds) \<and> CPreSharedKey k \<in> set creds)
     \<and> (\<forall>v. psk_validity k = Some v \<longrightarrow> au_is_valid au v now)"

lemma psk_of_Some: "psk_of c = Some k \<longleftrightarrow> c = CPreSharedKey k"
  by (cases c) auto

lemma sort_key_hd:
  "sort_key f xs = k # ks \<Longrightarrow> k \<in> set xs \<and> (\<forall>x \<in> set xs. f k \<le> f x)"
  by (metis list.set_intros(1) set_ConsD set_sort sorted_sort_key list.simps(9) order_refl sorted_wrt.simps(2)
      image_eqI list.set_map)

text \<open>
  The pre-shared key handed out is one that the device has and that is valid now, and
  none of the other valid ones comes before it; no key is returned only if there is none.
\<close>

theorem locate_psk_best:
  "case locate_psk au now d of
     Some k \<Rightarrow> psk_usable au now d k \<and> (\<forall>k'. psk_usable au now d k' \<longrightarrow> au_psk_rank au k \<le> au_psk_rank au k')
   | None \<Rightarrow> \<forall>k. \<not> psk_usable au now d k"
proof (cases "pd_deletion_timestamp d = None \<and> (\<exists>creds. au_authentication au (pd_spec d) = Some (Some creds))")
  case False
  then have "locate_psk au now d = None"
    by (auto simp: locate_psk_def split: option.splits)
  moreover have "\<not> psk_usable au now d k" for k using False by (auto simp: psk_usable_def)
  ultimately show ?thesis by simp
next
  case True
  then obtain creds where creds: "au_authentication au (pd_spec d) = Some (Some creds)" by blast
  let ?ks = "filter (\<lambda>k. case psk_validity k of Some v \<Rightarrow> au_is_valid au v now | None \<Rightarrow> True)
    (List.map_filter psk_of creds)"
  have "set (List.map_filter psk_of creds) = {k. CPreSharedKey k \<in> set creds}"
    by (induction creds) (auto simp: List.map_filter_simps psk_of_Some split: option.splits)
  then have usable: "k \<in> set ?ks \<longleftrightarrow> psk_usable au now d k" for k
    using True creds by (auto simp: psk_usable_def split: option.splits)
  have loc: "locate_psk au now d = (case sort_key (au_psk_rank au) ?ks of [] \<Rightarrow> None | k # _ \<Rightarrow> Some k)"
    using True creds by (simp add: locate_psk_def Let_def)
  show ?thesis
  proof (cases "sort_key (au_psk_rank au) ?ks")
    case Nil
    then have "set ?ks = {}" by (metis set_sort set_empty)
    with loc Nil usable show ?thesis by auto
  next
    case (Cons k ks)
    then have "locate_psk au now d = Some k" using loc by simp
    moreover have "k \<in> set ?ks" "\<forall>x \<in> set ?ks. au_psk_rank au k \<le> au_psk_rank au x"
      using sort_key_hd[OF Cons] by blast+
    ultimately show ?thesis unfolding usable Ball_def by simp
  qed
qed

definition demo_psk_authn :: authn_env where
  "demo_psk_authn = demo_authn\<lparr>au_authentication := (\<lambda>_. Some (Some
     [CPreSharedKey \<lparr>psk_key = ''k1'', psk_validity = Some (5, 9)\<rparr>,
      CPreSharedKey \<lparr>psk_key = ''k2'', psk_validity = Some (1, 9)\<rparr>]))\<rparr>"

theorem locate_psk_best_witness:
  "locate_psk demo_psk_authn 6 (device_to_api demo_env (dev_from_row (hd (r_devices demo_authn_db)))) = Some \<lparr>psk_key = ''k2'', psk_validity = Some (1, 9)\<rparr>
   \<and> psk_usable demo_psk_authn 6 (device_to_api demo_env (dev_from_row (hd (r_devices demo_authn_db)))) \<lparr>psk_key = ''k2'', psk_validity = Some (1, 9)\<rparr>"
proof -
  have "locate_psk demo_psk_authn 6 (device_to_api demo_env (dev_from_row (hd (r_devices demo_authn_db)))) = Some \<lparr>psk_key = ''k2'', psk_validity = Some (1, 9)\<rparr>"
    by code_simp
  with locate_psk_best[of demo_psk_authn 6 "device_to_api demo_env (dev_from_row (hd (r_devices demo_authn_db)))"] show ?thesis by simp
qed

text \<open>
  A gateway that is being deleted is refused by \<open>authenticate\<close>, whatever its
  credentials, but \<open>authorize_gateway\<close> does not look at its deletion mark and lets it act for
  every device that lists it.
\<close>

theorem deleted_gateway_still_authorized:
  assumes "reg_inv db" and "app_by_alias app_alias db = Some app"
    and "validate_app au (app_to_api (au_env au) app)"
    and "dev_get (env_collate (au_env au)) (app_name app) n LockNone db = Some gw"
    and "dev_deletion_timestamp gw \<noteq> None"
    and "may_act_as au db (app_name app) (dev_name gw) as_id t"
  shows "authorize_gateway au app_alias n as_id db = Inr (GatewayPass (strip_credentials au (device_to_api (au_env au) t)))
     \<and> (\<forall>now alias cred. dev_by_alias (app_name app) alias db = Some gw \<longrightarrow>
          authenticate au now \<lparr>rq_application = app_alias, rq_device = alias, rq_credential = cred, rq_as = Some as_id\<rparr> db
            = Inr Fail)"
proof -
  have names: "pa_name (app_to_api (au_env au) app) = app_name app"
    "pd_name (device_to_api (au_env au) gw) = dev_name gw"
    "pd_deletion_timestamp (device_to_api (au_env au) gw) \<noteq> None"
    using assms(5) by (simp_all add: app_to_api_def device_to_api_def)
  have t: "dev_by_alias (app_name app) as_id db = Some t" using assms(6) by (simp add: may_act_as_def)
  show ?thesis
    using assms(2-4,6) t names
    by (simp add: authorize_gateway_def authenticate_def app_lookup_eq[OF assms(1)] dev_lookup_eq[OF assms(1)]
        validate_gateway_eq[OF assms(1)] validate_credential_def Let_def pass_def)
qed

definition demo_gateway_db :: registry where
  "demo_gateway_db = demo_authn_db\<lparr>r_devices := map (\<lambda>r. r\<lparr>dr_DELETION_TIMESTAMP := Some 1\<rparr>) (r_devices demo_authn_db)
       @ [(hd (r_devices demo_authn_db))\<lparr>dr_NAME := ''e''\<rparr>],
     r_dev_aliases := r_dev_aliases demo_authn_db @ [\<lparr>da_APP = ''a'', da_DEVICE = ''e'', da_TYPE = ''name'', da_ALIAS = ''e''\<rparr>]\<rparr>"

theorem deleted_gateway_still_authorized_witness:
  "\<exists>g. authorize_gateway (demo_authn\<lparr>au_gateway_selector := (\<lambda>_. Some [''d''])\<rparr>) ''a'' ''d'' ''e'' demo_gateway_db = Inr (GatewayPass g)
     \<and> authenticate (demo_authn\<lparr>au_gateway_selector := (\<lambda>_. Some [''d''])\<rparr>) 0
         \<lparr>rq_application = ''a'', rq_device = ''d'', rq_credential = RPassword ''pw'', rq_as = Some ''e''\<rparr> demo_gateway_db = Inr Fail"
proof -
  let ?au = "demo_authn\<lparr>au_gateway_selector := (\<lambda>_. Some [''d''])\<rparr>"
  let ?app = "app_from_row (demo_app (Some ''x''))"
  let ?gw = "dev_from_row ((hd (r_devices demo_authn_db))\<lparr>dr_DELETION_TIMESTAMP := Some 1\<rparr>)"
  let ?t = "dev_from_row ((hd (r_devices demo_authn_db))\<lparr>dr_NAME := ''e''\<rparr>)"
  note defs = demo_gateway_db_def demo_authn_db_def demo_app_def
  have inv: "reg_inv demo_gateway_db"
    by (simp add: defs reg_inv_defs app_wf_from_row dev_wf_from_row sections_value_def)
  have "app_by_alias ''a'' demo_gateway_db = Some ?app"
    by (simp add: app_by_alias_def defs lookup_row_def)
  moreover have "validate_app ?au (app_to_api (au_env ?au) ?app)"
    by (simp add: validate_app_def app_to_api_def app_from_row_def demo_app_def demo_authn_def)
  moreover have "dev_get (env_collate (au_env ?au)) (app_name ?app) ''d'' LockNone demo_gateway_db = Some ?gw"
    using inv by (simp add: dev_get_eq reg_inv_defs defs lookup_row_def app_from_row_def)
  moreover have "dev_deletion_timestamp ?gw \<noteq> None" by (simp add: dev_from_row_def)
  moreover have "may_act_as ?au demo_gateway_db (app_name ?app) (dev_name ?gw) ''e'' ?t"
    by (simp add: may_act_as_def dev_by_alias_def defs lookup_row_def app_from_row_def dev_from_row_def)
  moreover have "dev_by_alias (app_name ?app) ''d'' demo_gateway_db = Some ?gw"
    by (simp add: dev_by_alias_def defs lookup_row_def app_from_row_def)
  ultimately show ?thesis
    using deleted_gateway_still_authorized[OF inv] by blast
qed

end
