(* ===== verification/Endpoint_Auth.thy ===== *)
theory Endpoint_Auth
  imports Device_Auth
begin

text \<open>
  The authenticator of the endpoints (\<open>endpoint-common/src/auth.rs\<close>, \<open>psk.rs\<close>): which
  credentials of a request count, and the request for the authentication service that they
  become.

  Parameters: the calls of the service, percent decoding, base64 and the names in a
  certificate.
\<close>

section \<open>Credentials in a request\<close>

datatype auth_client_error = AuthClient string | AuthRequest string

record verified_identity =
  vi_application :: api_application
  vi_device :: api_device

record endpoint_env =
  en_decode :: "string \<Rightarrow> string"
  en_header_text :: "string \<Rightarrow> string option"
  en_base64 :: "string \<Rightarrow> string option"
  en_utf8 :: "string \<Rightarrow> string option"
  en_parse_cert :: "string \<Rightarrow> string + (string \<times> string)"
  en_authenticate :: "authn_request \<Rightarrow> auth_client_error + authn_outcome"
  en_request_psk :: "string \<Rightarrow> string \<Rightarrow> auth_client_error + psk_outcome"
  en_authorize_as :: "string \<Rightarrow> string \<Rightarrow> string \<Rightarrow> auth_client_error + gateway_outcome"

datatype username = Scoped (un_scope: string) (un_device: string) | NonScoped string

definition username_from :: "endpoint_env \<Rightarrow> string \<Rightarrow> username" where
  "username_from env s =
     (case split_once (CHR 0x40) s of
        Some (device, scope) \<Rightarrow> Scoped scope (en_decode env device)
      | None \<Rightarrow> NonScoped s)"

fun into_string :: "username \<Rightarrow> string" where
  "into_string (NonScoped s) = s"
| "into_string (Scoped scope device) = scope @ [CHR 0x40] @ device"

datatype auth_value = ValueBasic username string | ValueBearer string | ValueUnknown

definition auth_value_from :: "endpoint_env \<Rightarrow> string \<Rightarrow> auth_value" where
  "auth_value_from env header =
     (case en_header_text env header of
        None \<Rightarrow> ValueUnknown
      | Some value \<Rightarrow>
          (case split_once (CHR '' '') value of
             None \<Rightarrow> ValueUnknown
           | Some (scheme, v) \<Rightarrow>
               if scheme = ''Basic'' then
                 (case en_base64 env v of
                    None \<Rightarrow> ValueUnknown
                  | Some v \<Rightarrow>
                      (case split_once (CHR '':'') v of
                         Some (username, password) \<Rightarrow> ValueBasic (username_from env username) password
                       | None \<Rightarrow> ValueUnknown))
               else if scheme = ''Bearer'' then ValueBearer v
               else ValueUnknown))"

definition identity_parse :: "string \<Rightarrow> (string \<times> string) option" where
  "identity_parse s = map_option (\<lambda>(d, a). (a, d)) (split_once (CHR 0x40) s)"

text \<open>
  The callback of the TLS handshake in the HTTP and CoAP endpoints: the key that is copied to
  the buffer, and the identity that is attached to the connection.
\<close>

definition psk_callback :: "endpoint_env \<Rightarrow> nat \<Rightarrow> string option \<Rightarrow> string \<times> verified_identity option" where
  "psk_callback env capacity identity =
     (case Option.bind identity (en_utf8 env) of
        None \<Rightarrow> ([], None)
      | Some identity \<Rightarrow>
          (case identity_parse identity of
             None \<Rightarrow> ([], None)
           | Some (app, device) \<Rightarrow>
               (case en_request_psk env app device of
                  Inr (PskFound app device key) \<Rightarrow>
                    (let to_copy = min (length (psk_key key)) capacity
                     in (take to_copy (psk_key key), Some \<lparr>vi_application = app, vi_device = device\<rparr>))
                | _ \<Rightarrow> ([], None))))"

section \<open>Authentication\<close>

definition auth_call ::
  "endpoint_env \<Rightarrow> string \<Rightarrow> string \<Rightarrow> request_credential \<Rightarrow> string option \<Rightarrow> auth_client_error + authn_outcome" where
  "auth_call env application device credential as_id =
     en_authenticate env \<lparr>rq_application = application, rq_device = device, rq_credential = credential, rq_as = as_id\<rparr>"

definition device_cert :: "endpoint_env \<Rightarrow> string list \<Rightarrow> auth_client_error + (string \<times> string)" where
  "device_cert env certs =
     (case certs of
        cert # _ \<Rightarrow>
          (case en_parse_cert env cert of
             Inl err \<Rightarrow> Inl (AuthRequest (''Failed to parse client certificate: '' @ err))
           | Inr names \<Rightarrow> Inr names)
      | [] \<Rightarrow> Inl (AuthRequest ''Empty client certificate chain''))"

text \<open>The parsed certificate is its issuer, the application, and its subject, the device.\<close>

definition ids_from_cert :: "endpoint_env \<Rightarrow> string list \<Rightarrow> auth_client_error + (string \<times> string)" where
  "ids_from_cert env certs = rbind (device_cert env certs) (\<lambda>(issuer, subject). Inr (issuer, subject))"

definition authenticate_cert :: "endpoint_env \<Rightarrow> string list \<Rightarrow> auth_client_error + authn_outcome" where
  "authenticate_cert env certs =
     rbind (ids_from_cert env certs) (\<lambda>(app_id, device_id).
       auth_call env app_id device_id (RCertificate certs) None)"

definition authenticate_verified_identity :: "verified_identity \<Rightarrow> auth_client_error + authn_outcome" where
  "authenticate_verified_identity identity = Inr (Pass (vi_application identity) (vi_device identity) None)"

definition authenticate_http ::
  "endpoint_env \<Rightarrow> string option \<Rightarrow> string option \<Rightarrow> string option \<Rightarrow> string list option \<Rightarrow> verified_identity option
    \<Rightarrow> string option \<Rightarrow> auth_client_error + authn_outcome" where
  "authenticate_http env application device auth certs identity as_id =
     (case (application, device, map_option (auth_value_from env) auth, certs, identity) of
        (None, None, Some (ValueBasic (Scoped scope device) password), None, None) \<Rightarrow>
          auth_call env scope device (RPassword password) as_id
      | (Some scope, None, Some (ValueBasic username password), None, None) \<Rightarrow>
          auth_call env scope (into_string username) (RPassword password) as_id
      | (Some scope, Some device, Some (ValueBasic username password), None, None) \<Rightarrow>
          auth_call env scope device (RUsernamePassword (into_string username) password) as_id
      | (None, Some device, Some (ValueBasic (Scoped scope username) password), None, None) \<Rightarrow>
          auth_call env scope device (RUsernamePassword username password) as_id
      | (None, None, None, Some certs, None) \<Rightarrow> authenticate_cert env certs
      | (None, None, None, None, Some identity) \<Rightarrow> authenticate_verified_identity identity
      | _ \<Rightarrow> Inr Fail)"

definition authenticate_coap ::
  "endpoint_env \<Rightarrow> string option \<Rightarrow> string option \<Rightarrow> string option \<Rightarrow> string list option \<Rightarrow> verified_identity option
    \<Rightarrow> auth_client_error + authn_outcome" where
  "authenticate_coap env application device auth certs identity =
     (case (application, device, map_option (auth_value_from env) auth, certs, identity) of
        (None, None, Some (ValueBasic (Scoped scope device) password), None, None) \<Rightarrow>
          auth_call env scope device (RPassword password) None
      | (Some scope, None, Some (ValueBasic username password), None, None) \<Rightarrow>
          auth_call env scope (into_string username) (RPassword password) None
      | (Some scope, Some device, Some (ValueBasic username password), None, None) \<Rightarrow>
          auth_call env scope device (RUsernamePassword (into_string username) password) None
      | (None, Some device, Some (ValueBasic (Scoped scope username) password), None, None) \<Rightarrow>
          auth_call env scope device (RUsernamePassword username password) None
      | (None, None, None, Some certs, None) \<Rightarrow> authenticate_cert env certs
      | (None, None, None, None, Some identity) \<Rightarrow> authenticate_verified_identity identity
      | _ \<Rightarrow> Inr Fail)"

definition authenticate_mqtt ::
  "endpoint_env \<Rightarrow> string option \<Rightarrow> string option \<Rightarrow> string \<Rightarrow> string list option \<Rightarrow> verified_identity option
    \<Rightarrow> auth_client_error + authn_outcome" where
  "authenticate_mqtt env username password client_id certs identity =
     (case (map_option (username_from env) username, password, username_from env client_id, certs, identity) of
        (Some (Scoped scope device), Some password, _, None, None) \<Rightarrow>
          auth_call env scope device (RPassword password) None
      | (Some (NonScoped username), Some password, Scoped scope device, None, None) \<Rightarrow>
          auth_call env scope device (RUsernamePassword username password) None
      | (None, None, _, Some certs, None) \<Rightarrow> authenticate_cert env certs
      | (None, None, _, None, Some identity) \<Rightarrow> authenticate_verified_identity identity
      | _ \<Rightarrow> Inr Fail)"

section \<open>What an authenticated device has proven\<close>

text \<open>What the answers of the service mean, when there are any.\<close>

definition talks_to :: "endpoint_env \<Rightarrow> authn_env \<Rightarrow> timestamp \<Rightarrow> registry \<Rightarrow> bool" where
  "talks_to env au now db \<longleftrightarrow>
     (\<forall>rq out. en_authenticate env rq = Inr out \<longrightarrow> authenticate au now rq db = Inr out)
     \<and> (\<forall>app dev out. en_request_psk env app dev = Inr out \<longrightarrow> request_key au now app dev db = Inr out)
     \<and> (\<forall>app dev as_id out. en_authorize_as env app dev as_id = Inr out \<longrightarrow> authorize_gateway au app dev as_id db = Inr out)"

text \<open>
  An application and device of the registry, found under the names that are given for them, as
  they are handed to the endpoints.
\<close>

definition registered ::
  "authn_env \<Rightarrow> registry \<Rightarrow> string \<Rightarrow> api_application \<Rightarrow> string \<Rightarrow> device \<Rightarrow> api_device \<Rightarrow> bool" where
  "registered au db app_alias a alias dev d \<longleftrightarrow> (\<exists>app. app_by_alias app_alias db = Some app \<and> a = app_to_api (au_env au) app
     \<and> validate_app au a \<and> dev_by_alias (app_name app) alias db = Some dev
     \<and> d = strip_credentials au (device_to_api (au_env au) dev))"

text \<open>
  What a request claims: the application and device it names, and the credential it presents
  for them, in terms of the texts it consists of.  \<open>name_at\<close> is \<open>name@scope\<close>, the parts
  before and after the first at sign; \<open>basic_header\<close> is the header with user name and password.
\<close>

definition name_at :: "string \<Rightarrow> string \<Rightarrow> string \<Rightarrow> bool" where
  "name_at s name scope \<longleftrightarrow> s = name @ CHR 0x40 # scope \<and> CHR 0x40 \<notin> set name"

definition basic_header :: "endpoint_env \<Rightarrow> string option \<Rightarrow> string \<Rightarrow> string \<Rightarrow> bool" where
  "basic_header env auth user pw \<longleftrightarrow> (\<exists>header v. auth = Some header \<and> en_header_text env header = Some (''Basic '' @ v)
     \<and> en_base64 env v = Some (user @ CHR '':'' # pw) \<and> CHR '':'' \<notin> set user)"

text \<open>
  The user name that stands for itself, when the application is named elsewhere.  With an at
  sign its parts are turned around (\<open>scoped_username_swapped\<close> below).
\<close>

definition whole_name :: "endpoint_env \<Rightarrow> string \<Rightarrow> string \<Rightarrow> bool" where
  "whole_name env user u \<longleftrightarrow> (if CHR 0x40 \<notin> set user then u = user
     else \<exists>name scope. name_at user name scope \<and> u = scope @ CHR 0x40 # en_decode env name)"

definition cert_claim :: "endpoint_env \<Rightarrow> string list \<Rightarrow> string \<Rightarrow> string \<Rightarrow> bool" where
  "cert_claim env cs app dev \<longleftrightarrow> (\<exists>cert rest. cs = cert # rest \<and> en_parse_cert env cert = Inr (app, dev))"

text \<open>
  HTTP and CoAP: the application is the one of the query, otherwise the scope of the user
  name.  With a device in the query the user name is part of the credential, otherwise it is
  the device.
\<close>

fun http_claim ::
  "endpoint_env \<Rightarrow> string option \<Rightarrow> string option \<Rightarrow> string option \<Rightarrow> string list option
    \<Rightarrow> string \<Rightarrow> string \<Rightarrow> request_credential \<Rightarrow> bool" where
  "http_claim env application device auth certs app dev (RPassword pw) \<longleftrightarrow> certs = None \<and> device = None
     \<and> (\<exists>user. basic_header env auth user pw \<and> (case application of
          Some x \<Rightarrow> app = x \<and> whole_name env user dev
        | None \<Rightarrow> \<exists>name. name_at user name app \<and> dev = en_decode env name))"
| "http_claim env application device auth certs app dev (RUsernamePassword u pw) \<longleftrightarrow> certs = None \<and> device = Some dev
     \<and> (\<exists>user. basic_header env auth user pw \<and> (case application of
          Some x \<Rightarrow> app = x \<and> whole_name env user u
        | None \<Rightarrow> \<exists>name. name_at user name app \<and> u = en_decode env name))"
| "http_claim env application device auth certs app dev (RCertificate cs) \<longleftrightarrow> certs = Some cs
     \<and> application = None \<and> device = None \<and> auth = None \<and> cert_claim env cs app dev"

text \<open>
  MQTT: a user name \<open>device@application\<close> names both; otherwise the client id does, and the
  user name is part of the credential.
\<close>

fun mqtt_claim ::
  "endpoint_env \<Rightarrow> string option \<Rightarrow> string option \<Rightarrow> string \<Rightarrow> string list option
    \<Rightarrow> string \<Rightarrow> string \<Rightarrow> request_credential \<Rightarrow> bool" where
  "mqtt_claim env username password client_id certs app dev (RPassword pw) \<longleftrightarrow> certs = None \<and> password = Some pw
     \<and> (\<exists>user name. username = Some user \<and> name_at user name app \<and> dev = en_decode env name)"
| "mqtt_claim env username password client_id certs app dev (RUsernamePassword u pw) \<longleftrightarrow> certs = None \<and> password = Some pw
     \<and> username = Some u \<and> CHR 0x40 \<notin> set u \<and> (\<exists>name. name_at client_id name app \<and> dev = en_decode env name)"
| "mqtt_claim env username password client_id certs app dev (RCertificate cs) \<longleftrightarrow> certs = Some cs
     \<and> username = None \<and> password = None \<and> cert_claim env cs app dev"

text \<open>The identity of a TLS handshake with a pre-shared key: \<open>device@application\<close>.\<close>

definition psk_claim :: "endpoint_env \<Rightarrow> string option \<Rightarrow> string \<Rightarrow> string \<Rightarrow> bool" where
  "psk_claim env bytes app dev \<longleftrightarrow> (\<exists>raw identity. bytes = Some raw \<and> en_utf8 env raw = Some identity \<and> name_at identity dev app)"

text \<open>
  The application and device are those that are claimed, the credential is valid for the
  device under the name it was claimed by, and another device is named only if the registry
  lets the device act for it.  A client certificate speaks for its own device only.
\<close>

definition proven ::
  "authn_env \<Rightarrow> timestamp \<Rightarrow> registry \<Rightarrow> (string \<Rightarrow> string \<Rightarrow> request_credential \<Rightarrow> bool) \<Rightarrow> string option
    \<Rightarrow> api_application \<Rightarrow> api_device \<Rightarrow> api_device option \<Rightarrow> bool" where
  "proven au now db claim as_id a d as_dev \<longleftrightarrow>
     (\<exists>app_alias alias dev c. claim app_alias alias c \<and> registered au db app_alias a alias dev d
        \<and> validate_credential au now a (device_to_api (au_env au) dev) alias c
        \<and> (case as_dev of
             None \<Rightarrow> as_id = None \<or> as_id = Some alias \<or> (\<exists>cs. c = RCertificate cs)
           | Some d' \<Rightarrow> \<exists>x t. as_id = Some x \<and> may_act_as au db (pa_name a) (pd_name d) x t
               \<and> d' = strip_credentials au (device_to_api (au_env au) t)))"

lemma strip_name [simp]: "pd_name (strip_credentials au d) = pd_name d"
  by (simp add: strip_credentials_def)

lemma auth_call_proven:
  assumes "reg_inv db" and "talks_to env au now db" and "auth_call env app dev c as_id = Inr (Pass a d as_dev)"
    and "claim app dev c"
  shows "proven au now db claim as_id a d as_dev"
proof -
  let ?rq = "\<lparr>rq_application = app, rq_device = dev, rq_credential = c, rq_as = as_id\<rparr>"
  have "authenticate au now ?rq db = Inr (Pass a d as_dev)"
    using assms(2,3) by (simp add: talks_to_def auth_call_def)
  then obtain ap dv where *: "app_by_alias app db = Some ap" "a = app_to_api (au_env au) ap" "validate_app au a"
      "dev_by_alias (app_name ap) dev db = Some dv" "d = strip_credentials au (device_to_api (au_env au) dv)"
      "validate_credential au now a (device_to_api (au_env au) dv) dev c"
      "if as_id = None \<or> as_id = Some dev then as_dev = None
       else \<exists>t. may_act_as au db (app_name ap) (dev_name dv) (the as_id) t
         \<and> as_dev = Some (strip_credentials au (device_to_api (au_env au) t))"
    using authenticate_cases[OF assms(1), of au now ?rq a d as_dev] by (auto cong: if_cong)
  have "registered au db app a dev dv d" using * by (auto simp: registered_def)
  moreover have "pa_name a = app_name ap" "pd_name d = dev_name dv"
    using * by (simp_all add: app_to_api_def device_to_api_def)
  ultimately show ?thesis
    unfolding proven_def using *(6,7) assms(4)
    by (intro exI[of _ app] exI[of _ dev] exI[of _ dv] exI[of _ c]) (auto split: if_splits option.splits)
qed

lemma authenticate_cert_call:
  assumes "authenticate_cert env cs = Inr out"
  shows "\<exists>app dev. cert_claim env cs app dev \<and> auth_call env app dev (RCertificate cs) None = Inr out"
  using assms
  by (auto simp: authenticate_cert_def ids_from_cert_def device_cert_def cert_claim_def result_simps split: list.splits sum.splits)

lemma authenticate_cert_proven:
  assumes "reg_inv db" and "talks_to env au now db" and "authenticate_cert env cs = Inr (Pass a d as_dev)"
    and "\<And>app dev. cert_claim env cs app dev \<Longrightarrow> claim app dev (RCertificate cs)"
  shows "proven au now db claim as_id a d as_dev"
proof -
  obtain app dev where c: "cert_claim env cs app dev" "auth_call env app dev (RCertificate cs) None = Inr (Pass a d as_dev)"
    using authenticate_cert_call[OF assms(3)] by blast
  let ?claim = "\<lambda>x y c. claim x y c \<and> c = RCertificate cs"
  have "proven au now db ?claim None a d as_dev"
    using auth_call_proven[OF assms(1,2) c(2), of ?claim] assms(4)[OF c(1)] by simp
  then show ?thesis unfolding proven_def by (auto split: option.splits) metis
qed

text \<open>
  The identity that the handshake attached names a device of the registry, and the secret of
  the handshake is the key of that device.
\<close>

definition holds_key ::
  "authn_env \<Rightarrow> timestamp \<Rightarrow> registry \<Rightarrow> (string \<Rightarrow> string \<Rightarrow> bool) \<Rightarrow> nat \<Rightarrow> string \<Rightarrow> api_application \<Rightarrow> api_device \<Rightarrow> bool" where
  "holds_key au now db claim n secret a d \<longleftrightarrow> (\<exists>app_alias alias dev key. claim app_alias alias
     \<and> registered au db app_alias a alias dev d
     \<and> locate_psk au now (device_to_api (au_env au) dev) = Some key \<and> secret = take n (psk_key key))"

lemma request_key_found:
  assumes "reg_inv db" and "request_key au now app dev db = Inr (PskFound a d key)"
  shows "\<exists>dv. registered au db app a dev dv d \<and> locate_psk au now (device_to_api (au_env au) dv) = Some key"
proof -
  have n: "pa_name (app_to_api e x) = app_name x" for e x by (simp add: app_to_api_def)
  show ?thesis
    using assms(2)
    by (auto simp: request_key_def app_lookup_eq[OF assms(1)] dev_lookup_eq[OF assms(1)] n Let_def registered_def
        split: option.splits if_splits)
qed

lemma name_at_split: "name_at s name scope \<longleftrightarrow> split_once (CHR 0x40) s = Some (name, scope)"
  by (simp add: name_at_def split_once_eq_Some)

lemma identity_parse_claim:
  "Option.bind (Option.bind bytes (en_utf8 env)) identity_parse = Some (app, dev) \<longleftrightarrow> psk_claim env bytes app dev"
  by (auto simp: psk_claim_def identity_parse_def bind_eq_Some_conv name_at_split)

lemma psk_callback_holds:
  assumes "reg_inv db" and "talks_to env au now db" and "psk_callback env n bytes = (secret, Some vi)"
  shows "holds_key au now db (psk_claim env bytes) n secret (vi_application vi) (vi_device vi)"
proof -
  obtain identity app dev a d key where k: "Option.bind bytes (en_utf8 env) = Some identity" "identity_parse identity = Some (app, dev)"
      "en_request_psk env app dev = Inr (PskFound a d key)"
      "secret = take (min (length (psk_key key)) n) (psk_key key)" "vi = \<lparr>vi_application = a, vi_device = d\<rparr>"
    using assms(3)
    by (auto simp: psk_callback_def Let_def split: option.splits prod.splits sum.splits psk_outcome.splits)
  have "secret = take n (psk_key key)" using k(4) by (simp add: min_def)
  moreover have "psk_claim env bytes app dev" using k(1,2) by (simp add: identity_parse_claim[symmetric])
  moreover have "request_key au now app dev db = Inr (PskFound a d key)" using assms(2) k(3) by (simp add: talks_to_def)
  ultimately show ?thesis using request_key_found[OF assms(1)] k(5) by (fastforce simp: holds_key_def)
qed

lemma username_from_cases:
  "username_from env s = Scoped scope device \<longleftrightarrow> (\<exists>name. name_at s name scope \<and> device = en_decode env name)"
  "username_from env s = NonScoped u \<longleftrightarrow> CHR 0x40 \<notin> set s \<and> u = s"
  by (auto simp: username_from_def name_at_split split_once_eq_None[symmetric] split: option.splits)

lemma into_string_whole: "whole_name env s (into_string (username_from env s))"
  by (auto simp: whole_name_def username_from_def name_at_split split_once_eq_None[symmetric] split: option.splits)

lemma auth_value_basic:
  assumes "map_option (auth_value_from env) auth = Some (ValueBasic u pw)"
  shows "\<exists>user. basic_header env auth user pw \<and> u = username_from env user"
proof -
  obtain header where "auth = Some header" "auth_value_from env header = ValueBasic u pw" using assms by auto
  then show ?thesis
    by (auto simp: auth_value_from_def basic_header_def split_once_eq_Some split: option.splits if_splits)
qed

lemma http_pass_cases:
  assumes "authenticate_http env application device auth certs identity as_id = Inr (Pass a d as_dev)"
  obtains (password) app dev c where "auth_call env app dev c as_id = Inr (Pass a d as_dev)"
      "http_claim env application device auth certs app dev c" "identity = None"
  | (cert) cs where "authenticate_cert env cs = Inr (Pass a d as_dev)" "certs = Some cs"
      "application = None" "device = None" "auth = None" "identity = None"
  | (psk) vi where "identity = Some vi" "a = vi_application vi" "d = vi_device vi" "as_dev = None" "auth = None" "certs = None"
proof (cases "map_option (auth_value_from env) auth")
  case None
  then show thesis
    using assms cert psk
    by (auto simp: authenticate_http_def authenticate_verified_identity_def split: option.splits)
next
  case (Some v)
  then obtain u pw where v: "v = ValueBasic u pw" and id: "identity = None" "certs = None"
    using assms by (auto simp: authenticate_http_def split: option.splits auth_value.splits username.splits)
  from auth_value_basic[OF Some[unfolded v]] obtain user where user: "basic_header env auth user pw" "u = username_from env user"
    by blast
  have whole: "whole_name env user (into_string u)" using user(2) into_string_whole by simp
  have auth: "authenticate_http env application device auth certs identity as_id =
      (case (application, device, u) of
         (None, None, Scoped scope x) \<Rightarrow> auth_call env scope x (RPassword pw) as_id
       | (Some scope, None, _) \<Rightarrow> auth_call env scope (into_string u) (RPassword pw) as_id
       | (Some scope, Some dev, _) \<Rightarrow> auth_call env scope dev (RUsernamePassword (into_string u) pw) as_id
       | (None, Some dev, Scoped scope x) \<Rightarrow> auth_call env scope dev (RUsernamePassword x pw) as_id
       | _ \<Rightarrow> Inr Fail)"
    unfolding authenticate_http_def Some v id by (simp split: option.split username.split)
  show thesis
  proof (cases application)
    case None
    then obtain scope x where u: "u = Scoped scope x" using assms unfolding auth by (auto split: option.splits username.splits)
    then have sc: "\<exists>name. name_at user name scope \<and> x = en_decode env name"
      using user(2) username_from_cases(1) by metis
    show thesis
      using assms None u sc user(1) id password[of scope x "RPassword pw"] password[of scope "the device" "RUsernamePassword x pw"]
      unfolding auth by (cases device) auto
  next
    case (Some app)
    show thesis
      using assms Some whole user(1) id password[of app "into_string u" "RPassword pw"]
        password[of app "the device" "RUsernamePassword (into_string u) pw"]
      unfolding auth by (cases device) auto
  qed
qed

lemma coap_http:
  "authenticate_coap env application device auth certs identity =
   authenticate_http env application device auth certs identity None"
  by (simp add: authenticate_coap_def authenticate_http_def)

lemma mqtt_pass_cases:
  assumes "authenticate_mqtt env username password client_id certs identity = Inr (Pass a d as_dev)"
  obtains (password) app dev c where "auth_call env app dev c None = Inr (Pass a d as_dev)"
      "mqtt_claim env username password client_id certs app dev c" "identity = None"
  | (cert) cs where "authenticate_cert env cs = Inr (Pass a d as_dev)" "certs = Some cs"
      "username = None" "password = None" "identity = None"
  | (psk) vi where "identity = Some vi" "a = vi_application vi" "d = vi_device vi" "as_dev = None"
      "username = None" "password = None" "certs = None"
proof (cases username)
  case None
  then show thesis
    using assms cert psk
    by (auto simp: authenticate_mqtt_def authenticate_verified_identity_def split: option.splits)
next
  case (Some user)
  then obtain pw where id: "password = Some pw" "identity = None" "certs = None"
    using assms by (auto simp: authenticate_mqtt_def split: option.splits username.splits)
  show thesis
  proof (cases "username_from env user")
    case (Scoped scope device)
    then have "\<exists>name. name_at user name scope \<and> device = en_decode env name" using username_from_cases(1) by blast
    then show thesis
      using assms Some id Scoped by (intro password[of scope device "RPassword pw"]) (simp_all add: authenticate_mqtt_def)
  next
    case (NonScoped u)
    then obtain scope device where c: "username_from env client_id = Scoped scope device"
      using assms Some id by (auto simp: authenticate_mqtt_def split: username.splits)
    then have "\<exists>name. name_at client_id name scope \<and> device = en_decode env name" using username_from_cases(1) by blast
    moreover have "CHR 0x40 \<notin> set user" "u = user" using NonScoped username_from_cases(2) by blast+
    ultimately show thesis
      using assms Some id NonScoped c
      by (intro password[of scope device "RUsernamePassword u pw"]) (simp_all add: authenticate_mqtt_def)
  qed
qed

text \<open>
  Whoever is authenticated by the HTTP or CoAP endpoint has proven what it claims: by
  credentials of the request that are valid for the device it names, or by the key of the TLS
  handshake, and then the request has no other credentials.
\<close>

definition accepted_as ::
  "authn_env \<Rightarrow> timestamp \<Rightarrow> registry \<Rightarrow> (string \<Rightarrow> string \<Rightarrow> request_credential \<Rightarrow> bool)
    \<Rightarrow> timestamp \<Rightarrow> registry \<Rightarrow> (string \<Rightarrow> string \<Rightarrow> bool) \<Rightarrow> nat \<Rightarrow> string
    \<Rightarrow> verified_identity option \<Rightarrow> string option \<Rightarrow> api_application \<Rightarrow> api_device \<Rightarrow> api_device option \<Rightarrow> bool" where
  "accepted_as au now db claim now0 db0 handshake n secret identity as_id a d as_dev \<longleftrightarrow>
     (if identity = None then proven au now db claim as_id a d as_dev
      else holds_key au now0 db0 handshake n secret a d \<and> as_dev = None \<and> (\<forall>app dev c. \<not> claim app dev c))"

lemma no_claim: "\<not> http_claim env application device None None app dev c"
  by (cases c) (simp_all add: basic_header_def)

lemma pass_is_proven:
  assumes "reg_inv db" and "talks_to env au now db" and "reg_inv db0" and "talks_to env0 au now0 db0"
    and "identity = None \<or> psk_callback env0 n bytes = (secret, identity)"
    and "authenticate_http env application device auth certs identity as_id = Inr (Pass a d as_dev)
       \<or> as_id = None \<and> authenticate_coap env application device auth certs identity = Inr (Pass a d as_dev)"
  shows "accepted_as au now db (http_claim env application device auth certs) now0 db0 (psk_claim env0 bytes) n secret
     identity as_id a d as_dev"
proof -
  have "authenticate_http env application device auth certs identity as_id = Inr (Pass a d as_dev)"
    using assms(6) coap_http by auto
  then show ?thesis
  proof (cases rule: http_pass_cases)
    case (password app dev c)
    then show ?thesis using auth_call_proven[OF assms(1,2) password(1), of "http_claim env application device auth certs"]
      by (simp add: accepted_as_def)
  next
    case (cert cs)
    then show ?thesis using authenticate_cert_proven[OF assms(1,2) cert(1)] by (simp add: accepted_as_def)
  next
    case (psk vi)
    then show ?thesis
      using psk_callback_holds[OF assms(3,4), of n bytes secret vi] assms(5) by (simp add: accepted_as_def no_claim)
  qed
qed

definition demo_authenticator :: endpoint_env where
  "demo_authenticator = \<lparr>en_decode = (\<lambda>s. s), en_header_text = Some, en_base64 = Some, en_utf8 = Some,
     en_parse_cert = (\<lambda>_. Inl []),
     en_authenticate = (\<lambda>rq. case authenticate demo_authn 0 rq demo_authn_db of Inr out \<Rightarrow> Inr out | Inl _ \<Rightarrow> Inl (AuthClient [])),
     en_request_psk = (\<lambda>_ _. Inl (AuthClient [])), en_authorize_as = (\<lambda>_ _ _. Inl (AuthClient []))\<rparr>"

lemma demo_authenticator_talks: "talks_to demo_authenticator demo_authn 0 demo_authn_db"
  by (auto simp: talks_to_def demo_authenticator_def split: sum.splits)

lemma demo_authenticator_pass:
  "\<exists>a d. authenticate_http demo_authenticator None None (Some ''Basic d@a:pw'') None None None = Inr (Pass a d None)"
proof -
  have "(case authenticate_http demo_authenticator None None (Some ''Basic d@a:pw'') None None None of
       Inr (Pass a d None) \<Rightarrow> True | _ \<Rightarrow> False)"
    by code_simp
  then show ?thesis by (auto split: sum.splits authn_outcome.splits option.splits)
qed

text \<open>
  A user name with an at sign is turned around: with the application given in the query,
  the user \<open>device@scope\<close> of the credentials is looked up as \<open>scope@device\<close>, in the HTTP and
  the CoAP endpoint.
\<close>

lemma scoped_username_swapped:
  assumes "CHR 0x40 \<notin> set dev" and "auth_value_from env header = ValueBasic (username_from env (dev @ CHR 0x40 # scope)) pw"
  shows "authenticate_http env (Some app) None (Some header) None None as_id =
      auth_call env app (scope @ CHR 0x40 # en_decode env dev) (RPassword pw) as_id"
proof -
  have "split_once (CHR 0x40) (dev @ CHR 0x40 # scope) = Some (dev, scope)"
    using assms(1) by (auto simp: split_once_eq_Some)
  then show ?thesis using assms(2) by (simp add: authenticate_http_def username_from_def)
qed

end
