(* ===== verification/Http_Endpoint.thy ===== *)
theory Http_Endpoint
  imports Endpoint_Auth Commands
begin

text \<open>
  The HTTP endpoint (\<open>http-endpoint/src\<close>): publishing a message of a device, waiting for a
  command to send back with the answer, and the uplink messages of The Things Network.

  A request runs beside others: what they do to the dispatcher of commands while the event
  is published and while the request waits is part of its input, as are the identifier and
  the time of the event and the random numbers.  The TTN messages are decoded by a library.
\<close>

section \<open>Errors and answers\<close>

datatype endpoint_error =
    InvalidFormat string
  | InvalidRequest string
  | ConfigurationError string
  | AuthenticationServiceError string
  | AuthenticationError

fun endpoint_error_text :: "endpoint_error \<Rightarrow> string" where
  "endpoint_error_text (InvalidFormat source) = ''Invalid data format: '' @ source"
| "endpoint_error_text (InvalidRequest details) = ''Invalid data: '' @ details"
| "endpoint_error_text (ConfigurationError details) = ''Endpoint configuration error: '' @ details"
| "endpoint_error_text (AuthenticationServiceError source) = ''Failed to authenticate: '' @ source"
| "endpoint_error_text AuthenticationError = ''Authentication failed''"

fun endpoint_error_name :: "endpoint_error \<Rightarrow> string" where
  "endpoint_error_name (InvalidFormat _) = ''InvalidFormat''"
| "endpoint_error_name (InvalidRequest _) = ''InvalidRequest''"
| "endpoint_error_name (ConfigurationError _) = ''ConfigurationError''"
| "endpoint_error_name (AuthenticationServiceError _) = ''AuthenticationServiceError''"
| "endpoint_error_name AuthenticationError = ''AuthenticationError''"

fun http_status_code :: "endpoint_error \<Rightarrow> nat" where
  "http_status_code (InvalidFormat _) = 400"
| "http_status_code (InvalidRequest _) = 400"
| "http_status_code (ConfigurationError _) = 500"
| "http_status_code (AuthenticationServiceError _) = 503"
| "http_status_code AuthenticationError = 403"

datatype http_body = BodyEmpty | BodyBytes string | BodyJson json

record http_answer =
  ha_status :: nat
  ha_command :: "string option"
  ha_body :: http_body

definition http_error_response :: "endpoint_error \<Rightarrow> http_answer" where
  "http_error_response err =
     \<lparr>ha_status = http_status_code err, ha_command = None,
      ha_body = BodyJson (Object [(''code'', Number (nat_str (http_status_code err))),
        (''error'', String (endpoint_error_name err)), (''message'', String (endpoint_error_text err))])\<rparr>"

fun publish_error_text :: "publish_error \<Rightarrow> string" where
  "publish_error_text (PubSink _) = ''Sink error''"
| "publish_error_text PubSpec = ''Publish spec error''"
| "publish_error_text PubEvent = ''Build event error''"
| "publish_error_text (PubProcessor _) = ''Process error''"

section \<open>Waiting for a command\<close>

text \<open>
  The steps both endpoints take: subscribe, receive the first command of the channel, if one
  arrives in time, and unsubscribe; the receiver is dropped with the subscription.
\<close>

definition await_command ::
  "topic_env \<Rightarrow> (nat \<Rightarrow> u64) \<Rightarrow> command_op list \<Rightarrow> command_filter \<Rightarrow> hub \<Rightarrow> (command option \<times> hub) option" where
  "await_command te rnd waiting filt hub =
     Option.bind (subscribe te filt rnd hub) (\<lambda>((receiver, handle), hub).
     Option.bind (run_commands te waiting hub) (\<lambda>hub.
       let cmd = (case hb_queue hub receiver of [] \<Rightarrow> None | c # _ \<Rightarrow> Some c);
           hub = unsubscribe handle hub
       in Some (cmd, hub\<lparr>hb_closed := receiver # hb_closed hub\<rparr>)))"

definition http_accepted :: http_answer where
  "http_accepted = \<lparr>ha_status = 202, ha_command = None, ha_body = BodyEmpty\<rparr>"

definition http_command :: "command \<Rightarrow> http_answer" where
  "http_command cmd = \<lparr>ha_status = 200, ha_command = Some (cd_command cmd),
     ha_body = BodyBytes (case cd_payload cmd of Some p \<Rightarrow> p | None \<Rightarrow> [])\<rparr>"

definition http_wait_for_command ::
  "topic_env \<Rightarrow> (nat \<Rightarrow> u64) \<Rightarrow> command_op list \<Rightarrow> command_filter \<Rightarrow> u64 option \<Rightarrow> hub \<Rightarrow> (http_answer \<times> hub) option" where
  "http_wait_for_command te rnd waiting filt ttd hub =
     (case ttd of
        Some ttd \<Rightarrow>
          if ttd > 0
          then map_option (\<lambda>(cmd, hub). (case cmd of Some cmd \<Rightarrow> http_command cmd | None \<Rightarrow> http_accepted, hub))
            (await_command te rnd waiting filt hub)
          else Some (http_accepted, hub)
      | None \<Rightarrow> Some (http_accepted, hub))"

section \<open>Publishing\<close>

record endpoint_app =
  ea_auth :: endpoint_env
  ea_sender :: sender_env
  ea_sink :: sink
  ea_topics :: topic_env
  ea_client_text :: "auth_client_error \<Rightarrow> string"

record request_run =
  rr_id :: string
  rr_now :: timestamp
  rr_random :: "nat \<Rightarrow> u64"
  rr_publishing :: "command_op list"
  rr_waiting :: "command_op list"

record endpoint_state =
  es_sender :: sender_state
  es_hub :: hub

record publish_query =
  pq_application :: "string option"
  pq_device :: "string option"
  pq_data_schema :: "string option"
  pq_as :: "string option"
  pq_ct :: "u64 option"

record http_call =
  hc_authorization :: "string option"
  hc_content_type :: "string option"
  hc_body :: string
  hc_certs :: "string list option"
  hc_identity :: "verified_identity option"

text \<open>Publishing takes time: the other requests go on in the meantime.\<close>

definition endpoint_publish ::
  "endpoint_app \<Rightarrow> request_run \<Rightarrow> publish \<Rightarrow> string \<Rightarrow> endpoint_state
    \<Rightarrow> ((publish_error + publish_outcome) \<times> endpoint_state) option" where
  "endpoint_publish app run pub body s =
     (let (r, ss) = publisher_publish (ea_sender app) (ea_sink app) Downstream (rr_id run) (rr_now run) pub body (es_sender s)
      in map_option (\<lambda>hub. (r, \<lparr>es_sender = ss, es_hub = hub\<rparr>)) (run_commands (ea_topics app) (rr_publishing run) (es_hub s)))"

definition publish_filter :: "publish \<Rightarrow> command_filter" where
  "publish_filter pub = filter_proxied_device (pa_name (pb_application pub)) (pi_name (pb_sender pub)) (pi_name (pb_device pub))"

definition http_publish_and_await ::
  "endpoint_app \<Rightarrow> request_run \<Rightarrow> publish \<Rightarrow> u64 option \<Rightarrow> string \<Rightarrow> endpoint_state
    \<Rightarrow> ((endpoint_error + http_answer) \<times> endpoint_state) option" where
  "http_publish_and_await app run pub ttd body s =
     Option.bind (endpoint_publish app run pub body s) (\<lambda>(r, s).
       case r of
         Inr Accepted \<Rightarrow>
           map_option (\<lambda>(answer, hub). (Inr answer, s\<lparr>es_hub := hub\<rparr>))
             (http_wait_for_command (ea_topics app) (rr_random run) (rr_waiting run) (publish_filter pub) ttd (es_hub s))
       | Inr Rejected \<Rightarrow> Some (Inr \<lparr>ha_status = 406, ha_command = None, ha_body = BodyEmpty\<rparr>, s)
       | Inr QueueFull \<Rightarrow> Some (Inr \<lparr>ha_status = 503, ha_command = None, ha_body = BodyEmpty\<rparr>, s)
       | Inl err \<Rightarrow> Some (Inr \<lparr>ha_status = 500, ha_command = None,
           ha_body = BodyJson (Object [(''error'', String ''InternalError''), (''message'', String (publish_error_text err))])\<rparr>, s))"

definition http_message ::
  "endpoint_app \<Rightarrow> string \<Rightarrow> string option \<Rightarrow> publish_query \<Rightarrow> http_call \<Rightarrow> api_application \<Rightarrow> api_device
    \<Rightarrow> api_device option \<Rightarrow> publish" where
  "http_message app channel topic opts req application device as_dev =
     (let (dev_id, sender) = with_devices device as_dev
      in \<lparr>pb_application = application, pb_device = dev_id, pb_sender = sender, pb_channel = channel,
          pb_options = default_options\<lparr>po_data_schema := pq_data_schema opts, po_topic := topic,
            po_content_type := Option.bind (hc_content_type req) (en_header_text (ea_auth app))\<rparr>\<rparr>)"

definition http_publish ::
  "endpoint_app \<Rightarrow> request_run \<Rightarrow> string \<Rightarrow> string option \<Rightarrow> publish_query \<Rightarrow> http_call \<Rightarrow> endpoint_state
    \<Rightarrow> ((endpoint_error + http_answer) \<times> endpoint_state) option" where
  "http_publish app run channel topic opts req s =
     (case authenticate_http (ea_auth app) (pq_application opts) (pq_device opts) (hc_authorization req) (hc_certs req)
         (hc_identity req) (pq_as opts) of
        Inl err \<Rightarrow> Some (Inl (AuthenticationServiceError (ea_client_text app err)), s)
      | Inr Fail \<Rightarrow> Some (Inl AuthenticationError, s)
      | Inr (Pass application device as_dev) \<Rightarrow>
          http_publish_and_await app run (http_message app channel topic opts req application device as_dev)
            (pq_ct opts) (hc_body req) s)"

definition http_publish_plain ::
  "endpoint_app \<Rightarrow> request_run \<Rightarrow> string \<Rightarrow> publish_query \<Rightarrow> http_call \<Rightarrow> endpoint_state
    \<Rightarrow> ((endpoint_error + http_answer) \<times> endpoint_state) option" where
  "http_publish_plain app run channel opts req s = http_publish app run channel None opts req s"

definition http_publish_tail ::
  "endpoint_app \<Rightarrow> request_run \<Rightarrow> string \<times> string \<Rightarrow> publish_query \<Rightarrow> http_call \<Rightarrow> endpoint_state
    \<Rightarrow> ((endpoint_error + http_answer) \<times> endpoint_state) option" where
  "http_publish_tail app run path opts req s =
     (let (channel, rest) = path in http_publish app run channel (Some rest) opts req s)"

section \<open>The Things Network\<close>

text \<open>\<open>value[key]\<close> of a JSON value: \<open>Null\<close> where there is no such entry.\<close>

fun json_index :: "json \<Rightarrow> string \<Rightarrow> json" where
  "json_index (Object m) key = (case map_of m key of Some v \<Rightarrow> v | None \<Rightarrow> Null)"
| "json_index _ key = Null"

fun json_as_str :: "json \<Rightarrow> string option" where
  "json_as_str (String s) = Some s"
| "json_as_str _ = None"

definition get_spec :: "api_device \<Rightarrow> api_device option \<Rightarrow> string \<Rightarrow> json" where
  "get_spec device as_dev key =
     (let device = (case as_dev of Some d \<Rightarrow> d | None \<Rightarrow> device)
      in case map_of (pd_spec device) key of Some v \<Rightarrow> v | None \<Rightarrow> Null)"

definition eval_data_schema :: "string option \<Rightarrow> api_device \<Rightarrow> api_device option \<Rightarrow> string \<Rightarrow> string option" where
  "eval_data_schema model_id device as_dev port =
     (case model_id of
        Some m \<Rightarrow> Some m
      | None \<Rightarrow> json_as_str (json_index (json_index (json_index (get_spec device as_dev ''lorawan'') ''ports'') port) ''data_schema''))"

record uplink =
  ul_device_id :: string
  ul_port :: string
  ul_time :: timestamp
  ul_is_retry :: "bool option"
  ul_hardware_address :: string
  ul_payload_raw :: string
  ul_payload_fields :: json

definition send_uplink ::
  "endpoint_app \<Rightarrow> request_run \<Rightarrow> api_application \<Rightarrow> publish_id \<Rightarrow> publish_id \<Rightarrow> string \<Rightarrow> timestamp \<Rightarrow> string option
    \<Rightarrow> string option \<Rightarrow> string smap \<Rightarrow> string \<Rightarrow> endpoint_state \<Rightarrow> ((endpoint_error + http_answer) \<times> endpoint_state) option" where
  "send_uplink app run application device sender port time content_type data_schema extensions body s =
     map_option (\<lambda>(r, s). (Inr \<lparr>ha_status = publish_http_status r, ha_command = None,
         ha_body = (case r of Inr _ \<Rightarrow> BodyEmpty
           | Inl err \<Rightarrow> BodyBytes (publish_error_text err))\<rparr>, s))
       (endpoint_publish app run
          \<lparr>pb_application = application, pb_device = device, pb_sender = sender, pb_channel = port,
           pb_options = default_options\<lparr>po_time := Some time, po_content_type := content_type,
             po_data_schema := data_schema, po_extensions := extensions\<rparr>\<rparr> body s)"

definition uplink_extensions :: "uplink \<Rightarrow> string smap" where
  "uplink_extensions up =
     AList.update ''hwaddr'' (ul_hardware_address up)
       ((case ul_is_retry up of
           Some is_retry \<Rightarrow> AList.update ''lorawanretry'' (if is_retry then ''true'' else ''false'')
         | None \<Rightarrow> id) [(''lorawanport'', ul_port up)])"

definition uplink_payload ::
  "(json \<Rightarrow> string) \<Rightarrow> api_device \<Rightarrow> api_device option \<Rightarrow> uplink \<Rightarrow> string \<Rightarrow> string \<times> string option" where
  "uplink_payload print device as_dev up body =
     (let mode = (case json_as_str (json_index (get_spec device as_dev ''ttn'') ''payload'') of Some m \<Rightarrow> m | None \<Rightarrow> [])
      in if mode = ''raw'' then (ul_payload_raw up, Some ''application/octet-stream'')
         else if mode = ''fields'' then (print (ul_payload_fields up), Some ''application/json'')
         else (body, None))"

definition publish_uplink ::
  "endpoint_app \<Rightarrow> request_run \<Rightarrow> (json \<Rightarrow> string) \<Rightarrow> publish_query \<Rightarrow> http_call \<Rightarrow> uplink \<Rightarrow> endpoint_state
    \<Rightarrow> ((endpoint_error + http_answer) \<times> endpoint_state) option" where
  "publish_uplink app run print opts req up s =
     (case authenticate_http (ea_auth app) (pq_application opts) (pq_device opts) (hc_authorization req) (hc_certs req)
         None (Some (ul_device_id up)) of
        Inl err \<Rightarrow> Some (Inl (AuthenticationServiceError (ea_client_text app err)), s)
      | Inr Fail \<Rightarrow> Some (Inl AuthenticationError, s)
      | Inr (Pass application device as_dev) \<Rightarrow>
          let data_schema = eval_data_schema (pq_data_schema opts) device as_dev (ul_port up);
              (body, content_type) = uplink_payload print device as_dev up (hc_body req);
              (dev_id, sender) = with_devices device as_dev
          in send_uplink app run application dev_id sender (ul_port up) (ul_time up) content_type data_schema
               (uplink_extensions up) body s)"

text \<open>The messages of both versions, as the library decodes them.\<close>

record ttn_v2_uplink =
  t2_dev_id :: string
  t2_port :: nat
  t2_time :: timestamp
  t2_is_retry :: bool
  t2_hardware_serial :: string
  t2_payload_raw :: string
  t2_payload_fields :: json

record ttn_v3_uplink =
  t3_frame_port :: nat
  t3_received_at :: timestamp
  t3_frame_payload :: string
  t3_decoded_payload :: "json option"

record ttn_v3_message =
  t3_device_id :: string
  t3_dev_addr :: string
  t3_uplink :: "ttn_v3_uplink option"

definition ttn_publish_v2 ::
  "endpoint_app \<Rightarrow> request_run \<Rightarrow> (json \<Rightarrow> string) \<Rightarrow> (string \<Rightarrow> string + ttn_v2_uplink) \<Rightarrow> publish_query \<Rightarrow> http_call
    \<Rightarrow> endpoint_state \<Rightarrow> ((endpoint_error + http_answer) \<times> endpoint_state) option" where
  "ttn_publish_v2 app run print decode opts req s =
     (case decode (hc_body req) of
        Inl err \<Rightarrow> Some (Inl (InvalidFormat err), s)
      | Inr up \<Rightarrow> publish_uplink app run print opts req
          \<lparr>ul_device_id = t2_dev_id up, ul_port = nat_str (t2_port up), ul_time = t2_time up,
           ul_is_retry = Some (t2_is_retry up), ul_hardware_address = t2_hardware_serial up,
           ul_payload_raw = t2_payload_raw up, ul_payload_fields = t2_payload_fields up\<rparr> s)"

definition ttn_publish_v3 ::
  "endpoint_app \<Rightarrow> request_run \<Rightarrow> (json \<Rightarrow> string) \<Rightarrow> (string \<Rightarrow> string + ttn_v3_message) \<Rightarrow> publish_query \<Rightarrow> http_call
    \<Rightarrow> endpoint_state \<Rightarrow> ((endpoint_error + http_answer) \<times> endpoint_state) option" where
  "ttn_publish_v3 app run print decode opts req s =
     (case decode (hc_body req) of
        Inl err \<Rightarrow> Some (Inl (InvalidFormat err), s)
      | Inr msg \<Rightarrow>
          (case t3_uplink msg of
             None \<Rightarrow> Some (Inl (InvalidRequest (''Invalid message type, expected '' @ [CHR 0x27] @ ''Uplink'' @ [CHR 0x27])), s)
           | Some up \<Rightarrow> publish_uplink app run print opts req
               \<lparr>ul_device_id = t3_device_id msg, ul_port = nat_str (t3_frame_port up), ul_time = t3_received_at up,
                ul_is_retry = None, ul_hardware_address = t3_dev_addr msg, ul_payload_raw = t3_frame_payload up,
                ul_payload_fields = (case t3_decoded_payload up of Some v \<Rightarrow> v | None \<Rightarrow> Null)\<rparr> s))"

section \<open>The answer\<close>

text \<open>
  Both endpoints that answer with a command wait for it in the same way; they differ in the
  form of the answer.  The subscription of a request and its receiver belong to the request:
  no other task cancels or drops them.
\<close>

definition undisturbed :: "topic_env \<Rightarrow> command_filter \<Rightarrow> (nat \<Rightarrow> u64) \<Rightarrow> hub \<Rightarrow> command_op list \<Rightarrow> bool" where
  "undisturbed te f rnd hub ops \<longleftrightarrow> (\<forall>c h s. subscribe te f rnd hub = Some ((c, h), s) \<longrightarrow> c \<notin> set (hb_closed hub)
     \<and> (\<forall>h'. OpUnsubscribe h' \<in> set ops \<longrightarrow> handle_key h' \<noteq> handle_key h) \<and> OpDropReceiver c \<notin> set ops)"

definition first_wanted :: "topic_env \<Rightarrow> command_filter \<Rightarrow> command_op list \<Rightarrow> command option" where
  "first_wanted te f ops = List.find (wants te f) (sent_commands ops)"

lemma find_filter: "List.find P xs = (case filter P xs of [] \<Rightarrow> None | x # _ \<Rightarrow> Some x)"
  by (induction xs) auto

lemma await_command_result:
  assumes "hub_inv hub" and "undisturbed te f rnd hub ops" and "await_command te rnd ops f hub = Some (cmd, hub')"
  shows "cmd = first_wanted te f ops \<and> hub_inv hub' \<and> (\<forall>(k, i, t) \<in> subs (hb_commands hub'). ct_tx t \<noteq> hb_next hub)"
proof -
  obtain c h s1 s2 where s1: "subscribe te f rnd hub = Some ((c, h), s1)" and s2: "run_commands te ops s1 = Some s2"
    and cmd: "cmd = (case hb_queue s2 c of [] \<Rightarrow> None | x # _ \<Rightarrow> Some x)"
    and hub': "hub' = (unsubscribe h s2)\<lparr>hb_closed := c # hb_closed (unsubscribe h s2)\<rparr>"
    using assms(3) by (auto simp: await_command_def bind_eq_Some_conv Let_def)
  have own: "c \<notin> set (hb_closed hub)" "\<forall>h'. OpUnsubscribe h' \<in> set ops \<longrightarrow> handle_key h' \<noteq> handle_key h" "OpDropReceiver c \<notin> set ops"
    using assms(2) s1 by (auto simp: undisturbed_def)
  have live: "hb_queue s2 c = filter (wants te f) (sent_commands ops)"
    "\<forall>(k, i, t) \<in> subs (hb_commands (unsubscribe h s2)). ct_tx t \<noteq> c"
    using subscription_channel[OF assms(1) s1 own(1) s2 own(2,3)] by blast+
  have "hub_inv (unsubscribe h s2)" using assms(1) s1 s2 by (blast intro: subscribe_inv run_commands_inv unsubscribe_inv)
  then have "hub_inv hub'" by (simp add: hub' hub_inv_def)
  then show ?thesis
    using live cmd subscribe_subs(1)[OF s1] by (simp add: first_wanted_def find_filter hub')
qed

locale command_waiter =
  fixes wait :: "topic_env \<Rightarrow> (nat \<Rightarrow> u64) \<Rightarrow> command_op list \<Rightarrow> command_filter \<Rightarrow> u64 option \<Rightarrow> hub \<Rightarrow> ('r \<times> hub) option"
    and answer :: "command option \<Rightarrow> 'r"
  assumes wait_not: "ttd = None \<or> ttd = Some 0 \<Longrightarrow> wait te rnd ops f ttd hub = Some (answer None, hub)"
    and wait_await: "t > 0 \<Longrightarrow> wait te rnd ops f (Some t) hub =
      map_option (\<lambda>(cmd, hub). (answer cmd, hub)) (await_command te rnd ops f hub)"
begin

lemma wait_answer:
  assumes "hub_inv hub" and "undisturbed te f rnd hub ops" and "wait te rnd ops f ttd hub = Some (r, hub')"
  shows "r = answer (if ttd = None \<or> ttd = Some 0 then None else first_wanted te f ops) \<and> hub_inv hub'
     \<and> (\<forall>(k, i, t) \<in> subs (hb_commands hub'). ct_tx t \<noteq> hb_next hub)"
proof (cases "ttd = None \<or> ttd = Some 0")
  case True
  then show ?thesis using assms(1,3) wait_not[OF True, of te rnd ops f hub] by (auto simp: hub_inv_def)
next
  case False
  then obtain t where "ttd = Some t" "t > 0" by (cases ttd) (auto simp: word_gt_0)
  then show ?thesis
    using assms(3) await_command_result[OF assms(1,2)] wait_await[of t te rnd ops f hub] by auto
qed

end

definition http_waiting_answer :: "command option \<Rightarrow> http_answer" where
  "http_waiting_answer cmd = (case cmd of Some cmd \<Rightarrow> http_command cmd | None \<Rightarrow> http_accepted)"

interpretation http_waiter: command_waiter http_wait_for_command http_waiting_answer
  by unfold_locales
    (auto simp: http_wait_for_command_def http_waiting_answer_def fun_eq_iff intro!: option.map_cong)

section \<open>The event\<close>

text \<open>
  The identity of a message: its application, sender and device, and what its event says about
  them.  The rules of the application may change every attribute of an event: each of the three
  is claimed only if no rule of the application can change it (\<open>clean_rules\<close>).
\<close>

definition sent_by :: "sender_env \<Rightarrow> publish \<Rightarrow> api_application \<Rightarrow> api_device \<Rightarrow> api_device option \<Rightarrow> data_event \<Rightarrow> bool" where
  "sent_by env pub a d as_dev e \<longleftrightarrow>
     (\<forall>(k, v) \<in> set [(EXT_APPLICATION, pa_name a), (EXT_SENDER, pd_name d),
          (EXT_DEVICE, pd_name (case as_dev of Some d' \<Rightarrow> d' | None \<Rightarrow> d))].
        clean_rules env Downstream pub k \<longrightarrow> map_of (ce_extensions e) k = Some (EVString v))"

text \<open>
  A record with the event of a message: whatever the rules did, it is in the topic of the
  application; and its event names where it comes from.
\<close>

definition delivered :: "endpoint_app \<Rightarrow> publish \<Rightarrow> api_application \<Rightarrow> api_device \<Rightarrow> api_device option
    \<Rightarrow> string \<times> string \<times> data_event \<Rightarrow> bool" where
  "delivered app pub a d as_dev rec \<longleftrightarrow> fst rec = sink_topic (ea_sender app) (ea_sink app) Downstream a
     \<and> sent_by (ea_sender app) pub a d as_dev (snd (snd rec))"

definition dropped_by_rules :: "sender_env \<Rightarrow> string \<Rightarrow> timestamp \<Rightarrow> publish \<Rightarrow> string \<Rightarrow> sender_state \<Rightarrow> bool" where
  "dropped_by_rules env new_id now pub body s \<longleftrightarrow>
     (\<exists>data rules. publish_data env (po_content_type (pb_options pub)) body = Some data
        \<and> processor_rules env Downstream (pb_application pub) = Inr rules
        \<and> fst (process (sn_rules env) (sn_capacity env) rules (publish_event env new_id now pub data) (ss_proc s)) = Inr OutDropped)"

lemma endpoint_publish_sent:
  assumes "endpoint_publish app run pub body s = Some (r, s')"
    and "pb_application pub = a" and "pi_name (pb_sender pub) = pd_name d"
    and "pi_name (pb_device pub) = pd_name (case as_dev of Some d' \<Rightarrow> d' | None \<Rightarrow> d)"
  shows "\<exists>sent. ss_log (es_sender s') = ss_log (es_sender s) @ sent \<and> length sent \<le> 1 \<and> (r \<noteq> Inr Accepted \<longrightarrow> sent = [])
     \<and> (\<forall>rec \<in> set sent. delivered app pub a d as_dev rec)
     \<and> (r = Inr Accepted \<and> sent = [] \<longrightarrow> dropped_by_rules (ea_sender app) (rr_id run) (rr_now run) pub body (es_sender s))"
proof -
  let ?env = "ea_sender app"
  obtain ss where p: "publisher_publish ?env (ea_sink app) Downstream (rr_id run) (rr_now run) pub body (es_sender s) = (r, ss)"
    and s': "es_sender s' = ss"
    using assms(1) by (auto simp: endpoint_publish_def split: prod.splits)
  from publish_sent[of ?env "ea_sink app" Downstream "rr_id run" "rr_now run" pub body "es_sender s"] obtain sent where
    log: "ss_log ss = ss_log (es_sender s) @ map (\<lambda>e. (sink_topic ?env (ea_sink app) Downstream (pb_application pub), sink_key e, e)) sent"
    and len: "length sent \<le> 1" and none: "r \<noteq> Inr Accepted \<longrightarrow> sent = []"
    and acc: "r = Inr Accepted \<longrightarrow> (\<exists>data rules ps. publish_data ?env (po_content_type (pb_options pub)) body = Some data
          \<and> processor_rules ?env Downstream (pb_application pub) = Inr rules
          \<and> process (sn_rules ?env) (sn_capacity ?env) rules (publish_event ?env (rr_id run) (rr_now run) pub data) (ss_proc (es_sender s)) =
              (Inr (if sent = [] then OutDropped else OutAccepted (hd sent)), ps))"
    and ids: "\<forall>e \<in> set sent. \<forall>(k, v) \<in> set (id_extensions ?env pub). clean_rules ?env Downstream pub k \<longrightarrow>
          map_of (ce_extensions e) k = Some (EVString v)"
    unfolding p Let_def prod.case by blast
  have "sent_by ?env pub a d as_dev e" if "e \<in> set sent" for e
  proof -
    have "set [(EXT_APPLICATION, pa_name a), (EXT_SENDER, pd_name d), (EXT_DEVICE, pd_name (case as_dev of Some d' \<Rightarrow> d' | None \<Rightarrow> d))]
        \<subseteq> set (id_extensions ?env pub)"
      using assms(2-4) by (auto simp: id_extensions_def)
    then show ?thesis using ids that unfolding sent_by_def by blast
  qed
  moreover have "dropped_by_rules ?env (rr_id run) (rr_now run) pub body (es_sender s)" if "r = Inr Accepted" "sent = []"
    using acc that unfolding dropped_by_rules_def by fastforce
  ultimately show ?thesis
    using log len none s' assms(2)
    by (intro exI[of _ "map (\<lambda>e. (sink_topic ?env (ea_sink app) Downstream (pb_application pub), sink_key e, e)) sent"]) (auto simp: delivered_def)
qed

lemma http_message_ids [simp]:
  "pb_application (http_message app channel topic opts req a d as_dev) = a"
  "pi_name (pb_sender (http_message app channel topic opts req a d as_dev)) = pd_name d"
  "pi_name (pb_device (http_message app channel topic opts req a d as_dev)) = pd_name (case as_dev of Some d' \<Rightarrow> d' | None \<Rightarrow> d)"
  by (simp_all add: http_message_def with_devices_def device_publish_id_def Let_def split: option.splits)

lemma http_await_cases:
  assumes "http_publish_and_await app run pub ttd body s = Some (r, s')"
  obtains (accepted) s1 ans where "endpoint_publish app run pub body s = Some (Inr Accepted, s1)" "r = Inr ans"
      "http_wait_for_command (ea_topics app) (rr_random run) (rr_waiting run) (publish_filter pub) ttd (es_hub s1) = Some (ans, es_hub s')"
      "es_sender s' = es_sender s1"
  | (refused) out ans where "endpoint_publish app run pub body s = Some (out, s')" "out \<noteq> Inr Accepted" "r = Inr ans"
      "ha_status ans \<in> {406, 500, 503}"
proof -
  obtain out s1 where p: "endpoint_publish app run pub body s = Some (out, s1)"
    using assms by (auto simp: http_publish_and_await_def bind_eq_Some_conv)
  show thesis
  proof (cases "out = Inr Accepted")
    case True
    then obtain ans where "http_wait_for_command (ea_topics app) (rr_random run) (rr_waiting run) (publish_filter pub) ttd (es_hub s1) = Some (ans, es_hub s')"
        "r = Inr ans" "es_sender s' = es_sender s1"
      using assms p by (auto simp: http_publish_and_await_def)
    then show thesis using accepted p True by blast
  next
    case False
    then have "s1 = s' \<and> (\<exists>ans. r = Inr ans \<and> ha_status ans \<in> {406, 500, 503})"
      using assms p by (auto simp: http_publish_and_await_def split: sum.splits publish_outcome.splits)
    then show thesis using refused p False by blast
  qed
qed

lemma http_answer_status [simp]: "ha_status http_accepted = 202" "ha_status (http_command cmd) = 200"
  by (simp_all add: http_accepted_def http_command_def)

lemma wait_status:
  "http_wait_for_command te rnd ops f ttd hub = Some (ans, hub') \<Longrightarrow> ha_status ans \<in> {200, 202}"
  by (auto simp: http_wait_for_command_def split: option.splits if_splits)

section \<open>Properties\<close>


definition demo_app_env :: endpoint_app where
  "demo_app_env = \<lparr>ea_auth = demo_authenticator, ea_sender = demo_sender, ea_sink = KafkaSink False, ea_topics = demo_topics,
     ea_client_text = (\<lambda>_. [])\<rparr>"

definition demo_run :: request_run where
  "demo_run = \<lparr>rr_id = ''1'', rr_now = 0, rr_random = (\<lambda>_. 0), rr_publishing = [OpSend (demo_command ''gw'' ''d'' ''off'')],
     rr_waiting = [OpSend (demo_command ''gw'' ''e'' ''on''), OpSend (demo_command ''gw'' ''d'' ''on'')]\<rparr>"

definition demo_query :: publish_query where
  "demo_query = \<lparr>pq_application = None, pq_device = None, pq_data_schema = None, pq_as = None, pq_ct = None\<rparr>"

definition demo_call :: http_call where
  "demo_call = \<lparr>hc_authorization = Some ''Basic d@a:pw'', hc_content_type = None, hc_body = ''x'', hc_certs = None, hc_identity = None\<rparr>"

definition demo_endpoint_state :: endpoint_state where
  "demo_endpoint_state = \<lparr>es_sender = demo_sender_state, es_hub = hub_new\<rparr>"


text \<open>
  A request that waits for a command is answered with the first command that was sent to
  its device, or to its gateway if the device is the gateway, while it waited, and with an
  empty answer if there was none or the request does not wait.  A command sent while the
  event was still being published is not seen.  Afterwards the subscription is gone.
\<close>

theorem http_command_answer:
  assumes "hub_inv (es_hub s)" and "run_commands (ea_topics app) (rr_publishing run) (es_hub s) = Some hub"
    and "undisturbed (ea_topics app) (publish_filter pub) (rr_random run) hub (rr_waiting run)"
    and "http_publish_and_await app run pub ttd body s = Some (r, s')"
    and "fst (publisher_publish (ea_sender app) (ea_sink app) Downstream (rr_id run) (rr_now run) pub body (es_sender s)) = Inr Accepted"
  shows "r = Inr (case (if ttd = None \<or> ttd = Some 0 then None
         else List.find (wants (ea_topics app) (publish_filter pub)) (sent_commands (rr_waiting run))) of
       Some cmd \<Rightarrow> \<lparr>ha_status = 200, ha_command = Some (cd_command cmd), ha_body = BodyBytes (case cd_payload cmd of Some p \<Rightarrow> p | None \<Rightarrow> [])\<rparr>
     | None \<Rightarrow> \<lparr>ha_status = 202, ha_command = None, ha_body = BodyEmpty\<rparr>)
     \<and> hub_inv (es_hub s') \<and> (\<forall>(k, i, t) \<in> subs (hb_commands (es_hub s')). ct_tx t \<noteq> hb_next hub)"
proof -
  have pub: "\<exists>ss. endpoint_publish app run pub body s = Some (Inr Accepted, \<lparr>es_sender = ss, es_hub = hub\<rparr>)"
    using assms(2,5) by (auto simp: endpoint_publish_def split: prod.splits)
  from assms(4) show ?thesis
  proof (cases rule: http_await_cases)
    case (accepted s1 ans)
    have "es_hub s1 = hub" using accepted(1) pub by auto
    moreover have "hub_inv hub" by (rule run_commands_inv[OF assms(1,2)])
    ultimately show ?thesis
      using http_waiter.wait_answer[OF _ _ accepted(3)] assms(3) accepted(2)
      unfolding http_waiting_answer_def http_accepted_def http_command_def first_wanted_def by simp
  qed (use pub in auto)
qed

theorem http_command_answer_witness:
  "\<exists>s'. http_publish_and_await demo_app_env demo_run (demo_publish ''d'') (Some 5) ''x'' demo_endpoint_state =
     Some (Inr \<lparr>ha_status = 200, ha_command = Some ''on'', ha_body = BodyBytes []\<rparr>, s')"
proof -
  let ?p = "http_publish_and_await demo_app_env demo_run (demo_publish ''d'') (Some 5) ''x'' demo_endpoint_state"
  let ?f = "publish_filter (demo_publish ''d'')"
  have pick: "pick_id (\<lambda>_. 0) 0 [] = Some 0" by (simp add: pick_id.simps)
  have f: "?f = filter_proxied_device ''a'' ''gw'' ''d''" by (simp add: publish_filter_def demo_publish_def)
  have te: "ea_topics demo_app_env = demo_topics" by (simp add: demo_app_env_def)
  have busy: "run_commands (ea_topics demo_app_env) (rr_publishing demo_run) (es_hub demo_endpoint_state) = Some hub_new"
    by (simp add: te demo_run_def demo_endpoint_state_def send_command_def hub_new_def Let_def)
  have ok: "fst (publisher_publish demo_sender (KafkaSink False) Downstream ''1'' 0 (demo_publish ''d'') ''x'' demo_sender_state) = Inr Accepted"
    by (simp add: demo_publish_defs Let_def)
  have "\<exists>r s'. ?p = Some (r, s')"
    using ok by (auto simp: http_publish_and_await_def endpoint_publish_def busy te f http_wait_for_command_def await_command_def
        subscribe_def Let_def filter_proxied_device_def cleanup_filter_def hub_new_def add_entry_def inner_def pick
        demo_run_def demo_app_env_def demo_endpoint_state_def split: prod.splits)
  then obtain r s' where p: "?p = Some (r, s')" by blast
  have "undisturbed (ea_topics demo_app_env) ?f (rr_random demo_run) hub_new (rr_waiting demo_run)"
    by (auto simp: undisturbed_def demo_run_def hub_new_def)
  from http_command_answer[OF _ busy this p] ok show ?thesis
    using p by (auto simp: demo_endpoint_state_def hub_new_inv demo_app_env_def demo_run_def f wants_def filter_proxied_device_def
        demo_command_def filter_from_def)
qed

end
