(* ===== verification/Coap_Endpoint.thy ===== *)
theory Coap_Endpoint
  imports Http_Endpoint
begin

text \<open>
  The CoAP endpoint (\<open>coap-endpoint/src\<close>): reading path, query and credentials of a request,
  publishing its payload, waiting for a command, and the loop of a session.

  Requests are those of the CoAP library: the values of an option are byte strings, and the
  answer is prepared by the library, if the request expects one.  Parameters: UTF-8, the
  query string parser, HTTP header values and the packet codec.
\<close>

section \<open>Requests\<close>

datatype coap_status =
    CoapContent | CoapChanged | CoapNotAcceptable | CoapServiceUnavailable | CoapBadRequest
  | CoapInternalServerError | CoapForbidden | CoapInitial

record coap_response =
  cr_status :: coap_status
  cr_command :: "string list"
  cr_payload :: string

record coap_request =
  cq_uri_path :: "string list option"
  cq_uri_query :: "string list option"
  cq_auth :: "string list option"
  cq_content_format :: "string option"
  cq_payload :: string
  cq_response :: "coap_response option"

record coap_app =
  cp_app :: endpoint_app
  cp_disable_psk :: bool
  cp_utf8_error :: "string \<Rightarrow> string"
  cp_urlencoded :: "string \<Rightarrow> publish_query option"
  cp_header_value :: "string \<Rightarrow> string option"
  cp_decode :: "string \<Rightarrow> coap_request option"
  cp_encode :: "coap_response \<Rightarrow> string option"

definition default_query :: publish_query where
  "default_query = \<lparr>pq_application = None, pq_device = None, pq_data_schema = None, pq_as = None, pq_ct = None\<rparr>"

fun coap_status_code :: "endpoint_error \<Rightarrow> coap_status" where
  "coap_status_code (InvalidFormat _) = CoapBadRequest"
| "coap_status_code (InvalidRequest _) = CoapBadRequest"
| "coap_status_code (ConfigurationError _) = CoapInternalServerError"
| "coap_status_code (AuthenticationServiceError _) = CoapServiceUnavailable"
| "coap_status_code AuthenticationError = CoapForbidden"

definition respond_to :: "coap_request \<Rightarrow> endpoint_error + coap_response option \<Rightarrow> coap_response option" where
  "respond_to req r =
     (case r of
        Inr val \<Rightarrow> val
      | Inl e \<Rightarrow> map_option (\<lambda>v. v\<lparr>cr_status := coap_status_code e, cr_payload := endpoint_error_text e\<rparr>) (cq_response req))"

section \<open>Path and parameters\<close>

fun front :: "'a list \<Rightarrow> 'a option" where
  "front [] = None"
| "front (x # _) = Some x"

fun push_subject :: "coap_app \<Rightarrow> string \<Rightarrow> string list \<Rightarrow> endpoint_error + string" where
  "push_subject app subject [] = Inr subject"
| "push_subject app subject (i # rest) =
     (case en_utf8 (ea_auth (cp_app app)) i of
        None \<Rightarrow> Inl (InvalidRequest (''error parsing subject: '' @ cp_utf8_error app i))
      | Some t \<Rightarrow> push_subject app (subject @ t @ ''/'') rest)"

definition path_parser :: "coap_app \<Rightarrow> string list \<Rightarrow> endpoint_error + string list" where
  "path_parser app ll =
     (let utf8 = en_utf8 (ea_auth (cp_app app))
      in rbind (ok_or (InvalidRequest ''incorrect version number'')
           (case Option.bind (front ll) utf8 of Some v \<Rightarrow> if v = ''v1'' then Some v else None | None \<Rightarrow> None)) (\<lambda>_.
         rbind (ok_or (InvalidRequest ''error parsing channel'') (Option.bind (front (tl ll)) utf8)) (\<lambda>channel.
         rbind (push_subject app [] (tl (tl ll))) (\<lambda>subject.
           Inr (channel # (if subject \<noteq> [] then [butlast subject] else []))))))"

definition coap_params :: "coap_app \<Rightarrow> coap_request \<Rightarrow> string + (string list \<times> string option \<times> string option)" where
  "coap_params app req =
     rbind (ok_or ''Error parsing path''
       (Option.bind (cq_uri_path req) (\<lambda>paths. case path_parser app paths of Inr p \<Rightarrow> Some p | Inl _ \<Rightarrow> None))) (\<lambda>segments.
     Inr (segments, Option.bind (cq_uri_query req) front, Option.bind (cq_auth req) front))"

text \<open>The content formats of the library, by their names.\<close>

definition content_format_to_media_type :: "string \<Rightarrow> string option" where
  "content_format_to_media_type =
     map_of [
      (''TextPlain'', ''text/plain; charset=utf-8''),
      (''ApplicationCoseEncrypt0'', ''application/cose; cose-type='' @ [CHR 0x22] @ ''cose-encrypt0'' @ [CHR 0x22]),
      (''ApplicationCoseMac0'', ''application/cose; cose-type='' @ [CHR 0x22] @ ''cose-emac0'' @ [CHR 0x22]),
      (''ApplicationCoseSign1'', ''application/cose; cose-type='' @ [CHR 0x22] @ ''cose-sign1'' @ [CHR 0x22]),
      (''ApplicationAceCbor'', ''application/ace+cbor''),
      (''ImageGif'', ''image/gif''),
      (''ImageJpeg'', ''image/jpeg''),
      (''ImagePng'', ''image/png''),
      (''ApplicationLinkFormat'', ''application/link-format''),
      (''ApplicationXML'', ''application/xml''),
      (''ApplicationOctetStream'', ''application/octet-stream''),
      (''ApplicationEXI'', ''application/exi''),
      (''ApplicationJSON'', ''application/json''),
      (''ApplicationJsonPatchJson'', ''application/json-patch+json''),
      (''ApplicationMergePatchJson'', ''application/merge-patch+json''),
      (''ApplicationCBOR'', ''application/cbor''),
      (''ApplicationCWt'', ''application/cwt''),
      (''ApplicationMultipartCore'', ''application/multipart-core''),
      (''ApplicationCborSeq'', ''application/cbor-seq''),
      (''ApplicationCoseEncrypt'', ''application/cose; cose-type='' @ [CHR 0x22] @ ''cose-encrypt'' @ [CHR 0x22]),
      (''ApplicationCoseMac'', ''application/cose; cose-type='' @ [CHR 0x22] @ ''cose-mac'' @ [CHR 0x22]),
      (''ApplicationCoseSign'', ''application/cose; cose-type='' @ [CHR 0x22] @ ''cose-sign'' @ [CHR 0x22]),
      (''ApplicationCoseKey'', ''application/cose-key''),
      (''ApplicationCoseKeySet'', ''application/cose-key-set''),
      (''ApplicationSenmlJSON'', ''application/senml+json''),
      (''ApplicationSensmlJSON'', ''application/sensml+json''),
      (''ApplicationSenmlCBOR'', ''application/senml+cbor''),
      (''ApplicationSensmlCBOR'', ''application/sensml+cbor''),
      (''ApplicationSenmlExi'', ''application/senml+exi''),
      (''ApplicationSensmlExi'', ''application/sensml+exi''),
      (''ApplicationYangDataCborSid'', ''application/yang-data+cbor; id=sid''),
      (''ApplicationCoapGroupJson'', ''application/coap-group+json''),
      (''ApplicationDotsCbor'', ''application/concise-problem-details+cbor''),
      (''ApplicationMissingBlocksCborSeq'', ''application/missing-blocks+cbor-seq''),
      (''ApplicationPkcs7MimeServerGeneratedKey'', ''application/pkcs7-mime; smime-type=server-generated-key''),
      (''ApplicationPkcs7MimeCertsOnly'', ''application/pkcs7-mime; smime-type=certs-only''),
      (''ApplicationPkcs8'', ''application/pkcs8''),
      (''ApplicationCsrattrs'', ''application/csrattrs''),
      (''ApplicationPkcs10'', ''application/pkcs10''),
      (''ApplicationPkixCert'', ''application/pkix-cert''),
      (''ApplicationAifCbor'', ''application/aif+cbor''),
      (''ApplicationAifJson'', ''application/aif+json''),
      (''ApplicationSenmlXML'', ''application/senml+xml''),
      (''ApplicationSensmlXML'', ''application/sensml+xml''),
      (''ApplicationSenmlEtchJson'', ''application/senml-etch+json''),
      (''ApplicationSenmlEtchCbor'', ''application/senml-etch+cbor''),
      (''ApplicationYangDataCbor'', ''application/yang-data+cbor''),
      (''ApplicationYangDataCborName'', ''application/yang-data+cbor; id=name''),
      (''ApplicationTdJson'', ''application/td+json''),
      (''ApplicationVoucherCoseCbor'', ''application/voucher-cose+cbor''),
      (''ApplicationVndOcfCbor'', ''application/vnd.ocf+cbor''),
      (''ApplicationOscore'', ''application/oscore''),
      (''ApplicationJavascript'', ''application/javascript''),
      (''ApplicationJsonDeflate'', ''application/json''),
      (''ApplicationCborDeflate'', ''application/cbor''),
      (''ApplicationVndOmaLwm2mTlv'', ''application/vnd.oma.lwm2m+tlv''),
      (''ApplicationVndOmaLwm2mJson'', ''application/vnd.oma.lwm2m+json''),
      (''ApplicationVndOmaLwm2mCbor'', ''application/vnd.oma.lwm2m+cbor''),
      (''TextCss'', ''text/css''),
      (''ImageSvgXml'', ''image/svg+xml'')]"

section \<open>Publishing\<close>

definition set_response :: "coap_request \<Rightarrow> coap_status \<Rightarrow> string option \<Rightarrow> string \<Rightarrow> coap_response option" where
  "set_response req status cmd payload =
     map_option (\<lambda>v. v\<lparr>cr_status := status, cr_command := cr_command v @ (case cmd of Some c \<Rightarrow> [c] | None \<Rightarrow> []),
       cr_payload := payload\<rparr>) (cq_response req)"

definition coap_waiting_answer :: "coap_request \<Rightarrow> command option \<Rightarrow> coap_response option" where
  "coap_waiting_answer req cmd =
     (case cmd of
        Some cmd \<Rightarrow> set_response req CoapContent (Some (cd_command cmd)) (case cd_payload cmd of Some p \<Rightarrow> p | None \<Rightarrow> [])
      | None \<Rightarrow> set_response req CoapChanged None [])"

definition coap_wait_for_command ::
  "coap_request \<Rightarrow> topic_env \<Rightarrow> (nat \<Rightarrow> u64) \<Rightarrow> command_op list \<Rightarrow> command_filter \<Rightarrow> u64 option \<Rightarrow> hub
    \<Rightarrow> (coap_response option \<times> hub) option" where
  "coap_wait_for_command req te rnd waiting filt ttd hub =
     (case ttd of
        Some ttd \<Rightarrow>
          if ttd > 0
          then map_option (\<lambda>(cmd, hub). (coap_waiting_answer req cmd, hub)) (await_command te rnd waiting filt hub)
          else Some (coap_waiting_answer req None, hub)
      | None \<Rightarrow> Some (coap_waiting_answer req None, hub))"

definition set_status :: "coap_request \<Rightarrow> coap_status \<Rightarrow> coap_response option" where
  "set_status req status = map_option (\<lambda>v. v\<lparr>cr_status := status\<rparr>) (cq_response req)"

definition coap_publish_and_await ::
  "endpoint_app \<Rightarrow> request_run \<Rightarrow> publish \<Rightarrow> u64 option \<Rightarrow> coap_request \<Rightarrow> endpoint_state
    \<Rightarrow> ((endpoint_error + coap_response option) \<times> endpoint_state) option" where
  "coap_publish_and_await app run pub ttd req s =
     Option.bind (endpoint_publish app run pub (cq_payload req) s) (\<lambda>(r, s).
       case r of
         Inr Accepted \<Rightarrow>
           map_option (\<lambda>(answer, hub). (Inr answer, s\<lparr>es_hub := hub\<rparr>))
             (coap_wait_for_command req (ea_topics app) (rr_random run) (rr_waiting run) (publish_filter pub) ttd (es_hub s))
       | Inr Rejected \<Rightarrow> Some (Inr (set_status req CoapNotAcceptable), s)
       | Inr QueueFull \<Rightarrow> Some (Inr (set_status req CoapServiceUnavailable), s)
       | Inl err \<Rightarrow> Some (Inl (ConfigurationError (publish_error_text err)), s))"

text \<open>\<open>to_id\<close> of a name: there is no UID.\<close>

definition name_publish_id :: "string \<Rightarrow> publish_id" where
  "name_publish_id n = \<lparr>pi_name = n, pi_uid = None\<rparr>"

definition coap_message ::
  "string \<Rightarrow> string option \<Rightarrow> publish_query \<Rightarrow> coap_request \<Rightarrow> api_application \<Rightarrow> string \<Rightarrow> api_device option \<Rightarrow> publish" where
  "coap_message channel topic opts req application device as_dev =
     (let (sender_id, device_id) =
        (case as_dev of
           Some d \<Rightarrow> (name_publish_id device, device_publish_id d)
         | None \<Rightarrow> (name_publish_id device, name_publish_id device))
      in \<lparr>pb_application = application, pb_device = device_id, pb_sender = sender_id, pb_channel = channel,
          pb_options = default_options\<lparr>po_data_schema := pq_data_schema opts, po_topic := topic,
            po_content_type := Option.bind (cq_content_format req) content_format_to_media_type\<rparr>\<rparr>)"

definition coap_publish ::
  "coap_app \<Rightarrow> request_run \<Rightarrow> string \<Rightarrow> string option \<Rightarrow> publish_query \<Rightarrow> coap_request \<Rightarrow> string option
    \<Rightarrow> string list option \<Rightarrow> verified_identity option \<Rightarrow> endpoint_state
    \<Rightarrow> ((endpoint_error + coap_response option) \<times> endpoint_state) option" where
  "coap_publish app run channel topic opts req auth certs identity s =
     (case authenticate_coap (ea_auth (cp_app app)) (pq_application opts) (pq_device opts)
         (Option.bind auth (cp_header_value app)) certs identity of
        Inl err \<Rightarrow> Some (Inl (AuthenticationServiceError (ea_client_text (cp_app app) err)), s)
      | Inr Fail \<Rightarrow> Some (Inl AuthenticationError, s)
      | Inr (Pass application device as_dev) \<Rightarrow>
          coap_publish_and_await (cp_app app) run (coap_message channel topic opts req application (pd_name device) as_dev)
            (pq_ct opts) req s)"

definition coap_publish_plain ::
  "coap_app \<Rightarrow> request_run \<Rightarrow> string \<Rightarrow> publish_query \<Rightarrow> coap_request \<Rightarrow> string option
    \<Rightarrow> string list option \<Rightarrow> verified_identity option \<Rightarrow> endpoint_state
    \<Rightarrow> ((endpoint_error + coap_response option) \<times> endpoint_state) option" where
  "coap_publish_plain app run channel opts req auth certs identity s =
     coap_publish app run channel None opts req auth certs identity s"

definition coap_publish_tail ::
  "coap_app \<Rightarrow> request_run \<Rightarrow> string \<times> string \<Rightarrow> publish_query \<Rightarrow> coap_request \<Rightarrow> string option
    \<Rightarrow> string list option \<Rightarrow> verified_identity option \<Rightarrow> endpoint_state
    \<Rightarrow> ((endpoint_error + coap_response option) \<times> endpoint_state) option" where
  "coap_publish_tail app run path opts req auth certs identity s =
     (let (channel, rest) = path in coap_publish app run channel (Some rest) opts req auth certs identity s)"

definition coap_publish_handler ::
  "coap_app \<Rightarrow> request_run \<Rightarrow> coap_request \<Rightarrow> string list option \<Rightarrow> verified_identity option \<Rightarrow> endpoint_state
    \<Rightarrow> (coap_response option \<times> endpoint_state) option" where
  "coap_publish_handler app run req certs identity s =
     (let identity = (if cp_disable_psk app then None else identity);
          respond = map_option (\<lambda>(r, s). (respond_to req r, s))
      in case coap_params app req of
           Inl e \<Rightarrow> Some (respond_to req (Inl (InvalidRequest e)), s)
         | Inr (path_segments, queries, auth) \<Rightarrow>
             let opts = (case Option.bind queries (cp_urlencoded app) of Some q \<Rightarrow> q | None \<Rightarrow> default_query)
             in (case path_segments of
                   [channel] \<Rightarrow> respond (coap_publish_plain app run channel opts req auth certs identity s)
                 | [channel, subject] \<Rightarrow>
                     (case queries of
                        None \<Rightarrow> Some (None, s)
                      | Some x \<Rightarrow>
                          (case cp_urlencoded app x of
                             None \<Rightarrow> Some (None, s)
                           | Some q \<Rightarrow> respond (coap_publish_tail app run (channel, subject) q req auth certs identity s)))
                 | _ \<Rightarrow> Some (respond_to req (Inl (InvalidRequest ''Invalid number of path arguments'')), s)))"

text \<open>
  The loop of a session: \<open>None\<close> is a failed read, which ends it.  The result is what was
  written to the peer.
\<close>

fun coap_session ::
  "coap_app \<Rightarrow> string list option \<Rightarrow> verified_identity option \<Rightarrow> (string option \<times> request_run) list \<Rightarrow> endpoint_state
    \<Rightarrow> (string list \<times> endpoint_state) option" where
  "coap_session app certs identity [] s = Some ([], s)"
| "coap_session app certs identity ((None, run) # inputs) s = Some ([], s)"
| "coap_session app certs identity ((Some payload, run) # inputs) s =
     (case cp_decode app payload of
        None \<Rightarrow> coap_session app certs identity inputs s
      | Some req \<Rightarrow>
          Option.bind (coap_publish_handler app run req certs identity s) (\<lambda>(response, s).
          map_option (\<lambda>(out, s). ((case Option.bind response (cp_encode app) of Some p \<Rightarrow> [p] | None \<Rightarrow> []) @ out, s))
            (coap_session app certs identity inputs s)))"

interpretation coap_waiter: command_waiter "coap_wait_for_command req" "coap_waiting_answer req" for req
  by unfold_locales (auto simp: coap_wait_for_command_def)

section \<open>Lemmas\<close>

lemma those_eq_Some: "those xs = Some ys \<longleftrightarrow> xs = map Some ys"
proof (induction xs arbitrary: ys)
  case (Cons x xs)
  show ?case by (cases x; cases ys) (auto simp: Cons.IH)
qed auto

lemma push_subject_those:
  "push_subject app acc segs = Inr subject \<longleftrightarrow>
     map_option (\<lambda>ts. acc @ concat (map (\<lambda>t. t @ sep) ts)) (those (map (en_utf8 (ea_auth (cp_app app))) segs)) = Some subject"
  if "sep = ''/''"
proof (induction segs arbitrary: acc)
  case (Cons i segs)
  show ?case
  proof (cases "en_utf8 (ea_auth (cp_app app)) i")
    case (Some t)
    then have "push_subject app acc (i # segs) = Inr subject \<longleftrightarrow> push_subject app (acc @ t @ sep) segs = Inr subject" using that by simp
    also have "\<dots> \<longleftrightarrow> map_option (\<lambda>ts. (acc @ t @ sep) @ concat (map (\<lambda>t. t @ sep) ts)) (those (map (en_utf8 (ea_auth (cp_app app))) segs)) = Some subject"
      by (rule Cons.IH)
    finally show ?thesis
      using Some by (cases "those (map (en_utf8 (ea_auth (cp_app app))) segs)") (simp_all del: push_subject.simps)
  qed simp
qed simp

lemma join_sep: "ts \<noteq> [] \<Longrightarrow> concat (map (\<lambda>t. t @ [c]) ts) = join [c] ts @ [c]"
  by (induction ts rule: induct_list012) auto

lemma subject_of_parts:
  "(if concat (map (\<lambda>t. t @ [c]) ts) \<noteq> [] then [butlast (concat (map (\<lambda>t. t @ [c]) ts))] else [])
     = (if ts = [] then [] else [join [c] ts])"
  by (cases "ts = []") (simp_all add: join_sep del: concat_eq_Nil_conv)

lemma subject_path:
  "rbind (push_subject app [] segs) (\<lambda>subject. Inr (channel # (if subject \<noteq> [] then [butlast subject] else []))) = Inr p \<longleftrightarrow>
     (\<exists>ts. map (en_utf8 (ea_auth (cp_app app))) segs = map Some ts
        \<and> p = channel # (if ts = [] then [] else [join ''/'' ts]))"
proof (cases "those (map (en_utf8 (ea_auth (cp_app app))) segs)")
  case None
  then have "push_subject app [] segs \<noteq> Inr x" for x by (simp add: push_subject_those)
  moreover have "map (en_utf8 (ea_auth (cp_app app))) segs \<noteq> map Some ts" for ts
    using None those_eq_Some[of "map (en_utf8 (ea_auth (cp_app app))) segs" ts] by simp
  ultimately show ?thesis by (auto simp: rbind_eq_Inr)
next
  case (Some ts)
  then have "push_subject app [] segs = Inr (concat (map (\<lambda>t. t @ ''/'') ts))" by (simp add: push_subject_those)
  moreover have "map (en_utf8 (ea_auth (cp_app app))) segs = map Some ts' \<longleftrightarrow> ts' = ts" for ts'
    using Some those_eq_Some[of "map (en_utf8 (ea_auth (cp_app app))) segs" ts'] by auto
  ultimately show ?thesis using subject_of_parts[of "CHR ''/''" ts] by (simp only: rbind.simps) auto
qed

lemma coap_message_ids [simp]:
  "pb_application (coap_message channel topic opts req a (pd_name d) as_dev) = a"
  "pi_name (pb_sender (coap_message channel topic opts req a (pd_name d) as_dev)) = pd_name d"
  "pi_name (pb_device (coap_message channel topic opts req a (pd_name d) as_dev)) = pd_name (case as_dev of Some d' \<Rightarrow> d' | None \<Rightarrow> d)"
  by (simp_all add: coap_message_def name_publish_id_def device_publish_id_def Let_def split: option.splits)

lemma coap_await_publishes:
  assumes "coap_publish_and_await app run pub ttd req s = Some (r, s')"
  obtains out s1 where "endpoint_publish app run pub (cq_payload req) s = Some (out, s1)" "es_sender s' = es_sender s1"
proof -
  obtain out s1 where p: "endpoint_publish app run pub (cq_payload req) s = Some (out, s1)"
    using assms by (auto simp: coap_publish_and_await_def bind_eq_Some_conv)
  have "es_sender s' = es_sender s1"
    using assms p by (auto simp: coap_publish_and_await_def split: sum.splits publish_outcome.splits)
  then show thesis using that p by blast
qed

text \<open>The parameters in the query of a request.\<close>

definition coap_query :: "coap_app \<Rightarrow> coap_request \<Rightarrow> publish_query" where
  "coap_query app req = (case coap_params app req of
     Inr (_, queries, _) \<Rightarrow> (case Option.bind queries (cp_urlencoded app) of Some q \<Rightarrow> q | None \<Rightarrow> default_query)
   | Inl _ \<Rightarrow> default_query)"

lemma coap_handler_cases:
  assumes "coap_publish_handler app run req certs identity s = Some (r, s')"
  obtains (none) "s' = s"
  | (publish) channel topic r' where "coap_publish app run channel topic (coap_query app req) req (Option.bind (cq_auth req) front) certs
      (if cp_disable_psk app then None else identity) s = Some (r', s')"
proof (cases "coap_params app req")
  case (Inl e)
  then show ?thesis using none assms by (simp add: coap_publish_handler_def Let_def)
next
  case (Inr p)
  then obtain segs q where "coap_params app req = Inr (segs, q, Option.bind (cq_auth req) front)"
    by (auto simp: coap_params_def result_simps)
  then show ?thesis
    using assms none publish
    by (auto simp: coap_publish_handler_def coap_query_def Let_def coap_publish_plain_def coap_publish_tail_def
        split: list.splits option.splits)
qed

lemma coap_publish_proven:
  assumes "reg_inv db" and "talks_to (ea_auth (cp_app app)) au now db" and "reg_inv db0" and "talks_to env0 au now0 db0"
    and "identity = None \<or> psk_callback env0 n bytes = (secret, identity)"
    and "coap_publish app run channel topic opts req auth certs identity s = Some (r, s')"
  shows "\<exists>sent. ss_log (es_sender s') = ss_log (es_sender s) @ sent \<and> length sent \<le> 1
     \<and> (\<forall>rec \<in> set sent. \<exists>a d. delivered (cp_app app) (coap_message channel topic opts req a (pd_name d) None) a d None rec
          \<and> accepted_as au now db
              (http_claim (ea_auth (cp_app app)) (pq_application opts) (pq_device opts) (Option.bind auth (cp_header_value app)) certs)
              now0 db0 (psk_claim env0 bytes) n secret identity None a d None)"
proof -
  let ?auth = "authenticate_coap (ea_auth (cp_app app)) (pq_application opts) (pq_device opts) (Option.bind auth (cp_header_value app)) certs identity"
  show ?thesis
  proof (cases "\<exists>a d as_dev. ?auth = Inr (Pass a d as_dev)")
    case False
    then have "s' = s" using assms(6) by (auto simp: coap_publish_def split: sum.splits authn_outcome.splits)
    then show ?thesis by (auto intro: exI[of _ "[]"])
  next
    case True
    then obtain a d as_dev where auth: "?auth = Inr (Pass a d as_dev)" by blast
    have acc: "accepted_as au now db
        (http_claim (ea_auth (cp_app app)) (pq_application opts) (pq_device opts) (Option.bind auth (cp_header_value app)) certs)
        now0 db0 (psk_claim env0 bytes) n secret identity None a d as_dev"
      using auth by (intro pass_is_proven[OF assms(1-5)]) blast
    then have none: "as_dev = None"
      by (auto simp: accepted_as_def proven_def split: option.splits if_splits)
    have "coap_publish_and_await (cp_app app) run (coap_message channel topic opts req a (pd_name d) as_dev) (pq_ct opts) req s = Some (r, s')"
      using assms(6) auth by (simp add: coap_publish_def)
    then obtain out s1 where "endpoint_publish (cp_app app) run (coap_message channel topic opts req a (pd_name d) as_dev) (cq_payload req) s = Some (out, s1)"
      "es_sender s' = es_sender s1" by (rule coap_await_publishes)
    from endpoint_publish_sent[OF this(1) coap_message_ids] this(2) acc none show ?thesis by metis
  qed
qed

section \<open>Properties\<close>

text \<open>
  The path of a request is read as it is written: it is accepted exactly if it consists
  of \<open>v1\<close>, a channel and further segments, all of them valid UTF-8, and the result is the
  channel and, if there are further segments, those joined by slashes as the subject.
\<close>

theorem path_parser_iff:
  "path_parser app ll = Inr p \<longleftrightarrow>
     (\<exists>channel segs. map (en_utf8 (ea_auth (cp_app app))) ll = map Some (''v1'' # channel # segs)
        \<and> p = channel # (if segs = [] then [] else [join ''/'' segs]))"
proof (cases "\<exists>v c segs. ll = v # c # segs")
  case True
  then obtain v c segs where ll: "ll = v # c # segs" by blast
  let ?u = "en_utf8 (ea_auth (cp_app app))"
  show ?thesis
  proof (cases "?u v = Some ''v1'' \<and> ?u c \<noteq> None")
    case True
    then obtain channel where ch: "?u c = Some channel" by blast
    have "path_parser app ll = Inr p \<longleftrightarrow>
        (\<exists>ts. map ?u segs = map Some ts \<and> p = channel # (if ts = [] then [] else [join ''/'' ts]))"
      unfolding subject_path[symmetric] using True ch by (simp add: ll path_parser_def)
    then show ?thesis unfolding ll using True ch by simp
  next
    case False
    then have "path_parser app ll \<noteq> Inr p" by (cases "?u v") (auto simp: ll path_parser_def)
    then show ?thesis using False by (auto simp: ll)
  qed
next
  case False
  then have short: "ll = [] \<or> (\<exists>v. ll = [v])" by (metis list.exhaust)
  then have "path_parser app ll \<noteq> Inr p" by (auto simp: path_parser_def rbind_eq_Inr ok_or_eq_Inr)
  then show ?thesis using short by auto
qed

text \<open>
  The documentation of the endpoint lists the parameter \<open>as\<close>, by which a gateway publishes for
  another device.  The code reads it from the query and does not use it.
\<close>

lemma coap_as_ignored:
  "coap_publish app run channel topic (opts\<lparr>pq_as := x\<rparr>) req auth certs identity s =
   coap_publish app run channel topic opts req auth certs identity s"
proof -
  have "coap_message channel topic (opts\<lparr>pq_as := x\<rparr>) req = coap_message channel topic opts req"
    by (simp add: fun_eq_iff coap_message_def)
  then show ?thesis by (simp add: coap_publish_def split: sum.split authn_outcome.split)
qed

text \<open>
  C25. What the CoAP endpoint delivers is proven, for requests without the parameter \<open>as\<close> (the
  documentation says what that one should do, and the code ignores it, \<open>coap_as_ignored\<close>): a
  request adds at most one event.  The event is put in the topic of the application, and names
  as its origin the application and device that the request itself names (in its query, the
  user name of its basic authorization or its client certificate) and for which it presents a
  valid credential, or that the identity of the DTLS handshake names and whose key the
  handshake used.  Each of the three attributes (application, sender, device) is claimed for
  applications whose rules do not change it.  A user name with an at sign, given beside an
  application in the query, is read with its parts turned around (\<open>whole_name\<close>).
\<close>

theorem coap_events_are_proven:
  assumes "reg_inv db" and "talks_to (ea_auth (cp_app app)) au now db" and "reg_inv db0" and "talks_to env0 au now0 db0"
    and "identity = None \<or> psk_callback env0 n bytes = (secret, identity)"
    and "pq_as (coap_query app req) = None"
    and "coap_publish_handler app run req certs identity s = Some (r, s')"
  shows "\<exists>sent. ss_log (es_sender s') = ss_log (es_sender s) @ sent \<and> length sent \<le> 1
     \<and> (\<forall>rec \<in> set sent. \<exists>a d channel topic.
          delivered (cp_app app) (coap_message channel topic (coap_query app req) req a (pd_name d) None) a d None rec
          \<and> accepted_as au now db
              (http_claim (ea_auth (cp_app app)) (pq_application (coap_query app req)) (pq_device (coap_query app req))
                 (Option.bind (Option.bind (cq_auth req) front) (cp_header_value app)) certs)
              now0 db0 (psk_claim env0 bytes) n secret
              (if cp_disable_psk app then None else identity) (pq_as (coap_query app req)) a d None)"
  using assms(7)
proof (cases rule: coap_handler_cases)
  case none
  then show ?thesis by (auto intro: exI[of _ "[]"])
next
  case (publish channel topic r')
  have "(if cp_disable_psk app then None else identity) = None
      \<or> psk_callback env0 n bytes = (secret, if cp_disable_psk app then None else identity)"
    using assms(5) by simp
  from coap_publish_proven[OF assms(1-4) this publish] show ?thesis unfolding assms(6) by blast
qed

definition demo_coap_app :: coap_app where
  "demo_coap_app = \<lparr>cp_app = demo_app_env, cp_disable_psk = False, cp_utf8_error = (\<lambda>_. []), cp_urlencoded = (\<lambda>_. None),
     cp_header_value = Some, cp_decode = (\<lambda>_. None), cp_encode = (\<lambda>_. None)\<rparr>"

definition demo_coap_request :: "string list \<Rightarrow> coap_request" where
  "demo_coap_request path = \<lparr>cq_uri_path = Some path, cq_uri_query = None, cq_auth = Some [''Basic d@a:pw''], cq_content_format = None,
     cq_payload = ''x'', cq_response = Some \<lparr>cr_status = CoapInitial, cr_command = [], cr_payload = []\<rparr>\<rparr>"

theorem coap_events_are_proven_witness:
  "\<exists>r s' rec a d. coap_publish_handler demo_coap_app demo_run (demo_coap_request [''v1'', ''state'']) None None demo_endpoint_state = Some (r, s')
     \<and> ss_log (es_sender s') = [rec]
     \<and> proven demo_authn 0 demo_authn_db (http_claim demo_authenticator None None (Some ''Basic d@a:pw'') None) None a d None"
proof -
  let ?req = "demo_coap_request [''v1'', ''state'']"
  let ?p = "coap_publish_handler demo_coap_app demo_run ?req None None demo_endpoint_state"
  have "(case ?p of Some (_, s') \<Rightarrow> length (ss_log (es_sender s')) = 1 | _ \<Rightarrow> False)"
    by code_simp
  then obtain r s' rec where p: "?p = Some (r, s')" "ss_log (es_sender s') = [rec]"
    by (auto simp: length_Suc_conv split: option.splits)
  have talks: "talks_to (ea_auth (cp_app demo_coap_app)) demo_authn 0 demo_authn_db"
    by (simp add: demo_coap_app_def demo_app_env_def demo_authenticator_talks)
  have q: "coap_query demo_coap_app ?req = default_query"
    by (simp add: coap_query_def demo_coap_app_def bind_eq_None_conv split: sum.split)
  then have as_none: "pq_as (coap_query demo_coap_app ?req) = None" by (simp add: default_query_def)
  have claim: "http_claim (ea_auth (cp_app demo_coap_app)) (pq_application (coap_query demo_coap_app ?req)) (pq_device (coap_query demo_coap_app ?req))
      (Option.bind (Option.bind (cq_auth ?req) front) (cp_header_value demo_coap_app)) None =
      http_claim demo_authenticator None None (Some ''Basic d@a:pw'') None"
    unfolding q by (simp add: default_query_def demo_coap_app_def demo_app_env_def demo_coap_request_def)
  from coap_events_are_proven[OF demo_authn_inv talks demo_authn_inv talks disjI1[OF refl] as_none p(1), unfolded claim] p(2)
  obtain a d where "proven demo_authn 0 demo_authn_db (http_claim demo_authenticator None None (Some ''Basic d@a:pw'') None) None a d None"
    by (auto simp: accepted_as_def demo_endpoint_state_def demo_sender_state_def as_none)
  then show ?thesis using p by blast
qed

text \<open>
  A request with a subject in its path and without a query (or with one that cannot be
  read) is lost: nothing is published, and the device gets no answer.
\<close>

theorem coap_subject_needs_query:
  assumes "cq_uri_path req = Some ll" and "path_parser app ll = Inr [channel, subject]"
    and "Option.bind (Option.bind (cq_uri_query req) front) (cp_urlencoded app) = None"
  shows "coap_publish_handler app run req certs identity s = Some (None, s)"
  using assms by (cases "Option.bind (cq_uri_query req) front") (simp_all add: coap_publish_handler_def coap_params_def Let_def)

theorem coap_subject_needs_query_witness:
  "coap_publish_handler demo_coap_app demo_run (demo_coap_request [''v1'', ''state'', ''x'']) None None demo_endpoint_state
     = Some (None, demo_endpoint_state)"
proof -
  have "path_parser demo_coap_app [''v1'', ''state'', ''x''] = Inr [''state'', ''x'']" by code_simp
  then show ?thesis
    by (intro coap_subject_needs_query[where ll = "[''v1'', ''state'', ''x'']"]) (simp_all add: demo_coap_request_def)
qed

end
