(* ===== verification/Mqtt_Dialect.thy ===== *)
theory Mqtt_Dialect
  imports Commands
begin

text \<open>
  The topics of MQTT devices (\<open>mqtt-endpoint/src/service/session/dialect\<close>): the channel and
  device of a published topic, the commands a topic filter asks for, and the topic under
  which a command is sent to the device.
\<close>

section \<open>Dialects\<close>

datatype mqtt_dialect = DrogueV1 | PlainTopic (device_prefix: bool)

datatype topic_error = TopicSyntax | TopicEmpty

record parsed_publish_topic =
  pt_channel :: string
  pt_device :: "string option"

definition parse_publish :: "mqtt_dialect \<Rightarrow> string \<Rightarrow> topic_error + parsed_publish_topic" where
  "parse_publish dialect path =
     (case dialect of
        DrogueV1 \<Rightarrow>
          (case split_on (CHR ''/'') path of
             [channel] \<Rightarrow> if channel = [] then Inl TopicEmpty else Inr \<lparr>pt_channel = channel, pt_device = None\<rparr>
           | [channel, as_device] \<Rightarrow> Inr \<lparr>pt_channel = channel, pt_device = Some as_device\<rparr>
           | _ \<Rightarrow> Inl TopicSyntax)
      | PlainTopic False \<Rightarrow>
          if path = [] then Inl TopicEmpty else Inr \<lparr>pt_channel = path, pt_device = None\<rparr>
      | PlainTopic True \<Rightarrow>
          (case split_once (CHR ''/'') path of
             None \<Rightarrow> if path = [] then Inl TopicEmpty else Inl TopicSyntax
           | Some (device, path) \<Rightarrow>
               Inr \<lparr>pt_channel = path, pt_device = (if device = [] then None else Some device)\<rparr>))"

datatype device_filter = DfWildcard | DfDevice | DfProxied string

record subscribe_filter =
  sf_device :: device_filter
  sf_command :: "string option"

definition into_command_filter :: "string \<times> string \<Rightarrow> subscribe_filter \<Rightarrow> command_filter" where
  "into_command_filter ident f =
     (let (app_id, device_id) = ident in
      with_filter (sf_command f)
        (case sf_device f of
           DfWildcard \<Rightarrow> filter_wildcard app_id device_id
         | DfDevice \<Rightarrow> filter_device app_id device_id
         | DfProxied device \<Rightarrow>
             if device = device_id then filter_device app_id device_id
             else filter_proxied_device app_id device_id device))"

datatype topic_encoder = DefaultEncoder bool | WotEncoder bool

fun encode_command_topic :: "topic_encoder \<Rightarrow> command \<Rightarrow> string" where
  "encode_command_topic (DefaultEncoder force_device) cmd =
     (if force_device \<or> ca_gateway_id (cd_address cmd) \<noteq> ca_device_id (cd_address cmd)
      then ''command/inbox/'' @ ca_device_id (cd_address cmd) @ ''/'' @ cd_command cmd
      else ''command/inbox//'' @ cd_command cmd)"
| "encode_command_topic (WotEncoder node_wot_bug) cmd =
     (if node_wot_bug then ''/'' @ ca_device_id (cd_address cmd) @ ''/'' @ cd_command cmd
      else ca_device_id (cd_address cmd) @ ''/'' @ cd_command cmd)"

definition parse_subscribe :: "mqtt_dialect \<Rightarrow> string \<Rightarrow> topic_error + (subscribe_filter \<times> topic_encoder)" where
  "parse_subscribe dialect path =
     (let levels = split_on (CHR ''/'') path in
      if levels = [''command'', ''inbox'', ''#''] \<or> levels = [''command'', ''inbox'', ''+'', ''#'']
      then Inr (\<lparr>sf_device = DfWildcard, sf_command = None\<rparr>, DefaultEncoder False)
      else if levels = [''command'', ''inbox'', [], ''#'']
      then Inr (\<lparr>sf_device = DfDevice, sf_command = None\<rparr>, DefaultEncoder False)
      else case levels of
        [c, i, device, hash] \<Rightarrow>
          if c = ''command'' \<and> i = ''inbox'' \<and> hash = ''#''
          then Inr (\<lparr>sf_device = DfProxied device, sf_command = None\<rparr>, DefaultEncoder True)
          else Inl TopicSyntax
      | _ \<Rightarrow> Inl TopicSyntax)"

section \<open>Topic filters of MQTT\<close>

text \<open>
  When a topic matches a filter, by the MQTT standard: a plus sign stands for one level, a
  hash sign at the end for any number of them.
\<close>

fun levels_match :: "string list \<Rightarrow> string list \<Rightarrow> bool" where
  "levels_match [] [] \<longleftrightarrow> True"
| "levels_match [] (t # ts) \<longleftrightarrow> False"
| "levels_match (f # fs) ts \<longleftrightarrow>
     (f = ''#'' \<and> fs = []) \<or> (ts \<noteq> [] \<and> (f = ''+'' \<or> f = hd ts) \<and> levels_match fs (tl ts))"

definition topic_matches :: "string \<Rightarrow> string \<Rightarrow> bool" where
  "topic_matches filt topic \<longleftrightarrow> levels_match (split_on (CHR ''/'') filt) (split_on (CHR ''/'') topic)"

lemma split_on_prefix:
  "split_on c (a @ c # b) = split_on c a @ split_on c b"
  by (induction a) (auto split: list.splits)

lemma inbox_levels:
  "split_on (CHR ''/'') (''command/inbox/'' @ dev @ ''/'' @ cmd) = [''command'', ''inbox''] @ split_on (CHR ''/'') dev @ split_on (CHR ''/'') cmd"
proof -
  have "split_on (CHR ''/'') (''command'' @ CHR ''/'' # ''inbox'' @ CHR ''/'' # dev @ CHR ''/'' # cmd) =
      [''command'', ''inbox''] @ split_on (CHR ''/'') dev @ split_on (CHR ''/'') cmd"
    by (simp only: split_on_prefix split_on_append_sep) (simp add: split_on_prefix)
  then show ?thesis by simp
qed

text \<open>The topic filters that are accepted, and what they ask for.\<close>

lemma parse_subscribe_cases:
  assumes "parse_subscribe dialect path = Inr (f, enc)"
  obtains (wildcard) "f = \<lparr>sf_device = DfWildcard, sf_command = None\<rparr>" "enc = DefaultEncoder False"
      "split_on (CHR ''/'') path \<in> {[''command'', ''inbox'', ''#''], [''command'', ''inbox'', ''+'', ''#'']}"
  | (self) "f = \<lparr>sf_device = DfDevice, sf_command = None\<rparr>" "enc = DefaultEncoder False"
      "split_on (CHR ''/'') path = [''command'', ''inbox'', [], ''#'']"
  | (device) d where "f = \<lparr>sf_device = DfProxied d, sf_command = None\<rparr>" "enc = DefaultEncoder True"
      "split_on (CHR ''/'') path = [''command'', ''inbox'', d, ''#'']" "d \<noteq> []"
  using assms that
  by (auto simp: parse_subscribe_def Let_def split: if_splits list.splits)

lemma split_on_one: "split_on c s = [x] \<longleftrightarrow> s = x \<and> c \<notin> set s"
proof
  assume s: "split_on c s = [x]"
  have "s = x" using join_split_on[of c s] unfolding s by simp
  moreover have "c \<notin> set x" by (rule split_on_parts_no_sep[of x c s]) (simp only: s list.set_intros)
  ultimately show "s = x \<and> c \<notin> set s" by simp
qed auto

lemma split_on_two: "split_on c s = [x, y] \<longleftrightarrow> s = x @ c # y \<and> c \<notin> set x \<and> c \<notin> set y"
proof
  assume s: "split_on c s = [x, y]"
  have "s = x @ c # y" using join_split_on[of c s] unfolding s by simp
  moreover have "c \<notin> set z" if "z \<in> set [x, y]" for z using split_on_parts_no_sep[of z c s] that unfolding s .
  ultimately show "s = x @ c # y \<and> c \<notin> set x \<and> c \<notin> set y" by simp
qed (simp add: split_on_append_sep)

section \<open>Properties\<close>

text \<open>
  Topics are read as the dialects define them: the parser accepts exactly the topics that
  a device writes for a channel and an optional other device, and gives both back.
\<close>

theorem parse_publish_iff:
  "parse_publish dialect path = Inr \<lparr>pt_channel = channel, pt_device = device\<rparr> \<longleftrightarrow>
     (case dialect of
        DrogueV1 \<Rightarrow> CHR ''/'' \<notin> set channel
          \<and> (case device of
               None \<Rightarrow> path = channel \<and> channel \<noteq> []
             | Some d \<Rightarrow> path = channel @ ''/'' @ d \<and> CHR ''/'' \<notin> set d)
      | PlainTopic False \<Rightarrow> device = None \<and> path = channel \<and> channel \<noteq> []
      | PlainTopic True \<Rightarrow>
          (case device of
             None \<Rightarrow> path = ''/'' @ channel
           | Some d \<Rightarrow> path = d @ ''/'' @ channel \<and> d \<noteq> [] \<and> CHR ''/'' \<notin> set d))"
proof (cases dialect)
  case DrogueV1
  have "parse_publish DrogueV1 path = Inr \<lparr>pt_channel = channel, pt_device = device\<rparr> \<longleftrightarrow>
      (device = None \<and> split_on (CHR ''/'') path = [channel] \<and> channel \<noteq> [])
      \<or> (\<exists>d. device = Some d \<and> split_on (CHR ''/'') path = [channel, d])"
    by (auto simp: parse_publish_def split: list.splits)
  then show ?thesis using DrogueV1 by (cases device) (auto simp: split_on_one split_on_two)
next
  case (PlainTopic p)
  have "parse_publish (PlainTopic True) path = Inr \<lparr>pt_channel = channel, pt_device = device\<rparr> \<longleftrightarrow>
      split_once (CHR ''/'') path = Some (case device of None \<Rightarrow> [] | Some d \<Rightarrow> d, channel) \<and> device \<noteq> Some []"
    by (cases "split_once (CHR ''/'') path"; cases device) (auto simp: parse_publish_def split: if_splits)
  then show ?thesis
    using PlainTopic by (cases p; cases device) (auto simp: parse_publish_def split_once_eq_Some)
qed

text \<open>
  A command is sent to a device under a topic that matches the topic filter it was
  subscribed with, for every accepted filter and every command that the subscription wants,
  except that a subscription to the commands of the device itself also gets the commands of
  the devices it is a gateway for.
\<close>

theorem command_topic_matches:
  assumes "parse_subscribe dialect path = Inr (f, enc)" and "wants te (into_command_filter (app, dev) f) cmd"
    and "sf_device f \<noteq> DfDevice \<and> sf_device f \<noteq> DfProxied dev \<or> ca_device_id (cd_address cmd) = dev"
  shows "topic_matches path (encode_command_topic enc cmd)"
  using assms(1)
proof (cases rule: parse_subscribe_cases)
  case wildcard
  show ?thesis
  proof (cases "ca_gateway_id (cd_address cmd) = ca_device_id (cd_address cmd)")
    case True
    then show ?thesis
      using wildcard inbox_levels[of "[]" "cd_command cmd"] by (auto simp: topic_matches_def)
  next
    case False
    then show ?thesis
      using wildcard inbox_levels[of "ca_device_id (cd_address cmd)" "cd_command cmd"] by (auto simp: topic_matches_def)
  qed
next
  case self
  then have "ca_device_id (cd_address cmd) = dev" "ca_gateway_id (cd_address cmd) = dev"
    using assms(2,3) by (auto simp: wants_def into_command_filter_def filter_device_def with_filter_def)
  then show ?thesis using self inbox_levels[of "[]" "cd_command cmd"] by (simp add: topic_matches_def)
next
  case (device d)
  have "ca_device_id (cd_address cmd) = d"
    using assms(2,3) device
    by (auto simp: wants_def into_command_filter_def filter_device_def filter_proxied_device_def with_filter_def split: if_splits)
  moreover have "split_on (CHR ''/'') d = [d]"
    using split_on_parts_no_sep[of d "CHR ''/''" path] device(3) by simp
  ultimately show ?thesis
    using device inbox_levels[of d "cd_command cmd"] by (simp add: topic_matches_def)
qed

theorem command_topic_matches_witness:
  "topic_matches ''command/inbox/d/#'' (encode_command_topic (DefaultEncoder True) (demo_command ''g'' ''d'' ''on''))"
proof (rule command_topic_matches[where dialect = DrogueV1 and app = "''a''" and dev = "''g''" and te = demo_topics])
  show "parse_subscribe DrogueV1 ''command/inbox/d/#'' = Inr (\<lparr>sf_device = DfProxied ''d'', sf_command = None\<rparr>, DefaultEncoder True)"
    by code_simp
qed (simp_all add: wants_def into_command_filter_def filter_proxied_device_def with_filter_def demo_command_def filter_from_def)

text \<open>The exception: commands of other devices arrive under topics that were not asked for.\<close>

lemma self_subscription_gets_others:
  assumes "ca_app_id (cd_address cmd) = app" and "ca_gateway_id (cd_address cmd) = dev" and "ca_device_id (cd_address cmd) = d"
    and "d \<noteq> dev" and "d \<noteq> []" and "CHR ''/'' \<notin> set d"
  shows "wants te (into_command_filter (app, dev) \<lparr>sf_device = DfDevice, sf_command = None\<rparr>) cmd
     \<and> \<not> topic_matches ''command/inbox//#'' (encode_command_topic (DefaultEncoder False) cmd)"
proof -
  have "split_on (CHR ''/'') ''command/inbox//#'' = [''command'', ''inbox'', [], ''#'']" by code_simp
  moreover have "split_on (CHR ''/'') d = [d]" using assms(6) by simp
  ultimately have "\<not> topic_matches ''command/inbox//#'' (encode_command_topic (DefaultEncoder False) cmd)"
    using assms(2-5) inbox_levels[of d "cd_command cmd"] by (simp add: topic_matches_def)
  then show ?thesis
    using assms(1-3) by (simp add: wants_def into_command_filter_def filter_device_def with_filter_def filter_from_def)
qed

end
