(* ===== verification/Mqtt_Common.thy ===== *)
theory Mqtt_Common
  imports Drogue_Prelude
begin

text \<open>
  The MQTT protocol layer shared by the endpoint and the integration (\<open>mqtt-common/src\<close>):
  errors and their acknowledgements, and the dispatch of packets to the operations of a
  session, for both protocol versions.

  The packets and the server are those of a library; a session is given by its operations,
  which may fail to return (\<open>None\<close>).
\<close>

section \<open>Errors\<close>

datatype mqtt_publish_error =
    PublishInternalError string
  | QuotaExceeded
  | PublishNotAuthorized
  | PublishUnsupportedOperation
  | PayloadFormatInvalid
  | UnspecifiedError
  | TopicNameInvalid
  | PublishProtocolError

datatype server_error =
    ServerInternalError string
  | ServerProtocolError
  | ServerUnsupportedOperation
  | AuthenticationFailed
  | ServerNotAuthorized
  | ServerPublishError mqtt_publish_error
  | ServerConfiguration string
  | ServerStateError string

datatype ack_code =
    AckSuccess | AckUnspecifiedError | AckImplementationSpecificError | AckNotAuthorized | AckQuotaExceeded
  | AckPayloadFormatInvalid | AckTopicNameInvalid

fun publish_error_ack :: "mqtt_publish_error \<Rightarrow> string \<times> ack_code" where
  "publish_error_ack (PublishInternalError msg) = (msg, AckUnspecifiedError)"
| "publish_error_ack UnspecifiedError = (''Unspecified error'', AckUnspecifiedError)"
| "publish_error_ack PublishUnsupportedOperation = (''Unsupported operation'', AckImplementationSpecificError)"
| "publish_error_ack PublishNotAuthorized = (''Not authorized'', AckNotAuthorized)"
| "publish_error_ack QuotaExceeded = (''Quota exceeded'', AckQuotaExceeded)"
| "publish_error_ack PayloadFormatInvalid = (''Payload format invalid'', AckPayloadFormatInvalid)"
| "publish_error_ack TopicNameInvalid = (''Topic name is invalid'', AckTopicNameInvalid)"
| "publish_error_ack PublishProtocolError = (''Protocol error'', AckUnspecifiedError)"

datatype mqtt_version = V3 | V5

datatype connect_code = ConnectAccepted | BadUserNameOrPassword | ConnectNotAuthorized | ConnectUnavailable | ConnectUnspecified

fun server_error_ack :: "mqtt_version \<Rightarrow> server_error \<Rightarrow> connect_code" where
  "server_error_ack _ AuthenticationFailed = BadUserNameOrPassword"
| "server_error_ack _ ServerNotAuthorized = ConnectNotAuthorized"
| "server_error_ack V3 _ = ConnectUnavailable"
| "server_error_ack V5 _ = ConnectUnspecified"

section \<open>Packets\<close>

datatype disconnect_reason = NormalDisconnection | DisconnectWithWill | ReasonProtocolError | ReasonUnspecified | SessionTakenOver | OtherReason nat

record publish_packet =
  pp_topic :: string
  pp_payload :: string
  pp_content_type :: "string option"
  pp_user_properties :: "(string \<times> string) list"

datatype qos = AtMostOnce | AtLeastOnce | ExactlyOnce

record subscribe_packet =
  sp_id :: "nat option"
  sp_topics :: "(string \<times> qos) list"
  sp_user_properties :: "(string \<times> string) list"

datatype sub_ack =
    SubConfirmed qos
  | SubIdentifiersNotSupported
  | SubUnspecifiedError
  | SubNotAuthorized
  | SubWildcardNotSupported
  | SubTopicFilterInvalid

datatype unsub_ack = UnsubSuccess | NoSubscriptionExisted

datatype close_reason = ConnectionClosed bool | PeerGone

fun was_error :: "close_reason \<Rightarrow> bool" where
  "was_error (ConnectionClosed e) = e"
| "was_error PeerGone = True"

text \<open>What the packets of version 3 do not have.\<close>

definition packet_content_type :: "mqtt_version \<Rightarrow> publish_packet \<Rightarrow> string option" where
  "packet_content_type v p = (case v of V3 \<Rightarrow> None | V5 \<Rightarrow> pp_content_type p)"

definition packet_subscription_id :: "mqtt_version \<Rightarrow> subscribe_packet \<Rightarrow> nat option" where
  "packet_subscription_id v p = (case v of V3 \<Rightarrow> None | V5 \<Rightarrow> sp_id p)"

definition reason_code :: "mqtt_version \<Rightarrow> disconnect_reason \<Rightarrow> disconnect_reason" where
  "reason_code v reason = (case v of V3 \<Rightarrow> NormalDisconnection | V5 \<Rightarrow> reason)"

section \<open>Dispatch\<close>

text \<open>The trait \<open>Session\<close>: the operations on a state that the session shares with the server.\<close>

record 's session_ops =
  so_publish :: "mqtt_version \<Rightarrow> publish_packet \<Rightarrow> 's \<Rightarrow> ((mqtt_publish_error + unit) \<times> 's) option"
  so_subscribe :: "mqtt_version \<Rightarrow> subscribe_packet \<Rightarrow> 's \<Rightarrow> ((server_error + sub_ack list) \<times> 's) option"
  so_unsubscribe :: "string list \<Rightarrow> 's \<Rightarrow> ((server_error + unsub_ack list) \<times> 's) option"
  so_disconnect :: "disconnect_reason \<Rightarrow> 's \<Rightarrow> ((server_error + unit) \<times> 's) option"
  so_closed :: "close_reason \<Rightarrow> 's \<Rightarrow> ((server_error + unit) \<times> 's) option"

datatype control_message =
    MsgAuth
  | MsgError server_error
  | MsgProtocolError
  | MsgPing
  | MsgDisconnect disconnect_reason
  | MsgPeerGone
  | MsgSubscribe subscribe_packet
  | MsgUnsubscribe "string list"
  | MsgClosed bool

datatype control_result =
    ResultAck
  | ResultDisconnect disconnect_reason
  | ResultSubAck "sub_ack list"
  | ResultUnsubAck "unsub_ack list"

definition connect_answer :: "(server_error + 's) \<Rightarrow> connect_code \<times> 's option" where
  "connect_answer r = (case r of Inr session \<Rightarrow> (ConnectAccepted, Some session) | Inl _ \<Rightarrow> (BadUserNameOrPassword, None))"

definition publish_v3 :: "'s session_ops \<Rightarrow> publish_packet \<Rightarrow> 's \<Rightarrow> ((server_error + unit) \<times> 's) option" where
  "publish_v3 ops p s =
     map_option (\<lambda>(r, s). (case r of Inl e \<Rightarrow> Inl (ServerPublishError e) | Inr _ \<Rightarrow> Inr (), s)) (so_publish ops V3 p s)"

definition publish_v5 :: "'s session_ops \<Rightarrow> publish_packet \<Rightarrow> 's \<Rightarrow> ((server_error + string \<times> ack_code) \<times> 's) option" where
  "publish_v5 ops p s =
     map_option (\<lambda>(r, s). (Inr (case r of Inl e \<Rightarrow> publish_error_ack e | Inr _ \<Rightarrow> ([], AckSuccess)), s)) (so_publish ops V5 p s)"

definition acked :: "('a \<Rightarrow> control_result) \<Rightarrow> ((server_error + 'a) \<times> 's) option \<Rightarrow> ((server_error + control_result) \<times> 's) option" where
  "acked f r = map_option (\<lambda>(r, s). (rbind r (\<lambda>x. Inr (f x)), s)) r"

fun control_v3 :: "'s session_ops \<Rightarrow> control_message \<Rightarrow> 's \<Rightarrow> ((server_error + control_result) \<times> 's) option" where
  "control_v3 ops (MsgDisconnect d) s = acked (\<lambda>_. ResultAck) (so_disconnect ops (reason_code V3 d) s)"
| "control_v3 ops MsgPeerGone s = acked (\<lambda>_. ResultAck) (so_closed ops PeerGone s)"
| "control_v3 ops (MsgSubscribe p) s = acked ResultSubAck (so_subscribe ops V3 p s)"
| "control_v3 ops (MsgUnsubscribe ts) s = acked (\<lambda>_. ResultAck) (so_unsubscribe ops ts s)"
| "control_v3 ops (MsgClosed e) s = acked (\<lambda>_. ResultAck) (so_closed ops (ConnectionClosed e) s)"
| "control_v3 ops _ s = Some (Inr ResultAck, s)"

fun control_v5 :: "'s session_ops \<Rightarrow> control_message \<Rightarrow> 's \<Rightarrow> ((server_error + control_result) \<times> 's) option" where
  "control_v5 ops (MsgError e) s =
     Some (Inr (ResultDisconnect (if e = ServerProtocolError then ReasonProtocolError else ReasonUnspecified)), s)"
| "control_v5 ops (MsgDisconnect d) s = acked (\<lambda>_. ResultAck) (so_disconnect ops (reason_code V5 d) s)"
| "control_v5 ops MsgPeerGone s = acked (\<lambda>_. ResultAck) (so_closed ops PeerGone s)"
| "control_v5 ops (MsgSubscribe p) s = acked ResultSubAck (so_subscribe ops V5 p s)"
| "control_v5 ops (MsgUnsubscribe ts) s = acked ResultUnsubAck (so_unsubscribe ops ts s)"
| "control_v5 ops (MsgClosed e) s = acked (\<lambda>_. ResultAck) (so_closed ops (ConnectionClosed e) s)"
| "control_v5 ops _ s = Some (Inr ResultAck, s)"

section \<open>Connections\<close>

text \<open>The packets of a connection, one after the other.\<close>

datatype mqtt_packet = PacketPublish publish_packet | PacketControl control_message

definition handle_packet :: "'s session_ops \<Rightarrow> mqtt_version \<Rightarrow> mqtt_packet \<Rightarrow> 's \<Rightarrow> 's option" where
  "handle_packet ops v p s =
     (case p of
        PacketPublish p \<Rightarrow> (case v of V3 \<Rightarrow> map_option snd (publish_v3 ops p s) | V5 \<Rightarrow> map_option snd (publish_v5 ops p s))
      | PacketControl m \<Rightarrow> (case v of V3 \<Rightarrow> map_option snd (control_v3 ops m s) | V5 \<Rightarrow> map_option snd (control_v5 ops m s)))"

fun handle_packets :: "'s session_ops \<Rightarrow> mqtt_version \<Rightarrow> mqtt_packet list \<Rightarrow> 's \<Rightarrow> 's option" where
  "handle_packets ops v [] s = Some s"
| "handle_packets ops v (p # ps) s = Option.bind (handle_packet ops v p s) (handle_packets ops v ps)"

text \<open>An invariant that every operation of a session keeps, and a packet that establishes more.\<close>

locale session_contract =
  fixes ops :: "'s session_ops" and good :: "'s \<Rightarrow> bool"
  assumes publish_good: "good s \<Longrightarrow> so_publish ops v p s = Some (r1, s') \<Longrightarrow> good s'"
    and subscribe_good: "good s \<Longrightarrow> so_subscribe ops v sp s = Some (r2, s') \<Longrightarrow> good s'"
    and unsubscribe_good: "good s \<Longrightarrow> so_unsubscribe ops ts s = Some (r3, s') \<Longrightarrow> good s'"
    and disconnect_good: "good s \<Longrightarrow> so_disconnect ops d s = Some (r4, s') \<Longrightarrow> good s'"
    and closed_good: "good s \<Longrightarrow> so_closed ops cl s = Some (r4, s') \<Longrightarrow> good s'"
begin

lemma control_good:
  "good s \<Longrightarrow> control_v3 ops m s = Some (r, s') \<Longrightarrow> good s'"
  "good s \<Longrightarrow> control_v5 ops m s = Some (r, s') \<Longrightarrow> good s'"
  by (cases m; auto simp: acked_def intro: subscribe_good unsubscribe_good disconnect_good closed_good)+

lemma packet_good: "good s \<Longrightarrow> handle_packet ops v p s = Some s' \<Longrightarrow> good s'"
  by (cases p; cases v) (auto simp: handle_packet_def publish_v3_def publish_v5_def intro: publish_good control_good)

lemma packets_good: "good s \<Longrightarrow> handle_packets ops v ps s = Some s' \<Longrightarrow> good s'"
  by (induction ps arbitrary: s) (auto simp: bind_eq_Some_conv intro: packet_good)

end

end
