(* ===== verification/Device_Cache.thy ===== *)
theory Device_Cache
  imports Event_Rules Mqtt_Common
begin

text \<open>
  The cache of an MQTT session for the devices it acts for
  (\<open>mqtt-endpoint/src/service/session/cache.rs\<close>): outcomes of the authorization, also negative
  ones, with a time to live.  The entries are kept in the order of their last use; the LRU
  map is the one of the event rules.

  A lookup reads the clock before (\<open>now\<close>) and after (\<open>later\<close>) the authorization service is
  asked; the answer of the service is an argument.
\<close>

section \<open>The cache\<close>

record 'a cache_entry =
  cn_device :: "'a option"
  cn_expired :: timestamp

record 'a device_cache =
  dc_cache :: "(string \<times> 'a cache_entry) list"
  dc_capacity :: nat
  dc_ttl :: int
  dc_next_evict :: timestamp

definition entry_new :: "'a option \<Rightarrow> int \<Rightarrow> timestamp \<Rightarrow> 'a cache_entry" where
  "entry_new device ttl now = \<lparr>cn_device = device, cn_expired = now + ttl\<rparr>"

definition entry_expired :: "'a cache_entry \<Rightarrow> timestamp \<Rightarrow> bool" where
  "entry_expired e now \<longleftrightarrow> now \<ge> cn_expired e"

definition device_cache_new :: "nat \<Rightarrow> int \<Rightarrow> timestamp \<Rightarrow> 'a device_cache" where
  "device_cache_new capacity ttl now =
     \<lparr>dc_cache = [], dc_capacity = (if capacity = 0 then 1 else capacity), dc_ttl = ttl, dc_next_evict = now\<rparr>"

definition do_evict :: "timestamp \<Rightarrow> (string \<times> 'a cache_entry) list \<Rightarrow> (string \<times> 'a cache_entry) list" where
  "do_evict now cache = filter (\<lambda>(_, v). \<not> entry_expired v now) cache"

definition evict :: "timestamp \<Rightarrow> 'a device_cache \<Rightarrow> 'a device_cache" where
  "evict now dc = dc\<lparr>dc_cache := do_evict now (dc_cache dc)\<rparr>"

definition device_result :: "'a option \<Rightarrow> mqtt_publish_error + 'a" where
  "device_result device = (case device of Some d \<Rightarrow> Inr d | None \<Rightarrow> Inl PublishNotAuthorized)"

definition load_and_cache ::
  "timestamp \<Rightarrow> string \<Rightarrow> ('e + 'a option) \<Rightarrow> 'a device_cache \<Rightarrow> (mqtt_publish_error + 'a) \<times> 'a device_cache" where
  "load_and_cache later as_device answer dc =
     (case answer of
        Inl _ \<Rightarrow> (Inl (PublishInternalError ''Failed to authorize device''), dc)
      | Inr outcome \<Rightarrow>
          let entry = entry_new outcome (dc_ttl dc) later;
              dc = (if length (dc_cache dc) = dc_capacity dc \<and> dc_next_evict dc \<le> later
                    then dc\<lparr>dc_next_evict := later + dc_ttl dc, dc_cache := do_evict later (dc_cache dc)\<rparr> else dc);
              dc = dc\<lparr>dc_cache := lru_put (dc_capacity dc) as_device entry (dc_cache dc)\<rparr>
          in (device_result (cn_device entry), dc))"

definition cache_fetch ::
  "timestamp \<Rightarrow> timestamp \<Rightarrow> string \<Rightarrow> ('e + 'a option) \<Rightarrow> 'a device_cache \<Rightarrow> (mqtt_publish_error + 'a) \<times> 'a device_cache" where
  "cache_fetch now later as_device answer dc =
     (case lru_get as_device (dc_cache dc) of
        (Some entry, cache) \<Rightarrow>
          if \<not> entry_expired entry now then (device_result (cn_device entry), dc\<lparr>dc_cache := cache\<rparr>)
          else load_and_cache later as_device answer (dc\<lparr>dc_cache := filter (\<lambda>e. fst e \<noteq> as_device) cache\<rparr>)
      | (None, cache) \<Rightarrow> load_and_cache later as_device answer (dc\<lparr>dc_cache := cache\<rparr>))"

lemma device_result_inj [simp]: "device_result a = device_result b \<longleftrightarrow> a = b"
  by (auto simp: device_result_def split: option.splits)

lemma device_result_Inl [simp]: "device_result a \<noteq> Inl (PublishInternalError s)" "Inl (PublishInternalError s) \<noteq> device_result a"
  by (auto simp: device_result_def split: option.splits)

section \<open>What is cached\<close>

text \<open>The history of a cache: the answers of the service, with the time they were given.\<close>

type_synonym ('e, 'a) asked = "timestamp \<times> string \<times> ('e + 'a option)"

definition cache_inv :: "('e, 'a) asked list \<Rightarrow> 'a device_cache \<Rightarrow> bool" where
  "cache_inv asked dc \<longleftrightarrow> 0 < dc_capacity dc \<and> length (dc_cache dc) \<le> dc_capacity dc
     \<and> (\<forall>(dev, e) \<in> set (dc_cache dc). \<exists>t. (t, dev, Inr (cn_device e)) \<in> set asked \<and> cn_expired e = t + dc_ttl dc)"

lemma cache_inv_new: "cache_inv [] (device_cache_new capacity ttl now)"
  by (simp add: cache_inv_def device_cache_new_def)

lemma cache_inv_subset:
  assumes "cache_inv asked dc" and "set cache \<subseteq> set (dc_cache dc)" and "length cache \<le> dc_capacity dc"
  shows "cache_inv (asked' @ asked) (dc\<lparr>dc_cache := cache\<rparr>)"
  using assms unfolding cache_inv_def by fastforce

lemma lru_get_list:
  assumes "lru_get k cache = (r, cache')"
  shows "set cache' \<subseteq> set cache" and "length cache' \<le> length cache" and "r = Some v \<Longrightarrow> (k, v) \<in> set cache"
proof -
  have len: "length (filter (\<lambda>e. fst e \<noteq> k) cache) < length cache" if "map_of cache k = Some v" for v
    using map_of_SomeD[OF that] by (intro length_filter_less[of "(k, v)"]) auto
  show "set cache' \<subseteq> set cache"
    using assms by (cases "map_of cache k") (auto simp: lru_get_def dest: map_of_SomeD[OF sym])
  show "length cache' \<le> length cache"
    using assms len by (cases "map_of cache k") (fastforce simp: lru_get_def)+
  show "r = Some v \<Longrightarrow> (k, v) \<in> set cache"
    using assms by (cases "map_of cache k") (auto simp: lru_get_def dest: map_of_SomeD)
qed

lemma lru_put_list: "set (lru_put n k v c) \<subseteq> insert (k, v) (set c)" "length (lru_put n k v c) \<le> n"
  by (auto simp: lru_put_def dest: in_set_takeD)

lemma load_and_cache_inv:
  assumes "cache_inv asked dc" and "load_and_cache later dev answer dc = (r, dc')"
  shows "cache_inv ((later, dev, answer) # asked) dc' \<and> dc_ttl dc' = dc_ttl dc \<and> dc_capacity dc' = dc_capacity dc
     \<and> (\<forall>out. r = device_result out \<longrightarrow> answer = Inr out)"
proof (cases answer)
  case (Inl e)
  then show ?thesis using assms cache_inv_subset[OF assms(1), of "dc_cache dc" "[(later, dev, answer)]"]
    by (auto simp: load_and_cache_def cache_inv_def)
next
  case (Inr outcome)
  let ?dc = "if length (dc_cache dc) = dc_capacity dc \<and> dc_next_evict dc \<le> later
      then dc\<lparr>dc_next_evict := later + dc_ttl dc, dc_cache := do_evict later (dc_cache dc)\<rparr> else dc"
  have dc': "dc' = ?dc\<lparr>dc_cache := lru_put (dc_capacity ?dc) dev (entry_new outcome (dc_ttl dc) later) (dc_cache ?dc)\<rparr>"
    and r: "r = device_result outcome"
    using assms(2) Inr by (auto simp: load_and_cache_def Let_def entry_new_def)
  have sub: "set (dc_cache ?dc) \<subseteq> set (dc_cache dc)" "dc_ttl ?dc = dc_ttl dc" "dc_capacity ?dc = dc_capacity dc"
    by (auto simp: do_evict_def)
  have "cache_inv ((later, dev, answer) # asked) dc'"
    using assms(1) sub lru_put_list[of "dc_capacity dc" dev "entry_new outcome (dc_ttl dc) later" "dc_cache ?dc"] Inr
    unfolding cache_inv_def dc' by (fastforce simp: entry_new_def)
  then show ?thesis using sub r Inr by (auto simp: dc')
qed

lemma cache_fetch_inv:
  assumes "cache_inv asked dc" and "cache_fetch now later dev answer dc = (r, dc')"
  shows "cache_inv ((later, dev, answer) # asked) dc' \<and> dc_ttl dc' = dc_ttl dc \<and> dc_capacity dc' = dc_capacity dc
     \<and> (\<forall>out. r = device_result out \<longrightarrow> answer = Inr out \<or> (\<exists>t. (t, dev, Inr out) \<in> set asked \<and> now < t + dc_ttl dc))"
proof -
  obtain e cache where g: "lru_get dev (dc_cache dc) = (e, cache)" by fastforce
  note l = lru_get_list[OF g]
  have cap: "length cache \<le> dc_capacity dc" using assms(1) l(2) by (simp add: cache_inv_def)
  have sub: "set cache \<subseteq> set (dc_cache dc)" by (rule l(1))
  have load: ?thesis if "load_and_cache later dev answer (dc\<lparr>dc_cache := c\<rparr>) = (r, dc')" "set c \<subseteq> set (dc_cache dc)"
      "length c \<le> dc_capacity dc" for c
    using load_and_cache_inv[OF _ that(1), of asked] cache_inv_subset[OF assms(1) that(2,3), of "[]"] by simp
  show ?thesis
  proof (cases "\<exists>v. e = Some v \<and> \<not> entry_expired v now")
    case True
    then obtain v where v: "e = Some v" "\<not> entry_expired v now" by blast
    have "(dev, v) \<in> set (dc_cache dc)" using l(3) v(1) by blast
    then obtain t where t: "(t, dev, Inr (cn_device v)) \<in> set asked" "cn_expired v = t + dc_ttl dc"
      using assms(1) unfolding cache_inv_def by fastforce
    have dc': "dc' = dc\<lparr>dc_cache := cache\<rparr>" "r = device_result (cn_device v)" using assms(2) g v by (auto simp: cache_fetch_def)
    show ?thesis
      using cache_inv_subset[OF assms(1) sub cap, of "[(later, dev, answer)]"] dc' t v(2)
      by (auto simp: entry_expired_def)
  next
    case False
    show ?thesis
    proof (cases e)
      case None
      then show ?thesis using load[OF _ sub cap] assms(2) g by (simp add: cache_fetch_def)
    next
      case (Some v)
      then have "load_and_cache later dev answer (dc\<lparr>dc_cache := filter (\<lambda>e. fst e \<noteq> dev) cache\<rparr>) = (r, dc')"
        using False assms(2) g by (simp add: cache_fetch_def)
      moreover have "set (filter (\<lambda>e. fst e \<noteq> dev) cache) \<subseteq> set (dc_cache dc)" using sub by auto
      moreover have "length (filter (\<lambda>e. fst e \<noteq> dev) cache) \<le> dc_capacity dc" using cap length_filter_le le_trans by blast
      ultimately show ?thesis by (rule load)
    qed
  qed
qed

text \<open>A session looks up devices one after the other; the cache is locked meanwhile.\<close>

definition run_fetches :: "(timestamp \<times> ('e, 'a) asked) list \<Rightarrow> 'a device_cache \<Rightarrow> 'a device_cache" where
  "run_fetches = fold (\<lambda>(now, later, dev, answer) dc. snd (cache_fetch now later dev answer dc))"

lemma run_fetches_inv:
  "cache_inv asked dc \<Longrightarrow> cache_inv (rev (map snd qs) @ asked) (run_fetches qs dc)
     \<and> dc_ttl (run_fetches qs dc) = dc_ttl dc \<and> dc_capacity (run_fetches qs dc) = dc_capacity dc"
proof (induction qs arbitrary: asked dc)
  case Nil
  then show ?case by (simp add: run_fetches_def)
next
  case (Cons q qs)
  obtain now later dev answer where q: "q = (now, later, dev, answer)" by (cases q)
  obtain r dc' where f: "cache_fetch now later dev answer dc = (r, dc')" by fastforce
  have dc': "run_fetches (q # qs) dc = run_fetches qs dc'" by (simp add: run_fetches_def q f)
  show ?case
    using cache_fetch_inv[OF Cons.prems f] Cons.IH[of "(later, dev, answer) # asked" dc'] unfolding dc' by (simp add: q)
qed

section \<open>Properties\<close>

text \<open>
  C26. The cache of a session holds no more devices than configured (and at least one), and a
  lookup gives an answer of the authorization service that is younger than the time to live:
  a device that the session may no longer act for is rejected after that time at the latest,
  and so is the wrong rejection of a device it may act for.
\<close>

theorem cached_authorization_fresh:
  fixes qs :: "(timestamp \<times> ('e, 'a) asked) list" and answer :: "'e + 'a option"
  assumes "cache_fetch now later dev answer (run_fetches qs (device_cache_new capacity ttl t0)) = (r, dc')"
  shows "length (dc_cache dc') \<le> max 1 capacity
     \<and> (\<forall>out. r = device_result out \<longrightarrow>
          answer = Inr out \<or> (\<exists>n t. (n, t, dev, Inr out) \<in> set qs \<and> now < t + ttl))"
proof -
  let ?dc = "device_cache_new capacity ttl t0 :: 'a device_cache"
  have run: "cache_inv (rev (map snd qs)) (run_fetches qs ?dc)" "dc_ttl (run_fetches qs ?dc) = ttl"
      "dc_capacity (run_fetches qs ?dc) = max 1 capacity"
    using run_fetches_inv[OF cache_inv_new, of qs capacity ttl t0] by (auto simp: device_cache_new_def)
  have "length (dc_cache dc') \<le> max 1 capacity"
    using cache_fetch_inv[OF run(1) assms] run(3) by (auto simp: cache_inv_def)
  moreover have "answer = Inr out \<or> (\<exists>n t. (n, t, dev, Inr out) \<in> set qs \<and> now < t + ttl)" if "r = device_result out" for out
    using cache_fetch_inv[OF run(1) assms] that unfolding run(2) by fastforce
  ultimately show ?thesis by blast
qed

theorem cached_authorization_fresh_witness:
  "\<exists>n t. (n, t, ''d'', Inr (Some True)) \<in> set [(0, 1, ''d'', Inr (Some True) :: unit + bool option)] \<and> (5::int) < t + 10"
proof -
  have "cache_fetch 5 6 ''d'' (Inr None) (run_fetches [(0, 1, ''d'', Inr (Some True) :: unit + bool option)] (device_cache_new 0 10 0)) =
      (device_result (Some True), run_fetches [(0, 1, ''d'', Inr (Some True) :: unit + bool option)] (device_cache_new 0 10 0))"
    by code_simp
  from cached_authorization_fresh[OF this] show ?thesis by simp
qed

end
