(* ===== verification/Device_State.thy ===== *)
theory Device_State
  imports Event_Sender
begin

text \<open>
  The device state service (\<open>device-state-service/src/service\<close>): sessions of the protocol
  endpoints, one state for each connected device, connection events and last wills.  The
  tables are \<open>sessions\<close> and \<open>states\<close> of the schema.

  Parameters: the lookup of an application in the registry, the outcome of publishing an
  event downstream, the text form of UUIDs and the clock.  An event that was accepted
  cannot be taken back, so the log of accepted events survives a rolled back transaction.
\<close>

section \<open>Data\<close>

record last_will =
  lw_channel :: string
  lw_payload :: string
  lw_content_type :: "string option"

record device_state =
  ds_device_uid :: string
  ds_endpoint :: string
  ds_lwt :: "last_will option"

datatype state_error =
    NotInitialized
  | ApplicationNotFound
  | InternalState string
  | DatabaseState sql_state
  | RegistryError
  | PublishErr

fun state_error_response :: "state_error \<Rightarrow> nat \<times> string" where
  "state_error_response NotInitialized = (412, ''NotInitialized'')"
| "state_error_response ApplicationNotFound = (400, ''ApplicationNotFound'')"
| "state_error_response (InternalState _) = (500, ''Internal'')"
| "state_error_response (DatabaseState _) = (503, ''Database'')"
| "state_error_response RegistryError = (503, ''Registry'')"
| "state_error_response PublishErr = (503, ''Publish'')"

datatype create_response = Created | Occupied

record session_row =
  se_ID :: uuid
  se_LAST_PING :: timestamp

record state_row =
  sw_APPLICATION :: string
  sw_DEVICE :: string
  sw_SESSION :: uuid
  sw_TOKEN :: string
  sw_CREATED :: timestamp
  sw_LOST :: bool
  sw_DATA :: "device_state option"

record state_db =
  sd_sessions :: "session_row list"
  sd_states :: "state_row list"
  sd_sent :: "(publish \<times> string) list"

record state_env =
  sv_timeout :: int
  sv_lookup :: "string \<Rightarrow> unit + api_application option"
  sv_publish :: "publish \<Rightarrow> string \<Rightarrow> publish_error + publish_outcome"
  sv_parse_uuid :: "string \<Rightarrow> uuid option"
  sv_uuid_str :: "uuid \<Rightarrow> string"

definition state_key :: "state_row \<Rightarrow> string \<times> string" where
  "state_key r = (sw_APPLICATION r, sw_DEVICE r)"

section \<open>Events\<close>

definition send_event ::
  "state_env \<Rightarrow> publish \<Rightarrow> string \<Rightarrow> (publish \<times> string) list \<Rightarrow> (state_error + unit) \<times> (publish \<times> string) list" where
  "send_event sv pub body sent =
     (case sv_publish sv pub body of
        Inl PubSpec \<Rightarrow> (Inr (), sent)
      | Inl _ \<Rightarrow> (Inl PublishErr, sent)
      | Inr Accepted \<Rightarrow> (Inr (), sent @ [(pub, body)])
      | Inr Rejected \<Rightarrow> (Inl (InternalState ''Unable to send event: Ok(Rejected)''), sent)
      | Inr QueueFull \<Rightarrow> (Inl (InternalState ''Unable to send event: Ok(QueueFull)''), sent))"

definition CONNECTION_TYPE_EVENT :: string where
  "CONNECTION_TYPE_EVENT = ''io.drogue.connection.v1''"

definition connection_body :: "bool \<Rightarrow> string" where
  "connection_body connected = ''{'' @ [CHR 0x22] @ ''connected'' @ [CHR 0x22] @ '':''
     @ (if connected then ''true'' else ''false'') @ ''}''"

definition connection_event :: "api_application \<Rightarrow> publish_id \<Rightarrow> publish" where
  "connection_event application device =
     \<lparr>pb_application = application, pb_device = device, pb_sender = device,
      pb_channel = ''connection'',
      pb_options = default_options\<lparr>po_type := Some CONNECTION_TYPE_EVENT,
                                   po_content_type := Some ''application/json''\<rparr>\<rparr>"

definition send_connection_event ::
  "state_env \<Rightarrow> api_application \<Rightarrow> publish_id \<Rightarrow> bool \<Rightarrow> (publish \<times> string) list
    \<Rightarrow> (state_error + unit) \<times> (publish \<times> string) list" where
  "send_connection_event sv application device connected sent =
     send_event sv (connection_event application device) (connection_body connected) sent"

definition send_lwt_event ::
  "state_env \<Rightarrow> api_application \<Rightarrow> publish_id \<Rightarrow> last_will \<Rightarrow> (publish \<times> string) list
    \<Rightarrow> (state_error + unit) \<times> (publish \<times> string) list" where
  "send_lwt_event sv application device lwt sent =
     send_event sv \<lparr>pb_application = application, pb_device = device, pb_sender = device,
        pb_channel = lw_channel lwt, pb_options = default_options\<lparr>po_content_type := lw_content_type lwt\<rparr>\<rparr>
       (lw_payload lwt) sent"

definition send_disconnect_from_delete ::
  "state_env \<Rightarrow> bool \<Rightarrow> state_row \<Rightarrow> (publish \<times> string) list \<Rightarrow> (state_error + unit) \<times> (publish \<times> string) list" where
  "send_disconnect_from_delete sv skip_lwt row sent =
     (let state = sw_DATA row in
      case sv_lookup sv (sw_APPLICATION row) of
        Inl _ \<Rightarrow> (Inl RegistryError, sent)
      | Inr None \<Rightarrow> (Inr (), sent)
      | Inr (Some application) \<Rightarrow>
          let device = \<lparr>pi_name = sw_DEVICE row, pi_uid = map_option ds_device_uid state\<rparr>;
              (r, sent) = (if \<not> skip_lwt then
                  (case Option.bind state ds_lwt of
                     Some lwt \<Rightarrow> send_lwt_event sv application device lwt sent
                   | None \<Rightarrow> (Inr (), sent))
                else (Inr (), sent))
          in (case r of
                Inl e \<Rightarrow> (Inl e, sent)
              | Inr _ \<Rightarrow> send_connection_event sv application device False sent))"

section \<open>Operations\<close>

definition state_init ::
  "state_env \<Rightarrow> uuid \<Rightarrow> timestamp \<Rightarrow> state_db \<Rightarrow> (state_error + (string \<times> timestamp)) \<times> state_db" where
  "state_init sv session now db =
     (case insert_row se_ID \<lparr>se_ID = session, se_LAST_PING = now\<rparr> (sd_sessions db) of
        None \<Rightarrow> (Inl (DatabaseState UNIQUE_VIOLATION), db)
      | Some rows \<Rightarrow> (Inr (sv_uuid_str sv session, now + sv_timeout sv), db\<lparr>sd_sessions := rows\<rparr>))"

text \<open>
  \<open>create\<close>: the row is inserted, or the one that is there is marked as lost.  The event of a
  new row is sent before the commit; if that fails the insertion is rolled back.
\<close>

definition state_create ::
  "state_env \<Rightarrow> timestamp \<Rightarrow> string \<Rightarrow> string \<Rightarrow> string \<Rightarrow> string \<Rightarrow> device_state \<Rightarrow> state_db
    \<Rightarrow> (state_error + create_response) \<times> state_db" where
  "state_create sv now session application device token state db =
     (case sv_lookup sv application of
        Inl _ \<Rightarrow> (Inl RegistryError, db)
      | Inr None \<Rightarrow> (Inl ApplicationNotFound, db)
      | Inr (Some app) \<Rightarrow>
          (case sv_parse_uuid sv session of
             None \<Rightarrow> (Inl (DatabaseState (OtherState ''22P02'')), db)
           | Some sid \<Rightarrow>
               if (application, device) \<in> state_key ` set (sd_states db)
               then (Inr Occupied, db\<lparr>sd_states := update_where
                       (\<lambda>r. state_key r = (application, device)) (\<lambda>r. r\<lparr>sw_LOST := True\<rparr>) (sd_states db)\<rparr>)
               else if sid \<notin> se_ID ` set (sd_sessions db)
               then (Inl (DatabaseState FOREIGN_KEY_VIOLATION), db)
               else let row = \<lparr>sw_APPLICATION = application, sw_DEVICE = device, sw_SESSION = sid,
                          sw_TOKEN = token, sw_CREATED = now, sw_LOST = False, sw_DATA = Some state\<rparr>;
                        (r, sent) = send_connection_event sv app
                          \<lparr>pi_name = device, pi_uid = Some (ds_device_uid state)\<rparr> True (sd_sent db)
                    in (case r of
                          Inl e \<Rightarrow> (Inl e, db\<lparr>sd_sent := sent\<rparr>)
                        | Inr _ \<Rightarrow> (Inr Created, db\<lparr>sd_states := sd_states db @ [row], sd_sent := sent\<rparr>))))"

definition state_delete ::
  "state_env \<Rightarrow> string \<Rightarrow> string \<Rightarrow> string \<Rightarrow> string \<Rightarrow> bool \<Rightarrow> state_db \<Rightarrow> (state_error + unit) \<times> state_db" where
  "state_delete sv session application device token skip_lwt db =
     (case sv_parse_uuid sv session of
        None \<Rightarrow> (Inl (DatabaseState (OtherState ''22P02'')), db)
      | Some sid \<Rightarrow>
          let gone = (\<lambda>r. sw_SESSION r = sid \<and> sw_APPLICATION r = application \<and> sw_DEVICE r = device
                          \<and> sw_TOKEN r = token);
              states = delete_where gone (sd_states db)
          in (case filter gone (sd_states db) of
                [] \<Rightarrow> (Inr (), db\<lparr>sd_states := states\<rparr>)
              | [row] \<Rightarrow>
                  let (r, sent) = send_disconnect_from_delete sv skip_lwt row (sd_sent db)
                  in (case r of
                        Inl e \<Rightarrow> (Inl e, db\<lparr>sd_sent := sent\<rparr>)
                      | Inr _ \<Rightarrow> (Inr (), db\<lparr>sd_states := states, sd_sent := sent\<rparr>))
              | _ \<Rightarrow> (Inl (DatabaseState (OtherState ''RowCount'')), db)))"

definition state_ping ::
  "state_env \<Rightarrow> timestamp \<Rightarrow> string \<Rightarrow> state_db
    \<Rightarrow> (state_error + (timestamp \<times> (string \<times> string) list)) \<times> state_db" where
  "state_ping sv now session db =
     (case sv_parse_uuid sv session of
        None \<Rightarrow> (Inl (DatabaseState (OtherState ''22P02'')), db)
      | Some sid \<Rightarrow>
          let alive = (\<lambda>r. se_ID r = sid \<and> se_LAST_PING r + sv_timeout sv > now);
              db' = db\<lparr>sd_sessions := update_where alive (\<lambda>r. r\<lparr>se_LAST_PING := now\<rparr>) (sd_sessions db)\<rparr>
          in if count_where alive (sd_sessions db) > 0
             then (Inr (now + sv_timeout sv,
                        map state_key (filter (\<lambda>r. sw_SESSION r = sid \<and> sw_LOST r) (sd_states db))), db')
             else (Inl NotInitialized, db'))"

definition state_get :: "string \<Rightarrow> string \<Rightarrow> state_db \<Rightarrow> state_error + (timestamp \<times> device_state) option" where
  "state_get application device db =
     (case filter (\<lambda>r. sw_APPLICATION r = application \<and> sw_DEVICE r = device) (sd_states db) of
        [] \<Rightarrow> Inr None
      | [row] \<Rightarrow> Inr (if \<not> sw_LOST row then map_option (\<lambda>state. (sw_CREATED row, state)) (sw_DATA row) else None)
      | _ \<Rightarrow> Inl (DatabaseState (OtherState ''RowCount'')))"

section \<open>Pruning\<close>

fun send_disconnects ::
  "state_env \<Rightarrow> state_row list \<Rightarrow> (publish \<times> string) list \<Rightarrow> (state_error + unit) \<times> (publish \<times> string) list" where
  "send_disconnects sv [] sent = (Inr (), sent)"
| "send_disconnects sv (row # rows) sent =
     (case send_disconnect_from_delete sv False row sent of
        (Inl e, sent') \<Rightarrow> (Inl e, sent')
      | (Inr _, sent') \<Rightarrow> send_disconnects sv rows sent')"

definition prune_session :: "state_env \<Rightarrow> uuid \<Rightarrow> state_db \<Rightarrow> (state_error + unit) \<times> state_db" where
  "prune_session sv sid db =
     (let deleted = filter (\<lambda>r. sw_SESSION r = sid) (sd_states db);
          (r, sent) = send_disconnects sv deleted (sd_sent db)
      in case r of
           Inl e \<Rightarrow> (Inl e, db\<lparr>sd_sent := sent\<rparr>)
         | Inr _ \<Rightarrow> (Inr (), \<lparr>sd_sessions = delete_where (\<lambda>s. se_ID s = sid) (sd_sessions db),
             sd_states = delete_where (\<lambda>r. sw_SESSION r = sid) (sd_states db), sd_sent = sent\<rparr>))"

definition expired :: "state_env \<Rightarrow> timestamp \<Rightarrow> session_row \<Rightarrow> bool" where
  "expired sv now r \<longleftrightarrow> se_LAST_PING r + sv_timeout sv \<le> now"

text \<open>\<open>ORDER BY LAST_PING ASC LIMIT 1\<close>\<close>

definition next_expired :: "state_env \<Rightarrow> timestamp \<Rightarrow> state_db \<Rightarrow> uuid option" where
  "next_expired sv now db =
     (case sort_key se_LAST_PING (filter (expired sv now) (sd_sessions db)) of
        [] \<Rightarrow> None | r # _ \<Rightarrow> Some (se_ID r))"

lemma next_expired_Some:
  "next_expired sv now db = Some sid \<Longrightarrow> \<exists>r \<in> set (sd_sessions db). se_ID r = sid \<and> expired sv now r"
proof -
  assume "next_expired sv now db = Some sid"
  then obtain r rs where "sort_key se_LAST_PING (filter (expired sv now) (sd_sessions db)) = r # rs"
    and "se_ID r = sid"
    by (auto simp: next_expired_def split: list.splits)
  moreover from this have "r \<in> set (filter (expired sv now) (sd_sessions db))"
    by (metis list.set_intros(1) set_sort)
  ultimately show ?thesis by auto
qed

lemma next_expired_None:
  "next_expired sv now db = None \<longleftrightarrow> (\<forall>r \<in> set (sd_sessions db). \<not> expired sv now r)"
proof -
  have "next_expired sv now db = None \<longleftrightarrow> sort_key se_LAST_PING (filter (expired sv now) (sd_sessions db)) = []"
    by (auto simp: next_expired_def split: list.splits)
  also have "\<dots> \<longleftrightarrow> set (filter (expired sv now) (sd_sessions db)) = {}"
    by (metis set_empty set_sort)
  finally show ?thesis by auto
qed

lemma prune_session_sessions:
  "prune_session sv sid db = (Inr u, db') \<Longrightarrow>
     sd_sessions db' = delete_where (\<lambda>s. se_ID s = sid) (sd_sessions db)
     \<and> sd_states db' = delete_where (\<lambda>r. sw_SESSION r = sid) (sd_states db)"
  by (auto simp: prune_session_def Let_def split: prod.splits sum.splits)

lemma prune_session_shrinks:
  assumes "next_expired sv now db = Some sid" and "prune_session sv sid db = (Inr u, db')"
  shows "length (sd_sessions db') < length (sd_sessions db)"
proof -
  obtain r where "r \<in> set (sd_sessions db)" "se_ID r = sid" using next_expired_Some[OF assms(1)] by blast
  with prune_session_sessions[OF assms(2)] show ?thesis
    by (auto simp: delete_where_def intro!: length_filter_less)
qed

text \<open>The loop of \<open>prune\<close>; the clock is read once for every round \<open>n\<close>.\<close>

function prune_loop ::
  "state_env \<Rightarrow> (nat \<Rightarrow> timestamp) \<Rightarrow> nat \<Rightarrow> state_db \<Rightarrow> (state_error + unit) \<times> nat \<times> state_db" where
  "prune_loop sv clock n db =
     (case next_expired sv (clock n) db of
        None \<Rightarrow> (Inr (), n, db)
      | Some sid \<Rightarrow>
          (case prune_session sv sid db of
             (Inl e, db') \<Rightarrow> (Inl e, n, db')
           | (Inr _, db') \<Rightarrow> prune_loop sv clock (Suc n) db'))"
  by pat_completeness auto

termination
  by (relation "measure (\<lambda>(sv, clock, n, db). length (sd_sessions db))")
    (auto intro: prune_session_shrinks dest: sym)

declare prune_loop.simps [simp del]

definition prune :: "state_env \<Rightarrow> (nat \<Rightarrow> timestamp) \<Rightarrow> state_db \<Rightarrow> (state_error + unit) \<times> state_db" where
  "prune sv clock db = (let (r, _, db') = prune_loop sv clock 0 db in (r, db'))"

section \<open>The invariant of the tables\<close>

definition state_inv :: "state_db \<Rightarrow> bool" where
  "state_inv db \<longleftrightarrow> pk se_ID (sd_sessions db) \<and> pk state_key (sd_states db)
     \<and> (\<forall>r \<in> set (sd_states db). sw_SESSION r \<in> se_ID ` set (sd_sessions db))"

lemma state_key_lost [simp]: "state_key (r\<lparr>sw_LOST := l\<rparr>) = state_key r"
  by (simp add: state_key_def)

lemma state_init_inv: "state_inv db \<Longrightarrow> state_inv (snd (state_init sv sid now db))"
  by (auto simp: state_init_def state_inv_def insert_row_def split: if_splits option.splits)

lemma state_create_inv:
  assumes "state_inv db"
  shows "state_inv (snd (state_create sv now session app dev token st db))"
proof -
  have "state_inv (db\<lparr>sd_states := update_where (\<lambda>r. state_key r = k) (\<lambda>r. r\<lparr>sw_LOST := True\<rparr>) (sd_states db)\<rparr>)" for k
    using assms by (auto simp: state_inv_def pk_update_where set_update_where)
  moreover have "state_inv (db\<lparr>sd_states := sd_states db @ [\<lparr>sw_APPLICATION = app, sw_DEVICE = dev, sw_SESSION = sid,
      sw_TOKEN = token, sw_CREATED = now, sw_LOST = False, sw_DATA = Some st\<rparr>], sd_sent := sent\<rparr>)"
    if "sid \<in> se_ID ` set (sd_sessions db)" "(app, dev) \<notin> state_key ` set (sd_states db)" for sid sent
    using assms that by (auto simp: state_inv_def state_key_def)
  moreover have "state_inv (db\<lparr>sd_sent := sent\<rparr>)" for sent using assms by (simp add: state_inv_def)
  ultimately show ?thesis
    using assms by (auto simp: state_create_def Let_def split: sum.splits option.splits prod.splits)
qed

lemma state_inv_delete:
  assumes "state_inv db"
  shows "state_inv (db\<lparr>sd_states := delete_where P (sd_states db)\<rparr>)"
    and "state_inv (db\<lparr>sd_states := delete_where P (sd_states db), sd_sent := sent\<rparr>)"
    and "state_inv (db\<lparr>sd_sent := sent\<rparr>)"
  using assms by (auto simp: state_inv_def pk_delete_where set_delete_where)

lemma state_delete_inv:
  assumes "state_inv db"
  shows "state_inv (snd (state_delete sv session app dev token skip db))"
  using assms state_inv_delete[OF assms]
  by (auto simp: state_delete_def Let_def split: sum.splits option.splits prod.splits list.splits)

lemma state_ping_inv:
  assumes "state_inv db"
  shows "state_inv (snd (state_ping sv now session db))"
proof -
  have "state_inv (db\<lparr>sd_sessions := update_where P (\<lambda>r. r\<lparr>se_LAST_PING := now\<rparr>) (sd_sessions db)\<rparr>)" for P
    using assms by (simp add: state_inv_def pk_update_where image_update_where)
  with assms show ?thesis by (auto simp: state_ping_def Let_def split: option.splits)
qed

lemma prune_session_inv:
  assumes "state_inv db"
  shows "state_inv (snd (prune_session sv sid db))"
  using assms
  by (auto simp: prune_session_def Let_def state_inv_def pk_delete_where set_delete_where
      split: sum.splits prod.splits)

text \<open>One round of the pruning loop.\<close>

lemma prune_loop_cases:
  obtains (finished) "next_expired sv (clock n) db = None" "prune_loop sv clock n db = (Inr (), n, db)"
  | (failed) sid e db' where "next_expired sv (clock n) db = Some sid"
      "prune_session sv sid db = (Inl e, db')" "prune_loop sv clock n db = (Inl e, n, db')"
  | (round) sid db' where "next_expired sv (clock n) db = Some sid"
      "prune_session sv sid db = (Inr (), db')"
      "prune_loop sv clock n db = prune_loop sv clock (Suc n) db'"
proof (cases "next_expired sv (clock n) db")
  case None
  then show ?thesis by (intro finished) (simp_all add: prune_loop.simps)
next
  case (Some sid)
  obtain r db' where r: "prune_session sv sid db = (r, db')" by fastforce
  show ?thesis
  proof (cases r)
    case (Inl e)
    with Some r failed show ?thesis by (simp add: prune_loop.simps)
  next
    case (Inr u)
    then show ?thesis using Some r round by (simp add: prune_loop.simps[of sv clock n db])
  qed
qed

lemma prune_loop_induct [case_names step]:
  assumes "\<And>n db. (\<And>sid db'. next_expired sv (clock n) db = Some sid \<Longrightarrow>
      prune_session sv sid db = (Inr (), db') \<Longrightarrow> P (Suc n) db') \<Longrightarrow> P n db"
  shows "P n db"
proof (induction "length (sd_sessions db)" arbitrary: n db rule: less_induct)
  case less
  show ?case by (rule assms) (blast intro: less prune_session_shrinks)
qed

lemma prune_loop_inv: "state_inv db \<Longrightarrow> state_inv (snd (snd (prune_loop sv clock n db)))"
proof (induction n db rule: prune_loop_induct[of sv clock])
  case (step n db)
  show ?case
  proof (cases rule: prune_loop_cases[of sv clock n db])
    case (round sid db')
    with step prune_session_inv[OF step(2), of sv sid] show ?thesis by simp
  qed (use step(2) prune_session_inv[OF step(2), of sv] in \<open>auto, metis snd_conv\<close>)
qed

section \<open>Properties\<close>

datatype state_op =
    OpInit uuid timestamp
  | OpCreate timestamp string string string string device_state
  | OpDelete string string string string bool
  | OpPing timestamp string
  | OpPrune "nat \<Rightarrow> timestamp"

fun apply_state_op :: "state_env \<Rightarrow> state_op \<Rightarrow> state_db \<Rightarrow> state_db" where
  "apply_state_op sv (OpInit sid now) db = snd (state_init sv sid now db)"
| "apply_state_op sv (OpCreate now session app dev token st) db =
     snd (state_create sv now session app dev token st db)"
| "apply_state_op sv (OpDelete session app dev token skip) db =
     snd (state_delete sv session app dev token skip db)"
| "apply_state_op sv (OpPing now session) db = snd (state_ping sv now session db)"
| "apply_state_op sv (OpPrune clock) db = snd (prune sv clock db)"

definition state_db_empty :: state_db where
  "state_db_empty = \<lparr>sd_sessions = [], sd_states = [], sd_sent = []\<rparr>"

lemma prune_snd: "snd (prune sv clock db) = snd (snd (prune_loop sv clock 0 db))"
  by (simp add: prune_def case_prod_beta Let_def)

lemma apply_state_op_inv: "state_inv db \<Longrightarrow> state_inv (apply_state_op sv op db)"
  by (cases op) (simp_all add: state_init_inv state_create_inv state_delete_inv state_ping_inv
      prune_snd prune_loop_inv)

lemma state_ops_inv: "state_inv db \<Longrightarrow> state_inv (fold (apply_state_op sv) ops db)"
  by (induction ops arbitrary: db) (auto intro: apply_state_op_inv)

text \<open>
  However the operations of endpoints and the pruner interleave, a device has at most
  one state, and every state belongs to a session that exists.
\<close>

theorem one_state_per_device:
  "state_inv (fold (apply_state_op sv) ops state_db_empty)"
  by (rule state_ops_inv) (simp add: state_inv_def state_db_empty_def)

text \<open>
  Pruning ends.  If no error stops it, there is a time at which none of the sessions that
  remain has expired; every session it removed had expired, and exactly the states of the
  removed sessions are gone.
\<close>

theorem prune_complete:
  assumes "state_inv db" and "prune sv clock db = (Inr (), db')"
  shows "\<exists>n. (\<forall>r \<in> set (sd_sessions db'). \<not> expired sv (clock n) r)
     \<and> set (sd_sessions db') \<subseteq> set (sd_sessions db)
     \<and> (\<forall>r \<in> set (sd_sessions db) - set (sd_sessions db'). \<exists>k \<le> n. expired sv (clock k) r)
     \<and> sd_states db' = filter (\<lambda>r. sw_SESSION r \<in> se_ID ` set (sd_sessions db')) (sd_states db)"
proof -
  have loop: "prune_loop sv clock n db = (Inr (), m, db') \<Longrightarrow> state_inv db \<Longrightarrow>
      n \<le> m \<and> (\<forall>r \<in> set (sd_sessions db'). \<not> expired sv (clock m) r)
      \<and> set (sd_sessions db') \<subseteq> set (sd_sessions db)
      \<and> (\<forall>r \<in> set (sd_sessions db) - set (sd_sessions db'). \<exists>k \<le> m. expired sv (clock k) r)
      \<and> sd_states db' = filter (\<lambda>r. sw_SESSION r \<in> se_ID ` set (sd_sessions db')) (sd_states db)" for n m db
  proof (induction n db rule: prune_loop_induct[of sv clock])
    case (step n db)
    show ?case
    proof (cases rule: prune_loop_cases[of sv clock n db])
      case finished
      then show ?thesis using step.prems by (auto simp: next_expired_None state_inv_def filter_id_conv)
    next
      case (failed sid e db1)
      then show ?thesis using step.prems by simp
    next
      case (round sid db1)
      note rows = prune_session_sessions[OF round(2)]
      have inv1: "state_inv db1" using prune_session_inv[OF step.prems(2), of sv sid] round(2) by simp
      from step.IH[OF round(1,2)] step.prems(1) round(3) inv1
      have IH: "Suc n \<le> m" "\<forall>r \<in> set (sd_sessions db'). \<not> expired sv (clock m) r"
        "set (sd_sessions db') \<subseteq> set (sd_sessions db1)"
        "\<forall>r \<in> set (sd_sessions db1) - set (sd_sessions db'). \<exists>k \<le> m. expired sv (clock k) r"
        "sd_states db' = filter (\<lambda>r. sw_SESSION r \<in> se_ID ` set (sd_sessions db')) (sd_states db1)"
        by simp_all
      obtain s where s: "s \<in> set (sd_sessions db)" "se_ID s = sid" "expired sv (clock n) s"
        using next_expired_Some[OF round(1)] by blast
      have unique: "r = s" if "r \<in> set (sd_sessions db)" "se_ID r = sid" for r
        using that s(1,2) step.prems(2) by (auto simp: state_inv_def distinct_map inj_on_def)
      have removed: "\<exists>k \<le> m. expired sv (clock k) r"
        if "r \<in> set (sd_sessions db)" "r \<notin> set (sd_sessions db')" for r
      proof (cases "se_ID r = sid")
        case True
        with unique that s(3) IH(1) show ?thesis by (metis Suc_leD)
      next
        case False
        with that rows IH(4) show ?thesis by (auto simp: set_delete_where)
      qed
      have "sid \<notin> se_ID ` set (sd_sessions db')" using IH(3) rows by (auto simp: set_delete_where)
      then have "sd_states db' = filter (\<lambda>r. sw_SESSION r \<in> se_ID ` set (sd_sessions db')) (sd_states db)"
        using IH(5) rows by (auto simp: delete_where_def intro!: filter_cong)
      then show ?thesis using IH(1-3) removed rows by (auto simp: set_delete_where)
    qed
  qed
  obtain m where "prune_loop sv clock 0 db = (Inr (), m, db')"
    using assms(2) by (auto simp: prune_def Let_def split: prod.splits)
  from loop[OF this assms(1)] show ?thesis by blast
qed

definition demo_sv :: state_env where
  "demo_sv = \<lparr>sv_timeout = 10, sv_lookup = (\<lambda>a. Inr (Some \<lparr>pa_name = a, pa_uid = [], pa_resource_version = [],
       pa_labels = [], pa_annotations = [], pa_creation_timestamp = 0, pa_generation = 0,
       pa_deletion_timestamp = None, pa_finalizers = [], pa_spec = [], pa_status = []\<rparr>)),
     sv_publish = (\<lambda>_ _. Inr Accepted), sv_parse_uuid = (\<lambda>s. map_option of_nat (str_nat s)),
     sv_uuid_str = (\<lambda>u. nat_str (unat u))\<rparr>"

definition demo_ops :: "state_op list" where
  "demo_ops = [OpInit 1 0, OpInit 2 50, OpCreate 1 ''1'' ''a'' ''d'' ''t'' \<lparr>ds_device_uid = ''u'', ds_endpoint = ''e'', ds_lwt = None\<rparr>]"

theorem prune_complete_witness:
  "\<exists>db'. prune demo_sv (\<lambda>_. 55) (fold (apply_state_op demo_sv) demo_ops state_db_empty) = (Inr (), db')
     \<and> (\<forall>r \<in> set (sd_sessions db'). \<not> expired demo_sv 55 r)"
proof -
  let ?db = "fold (apply_state_op demo_sv) demo_ops state_db_empty"
  have "fst (prune demo_sv (\<lambda>_. 55) ?db) = Inr ()" by code_simp
  then obtain db' where p: "prune demo_sv (\<lambda>_. 55) ?db = (Inr (), db')"
    by (metis prod.collapse)
  have "state_inv ?db" by (rule state_ops_inv) (simp add: state_inv_def state_db_empty_def)
  from prune_complete[OF this p] p show ?thesis by auto
qed

subsection \<open>Connection events\<close>

text \<open>The connection events of a device in the log.\<close>

definition conn_events :: "string \<Rightarrow> string \<Rightarrow> bool \<Rightarrow> (publish \<times> string) list \<Rightarrow> nat" where
  "conn_events app dev connected sent = length (filter (\<lambda>(p, body). po_type (pb_options p) = Some CONNECTION_TYPE_EVENT
     \<and> pa_name (pb_application p) = app \<and> pi_name (pb_device p) = dev
     \<and> body = connection_body connected) sent)"

definition reliable :: "state_env \<Rightarrow> bool" where
  "reliable sv \<longleftrightarrow> (\<forall>a. \<exists>app. sv_lookup sv a = Inr (Some app) \<and> pa_name app = a)
     \<and> (\<forall>p b. sv_publish sv p b = Inr Accepted)"

definition balanced :: "state_db \<Rightarrow> bool" where
  "balanced db \<longleftrightarrow> (\<forall>a d. conn_events a d True (sd_sent db) =
     conn_events a d False (sd_sent db) + count_list (map state_key (sd_states db)) (a, d))"

lemma connection_body_inj [simp]: "connection_body a = connection_body b \<longleftrightarrow> a = b"
  by (cases a; cases b; simp add: connection_body_def)

lemma conn_events_append [simp]:
  "conn_events a d c (xs @ ys) = conn_events a d c xs + conn_events a d c ys"
  by (simp add: conn_events_def)

lemma conn_events_Cons2:
  "conn_events a d c (x # y # ys) = conn_events a d c [x] + conn_events a d c (y # ys)"
  by (simp add: conn_events_def)

lemma conn_events_connection [simp]:
  "conn_events a d c [(connection_event app dev, connection_body c')] =
     (if pa_name app = a \<and> pi_name dev = d \<and> c = c' then 1 else 0)"
proof -
  have "conn_events a d c [(connection_event app dev, connection_body c')] =
      (if pa_name app = a \<and> pi_name dev = d \<and> connection_body c' = connection_body c then 1 else 0)"
    unfolding conn_events_def connection_event_def by simp
  then show ?thesis by (simp only: connection_body_inj eq_commute[of c' c])
qed

lemma send_disconnect_reliable:
  assumes "reliable sv"
  shows "\<exists>sent'. send_disconnect_from_delete sv skip row sent = (Inr (), sent')
     \<and> (\<forall>a d. conn_events a d True sent' = conn_events a d True sent
        \<and> conn_events a d False sent' = conn_events a d False sent + (if state_key row = (a, d) then 1 else 0))"
proof -
  obtain app where "sv_lookup sv (sw_APPLICATION row) = Inr (Some app)" "pa_name app = sw_APPLICATION row"
    using assms unfolding reliable_def by metis
  moreover have "sv_publish sv p b = Inr Accepted" for p b using assms by (simp add: reliable_def)
  moreover have "conn_events a d c [(p, b)] = 0" if "po_type (pb_options p) = None" for a d c p b
    using that by (simp add: conn_events_def)
  ultimately show ?thesis
    by (cases skip; cases "Option.bind (sw_DATA row) ds_lwt")
      (auto simp: send_disconnect_from_delete_def send_connection_event_def send_lwt_event_def
        send_event_def state_key_def Let_def conn_events_Cons2 default_options_def)
qed

lemma count_list_distinct: "distinct xs \<Longrightarrow> count_list xs k = (if k \<in> set xs then 1 else 0)"
  by (induction xs) auto

lemma count_list_filter_pk:
  "count_list (map key rows) k = count_list (map key (filter P rows)) k + count_list (map key (filter (\<lambda>r. \<not> P r) rows)) k"
  by (induction rows) auto

lemma send_disconnects_reliable:
  assumes "reliable sv"
  shows "\<exists>sent'. send_disconnects sv rows sent = (Inr (), sent')
     \<and> (\<forall>a d. conn_events a d True sent' = conn_events a d True sent
        \<and> conn_events a d False sent' = conn_events a d False sent + count_list (map state_key rows) (a, d))"
proof (induction rows arbitrary: sent)
  case (Cons row rows)
  obtain s1 where s1: "send_disconnect_from_delete sv False row sent = (Inr (), s1)"
    "\<forall>a d. conn_events a d True s1 = conn_events a d True sent
        \<and> conn_events a d False s1 = conn_events a d False sent + (if state_key row = (a, d) then 1 else 0)"
    using send_disconnect_reliable[OF assms, of False row sent] by blast
  obtain s2 where "send_disconnects sv rows s1 = (Inr (), s2)"
    "\<forall>a d. conn_events a d True s2 = conn_events a d True s1
        \<and> conn_events a d False s2 = conn_events a d False s1 + count_list (map state_key rows) (a, d)"
    using Cons.IH[of s1] by blast
  with s1 show ?case by simp
qed simp

lemma prune_session_balanced:
  assumes "reliable sv" and "balanced db"
  shows "\<exists>db'. prune_session sv sid db = (Inr (), db') \<and> balanced db'"
proof -
  let ?del = "filter (\<lambda>r. sw_SESSION r = sid) (sd_states db)"
  obtain sent' where s: "send_disconnects sv ?del (sd_sent db) = (Inr (), sent')"
    "\<forall>a d. conn_events a d True sent' = conn_events a d True (sd_sent db)
        \<and> conn_events a d False sent' = conn_events a d False (sd_sent db) + count_list (map state_key ?del) (a, d)"
    using send_disconnects_reliable[OF assms(1), of ?del "sd_sent db"] by blast
  moreover have "count_list (map state_key (sd_states db)) k = count_list (map state_key ?del) k
      + count_list (map state_key (delete_where (\<lambda>r. sw_SESSION r = sid) (sd_states db))) k" for k
    unfolding delete_where_def by (rule count_list_filter_pk)
  ultimately show ?thesis using assms(2) by (simp add: prune_session_def balanced_def Let_def)
qed

lemma prune_loop_balanced:
  assumes "reliable sv" and "balanced db"
  shows "\<exists>m db'. prune_loop sv clock n db = (Inr (), m, db') \<and> balanced db'"
  using assms(2)
proof (induction n db rule: prune_loop_induct[of sv clock])
  case (step n db)
  show ?case
  proof (cases rule: prune_loop_cases[of sv clock n db])
    case (failed sid e db')
    then show ?thesis using prune_session_balanced[OF assms(1) step.prems, of sid] by simp
  next
    case (round sid db')
    then show ?thesis
      using prune_session_balanced[OF assms(1) step.prems, of sid] step.IH[OF round(1,2)] by simp
  qed (use step.prems in simp)
qed

lemma state_create_balanced:
  assumes "reliable sv" and "balanced db"
  shows "balanced (snd (state_create sv now session app dev token st db))"
proof -
  obtain a where a: "sv_lookup sv app = Inr (Some a)" "pa_name a = app"
    using assms(1) unfolding reliable_def by metis
  have pub: "sv_publish sv p b = Inr Accepted" for p b using assms(1) by (simp add: reliable_def)
  have "map state_key (update_where P (\<lambda>r. r\<lparr>sw_LOST := True\<rparr>) rows) = map state_key rows" for P rows
    by (rule map_key_update_where) simp
  then show ?thesis
    using assms(2) a pub
    by (auto simp: state_create_def balanced_def send_connection_event_def send_event_def state_key_def[of "\<lparr>sw_APPLICATION = _, sw_DEVICE = _, sw_SESSION = _, sw_TOKEN = _, sw_CREATED = _, sw_LOST = _, sw_DATA = _\<rparr>"]
        Let_def split: option.splits)
qed

lemma state_delete_balanced:
  assumes "reliable sv" and "balanced db"
  shows "balanced (snd (state_delete sv session app dev token skip db))"
proof (cases "sv_parse_uuid sv session")
  case None
  then show ?thesis using assms(2) by (simp add: state_delete_def)
next
  case (Some sid)
  let ?gone = "\<lambda>r. sw_SESSION r = sid \<and> sw_APPLICATION r = app \<and> sw_DEVICE r = dev \<and> sw_TOKEN r = token"
  have split: "count_list (map state_key (sd_states db)) k = count_list (map state_key (filter ?gone (sd_states db))) k
      + count_list (map state_key (delete_where ?gone (sd_states db))) k" for k
    unfolding delete_where_def by (rule count_list_filter_pk)
  show ?thesis
  proof (cases "filter ?gone (sd_states db)" rule: list.exhaust)
    case Nil
    then show ?thesis using assms(2) Some split by (simp add: state_delete_def balanced_def Let_def)
  next
    case (Cons row rest)
    obtain s1 where "send_disconnect_from_delete sv skip row (sd_sent db) = (Inr (), s1)"
      "\<forall>a d. conn_events a d True s1 = conn_events a d True (sd_sent db)
        \<and> conn_events a d False s1 = conn_events a d False (sd_sent db) + (if state_key row = (a, d) then 1 else 0)"
      using send_disconnect_reliable[OF assms(1), of skip row "sd_sent db"] by blast
    then show ?thesis
      using assms(2) Some split Cons
      by (cases rest) (simp_all add: state_delete_def balanced_def Let_def)
  qed
qed

lemma apply_state_op_balanced:
  assumes "reliable sv" and "balanced db"
  shows "balanced (apply_state_op sv op db)"
proof (cases op)
  case (OpPrune clock)
  then show ?thesis using prune_loop_balanced[OF assms, of clock 0] by (auto simp: prune_snd)
next
  case (OpInit sid now)
  then show ?thesis using assms(2) by (auto simp: state_init_def balanced_def split: option.splits)
next
  case (OpPing now session)
  then show ?thesis using assms(2) by (auto simp: state_ping_def balanced_def Let_def split: option.splits)
qed (use assms state_create_balanced state_delete_balanced in simp_all)

text \<open>
  C10. Connection events are balanced: as long as the registry knows the applications and
  the downstream accepts events, at any time and for every device the number of connected
  events exceeds that of disconnected events by one if the device has a state, and by
  nothing otherwise, whichever way states end: by deletion or with their session.
\<close>

theorem connection_events_balanced:
  assumes "reliable sv"
  shows "let db = fold (apply_state_op sv) ops state_db_empty in
     conn_events a d True (sd_sent db) =
     conn_events a d False (sd_sent db) + (if (a, d) \<in> state_key ` set (sd_states db) then 1 else 0)"
proof -
  let ?db = "fold (apply_state_op sv) ops state_db_empty"
  have bal: "balanced (fold (apply_state_op sv) ops db)" if "balanced db" for db
    using that by (induction ops arbitrary: db) (auto intro: apply_state_op_balanced[OF assms])
  have "balanced ?db"
    by (rule bal) (simp add: balanced_def state_db_empty_def conn_events_def)
  moreover have "state_inv ?db" by (rule state_ops_inv) (simp add: state_inv_def state_db_empty_def)
  then have "distinct (map state_key (sd_states ?db))" by (simp add: state_inv_def)
  then have "count_list (map state_key (sd_states ?db)) k = (if k \<in> state_key ` set (sd_states ?db) then 1 else 0)" for k
    by (simp add: count_list_distinct)
  ultimately show ?thesis by (simp add: balanced_def Let_def)
qed

theorem connection_events_balanced_witness:
  "conn_events ''a'' ''d'' True (sd_sent (fold (apply_state_op demo_sv) demo_ops state_db_empty)) = 1"
proof -
  have "reliable demo_sv" by (simp add: reliable_def demo_sv_def)
  moreover have "(''a'', ''d'') \<in> state_key ` set (sd_states (fold (apply_state_op demo_sv) demo_ops state_db_empty))"
    "conn_events ''a'' ''d'' False (sd_sent (fold (apply_state_op demo_sv) demo_ops state_db_empty)) = 0"
    by code_simp+
  ultimately show ?thesis
    using connection_events_balanced[of demo_sv demo_ops "''a''" "''d''"] by (simp add: Let_def)
qed

text \<open>
  A device that connects a second time is noticed: creating its state again changes
  nothing but the mark on the existing state, hides that state from readers, and the next
  ping of the session that owns it, if the session is alive, reports the device as lost.
\<close>

theorem occupied_is_reported:
  assumes "state_inv db" and "state_create sv now session app dev token st db = (Inr Occupied, db1)"
    and "r \<in> set (sd_states db)" and "state_key r = (app, dev)"
    and "sv_parse_uuid sv owner = Some (sw_SESSION r)"
    and "s \<in> set (sd_sessions db)" and "se_ID s = sw_SESSION r" and "now' < se_LAST_PING s + sv_timeout sv"
  shows "\<exists>expires ids db2. state_ping sv now' owner db1 = (Inr (expires, ids), db2) \<and> (app, dev) \<in> set ids
     \<and> state_get app dev db1 = Inr None \<and> sd_sent db1 = sd_sent db"
proof -
  have db1: "db1 = db\<lparr>sd_states := update_where (\<lambda>r. state_key r = (app, dev)) (\<lambda>r. r\<lparr>sw_LOST := True\<rparr>) (sd_states db)\<rparr>"
    using assms(2) by (auto simp: state_create_def Let_def split: sum.splits option.splits if_splits prod.splits)
  have inv1: "state_inv db1" using state_create_inv[OF assms(1), of sv now session app dev token st] assms(2) by simp
  have r1: "r\<lparr>sw_LOST := True\<rparr> \<in> set (sd_states db1)"
    using assms(3,4) by (auto simp: db1 set_update_where)
  have "count_where (\<lambda>r'. se_ID r' = sw_SESSION r \<and> now' < se_LAST_PING r' + sv_timeout sv) (sd_sessions db1) > 0"
    using assms(6-8) by (auto simp: count_where_pos db1)
  moreover have "(app, dev) \<in> state_key ` {r' \<in> set (sd_states db1). sw_SESSION r' = sw_SESSION r \<and> sw_LOST r'}"
    using r1 assms(4) by (intro image_eqI[of _ _ "r\<lparr>sw_LOST := True\<rparr>"]) simp_all
  moreover have "filter (\<lambda>r. sw_APPLICATION r = app \<and> sw_DEVICE r = dev) (sd_states db1) = [r\<lparr>sw_LOST := True\<rparr>]"
  proof -
    have "filter (\<lambda>r. sw_APPLICATION r = app \<and> sw_DEVICE r = dev) (sd_states db1) =
        filter (\<lambda>r. state_key r = (app, dev)) (sd_states db1)"
      by (simp add: state_key_def)
    also have "\<dots> = [r\<lparr>sw_LOST := True\<rparr>]"
    proof -
      have pk1: "pk state_key (sd_states db1)" using inv1 by (simp add: state_inv_def)
      have "lookup_row state_key (app, dev) (sd_states db1) = Some (r\<lparr>sw_LOST := True\<rparr>)"
        using r1 assms(4) by (simp add: lookup_row_pk[OF pk1])
      then show ?thesis using filter_pk[OF pk1, of "(app, dev)"] by simp
    qed
    finally show ?thesis .
  qed
  ultimately show ?thesis
    using assms(5) by (simp add: state_ping_def state_get_def Let_def) (simp add: db1)
qed

theorem occupied_is_reported_witness:
  "\<exists>expires ids db2. state_ping demo_sv 5 ''1'' (snd (state_create demo_sv 4 ''2'' ''a'' ''d'' ''t2''
       \<lparr>ds_device_uid = ''u'', ds_endpoint = ''e'', ds_lwt = None\<rparr>
       (fold (apply_state_op demo_sv) demo_ops state_db_empty))) = (Inr (expires, ids), db2) \<and> (''a'', ''d'') \<in> set ids"
proof -
  let ?db = "fold (apply_state_op demo_sv) demo_ops state_db_empty"
  let ?st = "\<lparr>ds_device_uid = ''u'', ds_endpoint = ''e'', ds_lwt = None\<rparr>"
  let ?r = "\<lparr>sw_APPLICATION = ''a'', sw_DEVICE = ''d'', sw_SESSION = 1, sw_TOKEN = ''t'', sw_CREATED = 1,
      sw_LOST = False, sw_DATA = Some ?st\<rparr>"
  have "fst (state_create demo_sv 4 ''2'' ''a'' ''d'' ''t2'' ?st ?db) = Inr Occupied" by code_simp
  then have c: "state_create demo_sv 4 ''2'' ''a'' ''d'' ''t2'' ?st ?db =
      (Inr Occupied, snd (state_create demo_sv 4 ''2'' ''a'' ''d'' ''t2'' ?st ?db))"
    by (metis prod.collapse)
  have "state_inv ?db" by (rule state_ops_inv) (simp add: state_inv_def state_db_empty_def)
  moreover have "?r \<in> set (sd_states ?db)" "\<lparr>se_ID = 1, se_LAST_PING = 0\<rparr> \<in> set (sd_sessions ?db)"
    "sv_parse_uuid demo_sv ''1'' = Some 1"
    by code_simp+
  ultimately show ?thesis
    using occupied_is_reported[OF _ c, of ?r "''1''" "\<lparr>se_ID = 1, se_LAST_PING = 0\<rparr>" 5]
    by (auto simp: state_key_def demo_sv_def)
qed

subsection \<open>A tenant can block the pruner\<close>

definition rejects_connections :: "state_env \<Rightarrow> api_application \<Rightarrow> bool" where
  "rejects_connections sv app \<longleftrightarrow> (\<forall>p b. pb_application p = app \<and> po_type (pb_options p) = Some CONNECTION_TYPE_EVENT
     \<longrightarrow> sv_publish sv p b = Inr Rejected)"

lemma send_disconnect_rejected:
  assumes "rejects_connections sv app" and "sv_lookup sv (sw_APPLICATION row) = Inr (Some app)"
  shows "\<exists>e sent'. send_disconnect_from_delete sv skip row sent = (Inl e, sent')"
proof -
  have "send_connection_event sv app d c x = (Inl (InternalState ''Unable to send event: Ok(Rejected)''), x)" for d c x
    using assms(1) by (simp add: rejects_connections_def send_connection_event_def send_event_def connection_event_def)
  then show ?thesis
    using assms(2) by (auto simp: send_disconnect_from_delete_def Let_def split: prod.splits sum.splits)
qed

lemma send_disconnects_rejected:
  assumes "rejects_connections sv app" and "sv_lookup sv (sw_APPLICATION r) = Inr (Some app)" and "r \<in> set rows"
  shows "\<exists>e sent'. send_disconnects sv rows sent = (Inl e, sent')"
  using assms(3)
proof (induction rows arbitrary: sent)
  case (Cons row rows)
  obtain x s1 where x: "send_disconnect_from_delete sv False row sent = (x, s1)" by fastforce
  show ?case
  proof (cases x)
    case (Inr u)
    then have "r \<noteq> row" using send_disconnect_rejected[OF assms(1,2), of False sent] x by auto
    then show ?thesis using Cons x Inr by simp
  qed (simp add: x)
qed simp

text \<open>
  The pruner stops at the first session it cannot clean up: if the session that expired
  first has a device of an application whose rules reject connection events, then pruning
  fails and changes no table, however many other sessions have expired, and so does every
  later run as long as that application rejects these events.
\<close>

theorem prune_blocked_by_rejection:
  assumes "next_expired sv (clock 0) db = Some sid" and "r \<in> set (sd_states db)" and "sw_SESSION r = sid"
    and "sv_lookup sv (sw_APPLICATION r) = Inr (Some app)" and "rejects_connections sv app"
  shows "\<exists>e sent. prune sv clock db = (Inl e, db\<lparr>sd_sent := sent\<rparr>)"
proof -
  obtain e sent where "send_disconnects sv (filter (\<lambda>r. sw_SESSION r = sid) (sd_states db)) (sd_sent db) = (Inl e, sent)"
    using send_disconnects_rejected[OF assms(5,4), of "filter (\<lambda>r. sw_SESSION r = sid) (sd_states db)" "sd_sent db"]
      assms(2,3) by auto
  then have "prune_session sv sid db = (Inl e, db\<lparr>sd_sent := sent\<rparr>)" by (simp add: prune_session_def)
  then have "prune sv clock db = (Inl e, db\<lparr>sd_sent := sent\<rparr>)" using assms(1) by (simp add: prune_def prune_loop.simps)
  then show ?thesis by blast
qed

theorem prune_blocked_by_rejection_witness:
  "\<exists>e sent. prune (demo_sv\<lparr>sv_publish := \<lambda>_ _. Inr Rejected\<rparr>) (\<lambda>_. 100) (fold (apply_state_op demo_sv) demo_ops state_db_empty)
     = (Inl e, (fold (apply_state_op demo_sv) demo_ops state_db_empty)\<lparr>sd_sent := sent\<rparr>)"
proof -
  let ?db = "fold (apply_state_op demo_sv) demo_ops state_db_empty" and ?sv = "demo_sv\<lparr>sv_publish := \<lambda>_ _. Inr Rejected\<rparr>"
  have "next_expired ?sv 100 ?db = Some 1" "map (\<lambda>r. (sw_SESSION r, sw_APPLICATION r)) (sd_states ?db) = [(1, ''a'')]"
    by code_simp+
  then obtain r where r: "next_expired ?sv 100 ?db = Some 1" "r \<in> set (sd_states ?db)" "sw_SESSION r = 1"
    by (auto simp: map_eq_Cons_conv)
  obtain app where "sv_lookup ?sv (sw_APPLICATION r) = Inr (Some app)" by (simp add: demo_sv_def)
  with r show ?thesis
    by (intro prune_blocked_by_rejection[of ?sv "\<lambda>_. 100" ?db 1 r app]) (simp_all add: rejects_connections_def)
qed

end
