(* ===== verification/State_Client.thy ===== *)
theory State_Client
  imports Device_State
begin

text \<open>
  The client of the device state service that is part of every protocol endpoint
  (\<open>service-common/src/state\<close>): the controller that creates and deletes states, the handles
  and watchers given to the connections, and the runner that keeps the session alive.

  Parameters: the operations of the service, numbered by the calls made so far; what becomes
  of each call on the network; what other clients do to the service between two calls; the
  clock (in nanoseconds) and the fresh tokens.
\<close>

section \<open>Calling the service\<close>

datatype delivery = Answered | AnswerLost | NotDelivered

datatype client_error = ClientTransport | ClientService string

record 'w client_env =
  cv_delivery :: "nat \<Rightarrow> delivery"
  cv_others :: "nat \<Rightarrow> 'w \<Rightarrow> 'w"
  cv_clock :: "nat \<Rightarrow> timestamp"
  cv_init :: "nat \<Rightarrow> 'w \<Rightarrow> (state_error + string \<times> timestamp) \<times> 'w"
  cv_create :: "nat \<Rightarrow> string \<Rightarrow> string \<Rightarrow> string \<Rightarrow> string \<Rightarrow> device_state \<Rightarrow> 'w \<Rightarrow> (state_error + create_response) \<times> 'w"
  cv_delete :: "nat \<Rightarrow> string \<Rightarrow> string \<Rightarrow> string \<Rightarrow> string \<Rightarrow> bool \<Rightarrow> 'w \<Rightarrow> (state_error + unit) \<times> 'w"
  cv_ping :: "nat \<Rightarrow> string \<Rightarrow> 'w \<Rightarrow> (state_error + timestamp \<times> (string \<times> string) list) \<times> 'w"

section \<open>Watchers\<close>

datatype lost_cause = NewRegistration | Reported | StateDeleted

record mux_entry =
  me_token :: string
  me_tx :: nat

text \<open>The channels are numbered; \<open>mx_sent\<close> is what was sent on them.\<close>

record mux =
  mx_handles :: "((string \<times> string) \<times> mux_entry) list"
  mx_next :: nat
  mx_sent :: "(nat \<times> lost_cause) list"

definition mux_new :: mux where
  "mux_new = \<lparr>mx_handles = [], mx_next = 0, mx_sent = []\<rparr>"

definition mux_handle_lost :: "string \<times> string \<Rightarrow> mux \<Rightarrow> mux" where
  "mux_handle_lost i m =
     (case map_of (mx_handles m) i of
        Some entry \<Rightarrow> m\<lparr>mx_handles := AList.delete i (mx_handles m), mx_sent := mx_sent m @ [(me_tx entry, Reported)]\<rparr>
      | None \<Rightarrow> m)"

definition mux_added :: "string \<times> string \<Rightarrow> string \<Rightarrow> mux \<Rightarrow> nat \<times> mux" where
  "mux_added i token m =
     (let tx = mx_next m;
          old = map_of (mx_handles m) i;
          m' = m\<lparr>mx_handles := AList.update i \<lparr>me_token = token, me_tx = tx\<rparr> (mx_handles m), mx_next := Suc tx\<rparr>
      in (tx, case old of
                Some entry \<Rightarrow> m'\<lparr>mx_sent := mx_sent m' @ [(me_tx entry, NewRegistration)]\<rparr>
              | None \<Rightarrow> m'))"

definition mux_deleted :: "string \<times> string \<Rightarrow> string \<Rightarrow> mux \<Rightarrow> mux" where
  "mux_deleted i token m =
     (case map_of (mx_handles m) i of
        Some entry \<Rightarrow>
          if me_token entry = token
          then m\<lparr>mx_handles := AList.delete i (mx_handles m), mx_sent := mx_sent m @ [(me_tx entry, StateDeleted)]\<rparr>
          else m
      | None \<Rightarrow> m)"

text \<open>\<open>StateWatcher::lost\<close>: what a watcher sees of its channel.\<close>

definition watcher_lost :: "nat \<Rightarrow> mux \<Rightarrow> lost_cause option" where
  "watcher_lost rx m = map_of (mx_sent m) rx"

section \<open>The controller\<close>

record controller =
  sc_session :: string
  sc_endpoint :: string
  sc_retry_deletes :: u64

record state_handle =
  hd_deleted :: bool
  hd_application :: string
  hd_device :: string
  hd_token :: string

text \<open>
  The client together with the service: the number of calls made, the service, the watchers,
  whether the kill signal can still be sent and whether it was.
\<close>

record 'w world =
  wd_calls :: nat
  wd_service :: 'w
  wd_mux :: mux
  wd_kill_tx :: bool
  wd_killed :: bool

definition remote ::
  "'w client_env \<Rightarrow> (nat \<Rightarrow> 'w \<Rightarrow> (state_error + 'a) \<times> 'w) \<Rightarrow> 'w world \<Rightarrow> (client_error + 'a) \<times> 'w world" where
  "remote env f wd =
     (let n = wd_calls wd; w = cv_others env n (wd_service wd); (r, w') = f n w in
      case cv_delivery env n of
        Answered \<Rightarrow> (case r of Inl e \<Rightarrow> Inl (ClientService (snd (state_error_response e))) | Inr x \<Rightarrow> Inr x,
                     wd\<lparr>wd_calls := Suc n, wd_service := w'\<rparr>)
      | AnswerLost \<Rightarrow> (Inl ClientTransport, wd\<lparr>wd_calls := Suc n, wd_service := w'\<rparr>)
      | NotDelivered \<Rightarrow> (Inl ClientTransport, wd\<lparr>wd_calls := Suc n, wd_service := w\<rparr>))"

text \<open>
  The loop of \<open>delete\<close>.  The counter is a \<open>usize\<close> that wraps: the loop goes on after the kill
  signal was sent.  \<open>False\<close> is the end of the process by \<open>abort\<close>.
\<close>

partial_function (option) delete_loop ::
  "'w client_env \<Rightarrow> controller \<Rightarrow> string \<Rightarrow> string \<Rightarrow> string \<Rightarrow> bool \<Rightarrow> u64 \<Rightarrow> 'w world \<Rightarrow> (bool \<times> 'w world) option" where
  "delete_loop env ctl app dev token skip_lwt attempts wd =
     (case remote env (\<lambda>n. cv_delete env n (sc_session ctl) app dev token skip_lwt) wd of
        (Inr _, wd') \<Rightarrow> Some (True, wd')
      | (Inl _, wd') \<Rightarrow>
          if attempts - 1 = 0
          then if wd_kill_tx wd'
               then delete_loop env ctl app dev token skip_lwt (attempts - 1) (wd'\<lparr>wd_kill_tx := False, wd_killed := True\<rparr>)
               else Some (False, wd')
          else delete_loop env ctl app dev token skip_lwt (attempts - 1) wd')"

definition controller_delete ::
  "'w client_env \<Rightarrow> controller \<Rightarrow> string \<Rightarrow> string \<Rightarrow> string \<Rightarrow> bool \<Rightarrow> 'w world \<Rightarrow> (bool \<times> 'w world) option" where
  "controller_delete env ctl app dev token skip_lwt wd =
     delete_loop env ctl app dev token skip_lwt (sc_retry_deletes ctl) wd"

datatype creation_outcome = StateCreated state_handle nat | StateOccupied | StateFailed | CreationAborted

fun create_loop ::
  "'w client_env \<Rightarrow> controller \<Rightarrow> string \<Rightarrow> string \<Rightarrow> string \<Rightarrow> device_state \<Rightarrow> nat \<Rightarrow> 'w world
    \<Rightarrow> (creation_outcome \<times> 'w world) option" where
  "create_loop env ctl app dev token st attempts wd =
     (case remote env (\<lambda>n. cv_create env n (sc_session ctl) app dev token st) wd of
        (Inr Created, wd') \<Rightarrow>
          let (rx, m) = mux_added (app, dev) token (wd_mux wd')
          in Some (StateCreated \<lparr>hd_deleted = False, hd_application = app, hd_device = dev, hd_token = token\<rparr> rx,
                   wd'\<lparr>wd_mux := m\<rparr>)
      | (Inr Occupied, wd') \<Rightarrow>
          (case attempts of
             Suc left \<Rightarrow> create_loop env ctl app dev token st left wd'
           | 0 \<Rightarrow> Some (StateOccupied, wd'))
      | (Inl _, wd') \<Rightarrow>
          map_option (\<lambda>(finished, wd''). (if finished then StateFailed else CreationAborted, wd''))
            (controller_delete env ctl app dev token False wd'))"

declare create_loop.simps [simp del]

definition controller_create ::
  "'w client_env \<Rightarrow> controller \<Rightarrow> api_application \<Rightarrow> api_device \<Rightarrow> nat \<Rightarrow> last_will option \<Rightarrow> string \<Rightarrow> 'w world
    \<Rightarrow> (creation_outcome \<times> 'w world) option" where
  "controller_create env ctl application device max_attempts lwt token wd =
     (let st = \<lparr>ds_device_uid = pd_uid device, ds_endpoint = sc_endpoint ctl, ds_lwt = lwt\<rparr>
      in create_loop env ctl (pa_name application) (pd_name device) token st max_attempts wd)"

definition handle_delete ::
  "'w client_env \<Rightarrow> controller \<Rightarrow> state_handle \<Rightarrow> bool \<Rightarrow> 'w world \<Rightarrow> ((bool \<times> state_handle) \<times> 'w world) option" where
  "handle_delete env ctl h skip_lwt wd =
     (if hd_deleted h then Some ((True, h), wd)
      else map_option (\<lambda>(finished, wd'). if finished
          then ((True, h\<lparr>hd_deleted := True\<rparr>),
                wd'\<lparr>wd_mux := mux_deleted (hd_application h, hd_device h) (hd_token h) (wd_mux wd')\<rparr>)
          else ((False, h), wd'))
        (controller_delete env ctl (hd_application h) (hd_device h) (hd_token h) skip_lwt wd))"

text \<open>Dropping a handle deletes the state in a task of its own.\<close>

definition handle_drop :: "'w client_env \<Rightarrow> controller \<Rightarrow> state_handle \<Rightarrow> 'w world \<Rightarrow> (bool \<times> 'w world) option" where
  "handle_drop env ctl h wd =
     (if hd_deleted h then Some (True, wd)
      else map_option (\<lambda>(finished, wd'). if finished
          then (True, wd'\<lparr>wd_mux := mux_deleted (hd_application h, hd_device h) (hd_token h) (wd_mux wd')\<rparr>)
          else (False, wd'))
        (controller_delete env ctl (hd_application h) (hd_device h) (hd_token h) False wd))"

section \<open>The runner\<close>

record runner =
  rn_session :: string
  rn_expires :: timestamp
  rn_delay_buffer :: int
  rn_min_delay_ms :: int

fun init_loop :: "'w client_env \<Rightarrow> nat \<Rightarrow> 'w world \<Rightarrow> (string + string \<times> timestamp) \<times> 'w world" where
  "init_loop env attempts wd =
     (case remote env (cv_init env) wd of
        (Inr response, wd') \<Rightarrow> (Inr response, wd')
      | (Inl _, wd') \<Rightarrow>
          (case attempts of
             Suc left \<Rightarrow> init_loop env left wd'
           | 0 \<Rightarrow> (Inl ''Failed it create state service session.'', wd')))"

declare init_loop.simps [simp del]

definition controller_new ::
  "'w client_env \<Rightarrow> string \<Rightarrow> u64 \<Rightarrow> nat \<Rightarrow> int \<Rightarrow> int \<Rightarrow> nat \<Rightarrow> 'w \<Rightarrow> (string + controller \<times> runner) \<times> 'w world" where
  "controller_new env endpoint retry_deletes retry_init delay_buffer min_delay_ms calls w =
     (let (r, wd) = init_loop env retry_init
            \<lparr>wd_calls = calls, wd_service = w, wd_mux = mux_new, wd_kill_tx = True, wd_killed = False\<rparr>
      in (rbind r (\<lambda>(session, expires).
            Inr (\<lparr>sc_session = session, sc_endpoint = endpoint, sc_retry_deletes = retry_deletes\<rparr>,
                 \<lparr>rn_session = session, rn_expires = expires, rn_delay_buffer = delay_buffer,
                  rn_min_delay_ms = min_delay_ms\<rparr>)), wd))"

text \<open>\<open>num_milliseconds\<close> rounds towards zero.\<close>

definition num_milliseconds :: "int \<Rightarrow> int" where
  "num_milliseconds d = sgn d * (\<bar>d\<bar> div 1000000)"

text \<open>The delay until the next ping, in milliseconds.\<close>

definition next_deadline :: "runner \<Rightarrow> timestamp \<Rightarrow> timestamp \<Rightarrow> timestamp \<times> nat" where
  "next_deadline rn now expires =
     (let deadline = expires - rn_delay_buffer rn;
          delay = num_milliseconds (deadline - now)
      in (expires, nat (if delay < rn_min_delay_ms rn then rn_min_delay_ms rn else delay)))"

definition runner_handle_lost :: "(string \<times> string) list \<Rightarrow> 'w world \<Rightarrow> 'w world" where
  "runner_handle_lost lost_ids wd = wd\<lparr>wd_mux := fold mux_handle_lost lost_ids (wd_mux wd)\<rparr>"

partial_function (option) ping ::
  "'w client_env \<Rightarrow> runner \<Rightarrow> timestamp \<Rightarrow> 'w world \<Rightarrow> ((string + timestamp \<times> nat) \<times> 'w world) option" where
  "ping env rn expires wd =
     (if cv_clock env (wd_calls wd) > expires then Some (Inl ''Lost session. Must terminate.'', wd)
      else case remote env (\<lambda>n. cv_ping env n (rn_session rn)) wd of
             (Inr (expires', lost_ids), wd') \<Rightarrow>
               Some (Inr (next_deadline rn (cv_clock env (wd_calls wd')) expires'),
                     if lost_ids \<noteq> [] then runner_handle_lost lost_ids wd' else wd')
           | (Inl e, wd') \<Rightarrow>
               if e = ClientService ''NotInitialized''
               then Some (Inl ''Session got invalidated. Must terminate.'', wd')
               else ping env rn expires wd')"

datatype kill_signal = KillSent | SenderDropped

text \<open>The rounds of \<open>run\<close>; the kill channel may end the wait for the next deadline.\<close>

partial_function (option) run_loop ::
  "'w client_env \<Rightarrow> runner \<Rightarrow> (nat \<Rightarrow> kill_signal option) \<Rightarrow> nat \<Rightarrow> timestamp \<Rightarrow> 'w world \<Rightarrow> ((string + unit) \<times> 'w world) option" where
  "run_loop env rn kills n expires wd =
     (case kills n of
        Some KillSent \<Rightarrow> Some (Inl ''Runner got killed'', wd)
      | Some SenderDropped \<Rightarrow> Some (Inr (), wd)
      | None \<Rightarrow>
          Option.bind (ping env rn expires wd) (\<lambda>(r, wd').
            case r of
              Inl e \<Rightarrow> Some (Inl e, wd')
            | Inr (expires', _) \<Rightarrow> run_loop env rn kills (Suc n) expires' wd'))"

definition run_runner ::
  "'w client_env \<Rightarrow> runner \<Rightarrow> (nat \<Rightarrow> kill_signal option) \<Rightarrow> 'w world \<Rightarrow> ((string + unit) \<times> 'w world) option" where
  "run_runner env rn kills wd =
     (let (expires, _) = next_deadline rn (cv_clock env (wd_calls wd)) (rn_expires rn)
      in run_loop env rn kills 0 expires wd)"


section \<open>Watchers are told once\<close>

inductive mux_reachable :: "mux \<Rightarrow> bool" where
  start: "mux_reachable mux_new"
| lost: "mux_reachable m \<Longrightarrow> mux_reachable (mux_handle_lost i m)"
| added: "mux_reachable m \<Longrightarrow> mux_reachable (snd (mux_added i token m))"
| deleted: "mux_reachable m \<Longrightarrow> mux_reachable (mux_deleted i token m)"

definition channels :: "('k \<rightharpoonup> mux_entry) \<Rightarrow> nat set" where
  "channels M = me_tx ` ran M"

lemma channels_iff: "t \<in> channels M \<longleftrightarrow> (\<exists>i e. M i = Some e \<and> me_tx e = t)"
  unfolding channels_def ran_def by blast

definition one_each :: "('k \<rightharpoonup> mux_entry) \<Rightarrow> bool" where
  "one_each M \<longleftrightarrow> (\<forall>i j e f. M i = Some e \<longrightarrow> M j = Some f \<longrightarrow> me_tx e = me_tx f \<longrightarrow> i = j)"

lemma one_each_delete:
  assumes "one_each M" and "M i = Some e"
  shows "one_each (M(i := None))" and "channels (M(i := None)) = channels M - {me_tx e}"
proof -
  show "one_each (M(i := None))" using assms by (auto simp: one_each_def)
  have "me_tx f \<noteq> me_tx e" if "j \<noteq> i" "M j = Some f" for j f using assms that unfolding one_each_def by blast
  then show "channels (M(i := None)) = channels M - {me_tx e}"
    unfolding set_eq_iff Diff_iff singleton_iff channels_iff fun_upd_apply
    by (metis assms(2) option.distinct(1) option.inject)
qed

lemma one_each_insert:
  assumes "one_each M" and "M i = None" and "me_tx e \<notin> channels M"
  shows "one_each (M(i \<mapsto> e))" and "channels (M(i \<mapsto> e)) = insert (me_tx e) (channels M)"
proof -
  have fresh: "me_tx f \<noteq> me_tx e" if "M j = Some f" for j f using assms(3) that unfolding channels_iff by auto
  show "one_each (M(i \<mapsto> e))" using assms(1) fresh by (auto simp: one_each_def dest: fresh)
  show "channels (M(i \<mapsto> e)) = insert (me_tx e) (channels M)"
    using assms(2) by (simp add: channels_def)
qed

text \<open>Every channel is held by one entry or was used, never both.\<close>

definition mux_inv :: "mux \<Rightarrow> bool" where
  "mux_inv m \<longleftrightarrow> distinct (map fst (mx_sent m)) \<and> one_each (map_of (mx_handles m))
     \<and> channels (map_of (mx_handles m)) \<inter> fst ` set (mx_sent m) = {}
     \<and> channels (map_of (mx_handles m)) \<union> fst ` set (mx_sent m) = {..<mx_next m}"

text \<open>An entry is taken out and its channel used.\<close>

lemma mux_inv_release:
  assumes "mux_inv m" and "map_of (mx_handles m) i = Some e"
  shows "mux_inv (m\<lparr>mx_handles := AList.delete i (mx_handles m), mx_sent := mx_sent m @ [(me_tx e, c)]\<rparr>)"
proof -
  have "one_each (map_of (mx_handles m))" using assms(1) by (simp add: mux_inv_def)
  note del = one_each_delete[OF this assms(2)]
  have "me_tx e \<in> channels (map_of (mx_handles m))" using assms(2) unfolding channels_iff by blast
  then show ?thesis using assms(1) by (auto simp: mux_inv_def delete_conv' del)
qed

lemma mux_inv_add:
  assumes "mux_inv m" and "map_of (mx_handles m) i = None"
  shows "mux_inv (m\<lparr>mx_handles := AList.update i \<lparr>me_token = t, me_tx = mx_next m\<rparr> (mx_handles m), mx_next := Suc (mx_next m)\<rparr>)"
proof -
  have "one_each (map_of (mx_handles m))" "mx_next m \<notin> channels (map_of (mx_handles m))" "mx_next m \<notin> fst ` set (mx_sent m)"
    using assms(1) by (auto simp: mux_inv_def)
  note ins = one_each_insert[OF this(1) assms(2), of "\<lparr>me_token = t, me_tx = mx_next m\<rparr>", simplified, OF this(2)] this(3)
  show ?thesis using assms(1) ins(3) by (simp add: mux_inv_def update_conv' ins(1,2) lessThan_Suc)
qed

lemma AList_update_delete: "map_of (AList.update i v (AList.delete i xs)) = map_of (AList.update i v xs)"
  by (auto simp: update_conv' delete_conv' fun_eq_iff)

lemma mux_inv_cong:
  "map_of (mx_handles m) = map_of (mx_handles m') \<Longrightarrow> mx_next m = mx_next m' \<Longrightarrow> mx_sent m = mx_sent m' \<Longrightarrow> mux_inv m = mux_inv m'"
  by (simp add: mux_inv_def)

lemma mux_added_inv: "mux_inv m \<Longrightarrow> mux_inv (snd (mux_added i token m))"
proof (cases "map_of (mx_handles m) i")
  case None
  then show "mux_inv m \<Longrightarrow> ?thesis" by (simp add: mux_added_def Let_def mux_inv_add)
next
  case (Some e)
  let ?m = "m\<lparr>mx_handles := AList.delete i (mx_handles m), mx_sent := mx_sent m @ [(me_tx e, NewRegistration)]\<rparr>"
  assume "mux_inv m"
  then have "mux_inv (?m\<lparr>mx_handles := AList.update i \<lparr>me_token = token, me_tx = mx_next ?m\<rparr> (mx_handles ?m), mx_next := Suc (mx_next ?m)\<rparr>)"
    using Some by (intro mux_inv_add mux_inv_release) (simp_all add: delete_conv')
  then show ?thesis
    using Some by (subst mux_inv_cong[where m' = "?m\<lparr>mx_handles := AList.update i \<lparr>me_token = token, me_tx = mx_next ?m\<rparr> (mx_handles ?m),
        mx_next := Suc (mx_next ?m)\<rparr>"]) (simp_all add: mux_added_def Let_def AList_update_delete)
qed

lemma mux_reachable_inv: "mux_reachable m \<Longrightarrow> mux_inv m"
proof (induction rule: mux_reachable.induct)
  case start
  then show ?case by (simp add: mux_inv_def mux_new_def channels_def one_each_def)
next
  case (lost m i)
  then show ?case by (auto simp: mux_handle_lost_def mux_inv_release split: option.splits)
next
  case (added m i token)
  from added.IH show ?case by (rule mux_added_inv)
next
  case (deleted m i token)
  then show ?case by (auto simp: mux_deleted_def mux_inv_release split: option.splits)
qed

lemma watcher_lost_None: "watcher_lost rx m = None \<longleftrightarrow> rx \<notin> fst ` set (mx_sent m)"
  by (simp add: watcher_lost_def map_of_eq_None_iff)

lemma watcher_pending:
  assumes "mux_inv m" and "rx < mx_next m"
  shows "watcher_lost rx m = None \<longleftrightarrow> rx \<in> channels (map_of (mx_handles m))"
proof -
  have "rx \<in> channels (map_of (mx_handles m)) \<union> fst ` set (mx_sent m)" "channels (map_of (mx_handles m)) \<inter> fst ` set (mx_sent m) = {}"
    using assms by (auto simp: mux_inv_def)
  then show ?thesis unfolding watcher_lost_None by blast
qed

text \<open>
  In every state the multiplexer of an endpoint can reach, no watcher is told twice that
  its state is lost, and a watcher has not been told exactly as long as its registration is
  the current one of its device.  A new registration of a device tells the previous watcher
  and no other.
\<close>

theorem watchers_told_once:
  assumes "mux_reachable m"
  shows "distinct (map fst (mx_sent m))
     \<and> (\<forall>rx < mx_next m. watcher_lost rx m = None \<longleftrightarrow> (\<exists>i e. map_of (mx_handles m) i = Some e \<and> me_tx e = rx))
     \<and> (\<forall>rx < mx_next m. watcher_lost rx m = None \<longrightarrow>
          watcher_lost rx (snd (mux_added i token m)) =
            (if \<exists>e. map_of (mx_handles m) i = Some e \<and> me_tx e = rx then Some NewRegistration else None))"
proof -
  note inv = mux_reachable_inv[OF assms]
  have "distinct (map fst (mx_sent m))" using inv by (simp add: mux_inv_def)
  moreover have "watcher_lost rx m = None \<longleftrightarrow> (\<exists>i e. map_of (mx_handles m) i = Some e \<and> me_tx e = rx)"
    if "rx < mx_next m" for rx
    unfolding watcher_pending[OF inv that] channels_iff ..
  moreover have "watcher_lost rx (snd (mux_added i token m)) =
      (if \<exists>e. map_of (mx_handles m) i = Some e \<and> me_tx e = rx then Some NewRegistration else None)"
    if "watcher_lost rx m = None" for rx
    using that by (auto simp: watcher_lost_def mux_added_def Let_def map_add_def split: option.splits)
  ultimately show ?thesis by blast
qed

theorem watchers_told_once_witness:
  "let m = snd (mux_added (''a'', ''d'') ''t'' mux_new) in
   watcher_lost 0 m = None \<and> watcher_lost 0 (snd (mux_added (''a'', ''d'') ''u'' m)) = Some NewRegistration"
proof -
  let ?m = "snd (mux_added (''a'', ''d'') ''t'' mux_new)"
  have "mux_reachable ?m" by (intro mux_reachable.intros)
  from watchers_told_once[OF this, of "(''a'', ''d'')" "''u''"] show ?thesis
    by (simp add: mux_added_def mux_new_def Let_def watcher_lost_def)
qed

section \<open>The loop that deletes a state\<close>

lemma remote_cases:
  assumes "remote env f wd = (r, wd')"
  shows "wd_mux wd' = wd_mux wd" "wd_calls wd' = Suc (wd_calls wd)" "wd_kill_tx wd' = wd_kill_tx wd" "wd_killed wd' = wd_killed wd"
    "r = Inr x \<Longrightarrow> f (wd_calls wd) (cv_others env (wd_calls wd) (wd_service wd)) = (Inr x, wd_service wd')"
  using assms by (auto simp: remote_def Let_def split: prod.splits sum.splits delivery.splits)

text \<open>
  A run of the loop: the watchers are not touched, a run that ends normally ends with an
  answer of the service, and enough failures send the kill signal.
\<close>

definition delete_run ::
  "'w client_env \<Rightarrow> controller \<Rightarrow> string \<Rightarrow> string \<Rightarrow> string \<Rightarrow> bool \<Rightarrow> u64 \<Rightarrow> 'w world \<Rightarrow> bool \<times> 'w world \<Rightarrow> bool" where
  "delete_run env ctl a d t skip attempts wd r \<longleftrightarrow>
     wd_mux (snd r) = wd_mux wd \<and> wd_calls wd < wd_calls (snd r) \<and> (wd_killed wd \<longrightarrow> wd_killed (snd r))
     \<and> (fst r \<longrightarrow> (\<exists>n w u. cv_delete env n (sc_session ctl) a d t skip w = (Inr u, wd_service (snd r))))
     \<and> (attempts \<noteq> 0 \<and> wd_kill_tx wd \<and> unat attempts < wd_calls (snd r) - wd_calls wd \<longrightarrow> wd_killed (snd r))"

lemma delete_run_step:
  assumes "remote env (\<lambda>n. cv_delete env n (sc_session ctl) a d t skip) wd = (Inl e, wd1)"
    and "delete_run env ctl a d t skip (attempts - 1) wd2 r"
    and "wd2 = (if attempts = 1 then wd1\<lparr>wd_kill_tx := False, wd_killed := True\<rparr> else wd1)"
  shows "delete_run env ctl a d t skip attempts wd r"
proof -
  note rem = remote_cases(1-4)[OF assms(1)]
  show ?thesis
  proof (cases "attempts = 1")
    case True
    then show ?thesis using assms(2,3) by (simp add: delete_run_def rem)
  next
    case False
    have "attempts \<noteq> 0 \<Longrightarrow> unat attempts = Suc (unat (attempts - 1))" by (simp add: unat_minus_one unat_gt_0)
    moreover have "attempts - 1 \<noteq> 0" using False by simp
    ultimately show ?thesis using assms(2,3) False unfolding delete_run_def by (simp add: rem) linarith
  qed
qed

lemma delete_loop_run:
  "delete_loop env ctl a d t skip attempts wd = Some r \<Longrightarrow> delete_run env ctl a d t skip attempts wd r"
proof (rule delete_loop.raw_induct[where P = delete_run])
  fix f :: "'w client_env \<Rightarrow> controller \<Rightarrow> string \<Rightarrow> string \<Rightarrow> string \<Rightarrow> bool \<Rightarrow> u64 \<Rightarrow> 'w world \<Rightarrow> (bool \<times> 'w world) option"
    and env ctl a d t skip attempts wd r
  assume IH: "\<And>env ctl a d t skip n wd r. f env ctl a d t skip n wd = Some r \<Longrightarrow> delete_run env ctl a d t skip n wd r"
    and run: "(case remote env (\<lambda>n. cv_delete env n (sc_session ctl) a d t skip) wd of
        (Inl x, wd') \<Rightarrow>
          if attempts - 1 = 0
          then if wd_kill_tx wd' then f env ctl a d t skip (attempts - 1) (wd'\<lparr>wd_kill_tx := False, wd_killed := True\<rparr>)
               else Some (False, wd')
          else f env ctl a d t skip (attempts - 1) wd'
      | (Inr x, wd') \<Rightarrow> Some (True, wd')) = Some r"
  obtain x wd1 where x: "remote env (\<lambda>n. cv_delete env n (sc_session ctl) a d t skip) wd = (x, wd1)" by fastforce
  show "delete_run env ctl a d t skip attempts wd r"
  proof (cases x)
    case (Inr u)
    then have "cv_delete env (wd_calls wd) (sc_session ctl) a d t skip (cv_others env (wd_calls wd) (wd_service wd)) = (Inr u, wd_service wd1)"
      using remote_cases(5)[OF x] by simp
    moreover have "r = (True, wd1)" using run by (simp add: x Inr)
    ultimately show ?thesis unfolding delete_run_def by (simp add: remote_cases(1-4)[OF x] less_Suc_eq_0_disj unat_eq_zero) blast
  next
    case (Inl e)
    show ?thesis
    proof (cases "attempts = 1 \<and> \<not> wd_kill_tx wd1")
      case True
      then have "r = (False, wd1)" using run by (simp add: x Inl)
      then show ?thesis using True unfolding delete_run_def by (simp add: remote_cases(1-4)[OF x])
    next
      case False
      have "f env ctl a d t skip (attempts - 1) (if attempts = 1 then wd1\<lparr>wd_kill_tx := False, wd_killed := True\<rparr> else wd1) = Some r"
        using run False by (simp add: x Inl split: if_splits)
      from delete_run_step[OF x[unfolded Inl] IH[OF this] refl] show ?thesis .
    qed
  qed
qed

lemma remote_invariant:
  assumes "remote env f wd = (r, wd')" and "I (wd_service wd)" and "\<And>n w. I w \<Longrightarrow> I (cv_others env n w)"
    and "\<And>n w. I w \<Longrightarrow> I (snd (f n w))"
  shows "I (wd_service wd')"
  using assms(1) assms(3)[OF assms(2), of "wd_calls wd"] assms(4)[OF assms(3)[OF assms(2)], of "wd_calls wd" "wd_calls wd"]
  by (auto simp: remote_def Let_def split: prod.splits delivery.splits)

text \<open>What every call and all other clients keep, the loops keep.\<close>

lemma delete_loop_invariant:
  assumes "delete_loop env ctl a d t skip attempts wd = Some r" and "I (wd_service wd)"
    and "\<And>n w. I w \<Longrightarrow> I (cv_others env n w)"
    and "\<And>n w. I w \<Longrightarrow> I (snd (cv_delete env n (sc_session ctl) a d t skip w))"
  shows "I (wd_service (snd r))"
proof -
  let ?P = "\<lambda>env ctl a d t skip attempts wd r. I (wd_service wd) \<longrightarrow> (\<forall>n w. I w \<longrightarrow> I (cv_others env n w)) \<longrightarrow>
      (\<forall>n w. I w \<longrightarrow> I (snd (cv_delete env n (sc_session ctl) a d t skip w))) \<longrightarrow> I (wd_service (snd r))"
  have "?P env ctl a d t skip attempts wd r"
    using assms(1)
  proof (rule delete_loop.raw_induct[where P = ?P, rotated])
    fix f :: "'a client_env \<Rightarrow> controller \<Rightarrow> string \<Rightarrow> string \<Rightarrow> string \<Rightarrow> bool \<Rightarrow> u64 \<Rightarrow> 'a world \<Rightarrow> (bool \<times> 'a world) option"
      and env ctl a d t skip attempts wd r
    assume IH: "\<And>env ctl a d t skip n wd r. f env ctl a d t skip n wd = Some r \<Longrightarrow> ?P env ctl a d t skip n wd r"
      and run: "(case remote env (\<lambda>n. cv_delete env n (sc_session ctl) a d t skip) wd of
        (Inl x, wd') \<Rightarrow>
          if attempts - 1 = 0
          then if wd_kill_tx wd' then f env ctl a d t skip (attempts - 1) (wd'\<lparr>wd_kill_tx := False, wd_killed := True\<rparr>)
               else Some (False, wd')
          else f env ctl a d t skip (attempts - 1) wd'
      | (Inr x, wd') \<Rightarrow> Some (True, wd')) = Some r"
    obtain x wd1 where x: "remote env (\<lambda>n. cv_delete env n (sc_session ctl) a d t skip) wd = (x, wd1)" by fastforce
    show "?P env ctl a d t skip attempts wd r"
    proof (intro impI)
      assume I: "I (wd_service wd)" "\<forall>n w. I w \<longrightarrow> I (cv_others env n w)"
        "\<forall>n w. I w \<longrightarrow> I (snd (cv_delete env n (sc_session ctl) a d t skip w))"
      then have "I (wd_service wd1)" using remote_invariant[OF x, of I] by blast
      then show "I (wd_service (snd r))"
        using run x I IH[of env ctl a d t skip "attempts - 1" _ r] by (auto split: sum.splits if_splits)
    qed
  qed
  then show ?thesis using assms(2-4) by blast
qed

lemma create_loop_invariant:
  assumes "create_loop env ctl a d t st attempts wd = Some r" and "I (wd_service wd)"
    and "\<And>n w. I w \<Longrightarrow> I (cv_others env n w)"
    and "\<And>n w. I w \<Longrightarrow> I (snd (cv_create env n (sc_session ctl) a d t st w))"
    and "\<And>n w. I w \<Longrightarrow> I (snd (cv_delete env n (sc_session ctl) a d t False w))"
  shows "I (wd_service (snd r))"
  using assms(1,2)
proof (induction attempts arbitrary: wd)
  case (0 wd)
  obtain x wd1 where x: "remote env (\<lambda>n. cv_create env n (sc_session ctl) a d t st) wd = (x, wd1)" by fastforce
  have "I (wd_service wd1)" by (rule remote_invariant[OF x 0(2) assms(3,4)])
  then show ?case
    using 0(1) x delete_loop_invariant[of env ctl a d t False _ wd1 _ I] assms(3,5)
    by (subst (asm) create_loop.simps) (fastforce simp: controller_delete_def Let_def split: sum.splits create_response.splits prod.splits)
next
  case (Suc attempts)
  obtain x wd1 where x: "remote env (\<lambda>n. cv_create env n (sc_session ctl) a d t st) wd = (x, wd1)" by fastforce
  have "I (wd_service wd1)" by (rule remote_invariant[OF x Suc.prems(2) assms(3,4)])
  then show ?case
    using Suc.prems(1) x Suc.IH[of wd1] delete_loop_invariant[of env ctl a d t False _ wd1 _ I] assms(3,5)
    by (subst (asm) create_loop.simps) (fastforce simp: controller_delete_def Let_def split: sum.splits create_response.splits prod.splits)
qed

lemma delete_loop_returns:
  assumes "cv_delivery env (wd_calls wd + k) = Answered"
    and "\<And>w. I w \<Longrightarrow> \<exists>u w'. cv_delete env (wd_calls wd + k) (sc_session ctl) a d t skip w = (Inr u, w')"
    and "I (wd_service wd)" and "\<And>n w. I w \<Longrightarrow> I (cv_others env n w)"
    and "\<And>n w. I w \<Longrightarrow> I (snd (cv_delete env n (sc_session ctl) a d t skip w))"
  shows "\<exists>r. delete_loop env ctl a d t skip attempts wd = Some r"
  using assms(1-3)
proof (induction k arbitrary: wd attempts)
  case 0
  obtain u w' where "cv_delete env (wd_calls wd) (sc_session ctl) a d t skip (cv_others env (wd_calls wd) (wd_service wd)) = (Inr u, w')"
    using 0(2)[OF assms(4)[OF 0(3)], of "wd_calls wd"] by auto
  then have "remote env (\<lambda>n. cv_delete env n (sc_session ctl) a d t skip) wd = (Inr u, wd\<lparr>wd_calls := Suc (wd_calls wd), wd_service := w'\<rparr>)"
    using 0(1) by (simp add: remote_def Let_def)
  then show ?case by (subst delete_loop.simps) (simp only: prod.case sum.case, blast)
next
  case (Suc k)
  obtain x wd1 where x: "remote env (\<lambda>n. cv_delete env n (sc_session ctl) a d t skip) wd = (x, wd1)" by fastforce
  have "I (wd_service wd1)" by (rule remote_invariant[OF x Suc.prems(3) assms(4,5)])
  then have "\<exists>r. delete_loop env ctl a d t skip n (wd1\<lparr>wd_kill_tx := False, wd_killed := True\<rparr>) = Some r"
    "\<exists>r. delete_loop env ctl a d t skip n wd1 = Some r" for n
    using Suc remote_cases(2)[OF x] by simp_all
  then show ?case by (subst delete_loop.simps) (auto simp: x split: sum.splits)
qed

section \<open>The contract of the service\<close>

text \<open>What an outcome of \<open>create\<close> says about the service and the watchers.\<close>

fun outcome_ok ::
  "('w \<Rightarrow> string \<Rightarrow> string \<Rightarrow> string \<Rightarrow> string \<Rightarrow> bool) \<Rightarrow> string \<Rightarrow> string \<Rightarrow> string \<Rightarrow> string \<Rightarrow> creation_outcome \<times> 'w world \<Rightarrow> bool" where
  "outcome_ok registered s a d t (StateCreated h rx, wd) \<longleftrightarrow> registered (wd_service wd) s a d t
     \<and> map_of (mx_handles (wd_mux wd)) (a, d) = Some \<lparr>me_token = t, me_tx = rx\<rparr>
     \<and> h = \<lparr>hd_deleted = False, hd_application = a, hd_device = d, hd_token = t\<rparr>"
| "outcome_ok registered s a d t (StateOccupied, wd) \<longleftrightarrow> \<not> registered (wd_service wd) s a d t"
| "outcome_ok registered s a d t (StateFailed, wd) \<longleftrightarrow> \<not> registered (wd_service wd) s a d t"
| "outcome_ok registered s a d t (CreationAborted, wd) \<longleftrightarrow> True"

text \<open>What the client relies on: \<open>registered w s a d t\<close> says that a state with this token is registered.\<close>

locale state_service =
  fixes create :: "nat \<Rightarrow> string \<Rightarrow> string \<Rightarrow> string \<Rightarrow> string \<Rightarrow> device_state \<Rightarrow> 'w \<Rightarrow> (state_error + create_response) \<times> 'w"
    and delete :: "nat \<Rightarrow> string \<Rightarrow> string \<Rightarrow> string \<Rightarrow> string \<Rightarrow> bool \<Rightarrow> 'w \<Rightarrow> (state_error + unit) \<times> 'w"
    and registered :: "'w \<Rightarrow> string \<Rightarrow> string \<Rightarrow> string \<Rightarrow> string \<Rightarrow> bool"
  assumes created: "create n s a d t st w = (Inr Created, w') \<Longrightarrow> registered w' s a d t"
    and occupied: "create n s a d t st w = (Inr Occupied, w') \<Longrightarrow> registered w' s' a' d' t' = registered w s' a' d' t'"
    and deleted: "delete n s a d t skip w = (Inr u, w') \<Longrightarrow> \<not> registered w' s a d t"
begin

lemma delete_loop_gone:
  assumes "delete_loop env ctl a d t skip n wd = Some (True, wd')" and "cv_delete env = delete"
  shows "\<not> registered (wd_service wd') (sc_session ctl) a d t"
  using delete_loop_run[OF assms(1)] deleted by (auto simp: delete_run_def assms(2))

lemma create_step_ok:
  assumes "remote env (\<lambda>n. cv_create env n (sc_session ctl) a d t st) wd = (x, wd1)"
    and "create_loop env ctl a d t st attempts wd = Some r" and "cv_create env = create" and "cv_delete env = delete"
    and "x \<noteq> Inr Occupied"
  shows "outcome_ok registered (sc_session ctl) a d t r"
proof (cases x)
  case (Inl e)
  then obtain finished wd2 where "controller_delete env ctl a d t False wd1 = Some (finished, wd2)"
    and r: "r = (if finished then StateFailed else CreationAborted, wd2)"
    using assms(1,2) by (subst (asm) create_loop.simps) auto
  then show ?thesis using delete_loop_gone assms(4) by (cases finished) (auto simp: controller_delete_def)
next
  case (Inr y)
  have "registered (wd_service wd1) (sc_session ctl) a d t"
    using remote_cases(5)[OF assms(1), of Created] assms(3,5) Inr created by (cases y) auto
  then show ?thesis
    using assms(1,2,5) Inr by (subst (asm) create_loop.simps, cases y)
      (auto simp: mux_added_def Let_def update_conv' split: option.splits)
qed

lemma create_occupied_keeps:
  assumes "remote env (\<lambda>n. cv_create env n (sc_session ctl) a d t st) wd = (Inr Occupied, wd1)" and "cv_create env = create"
    and "\<And>n w. \<not> registered w (sc_session ctl) a d t \<Longrightarrow> \<not> registered (cv_others env n w) (sc_session ctl) a d t"
    and "\<not> registered (wd_service wd) (sc_session ctl) a d t"
  shows "\<not> registered (wd_service wd1) (sc_session ctl) a d t"
  using remote_cases(5)[OF assms(1) refl] occupied assms(3)[OF assms(4)] unfolding assms(2) by blast

lemma create_loop_ok:
  assumes "create_loop env ctl a d t st attempts wd = Some r"
    and "cv_create env = create" and "cv_delete env = delete"
    and "\<And>n w. \<not> registered w (sc_session ctl) a d t \<Longrightarrow> \<not> registered (cv_others env n w) (sc_session ctl) a d t"
    and "\<not> registered (wd_service wd) (sc_session ctl) a d t"
  shows "outcome_ok registered (sc_session ctl) a d t r"
  using assms(1,5)
proof (induction attempts arbitrary: wd)
  case (0 wd)
  obtain x wd1 where x: "remote env (\<lambda>n. cv_create env n (sc_session ctl) a d t st) wd = (x, wd1)" by fastforce
  show ?case
  proof (cases "x = Inr Occupied")
    case True
    then have "r = (StateOccupied, wd1)" using 0(1) x by (subst (asm) create_loop.simps) simp
    then show ?thesis using create_occupied_keeps[OF x[unfolded True] assms(2,4) 0(2)] by simp
  qed (rule create_step_ok[OF x 0(1) assms(2,3)])
next
  case (Suc attempts)
  obtain x wd1 where x: "remote env (\<lambda>n. cv_create env n (sc_session ctl) a d t st) wd = (x, wd1)" by fastforce
  show ?case
  proof (cases "x = Inr Occupied")
    case True
    then have "create_loop env ctl a d t st attempts wd1 = Some r" using Suc.prems(1) x by (subst (asm) create_loop.simps) simp
    then show ?thesis using Suc.IH create_occupied_keeps[OF x[unfolded True] assms(2,4) Suc.prems(2)] by simp
  qed (rule create_step_ok[OF x Suc.prems(1) assms(2,3)])
qed

lemma handle_delete_gone:
  assumes "handle_delete env ctl h skip wd = Some ((True, h'), wd')" and "\<not> hd_deleted h" and "cv_delete env = delete"
  shows "\<not> registered (wd_service wd') (sc_session ctl) (hd_application h) (hd_device h) (hd_token h)"
  using assms delete_loop_gone by (auto simp: handle_delete_def controller_delete_def split: if_splits)

end

text \<open>The device state service keeps the contract.\<close>

definition state_registered :: "state_env \<Rightarrow> state_db \<Rightarrow> string \<Rightarrow> string \<Rightarrow> string \<Rightarrow> string \<Rightarrow> bool" where
  "state_registered sv db s a d t \<longleftrightarrow> (\<exists>r \<in> set (sd_states db).
     sv_parse_uuid sv s = Some (sw_SESSION r) \<and> state_key r = (a, d) \<and> sw_TOKEN r = t)"

lemma state_registered_create:
  assumes "state_create sv now s a d t st db = (Inr Created, db')"
  shows "state_registered sv db' s a d t"
  using assms by (auto simp: state_create_def state_registered_def state_key_def Let_def split: sum.splits option.splits prod.splits if_splits)

lemma state_registered_occupied:
  assumes "state_create sv now s a d t st db = (Inr Occupied, db')"
  shows "state_registered sv db' s' a' d' t' = state_registered sv db s' a' d' t'"
proof -
  have "db' = db\<lparr>sd_states := update_where (\<lambda>r. state_key r = (a, d)) (\<lambda>r. r\<lparr>sw_LOST := True\<rparr>) (sd_states db)\<rparr>"
    using assms by (auto simp: state_create_def Let_def split: sum.splits option.splits prod.splits if_splits)
  moreover have "(\<exists>r \<in> set (update_where P (\<lambda>r. r\<lparr>sw_LOST := True\<rparr>) rows). Q r) \<longleftrightarrow> (\<exists>r \<in> set rows. Q r)"
    if "\<And>r. Q (r\<lparr>sw_LOST := True\<rparr>) = Q r" for P Q and rows :: "state_row list"
    using that unfolding set_update_where by blast
  ultimately show ?thesis by (simp add: state_registered_def)
qed

lemma state_registered_delete:
  assumes "state_delete sv s a d t skip db = (Inr u, db')"
  shows "\<not> state_registered sv db' s a d t"
proof (cases "sv_parse_uuid sv s")
  case (Some sid)
  then have "sd_states db' = delete_where (\<lambda>r. sw_SESSION r = sid \<and> sw_APPLICATION r = a \<and> sw_DEVICE r = d \<and> sw_TOKEN r = t) (sd_states db)"
    using assms by (auto simp: state_delete_def Let_def split: list.splits prod.splits sum.splits)
  then show ?thesis using Some by (auto simp: state_registered_def state_key_def set_delete_where)
qed (use assms in \<open>simp add: state_delete_def\<close>)

text \<open>Calls for one device register no state of another one.\<close>

lemma state_registered_other:
  assumes "(a', d') \<noteq> (a, d)" and "\<not> state_registered sv db s' a' d' t'"
  shows "\<not> state_registered sv (snd (state_create sv now s a d t st db)) s' a' d' t'"
    and "\<not> state_registered sv (snd (state_delete sv s a d t skip db)) s' a' d' t'"
  using assms
  by (auto simp: state_create_def state_delete_def state_registered_def state_key_def update_where_def set_delete_where Let_def
      split: sum.splits option.splits prod.splits list.splits if_splits)

interpretation dss: state_service "\<lambda>n. state_create sv (clock n)" "\<lambda>n. state_delete sv" "state_registered sv"
  for sv and clock :: "nat \<Rightarrow> timestamp"
  by unfold_locales (erule state_registered_create state_registered_occupied state_registered_delete)+

section \<open>Properties\<close>

text \<open>
  C24. Whatever happens to the calls on the network, and whatever other clients do, a state is
  never left behind: after \<open>Created\<close> the service holds the state under the token of the
  handle and the watcher of the handle is the registered one; after \<open>Occupied\<close> or \<open>Failed\<close> it
  holds no state with the token, even when the request that created it was executed and only
  its answer was lost.  Deleting by a handle removes the state.  Other clients do not know
  the token, so they never register it.
\<close>

theorem create_leaves_no_orphan:
  assumes "cv_create env = (\<lambda>n. state_create sv (clock n))" and "cv_delete env = (\<lambda>n. state_delete sv)"
    and "\<And>n w. \<not> state_registered sv w (sc_session ctl) (pa_name application) (pd_name device) token \<Longrightarrow>
           \<not> state_registered sv (cv_others env n w) (sc_session ctl) (pa_name application) (pd_name device) token"
    and "\<not> state_registered sv (wd_service wd) (sc_session ctl) (pa_name application) (pd_name device) token"
    and "controller_create env ctl application device max_attempts lwt token wd = Some (out, wd1)"
  shows "outcome_ok (state_registered sv) (sc_session ctl) (pa_name application) (pd_name device) token (out, wd1)
     \<and> (\<forall>h rx skip wd2 h' wd3. out = StateCreated h rx \<longrightarrow> handle_delete env ctl h skip wd2 = Some ((True, h'), wd3) \<longrightarrow>
          \<not> state_registered sv (wd_service wd3) (sc_session ctl) (pa_name application) (pd_name device) token)"
proof -
  have ok: "outcome_ok (state_registered sv) (sc_session ctl) (pa_name application) (pd_name device) token (out, wd1)"
    using assms(5) unfolding controller_create_def Let_def
    by (rule dss.create_loop_ok[OF _ assms(1,2,3,4)])
  moreover have "\<not> state_registered sv (wd_service wd3) (sc_session ctl) (pa_name application) (pd_name device) token"
    if "out = StateCreated h rx" "handle_delete env ctl h skip wd2 = Some ((True, h'), wd3)" for h rx skip wd2 h' wd3
    using dss.handle_delete_gone[OF that(2) _ assms(2)] ok that(1) by simp
  ultimately show ?thesis by blast
qed

definition demo_client :: "(nat \<Rightarrow> delivery) \<Rightarrow> state_db client_env" where
  "demo_client net = \<lparr>cv_delivery = net, cv_others = (\<lambda>_ w. w), cv_clock = int, cv_init = (\<lambda>n. state_init demo_sv (of_nat n) (int n)),
     cv_create = (\<lambda>n. state_create demo_sv (int n)), cv_delete = (\<lambda>n. state_delete demo_sv),
     cv_ping = (\<lambda>n. state_ping demo_sv (int n))\<rparr>"

definition demo_controller :: controller where
  "demo_controller = \<lparr>sc_session = ''1'', sc_endpoint = ''e'', sc_retry_deletes = 1\<rparr>"

definition demo_world :: "state_db world" where
  "demo_world = \<lparr>wd_calls = 0, wd_service = \<lparr>sd_sessions = [\<lparr>se_ID = 1, se_LAST_PING = 0\<rparr>], sd_states = [], sd_sent = []\<rparr>,
     wd_mux = mux_new, wd_kill_tx = True, wd_killed = False\<rparr>"

definition demo_net :: "nat \<Rightarrow> delivery" where
  "demo_net n = (if n = 0 then AnswerLost else if n = 1 then NotDelivered else Answered)"

lemmas demo_client_defs = demo_client_def demo_controller_def demo_world_def demo_net_def

text \<open>The creation is executed but its answer is lost, the first deletion does not arrive.\<close>

declare delete_loop.simps [code] create_loop.simps [code]

lemma demo_create_run:
  "map_option (\<lambda>(out, wd). (out, sd_states (wd_service wd), wd_killed wd, length (sd_sent (wd_service wd))))
     (create_loop (demo_client demo_net) demo_controller ''a'' ''d'' ''t'' \<lparr>ds_device_uid = ''u'', ds_endpoint = ''e'', ds_lwt = None\<rparr> 0 demo_world)
   = Some (StateFailed, [], True, 2)"
  by code_simp

theorem create_leaves_no_orphan_witness:
  "\<exists>wd1. controller_create (demo_client demo_net) demo_controller (pb_application (demo_publish ''d'')) (demo_device ''d'') 0 None ''t'' demo_world
       = Some (StateFailed, wd1)
     \<and> \<not> state_registered demo_sv (wd_service wd1) ''1'' ''a'' ''d'' ''t''"
proof -
  let ?app = "pb_application (demo_publish ''d'')" and ?dev = "demo_device ''d''"
  have names: "pa_name ?app = ''a''" "pd_name ?dev = ''d''" "pd_uid ?dev = ''u''" "sc_session demo_controller = ''1''" "sc_endpoint demo_controller = ''e''"
    by (simp_all add: demo_publish_def demo_device_def demo_controller_def)
  obtain wd1 where run: "controller_create (demo_client demo_net) demo_controller ?app ?dev 0 None ''t'' demo_world = Some (StateFailed, wd1)"
    using demo_create_run by (auto simp: controller_create_def names)
  have "outcome_ok (state_registered demo_sv) (sc_session demo_controller) (pa_name ?app) (pd_name ?dev) ''t'' (StateFailed, wd1)"
    using create_leaves_no_orphan[OF _ _ _ _ run, of demo_sv int] by (simp add: demo_client_def demo_world_def state_registered_def)
  then show ?thesis using run by (simp add: names)
qed

text \<open>
  Deleting a state returns as soon as one call is answered with success, no matter how
  many failed before; if it fails at least as often as it may be retried, the runner is told
  to end first.
\<close>

theorem delete_returns:
  assumes "cv_delivery env (wd_calls wd + k) = Answered"
    and "\<And>w. good w \<Longrightarrow> \<exists>u w'. cv_delete env (wd_calls wd + k) (sc_session ctl) a d t skip w = (Inr u, w')"
    and "good (wd_service wd)" and "\<And>n w. good w \<Longrightarrow> good (cv_others env n w)"
    and "\<And>n w. good w \<Longrightarrow> good (snd (cv_delete env n (sc_session ctl) a d t skip w))"
    and "sc_retry_deletes ctl \<noteq> 0" and "wd_kill_tx wd"
  shows "\<exists>finished wd'. controller_delete env ctl a d t skip wd = Some (finished, wd') \<and> wd_mux wd' = wd_mux wd
     \<and> (unat (sc_retry_deletes ctl) < wd_calls wd' - wd_calls wd \<longrightarrow> wd_killed wd')"
proof -
  obtain r where r: "delete_loop env ctl a d t skip (sc_retry_deletes ctl) wd = Some r"
    using delete_loop_returns[where I = good, OF assms(1-5)] by blast
  from delete_loop_run[OF this] show ?thesis
    using r assms(6,7) by (cases r) (auto simp: controller_delete_def delete_run_def)
qed

lemma filter_pk_length:
  assumes "pk key rows" and "\<And>r. P r \<Longrightarrow> key r = k"
  shows "length (filter P rows) \<le> 1"
proof -
  have "filter P rows = filter P (filter (\<lambda>r. key r = k) rows)"
    unfolding filter_filter using assms(2) by (intro filter_cong) auto
  then show ?thesis unfolding filter_pk[OF assms(1)] by (simp split: option.splits)
qed

theorem delete_returns_witness:
  "\<exists>finished wd'. controller_delete (demo_client demo_net) demo_controller ''a'' ''d'' ''t'' False demo_world = Some (finished, wd')
     \<and> (1 < wd_calls wd' \<longrightarrow> wd_killed wd')"
proof -
  have "\<exists>u w'. state_delete demo_sv ''1'' ''a'' ''d'' ''t'' False w = (Inr u, w')" if "state_inv w" for w
  proof -
    let ?gone = "\<lambda>r. sw_SESSION r = 1 \<and> sw_APPLICATION r = ''a'' \<and> sw_DEVICE r = ''d'' \<and> sw_TOKEN r = ''t''"
    have parse: "sv_parse_uuid demo_sv ''1'' = Some 1" by code_simp
    have len: "length (filter ?gone (sd_states w)) \<le> 1"
      by (rule filter_pk_length[of state_key _ _ "(''a'', ''d'')"]) (use that in \<open>simp_all add: state_inv_def state_key_def\<close>)
    have send: "\<exists>sent'. send_disconnect_from_delete demo_sv False row sent = (Inr (), sent')" for row sent
      by (auto simp: send_disconnect_from_delete_def demo_sv_def send_lwt_event_def send_connection_event_def send_event_def Let_def
          split: option.splits)
    show ?thesis
    proof (cases "filter ?gone (sd_states w)")
      case (Cons row rows)
      then have "rows = []" using len by simp
      then show ?thesis
        using Cons send[of row "sd_sent w"] by (auto simp: state_delete_def parse Let_def)
    qed (simp add: state_delete_def parse Let_def)
  qed
  then have "\<exists>finished wd'. controller_delete (demo_client demo_net) demo_controller ''a'' ''d'' ''t'' False demo_world = Some (finished, wd')
      \<and> wd_mux wd' = wd_mux demo_world \<and> (unat (sc_retry_deletes demo_controller) < wd_calls wd' - wd_calls demo_world \<longrightarrow> wd_killed wd')"
    by (intro delete_returns[where good = state_inv and k = 2]) (auto simp: demo_client_defs state_delete_inv, simp add: state_inv_def)
  then show ?thesis by (simp add: demo_client_defs) blast
qed

lemma num_milliseconds_bounds: "0 \<le> x \<Longrightarrow> 1000000 * num_milliseconds x \<le> x" "x < 0 \<Longrightarrow> num_milliseconds x \<le> 0"
  by (auto simp: num_milliseconds_def sgn_if)

lemma next_deadline_before:
  assumes "0 < rn_delay_buffer rn" and "0 \<le> rn_min_delay_ms rn" and "now + 1000000 * rn_min_delay_ms rn < expires"
  shows "now + 1000000 * int (snd (next_deadline rn now expires)) < expires"
proof -
  let ?d = "expires - rn_delay_buffer rn - now"
  have "1000000 * num_milliseconds ?d \<le> ?d \<or> num_milliseconds ?d \<le> 0"
    using num_milliseconds_bounds[of ?d] by linarith
  then show ?thesis using assms by (auto simp: next_deadline_def Let_def)
qed

text \<open>
  The session is kept: if the minimal delay leaves room before the expiry, the next ping
  is due before the session expires; a ping that reaches the service then, or at any later
  time before the expiry, is answered with a new expiry, and until then the session is not
  chosen for pruning.
\<close>

theorem ping_in_time:
  assumes "state_inv db" and "r \<in> set (sd_sessions db)" and "sv_parse_uuid sv (rn_session rn) = Some (se_ID r)"
    and "expires = se_LAST_PING r + sv_timeout sv" and "0 < rn_delay_buffer rn" and "0 \<le> rn_min_delay_ms rn"
    and "now + 1000000 * rn_min_delay_ms rn < expires"
  shows "now + 1000000 * int (snd (next_deadline rn now expires)) < expires
     \<and> (\<forall>t. t < expires \<longrightarrow> (\<exists>lost db'. state_ping sv t (rn_session rn) db = (Inr (t + sv_timeout sv, lost), db')
          \<and> (\<forall>t' < t + sv_timeout sv. next_expired sv t' db' \<noteq> Some (se_ID r))))"
proof (intro conjI allI impI)
  show "now + 1000000 * int (snd (next_deadline rn now expires)) < expires"
    by (rule next_deadline_before[OF assms(5,6,7)])
next
  fix t assume t: "t < expires"
  let ?alive = "\<lambda>x. se_ID x = se_ID r \<and> se_LAST_PING x + sv_timeout sv > t"
  let ?db = "db\<lparr>sd_sessions := update_where ?alive (\<lambda>x. x\<lparr>se_LAST_PING := t\<rparr>) (sd_sessions db)\<rparr>"
  have alive: "?alive r" using t assms(4) by simp
  have uniq: "x = r" if "x \<in> set (sd_sessions db)" "se_ID x = se_ID r" for x
    using assms(1,2) that by (auto simp: state_inv_def distinct_map dest: inj_onD)
  have "count_where ?alive (sd_sessions db) > 0"
    using alive assms(2) by (auto simp: count_where_def length_filter_conv_card card_gt_0_iff in_set_conv_nth)
  then have "\<exists>lost. state_ping sv t (rn_session rn) db = (Inr (t + sv_timeout sv, lost), ?db)"
    by (simp add: state_ping_def assms(3) Let_def)
  moreover have "next_expired sv t' ?db \<noteq> Some (se_ID r)" if "t' < t + sv_timeout sv" for t'
  proof
    assume "next_expired sv t' ?db = Some (se_ID r)"
    from next_expired_Some[OF this] obtain x where "x \<in> set (sd_sessions ?db)" "se_ID x = se_ID r" "expired sv t' x" by blast
    then show False using uniq alive that by (auto simp: set_update_where expired_def)
  qed
  ultimately show "\<exists>lost db'. state_ping sv t (rn_session rn) db = (Inr (t + sv_timeout sv, lost), db')
      \<and> (\<forall>t' < t + sv_timeout sv. next_expired sv t' db' \<noteq> Some (se_ID r))" by blast
qed

theorem ping_in_time_witness:
  "(\<exists>lost db'. state_ping demo_sv 9 ''1'' (wd_service demo_world) = (Inr (19, lost), db')
       \<and> next_expired demo_sv 18 db' \<noteq> Some 1)"
proof -
  let ?rn = "\<lparr>rn_session = ''1'', rn_expires = 10, rn_delay_buffer = 5, rn_min_delay_ms = 0\<rparr>"
  have inv: "state_inv (wd_service demo_world)" by (simp add: state_inv_def demo_world_def)
  have "\<lparr>se_ID = 1, se_LAST_PING = 0\<rparr> \<in> set (sd_sessions (wd_service demo_world))" by (simp add: demo_world_def)
  moreover have "sv_parse_uuid demo_sv (rn_session ?rn) = Some (se_ID \<lparr>se_ID = 1, se_LAST_PING = 0\<rparr>)" by code_simp
  ultimately have "\<exists>lost db'. state_ping demo_sv 9 (rn_session ?rn) (wd_service demo_world) = (Inr (9 + sv_timeout demo_sv, lost), db')
       \<and> (\<forall>t' < 9 + sv_timeout demo_sv. next_expired demo_sv t' db' \<noteq> Some (se_ID \<lparr>se_ID = 1, se_LAST_PING = 0\<rparr>))"
    by (intro ping_in_time[OF inv, of "\<lparr>se_ID = 1, se_LAST_PING = 0\<rparr>" demo_sv ?rn 10 0, THEN conjunct2, THEN spec, THEN mp])
      (simp_all add: demo_sv_def)
  moreover have "sv_timeout demo_sv = 10" by (simp add: demo_sv_def)
  ultimately obtain lost db' where "state_ping demo_sv 9 ''1'' (wd_service demo_world) = (Inr (9 + 10, lost), db')"
    and "\<forall>t' < 9 + 10. next_expired demo_sv t' db' \<noteq> Some 1" by auto
  then show ?thesis by (intro exI[of _ lost] exI[of _ db'] conjI) (simp, drule spec[of _ 18], simp)
qed

end
