(* ===== verification/Mqtt_Session.thy ===== *)
theory Mqtt_Session
  imports Mqtt_Dialect Device_Cache Http_Endpoint State_Client
begin

text \<open>
  The MQTT endpoint (\<open>mqtt-endpoint/src/service\<close>): a device connects, is authenticated and
  gets a session; the session publishes events, keeps the subscriptions for commands, and
  deletes the device state when the connection ends.

  A session works on a world it shares with the rest of the endpoint: the event sender, the
  dispatcher of commands and the client of the state service.  Parameters: the clock and the
  event identifiers of each step, the answers of the authentication service and the MQTT
  section of applications and devices.
\<close>

section \<open>State of a connection\<close>

datatype conn_state = Connected | Disconnected (skip_lwt: bool) | Closed (skip_lwt: bool)

definition ensure_connected :: "conn_state \<Rightarrow> unit + unit" where
  "ensure_connected c = (case c of Connected \<Rightarrow> Inr () | _ \<Rightarrow> Inl ())"

definition disconnect_with :: "bool \<Rightarrow> conn_state \<Rightarrow> (unit + unit) \<times> conn_state" where
  "disconnect_with skip c = (case c of Connected \<Rightarrow> (Inr (), Disconnected skip) | _ \<Rightarrow> (Inl (), c))"

definition disconnected :: "disconnect_reason \<Rightarrow> conn_state \<Rightarrow> (unit + unit) \<times> conn_state" where
  "disconnected reason c = disconnect_with (reason = NormalDisconnection) c"

definition close_conn :: "conn_state \<Rightarrow> bool \<times> conn_state" where
  "close_conn c =
     (case c of
        Connected \<Rightarrow> (False, Closed False)
      | Disconnected skip \<Rightarrow> (skip, Closed skip)
      | Closed skip \<Rightarrow> (skip, c))"

section \<open>Sessions\<close>

record inbox_subscription =
  ib_filter :: command_filter
  ib_handle :: subscription_handle
  ib_receiver :: nat
  ib_encoder :: topic_encoder

record mqtt_session =
  ms_application :: api_application
  ms_device :: api_device
  ms_dialect :: mqtt_dialect
  ms_inbox :: "(string \<times> inbox_subscription) list"
  ms_cache :: "api_device device_cache"
  ms_id :: "string \<times> string"
  ms_handle :: "state_handle option"
  ms_watcher :: nat
  ms_disconnect :: conn_state

record 'w mqtt_env =
  mv_app :: endpoint_app
  mv_clock :: "nat \<Rightarrow> timestamp"
  mv_new_id :: "nat \<Rightarrow> string"
  mv_random :: "nat \<Rightarrow> nat \<Rightarrow> u64"
  mv_client :: "'w client_env"
  mv_controller :: controller
  mv_token :: "nat \<Rightarrow> string"
  mv_cache_size :: nat
  mv_cache_duration :: int
  mv_state_attempts :: nat
  mv_disable_psk :: bool
  mv_device_mqtt :: "api_device \<Rightarrow> (string + mqtt_dialect) option"
  mv_default_dialect :: mqtt_dialect
  mv_app_mqtt :: "api_application \<Rightarrow> (string + mqtt_dialect) option"

text \<open>The clock and the other inputs are numbered by the steps taken.\<close>

record 'w mqtt_world =
  mw_step :: nat
  mw_sender :: sender_state
  mw_hub :: hub
  mw_state :: "'w world"

definition session_new ::
  "'w mqtt_env \<Rightarrow> api_application \<Rightarrow> mqtt_dialect \<Rightarrow> api_device \<Rightarrow> state_handle \<Rightarrow> nat \<Rightarrow> 'w mqtt_world \<Rightarrow> mqtt_session" where
  "session_new env application dialect device hdl watcher w =
     \<lparr>ms_application = application, ms_device = device, ms_dialect = dialect, ms_inbox = [],
      ms_cache = device_cache_new (mv_cache_size env) (mv_cache_duration env) (mv_clock env (mw_step w)),
      ms_id = (pa_name application, pd_name device), ms_handle = Some hdl, ms_watcher = watcher,
      ms_disconnect = Connected\<rparr>"

text \<open>The task that waits for the loss of the device state and then closes the connection.\<close>

definition session_watch :: "mqtt_version \<Rightarrow> mqtt_session \<Rightarrow> 'w mqtt_world \<Rightarrow> disconnect_reason option option" where
  "session_watch v ms w =
     (case watcher_lost (ms_watcher ms) (wd_mux (mw_state w)) of
        None \<Rightarrow> None
      | Some _ \<Rightarrow> Some (case v of V3 \<Rightarrow> None | V5 \<Rightarrow> Some SessionTakenOver))"

subsection \<open>Inbox\<close>

definition inbox_new ::
  "'w mqtt_env \<Rightarrow> command_filter \<Rightarrow> topic_encoder \<Rightarrow> 'w mqtt_world \<Rightarrow> (inbox_subscription \<times> 'w mqtt_world) option" where
  "inbox_new env filt encoder w =
     map_option (\<lambda>((receiver, hdl), hub).
         (\<lparr>ib_filter = filt, ib_handle = hdl, ib_receiver = receiver, ib_encoder = encoder\<rparr>, w\<lparr>mw_hub := hub\<rparr>))
       (Commands.subscribe (ea_topics (mv_app env)) filt (mv_random env (hb_next (mw_hub w))) (mw_hub w))"

definition inbox_close :: "inbox_subscription \<Rightarrow> 'w mqtt_world \<Rightarrow> 'w mqtt_world" where
  "inbox_close sub w = w\<lparr>mw_hub := Commands.unsubscribe (ib_handle sub) (mw_hub w)\<rparr>"

text \<open>The task of a subscription: what it sends to the device for the commands it receives.\<close>

definition inbox_send :: "topic_encoder \<Rightarrow> command \<Rightarrow> string \<times> string" where
  "inbox_send encoder cmd = (encode_command_topic encoder cmd, case cd_payload cmd of Some p \<Rightarrow> p | None \<Rightarrow> [])"

definition inbox_sent :: "inbox_subscription \<Rightarrow> 'w mqtt_world \<Rightarrow> (string \<times> string) list" where
  "inbox_sent sub w = map (inbox_send (ib_encoder sub)) (hb_queue (mw_hub w) (ib_receiver sub))"

definition subscribe_inbox ::
  "'w mqtt_env \<Rightarrow> string \<Rightarrow> command_filter \<Rightarrow> topic_encoder \<Rightarrow> mqtt_session \<times> 'w mqtt_world
    \<Rightarrow> (mqtt_session \<times> 'w mqtt_world) option" where
  "subscribe_inbox env topic_filter filt encoder st =
     (let (ms, w) = st in
      case map_of (ms_inbox ms) topic_filter of
        Some _ \<Rightarrow> Some (ms, w)
      | None \<Rightarrow>
          map_option (\<lambda>(sub, w). (ms\<lparr>ms_inbox := (topic_filter, sub) # ms_inbox ms\<rparr>, w)) (inbox_new env filt encoder w))"

subsection \<open>Publishing\<close>

definition authorize_answer :: "endpoint_env \<Rightarrow> mqtt_session \<Rightarrow> string \<Rightarrow> auth_client_error + api_device option" where
  "authorize_answer env ms device =
     rbind (en_authorize_as env (pa_name (ms_application ms)) (pd_name (ms_device ms)) device) (\<lambda>outcome.
       Inr (case outcome of GatewayPass d \<Rightarrow> Some d | GatewayFail \<Rightarrow> None))"

definition eval_device ::
  "'w mqtt_env \<Rightarrow> publish_packet \<Rightarrow> mqtt_session \<times> 'w mqtt_world
    \<Rightarrow> (mqtt_publish_error + string \<times> api_device) \<times> mqtt_session \<times> 'w mqtt_world" where
  "eval_device env p st =
     (let (ms, w) = st in
      case parse_publish (ms_dialect ms) (pp_topic p) of
        Inl _ \<Rightarrow> (Inl TopicNameInvalid, ms, w)
      | Inr topic \<Rightarrow>
          (case pt_device topic of
             None \<Rightarrow> (Inr (pt_channel topic, ms_device ms), ms, w)
           | Some device \<Rightarrow>
               if device = snd (ms_id ms) then (Inr (pt_channel topic, ms_device ms), ms, w)
               else let (r, cache) = cache_fetch (mv_clock env (mw_step w)) (mv_clock env (Suc (mw_step w))) device
                          (authorize_answer (ea_auth (mv_app env)) ms device) (ms_cache ms)
                    in (rbind r (\<lambda>d. Inr (pt_channel topic, d)), ms\<lparr>ms_cache := cache\<rparr>, w\<lparr>mw_step := mw_step w + 2\<rparr>)))"

definition mqtt_message :: "mqtt_session \<Rightarrow> string \<Rightarrow> api_device \<Rightarrow> string option \<Rightarrow> publish" where
  "mqtt_message ms channel device content_type =
     \<lparr>pb_application = ms_application ms, pb_device = device_publish_id device, pb_sender = device_publish_id (ms_device ms),
      pb_channel = channel, pb_options = default_options\<lparr>po_content_type := content_type\<rparr>\<rparr>"

definition mqtt_publish ::
  "'w mqtt_env \<Rightarrow> mqtt_version \<Rightarrow> publish_packet \<Rightarrow> mqtt_session \<times> 'w mqtt_world
    \<Rightarrow> ((mqtt_publish_error + unit) \<times> mqtt_session \<times> 'w mqtt_world) option" where
  "mqtt_publish env v p st =
     Some (case ensure_connected (ms_disconnect (fst st)) of
        Inl _ \<Rightarrow> (Inl PublishProtocolError, st)
      | Inr _ \<Rightarrow>
          (case eval_device env p st of
             (Inl e, st) \<Rightarrow> (Inl e, st)
           | (Inr (channel, device), ms, w) \<Rightarrow>
               let (r, ss) = publisher_publish (ea_sender (mv_app env)) (ea_sink (mv_app env)) Downstream (mv_new_id env (mw_step w))
                     (mv_clock env (mw_step w)) (mqtt_message ms channel device (packet_content_type v p)) (pp_payload p) (mw_sender w);
                   st = (ms, w\<lparr>mw_sender := ss, mw_step := Suc (mw_step w)\<rparr>)
               in (case r of
                     Inr Accepted \<Rightarrow> (Inr (), st)
                   | Inr Rejected \<Rightarrow> (Inl UnspecifiedError, st)
                   | Inr QueueFull \<Rightarrow> (Inl QuotaExceeded, st)
                   | Inl err \<Rightarrow> (Inl (PublishInternalError (publish_error_text err)), st))))"

subsection \<open>Subscriptions\<close>

fun subscribe_topics ::
  "'w mqtt_env \<Rightarrow> string list \<Rightarrow> mqtt_session \<times> 'w mqtt_world \<Rightarrow> (sub_ack list \<times> mqtt_session \<times> 'w mqtt_world) option" where
  "subscribe_topics env [] st = Some ([], st)"
| "subscribe_topics env (topic # topics) st =
     (case parse_subscribe (ms_dialect (fst st)) topic of
        Inr (filt, encoder) \<Rightarrow>
          Option.bind (subscribe_inbox env topic (into_command_filter (ms_id (fst st)) filt) encoder st) (\<lambda>st.
          map_option (\<lambda>(acks, st). (SubConfirmed AtMostOnce # acks, st)) (subscribe_topics env topics st))
      | Inl _ \<Rightarrow> map_option (\<lambda>(acks, st). (SubUnspecifiedError # acks, st)) (subscribe_topics env topics st))"

definition mqtt_subscribe ::
  "'w mqtt_env \<Rightarrow> mqtt_version \<Rightarrow> subscribe_packet \<Rightarrow> mqtt_session \<times> 'w mqtt_world
    \<Rightarrow> ((server_error + sub_ack list) \<times> mqtt_session \<times> 'w mqtt_world) option" where
  "mqtt_subscribe env v p st =
     (if packet_subscription_id v p \<noteq> None
      then Some (Inr (map (\<lambda>_. SubIdentifiersNotSupported) (sp_topics p)), st)
      else map_option (\<lambda>(acks, st). (Inr acks, st)) (subscribe_topics env (map fst (sp_topics p)) st))"

fun unsubscribe_topics ::
  "string list \<Rightarrow> mqtt_session \<times> 'w mqtt_world \<Rightarrow> unsub_ack list \<times> mqtt_session \<times> 'w mqtt_world" where
  "unsubscribe_topics [] st = ([], st)"
| "unsubscribe_topics (topic # topics) (ms, w) =
     (case map_of (ms_inbox ms) topic of
        Some sub \<Rightarrow>
          let (acks, st) = unsubscribe_topics topics (ms\<lparr>ms_inbox := AList.delete topic (ms_inbox ms)\<rparr>, inbox_close sub w)
          in (UnsubSuccess # acks, st)
      | None \<Rightarrow> let (acks, st) = unsubscribe_topics topics (ms, w) in (NoSubscriptionExisted # acks, st))"

definition mqtt_unsubscribe ::
  "string list \<Rightarrow> mqtt_session \<times> 'w mqtt_world \<Rightarrow> ((server_error + unsub_ack list) \<times> mqtt_session \<times> 'w mqtt_world) option" where
  "mqtt_unsubscribe topics st = (let (acks, st) = unsubscribe_topics topics st in Some (Inr acks, st))"

subsection \<open>The end of a session\<close>

definition mqtt_disconnect ::
  "disconnect_reason \<Rightarrow> mqtt_session \<times> 'w mqtt_world \<Rightarrow> ((server_error + unit) \<times> mqtt_session \<times> 'w mqtt_world) option" where
  "mqtt_disconnect reason st =
     (let (ms, w) = st; (r, c) = disconnected reason (ms_disconnect ms); st = (ms\<lparr>ms_disconnect := c\<rparr>, w)
      in Some (case r of Inl _ \<Rightarrow> Inl ServerProtocolError | Inr _ \<Rightarrow> Inr (), st))"

text \<open>The aborted process (\<open>False\<close> of the handle) does not go on.\<close>

definition mqtt_closed ::
  "'w mqtt_env \<Rightarrow> close_reason \<Rightarrow> mqtt_session \<times> 'w mqtt_world \<Rightarrow> ((server_error + unit) \<times> mqtt_session \<times> 'w mqtt_world) option" where
  "mqtt_closed env reason st =
     (let (ms, w) = st; (skip, c) = close_conn (ms_disconnect ms); ms = ms\<lparr>ms_disconnect := c\<rparr>
      in Option.bind
        (case ms_handle ms of
           Some h \<Rightarrow>
             Option.bind (handle_delete (mv_client env) (mv_controller env) h skip (mw_state w)) (\<lambda>((finished, _), wd).
               if finished then Some (ms\<lparr>ms_handle := None\<rparr>, w\<lparr>mw_state := wd\<rparr>) else None)
         | None \<Rightarrow> Some (ms, w)) (\<lambda>(ms, w).
        Some (Inr (), ms\<lparr>ms_inbox := []\<rparr>, fold (\<lambda>(_, sub). inbox_close sub) (ms_inbox ms) w)))"

definition session_drop :: "'w mqtt_env \<Rightarrow> mqtt_session \<times> 'w mqtt_world \<Rightarrow> 'w mqtt_world option" where
  "session_drop env st =
     (let (ms, w) = st; w = fold (\<lambda>(_, sub). inbox_close sub) (ms_inbox ms) w in
      case ms_handle ms of
        Some h \<Rightarrow>
          Option.bind (handle_delete (mv_client env) (mv_controller env) h False (mw_state w)) (\<lambda>((finished, _), wd).
            if finished then Some (w\<lparr>mw_state := wd\<rparr>) else None)
      | None \<Rightarrow> Some w)"

definition mqtt_ops :: "'w mqtt_env \<Rightarrow> (mqtt_session \<times> 'w mqtt_world) session_ops" where
  "mqtt_ops env = \<lparr>so_publish = mqtt_publish env, so_subscribe = mqtt_subscribe env, so_unsubscribe = mqtt_unsubscribe,
     so_disconnect = mqtt_disconnect, so_closed = mqtt_closed env\<rparr>"

section \<open>Connecting\<close>

record connect_packet =
  cc_clean_session :: bool
  cc_username :: "string option"
  cc_password :: "string option"
  cc_client_id :: string
  cc_certs :: "string list option"
  cc_psk_identity :: "string option"
  cc_last_will :: "last_will option"

definition mqtt_authenticate ::
  "endpoint_app \<Rightarrow> string option \<Rightarrow> string option \<Rightarrow> string \<Rightarrow> string list option \<Rightarrow> verified_identity option
    \<Rightarrow> endpoint_error + authn_outcome" where
  "mqtt_authenticate app username password client_id certs identity =
     rbind (case password of
              None \<Rightarrow> Inr None
            | Some p \<Rightarrow> (case en_utf8 (ea_auth app) p of Some t \<Rightarrow> Inr (Some t) | None \<Rightarrow> Inl AuthenticationError)) (\<lambda>password.
       case authenticate_mqtt (ea_auth app) username password client_id certs identity of
         Inl e \<Rightarrow> Inl (AuthenticationServiceError (ea_client_text app e))
       | Inr outcome \<Rightarrow> Inr outcome)"

definition make_lwt :: "mqtt_version \<Rightarrow> connect_packet \<Rightarrow> last_will option" where
  "make_lwt v p = map_option (\<lambda>lwt. case v of V3 \<Rightarrow> lwt\<lparr>lw_content_type := None\<rparr> | V5 \<Rightarrow> lwt) (cc_last_will p)"

definition lookup_identity :: "endpoint_env \<Rightarrow> string \<times> string \<Rightarrow> verified_identity option" where
  "lookup_identity env identity =
     (case en_request_psk env (fst identity) (snd identity) of
        Inr (PskFound app device _) \<Rightarrow> Some \<lparr>vi_application = app, vi_device = device\<rparr>
      | _ \<Rightarrow> None)"

definition create_session ::
  "'w mqtt_env \<Rightarrow> api_application \<Rightarrow> api_device \<Rightarrow> last_will option \<Rightarrow> 'w mqtt_world
    \<Rightarrow> ((server_error + mqtt_session) \<times> 'w mqtt_world) option" where
  "create_session env application device lwt w =
     (case (case mv_device_mqtt env device of Some r \<Rightarrow> Some r | None \<Rightarrow> mv_app_mqtt env application) of
        Some (Inl err) \<Rightarrow>
          Some (Inl (ServerConfiguration (''Unable to parse MQTT spec section. Rejecting connection. Reason: '' @ err)), w)
      | r \<Rightarrow>
          let dialect = (case r of Some (Inr d) \<Rightarrow> d | _ \<Rightarrow> mv_default_dialect env) in
          Option.bind (controller_create (mv_client env) (mv_controller env) application device (mv_state_attempts env) lwt
              (mv_token env (mw_step w)) (mw_state w)) (\<lambda>(outcome, wd).
            let w = w\<lparr>mw_state := wd, mw_step := Suc (mw_step w)\<rparr> in
            case outcome of
              StateCreated hdl watcher \<Rightarrow> Some (Inr (session_new env application dialect device hdl watcher w), w)
            | StateOccupied \<Rightarrow> Some (Inl (ServerStateError ''State still occupied''), w)
            | StateFailed \<Rightarrow> Some (Inl (ServerInternalError ''Failed to contact state service''), w)
            | CreationAborted \<Rightarrow> None))"

definition mqtt_connect ::
  "'w mqtt_env \<Rightarrow> mqtt_version \<Rightarrow> connect_packet \<Rightarrow> 'w mqtt_world \<Rightarrow> ((server_error + mqtt_session) \<times> 'w mqtt_world) option" where
  "mqtt_connect env v p w =
     (let auth = ea_auth (mv_app env) in
      if \<not> cc_clean_session p then Some (Inl ServerUnsupportedOperation, w)
      else let identity =
             (if mv_disable_psk env then None
              else case Option.bind (Option.bind (cc_psk_identity p) (en_utf8 auth)) identity_parse of
                     Some identity \<Rightarrow> lookup_identity auth identity
                   | None \<Rightarrow> None)
           in (case mqtt_authenticate (mv_app env) (cc_username p) (cc_password p) (cc_client_id p) (cc_certs p) identity of
                 Inr (Pass application device _) \<Rightarrow> create_session env application device (make_lwt v p) w
               | Inr Fail \<Rightarrow> Some (Inl AuthenticationFailed, w)
               | Inl _ \<Rightarrow> Some (Inl AuthenticationFailed, w)))"

definition mqtt_connect_answer ::
  "'w mqtt_env \<Rightarrow> mqtt_version \<Rightarrow> connect_packet \<Rightarrow> 'w mqtt_world
    \<Rightarrow> ((connect_code \<times> mqtt_session option) \<times> 'w mqtt_world) option" where
  "mqtt_connect_answer env v p w = map_option (\<lambda>(r, w). (connect_answer r, w)) (mqtt_connect env v p w)"

section \<open>Live subscriptions\<close>

text \<open>A subscription of the session is registered with the dispatcher under its handle.\<close>

definition sub_target :: "topic_env \<Rightarrow> inbox_subscription \<Rightarrow> command_target" where
  "sub_target te sub = \<lparr>ct_tx = ib_receiver sub, ct_filter = filter_from te (cf_command_filter (ib_filter sub))\<rparr>"

definition sub_live :: "topic_env \<Rightarrow> hub \<Rightarrow> inbox_subscription \<Rightarrow> bool" where
  "sub_live te hub sub \<longleftrightarrow> sh_filter (ib_handle sub) = cleanup_filter (ib_filter sub) \<and> ib_receiver sub \<notin> set (hb_closed hub)
     \<and> (fst (handle_key (ib_handle sub)), sh_id (ib_handle sub), sub_target te sub) \<in> subs (hb_commands hub)"

abbreviation sub_key_of :: "inbox_subscription \<Rightarrow> sub_key \<times> u64" where
  "sub_key_of sub \<equiv> handle_key (ib_handle sub)"

lemma handle_key_snd [simp]: "snd (handle_key h) = sh_id h"
  by (simp add: handle_key_def)

lemma handle_key_pair [simp]: "(fst (handle_key h), sh_id h) = handle_key h"
  by (simp add: handle_key_def)

lemma sub_live_key: "sub_live te hub sub \<Longrightarrow> (fst (sub_key_of sub), snd (sub_key_of sub), sub_target te sub) \<in> subs (hb_commands hub)"
  by (simp add: sub_live_def)

lemma inbox_newD:
  assumes "inbox_new env filt encoder w = Some (sub, w')" and "hub_inv (mw_hub w)"
  shows "hub_inv (mw_hub w')"
    "hb_next (mw_hub w) \<notin> set (hb_closed (mw_hub w)) \<Longrightarrow> sub_live (ea_topics (mv_app env)) (mw_hub w') sub" "ib_filter sub = filt" "ib_encoder sub = encoder"
    "sub_live (ea_topics (mv_app env)) (mw_hub w) s2 \<Longrightarrow>
       sub_live (ea_topics (mv_app env)) (mw_hub w') s2 \<and> sub_key_of s2 \<noteq> sub_key_of sub"
    "hb_queue (mw_hub w') = hb_queue (mw_hub w)" "hb_closed (mw_hub w') = hb_closed (mw_hub w)" "hb_next (mw_hub w') = Suc (hb_next (mw_hub w))"
    "mw_sender w' = mw_sender w" "mw_state w' = mw_state w" "mw_step w' = mw_step w"
proof -
  let ?te = "ea_topics (mv_app env)"
  obtain rx h hub where s: "Commands.subscribe ?te filt (mv_random env (hb_next (mw_hub w))) (mw_hub w) = Some ((rx, h), hub)"
    and sub: "sub = \<lparr>ib_filter = filt, ib_handle = h, ib_receiver = rx, ib_encoder = encoder\<rparr>" and w': "w' = w\<lparr>mw_hub := hub\<rparr>"
    using assms(1) by (auto simp: inbox_new_def)
  note ss = subscribe_subs[OF s]
  have key: "sub_key_of sub = (filter_key (cleanup_filter filt), sh_id h)" by (simp add: sub handle_key_def ss(5))
  show "hub_inv (mw_hub w')" using subscribe_inv[OF assms(2) s] by (simp add: w')
  show "sub_live ?te (mw_hub w') sub" if "hb_next (mw_hub w) \<notin> set (hb_closed (mw_hub w))"
    using that by (simp add: sub_live_def sub w' ss handle_key_def sub_target_def)
  show "sub_live ?te (mw_hub w') s2 \<and> sub_key_of s2 \<noteq> sub_key_of sub" if "sub_live ?te (mw_hub w) s2"
  proof -
    have "sub_key_of s2 \<noteq> sub_key_of sub"
      using sub_live_key[OF that] ss(6)[of "sub_target ?te s2"] unfolding key by (metis fst_conv snd_conv)
    then show ?thesis using that by (simp add: sub_live_def w' ss)
  qed
  show "ib_filter sub = filt" "ib_encoder sub = encoder" "hb_queue (mw_hub w') = hb_queue (mw_hub w)"
    "hb_closed (mw_hub w') = hb_closed (mw_hub w)" "hb_next (mw_hub w') = Suc (hb_next (mw_hub w))"
    "mw_sender w' = mw_sender w" "mw_state w' = mw_state w" "mw_step w' = mw_step w"
    by (simp_all add: sub w' ss(1-4))
qed

lemma inbox_closeD:
  assumes "hub_inv (mw_hub w)"
  shows "hub_inv (mw_hub (inbox_close sub w))"
    "sub_live te (mw_hub w) s2 \<Longrightarrow> sub_key_of s2 \<noteq> sub_key_of sub \<Longrightarrow> sub_live te (mw_hub (inbox_close sub w)) s2"
  using unsubscribe_inv[OF assms] by (auto simp: inbox_close_def sub_live_def unsubscribe_subs)

lemma inbox_close_rest [simp]:
  "hb_queue (mw_hub (inbox_close sub w)) = hb_queue (mw_hub w)" "hb_closed (mw_hub (inbox_close sub w)) = hb_closed (mw_hub w)"
  "hb_next (mw_hub (inbox_close sub w)) = hb_next (mw_hub w)"
  "mw_sender (inbox_close sub w) = mw_sender w" "mw_state (inbox_close sub w) = mw_state w" "mw_step (inbox_close sub w) = mw_step w"
  by (simp_all add: inbox_close_def)

text \<open>
  All subscriptions of a session are live and have handles of their own; a channel that does
  not exist yet has no dropped receiver.
\<close>

definition inbox_live :: "topic_env \<Rightarrow> mqtt_session \<times> 'w mqtt_world \<Rightarrow> bool" where
  "inbox_live te st \<longleftrightarrow> (let (ms, w) = st in hub_inv (mw_hub w) \<and> (\<forall>c \<in> set (hb_closed (mw_hub w)). c < hb_next (mw_hub w))
     \<and> distinct (map fst (ms_inbox ms)) \<and> distinct (map (sub_key_of \<circ> snd) (ms_inbox ms))
     \<and> (\<forall>(t, sub) \<in> set (ms_inbox ms). sub_live te (mw_hub w) sub))"

lemma inbox_live_next: "inbox_live te (ms, w) \<Longrightarrow> hb_next (mw_hub w) \<notin> set (hb_closed (mw_hub w))"
  by (auto simp: inbox_live_def)

lemma subscribe_inbox_live:
  assumes "inbox_live (ea_topics (mv_app env)) (ms, w)" and "subscribe_inbox env t filt enc (ms, w) = Some (ms', w')"
  shows "inbox_live (ea_topics (mv_app env)) (ms', w')"
proof (cases "map_of (ms_inbox ms) t")
  case None
  then obtain sub where new: "inbox_new env filt enc w = Some (sub, w')" and ms': "ms' = ms\<lparr>ms_inbox := (t, sub) # ms_inbox ms\<rparr>"
    using assms(2) by (auto simp: subscribe_inbox_def)
  have inv: "hub_inv (mw_hub w)" using assms(1) by (simp add: inbox_live_def)
  note n = inbox_newD[OF new inv]
  have "t \<notin> fst ` set (ms_inbox ms)" using None by (simp add: map_of_eq_None_iff)
  moreover have "sub_live (ea_topics (mv_app env)) (mw_hub w') s2 \<and> sub_key_of s2 \<noteq> sub_key_of sub" if "(t2, s2) \<in> set (ms_inbox ms)" for t2 s2
    using n(5)[of s2] assms(1) that by (auto simp: inbox_live_def)
  ultimately show ?thesis
    using assms(1) n(1,7,8) n(2)[OF inbox_live_next[OF assms(1)]] by (fastforce simp: inbox_live_def ms')
next
  case (Some s)
  then show ?thesis using assms by (simp add: subscribe_inbox_def)
qed

lemma subscribe_topics_live:
  "inbox_live (ea_topics (mv_app env)) st \<Longrightarrow> subscribe_topics env ts st = Some (acks, st') \<Longrightarrow> inbox_live (ea_topics (mv_app env)) st'"
proof (induction ts arbitrary: st acks)
  case (Cons t ts)
  show ?case
  proof (cases "parse_subscribe (ms_dialect (fst st)) t")
    case (Inl e)
    then show ?thesis using Cons.prems Cons.IH[OF Cons.prems(1)] by auto
  next
    case (Inr p)
    then obtain st1 acks1 where "subscribe_inbox env t (into_command_filter (ms_id (fst st)) (fst p)) (snd p) st = Some st1"
      "subscribe_topics env ts st1 = Some (acks1, st')"
      using Cons.prems(2) by (cases p) (auto simp: bind_eq_Some_conv)
    then show ?thesis using Cons.IH[of st1] subscribe_inbox_live[of env "fst st" "snd st" t _ _ "fst st1" "snd st1"] Cons.prems(1) by simp
  qed
qed simp

lemma inbox_remove_live:
  assumes "inbox_live te (ms, w)" and "map_of (ms_inbox ms) t = Some sub"
  shows "inbox_live te (ms\<lparr>ms_inbox := AList.delete t (ms_inbox ms)\<rparr>, inbox_close sub w)"
proof -
  have inv: "hub_inv (mw_hub w)" and d: "distinct (map fst (ms_inbox ms))" "distinct (map (sub_key_of \<circ> snd) (ms_inbox ms))"
    using assms(1) by (auto simp: inbox_live_def)
  have mem: "(t, sub) \<in> set (ms_inbox ms)" by (rule map_of_SomeD[OF assms(2)])
  have "sub_key_of s2 \<noteq> sub_key_of sub" if "(t2, s2) \<in> set (ms_inbox ms)" "t2 \<noteq> t" for t2 s2
    using d(2) mem that by (fastforce simp: distinct_map inj_on_def)
  then have live: "\<forall>(t2, s2) \<in> set (AList.delete t (ms_inbox ms)). sub_live te (mw_hub (inbox_close sub w)) s2"
    using assms(1) inbox_closeD(2)[OF inv] by (fastforce simp: inbox_live_def AList.delete_eq)
  have "distinct (map (sub_key_of \<circ> snd) (AList.delete t (ms_inbox ms)))"
    using d(2) by (simp add: AList.delete_eq distinct_map inj_on_def)
  moreover have "distinct (map fst (AList.delete t (ms_inbox ms)))" using d(1) by (rule distinct_delete)
  ultimately show ?thesis
    using assms(1) inbox_closeD(1)[OF inv] live by (simp add: inbox_live_def)
qed

lemma unsubscribe_topics_live: "inbox_live te st \<Longrightarrow> inbox_live te (snd (unsubscribe_topics ts st))"
  by (induction ts st rule: unsubscribe_topics.induct)
    (auto simp: Let_def split: option.splits prod.splits dest: inbox_remove_live)

lemma close_all_rest [simp]:
  "mw_sender (fold (\<lambda>(_, sub). inbox_close sub) inbox w) = mw_sender w"
  "mw_state (fold (\<lambda>(_, sub). inbox_close sub) inbox w) = mw_state w"
  "hb_queue (mw_hub (fold (\<lambda>(_, sub). inbox_close sub) inbox w)) = hb_queue (mw_hub w)"
  "hb_closed (mw_hub (fold (\<lambda>(_, sub). inbox_close sub) inbox w)) = hb_closed (mw_hub w)"
  "hb_next (mw_hub (fold (\<lambda>(_, sub). inbox_close sub) inbox w)) = hb_next (mw_hub w)"
  by (induction inbox arbitrary: w) auto

lemma close_all_inv: "hub_inv (mw_hub w) \<Longrightarrow> hub_inv (mw_hub (fold (\<lambda>(_, sub). inbox_close sub) inbox w))"
  by (induction inbox arbitrary: w) (auto simp: inbox_closeD)

lemma close_all_subs:
  "subs (hb_commands (mw_hub (fold (\<lambda>(_, sub). inbox_close sub) inbox w))) =
     {e \<in> subs (hb_commands (mw_hub w)). (fst e, fst (snd e)) \<notin> (sub_key_of \<circ> snd) ` set inbox}"
  by (induction inbox arbitrary: w) (auto simp: inbox_close_def unsubscribe_subs)

section \<open>What packets change\<close>

lemma eval_device_hub:
  assumes "eval_device env p (ms, w) = (r, ms', w')"
  shows "mw_hub w' = mw_hub w" "mw_sender w' = mw_sender w" "mw_state w' = mw_state w" "ms_inbox ms' = ms_inbox ms"
    "ms' = ms\<lparr>ms_cache := ms_cache ms'\<rparr>"
  using assms by (auto simp: eval_device_def Let_def split: sum.splits option.splits if_splits prod.splits)

lemma mqtt_publish_hub:
  assumes "mqtt_publish env v p (ms, w) = Some (r, ms', w')"
  shows "mw_hub w' = mw_hub w" "mw_state w' = mw_state w" "ms' = ms\<lparr>ms_cache := ms_cache ms'\<rparr>" "ms_inbox ms' = ms_inbox ms"
proof -
  show "mw_hub w' = mw_hub w" "mw_state w' = mw_state w" and e: "ms' = ms\<lparr>ms_cache := ms_cache ms'\<rparr>"
    using assms eval_device_hub[of env p ms w]
    by (auto simp: mqtt_publish_def Let_def split: sum.splits prod.splits publish_outcome.splits)
  show "ms_inbox ms' = ms_inbox ms" by (subst e) simp
qed

lemma subscribe_inbox_rest:
  assumes "subscribe_inbox env t filt enc (ms, w) = Some (ms', w')"
  shows "mw_sender w' = mw_sender w" "mw_state w' = mw_state w" "ms' = ms\<lparr>ms_inbox := ms_inbox ms'\<rparr>"
  using assms by (auto simp: subscribe_inbox_def inbox_new_def split: option.splits)

lemma subscribe_topics_rest:
  "subscribe_topics env ts st = Some (acks, ms', w') \<Longrightarrow>
     mw_sender w' = mw_sender (snd st) \<and> mw_state w' = mw_state (snd st) \<and> ms' = (fst st)\<lparr>ms_inbox := ms_inbox ms'\<rparr>"
proof (induction ts arbitrary: st acks)
  case (Cons t ts)
  show ?case
  proof (cases "parse_subscribe (ms_dialect (fst st)) t")
    case (Inl e)
    then obtain acks1 where "subscribe_topics env ts st = Some (acks1, ms', w')" using Cons.prems by auto
    then show ?thesis by (rule Cons.IH)
  next
    case (Inr p)
    then obtain st1 acks1 where s: "subscribe_inbox env t (into_command_filter (ms_id (fst st)) (fst p)) (snd p) st = Some st1"
      "subscribe_topics env ts st1 = Some (acks1, ms', w')"
      using Cons.prems by (cases p) (auto simp: bind_eq_Some_conv)
    then show ?thesis using Cons.IH[OF s(2)] subscribe_inbox_rest[of env t _ _ "fst st" "snd st" "fst st1" "snd st1"]
      by (metis mqtt_session.surjective mqtt_session.update_convs(4) prod.collapse)
  qed
qed simp

lemma unsubscribe_topics_rest:
  "mw_sender (snd (snd (unsubscribe_topics ts st))) = mw_sender (snd st)
   \<and> mw_state (snd (snd (unsubscribe_topics ts st))) = mw_state (snd st)
   \<and> fst (snd (unsubscribe_topics ts st)) = (fst st)\<lparr>ms_inbox := ms_inbox (fst (snd (unsubscribe_topics ts st)))\<rparr>"
  by (induction ts st rule: unsubscribe_topics.induct) (auto simp: Let_def split: option.splits prod.splits)

lemma mqtt_closed_cases:
  assumes "mqtt_closed env reason (ms, w) = Some (r, ms', w')"
  obtains w1 where "r = Inr ()" "ms_inbox ms' = []" "ms_disconnect ms' = snd (close_conn (ms_disconnect ms))" "ms_handle ms' = None"
    "w' = fold (\<lambda>(_, sub). inbox_close sub) (ms_inbox ms) w1" "mw_hub w1 = mw_hub w" "mw_sender w1 = mw_sender w"
    "case ms_handle ms of
       None \<Rightarrow> mw_state w1 = mw_state w
     | Some h \<Rightarrow> \<exists>h'. handle_delete (mv_client env) (mv_controller env) h (fst (close_conn (ms_disconnect ms))) (mw_state w) =
         Some ((True, h'), mw_state w1)"
proof (cases "ms_handle ms")
  case None
  then show ?thesis using assms that[of w] by (auto simp: mqtt_closed_def Let_def split: prod.splits)
next
  case (Some h)
  then obtain h' wd where "handle_delete (mv_client env) (mv_controller env) h (fst (close_conn (ms_disconnect ms))) (mw_state w) = Some ((True, h'), wd)"
    and "ms' = ms\<lparr>ms_disconnect := snd (close_conn (ms_disconnect ms)), ms_handle := None, ms_inbox := []\<rparr>" "r = Inr ()"
    "w' = fold (\<lambda>(_, sub). inbox_close sub) (ms_inbox ms) (w\<lparr>mw_state := wd\<rparr>)"
    using assms by (auto simp: mqtt_closed_def Let_def bind_eq_Some_conv split: prod.splits if_splits)
  then show ?thesis using that[of "w\<lparr>mw_state := wd\<rparr>"] Some by simp
qed

text \<open>Once the device has disconnected or the connection is closed, nothing is published.\<close>

interpretation gone: session_contract "mqtt_ops env" "\<lambda>st. ms_disconnect (fst st) \<noteq> Connected \<and> mw_sender (snd st) = ss" for env ss
proof (unfold_locales, goal_cases)
  case (1 s v p r1 s')
  then show ?case by (cases s; cases "ms_disconnect (fst s)") (auto simp: mqtt_ops_def mqtt_publish_def ensure_connected_def)
next
  case (2 s v sp r2 s')
  then show ?case
    using subscribe_topics_rest[of env "map fst (sp_topics sp)" s _ "fst s'" "snd s'"]
    by (auto simp: mqtt_ops_def mqtt_subscribe_def split: if_splits) (metis mqtt_session.ext_inject mqtt_session.surjective mqtt_session.update_convs(4))+
next
  case (3 s ts r3 s')
  then show ?case
    using unsubscribe_topics_rest[of ts s]
    by (auto simp: mqtt_ops_def mqtt_unsubscribe_def Let_def split: prod.splits) (metis mqtt_session.ext_inject mqtt_session.surjective mqtt_session.update_convs(4))+
next
  case (4 s d r4 s')
  then show ?case
    by (cases s; cases "ms_disconnect (fst s)") (auto simp: mqtt_ops_def mqtt_disconnect_def disconnected_def disconnect_with_def Let_def)
next
  case (5 s cl r4 s')
  obtain ms w ms' w' where s: "s = (ms, w)" "s' = (ms', w')" by (cases s; cases s')
  have "mqtt_closed env cl (ms, w) = Some (r4, ms', w')" using 5 by (simp add: mqtt_ops_def s)
  then show ?case
    by (rule mqtt_closed_cases) (use 5 in \<open>cases "ms_disconnect ms"; auto simp: s close_conn_def\<close>)
qed

interpretation live: session_contract "mqtt_ops env" "inbox_live (ea_topics (mv_app env))" for env
proof (unfold_locales, goal_cases)
  case (1 s v p r1 s')
  then show ?case
    using mqtt_publish_hub[of env v p "fst s" "snd s" r1 "fst s'" "snd s'"]
    by (cases s; cases s') (auto simp: mqtt_ops_def inbox_live_def)
next
  case (2 s v sp r2 s')
  then show ?case by (auto simp: mqtt_ops_def mqtt_subscribe_def split: if_splits intro: subscribe_topics_live)
next
  case (3 s ts r3 s')
  then show ?case
    using unsubscribe_topics_live[of "ea_topics (mv_app env)" s ts] by (auto simp: mqtt_ops_def mqtt_unsubscribe_def Let_def split: prod.splits)
next
  case (4 s d r4 s')
  then show ?case by (cases s) (auto simp: mqtt_ops_def mqtt_disconnect_def inbox_live_def Let_def split: prod.splits)
next
  case (5 s cl r4 s')
  obtain ms w ms' w' where s: "s = (ms, w)" "s' = (ms', w')" by (cases s; cases s')
  have "mqtt_closed env cl (ms, w) = Some (r4, ms', w')" using 5 by (simp add: mqtt_ops_def s)
  then show ?case
    by (rule mqtt_closed_cases) (use 5 in \<open>auto simp: s inbox_live_def close_all_inv\<close>)
qed

end
