(* ===== verification/Mqtt_Endpoint.thy ===== *)
theory Mqtt_Endpoint
  imports Mqtt_Session
begin

text \<open>
  What the MQTT endpoint promises: runs of a session between other tasks of the endpoint, the
  devices a session speaks for, connecting and the end of a connection, over the definitions
  of \<open>Mqtt_Session\<close>.
\<close>

section \<open>Runs\<close>

text \<open>What happens to a session: its packets, and what other tasks do with the dispatcher.\<close>

datatype mqtt_event = EvPacket mqtt_packet | EvOther command_op

fun run_event :: "'w mqtt_env \<Rightarrow> mqtt_version \<Rightarrow> mqtt_event \<Rightarrow> mqtt_session \<times> 'w mqtt_world \<Rightarrow> (mqtt_session \<times> 'w mqtt_world) option" where
  "run_event env v (EvPacket p) st = handle_packet (mqtt_ops env) v p st"
| "run_event env v (EvOther x) (ms, w) =
     map_option (\<lambda>hub. (ms, w\<lparr>mw_hub := hub\<rparr>)) (apply_command_op (ea_topics (mv_app env)) x (mw_hub w))"

fun run_events :: "'w mqtt_env \<Rightarrow> mqtt_version \<Rightarrow> mqtt_event list \<Rightarrow> mqtt_session \<times> 'w mqtt_world \<Rightarrow> (mqtt_session \<times> 'w mqtt_world) option" where
  "run_events env v [] st = Some st"
| "run_events env v (e # es) st = Option.bind (run_event env v e st) (run_events env v es)"

fun event_commands :: "mqtt_event list \<Rightarrow> command list" where
  "event_commands [] = []"
| "event_commands (EvOther (OpSend cmd) # es) = cmd # event_commands es"
| "event_commands (_ # es) = event_commands es"

text \<open>The events that end a subscription; other tasks do not have its handle and receiver.\<close>

fun ends_subscription :: "string \<Rightarrow> inbox_subscription \<Rightarrow> mqtt_event \<Rightarrow> bool" where
  "ends_subscription topic sub (EvPacket (PacketControl (MsgUnsubscribe ts))) \<longleftrightarrow> topic \<in> set ts"
| "ends_subscription topic sub (EvPacket (PacketControl (MsgClosed _))) \<longleftrightarrow> True"
| "ends_subscription topic sub (EvPacket (PacketControl MsgPeerGone)) \<longleftrightarrow> True"
| "ends_subscription topic sub (EvOther (OpUnsubscribe h)) \<longleftrightarrow> handle_key h = sub_key_of sub"
| "ends_subscription topic sub (EvOther (OpDropReceiver c)) \<longleftrightarrow> c = ib_receiver sub"
| "ends_subscription topic sub _ \<longleftrightarrow> False"

text \<open>A subscription in progress: it is live and its handle is not used for another topic.\<close>

definition in_progress :: "topic_env \<Rightarrow> string \<Rightarrow> inbox_subscription \<Rightarrow> command list \<Rightarrow> mqtt_session \<times> 'w mqtt_world \<Rightarrow> bool" where
  "in_progress te topic sub q st \<longleftrightarrow> (let (ms, w) = st in
     hub_inv (mw_hub w) \<and> sub_live te (mw_hub w) sub \<and> map_of (ms_inbox ms) topic = Some sub
     \<and> hb_queue (mw_hub w) (ib_receiver sub) = q
     \<and> (\<forall>(t, s) \<in> set (ms_inbox ms). t \<noteq> topic \<longrightarrow> sub_key_of s \<noteq> sub_key_of sub))"

lemma in_progress_start:
  assumes "inbox_live te (ms, w)" and "map_of (ms_inbox ms) topic = Some sub"
  shows "in_progress te topic sub (hb_queue (mw_hub w) (ib_receiver sub)) (ms, w)"
proof -
  have mem: "(topic, sub) \<in> set (ms_inbox ms)" by (rule map_of_SomeD[OF assms(2)])
  have "sub_key_of s \<noteq> sub_key_of sub" if "(t, s) \<in> set (ms_inbox ms)" "t \<noteq> topic" for t s
    using assms(1) mem that by (fastforce simp: inbox_live_def distinct_map inj_on_def)
  then show ?thesis using assms mem by (auto simp: in_progress_def inbox_live_def)
qed

lemma in_progress_subscribe_inbox:
  assumes "in_progress (ea_topics (mv_app env)) topic sub q (ms, w)" and "subscribe_inbox env t filt enc (ms, w) = Some (ms', w')"
  shows "in_progress (ea_topics (mv_app env)) topic sub q (ms', w')"
proof (cases "map_of (ms_inbox ms) t")
  case None
  then obtain s2 where new: "inbox_new env filt enc w = Some (s2, w')" and ms': "ms' = ms\<lparr>ms_inbox := (t, s2) # ms_inbox ms\<rparr>"
    using assms(2) by (auto simp: subscribe_inbox_def)
  have inv: "hub_inv (mw_hub w)" and live: "sub_live (ea_topics (mv_app env)) (mw_hub w) sub" using assms(1) by (auto simp: in_progress_def)
  have "t \<noteq> topic" using None assms(1) by (auto simp: in_progress_def)
  then show ?thesis
    using assms(1) inbox_newD(1,6)[OF new inv] inbox_newD(5)[OF new inv live] by (auto simp: in_progress_def ms')
next
  case (Some s)
  then show ?thesis using assms by (simp add: subscribe_inbox_def)
qed

lemma in_progress_subscribe:
  "in_progress (ea_topics (mv_app env)) topic sub q st \<Longrightarrow> subscribe_topics env ts st = Some (acks, st')
    \<Longrightarrow> in_progress (ea_topics (mv_app env)) topic sub q st'"
proof (induction ts arbitrary: st acks)
  case (Cons t ts)
  show ?case
  proof (cases "parse_subscribe (ms_dialect (fst st)) t")
    case (Inl e)
    then show ?thesis using Cons.prems Cons.IH[OF Cons.prems(1)] by auto
  next
    case (Inr p)
    then obtain st1 acks1 where "subscribe_inbox env t (into_command_filter (ms_id (fst st)) (fst p)) (snd p) st = Some st1"
      "subscribe_topics env ts st1 = Some (acks1, st')"
      using Cons.prems(2) by (cases p) (auto simp: bind_eq_Some_conv)
    then show ?thesis
      using Cons.IH[of st1] in_progress_subscribe_inbox[of env topic sub q "fst st" "snd st" t _ _ "fst st1" "snd st1"] Cons.prems(1) by simp
  qed
qed simp

lemma delete_keeps:
  "topic \<noteq> t \<Longrightarrow> map_of (AList.delete t xs) topic = map_of xs topic" "set (AList.delete t xs) \<subseteq> set xs"
  by (simp add: delete_conv') (auto simp: AList.delete_eq)

lemma in_progress_unsubscribe:
  "in_progress te topic sub q st \<Longrightarrow> topic \<notin> set ts \<Longrightarrow> in_progress te topic sub q (snd (unsubscribe_topics ts st))"
proof (induction ts st rule: unsubscribe_topics.induct)
  case (2 t ts ms w)
  show ?case
  proof (cases "map_of (ms_inbox ms) t")
    case None
    then show ?thesis using 2 by (auto simp: Let_def split: prod.splits)
  next
    case (Some s)
    have "sub_key_of sub \<noteq> sub_key_of s"
      using map_of_SomeD[OF Some] 2(3,4) by (auto simp: in_progress_def)
    moreover have "hub_inv (mw_hub w)" using 2(3) by (simp add: in_progress_def)
    ultimately have "in_progress te topic sub q (ms\<lparr>ms_inbox := AList.delete t (ms_inbox ms)\<rparr>, inbox_close s w)"
      using 2(3,4) inbox_closeD(1)[of w s] inbox_closeD(2)[of w te sub s] delete_keeps(1)[of topic t "ms_inbox ms"] delete_keeps(2)[of t "ms_inbox ms"]
      by (auto simp: in_progress_def)
    then show ?thesis using 2(2)[OF Some] 2(4) Some by (auto simp: Let_def split: prod.splits)
  qed
qed simp

lemma in_progress_other:
  assumes "in_progress te topic sub q (ms, w)" and "apply_command_op te x (mw_hub w) = Some hub" and "\<not> ends_subscription topic sub (EvOther x)"
  shows "in_progress te topic sub (q @ filter (wants te (ib_filter sub)) (sent_commands [x])) (ms, w\<lparr>mw_hub := hub\<rparr>)"
proof -
  have live: "(fst (sub_key_of sub), sh_id (ib_handle sub), sub_target te sub) \<in> subs (hb_commands (mw_hub w))"
    and own: "ct_tx (sub_target te sub) \<notin> set (hb_closed (mw_hub w))" and inv: "hub_inv (mw_hub w)"
    using assms(1) by (auto simp: in_progress_def sub_live_def sub_target_def)
  have ends: "\<forall>h. x = OpUnsubscribe h \<longrightarrow> handle_key h \<noteq> (fst (sub_key_of sub), sh_id (ib_handle sub))"
    "x \<noteq> OpDropReceiver (ct_tx (sub_target te sub))"
    using assms(3) by (auto simp: sub_target_def)
  have key: "fst (sub_key_of sub) = filter_key (cleanup_filter (ib_filter sub))"
    using assms(1) by (simp add: in_progress_def sub_live_def handle_key_def)
  from step_live[OF inv live assms(2) ends(1) own ends(2)] apply_command_op_inv[OF inv assms(2)] show ?thesis
    using assms(1) key by (auto simp: in_progress_def sub_live_def sub_target_def wants_key)
qed

lemma in_progress_packet:
  assumes "in_progress (ea_topics (mv_app env)) topic sub q st" and "handle_packet (mqtt_ops env) v p st = Some st'"
    and "\<not> ends_subscription topic sub (EvPacket p)"
  shows "in_progress (ea_topics (mv_app env)) topic sub q st'"
proof (cases p)
  case (PacketPublish pp)
  then obtain r where "mqtt_publish env v pp (fst st, snd st) = Some (r, fst st', snd st')"
    using assms(2) by (cases v) (auto simp: handle_packet_def publish_v3_def publish_v5_def mqtt_ops_def)
  from mqtt_publish_hub[OF this] assms(1) show ?thesis by (cases st; cases st') (auto simp: in_progress_def)
next
  case (PacketControl m)
  have keep: "in_progress (ea_topics (mv_app env)) topic sub q st'" if "st' = st" using that assms(1) by simp
  show ?thesis
  proof (cases m)
    case (MsgSubscribe sp)
    then show ?thesis
      using assms(1,2) PacketControl
      by (cases v) (auto simp: handle_packet_def acked_def mqtt_ops_def mqtt_subscribe_def split: if_splits intro: in_progress_subscribe)
  next
    case (MsgUnsubscribe ts)
    then show ?thesis
      using assms PacketControl in_progress_unsubscribe[of "ea_topics (mv_app env)" topic sub q st ts]
      by (cases v) (auto simp: handle_packet_def acked_def mqtt_ops_def mqtt_unsubscribe_def Let_def split: prod.splits)
  next
    case (MsgDisconnect d)
    then show ?thesis
      using assms(1,2) PacketControl
      by (cases v; cases st) (fastforce simp: handle_packet_def acked_def mqtt_ops_def mqtt_disconnect_def in_progress_def Let_def split: prod.splits)+
  qed (use assms PacketControl keep in \<open>cases v; auto simp: handle_packet_def\<close>)+
qed

lemma event_commands_Cons: "event_commands (e # es) = (case e of EvOther x \<Rightarrow> sent_commands [x] | EvPacket _ \<Rightarrow> []) @ event_commands es"
  by (cases e; cases "case e of EvOther x \<Rightarrow> x | _ \<Rightarrow> OpDropReceiver 0") auto

lemma in_progress_run:
  assumes "in_progress (ea_topics (mv_app env)) topic sub q st" and "run_events env v es st = Some st'"
    and "\<forall>e \<in> set es. \<not> ends_subscription topic sub e"
  shows "in_progress (ea_topics (mv_app env)) topic sub (q @ filter (wants (ea_topics (mv_app env)) (ib_filter sub)) (event_commands es)) st'"
  using assms
proof (induction es arbitrary: st q)
  case (Cons e es)
  then obtain st1 where st1: "run_event env v e st = Some st1" "run_events env v es st1 = Some st'"
    by (auto simp: bind_eq_Some_conv)
  have "in_progress (ea_topics (mv_app env)) topic sub
      (q @ filter (wants (ea_topics (mv_app env)) (ib_filter sub)) (case e of EvOther x \<Rightarrow> sent_commands [x] | EvPacket _ \<Rightarrow> [])) st1"
  proof (cases e)
    case (EvPacket p)
    then show ?thesis using in_progress_packet[OF Cons.prems(1)] st1(1) Cons.prems(3) by simp
  next
    case (EvOther x)
    then show ?thesis
      using in_progress_other[of "ea_topics (mv_app env)" topic sub q "fst st" "snd st" x] st1(1) Cons.prems(1,3) by (cases st) auto
  qed
  from Cons.IH[OF this st1(2)] Cons.prems(3) show ?case unfolding event_commands_Cons by simp
qed simp

section \<open>Who a session speaks for\<close>

lemma authorize_gateway_pass:
  assumes "reg_inv db" and "authorize_gateway au app_alias gateway as_id db = Inr (GatewayPass g)"
  shows "\<exists>app t. app_by_alias app_alias db = Some app \<and> may_act_as au db (app_name app) gateway as_id t
     \<and> g = strip_credentials au (device_to_api (au_env au) t)"
proof -
  obtain app dev where a: "app_by_alias app_alias db = Some app"
      and d: "dev_get (env_collate (au_env au)) (app_name app) gateway LockNone db = Some dev"
      and v: "rbind (validate_gateway au as_id db (app_to_api (au_env au) app) (device_to_api (au_env au) dev)) (\<lambda>out.
        Inr (case out of Pass _ _ (Some as_dev) \<Rightarrow> GatewayPass as_dev | _ \<Rightarrow> GatewayFail)) = Inr (GatewayPass g)"
    using assms(2)
    by (auto simp: authorize_gateway_def app_lookup_eq[OF assms(1)] Let_def app_to_api_def split: option.splits if_splits)
  have "dev_name dev = gateway" using d assms(1) by (auto simp: dev_get_eq reg_inv_defs lookup_row_def dev_from_row_def find_Some_iff)
  then show ?thesis
    using v a by (auto simp: validate_gateway_eq[OF assms(1)] pass_def app_to_api_def device_to_api_def split: option.splits if_splits)
qed

text \<open>
  The registry over time: at time \<open>t\<close> it is \<open>hist t\<close>.  A cached answer was given by the registry
  of its time.
\<close>

definition could_act_as :: "authn_env \<Rightarrow> (timestamp \<Rightarrow> registry) \<Rightarrow> mqtt_session \<Rightarrow> timestamp \<Rightarrow> string \<Rightarrow> api_device \<Rightarrow> bool" where
  "could_act_as au hist ms t dev d \<longleftrightarrow> (\<exists>app x. app_by_alias (pa_name (ms_application ms)) (hist t) = Some app
     \<and> may_act_as au (hist t) (app_name app) (pd_name (ms_device ms)) dev x \<and> d = strip_credentials au (device_to_api (au_env au) x))"

definition vetted :: "authn_env \<Rightarrow> (timestamp \<Rightarrow> registry) \<Rightarrow> mqtt_session \<Rightarrow> bool" where
  "vetted au hist ms \<longleftrightarrow> (\<exists>asked :: (auth_client_error, api_device) asked list. cache_inv asked (ms_cache ms)
     \<and> (\<forall>(t, dev, answer) \<in> set asked. \<forall>d. answer = Inr (Some d) \<longrightarrow> could_act_as au hist ms t dev d))"

lemma vetted_new: "vetted au hist (session_new env application dialect device hdl watcher w)"
  by (auto simp: vetted_def session_new_def cache_inv_new intro!: exI[of _ "[]"])

lemma authorize_answer_vetted:
  assumes "reg_inv (hist t)" and "talks_to env au t (hist t)" and "authorize_answer env ms dev = Inr (Some d)"
  shows "could_act_as au hist ms t dev d"
proof -
  have "authorize_gateway au (pa_name (ms_application ms)) (pd_name (ms_device ms)) dev (hist t) = Inr (GatewayPass d)"
    using assms(2,3) unfolding authorize_answer_def talks_to_def
    by (cases "en_authorize_as env (pa_name (ms_application ms)) (pd_name (ms_device ms)) dev") (auto split: gateway_outcome.splits)
  from authorize_gateway_pass[OF assms(1) this] show ?thesis by (auto simp: could_act_as_def)
qed

text \<open>The device of a packet: the one of the session, or one that the session could act for.\<close>

definition speaks_for :: "authn_env \<Rightarrow> (timestamp \<Rightarrow> registry) \<Rightarrow> timestamp \<Rightarrow> timestamp \<Rightarrow> mqtt_session \<Rightarrow> api_device \<Rightarrow> bool" where
  "speaks_for au hist now later ms d \<longleftrightarrow> d = ms_device ms
     \<or> (\<exists>t dev. (t = later \<or> now < t + dc_ttl (ms_cache ms)) \<and> could_act_as au hist ms t dev d)"

lemma eval_device_cases:
  assumes "eval_device env p (ms, w) = (r, ms', w')"
  obtains (own) "ms' = ms" "\<forall>channel d. r = Inr (channel, d) \<longrightarrow> d = ms_device ms"
  | (fetched) channel dev q cache where
      "cache_fetch (mv_clock env (mw_step w)) (mv_clock env (Suc (mw_step w))) dev (authorize_answer (ea_auth (mv_app env)) ms dev) (ms_cache ms) = (q, cache)"
      "r = rbind q (\<lambda>d. Inr (channel, d))" "ms' = ms\<lparr>ms_cache := cache\<rparr>"
proof (cases "parse_publish (ms_dialect ms) (pp_topic p)")
  case (Inl e)
  then show thesis using assms by (intro own) (auto simp: eval_device_def)
next
  case (Inr topic)
  show thesis
  proof (cases "pt_device topic = None \<or> pt_device topic = Some (snd (ms_id ms))")
    case True
    then have "ms' = ms" "r = Inr (pt_channel topic, ms_device ms)" using assms Inr by (auto simp: eval_device_def)
    then show thesis by (intro own) auto
  next
    case False
    then obtain dev where dev: "pt_device topic = Some dev" "dev \<noteq> snd (ms_id ms)" by auto
    obtain q cache where f: "cache_fetch (mv_clock env (mw_step w)) (mv_clock env (Suc (mw_step w))) dev
        (authorize_answer (ea_auth (mv_app env)) ms dev) (ms_cache ms) = (q, cache)" by fastforce
    show thesis using assms by (intro fetched[OF f, of "pt_channel topic"]) (simp_all add: eval_device_def Inr dev f)
  qed
qed

lemma eval_device_vetted:
  assumes "vetted au hist ms" and "reg_inv (hist later)" and "talks_to (ea_auth (mv_app env)) au later (hist later)"
    and "later = mv_clock env (Suc (mw_step w))" and "eval_device env p (ms, w) = (r, ms', w')"
  shows "vetted au hist ms' \<and> (\<forall>channel d. r = Inr (channel, d) \<longrightarrow> speaks_for au hist (mv_clock env (mw_step w)) later ms d)"
  using assms(5)
proof (cases rule: eval_device_cases)
  case own
  then show ?thesis using assms(1) by (auto simp: speaks_for_def)
next
  case (fetched topic dev q cache)
  note f = fetched(1)[folded assms(4)] and r = fetched(2) and ms' = fetched(3)
  let ?answer = "authorize_answer (ea_auth (mv_app env)) ms dev"
  obtain asked :: "(auth_client_error, api_device) asked list" where asked: "cache_inv asked (ms_cache ms)"
      and ok: "\<forall>(t, dev, answer) \<in> set asked. \<forall>d. answer = Inr (Some d) \<longrightarrow> could_act_as au hist ms t dev d"
    using assms(1) unfolding vetted_def by blast
  have new: "could_act_as au hist ms later dev d" if "?answer = Inr (Some d)" for d
    using authorize_answer_vetted[where hist = hist, OF assms(2,3) that] .
  note inv = cache_fetch_inv[OF asked f]
  have act: "could_act_as au hist ms' = could_act_as au hist ms" by (simp add: ms' could_act_as_def fun_eq_iff)
  have "\<forall>(t, dev, answer) \<in> set ((later, dev, ?answer) # asked). \<forall>d. answer = Inr (Some d) \<longrightarrow> could_act_as au hist ms' t dev d"
    unfolding act using ok new by simp
  then have "vetted au hist ms'" unfolding vetted_def using inv by (intro exI[of _ "(later, dev, ?answer) # asked"]) (simp add: ms')
  moreover have "speaks_for au hist (mv_clock env (mw_step w)) later ms d" if "r = Inr (channel, d)" for channel d
  proof -
    have "q = device_result (Some d)" using that r by (auto simp: result_simps device_result_def)
    then consider "?answer = Inr (Some d)" | t where "(t, dev, Inr (Some d)) \<in> set asked" "mv_clock env (mw_step w) < t + dc_ttl (ms_cache ms)"
      using inv by blast
    then show ?thesis
    proof cases
      case 1
      then show ?thesis using new by (auto simp: speaks_for_def)
    next
      case (2 t)
      then have "could_act_as au hist ms t dev d" using ok by auto
      then show ?thesis using 2(2) by (auto simp: speaks_for_def)
    qed
  qed
  ultimately show ?thesis by blast
qed

lemma mqtt_message_ids [simp]:
  "pb_application (mqtt_message ms channel d ct) = ms_application ms" "pi_name (pb_sender (mqtt_message ms channel d ct)) = pd_name (ms_device ms)"
  "pi_name (pb_device (mqtt_message ms channel d ct)) = pd_name d"
  by (simp_all add: mqtt_message_def device_publish_id_def)

lemma mqtt_publish_cases:
  assumes "mqtt_publish env v p (ms, w) = Some (r, ms', w')"
  obtains (refused) "ms' = ms" "w' = w" "r = Inl PublishProtocolError" "ms_disconnect ms \<noteq> Connected"
  | (failed) e where "eval_device env p (ms, w) = (Inl e, ms', w')" "r = Inl e"
  | (published) channel d out w1 where "eval_device env p (ms, w) = (Inr (channel, d), ms', w1)"
      "publisher_publish (ea_sender (mv_app env)) (ea_sink (mv_app env)) Downstream (mv_new_id env (mw_step w1)) (mv_clock env (mw_step w1))
         (mqtt_message ms' channel d (packet_content_type v p)) (pp_payload p) (mw_sender w1) = (out, mw_sender w')"
      "r = Inr () \<longleftrightarrow> out = Inr Accepted" "ms_disconnect ms = Connected"
proof (cases "ms_disconnect ms = Connected")
  case False
  then show thesis using assms refused by (cases "ms_disconnect ms") (auto simp: mqtt_publish_def ensure_connected_def)
next
  case True
  obtain q ms1 w1 where e: "eval_device env p (ms, w) = (q, ms1, w1)" by (cases "eval_device env p (ms, w)")
  show thesis
  proof (cases q)
    case (Inl x)
    then show thesis using assms e True failed[of x] by (simp add: mqtt_publish_def ensure_connected_def)
  next
    case (Inr cd)
    obtain channel d where cd: "cd = (channel, d)" by (cases cd)
    obtain out ss where pub: "publisher_publish (ea_sender (mv_app env)) (ea_sink (mv_app env)) Downstream (mv_new_id env (mw_step w1)) (mv_clock env (mw_step w1))
         (mqtt_message ms1 channel d (packet_content_type v p)) (pp_payload p) (mw_sender w1) = (out, ss)" by fastforce
    have "ms' = ms1" "mw_sender w' = ss" "r = Inr () \<longleftrightarrow> out = Inr Accepted"
      using assms e True Inr cd pub
      by (auto simp: mqtt_publish_def ensure_connected_def Let_def split: sum.splits publish_outcome.splits)
    then show thesis using published[of channel d w1 out] e Inr cd pub True by simp
  qed
qed

section \<open>Connecting\<close>

text \<open>The device that the identity of the TLS handshake names, and that has a key in the registry.\<close>

definition has_key :: "authn_env \<Rightarrow> timestamp \<Rightarrow> registry \<Rightarrow> (string \<Rightarrow> string \<Rightarrow> bool) \<Rightarrow> api_application \<Rightarrow> api_device \<Rightarrow> bool" where
  "has_key au now db claim a d \<longleftrightarrow> (\<exists>app_alias alias dev key. claim app_alias alias \<and> registered au db app_alias a alias dev d
     \<and> locate_psk au now (device_to_api (au_env au) dev) = Some key)"

lemma lookup_identity_key:
  assumes "reg_inv db" and "talks_to env au now db" and "lookup_identity env identity = Some vi"
    and "claim (fst identity) (snd identity)"
  shows "has_key au now db claim (vi_application vi) (vi_device vi)"
proof -
  obtain a d key where "en_request_psk env (fst identity) (snd identity) = Inr (PskFound a d key)"
      and vi: "vi = \<lparr>vi_application = a, vi_device = d\<rparr>"
    using assms(3) by (auto simp: lookup_identity_def split: sum.splits psk_outcome.splits)
  then have "request_key au now (fst identity) (snd identity) db = Inr (PskFound a d key)" using assms(2) by (simp add: talks_to_def)
  from request_key_found[OF assms(1) this] assms(4) show ?thesis by (auto simp: has_key_def vi)
qed

text \<open>What a connect packet claims: by its user name, password and client id, or its client certificate.\<close>

abbreviation packet_claim :: "endpoint_env \<Rightarrow> connect_packet \<Rightarrow> string \<Rightarrow> string \<Rightarrow> request_credential \<Rightarrow> bool" where
  "packet_claim en p \<equiv> mqtt_claim en (cc_username p) (Option.bind (cc_password p) (en_utf8 en)) (cc_client_id p) (cc_certs p)"

lemma mqtt_authenticate_pass:
  assumes "reg_inv db" and "talks_to (ea_auth app) au now db"
    and "mqtt_authenticate app (cc_username p) (cc_password p) (cc_client_id p) (cc_certs p) identity = Inr (Pass a d as_dev)"
  shows "as_dev = None \<and> (case identity of
      None \<Rightarrow> proven au now db (packet_claim (ea_auth app) p) None a d None
    | Some vi \<Rightarrow> a = vi_application vi \<and> d = vi_device vi \<and> cc_username p = None \<and> cc_password p = None \<and> cc_certs p = None)"
proof -
  let ?pw = "Option.bind (cc_password p) (en_utf8 (ea_auth app))"
  have auth: "authenticate_mqtt (ea_auth app) (cc_username p) ?pw (cc_client_id p) (cc_certs p) identity = Inr (Pass a d as_dev)"
    and pw: "cc_password p \<noteq> None \<longrightarrow> ?pw \<noteq> None"
    using assms(3) by (auto simp: mqtt_authenticate_def split: option.splits sum.splits)
  have none: "as_dev = None" if "proven au now db claim None a d as_dev" for claim
    using that by (auto simp: proven_def split: option.splits)
  from auth show ?thesis
  proof (cases rule: mqtt_pass_cases)
    case (password ap dev c)
    then have "proven au now db (packet_claim (ea_auth app) p) None a d as_dev"
      using auth_call_proven[OF assms(1,2) password(1), of "packet_claim (ea_auth app) p"] by blast
    then show ?thesis using none password(3) by auto
  next
    case (cert cs)
    then have "proven au now db (packet_claim (ea_auth app) p) None a d as_dev"
      by (intro authenticate_cert_proven[OF assms(1,2) cert(1)]) simp
    then show ?thesis using none cert by auto
  next
    case (psk vi)
    then show ?thesis using pw by auto
  qed
qed

lemma mqtt_connect_cases:
  assumes "mqtt_connect env v p w = Some (r, w')"
  obtains (refused) e where "r = Inl e" "w' = w"
  | (passed) a d as_dev identity where "cc_clean_session p"
      "mqtt_authenticate (mv_app env) (cc_username p) (cc_password p) (cc_client_id p) (cc_certs p) identity = Inr (Pass a d as_dev)"
      "create_session env a d (make_lwt v p) w = Some (r, w')"
      "\<And>vi. identity = Some vi \<Longrightarrow> \<not> mv_disable_psk env \<and> (\<exists>x. lookup_identity (ea_auth (mv_app env)) x = Some vi
         \<and> psk_claim (ea_auth (mv_app env)) (cc_psk_identity p) (fst x) (snd x))"
proof -
  let ?identity = "if mv_disable_psk env then None
              else case Option.bind (Option.bind (cc_psk_identity p) (en_utf8 (ea_auth (mv_app env)))) identity_parse of
                     Some identity \<Rightarrow> lookup_identity (ea_auth (mv_app env)) identity
                   | None \<Rightarrow> None"
  have lk: "\<not> mv_disable_psk env \<and> (\<exists>x. lookup_identity (ea_auth (mv_app env)) x = Some vi
      \<and> psk_claim (ea_auth (mv_app env)) (cc_psk_identity p) (fst x) (snd x))" if "?identity = Some vi" for vi
  proof -
    obtain x where x: "Option.bind (Option.bind (cc_psk_identity p) (en_utf8 (ea_auth (mv_app env)))) identity_parse = Some x"
        "lookup_identity (ea_auth (mv_app env)) x = Some vi" "\<not> mv_disable_psk env"
      using \<open>?identity = Some vi\<close> by (simp split: if_splits option.splits)
    have "psk_claim (ea_auth (mv_app env)) (cc_psk_identity p) (fst x) (snd x)"
      using x(1) unfolding identity_parse_claim[symmetric] prod.collapse .
    then show ?thesis using x(2,3) by blast
  qed
  let ?auth = "mqtt_authenticate (mv_app env) (cc_username p) (cc_password p) (cc_client_id p) (cc_certs p) ?identity"
  show thesis
  proof (cases "cc_clean_session p \<and> (\<exists>a d as_dev. ?auth = Inr (Pass a d as_dev))")
    case True
    then obtain a d as_dev where auth: "?auth = Inr (Pass a d as_dev)" and c: "cc_clean_session p" by blast
    have "create_session env a d (make_lwt v p) w = Some (r, w')"
      using assms unfolding mqtt_connect_def Let_def auth using c by simp
    then show thesis using passed[OF c auth _ lk] by blast
  next
    case False
    then have "w' = w \<and> (\<exists>e. r = Inl e)"
      using assms by (auto simp: mqtt_connect_def Let_def split: if_splits sum.splits authn_outcome.splits)
    then show thesis using refused by blast
  qed
qed

lemma create_session_cases:
  assumes "create_session env a d lwt w = Some (r, w')"
  obtains (config) msg where "r = Inl (ServerConfiguration msg)" "w' = w"
  | (asked) out where "controller_create (mv_client env) (mv_controller env) a d (mv_state_attempts env) lwt (mv_token env (mw_step w)) (mw_state w) =
        Some (out, mw_state w')" "mw_sender w' = mw_sender w" "mw_hub w' = mw_hub w"
      "case out of StateCreated h rx \<Rightarrow> \<exists>dialect w1. r = Inr (session_new env a dialect d h rx w1)
         | StateOccupied \<Rightarrow> r = Inl (ServerStateError ''State still occupied'')
         | StateFailed \<Rightarrow> r = Inl (ServerInternalError ''Failed to contact state service'') | CreationAborted \<Rightarrow> False"
proof (cases "\<exists>err. (case mv_device_mqtt env d of Some r \<Rightarrow> Some r | None \<Rightarrow> mv_app_mqtt env a) = Some (Inl err)")
  case True
  then show thesis using assms config by (auto simp: create_session_def)
next
  case False
  then obtain dialect where c: "create_session env a d lwt w =
      Option.bind (controller_create (mv_client env) (mv_controller env) a d (mv_state_attempts env) lwt (mv_token env (mw_step w)) (mw_state w))
        (\<lambda>(outcome, wd). let w = w\<lparr>mw_state := wd, mw_step := Suc (mw_step w)\<rparr> in
            case outcome of
              StateCreated hdl watcher \<Rightarrow> Some (Inr (session_new env a dialect d hdl watcher w), w)
            | StateOccupied \<Rightarrow> Some (Inl (ServerStateError ''State still occupied''), w)
            | StateFailed \<Rightarrow> Some (Inl (ServerInternalError ''Failed to contact state service''), w)
            | CreationAborted \<Rightarrow> None)"
    by (cases "case mv_device_mqtt env d of Some r \<Rightarrow> Some r | None \<Rightarrow> mv_app_mqtt env a"; cases "the (case mv_device_mqtt env d of Some r \<Rightarrow> Some r | None \<Rightarrow> mv_app_mqtt env a)")
      (simp_all add: create_session_def)
  obtain out wd where o: "controller_create (mv_client env) (mv_controller env) a d (mv_state_attempts env) lwt (mv_token env (mw_step w)) (mw_state w) =
      Some (out, wd)"
    using assms unfolding c by (cases "controller_create (mv_client env) (mv_controller env) a d (mv_state_attempts env) lwt (mv_token env (mw_step w)) (mw_state w)") auto
  show thesis
    using assms asked[of out] unfolding c o by (cases out; auto simp: Let_def; blast)
qed

text \<open>
  What a client has proven with its connect packet: the application and device are those that
  the packet names and for which it has a valid credential; without any credential, they are
  those that the identity of the handshake names.
\<close>

definition mqtt_proven :: "'w mqtt_env \<Rightarrow> authn_env \<Rightarrow> timestamp \<Rightarrow> registry \<Rightarrow> connect_packet \<Rightarrow> api_application \<Rightarrow> api_device \<Rightarrow> bool" where
  "mqtt_proven env au now db p a d \<longleftrightarrow>
     (if cc_username p = None \<and> cc_password p = None \<and> cc_certs p = None
      then \<not> mv_disable_psk env \<and> has_key au now db (psk_claim (ea_auth (mv_app env)) (cc_psk_identity p)) a d
      else proven au now db (packet_claim (ea_auth (mv_app env)) p) None a d None)"

lemma passed_proven:
  assumes "reg_inv db" and "talks_to (ea_auth (mv_app env)) au now db"
    and "mqtt_authenticate (mv_app env) (cc_username p) (cc_password p) (cc_client_id p) (cc_certs p) identity = Inr (Pass a d as_dev)"
    and "\<And>vi. identity = Some vi \<Longrightarrow> \<not> mv_disable_psk env \<and> (\<exists>x. lookup_identity (ea_auth (mv_app env)) x = Some vi
           \<and> psk_claim (ea_auth (mv_app env)) (cc_psk_identity p) (fst x) (snd x))"
  shows "mqtt_proven env au now db p a d"
proof (cases identity)
  case None
  then have proven: "proven au now db (packet_claim (ea_auth (mv_app env)) p) None a d None"
    using mqtt_authenticate_pass[OF assms(1-3)] by simp
  have "\<not> mqtt_claim en None pw cid None app dev c" for en pw cid app dev c by (cases c) auto
  then have "\<not> (cc_username p = None \<and> cc_password p = None \<and> cc_certs p = None)"
    using proven by (auto simp: proven_def)
  then show ?thesis using proven by (auto simp: mqtt_proven_def)
next
  case (Some vi)
  then show ?thesis
    using mqtt_authenticate_pass[OF assms(1-3)] assms(4)[OF Some]
      lookup_identity_key[OF assms(1,2), of _ vi "psk_claim (ea_auth (mv_app env)) (cc_psk_identity p)"]
    by (auto simp: mqtt_proven_def)
qed

lemma goodbye_gone:
  assumes "p \<in> {PacketControl (MsgDisconnect d), PacketControl MsgPeerGone, PacketControl (MsgClosed e)}"
    and "handle_packet (mqtt_ops env) v p st = Some st1"
  shows "ms_disconnect (fst st1) \<noteq> Connected \<and> mw_sender (snd st1) = mw_sender (snd st)"
proof -
  obtain ms w ms1 w1 where st: "st = (ms, w)" "st1 = (ms1, w1)" by (cases st; cases st1)
  have closed: ?thesis if "mqtt_closed env reason (ms, w) = Some (r, ms1, w1)" for reason r
    using that by (rule mqtt_closed_cases) (cases "ms_disconnect ms"; auto simp: st close_conn_def)
  have disc: ?thesis if "mqtt_disconnect reason (ms, w) = Some (r, ms1, w1)" for reason r
    using that by (cases "ms_disconnect ms") (auto simp: st mqtt_disconnect_def disconnected_def disconnect_with_def)
  from assms(1) show ?thesis
  proof (elim insertE emptyE)
    assume "p = PacketControl (MsgDisconnect d)"
    then obtain reason r where "mqtt_disconnect reason (ms, w) = Some (r, ms1, w1)"
      using assms(2) by (cases v) (auto simp: handle_packet_def acked_def mqtt_ops_def st)
    then show ?thesis by (rule disc)
  next
    assume "p = PacketControl MsgPeerGone"
    then obtain reason r where "mqtt_closed env reason (ms, w) = Some (r, ms1, w1)"
      using assms(2) by (cases v) (auto simp: handle_packet_def acked_def mqtt_ops_def st)
    then show ?thesis by (rule closed)
  next
    assume "p = PacketControl (MsgClosed e)"
    then obtain reason r where "mqtt_closed env reason (ms, w) = Some (r, ms1, w1)"
      using assms(2) by (cases v) (auto simp: handle_packet_def acked_def mqtt_ops_def st)
    then show ?thesis by (rule closed)
  qed
qed

lemma handle_delete_ran:
  assumes "handle_delete env ctl h skip wd = Some ((True, h'), wd')" and "\<not> hd_deleted h" and "cv_delete env = (\<lambda>n. state_delete sv)"
  shows "\<exists>db. state_delete sv (sc_session ctl) (hd_application h) (hd_device h) (hd_token h) skip db = (Inr (), wd_service wd')"
proof -
  obtain wd1 where "delete_loop env ctl (hd_application h) (hd_device h) (hd_token h) skip (sc_retry_deletes ctl) wd = Some (True, wd1)"
      and wd': "wd_service wd' = wd_service wd1"
    using assms(1,2) by (auto simp: handle_delete_def controller_delete_def split: if_splits)
  from delete_loop_run[OF this(1)] show ?thesis unfolding delete_run_def assms(3) wd' by auto
qed

section \<open>Properties\<close>

lemma create_session_orphans:
  assumes "controller_create env ctl a d n lwt token wd = Some (out, wd')"
    and "cv_create env = (\<lambda>n. state_create sv (clock n))" and "cv_delete env = (\<lambda>n. state_delete sv)"
    and "\<And>n db a d. \<not> state_registered sv db s a d token \<Longrightarrow> \<not> state_registered sv (cv_others env n db) s a d token"
    and "\<And>a d. \<not> state_registered sv (wd_service wd) s a d token" and "(a', d') \<noteq> (pa_name a, pd_name d)"
  shows "\<not> state_registered sv (wd_service wd') s a' d' token"
  using create_loop_invariant[of env ctl "pa_name a" "pd_name d" token _ n wd "(out, wd')" "\<lambda>w. \<not> state_registered sv w s a' d' token"]
    assms state_registered_other[OF assms(6)]
  by (simp add: controller_create_def Let_def)

text \<open>
  C13. A device gets an MQTT session exactly with a device state: a session belongs to the
  application and device that the packet names, by its user name, its client id or its client
  certificate, and for which the packet has a valid credential; a packet with no credential at
  all belongs to the device that the identity of the TLS handshake names, if pre-shared keys
  are enabled and the device has one.  The state of the session is registered with the token
  of its handle, and it starts connected, without subscriptions and with nothing cached.  If
  the connection is refused, no state with the token is left behind, of this or any other
  device.  Nothing is published and the dispatcher is not touched by connecting.  The token is
  a new random one: no state has it before, and other clients never register it.
\<close>

theorem mqtt_session_is_proven:
  assumes "reg_inv db" and "talks_to (ea_auth (mv_app env)) au now db"
    and "cv_create (mv_client env) = (\<lambda>n. state_create sv (clock n))" and "cv_delete (mv_client env) = (\<lambda>n. state_delete sv)"
    and "token = mv_token env (mw_step w)" and "s = sc_session (mv_controller env)"
    and "\<And>n db a d. \<not> state_registered sv db s a d token \<Longrightarrow> \<not> state_registered sv (cv_others (mv_client env) n db) s a d token"
    and "\<And>a d. \<not> state_registered sv (wd_service (mw_state w)) s a d token"
    and "mqtt_connect env v p w = Some (r, w')"
  shows "mw_sender w' = mw_sender w \<and> mw_hub w' = mw_hub w \<and>
     (case r of
        Inl e \<Rightarrow> \<forall>a d. \<not> state_registered sv (wd_service (mw_state w')) s a d token
      | Inr ms \<Rightarrow> cc_clean_session p \<and> mqtt_proven env au now db p (ms_application ms) (ms_device ms)
          \<and> ms_id ms = (pa_name (ms_application ms), pd_name (ms_device ms))
          \<and> ms_handle ms = Some \<lparr>hd_deleted = False, hd_application = fst (ms_id ms), hd_device = snd (ms_id ms), hd_token = token\<rparr>
          \<and> (\<forall>a d. state_registered sv (wd_service (mw_state w')) s a d token \<longleftrightarrow> (a, d) = ms_id ms)
          \<and> ms_disconnect ms = Connected \<and> ms_inbox ms = [] \<and> (\<forall>hist. vetted au hist ms))"
  using assms(9)
proof (cases rule: mqtt_connect_cases)
  case (refused e)
  then show ?thesis using assms(8) by simp
next
  case (passed a d as_dev identity)
  note pass = passed_proven[OF assms(1,2) passed(2,4)]
  from passed(3) show ?thesis
  proof (cases rule: create_session_cases)
    case (config msg)
    then show ?thesis using assms(8) by simp
  next
    case (asked out)
    have ok: "outcome_ok (state_registered sv) s (pa_name a) (pd_name d) token (out, mw_state w')"
      using asked(1)[folded assms(5)] unfolding controller_create_def Let_def assms(6)
      by (rule dss.create_loop_ok[OF _ assms(3,4) assms(7)[unfolded assms(6)] assms(8)[unfolded assms(6)]])
    have others: "\<not> state_registered sv (wd_service (mw_state w')) s a' d' token" if "(a', d') \<noteq> (pa_name a, pd_name d)" for a' d'
      by (rule create_session_orphans[OF asked(1)[folded assms(5)] assms(3,4,7,8) that])
    show ?thesis
    proof (cases out)
      case (StateCreated h rx)
      then obtain dialect w1 where "r = Inr (session_new env a dialect d h rx w1)" using asked(4) by auto
      then show ?thesis
        using ok others asked(2,3) pass passed(1) StateCreated vetted_new[of au _ env a dialect d h rx w1]
        by (auto simp: session_new_def)
    next
      case StateOccupied
      then have "\<not> state_registered sv (wd_service (mw_state w')) s a' d' token" for a' d'
        using ok others by (cases "(a', d') = (pa_name a, pd_name d)") auto
      then show ?thesis using asked StateOccupied by simp
    next
      case StateFailed
      then have "\<not> state_registered sv (wd_service (mw_state w')) s a' d' token" for a' d'
        using ok others by (cases "(a', d') = (pa_name a, pd_name d)") auto
      then show ?thesis using asked StateFailed by simp
    qed (use asked(4) in simp)
  qed
qed

definition demo_mqtt_env :: "state_db mqtt_env" where
  "demo_mqtt_env = \<lparr>mv_app = demo_app_env, mv_clock = (\<lambda>_. 0), mv_new_id = nat_str, mv_random = (\<lambda>_. of_nat), mv_client = demo_client (\<lambda>_. Answered),
     mv_controller = demo_controller, mv_token = nat_str, mv_cache_size = 1, mv_cache_duration = 10, mv_state_attempts = 1,
     mv_disable_psk = False, mv_device_mqtt = (\<lambda>_. None), mv_default_dialect = DrogueV1, mv_app_mqtt = (\<lambda>_. None)\<rparr>"

definition demo_mqtt_world :: "state_db mqtt_world" where
  "demo_mqtt_world = \<lparr>mw_step = 0, mw_sender = demo_sender_state, mw_hub = hub_new, mw_state = demo_world\<rparr>"

definition demo_connect :: connect_packet where
  "demo_connect = \<lparr>cc_clean_session = True, cc_username = Some ''d@a'', cc_password = Some ''pw'', cc_client_id = [],
     cc_certs = None, cc_psk_identity = None, cc_last_will = None\<rparr>"

lemma demo_connected: "\<exists>ms w. mqtt_connect demo_mqtt_env V3 demo_connect demo_mqtt_world = Some (Inr ms, w)"
proof -
  let ?c = "mqtt_connect demo_mqtt_env V3 demo_connect demo_mqtt_world"
  have "(case ?c of Some (Inr _, _) \<Rightarrow> True | _ \<Rightarrow> False)" by code_simp
  then show ?thesis by (auto split: option.splits sum.splits prod.splits)
qed

lemma demo_mqtt_env_talks: "talks_to (ea_auth (mv_app demo_mqtt_env)) demo_authn 0 demo_authn_db"
  by (simp add: demo_mqtt_env_def demo_app_env_def demo_authenticator_talks)

theorem mqtt_session_is_proven_witness:
  "\<exists>ms w. mqtt_connect demo_mqtt_env V3 demo_connect demo_mqtt_world = Some (Inr ms, w)
     \<and> mqtt_proven demo_mqtt_env demo_authn 0 demo_authn_db demo_connect (ms_application ms) (ms_device ms)
     \<and> state_registered demo_sv (wd_service (mw_state w)) ''1'' (fst (ms_id ms)) (snd (ms_id ms)) (nat_str 0)"
proof -
  obtain ms w where c: "mqtt_connect demo_mqtt_env V3 demo_connect demo_mqtt_world = Some (Inr ms, w)" using demo_connected by blast
  have env: "cv_create (mv_client demo_mqtt_env) = (\<lambda>n. state_create demo_sv (int n))" "cv_delete (mv_client demo_mqtt_env) = (\<lambda>n. state_delete demo_sv)"
      "nat_str 0 = mv_token demo_mqtt_env (mw_step demo_mqtt_world)" "''1'' = sc_session (mv_controller demo_mqtt_env)"
      "\<And>n db. cv_others (mv_client demo_mqtt_env) n db = db"
      "\<And>a d t. \<not> state_registered demo_sv (wd_service (mw_state demo_mqtt_world)) ''1'' a d t"
    by (simp_all add: demo_mqtt_env_def demo_mqtt_world_def demo_client_def demo_controller_def demo_world_def state_registered_def)
  show ?thesis
    using mqtt_session_is_proven[OF demo_authn_inv demo_mqtt_env_talks env(1-4) _ _ c] env(5,6) c by auto
qed

text \<open>
  C14. What an MQTT session publishes is sent by its device: a packet adds at most one event,
  none if it is answered with an error.  The event is put in the topic of the application of
  the session, and names the device of the session as its sender, and as its origin that
  device or one that the registry let it act for: when asked for this packet, or at a time that
  is not further back than the time to live of the cache.  Each of the three attributes
  (application, sender, device) is claimed for applications whose rules do not change it.  The
  answers that the session keeps stay answers of the registry.
\<close>

theorem mqtt_events_are_vetted:
  assumes "vetted au hist ms" and "reg_inv (hist (mv_clock env (Suc (mw_step w))))"
    and "talks_to (ea_auth (mv_app env)) au (mv_clock env (Suc (mw_step w))) (hist (mv_clock env (Suc (mw_step w))))"
    and "mqtt_publish env v p (ms, w) = Some (r, ms', w')"
  shows "vetted au hist ms' \<and> (\<exists>sent. ss_log (mw_sender w') = ss_log (mw_sender w) @ sent \<and> length sent \<le> 1 \<and> (r \<noteq> Inr () \<longrightarrow> sent = [])
     \<and> (\<forall>rec \<in> set sent. \<exists>channel d. delivered (mv_app env) (mqtt_message ms channel d (packet_content_type v p))
            (ms_application ms) (ms_device ms) (Some d) rec
          \<and> speaks_for au hist (mv_clock env (mw_step w)) (mv_clock env (Suc (mw_step w))) ms d))"
  using assms(4)
proof (cases rule: mqtt_publish_cases)
  case refused
  then show ?thesis using assms(1) by auto
next
  case (failed e)
  then show ?thesis using eval_device_vetted[OF assms(1-3) refl failed(1)] eval_device_hub(2)[OF failed(1)] by auto
next
  case (published channel d out w1)
  let ?env = "mv_app env"
  have same: "mqtt_message ms' channel d ct = mqtt_message ms channel d ct" "ms_application ms' = ms_application ms" "ms_device ms' = ms_device ms" for ct
    by (subst eval_device_hub(5)[OF published(1)], simp add: mqtt_message_def)+
  let ?pub = "mqtt_message ms channel d (packet_content_type v p)"
  let ?run = "\<lparr>rr_id = mv_new_id env (mw_step w1), rr_now = mv_clock env (mw_step w1), rr_random = \<lambda>_. 0, rr_publishing = [], rr_waiting = []\<rparr>"
  have "endpoint_publish ?env ?run ?pub (pp_payload p) \<lparr>es_sender = mw_sender w1, es_hub = hub_new\<rparr> =
      Some (out, \<lparr>es_sender = mw_sender w', es_hub = hub_new\<rparr>)"
    using published(2) unfolding same by (simp add: endpoint_publish_def)
  from endpoint_publish_sent[OF this, of "ms_application ms" "ms_device ms" "Some d"]
  obtain sent where sent: "ss_log (mw_sender w') = ss_log (mw_sender w) @ sent" "length sent \<le> 1" "out \<noteq> Inr Accepted \<longrightarrow> sent = []"
      "\<forall>rec \<in> set sent. delivered ?env ?pub (ms_application ms) (ms_device ms) (Some d) rec"
    by (auto simp: eval_device_hub(2)[OF published(1)])
  have vet: "vetted au hist ms'" "speaks_for au hist (mv_clock env (mw_step w)) (mv_clock env (Suc (mw_step w))) ms d"
    using eval_device_vetted[OF assms(1-3) refl published(1)] by simp_all
  show ?thesis using sent published(3) vet by (intro conjI exI[of _ sent]) auto
qed

definition demo_mqtt_session :: mqtt_session where
  "demo_mqtt_session = session_new demo_mqtt_env (pb_application (demo_publish ''d'')) DrogueV1 (demo_device ''d'')
     \<lparr>hd_deleted = False, hd_application = ''a'', hd_device = ''d'', hd_token = ''0''\<rparr> 0 demo_mqtt_world"

lemma demo_mqtt_session_live: "inbox_live (ea_topics (mv_app demo_mqtt_env)) (demo_mqtt_session, demo_mqtt_world)"
  by (simp add: inbox_live_def demo_mqtt_session_def session_new_def demo_mqtt_world_def hub_new_inv) (simp add: hub_new_def)

definition demo_packet :: "string \<Rightarrow> publish_packet" where
  "demo_packet topic = \<lparr>pp_topic = topic, pp_payload = ''x'', pp_content_type = None, pp_user_properties = []\<rparr>"

theorem mqtt_events_are_vetted_witness:
  "\<exists>st rec channel d. mqtt_publish demo_mqtt_env V3 (demo_packet ''state'') (demo_mqtt_session, demo_mqtt_world) = Some (Inr (), st)
     \<and> ss_log (mw_sender (snd st)) = [rec]
     \<and> sent_by demo_sender (mqtt_message demo_mqtt_session channel d None) (ms_application demo_mqtt_session) (ms_device demo_mqtt_session) (Some d) (snd (snd rec))"
proof -
  let ?p = "mqtt_publish demo_mqtt_env V3 (demo_packet ''state'') (demo_mqtt_session, demo_mqtt_world)"
  have "(case ?p of Some (Inr _, ms, w) \<Rightarrow> length (ss_log (mw_sender w)) = 1 | _ \<Rightarrow> False)" by code_simp
  then obtain ms w rec where p: "?p = Some (Inr (), ms, w)" "ss_log (mw_sender w) = [rec]"
    by (cases ?p; cases "fst (the ?p)") (auto simp: length_Suc_conv)
  have talks: "talks_to (ea_auth (mv_app demo_mqtt_env)) demo_authn (mv_clock demo_mqtt_env (Suc (mw_step demo_mqtt_world))) demo_authn_db"
    using demo_mqtt_env_talks by (simp add: demo_mqtt_env_def)
  have start: "ss_log (mw_sender demo_mqtt_world) = []" by (simp add: demo_mqtt_world_def demo_sender_state_def)
  have snd: "ea_sender (mv_app demo_mqtt_env) = demo_sender" by (simp add: demo_mqtt_env_def demo_app_env_def)
  have vet: "vetted demo_authn (\<lambda>_. demo_authn_db) demo_mqtt_session" unfolding demo_mqtt_session_def by (rule vetted_new)
  from mqtt_events_are_vetted[where hist = "\<lambda>_. demo_authn_db", OF vet demo_authn_inv talks p(1)] p(2) start
  have "\<exists>channel d. sent_by demo_sender (mqtt_message demo_mqtt_session channel d None) (ms_application demo_mqtt_session)
      (ms_device demo_mqtt_session) (Some d) (snd (snd rec))"
    by (auto simp: snd packet_content_type_def delivered_def)
  then show ?thesis using p by fastforce
qed

text \<open>
  The commands that a filter asks for: those to the gateway of the filter and, if it names a
  device, to this device only, with a name that matches.  The dispatcher agrees but for a filter
  whose device is the gateway itself, which gets the commands of all devices behind it.
\<close>

definition asked_for :: "topic_env \<Rightarrow> command_filter \<Rightarrow> command \<Rightarrow> bool" where
  "asked_for te f msg \<longleftrightarrow> ca_app_id (cd_address msg) = cf_application f \<and> ca_gateway_id (cd_address msg) = cf_gateway f
     \<and> (case cf_device f of None \<Rightarrow> True | Some d \<Rightarrow> ca_device_id (cd_address msg) = d)
     \<and> name_matches te (filter_from te (cf_command_filter f)) (cd_command msg)"

lemma wants_asked_for:
  "cf_device f \<noteq> Some (cf_gateway f) \<Longrightarrow> wants te f = asked_for te f"
  by (auto simp: fun_eq_iff wants_def asked_for_def split: option.splits)

text \<open>
  C16. A subscription of an MQTT session stays until the device unsubscribes from its topic or
  the connection ends: whatever else the session and other tasks do, the device is sent
  exactly the commands that its filter asks for (of all devices behind it, or of the one proxied
  device the filter names), in the order they were sent, as messages on the topic of the
  command.  A subscription of the device for itself alone (\<open>command/inbox//#\<close>) is not covered:
  the documentation says it is for the commands of the device, and the code delivers those of
  all devices behind it too (\<open>self_subscription_gets_others\<close>).
\<close>

theorem mqtt_session_receives:
  assumes "inbox_live (ea_topics (mv_app env)) (ms, w)" and "map_of (ms_inbox ms) topic = Some sub"
    and "cf_device (ib_filter sub) \<noteq> Some (cf_gateway (ib_filter sub))"
    and "run_events env v es (ms, w) = Some (ms', w')" and "\<forall>e \<in> set es. \<not> ends_subscription topic sub e"
  shows "inbox_sent sub w' = inbox_sent sub w @
      map (inbox_send (ib_encoder sub)) (filter (asked_for (ea_topics (mv_app env)) (ib_filter sub)) (event_commands es))"
  using in_progress_run[OF in_progress_start[OF assms(1,2)] assms(4,5)] wants_asked_for[OF assms(3)]
  by (simp add: in_progress_def inbox_sent_def)

theorem mqtt_session_receives_witness:
  "\<exists>ms w sub ms' w'. subscribe_topics demo_mqtt_env [''command/inbox/#''] (demo_mqtt_session, demo_mqtt_world) = Some ([SubConfirmed AtMostOnce], ms, w)
     \<and> map_of (ms_inbox ms) ''command/inbox/#'' = Some sub
     \<and> run_events demo_mqtt_env V3 [EvOther (OpSend (demo_command ''d'' ''e'' ''on'')), EvPacket (PacketPublish (demo_packet ''state'')),
          EvOther (OpSend (demo_command ''d'' ''d'' ''off''))] (ms, w) = Some (ms', w')
     \<and> length (inbox_sent sub w') = length (inbox_sent sub w) + 2"
proof -
  let ?sub = "subscribe_topics demo_mqtt_env [''command/inbox/#''] (demo_mqtt_session, demo_mqtt_world)"
  let ?es = "[EvOther (OpSend (demo_command ''d'' ''e'' ''on'')), EvPacket (PacketPublish (demo_packet ''state'')),
          EvOther (OpSend (demo_command ''d'' ''d'' ''off''))]"
  have "(case ?sub of Some (acks, ms, w) \<Rightarrow> acks = [SubConfirmed AtMostOnce] \<and> (case map_of (ms_inbox ms) ''command/inbox/#'' of
       Some sub \<Rightarrow> run_events demo_mqtt_env V3 ?es (ms, w) \<noteq> None \<and>
         cf_device (ib_filter sub) = None \<and>
         length (filter (asked_for (ea_topics (mv_app demo_mqtt_env)) (ib_filter sub)) (event_commands ?es)) = 2
     | None \<Rightarrow> False) | None \<Rightarrow> False)"
    by code_simp
  then obtain ms w sub ms' w' where s: "?sub = Some ([SubConfirmed AtMostOnce], ms, w)" "map_of (ms_inbox ms) ''command/inbox/#'' = Some sub"
      "run_events demo_mqtt_env V3 ?es (ms, w) = Some (ms', w')"
      and len: "length (filter (asked_for (ea_topics (mv_app demo_mqtt_env)) (ib_filter sub)) (event_commands ?es)) = 2"
      and dev: "cf_device (ib_filter sub) = None"
    by (auto simp del: run_events.simps event_commands.simps subscribe_topics.simps split: option.splits prod.splits)
  have "\<forall>e \<in> set ?es. \<not> ends_subscription ''command/inbox/#'' sub e" by simp
  from mqtt_session_receives[OF subscribe_topics_live[OF demo_mqtt_session_live s(1)] s(2) _ s(3) this] len dev
  have "length (inbox_sent sub w') = length (inbox_sent sub w) + 2" by (simp del: event_commands.simps)
  then show ?thesis using s by blast
qed

text \<open>
  Saying goodbye is final: after a disconnect packet, the loss of the peer or the end of
  the connection, whatever packets follow, the session publishes nothing more, and a further
  message is refused as a protocol error.
\<close>

theorem mqtt_goodbye_is_final:
  assumes "p \<in> {PacketControl (MsgDisconnect d), PacketControl MsgPeerGone, PacketControl (MsgClosed e)}"
    and "handle_packet (mqtt_ops env) v p st = Some st1" and "handle_packets (mqtt_ops env) v ps st1 = Some st2"
  shows "mw_sender (snd st2) = mw_sender (snd st) \<and> mqtt_publish env v' packet st2 = Some (Inl PublishProtocolError, st2)"
  using gone.packets_good[OF goodbye_gone[OF assms(1,2)] assms(3)]
  by (cases "ms_disconnect (fst st2)") (auto simp: mqtt_publish_def ensure_connected_def)

theorem mqtt_goodbye_is_final_witness:
  "\<exists>st1 st2. handle_packet (mqtt_ops demo_mqtt_env) V5 (PacketControl (MsgDisconnect NormalDisconnection)) (demo_mqtt_session, demo_mqtt_world) = Some st1
     \<and> handle_packets (mqtt_ops demo_mqtt_env) V5 [PacketPublish (demo_packet ''state'')] st1 = Some st2 \<and> mw_sender (snd st2) = demo_sender_state"
proof -
  let ?g = "PacketControl (MsgDisconnect NormalDisconnection)"
  have "(case handle_packet (mqtt_ops demo_mqtt_env) V5 ?g (demo_mqtt_session, demo_mqtt_world) of
      Some st1 \<Rightarrow> handle_packets (mqtt_ops demo_mqtt_env) V5 [PacketPublish (demo_packet ''state'')] st1 \<noteq> None | None \<Rightarrow> False)"
    by code_simp
  then obtain st1 st2 where s: "handle_packet (mqtt_ops demo_mqtt_env) V5 ?g (demo_mqtt_session, demo_mqtt_world) = Some st1"
      "handle_packets (mqtt_ops demo_mqtt_env) V5 [PacketPublish (demo_packet ''state'')] st1 = Some st2"
    by (auto simp del: handle_packets.simps split: option.splits)
  have "?g \<in> {PacketControl (MsgDisconnect NormalDisconnection), PacketControl MsgPeerGone, PacketControl (MsgClosed False)}" by simp
  from mqtt_goodbye_is_final[OF this s] have "mw_sender (snd st2) = demo_sender_state" by (simp add: demo_mqtt_world_def)
  then show ?thesis using s by blast
qed

text \<open>
  The end of a connection leaves nothing behind: the subscriptions of the session are
  removed from the dispatcher and no others, the device state is deleted, and with it the
  last will is skipped exactly if the device said goodbye in the normal way before.
  Dropping the session does no more.
\<close>

theorem mqtt_closed_leaves_nothing:
  assumes "inbox_live (ea_topics (mv_app env)) (ms, w)" and "ms_handle ms = Some h" and "\<not> hd_deleted h"
    and "cv_delete (mv_client env) = (\<lambda>n. state_delete sv)" and "mqtt_closed env reason (ms, w) = Some (r, ms', w')"
  shows "r = Inr () \<and> inbox_live (ea_topics (mv_app env)) (ms', w') \<and> ms_inbox ms' = []
     \<and> subs (hb_commands (mw_hub w')) = {e \<in> subs (hb_commands (mw_hub w)). (fst e, fst (snd e)) \<notin> (sub_key_of \<circ> snd) ` set (ms_inbox ms)}
     \<and> \<not> state_registered sv (wd_service (mw_state w')) (sc_session (mv_controller env)) (hd_application h) (hd_device h) (hd_token h)
     \<and> (\<exists>db. state_delete sv (sc_session (mv_controller env)) (hd_application h) (hd_device h) (hd_token h)
          (ms_disconnect ms \<in> {Disconnected True, Closed True}) db = (Inr (), wd_service (mw_state w')))
     \<and> session_drop env (ms', w') = Some w'"
  using assms(5)
proof (rule mqtt_closed_cases)
  fix w1
  assume c: "r = Inr ()" "ms_inbox ms' = []" "ms_handle ms' = None" "w' = fold (\<lambda>(_, sub). inbox_close sub) (ms_inbox ms) w1" "mw_hub w1 = mw_hub w"
    and "case ms_handle ms of
       None \<Rightarrow> mw_state w1 = mw_state w
     | Some h \<Rightarrow> \<exists>h'. handle_delete (mv_client env) (mv_controller env) h (fst (close_conn (ms_disconnect ms))) (mw_state w) =
         Some ((True, h'), mw_state w1)"
  then obtain h' where del: "handle_delete (mv_client env) (mv_controller env) h (fst (close_conn (ms_disconnect ms))) (mw_state w) = Some ((True, h'), mw_state w')"
    using assms(2) by auto
  have skip: "fst (close_conn (ms_disconnect ms)) \<longleftrightarrow> ms_disconnect ms \<in> {Disconnected True, Closed True}"
    by (cases "ms_disconnect ms") (auto simp: close_conn_def)
  note ran = handle_delete_ran[OF del assms(3,4), unfolded skip]
  have "inbox_live (ea_topics (mv_app env)) (ms', w')"
    using live.closed_good[of env "(ms, w)" reason r "(ms', w')"] assms(1,5) by (simp add: mqtt_ops_def)
  then show ?thesis
    using c ran dss.handle_delete_gone[OF del assms(3,4)] close_all_subs[of "ms_inbox ms" w1] by (auto simp: session_drop_def)
qed

theorem mqtt_closed_leaves_nothing_witness:
  "\<exists>ms w. mqtt_closed demo_mqtt_env PeerGone (demo_mqtt_session, demo_mqtt_world) = Some (Inr (), ms, w)
     \<and> session_drop demo_mqtt_env (ms, w) = Some w"
proof -
  have "(case mqtt_closed demo_mqtt_env PeerGone (demo_mqtt_session, demo_mqtt_world) of Some _ \<Rightarrow> True | None \<Rightarrow> False)" by code_simp
  then obtain r ms w where c: "mqtt_closed demo_mqtt_env PeerGone (demo_mqtt_session, demo_mqtt_world) = Some (r, ms, w)"
    by (cases "mqtt_closed demo_mqtt_env PeerGone (demo_mqtt_session, demo_mqtt_world)") auto
  have "cv_delete (mv_client demo_mqtt_env) = (\<lambda>n. state_delete demo_sv)" by (simp add: demo_mqtt_env_def demo_client_def)
  moreover have "ms_handle demo_mqtt_session = Some \<lparr>hd_deleted = False, hd_application = ''a'', hd_device = ''d'', hd_token = ''0''\<rparr>"
    by (simp add: demo_mqtt_session_def session_new_def)
  ultimately show ?thesis
    using mqtt_closed_leaves_nothing[OF demo_mqtt_session_live _ _ _ c, of _ demo_sv] c by auto
qed

end
