(* ===== verification/Access_Tokens.thy ===== *)
theory Access_Tokens
  imports Json_Diff Authz
begin

text \<open>
  Access tokens (\<open>access-token-service\<close>): their text form with a checksum (\<open>rng.rs\<close>), and the
  service that keeps the hashes of a user's tokens in the attributes of the user in Keycloak
  (\<open>service.rs\<close>, \<open>endpoints.rs\<close>, \<open>service-common/src/keycloak/error.rs\<close>).

  Strings are sequences of UTF-8 bytes here, since \<open>is_valid\<close> slices at byte positions.
  Parameters: the random characters, the checksum, the base 62 digits, the hash, the JSON form
  of the stored data, and Keycloak itself as functions on its state.
\<close>

section \<open>Text of a token\<close>

definition PREFIX_LENGTH :: nat where
  "PREFIX_LENGTH = 6"

definition KEY_LENGTH :: nat where
  "KEY_LENGTH = 30"

definition MIN_TOKEN_LENGTH :: nat where
  "MIN_TOKEN_LENGTH = 4 + PREFIX_LENGTH + 1 + KEY_LENGTH"

definition MAX_TOKEN_LENGTH :: nat where
  "MAX_TOKEN_LENGTH = MIN_TOKEN_LENGTH + 6"

lemmas token_lengths = PREFIX_LENGTH_def KEY_LENGTH_def MIN_TOKEN_LENGTH_def MAX_TOKEN_LENGTH_def

record access_token_created =
  tc_prefix :: string
  tc_token :: string

record access_token_data =
  td_hashed_token :: string
  td_created :: timestamp
  td_description :: "string option"

record access_token =
  at_prefix :: string
  at_created :: timestamp
  at_description :: "string option"

record token_env =
  tk_checksum :: "string \<Rightarrow> 32 word"
  tk_update :: "string \<Rightarrow> 32 word"
  tk_base62 :: "32 word \<Rightarrow> string"
  tk_sha3 :: "string \<Rightarrow> string"
  tk_to_json :: "access_token_data \<Rightarrow> string + string"
  tk_from_json :: "string \<Rightarrow> string + access_token_data"

text \<open>The samples of the random number generator are a sequence of characters.\<close>

definition generate_key :: "(nat \<Rightarrow> char) \<Rightarrow> string" where
  "generate_key rnd = map rnd [0..<KEY_LENGTH]"

definition generate_prefix :: "(nat \<Rightarrow> char) \<Rightarrow> string" where
  "generate_prefix rnd = ''drg_'' @ map rnd [0..<PREFIX_LENGTH]"

definition hash_token :: "token_env \<Rightarrow> string \<Rightarrow> string" where
  "hash_token env token = tk_sha3 env token"

definition serialize_token :: "token_env \<Rightarrow> string \<Rightarrow> string \<Rightarrow> access_token_created \<times> string" where
  "serialize_token env pfx key =
     (let token = pfx @ ''_'' @ key;
          crc = tk_base62 env (tk_checksum env token);
          token = token @ crc
      in (\<lparr>tc_prefix = pfx, tc_token = token\<rparr>, hash_token env token))"

definition generate_access_token ::
  "token_env \<Rightarrow> (nat \<Rightarrow> char) \<Rightarrow> (nat \<Rightarrow> char) \<Rightarrow> access_token_created \<times> string" where
  "generate_access_token env rnd_prefix rnd_key = serialize_token env (generate_prefix rnd_prefix) (generate_key rnd_key)"

text \<open>A position that does not split the bytes of a character; slicing at another one panics.\<close>

definition is_char_boundary :: "string \<Rightarrow> nat \<Rightarrow> bool" where
  "is_char_boundary s i \<longleftrightarrow> i = 0 \<or> i = length s
     \<or> i < length s \<and> \<not> (128 \<le> (of_char (s ! i) :: nat) \<and> (of_char (s ! i) :: nat) < 192)"

definition str_split_at :: "nat \<Rightarrow> string \<Rightarrow> (string \<times> string) option" where
  "str_split_at i s = (if is_char_boundary s i then Some (take i s, drop i s) else None)"

text \<open>The outer option is \<open>None\<close> if the function panics.\<close>

definition is_valid :: "token_env \<Rightarrow> string \<Rightarrow> string option option" where
  "is_valid env token =
     (if \<not> (MIN_TOKEN_LENGTH \<le> length token \<and> length token \<le> MAX_TOKEN_LENGTH) then Some None
      else Option.bind (str_split_at 4 token) (\<lambda>(prefix_1, _).
        if prefix_1 \<noteq> ''drg_'' then Some None
        else Option.bind (str_split_at MIN_TOKEN_LENGTH token) (\<lambda>(key, expected_crc).
          let crc = tk_update env key; actual_crc = tk_base62 env crc in
          if expected_crc \<noteq> actual_crc then Some None
          else map_option (\<lambda>(pfx, _). Some pfx) (str_split_at (PREFIX_LENGTH + 4) token))))"

section \<open>Keycloak\<close>

datatype keycloak_client_error =
    ReqwestFailure string
  | HttpFailure nat "(string option \<times> string option) option" string

datatype keycloak_error =
    KcInternal string
  | KcSerialization string
  | KcTransport string
  | KcClient keycloak_client_error
  | KcNotAuthorized
  | KcNotFound

text \<open>Status, error and message of the response; not every number is a status code.\<close>

fun keycloak_error_response :: "(nat \<Rightarrow> bool) \<Rightarrow> keycloak_error \<Rightarrow> nat \<times> string \<times> string" where
  "keycloak_error_response valid (KcInternal message) = (500, ''InternalError'', message)"
| "keycloak_error_response valid (KcTransport err) = (502, ''GatewayError'', err)"
| "keycloak_error_response valid (KcClient (ReqwestFailure err)) = (502, ''GatewayError'', err)"
| "keycloak_error_response valid (KcClient (HttpFailure status body text)) =
     (if valid status then status else 500,
      case Option.bind body fst of Some error \<Rightarrow> error | None \<Rightarrow> ''UnknownError'',
      case Option.bind body snd of Some message \<Rightarrow> message | None \<Rightarrow> text)"
| "keycloak_error_response valid KcNotAuthorized = (403, ''NotAuthorized'', ''Not authorized'')"
| "keycloak_error_response valid (KcSerialization err) = (500, ''InternalError'', err)"
| "keycloak_error_response valid KcNotFound = (404, ''NotFound'', ''User not found'')"

record keycloak_user =
  ku_id :: "string option"
  ku_attributes :: "json smap option"

record 'k keycloak_admin =
  ka_admin :: "'k \<Rightarrow> keycloak_error + unit"
  ka_user_get :: "string \<Rightarrow> 'k \<Rightarrow> keycloak_error + keycloak_user"
  ka_user_put :: "string \<Rightarrow> keycloak_user \<Rightarrow> 'k \<Rightarrow> (keycloak_error + unit) \<times> 'k"
  ka_users_get :: "string \<Rightarrow> 'k \<Rightarrow> keycloak_error + keycloak_user list"

section \<open>The service\<close>

definition ATTR_PREFIX :: string where
  "ATTR_PREFIX = ''access_token_''"

definition make_key :: "string \<Rightarrow> string" where
  "make_key pfx = ATTR_PREFIX @ pfx"

definition insert_entry ::
  "token_env \<Rightarrow> json smap \<Rightarrow> string \<Rightarrow> access_token_data \<Rightarrow> keycloak_error + json smap" where
  "insert_entry env attributes pfx entry =
     (case tk_to_json env entry of
        Inl e \<Rightarrow> Inl (KcSerialization e)
      | Inr text \<Rightarrow> Inr (AList.update (make_key pfx) (String text) attributes))"

definition decode_data :: "token_env \<Rightarrow> json \<Rightarrow> keycloak_error + access_token_data" where
  "decode_data env val =
     (case val of
        Array (String str # _) \<Rightarrow>
          (case tk_from_json env str of Inl e \<Rightarrow> Inl (KcSerialization e) | Inr data \<Rightarrow> Inr data)
      | _ \<Rightarrow> Inl KcNotAuthorized)"

definition token_user :: "user_information \<Rightarrow> keycloak_error + string" where
  "token_user identity = ok_or KcNotAuthorized (user_id identity)"

definition create_token ::
  "token_env \<Rightarrow> 'k keycloak_admin \<Rightarrow> (nat \<Rightarrow> char) \<Rightarrow> (nat \<Rightarrow> char) \<Rightarrow> timestamp \<Rightarrow> user_information \<Rightarrow> string option \<Rightarrow> 'k
    \<Rightarrow> (keycloak_error + access_token_created) \<times> 'k" where
  "create_token env kc rnd_prefix rnd_key now identity description w =
     (let (created, hashed) = generate_access_token env rnd_prefix rnd_key in
      case rbind (token_user identity) (\<lambda>uid.
           rbind (ka_admin kc w) (\<lambda>_.
           rbind (ka_user_get kc uid w) (\<lambda>user.
           rbind (insert_entry env (case ku_attributes user of Some a \<Rightarrow> a | None \<Rightarrow> []) (tc_prefix created)
             \<lparr>td_hashed_token = hashed, td_created = now, td_description = description\<rparr>) (\<lambda>attributes.
           Inr (uid, user\<lparr>ku_attributes := Some attributes\<rparr>))))) of
        Inl e \<Rightarrow> (Inl e, w)
      | Inr (uid, user) \<Rightarrow>
          let (r, w) = ka_user_put kc uid user w in (rbind r (\<lambda>_. Inr created), w))"

definition delete_token ::
  "'k keycloak_admin \<Rightarrow> user_information \<Rightarrow> string \<Rightarrow> 'k \<Rightarrow> (keycloak_error + unit) \<times> 'k" where
  "delete_token kc identity pfx w =
     (case rbind (token_user identity) (\<lambda>uid.
           rbind (ka_admin kc w) (\<lambda>_.
           rbind (ka_user_get kc uid w) (\<lambda>user. Inr (uid, user)))) of
        Inl e \<Rightarrow> (Inl e, w)
      | Inr (uid, user) \<Rightarrow>
          (case ku_attributes user of
             None \<Rightarrow> (Inr (), w)
           | Some attributes \<Rightarrow>
               if map_of attributes (make_key pfx) = None then (Inr (), w)
               else ka_user_put kc uid (user\<lparr>ku_attributes := Some (AList.delete (make_key pfx) attributes)\<rparr>) w))"

definition strip_attr_prefix :: "string \<Rightarrow> string option" where
  "strip_attr_prefix key = (if starts_with key ATTR_PREFIX then Some (drop (length ATTR_PREFIX) key) else None)"

definition list_tokens ::
  "token_env \<Rightarrow> 'k keycloak_admin \<Rightarrow> user_information \<Rightarrow> 'k \<Rightarrow> keycloak_error + access_token list" where
  "list_tokens env kc identity w =
     rbind (token_user identity) (\<lambda>uid.
     rbind (ka_admin kc w) (\<lambda>_.
     rbind (ka_user_get kc uid w) (\<lambda>user.
       Inr (case ku_attributes user of
              None \<Rightarrow> []
            | Some attributes \<Rightarrow>
                List.map_filter (\<lambda>(key, val).
                  case strip_attr_prefix key of
                    None \<Rightarrow> None
                  | Some pfx \<Rightarrow>
                      (case decode_data env val of
                         Inr data \<Rightarrow> Some \<lparr>at_prefix = pfx, at_created = td_created data, at_description = td_description data\<rparr>
                       | Inl _ \<Rightarrow> None)) attributes))))"

text \<open>The outer option is \<open>None\<close> if the check of the token panics.\<close>

definition authenticate_token ::
  "token_env \<Rightarrow> 'k keycloak_admin \<Rightarrow> string \<Rightarrow> string \<Rightarrow> 'k \<Rightarrow> (keycloak_error + user_details option) option" where
  "authenticate_token env kc username password w =
     map_option (\<lambda>valid.
       case valid of
         None \<Rightarrow> Inr None
       | Some pfx \<Rightarrow>
           rbind (ka_admin kc w) (\<lambda>_.
           rbind (ka_users_get kc username w) (\<lambda>users.
             Inr (Option.bind (if users = [] then None else Some (last users)) (\<lambda>user.
               Option.bind (ku_id user) (\<lambda>uid.
               Option.bind (Option.bind (ku_attributes user) (\<lambda>a. map_of a (make_key pfx))) (\<lambda>val.
                 case decode_data env val of
                   Inl _ \<Rightarrow> None
                 | Inr data \<Rightarrow>
                     if hash_token env password = td_hashed_token data
                     then Some \<lparr>ud_user_id = uid, ud_roles = []\<rparr> else None)))))))
     (is_valid env password)"

datatype token_answer = TokenCreated access_token_created | TokenList "access_token list" | TokenKnown user_details | TokenUnknown

definition token_response :: "(nat \<Rightarrow> bool) \<Rightarrow> nat \<Rightarrow> ('a \<Rightarrow> token_answer option) \<Rightarrow> keycloak_error + 'a \<Rightarrow> nat \<times> token_answer option" where
  "token_response valid status f r =
     (case r of Inl e \<Rightarrow> (fst (keycloak_error_response valid e), None) | Inr x \<Rightarrow> (status, f x))"

definition token_create_endpoint ::
  "(nat \<Rightarrow> bool) \<Rightarrow> token_env \<Rightarrow> 'k keycloak_admin \<Rightarrow> (nat \<Rightarrow> char) \<Rightarrow> (nat \<Rightarrow> char) \<Rightarrow> timestamp \<Rightarrow> user_information \<Rightarrow> string option
    \<Rightarrow> 'k \<Rightarrow> (nat \<times> token_answer option) \<times> 'k" where
  "token_create_endpoint valid env kc rnd_prefix rnd_key now user opts w =
     (let (r, w) = create_token env kc rnd_prefix rnd_key now user opts w
      in (token_response valid 200 (\<lambda>key. Some (TokenCreated key)) r, w))"

definition token_list_endpoint ::
  "(nat \<Rightarrow> bool) \<Rightarrow> token_env \<Rightarrow> 'k keycloak_admin \<Rightarrow> user_information \<Rightarrow> 'k \<Rightarrow> nat \<times> token_answer option" where
  "token_list_endpoint valid env kc user w = token_response valid 200 (\<lambda>ts. Some (TokenList ts)) (list_tokens env kc user w)"

definition token_delete_endpoint ::
  "(nat \<Rightarrow> bool) \<Rightarrow> 'k keycloak_admin \<Rightarrow> user_information \<Rightarrow> string \<Rightarrow> 'k \<Rightarrow> (nat \<times> token_answer option) \<times> 'k" where
  "token_delete_endpoint valid kc user pfx w =
     (let (r, w) = delete_token kc user pfx w in (token_response valid 204 (\<lambda>_. None) r, w))"

definition token_authenticate_endpoint ::
  "(nat \<Rightarrow> bool) \<Rightarrow> token_env \<Rightarrow> 'k keycloak_admin \<Rightarrow> string \<Rightarrow> string \<Rightarrow> 'k \<Rightarrow> (nat \<times> token_answer option) option" where
  "token_authenticate_endpoint valid env kc uid access_token w =
     map_option (token_response valid 200 (\<lambda>out. Some (case out of Some details \<Rightarrow> TokenKnown details | None \<Rightarrow> TokenUnknown)))
       (authenticate_token env kc uid access_token w)"

section \<open>What a token is\<close>

definition ascii :: "string \<Rightarrow> bool" where
  "ascii s \<longleftrightarrow> list_all (\<lambda>c. (of_char c :: nat) < 128) s"

lemma ascii_append [simp]: "ascii (a @ b) \<longleftrightarrow> ascii a \<and> ascii b"
  by (simp add: ascii_def)

lemma ascii_boundary: "ascii s \<Longrightarrow> i \<le> length s \<Longrightarrow> is_char_boundary s i"
  by (auto simp: ascii_def is_char_boundary_def list_all_length dest: le_neq_implies_less)

text \<open>
  What is relied on: both functions of the checksum library are the same checksum, a 32-bit
  number has at most six digits to the base 62, and stored data can be read back.
\<close>

definition sound_tokens :: "token_env \<Rightarrow> bool" where
  "sound_tokens env \<longleftrightarrow> tk_checksum env = tk_update env \<and> (\<forall>n. length (tk_base62 env n) \<le> 6 \<and> ascii (tk_base62 env n))
     \<and> (\<forall>d t. tk_to_json env d = Inr t \<longrightarrow> tk_from_json env t = Inr d)"

lemma is_validI:
  assumes "MIN_TOKEN_LENGTH \<le> length token" and "length token \<le> MAX_TOKEN_LENGTH"
    and "str_split_at 4 token = Some (''drg_'', r1)" and "str_split_at MIN_TOKEN_LENGTH token = Some (key, crc)"
    and "crc = tk_base62 env (tk_update env key)" and "str_split_at (PREFIX_LENGTH + 4) token = Some (pfx, r2)"
  shows "is_valid env token = Some (Some pfx)"
  using assms(1,2,5) by (simp add: is_valid_def assms(3,4,6))

lemma serialized_is_valid:
  assumes "sound_tokens env" and "ascii p" and "length p = PREFIX_LENGTH" and "ascii key" and "length key = KEY_LENGTH"
  shows "is_valid env (tc_token (fst (serialize_token env (''drg_'' @ p) key))) = Some (Some (''drg_'' @ p))"
proof -
  let ?body = "(''drg_'' @ p) @ ''_'' @ key"
  let ?crc = "tk_base62 env (tk_checksum env ?body)"
  have t: "tc_token (fst (serialize_token env (''drg_'' @ p) key)) = ?body @ ?crc"
    by (simp add: serialize_token_def Let_def)
  have crc: "length ?crc \<le> 6" "ascii ?crc" "tk_checksum env = tk_update env" using assms(1) by (auto simp: sound_tokens_def)
  have body: "length ?body = MIN_TOKEN_LENGTH" "take MIN_TOKEN_LENGTH ?body = ?body" using assms(3,5) by (simp_all add: token_lengths)
  have "ascii (?body @ ?crc)" using assms(2,4) crc(2) by (simp add: ascii_def)
  then have split: "str_split_at i (?body @ ?crc) = Some (take i (?body @ ?crc), drop i (?body @ ?crc))" if "i \<le> MIN_TOKEN_LENGTH" for i
    using ascii_boundary[of "?body @ ?crc" i] that body(1) by (simp add: str_split_at_def)
  have take: "take MIN_TOKEN_LENGTH (?body @ ?crc) = ?body" "drop MIN_TOKEN_LENGTH (?body @ ?crc) = ?crc"
    unfolding body(1)[symmetric] by simp_all
  have first: "take 4 (?body @ ?crc) = ''drg_''" by simp
  have ten: "take (PREFIX_LENGTH + 4) (?body @ ?crc) = ''drg_'' @ p" using assms(3) by (simp add: PREFIX_LENGTH_def)
  have len: "MIN_TOKEN_LENGTH \<le> length (?body @ ?crc)" "length (?body @ ?crc) \<le> MAX_TOKEN_LENGTH"
    using body(1) crc(1) unfolding MAX_TOKEN_LENGTH_def length_append by linarith+
  have small: "4 \<le> MIN_TOKEN_LENGTH" "PREFIX_LENGTH + 4 \<le> MIN_TOKEN_LENGTH" by (simp_all add: token_lengths)
  have crc_eq: "?crc = tk_base62 env (tk_update env ?body)" by (simp only: crc(3))
  show ?thesis
    unfolding t
    by (rule is_validI[OF len split[OF small(1), unfolded first] split[OF order_refl, unfolded take] crc_eq split[OF small(2), unfolded ten]])
qed

lemma generated_is_valid:
  assumes "sound_tokens env" and "\<And>n. (of_char (rnd_prefix n) :: nat) < 128" and "\<And>n. (of_char (rnd_key n) :: nat) < 128"
  shows "is_valid env (tc_token (fst (generate_access_token env rnd_prefix rnd_key))) =
     Some (Some (tc_prefix (fst (generate_access_token env rnd_prefix rnd_key))))"
proof -
  have pfx: "tc_prefix (fst (generate_access_token env rnd_prefix rnd_key)) = generate_prefix rnd_prefix"
    by (simp add: generate_access_token_def serialize_token_def Let_def)
  show ?thesis unfolding pfx unfolding generate_access_token_def generate_prefix_def
    by (rule serialized_is_valid[OF assms(1)]) (auto simp: ascii_def generate_key_def list_all_iff assms(2,3))
qed

text \<open>A token whose fourth byte is within a character makes the service panic.\<close>

lemma split_token_panics:
  assumes "MIN_TOKEN_LENGTH \<le> length password" and "length password \<le> MAX_TOKEN_LENGTH" and "\<not> is_char_boundary password 4"
  shows "authenticate_token env kc username password w = None"
  using assms by (simp add: authenticate_token_def is_valid_def str_split_at_def)

section \<open>Stored tokens\<close>

definition attrs :: "keycloak_user \<Rightarrow> json smap" where
  "attrs u = (case ku_attributes u of Some a \<Rightarrow> a | None \<Rightarrow> [])"

lemma attrs_update [simp]: "attrs (u\<lparr>ku_attributes := Some a\<rparr>) = a"
  by (simp add: attrs_def)

text \<open>
  What is relied on of Keycloak: attributes are lists of texts, a single text is stored as a
  list with this text; a user that was stored is found with its attributes, other users are
  not changed; searching by name and reading by identifier give the same user.
\<close>

fun stored_value :: "json \<Rightarrow> json" where
  "stored_value (String s) = Array [String s]"
| "stored_value v = v"

definition stores_users :: "'k keycloak_admin \<Rightarrow> bool" where
  "stores_users kc \<longleftrightarrow>
     (\<forall>uid u w w'. ka_user_put kc uid u w = (Inr (), w') \<longrightarrow>
        (\<exists>u'. ka_user_get kc uid w' = Inr u' \<and> (\<forall>k. map_of (attrs u') k = map_option stored_value (map_of (attrs u) k)))
        \<and> (\<forall>uid'. uid' \<noteq> uid \<longrightarrow> ka_user_get kc uid' w' = ka_user_get kc uid' w))
     \<and> (\<forall>name us w uid. ka_users_get kc name w = Inr us \<and> us \<noteq> [] \<and> ku_id (last us) = Some uid \<longrightarrow> ka_user_get kc uid w = Inr (last us))
     \<and> (\<forall>uid u w k s. ka_user_get kc uid w = Inr u \<longrightarrow> map_of (attrs u) k \<noteq> Some (String s))"

lemma stores_put:
  assumes "stores_users kc" and "ka_user_put kc uid u w = (Inr (), w')"
  obtains u' where "ka_user_get kc uid w' = Inr u'" "\<And>k. map_of (attrs u') k = map_option stored_value (map_of (attrs u) k)"
    "\<And>uid'. uid' \<noteq> uid \<Longrightarrow> ka_user_get kc uid' w' = ka_user_get kc uid' w"
proof -
  have "(\<exists>u'. ka_user_get kc uid w' = Inr u' \<and> (\<forall>k. map_of (attrs u') k = map_option stored_value (map_of (attrs u) k)))
      \<and> (\<forall>uid'. uid' \<noteq> uid \<longrightarrow> ka_user_get kc uid' w' = ka_user_get kc uid' w)"
    using assms unfolding stores_users_def by blast
  then show thesis using that by blast
qed

lemma stores_attrs:
  assumes "stores_users kc" and "ka_user_get kc uid w = Inr u"
  shows "map_option stored_value (map_of (attrs u) k) = map_of (attrs u) k"
proof -
  have "map_of (attrs u) k \<noteq> Some (String s)" for s using assms unfolding stores_users_def by blast
  then show ?thesis by (cases "map_of (attrs u) k"; cases "the (map_of (attrs u) k)") auto
qed

lemma create_token_stored:
  assumes "stores_users kc" and "create_token env kc rp rk now (Authenticated d) desc w = (Inr created, w1)"
  obtains u u1 t where "created = fst (generate_access_token env rp rk)"
    "ka_user_get kc (ud_user_id d) w = Inr u" "ka_user_get kc (ud_user_id d) w1 = Inr u1"
    "tk_to_json env \<lparr>td_hashed_token = hash_token env (tc_token created), td_created = now, td_description = desc\<rparr> = Inr t"
    "map_of (attrs u1) (make_key (tc_prefix created)) = Some (Array [String t])"
    "\<And>k. k \<noteq> make_key (tc_prefix created) \<Longrightarrow> map_of (attrs u1) k = map_of (attrs u) k"
    "\<And>uid'. uid' \<noteq> ud_user_id d \<Longrightarrow> ka_user_get kc uid' w1 = ka_user_get kc uid' w"
proof -
  obtain c h where g: "generate_access_token env rp rk = (c, h)" by fastforce
  have h: "h = hash_token env (tc_token c)"
    using g by (auto simp: generate_access_token_def serialize_token_def Let_def)
  obtain u a where u: "ka_user_get kc (ud_user_id d) w = Inr u" "created = c"
      "insert_entry env (attrs u) (tc_prefix c) \<lparr>td_hashed_token = h, td_created = now, td_description = desc\<rparr> = Inr a"
      and put: "ka_user_put kc (ud_user_id d) (u\<lparr>ku_attributes := Some a\<rparr>) w = (Inr (), w1)"
    using assms(2) unfolding create_token_def g
    by (auto simp: token_user_def attrs_def result_simps Let_def split: sum.splits prod.splits)
  obtain t where t: "tk_to_json env \<lparr>td_hashed_token = h, td_created = now, td_description = desc\<rparr> = Inr t"
      "a = AList.update (make_key (tc_prefix c)) (String t) (attrs u)"
    using u(3) by (auto simp: insert_entry_def split: sum.splits)
  obtain u1 where u1: "ka_user_get kc (ud_user_id d) w1 = Inr u1" "\<And>k. map_of (attrs u1) k = map_option stored_value (map_of a k)"
      "\<And>uid'. uid' \<noteq> ud_user_id d \<Longrightarrow> ka_user_get kc uid' w1 = ka_user_get kc uid' w"
    using stores_put[OF assms(1) put] by (metis attrs_update)
  show thesis
    by (rule that[OF _ u(1) u1(1) t(1)[unfolded h, folded u(2)]])
      (use g u(2) u1(2,3) stores_attrs[OF assms(1) u(1)] in \<open>auto simp: t(2) update_conv'\<close>)
qed

lemma map_filterI: "x \<in> set xs \<Longrightarrow> f x = Some y \<Longrightarrow> y \<in> set (List.map_filter f xs)"
  by (force simp: List.map_filter_def)

lemma authenticate_found:
  assumes "stores_users kc" and "is_valid env pw = Some (Some pfx)" and "ka_admin kc w = Inr ()" and "ka_users_get kc name w = Inr us"
    and "us \<noteq> []" and "ku_id (last us) = Some uid" and "ka_user_get kc uid w = Inr u"
  shows "authenticate_token env kc name pw w = Some (Inr (Option.bind (map_of (attrs u) (make_key pfx)) (\<lambda>val.
      case decode_data env val of
        Inl _ \<Rightarrow> None
      | Inr data \<Rightarrow> if hash_token env pw = td_hashed_token data then Some \<lparr>ud_user_id = uid, ud_roles = []\<rparr> else None)))"
proof -
  have "last us = u" using assms(1,4-7) unfolding stores_users_def by (metis Inr_inject)
  then show ?thesis using assms(2-6) by (cases "ku_attributes u") (simp_all add: authenticate_token_def attrs_def)
qed

section \<open>Properties\<close>

text \<open>
  C21. The life of an access token: after it was created, the user is authenticated by it,
  without any roles, and it is listed; the other attributes of the user and all other users
  are as before.  After it was deleted by its prefix, it authenticates no longer.
\<close>

theorem access_token_lifecycle:
  assumes "sound_tokens env" and "stores_users kc"
    and "\<And>n. (of_char (rnd_prefix n) :: nat) < 128" and "\<And>n. (of_char (rnd_key n) :: nat) < 128" and "\<And>w. ka_admin kc w = Inr ()"
    and "create_token env kc rnd_prefix rnd_key now (Authenticated d) desc w = (Inr created, w1)"
    and "ka_users_get kc name w1 = Inr us" and "us \<noteq> []" and "ku_id (last us) = Some (ud_user_id d)"
  shows "authenticate_token env kc name (tc_token created) w1 = Some (Inr (Some \<lparr>ud_user_id = ud_user_id d, ud_roles = []\<rparr>))
     \<and> (\<exists>ts. list_tokens env kc (Authenticated d) w1 = Inr ts
          \<and> \<lparr>at_prefix = tc_prefix created, at_created = now, at_description = desc\<rparr> \<in> set ts)
     \<and> (\<exists>u u1. ka_user_get kc (ud_user_id d) w = Inr u \<and> ka_user_get kc (ud_user_id d) w1 = Inr u1
          \<and> (\<forall>k. k \<noteq> make_key (tc_prefix created) \<longrightarrow> map_of (attrs u1) k = map_of (attrs u) k))
     \<and> (\<forall>uid'. uid' \<noteq> ud_user_id d \<longrightarrow> ka_user_get kc uid' w1 = ka_user_get kc uid' w)
     \<and> (\<forall>w2 us2. delete_token kc (Authenticated d) (tc_prefix created) w1 = (Inr (), w2) \<and> ka_users_get kc name w2 = Inr us2 \<and> us2 \<noteq> []
          \<and> ku_id (last us2) = Some (ud_user_id d) \<longrightarrow> authenticate_token env kc name (tc_token created) w2 = Some (Inr None))"
  using create_token_stored[OF assms(2,6)]
proof cases
  case (1 u u1 t)
  let ?data = "\<lparr>td_hashed_token = hash_token env (tc_token created), td_created = now, td_description = desc\<rparr>"
  have valid: "is_valid env (tc_token created) = Some (Some (tc_prefix created))"
    unfolding 1(1) by (rule generated_is_valid[OF assms(1,3,4)])
  have dec: "decode_data env (Array [String t]) = Inr ?data" using assms(1) 1(4) by (simp add: decode_data_def sound_tokens_def)
  have auth: "authenticate_token env kc name (tc_token created) w1 = Some (Inr (Some \<lparr>ud_user_id = ud_user_id d, ud_roles = []\<rparr>))"
    unfolding authenticate_found[OF assms(2) valid assms(5,7,8,9) 1(3)] 1(5) using dec by simp
  have "(make_key (tc_prefix created), Array [String t]) \<in> set (attrs u1)" using 1(5) by (rule map_of_SomeD)
  moreover have "strip_attr_prefix (make_key p) = Some p" for p by (simp add: strip_attr_prefix_def make_key_def starts_with_def)
  ultimately have list: "\<exists>ts. list_tokens env kc (Authenticated d) w1 = Inr ts
      \<and> \<lparr>at_prefix = tc_prefix created, at_created = now, at_description = desc\<rparr> \<in> set ts"
    using assms(5) 1(3) dec
    by (cases "ku_attributes u1") (auto simp: list_tokens_def token_user_def attrs_def intro!: map_filterI)
  have gone: "authenticate_token env kc name (tc_token created) w2 = Some (Inr None)"
    if del: "delete_token kc (Authenticated d) (tc_prefix created) w1 = (Inr (), w2)" and us2: "ka_users_get kc name w2 = Inr us2" "us2 \<noteq> []"
      "ku_id (last us2) = Some (ud_user_id d)" for w2 us2
  proof -
    obtain a where a: "ku_attributes u1 = Some a" "attrs u1 = a" using 1(5) by (cases "ku_attributes u1") (auto simp: attrs_def)
    have put: "ka_user_put kc (ud_user_id d) (u1\<lparr>ku_attributes := Some (AList.delete (make_key (tc_prefix created)) a)\<rparr>) w1 = (Inr (), w2)"
      using del 1(3,5) a by (simp add: delete_token_def token_user_def assms(5))
    obtain u2 where "ka_user_get kc (ud_user_id d) w2 = Inr u2"
        "map_of (attrs u2) (make_key (tc_prefix created)) = None"
      by (rule stores_put[OF assms(2) put]) (simp add: delete_conv')
    with authenticate_found[OF assms(2) valid assms(5) us2] show ?thesis by simp
  qed
  show ?thesis using auth list gone 1(2,3,6,7) by blast
qed

text \<open>A store of one user for the witness; its state is the attributes of the user.\<close>

definition demo_tokens :: token_env where
  "demo_tokens = \<lparr>tk_checksum = (\<lambda>s. of_nat (length s)), tk_update = (\<lambda>s. of_nat (length s)), tk_base62 = (\<lambda>_. ''AAAAAA''),
     tk_sha3 = rev, tk_to_json = (\<lambda>d. if td_created d = 0 \<and> td_description d = None then Inr (td_hashed_token d) else Inl []),
     tk_from_json = (\<lambda>t. Inr \<lparr>td_hashed_token = t, td_created = 0, td_description = None\<rparr>)\<rparr>"

definition demo_kc :: "json smap keycloak_admin" where
  "demo_kc = \<lparr>ka_admin = (\<lambda>_. Inr ()),
     ka_user_get = (\<lambda>uid w. if uid = ''u'' then Inr \<lparr>ku_id = Some ''u'', ku_attributes = Some (map (\<lambda>(k, v). (k, stored_value v)) w)\<rparr> else Inl KcNotFound),
     ka_user_put = (\<lambda>uid u w. if uid = ''u'' then (Inr (), attrs u) else (Inl KcNotFound, w)),
     ka_users_get = (\<lambda>name w. if name = ''name'' then Inr [\<lparr>ku_id = Some ''u'', ku_attributes = Some (map (\<lambda>(k, v). (k, stored_value v)) w)\<rparr>] else Inr [])\<rparr>"

lemma demo_kc_stores: "stores_users demo_kc"
proof -
  have "stored_value v \<noteq> String s" for v s by (cases v) auto
  then show ?thesis by (auto simp: stores_users_def demo_kc_def attrs_def map_of_map split: if_splits)
qed

lemma demo_tokens_sound: "sound_tokens demo_tokens"
  by (auto simp: sound_tokens_def demo_tokens_def ascii_def split: if_splits)

theorem access_token_lifecycle_witness:
  "\<exists>created w1. create_token demo_tokens demo_kc (\<lambda>_. CHR ''x'') (\<lambda>_. CHR ''y'') 0 (Authenticated \<lparr>ud_user_id = ''u'', ud_roles = [''r'']\<rparr>) None [] =
       (Inr created, w1)
     \<and> authenticate_token demo_tokens demo_kc ''name'' (tc_token created) w1 = Some (Inr (Some \<lparr>ud_user_id = ''u'', ud_roles = []\<rparr>))"
proof -
  let ?d = "\<lparr>ud_user_id = ''u'', ud_roles = [''r'']\<rparr>"
  let ?c = "create_token demo_tokens demo_kc (\<lambda>_. CHR ''x'') (\<lambda>_. CHR ''y'') 0 (Authenticated ?d) None []"
  have "(case fst ?c of Inr _ \<Rightarrow> True | Inl _ \<Rightarrow> False)" by code_simp
  then obtain created w1 where c: "?c = (Inr created, w1)" by (cases ?c) (auto split: sum.splits)
  obtain u where us: "ka_users_get demo_kc ''name'' w1 = Inr [u]" "ku_id u = Some ''u''" by (simp add: demo_kc_def)
  have "ka_admin demo_kc w = Inr ()" for w by (simp add: demo_kc_def)
  from access_token_lifecycle[OF demo_tokens_sound demo_kc_stores _ _ this c us(1)] us(2) c show ?thesis by (simp del: of_char_eq_iff)
qed

end
