(* ===== verification/User_Auth.thy ===== *)
theory User_Auth
  imports Registry_Access Access_Tokens
begin

text \<open>
  The authorization of users for an application (\<open>user-auth-service/src/service.rs\<close>), which the
  integrations ask before they give access.
\<close>

record authorization_request =
  rz_application :: string
  rz_permission :: permission
  rz_user_id :: "string option"
  rz_roles :: "string list"

text \<open>A request without a user, or with an empty one, is one of the anonymous user.\<close>

definition context_user :: "authorization_request \<Rightarrow> user_information" where
  "context_user rq =
     (case rz_user_id rq of
        Some uid \<Rightarrow> if uid \<noteq> [] then Authenticated \<lparr>ud_user_id = uid, ud_roles = rz_roles rq\<rparr> else Anonymous
      | None \<Rightarrow> Anonymous)"

definition user_authorize :: "(string \<Rightarrow> nat) \<Rightarrow> authorization_request \<Rightarrow> registry \<Rightarrow> outcome" where
  "user_authorize collate request db =
     (case app_get collate (rz_application request) LockNone db of
        None \<Rightarrow> Deny
      | Some application \<Rightarrow> authorize (app_resource application) (context_user request) (rz_permission request))"

text \<open>\<open>UserInformation\<close>: the roles of a user, and the request that asks for a user.\<close>

fun user_roles :: "user_information \<Rightarrow> string list" where
  "user_roles (Authenticated d) = ud_roles d"
| "user_roles Anonymous = []"

definition user_request :: "user_information \<Rightarrow> string \<Rightarrow> permission \<Rightarrow> authorization_request" where
  "user_request user application permission =
     \<lparr>rz_application = application, rz_permission = permission, rz_user_id = user_id user, rz_roles = user_roles user\<rparr>"

section \<open>Who may\<close>

definition may_access :: "registry \<Rightarrow> string \<Rightarrow> user_information \<Rightarrow> permission \<Rightarrow> bool" where
  "may_access db app user p \<longleftrightarrow> (\<exists>row \<in> set (r_applications db). ar_NAME row = app \<and> may (app_resource (app_from_row row)) user p)"

lemma context_user_request: "user_id user \<noteq> Some [] \<Longrightarrow> context_user (user_request user app p) = user"
  by (cases user) (auto simp: context_user_def user_request_def)

lemma user_authorize_may:
  assumes "reg_inv db" and "user_id user \<noteq> Some []"
  shows "user_authorize collate (user_request user app p) db = Allow \<longleftrightarrow> may_access db app user p"
proof -
  have pk: "pk ar_NAME (r_applications db)" using assms(1) by (simp add: reg_inv_defs)
  have rq: "rz_application (user_request user app p) = app" "rz_permission (user_request user app p) = p"
    by (simp_all add: user_request_def)
  have "may_access db app user p \<longleftrightarrow> (\<exists>row. lookup_row ar_NAME app (r_applications db) = Some row \<and> may (app_resource (app_from_row row)) user p)"
    unfolding may_access_def lookup_row_pk[OF pk] by blast
  then show ?thesis
    by (auto simp: user_authorize_def rq app_get_eq[OF pk] context_user_request[OF assms(2)] authorize_may split: option.splits)
qed

end
