(* ===== verification/Event_Stream.thy ===== *)
theory Event_Stream
  imports Event_Sender
begin

text \<open>
  The stream of events that the integrations read from Kafka
  (\<open>event-common/src/stream\<close>, \<open>integration-common/src/stream\<close>): the settings of the consumer,
  the repair of the data of an event, and the frames of server-sent events.

  Parameters: the Kafka consumer as the sequence of what it yields, the cloud event binding,
  and the JSON and UTF-8 codecs.
\<close>

section \<open>Settings of the consumer\<close>

record kafka_client_config =
  kc_bootstrap_servers :: string
  kc_properties :: "string smap"

record kafka_config =
  kf_client :: kafka_client_config
  kf_topic :: string

text \<open>\<open>KafkaConfigExt::kafka_target\<close> of an application; it does not fail.\<close>

definition kafka_target :: "(string \<Rightarrow> string) \<Rightarrow> kafka_event_type \<Rightarrow> kafka_client_config \<Rightarrow> api_application \<Rightarrow> kafka_config" where
  "kafka_target md5 event_type default_kafka app = \<lparr>kf_client = default_kafka, kf_topic = make_topic md5 event_type (pa_name app)\<rparr>"

record event_stream_config =
  ec_kafka :: kafka_config
  ec_consumer_group :: "string option"

datatype ack_mode = AutoAck | CustomAck

definition set_property :: "string \<Rightarrow> string \<Rightarrow> string smap \<Rightarrow> string smap" where
  "set_property k v config = AList.update k v config"

definition replace_char :: "char \<Rightarrow> char \<Rightarrow> string \<Rightarrow> string" where
  "replace_char a b s = map (\<lambda>c. if c = a then b else c) s"

definition new_config :: "event_stream_config \<Rightarrow> string smap" where
  "new_config cfg =
     (let config = fold (\<lambda>(k, v). set_property k v)
            [(''bootstrap.servers'', kc_bootstrap_servers (kf_client (ec_kafka cfg))), (''enable.partition.eof'', ''false''),
             (''session.timeout.ms'', ''6000''), (''auto.commit.interval.ms'', ''5000''), (''enable.auto.commit'', ''true'')] []
      in fold (\<lambda>(k, v). set_property (replace_char (CHR ''_'') (CHR ''.'') k) v) (kc_properties (kf_client (ec_kafka cfg))) config)"

definition configure :: "ack_mode \<Rightarrow> string smap \<Rightarrow> string smap" where
  "configure ack config = set_property ''enable.auto.offset.store'' (case ack of AutoAck \<Rightarrow> ''true'' | CustomAck \<Rightarrow> ''false'') config"

definition new_with_group :: "ack_mode \<Rightarrow> event_stream_config \<Rightarrow> string \<Rightarrow> string smap \<times> string" where
  "new_with_group ack cfg group_id =
     (configure ack (set_property ''group.id'' group_id (new_config cfg)), kf_topic (ec_kafka cfg))"

definition stream_new :: "ack_mode \<Rightarrow> string \<Rightarrow> event_stream_config \<Rightarrow> string smap \<times> string" where
  "stream_new ack uuid cfg =
     (case ec_consumer_group cfg of
        Some consumer_group \<Rightarrow> new_with_group ack cfg consumer_group
      | None \<Rightarrow> new_with_group ack cfg (''anonymous.'' @ uuid))"

section \<open>Data of an event\<close>

datatype declared_content_type = DeclJson | DeclString | DeclOther

definition is_json_content_type :: "string \<Rightarrow> bool" where
  "is_json_content_type ct \<longleftrightarrow> starts_with ct ''application/json'' \<or> starts_with ct ''text/json'' \<or> ends_with ct ''+json''"

definition is_text_content_type :: "string \<Rightarrow> bool" where
  "is_text_content_type ct \<longleftrightarrow> starts_with ct ''text/plain''"

definition detect :: "string option \<Rightarrow> declared_content_type" where
  "detect content_type =
     (case content_type of
        Some ct \<Rightarrow> if is_json_content_type ct then DeclJson else if is_text_content_type ct then DeclString else DeclOther
      | None \<Rightarrow> DeclOther)"

record 'm stream_env =
  st_to_event :: "'m \<Rightarrow> string + data_event"
  st_json :: "string \<Rightarrow> json option"
  st_json_text :: "json \<Rightarrow> string"
  st_utf8 :: "string \<Rightarrow> bool"
  st_event_json :: "data_event \<Rightarrow> string + string"

fun make_json :: "'m stream_env \<Rightarrow> ce_data \<Rightarrow> ce_data" where
  "make_json env (DString s) = (case st_json env s of Some j \<Rightarrow> DJson j | None \<Rightarrow> DString s)"
| "make_json env (DBinary b) = (case st_json env b of Some j \<Rightarrow> DJson j | None \<Rightarrow> DBinary b)"
| "make_json env (DJson j) = DJson j"

fun make_string :: "'m stream_env \<Rightarrow> ce_data \<Rightarrow> ce_data" where
  "make_string env (DJson j) = DString (st_json_text env j)"
| "make_string env (DBinary b) = (if st_utf8 env b then DString b else DBinary b)"
| "make_string env (DString s) = DString s"

text \<open>The content type, the schema and the data are taken out of the event and set again.\<close>

definition take_data :: "data_event \<Rightarrow> (string option \<times> string option \<times> ce_data option) \<times> data_event" where
  "take_data e = ((de_datacontenttype e, de_dataschema e, ce_payload e),
     e\<lparr>de_datacontenttype := None, de_dataschema := None, ce_payload := None\<rparr>)"

definition fixup_data_type :: "'m stream_env \<Rightarrow> data_event \<Rightarrow> data_event" where
  "fixup_data_type env event =
     (case (case (detect (de_datacontenttype event), ce_payload event) of
              (DeclString, Some (DString _)) \<Rightarrow> None
            | (DeclJson, Some (DJson _)) \<Rightarrow> None
            | (DeclOther, _) \<Rightarrow> None
            | (_, None) \<Rightarrow> None
            | (DeclJson, Some _) \<Rightarrow> Some (make_json env)
            | (DeclString, Some _) \<Rightarrow> Some (make_string env)) of
        None \<Rightarrow> event
      | Some converter \<Rightarrow>
          let (taken, event) = take_data event;
              (content_type, schema_type, data) =
                (case taken of
                   (Some content_type, schema_type, Some data) \<Rightarrow> (Some content_type, schema_type, Some (converter data))
                 | data \<Rightarrow> data);
              event = (case data of Some data \<Rightarrow> event\<lparr>ce_payload := Some data\<rparr> | None \<Rightarrow> event)
          in event\<lparr>de_datacontenttype := content_type, de_dataschema := schema_type\<rparr>)"

section \<open>Reading\<close>

datatype stream_error = StreamKafka string | StreamMissingMetadata | StreamCloudEvent string

text \<open>What \<open>poll_next\<close> gives for an item of the consumer; with \<open>CustomAck\<close> the message is kept.\<close>

definition stream_item :: "'m stream_env \<Rightarrow> string + 'm \<Rightarrow> stream_error + data_event \<times> 'm" where
  "stream_item env item =
     (case item of
        Inl e \<Rightarrow> Inl (StreamKafka e)
      | Inr msg \<Rightarrow>
          (case st_to_event env msg of
             Inl e \<Rightarrow> Inl (StreamCloudEvent e)
           | Inr event \<Rightarrow> Inr (fixup_data_type env event, msg)))"

definition make_frame :: "string \<Rightarrow> string" where
  "make_frame event = ''data: '' @ event @ [CHR 0x0A, CHR 0x0A]"

text \<open>\<open>map_to_sse\<close>: each item becomes a frame or an error of the stream.\<close>

definition sse_item :: "'m stream_env \<Rightarrow> string + 'm \<Rightarrow> unit + string" where
  "sse_item env item =
     (case stream_item env item of
        Inl _ \<Rightarrow> Inl ()
      | Inr (event, _) \<Rightarrow>
          (case st_event_json env event of Inl _ \<Rightarrow> Inl () | Inr text \<Rightarrow> Inr (make_frame text)))"

definition map_to_sse :: "'m stream_env \<Rightarrow> (string + 'm) list \<Rightarrow> (unit + string) list" where
  "map_to_sse env = map (sse_item env)"

section \<open>Properties\<close>

definition fix_data :: "'m stream_env \<Rightarrow> string option \<Rightarrow> ce_data \<Rightarrow> ce_data" where
  "fix_data env ct d = (case detect ct of DeclJson \<Rightarrow> make_json env d | DeclString \<Rightarrow> make_string env d | DeclOther \<Rightarrow> d)"

lemma fixup_eq: "fixup_data_type env e = e\<lparr>ce_payload := map_option (fix_data env (de_datacontenttype e)) (ce_payload e)\<rparr>"
proof (cases "ce_payload e")
  case None
  then show ?thesis by (simp add: fixup_data_type_def split: declared_content_type.splits)
next
  case (Some d)
  then show ?thesis
    by (cases "de_datacontenttype e"; cases "detect (de_datacontenttype e)"; cases d)
      (auto simp: fixup_data_type_def fix_data_def take_data_def detect_def)
qed

lemma fixup_other [simp]:
  "de_datacontenttype (fixup_data_type env e) = de_datacontenttype e" "ce_extensions (fixup_data_type env e) = ce_extensions e"
  "ce_subject (fixup_data_type env e) = ce_subject e"
  by (simp_all add: fixup_eq)

lemma fix_data_idem: "fix_data env ct (fix_data env ct d) = fix_data env ct d"
  by (cases "detect ct"; cases d) (auto simp: fix_data_def split: option.splits)

lemma fixup_idem: "fixup_data_type env (fixup_data_type env e) = fixup_data_type env e"
  by (simp add: fixup_eq option.map_comp comp_def fix_data_idem)

text \<open>The bytes that Kafka carries.\<close>

fun wire_bytes :: "'m stream_env \<Rightarrow> ce_data \<Rightarrow> string" where
  "wire_bytes env (DJson v) = st_json_text env v"
| "wire_bytes env (DBinary b) = b"
| "wire_bytes env (DString s) = s"

definition carried :: "'m stream_env \<Rightarrow> data_event \<Rightarrow> data_event" where
  "carried env e = e\<lparr>ce_payload := map_option (\<lambda>d. DBinary (wire_bytes env d)) (ce_payload e)\<rparr>"

lemma publish_data_cases:
  assumes "publish_data sn ct body = Some (t, d)"
  shows "(t = ''application/json'' \<and> (\<exists>v. d = DJson v)) \<or> (\<not> is_json t \<and> d = DBinary body)"
proof -
  have "\<not> is_json ''application/octet-stream''" by code_simp
  then show ?thesis using assms by (auto simp: publish_data_def split: option.splits if_splits)
qed

text \<open>
  C37. An event reaches the integrations as it was published: whatever the sender makes of
  the body of a message, an event read from the stream has the same attributes and
  extensions and the same data, a JSON value again if it was one; only text is turned from
  bytes into a text.  Reading does not depend on how often the data is repaired.
\<close>

theorem event_stream_roundtrip:
  assumes "publish_data sn ct body = Some data" and "e = publish_event sn new_id now pub data"
    and "st_to_event env msg = Inr (carried env e)" and "\<And>v. snd data = DJson v \<Longrightarrow> st_json env (st_json_text env v) = Some v"
  shows "\<exists>e'. stream_item env (Inr msg) = Inr (e', msg) \<and> e' = e\<lparr>ce_payload := ce_payload e'\<rparr>
     \<and> ce_payload e' = Some (if is_text_content_type (fst data) \<and> st_utf8 env body then DString body else snd data)
     \<and> fixup_data_type env e' = e'"
proof -
  obtain t d where data: "data = (t, d)" by (cases data)
  have ev: "de_datacontenttype e = Some t" "ce_payload e = Some d"
    using assms(2) by (simp_all add: publish_event_def data Let_def)
  have json: "is_json t = is_json_content_type t" by (simp add: is_json_def is_json_content_type_def)
  have "fix_data env (Some t) (DBinary (wire_bytes env d)) = (if is_text_content_type t \<and> st_utf8 env body then DString body else d)"
    using publish_data_cases[OF assms(1)[unfolded data]]
  proof
    assume "t = ''application/json'' \<and> (\<exists>v. d = DJson v)"
    moreover have "is_json_content_type ''application/json''" "\<not> is_text_content_type ''application/json''" by code_simp+
    ultimately show ?thesis using assms(4) by (auto simp: fix_data_def detect_def data)
  next
    assume "\<not> is_json t \<and> d = DBinary body"
    then show ?thesis using json by (auto simp: fix_data_def detect_def)
  qed
  then have "fixup_data_type env (carried env e) = e\<lparr>ce_payload := Some (if is_text_content_type t \<and> st_utf8 env body then DString body else d)\<rparr>"
    by (simp add: fixup_eq carried_def ev)
  then show ?thesis using assms(3) fixup_idem[of env "carried env e"] by (simp add: stream_item_def data)
qed

fun json_as_text :: "json \<Rightarrow> string" where
  "json_as_text (String t) = t"
| "json_as_text _ = []"

definition demo_stream :: "data_event stream_env" where
  "demo_stream = \<lparr>st_to_event = (\<lambda>m. Inr m), st_json = (\<lambda>s. Some (String s)), st_json_text = json_as_text, st_utf8 = (\<lambda>_. True),
     st_event_json = (\<lambda>e. Inr (ce_id e))\<rparr>"

theorem event_stream_roundtrip_witness:
  "\<exists>e'. stream_item demo_stream (Inr (carried demo_stream (publish_event demo_sender ''1'' 0 (demo_publish ''d'') (''application/json'', DJson (String ''x''))))) =
       Inr (e', carried demo_stream (publish_event demo_sender ''1'' 0 (demo_publish ''d'') (''application/json'', DJson (String ''x''))))
     \<and> ce_payload e' = Some (DJson (String ''x''))"
proof -
  let ?sn = "demo_sender\<lparr>sn_json := (\<lambda>s. Some (String s))\<rparr>"
  have data: "publish_data ?sn (Some ''text/json'') ''x'' = Some (''application/json'', DJson (String ''x''))" by code_simp
  have ev: "publish_event ?sn = publish_event demo_sender" by (intro ext) (simp add: publish_event_def publish_extensions_def id_extensions_def partition_key_def)
  have plain: "\<not> is_text_content_type ''application/json''" by code_simp
  have reads: "st_json demo_stream (st_json_text demo_stream v) = Some v" if "snd (''application/json'', DJson (String ''x'')) = DJson v" for v
    using that by (auto simp: demo_stream_def)
  have msg: "st_to_event demo_stream m = Inr m" for m by (simp add: demo_stream_def)
  from event_stream_roundtrip[OF data refl msg reads, of "''1''" 0 "demo_publish ''d''"] plain show ?thesis unfolding ev by auto
qed

end
