(* ===== verification/Mqtt_Integration.thy ===== *)
theory Mqtt_Integration
  imports User_Auth Event_Stream Command_Service Mqtt_Common
begin

text \<open>
  The MQTT integration (\<open>mqtt-integration/src/service\<close>): applications connect as MQTT clients,
  subscribe to the events of an application and send commands by publishing.

  Parameters: the OpenID authenticator, the clients of the user authorization service and
  of the registry, and whether a Kafka consumer can be created.  A subscription runs as a
  task; \<open>iw_tasks\<close> are the tasks that run.
\<close>

section \<open>Streams\<close>

datatype stream_qos = StreamAtLeastOnce | StreamAtMostOnce

datatype stream_mode = StreamBinary | StreamStructured

record event_task =
  tk_topic :: string
  tk_qos :: stream_qos
  tk_sub_id :: "nat option"
  tk_config :: event_stream_config
  tk_mode :: stream_mode

record delivery_message =
  dm_topic :: string
  dm_payload :: string
  dm_content_type :: "string option"
  dm_utf8 :: "bool option"
  dm_sub_ids :: "nat list option"
  dm_user_properties :: "(string \<times> string) list"

text \<open>The attributes and extensions of an event, as they are listed.\<close>

record 'm sink_env =
  sk_stream :: "'m stream_env"
  sk_attributes :: "data_event \<Rightarrow> (string \<times> string) list"
  sk_send :: "nat \<Rightarrow> bool"
  sk_ack :: "'m \<Rightarrow> bool"

definition plain_message :: "string \<Rightarrow> string \<Rightarrow> delivery_message" where
  "plain_message topic payload = \<lparr>dm_topic = topic, dm_payload = payload, dm_content_type = None, dm_utf8 = None, dm_sub_ids = None, dm_user_properties = []\<rparr>"

definition message_v3 :: "'m sink_env \<Rightarrow> event_task \<Rightarrow> data_event \<Rightarrow> string + delivery_message" where
  "message_v3 env tsk event = rbind (st_event_json (sk_stream env) event) (\<lambda>text. Inr (plain_message (tk_topic tsk) text))"

definition message_v5_structured :: "'m sink_env \<Rightarrow> event_task \<Rightarrow> data_event \<Rightarrow> string + delivery_message" where
  "message_v5_structured env tsk event =
     rbind (st_event_json (sk_stream env) event) (\<lambda>text.
       Inr ((plain_message (tk_topic tsk) text)\<lparr>dm_content_type := Some ''application/cloudevents+json; charset=utf-8'',
         dm_utf8 := Some True, dm_sub_ids := map_option (\<lambda>i. [i]) (tk_sub_id tsk)\<rparr>))"

definition message_v5_binary :: "'m sink_env \<Rightarrow> event_task \<Rightarrow> data_event \<Rightarrow> string + delivery_message" where
  "message_v5_binary env tsk event =
     (let ((content_type, _, data), event) = take_data event;
          payload = (case data of
            Some (DBinary b) \<Rightarrow> b | Some (DString s) \<Rightarrow> s | Some (DJson j) \<Rightarrow> st_json_text (sk_stream env) j | None \<Rightarrow> [])
      in Inr ((plain_message (tk_topic tsk) payload)\<lparr>dm_user_properties := sk_attributes env event, dm_content_type := content_type,
           dm_sub_ids := map_option (\<lambda>i. [i]) (tk_sub_id tsk)\<rparr>))"

definition message_for :: "'m sink_env \<Rightarrow> mqtt_version \<Rightarrow> event_task \<Rightarrow> data_event \<Rightarrow> string + delivery_message" where
  "message_for env v tsk event =
     (case (v, tk_mode tsk) of
        (V3, _) \<Rightarrow> message_v3 env tsk event
      | (V5, StreamStructured) \<Rightarrow> message_v5_structured env tsk event
      | (V5, StreamBinary) \<Rightarrow> message_v5_binary env tsk event)"

text \<open>What a task has done: the messages it sent and the records whose offset it stored.\<close>

record 'm task_log =
  tl_sent :: "delivery_message list"
  tl_acked :: "'m list"

text \<open>
  The loop of \<open>run_v3\<close>, \<open>run_v5_structured\<close> and \<open>run_v5_binary\<close>.  The result is the error that ends it,
  after which the connection is closed, or that the stream has ended.
\<close>

fun run_task ::
  "'m sink_env \<Rightarrow> mqtt_version \<Rightarrow> event_task \<Rightarrow> (string + 'm) list \<Rightarrow> 'm task_log \<Rightarrow> (unit + unit) \<times> 'm task_log" where
  "run_task env v tsk [] log = (Inr (), log)"
| "run_task env v tsk (item # items) log =
     (case stream_item (sk_stream env) item of
        Inl _ \<Rightarrow> (Inl (), log)
      | Inr (event, msg) \<Rightarrow>
          (case message_for env v tsk event of
             Inl _ \<Rightarrow> (Inl (), log)
           | Inr m \<Rightarrow>
               if \<not> sk_send env (length (tl_sent log)) then (Inl (), log)
               else let log = log\<lparr>tl_sent := tl_sent log @ [m]\<rparr> in
                 if \<not> sk_ack env msg then (Inl (), log)
                 else run_task env v tsk items (log\<lparr>tl_acked := tl_acked log @ [msg]\<rparr>)))"

section \<open>Sessions\<close>

record integration_env =
  iv_kafka :: kafka_client_config
  iv_authorize :: "(authorization_request \<Rightarrow> string + outcome) option"
  iv_authenticate_token :: "string \<Rightarrow> string \<Rightarrow> string + user_details option"
  iv_authenticator :: "(string \<Rightarrow> string + user_details) option"
  iv_utf8 :: "string \<Rightarrow> string option"
  iv_get_app :: "string \<Rightarrow> unit + api_application option"
  iv_get_device_and_gateways :: "string \<Rightarrow> string \<Rightarrow> unit + (api_device \<times> api_device list) option"
  iv_stream_ok :: "event_stream_config \<Rightarrow> bool"
  iv_command :: command_env
  iv_sender :: sender_env
  iv_sink :: sink
  iv_ids :: "nat \<Rightarrow> string"
  iv_now :: timestamp

record integration_session =
  is_client_id :: string
  is_user :: user_information
  is_streams :: "(string \<times> nat) list"
  is_token :: "string option"

record integration_world =
  iw_tasks :: "(nat \<times> event_task) list"
  iw_next :: nat
  iw_sender :: sender_state

type_synonym int_state = "integration_session \<times> integration_world"

definition int_authorize :: "integration_env \<Rightarrow> user_information \<Rightarrow> string \<Rightarrow> permission \<Rightarrow> bool" where
  "int_authorize env user application permission =
     (case iv_authorize env of
        None \<Rightarrow> True
      | Some f \<Rightarrow> f (user_request user application permission) = Inr Allow)"

definition attach_stream :: "event_task \<Rightarrow> int_state \<Rightarrow> int_state" where
  "attach_stream tsk st =
     (let (se, w) = st in
      (se\<lparr>is_streams := AList.update (tk_topic tsk) (iw_next w) (is_streams se)\<rparr>,
       w\<lparr>iw_tasks := iw_tasks w @ [(iw_next w, tsk)], iw_next := Suc (iw_next w)\<rparr>))"

definition abort_task :: "nat \<Rightarrow> integration_world \<Rightarrow> integration_world" where
  "abort_task i w = w\<lparr>iw_tasks := filter (\<lambda>t. fst t \<noteq> i) (iw_tasks w)\<rparr>"

definition detach :: "string \<Rightarrow> int_state \<Rightarrow> bool \<times> int_state" where
  "detach topic st =
     (let (se, w) = st in
      case map_of (is_streams se) topic of
        Some i \<Rightarrow> (True, se\<lparr>is_streams := AList.delete topic (is_streams se)\<rparr>, abort_task i w)
      | None \<Rightarrow> (False, st))"

definition split_share :: "string \<Rightarrow> string list \<Rightarrow> string option \<times> string list" where
  "split_share client_id topic =
     (case topic of
        s # group_id # rest \<Rightarrow>
          if s = ''$share'' \<or> s = ''$shared'' then (Some group_id, rest)
          else (if client_id = [] then None else Some client_id, topic)
      | _ \<Rightarrow> (if client_id = [] then None else Some client_id, topic))"

definition topic_app :: "string list \<Rightarrow> sub_ack + string" where
  "topic_app topic =
     (case topic of
        [] \<Rightarrow> Inl SubNotAuthorized
      | [p, application] \<Rightarrow> if p \<in> {''a'', ''app'', ''application''} then Inr application else Inl SubTopicFilterInvalid
      | _ \<Rightarrow> Inl SubTopicFilterInvalid)"

definition events_topic :: "integration_env \<Rightarrow> api_application \<Rightarrow> string" where
  "events_topic env app = kafka_topic (iv_sender env) Downstream app"

definition subscribe_config ::
  "integration_env \<Rightarrow> user_information \<Rightarrow> string option \<Rightarrow> string list \<Rightarrow> sub_ack + event_stream_config" where
  "subscribe_config env user group_id topic =
     (if ''+'' \<in> set topic \<or> ''#'' \<in> set topic then Inl SubWildcardNotSupported
      else rbind (topic_app topic) (\<lambda>app.
        if \<not> int_authorize env user app PermRead then Inl SubNotAuthorized
        else case iv_get_app env app of
          Inr (Some app_res) \<Rightarrow>
            let config = \<lparr>ec_kafka = \<lparr>kf_client = iv_kafka env, kf_topic = events_topic env app_res\<rparr>,
                  ec_consumer_group = map_option (\<lambda>s. app @ ''.'' @ s) group_id\<rparr>
            in if iv_stream_ok env config then Inr config else Inl SubUnspecifiedError
        | _ \<Rightarrow> Inl SubUnspecifiedError))"

definition subscribe_to ::
  "integration_env \<Rightarrow> nat option \<Rightarrow> string \<Rightarrow> qos \<Rightarrow> stream_mode \<Rightarrow> int_state \<Rightarrow> (sub_ack + qos) \<times> int_state" where
  "subscribe_to env sub_id original_topic qs stream_mode st =
     (let (group_id, topic) = split_share (is_client_id (fst st)) (split_on (CHR ''/'') original_topic);
          sqos = (case qs of AtMostOnce \<Rightarrow> StreamAtMostOnce | _ \<Rightarrow> StreamAtLeastOnce)
      in case subscribe_config env (is_user (fst st)) group_id topic of
        Inl e \<Rightarrow> (Inl e, st)
      | Inr config \<Rightarrow>
          (Inr (case sqos of StreamAtMostOnce \<Rightarrow> AtMostOnce | StreamAtLeastOnce \<Rightarrow> AtLeastOnce),
           attach_stream \<lparr>tk_topic = join ''/'' topic, tk_qos = sqos, tk_sub_id = sub_id, tk_config = config, tk_mode = stream_mode\<rparr> st))"

fun int_subscribe_all ::
  "integration_env \<Rightarrow> nat option \<Rightarrow> stream_mode \<Rightarrow> (string \<times> qos) list \<Rightarrow> int_state \<Rightarrow> sub_ack list \<times> int_state" where
  "int_subscribe_all env sub_id stream_mode [] st = ([], st)"
| "int_subscribe_all env sub_id stream_mode ((topic, qs) # rest) st =
     (let (r, st) = subscribe_to env sub_id topic qs stream_mode st;
          (acks, st) = int_subscribe_all env sub_id stream_mode rest st
      in ((case r of Inr q \<Rightarrow> SubConfirmed q | Inl reason \<Rightarrow> reason) # acks, st))"

definition content_mode_of :: "mqtt_version \<Rightarrow> subscribe_packet \<Rightarrow> stream_mode option" where
  "content_mode_of v p =
     (case (case v of V3 \<Rightarrow> None | V5 \<Rightarrow> map_of (sp_user_properties p) ''content-mode'') of
        None \<Rightarrow> Some StreamStructured
      | Some m \<Rightarrow> if m = ''structured'' then Some StreamStructured else if m = ''binary'' then Some StreamBinary else None)"

definition int_subscribe ::
  "integration_env \<Rightarrow> mqtt_version \<Rightarrow> subscribe_packet \<Rightarrow> int_state \<Rightarrow> ((server_error + sub_ack list) \<times> int_state) option" where
  "int_subscribe env v p st =
     Some (case content_mode_of v p of
        None \<Rightarrow> (Inl ServerUnsupportedOperation, st)
      | Some mode \<Rightarrow> let (acks, st) = int_subscribe_all env (packet_subscription_id v p) mode (sp_topics p) st in (Inr acks, st))"

fun int_unsubscribe_all :: "string list \<Rightarrow> int_state \<Rightarrow> unsub_ack list \<times> int_state" where
  "int_unsubscribe_all [] st = ([], st)"
| "int_unsubscribe_all (topic # topics) st =
     (let (ok, st) = detach topic st; (acks, st) = int_unsubscribe_all topics st
      in ((if ok then UnsubSuccess else NoSubscriptionExisted) # acks, st))"

definition int_unsubscribe :: "string list \<Rightarrow> int_state \<Rightarrow> ((server_error + unsub_ack list) \<times> int_state) option" where
  "int_unsubscribe topics st = (let (acks, st) = int_unsubscribe_all topics st in Some (Inr acks, st))"

definition eq_ignore_ascii_case :: "string \<Rightarrow> string \<Rightarrow> bool" where
  "eq_ignore_ascii_case a b \<longleftrightarrow> map to_lowercase a = map to_lowercase b"

definition int_publish ::
  "integration_env \<Rightarrow> mqtt_version \<Rightarrow> publish_packet \<Rightarrow> int_state \<Rightarrow> ((mqtt_publish_error + unit) \<times> int_state) option" where
  "int_publish env v p st =
     Some (case split_on (CHR ''/'') (pp_topic p) of
        [first, app, device, command] \<Rightarrow>
          if \<not> eq_ignore_ascii_case first ''command'' then (Inl PublishUnsupportedOperation, st)
          else if \<not> int_authorize env (is_user (fst st)) app PermWrite then (Inl PublishNotAuthorized, st)
          else (case (iv_get_app env app, iv_get_device_and_gateways env app device) of
                  (Inr (Some application), Inr (Some (dev, gateways))) \<Rightarrow>
                    let (status, ss) = process_command (iv_command env) (iv_sender env) (iv_sink env) (iv_ids env) (iv_now env)
                          application dev gateways \<lparr>op_application = app, op_device = device, op_command = command, op_content_type = None\<rparr>
                          (pp_payload p) (iw_sender (snd st))
                    in (Inr (), fst st, (snd st)\<lparr>iw_sender := ss\<rparr>)
                | (Inr _, Inr _) \<Rightarrow> (Inl PublishNotAuthorized, st)
                | _ \<Rightarrow> (Inl (PublishInternalError ''Error looking up registry info''), st))
      | _ \<Rightarrow> (Inl PublishUnsupportedOperation, st))"

definition int_drop :: "int_state \<Rightarrow> integration_world" where
  "int_drop st = (let (se, w) = st in fold (\<lambda>(_, i). abort_task i) (is_streams se) w)"

definition int_ops :: "integration_env \<Rightarrow> int_state session_ops" where
  "int_ops env = \<lparr>so_publish = int_publish env, so_subscribe = int_subscribe env, so_unsubscribe = int_unsubscribe,
     so_disconnect = (\<lambda>_ st. Some (Inr (), st)), so_closed = (\<lambda>_ st. Some (Inr (), st))\<rparr>"

section \<open>Connecting\<close>

definition int_authenticate ::
  "integration_env \<Rightarrow> (string \<Rightarrow> string + user_details) \<Rightarrow> string option \<Rightarrow> string option \<Rightarrow> string + user_information" where
  "int_authenticate env validate_token username password =
     (case (username, password) of
        (Some username, Some password) \<Rightarrow>
          if iv_authorize env = None then Inl ''Unknown authentication scheme''
          else (case iv_utf8 env password of
                  None \<Rightarrow> Inl ''invalid utf-8''
                | Some password \<Rightarrow>
                    rbind (iv_authenticate_token env username password) (\<lambda>out.
                      case out of Some details \<Rightarrow> Inr (Authenticated details) | None \<Rightarrow> Inl ''Authentication failed''))
      | (Some username, None) \<Rightarrow> rbind (validate_token username) (\<lambda>d. Inr (Authenticated d))
      | (None, Some password) \<Rightarrow>
          (case iv_utf8 env password of
             None \<Rightarrow> Inl ''invalid utf-8''
           | Some password \<Rightarrow> rbind (validate_token password) (\<lambda>d. Inr (Authenticated d)))
      | (None, None) \<Rightarrow> Inr Anonymous)"

definition int_connect ::
  "integration_env \<Rightarrow> bool \<Rightarrow> string option \<Rightarrow> string option \<Rightarrow> string \<Rightarrow> server_error + integration_session" where
  "int_connect env clean_session username password client_id =
     (if \<not> clean_session then Inl ServerUnsupportedOperation
      else rbind (case iv_authenticator env of
                    Some auth \<Rightarrow> (case int_authenticate env auth username password of Inl _ \<Rightarrow> Inl AuthenticationFailed | Inr u \<Rightarrow> Inr u)
                  | None \<Rightarrow> Inr Anonymous) (\<lambda>user.
        Inr \<lparr>is_client_id = client_id, is_user = user, is_streams = [], is_token = Option.bind password (iv_utf8 env)\<rparr>))"

section \<open>Tasks\<close>

definition item_message :: "'m sink_env \<Rightarrow> mqtt_version \<Rightarrow> event_task \<Rightarrow> string + 'm \<Rightarrow> delivery_message option" where
  "item_message env v tsk item =
     (case stream_item (sk_stream env) item of
        Inl _ \<Rightarrow> None
      | Inr (event, _) \<Rightarrow> (case message_for env v tsk event of Inl _ \<Rightarrow> None | Inr m \<Rightarrow> Some m))"

lemma stream_item_msg: "stream_item env item = Inr (e, msg) \<Longrightarrow> item = Inr msg"
  by (auto simp: stream_item_def split: sum.splits)

lemma run_task_log:
  assumes "run_task env v tsk items log = (r, log')"
  shows "\<exists>n k. n \<le> k \<and> k \<le> Suc n \<and> k \<le> length items \<and> map Inr (tl_acked log') = map Inr (tl_acked log) @ take n items
     \<and> map Some (tl_sent log') = map Some (tl_sent log) @ map (item_message env v tsk) (take k items)
     \<and> (r = Inr () \<longrightarrow> n = length items) \<and> (r = Inl () \<longrightarrow> n < length items)"
  using assms
proof (induction items arbitrary: log)
  case Nil
  then show ?case by auto
next
  case (Cons item items)
  have stop: ?case if "r = Inl ()" "log' = log" using that by (auto intro!: exI[of _ 0])
  show ?case
  proof (cases "item_message env v tsk item")
    case None
    then have "r = Inl () \<and> log' = log" using Cons.prems by (auto simp: item_message_def split: sum.splits prod.splits)
    then show ?thesis using stop by blast
  next
    case (Some m)
    then obtain e msg where e: "stream_item (sk_stream env) item = Inr (e, msg)" "message_for env v tsk e = Inr m"
      by (auto simp: item_message_def split: sum.splits prod.splits)
    have msg: "item = Inr msg" by (rule stream_item_msg[OF e(1)])
    consider (refused) "\<not> sk_send env (length (tl_sent log))" | (unacked) "sk_send env (length (tl_sent log))" "\<not> sk_ack env msg"
      | (acked) "sk_send env (length (tl_sent log))" "sk_ack env msg" by blast
    then show ?thesis
    proof cases
      case refused
      then show ?thesis using Cons.prems e stop by simp
    next
      case unacked
      then have "r = Inl ()" "log' = log\<lparr>tl_sent := tl_sent log @ [m]\<rparr>" using Cons.prems e by simp_all
      then show ?thesis using Some by (intro exI[of _ 0] exI[of _ 1]) simp
    next
      case acked
      let ?log = "log\<lparr>tl_sent := tl_sent log @ [m], tl_acked := tl_acked log @ [msg]\<rparr>"
      have "run_task env v tsk items ?log = (r, log')" using Cons.prems e acked by simp
      from Cons.IH[OF this] obtain n k where nk: "n \<le> k" "k \<le> Suc n" "k \<le> length items"
        "map Inr (tl_acked log') = map Inr (tl_acked ?log) @ take n items"
        "map Some (tl_sent log') = map Some (tl_sent ?log) @ map (item_message env v tsk) (take k items)"
        "r = Inr () \<longrightarrow> n = length items" "r = Inl () \<longrightarrow> n < length items" by blast
      then show ?thesis using Some msg by (intro exI[of _ "Suc n"] exI[of _ "Suc k"]) simp
    qed
  qed
qed

section \<open>Access\<close>

text \<open>A stream of an application that the user was allowed to read.\<close>

definition readable_task :: "integration_env \<Rightarrow> user_information \<Rightarrow> event_task \<Rightarrow> bool" where
  "readable_task env u t \<longleftrightarrow> (\<exists>app app_res. iv_get_app env app = Inr (Some app_res) \<and> int_authorize env u app PermRead
     \<and> kf_topic (ec_kafka (tk_config t)) = events_topic env app_res)"

definition int_good :: "integration_env \<Rightarrow> user_information \<Rightarrow> (nat \<times> event_task) set \<Rightarrow> int_state \<Rightarrow> bool" where
  "int_good env u old st \<longleftrightarrow> is_user (fst st) = u \<and> (\<forall>(i, t) \<in> set (iw_tasks (snd st)). (i, t) \<in> old \<or> readable_task env u t)"

lemma subscribe_config_readable:
  assumes "subscribe_config env user group_id topic = Inr (tk_config t)"
  shows "readable_task env user t"
  using assms
  by (auto simp: subscribe_config_def Let_def readable_task_def result_simps split: if_splits sum.splits option.splits)
    (metis event_stream_config.select_convs(1) kafka_config.select_convs(2))

lemma subscribe_to_cases:
  assumes "subscribe_to env sub_id topic qs mode st = (r, st')"
  obtains (refused) e where "r = Inl e" "st' = st"
  | (attached) q t where "r = Inr q" "st' = attach_stream t st" "readable_task env (is_user (fst st)) t"
      "tk_topic t = join ''/'' (snd (split_share (is_client_id (fst st)) (split_on (CHR ''/'') topic)))"
proof -
  obtain g ts where g: "split_share (is_client_id (fst st)) (split_on (CHR ''/'') topic) = (g, ts)" by fastforce
  show thesis
  proof (cases "subscribe_config env (is_user (fst st)) g ts")
    case (Inl e)
    then show thesis using assms by (intro refused[of e]) (simp_all add: subscribe_to_def g Let_def)
  next
    case (Inr config)
    then show thesis
      using assms attached subscribe_config_readable[of env "is_user (fst st)" g ts] by (auto simp: subscribe_to_def g Let_def)
  qed
qed

lemma attach_good:
  assumes "int_good env u old st" and "readable_task env u t"
  shows "int_good env u old (attach_stream t st)"
  using assms by (cases st) (auto simp: int_good_def attach_stream_def)

lemma subscribe_to_good:
  assumes "int_good env u old st" and "subscribe_to env sub_id topic qs mode st = (r, st')"
  shows "int_good env u old st'"
  using assms(2)
proof (cases rule: subscribe_to_cases)
  case (attached q t)
  then show ?thesis using attach_good[OF assms(1)] assms(1) by (simp add: int_good_def)
qed (use assms(1) in simp)

lemma int_subscribe_all_good:
  "int_good env u old st \<Longrightarrow> int_good env u old (snd (int_subscribe_all env sub_id mode xs st))"
proof (induction xs arbitrary: st)
  case (Cons s xs)
  obtain topic qs where s: "s = (topic, qs)" by (cases s)
  obtain r st1 where r: "subscribe_to env sub_id topic qs mode st = (r, st1)" by (cases "subscribe_to env sub_id topic qs mode st")
  from Cons.IH[OF subscribe_to_good[OF Cons.prems r]] show ?case by (auto simp: s r Let_def split: prod.splits)
qed simp

lemma detach_good: "int_good env u old st \<Longrightarrow> int_good env u old (snd (detach topic st))"
  by (cases st) (auto simp: int_good_def detach_def abort_task_def split: option.splits)

lemma int_unsubscribe_all_good: "int_good env u old st \<Longrightarrow> int_good env u old (snd (int_unsubscribe_all topics st))"
proof (induction topics arbitrary: st)
  case (Cons t ts)
  obtain ok st1 where d: "detach t st = (ok, st1)" by (cases "detach t st")
  from Cons.IH[of st1] detach_good[OF Cons.prems, of t] show ?case by (auto simp: d Let_def split: prod.splits)
qed simp

lemma int_publish_cases:
  assumes "int_publish env v p (se, w) = Some (r, se', w')"
  obtains (refused) e where "r = Inl e" "se' = se" "w' = w"
  | (sent) first app device command application dev gateways status ss where "r = Inr ()" "se' = se" "w' = w\<lparr>iw_sender := ss\<rparr>"
      "split_on (CHR ''/'') (pp_topic p) = [first, app, device, command]" "int_authorize env (is_user se) app PermWrite"
      "iv_get_app env app = Inr (Some application)" "iv_get_device_and_gateways env app device = Inr (Some (dev, gateways))"
      "process_command (iv_command env) (iv_sender env) (iv_sink env) (iv_ids env) (iv_now env) application dev gateways
         \<lparr>op_application = app, op_device = device, op_command = command, op_content_type = None\<rparr> (pp_payload p) (iw_sender w) = (status, ss)"
proof (cases "\<exists>e. r = Inl e")
  case True
  then have "se' = se" "w' = w" using assms
    by (auto simp: int_publish_def Let_def split: list.splits if_splits sum.splits option.splits prod.splits)
  then show thesis using refused True by blast
next
  case False
  then show thesis
    using assms sent
    by (auto simp: int_publish_def Let_def split: list.splits if_splits sum.splits option.splits prod.splits)
qed

interpretation readable: session_contract "int_ops env" "int_good env u old" for env u old
proof (unfold_locales, goal_cases)
  case (1 s v p r1 s')
  have "int_publish env v p (fst s, snd s) = Some (r1, fst s', snd s')" using 1(2) by (simp add: int_ops_def)
  then show ?case by (cases rule: int_publish_cases) (use 1(1) in \<open>auto simp: int_good_def\<close>)
next
  case (2 s v sp r2 s')
  then show ?case
    using int_subscribe_all_good[of env u old s "packet_subscription_id v sp" _ "sp_topics sp"]
    by (auto simp: int_ops_def int_subscribe_def Let_def split: option.splits prod.splits) (metis snd_conv)
next
  case (3 s ts r3 s')
  then show ?case
    using int_unsubscribe_all_good[of env u old s ts] by (auto simp: int_ops_def int_unsubscribe_def Let_def split: prod.splits)
qed (auto simp: int_ops_def)

lemma drop_tasks: "iw_tasks (fold (\<lambda>(_, i). abort_task i) xs w) = filter (\<lambda>t. fst t \<notin> snd ` set xs) (iw_tasks w)"
  by (induction xs arbitrary: w) (auto simp: abort_task_def conj_commute)

text \<open>
  A shared subscription is remembered by the topic without the group, but unsubscribing uses the
  whole topic: it is answered as if there was no subscription, and the stream goes on.
\<close>

lemma shared_unsubscribe_fails:
  assumes "is_streams se = []" and "split_on (CHR ''/'') topic = ''$share'' # g # rest"
    and "subscribe_to env sub_id topic qs mode (se, w) = (Inr q, st1)"
  shows "detach topic st1 = (False, st1)"
proof -
  obtain t where t: "st1 = attach_stream t (se, w)" "tk_topic t = join ''/'' rest"
    using assms(3) by (cases rule: subscribe_to_cases) (auto simp: assms(2) split_share_def)
  have "topic = join ''/'' (''$share'' # g # rest)" using join_split_on[of "CHR ''/''" topic] unfolding assms(2) by simp
  then have "length (join ''/'' rest) < length topic" by (cases rest) auto
  then have "tk_topic t \<noteq> topic" using t(2) by auto
  then show ?thesis using t(1) assms(1) by (simp add: detach_def attach_stream_def)
qed

section \<open>Properties\<close>

text \<open>What is relied on: the user service answers by the registry, the registry client gives the application of the name.\<close>

definition asks_registry :: "integration_env \<Rightarrow> (string \<Rightarrow> nat) \<Rightarrow> registry \<Rightarrow> bool" where
  "asks_registry env collate db \<longleftrightarrow> (\<exists>f. iv_authorize env = Some f \<and> (\<forall>rq out. f rq = Inr out \<longrightarrow> out = user_authorize collate rq db))
     \<and> (\<forall>app a. iv_get_app env app = Inr (Some a) \<longrightarrow> pa_name a = app)"

lemma int_authorize_may:
  assumes "reg_inv db" and "asks_registry env collate db" and "user_id u \<noteq> Some []" and "int_authorize env u app p"
  shows "may_access db app u p"
proof -
  have "user_authorize collate (user_request u app p) db = Allow"
    using assms(2,4) by (auto simp: asks_registry_def int_authorize_def)
  then show ?thesis using user_authorize_may[OF assms(1,3)] by simp
qed


definition demo_db :: registry where
  "demo_db = m_reg (demo_state (Some ''x''))"

definition demo_integration :: integration_env where
  "demo_integration = \<lparr>iv_kafka = \<lparr>kc_bootstrap_servers = ''k'', kc_properties = []\<rparr>,
     iv_authorize = Some (\<lambda>rq. Inr (user_authorize (\<lambda>_. 0) rq demo_db)), iv_authenticate_token = (\<lambda>_ _. Inr None), iv_authenticator = None,
     iv_utf8 = Some, iv_get_app = (\<lambda>n. Inr (Some ((pb_application (demo_publish ''d''))\<lparr>pa_name := n\<rparr>))),
     iv_get_device_and_gateways = (\<lambda>_ d. Inr (Some (demo_device d, []))), iv_stream_ok = (\<lambda>_. True), iv_command = demo_command_env,
     iv_sender = demo_sender, iv_sink = KafkaSink False, iv_ids = nat_str, iv_now = 0\<rparr>"

definition demo_client_session :: "string \<Rightarrow> integration_session" where
  "demo_client_session u = \<lparr>is_client_id = ''c'', is_user = demo_user u, is_streams = [], is_token = None\<rparr>"

definition demo_int_world :: integration_world where
  "demo_int_world = \<lparr>iw_tasks = [], iw_next = 0, iw_sender = demo_sender_state\<rparr>"

lemma demo_asks: "reg_inv demo_db" "asks_registry demo_integration (\<lambda>_. 0) demo_db"
  by (simp_all add: demo_db_def demo_reg_inv asks_registry_def demo_integration_def)

lemma demo_client_user: "user_id (is_user (demo_client_session ''x'')) \<noteq> Some []"
  by (simp add: demo_client_session_def demo_user_def)


text \<open>
  A command is sent by the MQTT integration only for an application that the registry
  lets the user write, to the device that the topic names; any other message changes
  nothing and is refused.  A message is acknowledged whatever became of the command, also if
  the command was rejected.
\<close>

theorem integration_commands_writable:
  assumes "reg_inv db" and "asks_registry env collate db" and "user_id (is_user se) \<noteq> Some []"
    and "int_publish env v p (se, w) = Some (r, se', w')"
  shows "case r of
      Inl e \<Rightarrow> se' = se \<and> w' = w
    | Inr _ \<Rightarrow> \<exists>first app device command application dev gateways.
        split_on (CHR ''/'') (pp_topic p) = [first, app, device, command] \<and> may_access db app (is_user se) PermWrite
        \<and> pa_name application = app \<and> iv_get_device_and_gateways env app device = Inr (Some (dev, gateways)) \<and> se' = se
        \<and> w' = w\<lparr>iw_sender := snd (process_command (iv_command env) (iv_sender env) (iv_sink env) (iv_ids env) (iv_now env) application dev gateways
             \<lparr>op_application = app, op_device = device, op_command = command, op_content_type = None\<rparr> (pp_payload p) (iw_sender w))\<rparr>"
  using assms(4)
proof (cases rule: int_publish_cases)
  case (sent first app device command application dev gateways status ss)
  have "may_access db app (is_user se) PermWrite" by (rule int_authorize_may[OF assms(1-3) sent(5)])
  moreover have "pa_name application = app" using assms(2) sent(6) by (auto simp: asks_registry_def)
  moreover have "ss = snd (process_command (iv_command env) (iv_sender env) (iv_sink env) (iv_ids env) (iv_now env) application dev gateways
       \<lparr>op_application = app, op_device = device, op_command = command, op_content_type = None\<rparr> (pp_payload p) (iw_sender w))"
    by (simp add: sent(8))
  ultimately show ?thesis using sent(2-4,7) unfolding sent(1) sum.case by blast
qed simp

theorem integration_commands_writable_witness:
  "\<exists>w app. int_publish demo_integration V3 \<lparr>pp_topic = ''command/a/d/on'', pp_payload = ''x'', pp_content_type = None, pp_user_properties = []\<rparr>
       (demo_client_session ''x'', demo_int_world) = Some (Inr (), demo_client_session ''x'', w)
     \<and> may_access demo_db app (demo_user ''x'') PermWrite"
proof -
  let ?p = "\<lparr>pp_topic = ''command/a/d/on'', pp_payload = ''x'', pp_content_type = None, pp_user_properties = []\<rparr>"
  let ?run = "int_publish demo_integration V3 ?p (demo_client_session ''x'', demo_int_world)"
  have "(case ?run of Some (Inr _, _) \<Rightarrow> True | _ \<Rightarrow> False)" by code_simp
  then obtain se w where run: "?run = Some (Inr (), se, w)" by (auto split: option.splits sum.splits prod.splits)
  from integration_commands_writable[OF demo_asks demo_client_user run] run show ?thesis by (auto simp: demo_client_session_def)
qed

text \<open>
  C18. A subscription delivers at least once: the records whose offset was stored are an
  initial part of the stream, each of them was sent to the client before, in order and
  without gaps; at most the last message that was sent is not stored.  As long as nothing
  fails, all are sent and stored.
\<close>

theorem integration_at_least_once:
  assumes "run_task env v tsk items \<lparr>tl_sent = [], tl_acked = []\<rparr> = (r, log)"
  shows "\<exists>n k. n \<le> k \<and> k \<le> Suc n \<and> k \<le> length items \<and> map Inr (tl_acked log) = take n items
     \<and> map Some (tl_sent log) = map (item_message env v tsk) (take k items)
     \<and> (r = Inr () \<longrightarrow> n = length items) \<and> (r = Inl () \<longrightarrow> n < length items)"
  using run_task_log[OF assms] by simp

definition demo_task :: event_task where
  "demo_task = \<lparr>tk_topic = ''app/a'', tk_qos = StreamAtLeastOnce, tk_sub_id = None,
     tk_config = \<lparr>ec_kafka = \<lparr>kf_client = \<lparr>kc_bootstrap_servers = ''k'', kc_properties = []\<rparr>, kf_topic = ''t''\<rparr>, ec_consumer_group = None\<rparr>,
     tk_mode = StreamStructured\<rparr>"

theorem integration_at_least_once_witness:
  "\<exists>n k r log. run_task \<lparr>sk_stream = demo_stream, sk_attributes = \<lambda>_. [], sk_send = \<lambda>n. n < 2, sk_ack = \<lambda>_. True\<rparr> V3 demo_task
       [Inr demo_event, Inr demo_event, Inr demo_event] \<lparr>tl_sent = [], tl_acked = []\<rparr> = (r, log)
     \<and> n \<le> k \<and> length (tl_acked log) = n \<and> length (tl_sent log) = k \<and> k = 2"
proof -
  let ?env = "\<lparr>sk_stream = demo_stream, sk_attributes = \<lambda>_. [], sk_send = \<lambda>n. n < 2, sk_ack = \<lambda>_. True\<rparr>"
  let ?items = "[Inr demo_event, Inr demo_event, Inr demo_event] :: (string + data_event) list"
  obtain r log where run: "run_task ?env V3 demo_task ?items \<lparr>tl_sent = [], tl_acked = []\<rparr> = (r, log)" by fastforce
  have "length (tl_sent (snd (run_task ?env V3 demo_task ?items \<lparr>tl_sent = [], tl_acked = []\<rparr>))) = 2" by code_simp
  then have len: "length (tl_sent log) = 2" by (simp only: run snd_conv)
  from integration_at_least_once[OF run] obtain n k where nk: "n \<le> k" "k \<le> length ?items" "map Inr (tl_acked log) = take n ?items"
    "map Some (tl_sent log) = map (item_message ?env V3 demo_task) (take k ?items)" by blast
  have "length (map Inr (tl_acked log) :: (string + data_event) list) = n" "length (map Some (tl_sent log)) = k"
    using nk by (simp_all only: nk(3,4) length_map length_take)
  then show ?thesis using run len nk(1) by auto
qed

text \<open>
  C39. Subscribing twice to the same topic leaks a stream: the handle of the first task is
  replaced without ending the task, and neither unsubscribing nor the end of the session
  reaches it.
\<close>

theorem integration_resubscribe_leaks:
  assumes "distinct (map fst (is_streams se))" and "\<forall>(k, i) \<in> set (is_streams se). i < iw_next w"
    and "subscribe_to env sub_id topic qs mode (se, w) = (Inr q1, st1)" and "subscribe_to env sub_id topic qs mode st1 = (Inr q2, st2)"
  shows "\<exists>t. (iw_next w, t) \<in> set (iw_tasks (snd st1))
     \<and> (iw_next w, t) \<in> set (iw_tasks (snd (snd (detach topic' st2)))) \<and> (iw_next w, t) \<in> set (iw_tasks (int_drop (snd (detach topic' st2))))"
proof -
  let ?key = "join ''/'' (snd (split_share (is_client_id se) (split_on (CHR ''/'') topic)))"
  obtain t1 where t1: "st1 = attach_stream t1 (se, w)" "tk_topic t1 = ?key"
    using assms(3) by (cases rule: subscribe_to_cases) auto
  obtain t2 where t2: "st2 = attach_stream t2 st1" "tk_topic t2 = ?key"
    using assms(4) by (cases rule: subscribe_to_cases) (auto simp: t1(1) attach_stream_def)
  have st2: "is_streams (fst st2) = AList.update ?key (Suc (iw_next w)) (AList.update ?key (iw_next w) (is_streams se))"
    "iw_tasks (snd st2) = iw_tasks w @ [(iw_next w, t1), (Suc (iw_next w), t2)]"
    by (simp_all add: t2 t1 attach_stream_def)
  have "distinct (map fst (is_streams (fst st2)))" unfolding st2(1) by (intro distinct_update assms(1))
  then have keys: "i \<noteq> iw_next w" if "(k, i) \<in> set (is_streams (fst st2))" for k i
    using map_of_is_SomeI[OF _ that] assms(2) by (auto simp: st2(1) update_conv' split: if_splits dest: map_of_SomeD)
  have "(iw_next w, t1) \<in> set (iw_tasks (snd (snd (detach topic' st2))))"
    using keys st2(2) by (cases st2) (auto simp: detach_def abort_task_def split: option.splits dest: map_of_SomeD)
  moreover have "set (is_streams (fst (snd (detach topic' st2)))) \<subseteq> set (is_streams (fst st2))"
    by (cases st2) (auto simp: detach_def AList.delete_eq split: option.splits)
  ultimately have "(iw_next w, t1) \<in> set (iw_tasks (int_drop (snd (detach topic' st2))))"
    using keys by (cases "snd (detach topic' st2)") (force simp: int_drop_def drop_tasks)
  then show ?thesis
    using \<open>(iw_next w, t1) \<in> set (iw_tasks (snd (snd (detach topic' st2))))\<close> by (auto simp: t1(1) attach_stream_def)
qed

theorem integration_resubscribe_leaks_witness:
  "\<exists>q1 st1 q2 st2 t. subscribe_to demo_integration None ''app/a'' AtMostOnce StreamBinary (demo_client_session ''x'', demo_int_world) = (Inr q1, st1)
     \<and> subscribe_to demo_integration None ''app/a'' AtMostOnce StreamBinary st1 = (Inr q2, st2)
     \<and> (0, t) \<in> set (iw_tasks (int_drop (snd (detach ''app/a'' st2))))"
proof -
  let ?s = "subscribe_to demo_integration None ''app/a'' AtMostOnce StreamBinary"
  have "(case ?s (demo_client_session ''x'', demo_int_world) of (Inr _, st1) \<Rightarrow> (case ?s st1 of (Inr _, _) \<Rightarrow> True | _ \<Rightarrow> False) | _ \<Rightarrow> False)"
    by code_simp
  then obtain q1 st1 q2 st2 where s: "?s (demo_client_session ''x'', demo_int_world) = (Inr q1, st1)" "?s st1 = (Inr q2, st2)"
    by (cases "?s (demo_client_session ''x'', demo_int_world)"; cases "?s (snd (?s (demo_client_session ''x'', demo_int_world)))")
      (auto split: sum.splits)
  have "\<exists>t. (0, t) \<in> set (iw_tasks (int_drop (snd (detach ''app/a'' st2))))"
    using integration_resubscribe_leaks[OF _ _ s, of "''app/a''"] by (auto simp: demo_client_session_def demo_int_world_def)
  then show ?thesis using s by blast
qed

end
