(* ===== verification/Websocket_Integration.thy ===== *)
theory Websocket_Integration
  imports User_Auth Event_Stream
begin

text \<open>
  The websocket integration (\<open>websocket-integration/src\<close>): an actor for each connection
  (\<open>wshandler/mod.rs\<close>) and one service actor that runs their event streams (\<open>service.rs\<close>).  Actors
  have mailboxes; the system of all actors is a step relation over their states and
  mailboxes.

  Parameters: the OpenID authenticator, the client of the user authorization service and the
  JSON codecs.  Times are nanoseconds.
\<close>

section \<open>Handlers\<close>

definition seconds :: "int \<Rightarrow> int" where
  "seconds n = n * 1000000000"

definition AUTH_CHECK_INTERVAL :: int where
  "AUTH_CHECK_INTERVAL = seconds 90"

definition HEARTBEAT_INTERVAL :: int where
  "HEARTBEAT_INTERVAL = seconds 5"

definition CLIENT_TIMEOUT :: int where
  "CLIENT_TIMEOUT = seconds 10"

datatype close_code = CodePolicy | CodeProtocol | CodeError | CodeOther nat

datatype ws_frame =
    FramePing
  | FramePong string
  | FrameText string
  | FrameClose "(close_code \<times> string option) option"

datatype ws_message =
    WsPing string
  | WsPong
  | WsBinary string
  | WsText string
  | WsClose "(close_code \<times> string option) option"
  | WsContinuation
  | WsNop
  | WsProtocolError

text \<open>The only message of the protocol is the one with a new token.\<close>

record ws_env =
  we_validate :: "timestamp \<Rightarrow> string \<Rightarrow> string + user_details \<times> int"
  we_authorize :: "authorization_request \<Rightarrow> string + outcome"
  we_parse :: "string \<Rightarrow> string + string"
  we_event_json :: "data_event \<Rightarrow> string option"

record ws_handler =
  wh_application :: string
  wh_group_id :: "string option"
  wh_channel :: "string option"
  wh_heartbeat :: timestamp
  wh_auth_expiration :: "timestamp option"
  wh_auth_context :: bool

datatype auth_outcome = AuthAllow timestamp | AuthDeny

definition ws_validate_token :: "ws_env \<Rightarrow> timestamp \<Rightarrow> string \<Rightarrow> string \<Rightarrow> string + auth_outcome" where
  "ws_validate_token env now application token =
     rbind (we_validate env now token) (\<lambda>(details, exp).
     rbind (we_authorize env (user_request (Authenticated details) application PermRead)) (\<lambda>out.
       Inr (case out of Allow \<Rightarrow> AuthAllow (seconds exp) | Deny \<Rightarrow> AuthDeny)))"

definition handler_new ::
  "timestamp \<Rightarrow> string \<Rightarrow> string option \<Rightarrow> string option \<Rightarrow> timestamp option \<Rightarrow> bool \<Rightarrow> bool \<Rightarrow> ws_handler" where
  "handler_new now application group_id channel auth_expiration authenticator user_auth =
     \<lparr>wh_application = application, wh_group_id = group_id, wh_channel = channel, wh_heartbeat = now,
      wh_auth_expiration = auth_expiration, wh_auth_context = (authenticator \<and> user_auth)\<rparr>"

text \<open>What a handler does: its new state, the frames it sends, whether it stops, and the tokens it sends to itself.\<close>

record ws_effect =
  wf_handler :: ws_handler
  wf_frames :: "ws_frame list"
  wf_stop :: bool
  wf_protocol :: "string list"

definition goes_on :: "ws_handler \<Rightarrow> ws_frame list \<Rightarrow> ws_effect" where
  "goes_on h fs = \<lparr>wf_handler = h, wf_frames = fs, wf_stop = False, wf_protocol = []\<rparr>"

definition stops :: "ws_handler \<Rightarrow> ws_frame list \<Rightarrow> ws_effect" where
  "stops h fs = \<lparr>wf_handler = h, wf_frames = fs, wf_stop = True, wf_protocol = []\<rparr>"

definition ws_heartbeat :: "timestamp \<Rightarrow> ws_handler \<Rightarrow> ws_effect" where
  "ws_heartbeat now h = (if now - wh_heartbeat h > CLIENT_TIMEOUT then stops h [] else goes_on h [FramePing])"

definition check_token_expiration :: "timestamp \<Rightarrow> ws_handler \<Rightarrow> ws_effect" where
  "check_token_expiration now h =
     (case wh_auth_expiration h of
        Some expiration \<Rightarrow>
          if now > expiration then stops h [FrameClose (Some (CodePolicy, Some ''JWT token expired''))] else goes_on h []
      | None \<Rightarrow> goes_on h [])"

definition handle_protocol_message :: "ws_handler \<Rightarrow> string + string \<Rightarrow> ws_effect" where
  "handle_protocol_message h r =
     (case r of
        Inr msg \<Rightarrow> (goes_on h [])\<lparr>wf_protocol := [msg]\<rparr>
      | Inl err \<Rightarrow> stops h [FrameClose (Some (CodeProtocol, Some err))])"

fun handle_ws_message :: "ws_env \<Rightarrow> timestamp \<Rightarrow> ws_message \<Rightarrow> ws_handler \<Rightarrow> ws_effect" where
  "handle_ws_message env now (WsPing msg) h = goes_on (h\<lparr>wh_heartbeat := now\<rparr>) [FramePong msg]"
| "handle_ws_message env now WsPong h = goes_on (h\<lparr>wh_heartbeat := now\<rparr>) []"
| "handle_ws_message env now (WsBinary data) h = handle_protocol_message h (we_parse env data)"
| "handle_ws_message env now (WsText data) h = handle_protocol_message h (we_parse env data)"
| "handle_ws_message env now (WsClose reason) h = stops h [FrameClose reason]"
| "handle_ws_message env now WsContinuation h = stops h []"
| "handle_ws_message env now WsNop h = goes_on h []"
| "handle_ws_message env now WsProtocolError h = stops h []"

definition handle_event :: "ws_env \<Rightarrow> data_event \<Rightarrow> ws_handler \<Rightarrow> ws_effect" where
  "handle_event env event h =
     (if (case wh_channel h of Some channel \<Rightarrow> ce_subject event \<noteq> Some channel | None \<Rightarrow> False) then goes_on h []
      else case we_event_json env event of
        Some text \<Rightarrow> goes_on h [FrameText text]
      | None \<Rightarrow> goes_on h [])"

definition handle_stream_error :: "string \<Rightarrow> ws_handler \<Rightarrow> ws_effect" where
  "handle_stream_error err h = stops h [FrameClose (Some (CodeError, Some err))]"

definition handle_protocol :: "ws_env \<Rightarrow> timestamp \<Rightarrow> string \<Rightarrow> ws_handler \<Rightarrow> ws_effect" where
  "handle_protocol env now token h =
     (case (if wh_auth_context h then ws_validate_token env now (wh_application h) token
            else Inl ''Token authentication is not enabled'') of
        Inr (AuthAllow auth_expiration) \<Rightarrow> goes_on (h\<lparr>wh_auth_expiration := Some auth_expiration\<rparr>) []
      | Inr AuthDeny \<Rightarrow> stops h [FrameClose (Some (CodePolicy, Some ''Failed to refresh token''))]
      | Inl err \<Rightarrow> stops h [FrameClose (Some (CodeError, Some (''Failed to refresh token: '' @ err)))])"

text \<open>Everything that reaches a handler.\<close>

datatype ws_input =
    InMessage ws_message
  | InEvent data_event
  | InStreamError string
  | InProtocol string
  | InHeartbeat
  | InAuthCheck

fun handler_step :: "ws_env \<Rightarrow> timestamp \<Rightarrow> ws_input \<Rightarrow> ws_handler \<Rightarrow> ws_effect" where
  "handler_step env now (InMessage m) h = handle_ws_message env now m h"
| "handler_step env now (InEvent e) h = handle_event env e h"
| "handler_step env now (InStreamError err) h = handle_stream_error err h"
| "handler_step env now (InProtocol token) h = handle_protocol env now token h"
| "handler_step env now InHeartbeat h = ws_heartbeat now h"
| "handler_step env now InAuthCheck h = check_token_expiration now h"

section \<open>The service\<close>

record ws_stream =
  wt_application :: string
  wt_runner :: nat

datatype service_msg = SvSubscribe nat string "string option" | SvDisconnect nat | SvStreamError nat

datatype handler_msg = HmEvent data_event | HmStreamError string | HmProtocol string

record ws_system =
  sy_handlers :: "(nat \<times> ws_handler) list"
  sy_inbox :: "nat \<Rightarrow> handler_msg list"
  sy_frames :: "nat \<Rightarrow> ws_frame list"
  sy_service :: "service_msg list"
  sy_clients :: "(nat \<times> ws_stream) list"
  sy_running :: "(nat \<times> nat) list"
  sy_next_id :: nat
  sy_next_runner :: nat

definition alive :: "ws_system \<Rightarrow> nat \<Rightarrow> bool" where
  "alive s i \<longleftrightarrow> map_of (sy_handlers s) i \<noteq> None"

text \<open>\<open>get_stream\<close>: the consumer of a connection; any failure ends the future of the stream.\<close>

record stream_source =
  rs_get_app :: "string \<Rightarrow> unit + api_application option"
  rs_md5 :: "string \<Rightarrow> string"
  rs_kafka :: kafka_client_config
  rs_stream_ok :: "event_stream_config \<Rightarrow> bool"

definition ws_get_stream :: "stream_source \<Rightarrow> string \<Rightarrow> string option \<Rightarrow> string + event_stream_config" where
  "ws_get_stream src application group_id =
     (case rs_get_app src application of
        Inl _ \<Rightarrow> Inl ''Request to registry error''
      | Inr None \<Rightarrow> Inl ''Cannot find application''
      | Inr (Some app_res) \<Rightarrow>
          let config = \<lparr>ec_kafka = kafka_target (rs_md5 src) EventsType (rs_kafka src) app_res,
                ec_consumer_group = map_option (\<lambda>g. application @ ''.'' @ g) group_id\<rparr>
          in if rs_stream_ok src config then Inr config else Inl ''Failed to subscribe to Kafka topic'')"

text \<open>\<open>run_stream\<close>: the events that are sent to the handler before the stream ends or fails.\<close>

fun run_stream :: "(string + data_event) list \<Rightarrow> data_event list" where
  "run_stream [] = []"
| "run_stream (Inr event # items) = event # run_stream items"
| "run_stream (Inl err # items) = []"

definition stream_failed :: string where
  "stream_failed = ''Internal error: Stream error''"

text \<open>A message to an actor that has stopped is dropped.\<close>

definition post :: "nat \<Rightarrow> handler_msg \<Rightarrow> ws_system \<Rightarrow> ws_system" where
  "post i m s = (if alive s i then s\<lparr>sy_inbox := (sy_inbox s)(i := sy_inbox s i @ [m])\<rparr> else s)"

definition cancel_future :: "nat \<Rightarrow> ws_system \<Rightarrow> ws_system" where
  "cancel_future r s = s\<lparr>sy_running := filter (\<lambda>t. fst t \<noteq> r) (sy_running s)\<rparr>"

fun handle_service :: "service_msg \<Rightarrow> ws_system \<Rightarrow> ws_system" where
  "handle_service (SvSubscribe i application group_id) s =
     s\<lparr>sy_running := (sy_next_runner s, i) # sy_running s,
       sy_clients := AList.update i \<lparr>wt_application = application, wt_runner = sy_next_runner s\<rparr> (sy_clients s),
       sy_next_runner := Suc (sy_next_runner s)\<rparr>"
| "handle_service (SvDisconnect i) s =
     (case map_of (sy_clients s) i of
        Some st \<Rightarrow> cancel_future (wt_runner st) (s\<lparr>sy_clients := AList.delete i (sy_clients s)\<rparr>)
      | None \<Rightarrow> s)"
| "handle_service (SvStreamError i) s =
     (case map_of (sy_clients s) i of
        Some st \<Rightarrow> post i (HmStreamError stream_failed) (cancel_future (wt_runner st) (s\<lparr>sy_clients := AList.delete i (sy_clients s)\<rparr>))
      | None \<Rightarrow> s)"

section \<open>The system\<close>

text \<open>A new connection: the actor is started and subscribes.\<close>

definition start_websocket :: "ws_handler \<Rightarrow> ws_system \<Rightarrow> ws_system" where
  "start_websocket h s =
     s\<lparr>sy_handlers := (sy_next_id s, h) # sy_handlers s,
       sy_service := sy_service s @ [SvSubscribe (sy_next_id s) (wh_application h) (wh_group_id h)],
       sy_next_id := Suc (sy_next_id s)\<rparr>"

text \<open>The actor does one thing; when it stops, it tells the service.\<close>

definition run_handler :: "ws_env \<Rightarrow> timestamp \<Rightarrow> nat \<Rightarrow> ws_input \<Rightarrow> ws_handler \<Rightarrow> ws_system \<Rightarrow> ws_system" where
  "run_handler env now i inp h s =
     (let eff = handler_step env now inp h;
          s = s\<lparr>sy_frames := (sy_frames s)(i := sy_frames s i @ wf_frames eff)\<rparr>
      in if wf_stop eff
         then s\<lparr>sy_handlers := AList.delete i (sy_handlers s), sy_inbox := (sy_inbox s)(i := []),
                sy_service := sy_service s @ [SvDisconnect i]\<rparr>
         else s\<lparr>sy_handlers := AList.update i (wf_handler eff) (sy_handlers s),
                sy_inbox := (sy_inbox s)(i := sy_inbox s i @ map HmProtocol (wf_protocol eff))\<rparr>)"

fun msg_input :: "handler_msg \<Rightarrow> ws_input" where
  "msg_input (HmEvent e) = InEvent e"
| "msg_input (HmStreamError err) = InStreamError err"
| "msg_input (HmProtocol token) = InProtocol token"

text \<open>
  The future of a stream has ended: it could not be set up, it failed, it ended, or the
  handler it sends to is gone; the service then sends itself a message.
\<close>

definition stream_ended :: "nat \<Rightarrow> nat \<Rightarrow> ws_system \<Rightarrow> ws_system" where
  "stream_ended r i s = (cancel_future r s)\<lparr>sy_service := sy_service s @ [SvStreamError i]\<rparr>"

inductive ws_step :: "ws_env \<Rightarrow> ws_system \<Rightarrow> ws_system \<Rightarrow> bool" for env where
  connect: "ws_step env s (start_websocket h s)"
| service: "sy_service s = m # ms \<Longrightarrow> ws_step env s (handle_service m (s\<lparr>sy_service := ms\<rparr>))"
| client: "map_of (sy_handlers s) i = Some h \<Longrightarrow> inp = InMessage m \<or> inp = InHeartbeat \<or> inp = InAuthCheck
    \<Longrightarrow> ws_step env s (run_handler env now i inp h s)"
| receive: "map_of (sy_handlers s) i = Some h \<Longrightarrow> sy_inbox s i = m # ms
    \<Longrightarrow> ws_step env s (run_handler env now i (msg_input m) h (s\<lparr>sy_inbox := (sy_inbox s)(i := ms)\<rparr>))"
| event: "(r, i) \<in> set (sy_running s) \<Longrightarrow> alive s i \<Longrightarrow> ws_step env s (post i (HmEvent e) s)"
| ended: "(r, i) \<in> set (sy_running s) \<Longrightarrow> ws_step env s (stream_ended r i s)"

definition ws_start :: ws_system where
  "ws_start = \<lparr>sy_handlers = [], sy_inbox = (\<lambda>_. []), sy_frames = (\<lambda>_. []), sy_service = [], sy_clients = [], sy_running = [],
     sy_next_id = 0, sy_next_runner = 0\<rparr>"

definition ws_reachable :: "ws_env \<Rightarrow> ws_system \<Rightarrow> bool" where
  "ws_reachable env = (ws_step env)\<^sup>*\<^sup>* ws_start"

inductive_cases ws_stepE: "ws_step env s s'"

section \<open>One connection\<close>

text \<open>The part of the system that concerns one connection.\<close>

datatype mail_kind = KSub | KDisc | KErr

fun msg_id :: "service_msg \<Rightarrow> nat" where
  "msg_id (SvSubscribe i a g) = i"
| "msg_id (SvDisconnect i) = i"
| "msg_id (SvStreamError i) = i"

fun msg_kind :: "service_msg \<Rightarrow> mail_kind" where
  "msg_kind (SvSubscribe i a g) = KSub"
| "msg_kind (SvDisconnect i) = KDisc"
| "msg_kind (SvStreamError i) = KErr"

definition mail :: "ws_system \<Rightarrow> nat \<Rightarrow> mail_kind list" where
  "mail s i = map msg_kind (filter (\<lambda>m. msg_id m = i) (sy_service s))"

definition runner_of :: "ws_system \<Rightarrow> nat \<Rightarrow> nat option" where
  "runner_of s i = map_option wt_runner (map_of (sy_clients s) i)"

definition runs :: "ws_system \<Rightarrow> nat \<Rightarrow> nat list" where
  "runs s i = map fst (filter (\<lambda>t. snd t = i) (sy_running s))"

definition told :: "ws_system \<Rightarrow> nat \<Rightarrow> bool" where
  "told s i \<longleftrightarrow> (\<exists>err. HmStreamError err \<in> set (sy_inbox s i))"

definition conn_ok :: "bool \<Rightarrow> nat option \<Rightarrow> nat list \<Rightarrow> bool \<Rightarrow> mail_kind list \<Rightarrow> bool" where
  "conn_ok al c rs er ms \<longleftrightarrow> (\<not> al \<longrightarrow> \<not> er) \<and>
     (case c of
        None \<Rightarrow> rs = [] \<and> (if al then ms = [KSub] \<and> \<not> er \<or> ms = [] \<and> er else ms \<in> {[KSub, KDisc], [KDisc], [KErr], []})
      | Some r \<Rightarrow> \<not> er \<and> (rs = [r] \<and> ms = (if al then [] else [KDisc])
          \<or> rs = [] \<and> (if al then ms = [KErr] else ms \<in> {[KErr, KDisc], [KDisc, KErr]})))"

definition ws_inv :: "ws_system \<Rightarrow> bool" where
  "ws_inv s \<longleftrightarrow> (\<forall>i. conn_ok (alive s i) (runner_of s i) (runs s i) (told s i) (mail s i))
     \<and> (\<forall>i \<ge> sy_next_id s. \<not> alive s i \<and> runner_of s i = None \<and> mail s i = [] \<and> sy_inbox s i = [])
     \<and> (\<forall>i j r. runner_of s i = Some r \<and> runner_of s j = Some r \<longrightarrow> i = j)
     \<and> (\<forall>i r. runner_of s i = Some r \<longrightarrow> r < sy_next_runner s)"

lemma ws_invD:
  assumes "ws_inv s"
  shows "conn_ok (alive s i) (runner_of s i) (runs s i) (told s i) (mail s i)"
    "i \<ge> sy_next_id s \<Longrightarrow> \<not> alive s i \<and> runner_of s i = None \<and> mail s i = [] \<and> sy_inbox s i = []"
    "runner_of s i = Some r \<Longrightarrow> runner_of s j = Some r \<Longrightarrow> i = j" "runner_of s i = Some r \<Longrightarrow> r < sy_next_runner s"
  using assms unfolding ws_inv_def by blast+

text \<open>An update that concerns the connection \<open>i\<close> only keeps the invariant if \<open>i\<close> is still as it should be.\<close>

lemma ws_inv_local:
  assumes "ws_inv s"
    and "\<And>j. j \<noteq> i \<Longrightarrow> alive s' j = alive s j \<and> runner_of s' j = runner_of s j \<and> runs s' j = runs s j
      \<and> sy_inbox s' j = sy_inbox s j \<and> mail s' j = mail s j"
    and "conn_ok (alive s' i) (runner_of s' i) (runs s' i) (told s' i) (mail s' i)" and "i < sy_next_id s'" and "sy_next_id s \<le> sy_next_id s'"
    and "runner_of s' i = None \<or> runner_of s' i = runner_of s i \<or> runner_of s' i = Some (sy_next_runner s) \<and> sy_next_runner s' = Suc (sy_next_runner s)"
    and "sy_next_runner s \<le> sy_next_runner s'"
  shows "ws_inv s'"
proof -
  note inv = ws_invD[OF assms(1)]
  have "conn_ok (alive s' j) (runner_of s' j) (runs s' j) (told s' j) (mail s' j)" for j
    using inv(1)[of j] assms(2)[of j] assms(3) by (cases "j = i") (auto simp: told_def)
  moreover have "\<not> alive s' j \<and> runner_of s' j = None \<and> mail s' j = [] \<and> sy_inbox s' j = []" if "j \<ge> sy_next_id s'" for j
    using inv(2)[of j] assms(2)[of j] assms(4,5) that by auto
  moreover have less: "r < sy_next_runner s'" if "runner_of s' j = Some r" for j r
    using inv(4)[of j r] assms(2)[of j] assms(6,7) that by (cases "j = i") auto
  moreover have "j = k" if r: "runner_of s' j = Some r" "runner_of s' k = Some r" for j k r
  proof -
    have old: "runner_of s x = Some r \<or> x = i \<and> r = sy_next_runner s" if "runner_of s' x = Some r" for x
      using assms(2)[of x] assms(6) that by (cases "x = i") auto
    show ?thesis using old[OF r(1)] old[OF r(2)] inv(3)[of j r k] inv(4)[of _ r] by auto
  qed
  ultimately show ?thesis unfolding ws_inv_def by blast
qed

lemmas conn_defs = alive_def runner_of_def runs_def told_def mail_def

lemma connect_inv:
  assumes "ws_inv s"
  shows "ws_inv (start_websocket h s)"
proof (rule ws_inv_local[OF assms, of "sy_next_id s"])
  let ?i = "sy_next_id s"
  note new = ws_invD(2)[OF assms order_refl]
  have "runs s ?i = []" using ws_invD(1)[OF assms, of ?i] new by (simp add: conn_ok_def)
  then show "conn_ok (alive (start_websocket h s) ?i) (runner_of (start_websocket h s) ?i) (runs (start_websocket h s) ?i)
      (told (start_websocket h s) ?i) (mail (start_websocket h s) ?i)"
    using new by (simp add: conn_ok_def start_websocket_def conn_defs)
qed (auto simp: start_websocket_def conn_defs)

lemma run_handler_view:
  "runner_of (run_handler env now i inp h s) = runner_of s" "runs (run_handler env now i inp h s) = runs s"
  "sy_next_id (run_handler env now i inp h s) = sy_next_id s" "sy_next_runner (run_handler env now i inp h s) = sy_next_runner s"
  "alive (run_handler env now i inp h s) j = (if j = i then \<not> wf_stop (handler_step env now inp h) else alive s j)"
  "mail (run_handler env now i inp h s) j = mail s j @ (if j = i \<and> wf_stop (handler_step env now inp h) then [KDisc] else [])"
  "told (run_handler env now i inp h s) j = (if j = i \<and> wf_stop (handler_step env now inp h) then False else told s j)"
  "j \<noteq> i \<Longrightarrow> sy_inbox (run_handler env now i inp h s) j = sy_inbox s j"
  by (auto simp: run_handler_def Let_def conn_defs fun_eq_iff delete_conv' update_conv')

lemma run_handler_inv:
  assumes "ws_inv s" and "alive s i" and "s1 = s \<or> s1 = s\<lparr>sy_inbox := (sy_inbox s)(i := ms)\<rparr>"
    and "told s1 i = told s i \<or> wf_stop (handler_step env now inp h)"
  shows "ws_inv (run_handler env now i inp h s1)"
proof (rule ws_inv_local[OF assms(1), of i])
  have s1: "runner_of s1 = runner_of s" "runs s1 = runs s" "mail s1 = mail s" "alive s1 = alive s" "sy_next_id s1 = sy_next_id s"
      "sy_next_runner s1 = sy_next_runner s" "\<And>j. j \<noteq> i \<Longrightarrow> sy_inbox s1 j = sy_inbox s j"
    using assms(3) by (auto simp: conn_defs fun_eq_iff)
  let ?s' = "run_handler env now i inp h s1"
  note v = run_handler_view[where env = env and now = now and i = i and inp = inp and h = h and s = s1] and ok = ws_invD(1)[OF assms(1), of i]
  show "conn_ok (alive ?s' i) (runner_of ?s' i) (runs ?s' i) (told ?s' i) (mail ?s' i)"
    using ok assms(2,4) by (auto simp: v s1 conn_ok_def split: option.splits if_splits)
  show "i < sy_next_id ?s'" using ws_invD(2)[OF assms(1), of i] assms(2) by (auto simp: v s1 not_less[symmetric])
  fix j assume "j \<noteq> i"
  then show "alive ?s' j = alive s j \<and> runner_of ?s' j = runner_of s j \<and> runs ?s' j = runs s j \<and> sy_inbox ?s' j = sy_inbox s j \<and> mail ?s' j = mail s j"
    by (simp add: v s1)
qed (use assms(3) in \<open>auto simp: run_handler_view conn_defs\<close>)

lemma stream_error_stops: "wf_stop (handler_step env now (InStreamError err) h)"
  by (simp add: handle_stream_error_def stops_def)

lemma receive_inv:
  assumes "ws_inv s" and "map_of (sy_handlers s) i = Some h" and "sy_inbox s i = m # ms"
  shows "ws_inv (run_handler env now i (msg_input m) h (s\<lparr>sy_inbox := (sy_inbox s)(i := ms)\<rparr>))"
proof (rule run_handler_inv[OF assms(1), where ms = ms])
  show "alive s i" using assms(2) by (simp add: alive_def)
  show "told (s\<lparr>sy_inbox := (sy_inbox s)(i := ms)\<rparr>) i = told s i \<or> wf_stop (handler_step env now (msg_input m) h)"
    using assms(3) stream_error_stops[of env now _ h] by (cases m) (auto simp: told_def)
qed simp

lemma event_inv:
  assumes "ws_inv s" and "alive s i"
  shows "ws_inv (post i (HmEvent e) s)"
proof (rule ws_inv_local[OF assms(1), of i])
  let ?s' = "post i (HmEvent e) s"
  have v: "alive ?s' = alive s" "runner_of ?s' = runner_of s" "runs ?s' = runs s" "mail ?s' = mail s" "told ?s' i = told s i" "sy_next_id ?s' = sy_next_id s"
    using assms(2) by (auto simp: post_def conn_defs fun_eq_iff)
  show "conn_ok (alive ?s' i) (runner_of ?s' i) (runs ?s' i) (told ?s' i) (mail ?s' i)"
    using ws_invD(1)[OF assms(1), of i] by (simp add: v)
  show "i < sy_next_id ?s'" using ws_invD(2)[OF assms(1), of i] assms(2) by (auto simp: v not_less[symmetric])
qed (auto simp: post_def conn_defs)

lemma runs_cancel: "runs (cancel_future r s) j = filter (\<lambda>x. x \<noteq> r) (runs s j)"
  by (auto simp: runs_def cancel_future_def filter_map comp_def intro: filter_cong arg_cong[where f = "map fst"])

lemma runs_only:
  assumes "ws_inv s" and "runner_of s i = Some r" and "j \<noteq> i"
  shows "filter (\<lambda>x. x \<noteq> r) (runs s j) = runs s j"
proof -
  have "x \<noteq> r" if "x \<in> set (runs s j)" for x
  proof -
    have "runner_of s j = Some x" using ws_invD(1)[OF assms(1), of j] that by (auto simp: conn_ok_def split: option.splits)
    then show ?thesis using ws_invD(3)[OF assms(1), of i r j] assms(2,3) by auto
  qed
  then show ?thesis by (simp add: filter_id_conv)
qed

lemma running_runner:
  assumes "ws_inv s" and "(r, i) \<in> set (sy_running s)"
  shows "runner_of s i = Some r" "runs s i = [r]" "i < sy_next_id s"
proof -
  have "r \<in> set (runs s i)" using assms(2) by (force simp: runs_def)
  then show *: "runner_of s i = Some r" "runs s i = [r]" using ws_invD(1)[OF assms(1), of i] by (auto simp: conn_ok_def split: option.splits)
  show "i < sy_next_id s" using ws_invD(2)[OF assms(1), of i] *(1) by (auto simp: not_less[symmetric])
qed

lemma ended_inv:
  assumes "ws_inv s" and "(r, i) \<in> set (sy_running s)"
  shows "ws_inv (stream_ended r i s)"
proof (rule ws_inv_local[OF assms(1), of i])
  note r = running_runner[OF assms]
  let ?s' = "stream_ended r i s"
  have v: "alive ?s' = alive s" "runner_of ?s' = runner_of s" "told ?s' = told s" "sy_inbox ?s' = sy_inbox s" "sy_next_id ?s' = sy_next_id s"
      "\<And>j. runs ?s' j = filter (\<lambda>x. x \<noteq> r) (runs s j)" "\<And>j. mail ?s' j = mail s j @ (if j = i then [KErr] else [])"
    using runs_cancel[of r s] by (auto simp: stream_ended_def cancel_future_def conn_defs fun_eq_iff)
  show "conn_ok (alive ?s' i) (runner_of ?s' i) (runs ?s' i) (told ?s' i) (mail ?s' i)"
    using ws_invD(1)[OF assms(1), of i] r by (auto simp: v conn_ok_def)
  show "i < sy_next_id ?s'" using r(3) by (simp add: v)
  fix j assume "j \<noteq> i"
  then show "alive ?s' j = alive s j \<and> runner_of ?s' j = runner_of s j \<and> runs ?s' j = runs s j \<and> sy_inbox ?s' j = sy_inbox s j \<and> mail ?s' j = mail s j"
    using runs_only[OF assms(1) r(1)] by (simp add: v)
qed (auto simp: stream_ended_def cancel_future_def conn_defs)

lemma post_view:
  "alive (post i m s) = alive s" "runner_of (post i m s) = runner_of s" "runs (post i m s) = runs s" "mail (post i m s) = mail s"
  "sy_next_id (post i m s) = sy_next_id s" "sy_next_runner (post i m s) = sy_next_runner s" "j \<noteq> i \<Longrightarrow> sy_inbox (post i m s) j = sy_inbox s j"
  "told (post i (HmStreamError err) s) i = (told s i \<or> alive s i)"
  by (auto simp: post_def conn_defs fun_eq_iff)

text \<open>What the service does with a message changes the connection of the message only.\<close>

lemma forget_view:
  assumes "ws_inv s" and "map_of (sy_clients s) i = Some st"
    and "s' = cancel_future (wt_runner st) (s\<lparr>sy_service := ms, sy_clients := AList.delete i (sy_clients s)\<rparr>)"
  shows "alive s' = alive s" "runner_of s' j = (if j = i then None else runner_of s j)" "j \<noteq> i \<Longrightarrow> runs s' j = runs s j" "runs s' i = []"
    "sy_inbox s' = sy_inbox s" "mail s' j = map msg_kind (filter (\<lambda>m. msg_id m = j) ms)" "sy_next_id s' = sy_next_id s" "sy_next_runner s' = sy_next_runner s"
proof -
  have r: "runner_of s i = Some (wt_runner st)" using assms(2) by (simp add: runner_of_def)
  have runs: "runs s' j = filter (\<lambda>x. x \<noteq> wt_runner st) (runs s j)" for j
    using runs_cancel[of "wt_runner st" "s\<lparr>sy_service := ms, sy_clients := AList.delete i (sy_clients s)\<rparr>" j] by (simp add: assms(3) runs_def)
  show "runs s' j = runs s j" if "j \<noteq> i" using runs_only[OF assms(1) r that] by (simp add: runs)
  show "runs s' i = []" using ws_invD(1)[OF assms(1), of i] r by (auto simp: runs conn_ok_def)
qed (auto simp: assms(3) cancel_future_def conn_defs delete_conv')

lemma mail_head:
  assumes "sy_service s = m # ms"
  shows "mail s (msg_id m) = msg_kind m # map msg_kind (filter (\<lambda>x. msg_id x = msg_id m) ms)"
    "j \<noteq> msg_id m \<Longrightarrow> mail s j = map msg_kind (filter (\<lambda>x. msg_id x = j) ms)"
  by (simp_all add: mail_def assms)

lemma ws_subscribe_inv:
  assumes "ws_inv s" and "sy_service s = m # ms" and "m = SvSubscribe i a g"
  shows "ws_inv (handle_service m (s\<lparr>sy_service := ms\<rparr>))"
proof (rule ws_inv_local[OF assms(1), of i])
  let ?s' = "handle_service m (s\<lparr>sy_service := ms\<rparr>)"
  have mail: "mail s i = KSub # mail ?s' i" "\<And>j. j \<noteq> i \<Longrightarrow> mail ?s' j = mail s j"
    using mail_head[OF assms(2)] by (simp_all add: mail_def assms(3))
  have v: "alive ?s' = alive s" "runner_of ?s' i = Some (sy_next_runner s)" "runs ?s' i = sy_next_runner s # runs s i" "sy_inbox ?s' = sy_inbox s" "told ?s' = told s"
    by (auto simp: assms(3) conn_defs fun_eq_iff update_conv')
  show "conn_ok (alive ?s' i) (runner_of ?s' i) (runs ?s' i) (told ?s' i) (mail ?s' i)"
    using ws_invD(1)[OF assms(1), of i] mail(1) by (auto simp: v conn_ok_def split: option.splits if_splits)
  show "i < sy_next_id ?s'" using ws_invD(2)[OF assms(1), of i] mail(1) by (auto simp: assms(3) not_less[symmetric])
  fix j assume "j \<noteq> i"
  then show "alive ?s' j = alive s j \<and> runner_of ?s' j = runner_of s j \<and> runs ?s' j = runs s j \<and> sy_inbox ?s' j = sy_inbox s j \<and> mail ?s' j = mail s j"
    using mail(2) by (simp add: v) (simp add: assms(3) conn_defs update_conv')
qed (auto simp: assms(3) runner_of_def update_conv')

lemma skip_inv:
  assumes "ws_inv s" and "sy_service s = m # ms" and "map_of (sy_clients s) (msg_id m) = None" and "msg_kind m \<noteq> KSub"
  shows "ws_inv (s\<lparr>sy_service := ms\<rparr>)"
proof (rule ws_inv_local[OF assms(1), of "msg_id m"])
  let ?s' = "s\<lparr>sy_service := ms\<rparr>"
  have mail: "mail s (msg_id m) = msg_kind m # mail ?s' (msg_id m)" "\<And>j. j \<noteq> msg_id m \<Longrightarrow> mail ?s' j = mail s j"
    using mail_head[OF assms(2)] by (simp_all add: mail_def)
  have v: "alive ?s' = alive s" "runner_of ?s' = runner_of s" "runs ?s' = runs s" "told ?s' = told s"
    by (auto simp: conn_defs fun_eq_iff)
  have "runner_of s (msg_id m) = None" using assms(3) by (simp add: runner_of_def)
  then show "conn_ok (alive ?s' (msg_id m)) (runner_of ?s' (msg_id m)) (runs ?s' (msg_id m)) (told ?s' (msg_id m)) (mail ?s' (msg_id m))"
    using ws_invD(1)[OF assms(1), of "msg_id m"] mail(1) assms(4) by (auto simp: v conn_ok_def split: if_splits)
  show "msg_id m < sy_next_id ?s'" using ws_invD(2)[OF assms(1), of "msg_id m"] mail(1) by (auto simp: not_less[symmetric])
  fix j assume "j \<noteq> msg_id m"
  then show "alive ?s' j = alive s j \<and> runner_of ?s' j = runner_of s j \<and> runs ?s' j = runs s j \<and> sy_inbox ?s' j = sy_inbox s j \<and> mail ?s' j = mail s j"
    using mail(2) by (simp add: v)
qed (auto simp: runner_of_def)

lemma forget_inv:
  assumes "ws_inv s" and "sy_service s = m # ms" and "map_of (sy_clients s) i = Some st" and "msg_id m = i"
    and "s1 = cancel_future (wt_runner st) (s\<lparr>sy_service := ms, sy_clients := AList.delete i (sy_clients s)\<rparr>)"
    and "msg_kind m = KDisc \<and> s' = s1 \<or> msg_kind m = KErr \<and> s' = post i (HmStreamError err) s1"
  shows "ws_inv s'"
proof (rule ws_inv_local[OF assms(1), of i])
  note v = forget_view[OF assms(1,3,5)]
  have v': "alive s' = alive s" "\<And>j. runner_of s' j = (if j = i then None else runner_of s j)" "\<And>j. j \<noteq> i \<Longrightarrow> runs s' j = runs s j" "runs s' i = []"
      "\<And>j. j \<noteq> i \<Longrightarrow> sy_inbox s' j = sy_inbox s j" "sy_next_id s' = sy_next_id s" "sy_next_runner s' = sy_next_runner s"
      "\<And>j. mail s' j = map msg_kind (filter (\<lambda>m. msg_id m = j) ms)"
      "told s' i = (told s i \<or> msg_kind m = KErr \<and> alive s i)"
    using assms(6) by (auto simp: v post_view) (auto simp: told_def v(5))
  have "runner_of s i = Some (wt_runner st)" using assms(3) by (simp add: runner_of_def)
  then show "conn_ok (alive s' i) (runner_of s' i) (runs s' i) (told s' i) (mail s' i)"
    using ws_invD(1)[OF assms(1), of i] mail_head(1)[OF assms(2)] assms(4,6) by (auto simp: v' conn_ok_def split: if_splits)
  show "i < sy_next_id s'" using ws_invD(2)[OF assms(1), of i] mail_head(1)[OF assms(2)] assms(4) by (auto simp: v' not_less[symmetric])
  fix j assume "j \<noteq> i"
  then show "alive s' j = alive s j \<and> runner_of s' j = runner_of s j \<and> runs s' j = runs s j \<and> sy_inbox s' j = sy_inbox s j \<and> mail s' j = mail s j"
    using mail_head(2)[OF assms(2)] assms(4) by (simp add: v')
qed (use assms(6) forget_view[OF assms(1,3,5)] in \<open>auto simp: post_view\<close>)

lemma service_inv:
  assumes "ws_inv s" and "sy_service s = m # ms"
  shows "ws_inv (handle_service m (s\<lparr>sy_service := ms\<rparr>))"
proof (cases "\<exists>i a g. m = SvSubscribe i a g")
  case True
  then show ?thesis using ws_subscribe_inv[OF assms] by blast
next
  case False
  then have kind: "msg_kind m = KDisc \<and> m = SvDisconnect (msg_id m) \<or> msg_kind m = KErr \<and> m = SvStreamError (msg_id m)" by (cases m) auto
  show ?thesis
  proof (cases "map_of (sy_clients s) (msg_id m)")
    case None
    have "handle_service m (s\<lparr>sy_service := ms\<rparr>) = s\<lparr>sy_service := ms\<rparr>" using None kind by (cases m) auto
    then show ?thesis using skip_inv[OF assms None] kind by auto
  next
    case (Some st)
    have "handle_service m (s\<lparr>sy_service := ms\<rparr>) =
        (let s1 = cancel_future (wt_runner st) (s\<lparr>sy_service := ms, sy_clients := AList.delete (msg_id m) (sy_clients s)\<rparr>)
         in if msg_kind m = KErr then post (msg_id m) (HmStreamError stream_failed) s1 else s1)"
      using Some kind by (cases m) (auto simp: Let_def)
    then show ?thesis using kind by (intro forget_inv[OF assms Some refl refl]) (auto simp: Let_def)
  qed
qed

lemma ws_step_inv: "ws_step env s s' \<Longrightarrow> ws_inv s \<Longrightarrow> ws_inv s'"
proof (induction rule: ws_step.induct)
  case (client s i h inp m now)
  then show ?case using run_handler_inv[of s i s "[]" env now inp h] by (auto simp: alive_def)
qed (auto intro: connect_inv service_inv receive_inv event_inv ended_inv)

lemma ws_start_inv: "ws_inv ws_start"
  by (auto simp: ws_inv_def ws_start_def conn_defs conn_ok_def)

lemma ws_reachable_inv: "ws_reachable env s \<Longrightarrow> ws_inv s"
  unfolding ws_reachable_def by (induction rule: rtranclp_induct) (auto intro: ws_start_inv ws_step_inv)

text \<open>
  C19. When the service has worked off its messages, the event streams that run are
  exactly those of open connections: a running stream belongs to a connection that is open,
  no connection has two of them, and a connection that is open has a stream or a pending error message that closes
  it.  So no connection is left silent, and no stream is left behind by a closed one.
\<close>

theorem websocket_streams_match:
  assumes "ws_reachable env s" and "sy_service s = []"
  shows "\<forall>i. if alive s i
      then (\<exists>r. filter (\<lambda>t. snd t = i) (sy_running s) = [(r, i)]) \<or> (\<exists>err. HmStreamError err \<in> set (sy_inbox s i))
      else filter (\<lambda>t. snd t = i) (sy_running s) = []"
proof
  fix i
  have ok: "conn_ok (alive s i) (runner_of s i) (runs s i) (told s i) []"
    using ws_invD(1)[OF ws_reachable_inv[OF assms(1)], of i] assms(2) by (simp add: mail_def)
  have "map (\<lambda>r. (r, i)) (map fst (filter (\<lambda>t. snd t = i) ts)) = filter (\<lambda>t. snd t = i) ts" for ts :: "(nat \<times> nat) list"
    by (induction ts) auto
  then have own: "filter (\<lambda>t. snd t = i) (sy_running s) = map (\<lambda>r. (r, i)) (runs s i)" by (simp add: runs_def)
  show "if alive s i
      then (\<exists>r. filter (\<lambda>t. snd t = i) (sy_running s) = [(r, i)]) \<or> (\<exists>err. HmStreamError err \<in> set (sy_inbox s i))
      else filter (\<lambda>t. snd t = i) (sy_running s) = []"
    using ok by (auto simp: own conn_ok_def told_def split: option.splits)
qed

definition demo_handler :: ws_handler where
  "demo_handler = handler_new 0 ''app1'' None None (Some (seconds 60)) True True"

definition demo_ws_env :: ws_env where
  "demo_ws_env = \<lparr>we_validate = (\<lambda>now tok. if now \<le> seconds 600 then Inr (\<lparr>ud_user_id = ''u'', ud_roles = []\<rparr>, 600) else Inl ''expired''),
     we_authorize = (\<lambda>_. Inr Allow), we_parse = Inr, we_event_json = (\<lambda>_. Some ''{}'')\<rparr>"

definition demo_ws_open :: ws_system where
  "demo_ws_open = handle_service (SvSubscribe 0 ''app1'' None) ((start_websocket demo_handler ws_start)\<lparr>sy_service := []\<rparr>)"

theorem websocket_streams_match_witness:
  "filter (\<lambda>t. snd t = 0) (sy_running demo_ws_open) = [(0, 0)] \<and> filter (\<lambda>t. snd t = 1) (sy_running demo_ws_open) = []"
proof -
  have "sy_service (start_websocket demo_handler ws_start) = [SvSubscribe 0 ''app1'' None]"
    by (simp add: start_websocket_def ws_start_def demo_handler_def handler_new_def)
  then have "ws_reachable demo_ws_env demo_ws_open"
    unfolding ws_reachable_def demo_ws_open_def
    by (intro rtranclp.rtrancl_into_rtrancl[OF r_into_rtranclp[of "ws_step demo_ws_env", OF ws_step.connect]]) (rule ws_step.service)
  moreover have state: "sy_service demo_ws_open = []" "alive demo_ws_open 0" "\<not> alive demo_ws_open 1" "sy_inbox demo_ws_open 0 = []"
      "sy_running demo_ws_open = [(0, 0)]"
    by (simp_all add: demo_ws_open_def start_websocket_def ws_start_def alive_def)
  ultimately have "\<forall>i. if alive demo_ws_open i
      then (\<exists>r. filter (\<lambda>t. snd t = i) (sy_running demo_ws_open) = [(r, i)]) \<or> (\<exists>err. HmStreamError err \<in> set (sy_inbox demo_ws_open i))
      else filter (\<lambda>t. snd t = i) (sy_running demo_ws_open) = []" by (intro websocket_streams_match)
  from this[THEN spec, of 0] this[THEN spec, of 1] show ?thesis by (simp add: state)
qed

section \<open>Tokens that expire\<close>

text \<open>
  What a handler sends over a sequence of timed inputs, each frame with its time and the
  handler that sent it; and that the check of the token is run in its interval.
\<close>

fun ws_run :: "ws_env \<Rightarrow> (timestamp \<times> ws_input) list \<Rightarrow> ws_handler \<Rightarrow> (timestamp \<times> ws_handler \<times> ws_frame) list" where
  "ws_run env [] h = []"
| "ws_run env ((t, inp) # rest) h =
     (let eff = handler_step env t inp h
      in map (\<lambda>f. (t, h, f)) (wf_frames eff) @ (if wf_stop eff then [] else ws_run env rest (wf_handler eff)))"

fun timely :: "timestamp \<Rightarrow> (timestamp \<times> ws_input) list \<Rightarrow> bool" where
  "timely since [] = True"
| "timely since ((t, inp) # rest) \<longleftrightarrow> since \<le> t \<and> t \<le> since + AUTH_CHECK_INTERVAL
     \<and> timely (case inp of InAuthCheck \<Rightarrow> t | _ \<Rightarrow> since) rest"

lemma handler_step_expiration:
  assumes "\<not> wf_stop (handler_step env t inp h)" and "wh_auth_expiration h = Some e" and "since \<le> e" and "since \<le> t"
    and "\<forall>now tok d exp. we_validate env now tok = Inr (d, exp) \<longrightarrow> now \<le> seconds exp"
  shows "\<exists>e'. wh_auth_expiration (wf_handler (handler_step env t inp h)) = Some e' \<and> (case inp of InAuthCheck \<Rightarrow> t | _ \<Rightarrow> since) \<le> e'"
proof (cases inp)
  case (InMessage m)
  then show ?thesis using assms(2,3) by (cases m) (auto simp: goes_on_def stops_def handle_protocol_message_def split: sum.splits)
next
  case (InProtocol tok)
  have "t \<le> x" if "ws_validate_token env t (wh_application h) tok = Inr (AuthAllow x)" for x
    using that assms(5) by (auto simp: ws_validate_token_def result_simps split: sum.splits prod.splits outcome.splits) (metis outcome.exhaust)
  then show ?thesis using assms(1,4) InProtocol
    by (fastforce simp: handle_protocol_def goes_on_def stops_def split: sum.splits auth_outcome.splits if_splits)
next
  case InAuthCheck
  then show ?thesis using assms(1,2) by (auto simp: check_token_expiration_def goes_on_def stops_def split: if_splits)
qed (use assms(2,3) in \<open>auto simp: goes_on_def stops_def handle_event_def handle_stream_error_def ws_heartbeat_def split: option.splits\<close>)

text \<open>
  C20. A websocket connection that was opened with a token that expires gets no event later
  than one interval of the check after the expiration of the token that is in force then: of
  the first one, or of the since one the client sent and the service accepted.  This holds for every sequence of inputs
  in which the check runs in time, given that the authenticator accepts no token that has expired.
\<close>

theorem websocket_token_bounds_delivery:
  assumes "wh_auth_expiration h = Some e" and "start \<le> e" and "timely start inputs"
    and "\<forall>now tok d exp. we_validate env now tok = Inr (d, exp) \<longrightarrow> now \<le> seconds exp"
    and "(t, h', FrameText x) \<in> set (ws_run env inputs h)"
  shows "\<exists>e'. wh_auth_expiration h' = Some e' \<and> t \<le> e' + AUTH_CHECK_INTERVAL"
  using assms(1-3,5)
proof (induction inputs arbitrary: h e start)
  case (Cons i rest)
  obtain u inp where i: "i = (u, inp)" by force
  let ?eff = "handler_step env u inp h"
  from Cons.prems(4) consider (now) "t = u" "h' = h" "FrameText x \<in> set (wf_frames ?eff)"
    | (later) "\<not> wf_stop ?eff" "(t, h', FrameText x) \<in> set (ws_run env rest (wf_handler ?eff))"
    by (auto simp: i Let_def split: if_splits)
  then show ?case
  proof cases
    case now
    then show ?thesis using Cons.prems(1-3) by (auto simp: i)
  next
    case later
    have time: "start \<le> u" "timely (case inp of InAuthCheck \<Rightarrow> u | _ \<Rightarrow> start) rest" using Cons.prems(3) by (simp_all add: i)
    obtain e' where "wh_auth_expiration (wf_handler ?eff) = Some e'" "(case inp of InAuthCheck \<Rightarrow> u | _ \<Rightarrow> start) \<le> e'"
      using handler_step_expiration[OF later(1) Cons.prems(1,2) time(1) assms(4)] by blast
    then show ?thesis using Cons.IH[OF _ _ time(2) later(2)] by blast
  qed
qed simp

definition demo_inputs :: "(timestamp \<times> ws_input) list" where
  "demo_inputs = [(seconds 10, InEvent demo_event), (seconds 50, InProtocol ''token''), (seconds 80, InAuthCheck), (seconds 100, InEvent demo_event)]"

theorem websocket_token_bounds_delivery_witness:
  "\<exists>h' e'. (seconds 100, h', FrameText ''{}'') \<in> set (ws_run demo_ws_env demo_inputs demo_handler)
       \<and> wh_auth_expiration h' = Some e' \<and> seconds 100 \<le> e' + AUTH_CHECK_INTERVAL"
proof -
  let ?h = "demo_handler\<lparr>wh_auth_expiration := Some (seconds 600)\<rparr>"
  have sent: "(seconds 100, ?h, FrameText ''{}'') \<in> set (ws_run demo_ws_env demo_inputs demo_handler)"
    by (simp add: demo_inputs_def demo_ws_env_def demo_handler_def handler_new_def handle_event_def goes_on_def handle_protocol_def
        ws_validate_token_def check_token_expiration_def seconds_def result_simps)
  have "\<exists>e'. wh_auth_expiration ?h = Some e' \<and> seconds 100 \<le> e' + AUTH_CHECK_INTERVAL"
  proof (rule websocket_token_bounds_delivery[OF _ _ _ _ sent, where start = 0])
    show "wh_auth_expiration demo_handler = Some (seconds 60)" by (simp add: demo_handler_def handler_new_def)
    show "timely 0 demo_inputs" by (simp add: demo_inputs_def AUTH_CHECK_INTERVAL_def seconds_def)
    show "\<forall>now tok d x. we_validate demo_ws_env now tok = Inr (d, x) \<longrightarrow> now \<le> seconds x"
      by (auto simp: demo_ws_env_def split: if_splits)
  qed (simp add: seconds_def)
  then show ?thesis using sent by blast
qed

end
