(* ===== verification/Reconciler.thy ===== *)
theory Reconciler
  imports Controller
begin

text \<open>
  The reconciler of the operators (\<open>operator-common/src/controller/reconciler\<close>): the decision
  what to do with a resource, the steps of an operator with their progress conditions, the
  readiness of a resource, and its finalizer.  The steps act on the world \<open>'s\<close> of the
  external services of the operator.

  Parameters: the steps, and the conditions and sections of a resource (types of the client
  library).
\<close>

section \<open>Steps with effects\<close>

text \<open>A step that may fail and acts on a world; the next step runs if it did not fail.\<close>

fun io_bind :: "('e + 'a) \<times> 's \<Rightarrow> ('a \<Rightarrow> 's \<Rightarrow> ('e + 'b) \<times> 's) \<Rightarrow> ('e + 'b) \<times> 's" where
  "io_bind (Inl e, s) f = (Inl e, s)"
| "io_bind (Inr a, s) f = f a s"

lemma io_bind_Inr: "io_bind m f = (Inr b, s') \<longleftrightarrow> (\<exists>a s. m = (Inr a, s) \<and> f a s = (Inr b, s'))"
  by (cases "(m, f)" rule: io_bind.cases) auto

lemma io_bind_cases:
  assumes "io_bind m f = (r, s')"
  obtains (stop) e where "m = (Inl e, s')" "r = Inl e" | (next_step) a s where "m = (Inr a, s)" "f a s = (r, s')"
  using assms by (cases "(m, f)" rule: io_bind.cases) auto

lemma io_bind_cong [fundef_cong]:
  assumes "m = m'" and "\<And>a s. m' = (Inr a, s) \<Longrightarrow> f a s = g a s"
  shows "io_bind m f = io_bind m' g"
  using assms by (cases "(m', f)" rule: io_bind.cases) auto

text \<open>Requests of the HTTP clients, and the classes of status codes.\<close>

datatype http_verb = GET | POST | PUT | DELETE

definition is_success :: "nat \<Rightarrow> bool" where
  "is_success code \<longleftrightarrow> 200 \<le> code \<and> code < 300"

definition is_server_error :: "nat \<Rightarrow> bool" where
  "is_server_error code \<longleftrightarrow> 500 \<le> code \<and> code < 600"

text \<open>The events of the registry that an operator reconciles, by their paths.\<close>

definition relevant_app :: "string list \<Rightarrow> event \<Rightarrow> string option" where
  "relevant_app paths evt = (case evt of Application i app uid path _ \<Rightarrow> if path \<in> set paths then Some app else None | _ \<Rightarrow> None)"

definition relevant_device :: "string list \<Rightarrow> event \<Rightarrow> (string \<times> string) option" where
  "relevant_device paths evt = (case evt of Device i app dev uid path _ \<Rightarrow> if path \<in> set paths then Some (app, dev) else None | _ \<Rightarrow> None)"

section \<open>Reconciling\<close>

datatype ('i, 'c, 'd) reconcile_state = Ignore 'i | Construct 'c | Deconstruct 'd

definition eval_by_finalizer ::
  "bool \<Rightarrow> 'ctx \<Rightarrow> string list \<Rightarrow> timestamp option \<Rightarrow> string \<Rightarrow> ('ctx \<Rightarrow> 'c) \<Rightarrow> ('ctx \<Rightarrow> 'd) \<Rightarrow> ('ctx \<Rightarrow> 'i)
    \<Rightarrow> ('i, 'c, 'd) reconcile_state" where
  "eval_by_finalizer requested ctx finalizers deletion_timestamp finalizer construct deconstruct ignore =
     (let configured = finalizer \<in> set finalizers; deleted = deletion_timestamp \<noteq> None in
      case (requested, configured, deleted) of
        (False, False, _) \<Rightarrow> Ignore (ignore ctx)
      | (False, True, _) \<Rightarrow> Deconstruct (deconstruct ctx)
      | (True, _, False) \<Rightarrow> Construct (construct ctx)
      | (_, _, True) \<Rightarrow> Deconstruct (deconstruct ctx))"

record ('in, 'i, 'c, 'd, 's, 'e) reconciler =
  rr_eval_state :: "'in \<Rightarrow> 'e + ('i, 'c, 'd) reconcile_state"
  rr_construct :: "'c \<Rightarrow> 's \<Rightarrow> ('e + 'i process_result) \<times> 's"
  rr_deconstruct :: "'d \<Rightarrow> 's \<Rightarrow> ('e + 'i process_result) \<times> 's"

definition reconcile :: "('in, 'i, 'c, 'd, 's, 'e) reconciler \<Rightarrow> 'in \<Rightarrow> 's \<Rightarrow> ('e + 'i process_result) \<times> 's" where
  "reconcile rr input s =
     (case rr_eval_state rr input of
        Inl e \<Rightarrow> (Inl e, s)
      | Inr (Ignore output) \<Rightarrow> (Inr (ProcComplete output), s)
      | Inr (Construct ctx) \<Rightarrow> rr_construct rr ctx s
      | Inr (Deconstruct ctx) \<Rightarrow> rr_deconstruct rr ctx s)"

section \<open>Progress\<close>

record condition_status =
  cn_status :: "bool option"
  cn_reason :: "string option"
  cn_message :: "string option"

definition default_status :: condition_status where
  "default_status = \<lparr>cn_status = None, cn_reason = None, cn_message = None\<rparr>"

datatype 'c step_result = StepContinue 'c | StepRetry 'c "nat option"

record ('c, 's) progress_op =
  pg_type :: string
  pg_run :: "'c \<Rightarrow> 's \<Rightarrow> (reconcile_error + 'c step_result) \<times> 's"
  pg_when_skipped :: "'c \<Rightarrow> 'c \<times> condition_status"
  pg_when_failed :: condition_status

datatype ('c, 'cs) progress =
    ProgressComplete 'c 'cs
  | ProgressRetry 'c "nat option" 'cs
  | ProgressFailed reconcile_error 'cs

type_synonym 'cs cond_update = "string \<Rightarrow> condition_status \<Rightarrow> 'cs \<Rightarrow> 'cs"

fun skip_rest :: "'cs cond_update \<Rightarrow> ('c, 's) progress_op list \<Rightarrow> 'c \<Rightarrow> 'cs \<Rightarrow> 'c \<times> 'cs" where
  "skip_rest update [] context conditions = (context, conditions)"
| "skip_rest update (s # ss) context conditions =
     (let (c, status) = pg_when_skipped s context in skip_rest update ss c (update (pg_type s) status conditions))"

definition fail_rest :: "'cs cond_update \<Rightarrow> ('c, 's) progress_op list \<Rightarrow> 'cs \<Rightarrow> 'cs" where
  "fail_rest update ss conditions = fold (\<lambda>s. update (pg_type s) (pg_when_failed s)) ss conditions"

fun progressor_run ::
  "'cs cond_update \<Rightarrow> ('c, 's) progress_op list \<Rightarrow> 'cs \<Rightarrow> 'c \<Rightarrow> 's \<Rightarrow> ('c, 'cs) progress \<times> 's" where
  "progressor_run update [] conditions context w = (ProgressComplete context conditions, w)"
| "progressor_run update (s # ss) conditions context w =
     (case pg_run s context w of
        (Inr (StepContinue context'), w') \<Rightarrow>
          progressor_run update ss (update (pg_type s) (default_status\<lparr>cn_status := Some True\<rparr>) conditions) context' w'
      | (Inr (StepRetry context' delay), w') \<Rightarrow>
          let (c, cs) = skip_rest update ss context' (update (pg_type s) (default_status\<lparr>cn_status := Some False\<rparr>) conditions)
          in (ProgressRetry c delay cs, w')
      | (Inl err, w') \<Rightarrow>
          (ProgressFailed err (fail_rest update ss (update (pg_type s)
            \<lparr>cn_status = None, cn_reason = Some ''Failed'', cn_message = Some (reconcile_error_text err)\<rparr> conditions)), w'))"

definition CONDITION_RECONCILED :: string where "CONDITION_RECONCILED = ''Reconciled''"

datatype ready_state = ReadyComplete | ReadyProgressing | ReadyFailed string

fun ready_status :: "ready_state \<Rightarrow> condition_status" where
  "ready_status ReadyComplete = \<lparr>cn_status = Some True, cn_reason = Some ''AsExpected'', cn_message = Some []\<rparr>"
| "ready_status ReadyProgressing = \<lparr>cn_status = Some False, cn_reason = Some ''Progressing'', cn_message = Some []\<rparr>"
| "ready_status (ReadyFailed msg) = \<lparr>cn_status = Some False, cn_reason = Some ''Failed'', cn_message = Some msg\<rparr>"

text \<open>The conditions of a section as a list of types and states; \<open>eval_ready\<close> ends at the first that is not true.\<close>

fun eval_ready :: "(string \<times> string) list \<Rightarrow> string list" where
  "eval_ready [] = []"
| "eval_ready ((t, st) # cs) =
     (if t = CONDITION_RECONCILED then eval_ready cs
      else if st = ''True'' then eval_ready cs else [t])"

record ('r, 'cs) section_env =
  sx_update :: "'cs cond_update"
  sx_list :: "'cs \<Rightarrow> (string \<times> string) list"
  sx_set_status :: "'cs \<Rightarrow> u64 \<Rightarrow> 'r \<Rightarrow> reconcile_error + 'r"
  sx_update_conditions :: "('cs \<Rightarrow> 'cs) \<Rightarrow> 'r \<Rightarrow> reconcile_error + 'r"
  sx_generation :: "'r \<Rightarrow> u64"
  sx_conditions :: "'r \<Rightarrow> 'cs"

definition finish_ready ::
  "('r, 'cs) section_env \<Rightarrow> string \<Rightarrow> 'cs \<Rightarrow> u64 \<Rightarrow> 'r \<Rightarrow> reconcile_error + 'r" where
  "finish_ready sx ready_name conditions observed_generation resource =
     (let waiting = eval_ready (sx_list sx conditions) in
      rbind (sx_set_status sx conditions observed_generation resource) (\<lambda>resource.
        let ready = (if waiting = [] then default_status\<lparr>cn_status := Some True\<rparr>
              else \<lparr>cn_status = Some False, cn_reason = Some ''WaitingForReady'',
                    cn_message = Some (''Waiting to become ready: '' @ join '', '' waiting)\<rparr>)
        in sx_update_conditions sx (sx_update sx ready_name ready) resource))"

text \<open>\<open>run_with\<close>: the context gives access to the resource; a failed run stores the original.\<close>

record ('c, 'r) accessor =
  ac_resource :: "'c \<Rightarrow> 'r"
  ac_set_resource :: "'r \<Rightarrow> 'c \<Rightarrow> 'c"

definition run_with ::
  "('r, 'cs) section_env \<Rightarrow> ('c, 'r) accessor \<Rightarrow> string \<Rightarrow> ('c, 's) progress_op list \<Rightarrow> 'c \<Rightarrow> 's
    \<Rightarrow> (reconcile_error + 'r process_result) \<times> 's" where
  "run_with sx ac ready_name steps ctx w =
     (let observed_generation = sx_generation sx (ac_resource ac ctx);
          original = ac_resource ac ctx;
          conditions = sx_conditions sx (ac_resource ac ctx);
          (p, w) = progressor_run (sx_update sx) steps conditions ctx w
      in (case p of
           ProgressComplete context cs \<Rightarrow>
             rbind (finish_ready sx ready_name (sx_update sx CONDITION_RECONCILED (ready_status ReadyComplete) cs)
                      observed_generation (ac_resource ac context)) (\<lambda>r. Inr (ProcComplete r))
         | ProgressRetry context delay cs \<Rightarrow>
             rbind (finish_ready sx ready_name (sx_update sx CONDITION_RECONCILED (ready_status ReadyProgressing) cs)
                      observed_generation (ac_resource ac context)) (\<lambda>r. Inr (ProcRetry r delay))
         | ProgressFailed err cs \<Rightarrow>
             rbind (finish_ready sx ready_name (sx_update sx CONDITION_RECONCILED (ready_status (ReadyFailed (reconcile_error_text err))) cs)
                      observed_generation original) (\<lambda>r.
               Inr (case err of Permanent _ \<Rightarrow> ProcComplete r | Temporary _ \<Rightarrow> ProcRetry r None)), w))"

text \<open>\<open>HasFinalizer\<close>: the first step of an operator; the library reports whether it had to add it.\<close>

definition has_finalizer :: "(string \<Rightarrow> 'r \<Rightarrow> bool \<times> 'r) \<Rightarrow> ('c, 'r) accessor \<Rightarrow> string \<Rightarrow> ('c, 's) progress_op" where
  "has_finalizer ensure_finalizer ac finalizer =
     \<lparr>pg_type = ''HasFinalizer'',
      pg_run = (\<lambda>ctx w. let (added, r) = ensure_finalizer finalizer (ac_resource ac ctx); ctx = ac_set_resource ac r ctx
                in (Inr (if added then StepRetry ctx None else StepContinue ctx), w)),
      pg_when_skipped = (\<lambda>ctx. (ctx, default_status)), pg_when_failed = default_status\<rparr>"

section \<open>Readiness\<close>

text \<open>
  What the client library promises of its lists of conditions: an update sets the condition
  of its type and no other, and a list with one condition for each type stays one.
\<close>

definition status_text :: "bool option \<Rightarrow> string" where
  "status_text st = (case st of Some True \<Rightarrow> ''True'' | Some False \<Rightarrow> ''False'' | None \<Rightarrow> ''Unknown'')"

definition conditions_law :: "'cs cond_update \<Rightarrow> ('cs \<Rightarrow> (string \<times> string) list) \<Rightarrow> bool" where
  "conditions_law update list \<longleftrightarrow> (\<forall>t st cs.
     map_of (list (update t st cs)) = (map_of (list cs))(t \<mapsto> status_text (cn_status st))
     \<and> (distinct (map fst (list cs)) \<longrightarrow> distinct (map fst (list (update t st cs)))))"

text \<open>
  And of a resource: the section holds the conditions it was given, and the conditions of the
  resource itself, \<open>global\<close>, are updated beside it.
\<close>

definition section_law :: "('r, 'cs) section_env \<Rightarrow> ('r \<Rightarrow> 'cs) \<Rightarrow> bool" where
  "section_law sx global \<longleftrightarrow> conditions_law (sx_update sx) (sx_list sx)
     \<and> (\<forall>cs gen r r'. sx_set_status sx cs gen r = Inr r' \<longrightarrow> sx_conditions sx r' = cs)
     \<and> (\<forall>f r r'. sx_update_conditions sx f r = Inr r' \<longrightarrow> global r' = f (global r) \<and> sx_conditions sx r' = sx_conditions sx r)"

lemma conditions_lawD:
  assumes "conditions_law update list"
  shows "map_of (list (update t st cs)) = (map_of (list cs))(t \<mapsto> status_text (cn_status st))"
    and "distinct (map fst (list cs)) \<Longrightarrow> distinct (map fst (list (update t st cs)))"
  using assms by (simp_all add: conditions_law_def)

lemma eval_ready_Nil:
  assumes "distinct (map fst cs)"
  shows "eval_ready cs = [] \<longleftrightarrow> (\<forall>t st. map_of cs t = Some st \<longrightarrow> t = CONDITION_RECONCILED \<or> st = ''True'')"
proof -
  have "eval_ready cs = [] \<longleftrightarrow> (\<forall>(t, st) \<in> set cs. t = CONDITION_RECONCILED \<or> st = ''True'')"
    by (induction cs rule: eval_ready.induct) auto
  then show ?thesis using map_of_eq_Some_iff[OF assms] by auto
qed

fun progress_conditions :: "('c, 'cs) progress \<Rightarrow> 'cs" where
  "progress_conditions (ProgressComplete _ cs) = cs"
| "progress_conditions (ProgressRetry _ _ cs) = cs"
| "progress_conditions (ProgressFailed _ cs) = cs"

fun is_complete :: "('c, 'cs) progress \<Rightarrow> bool" where
  "is_complete (ProgressComplete _ _) = True"
| "is_complete _ = False"

text \<open>
  The conditions after a run, beside those of other types: there is one for each step, and all
  are true exactly if the run is complete.
\<close>

definition steps_reported :: "string set \<Rightarrow> bool \<Rightarrow> (string \<rightharpoonup> string) \<Rightarrow> (string \<rightharpoonup> string) \<Rightarrow> bool" where
  "steps_reported types complete before after \<longleftrightarrow> dom after = dom before \<union> types
     \<and> (\<forall>t. t \<notin> types \<longrightarrow> after t = before t) \<and> ((\<forall>t \<in> types. after t = Some ''True'') \<longleftrightarrow> complete)"

lemma skip_rest_conditions:
  assumes "conditions_law update list"
  shows "dom (map_of (list (snd (skip_rest update ss ctx cs)))) = dom (map_of (list cs)) \<union> pg_type ` set ss
     \<and> (\<forall>t. t \<notin> pg_type ` set ss \<longrightarrow> map_of (list (snd (skip_rest update ss ctx cs))) t = map_of (list cs) t)
     \<and> (distinct (map fst (list cs)) \<longrightarrow> distinct (map fst (list (snd (skip_rest update ss ctx cs)))))"
  by (induction ss arbitrary: ctx cs)
    (auto simp: conditions_lawD[OF assms] Let_def case_prod_beta)

lemma fail_rest_conditions:
  assumes "conditions_law update list"
  shows "dom (map_of (list (fail_rest update ss cs))) = dom (map_of (list cs)) \<union> pg_type ` set ss
     \<and> (\<forall>t. t \<notin> pg_type ` set ss \<longrightarrow> map_of (list (fail_rest update ss cs)) t = map_of (list cs) t)
     \<and> (distinct (map fst (list cs)) \<longrightarrow> distinct (map fst (list (fail_rest update ss cs))))"
  unfolding fail_rest_def
  by (induction ss arbitrary: cs) (auto simp: conditions_lawD[OF assms])

lemma stopped_reported:
  assumes "dom after = insert t (dom before \<union> types)" and "t \<notin> types" and "after t = Some st" and "st \<noteq> ''True''"
    and "\<forall>x. x \<notin> types \<longrightarrow> x \<noteq> t \<longrightarrow> after x = before x"
  shows "steps_reported (insert t types) False before after"
  using assms by (auto simp: steps_reported_def)

lemma continued_reported:
  assumes "steps_reported types complete (before(t \<mapsto> ''True'')) after" and "t \<notin> types"
  shows "steps_reported (insert t types) complete before after"
proof -
  have "after t = Some ''True''" using assms by (simp add: steps_reported_def)
  moreover have "after x = before x" if "x \<notin> insert t types" for x using that assms(1) by (simp add: steps_reported_def)
  ultimately show ?thesis using assms(1) by (simp add: steps_reported_def)
qed

lemma progressor_conditions:
  assumes "conditions_law update list" and "distinct (map pg_type steps)" and "p = fst (progressor_run update steps cs ctx w)"
  shows "steps_reported (pg_type ` set steps) (is_complete p) (map_of (list cs)) (map_of (list (progress_conditions p)))
     \<and> (distinct (map fst (list cs)) \<longrightarrow> distinct (map fst (list (progress_conditions p))))"
  using assms(2,3)
proof (induction steps arbitrary: cs ctx w p)
  case Nil
  then show ?case by (simp add: steps_reported_def)
next
  case (Cons s ss)
  obtain x w' where run: "pg_run s ctx w = (x, w')" by force
  have fresh: "pg_type s \<notin> pg_type ` set ss" using Cons.prems(1) by simp
  consider (failed) err where "x = Inl err" | (retry) ctx' delay where "x = Inr (StepRetry ctx' delay)"
    | (continued) ctx' where "x = Inr (StepContinue ctx')" by (metis step_result.exhaust sum.exhaust)
  then show ?case
  proof cases
    case failed
    let ?st = "\<lparr>cn_status = None, cn_reason = Some ''Failed'', cn_message = Some (reconcile_error_text err)\<rparr>"
    have p: "\<not> is_complete p" "progress_conditions p = fail_rest update ss (update (pg_type s) ?st cs)"
      using Cons.prems(2) by (simp_all add: run failed)
    note rest = fail_rest_conditions[OF assms(1), of ss "update (pg_type s) ?st cs"]
    show ?thesis
      using rest fresh stopped_reported[where st = "''Unknown''" and t = "pg_type s" and types = "pg_type ` set ss"] p
        conditions_lawD(2)[OF assms(1), of cs "pg_type s" ?st]
      by (simp add: conditions_lawD(1)[OF assms(1)] status_text_def)
  next
    case retry
    let ?st = "default_status\<lparr>cn_status := Some False\<rparr>"
    have p: "\<not> is_complete p" "progress_conditions p = snd (skip_rest update ss ctx' (update (pg_type s) ?st cs))"
      using Cons.prems(2) by (simp_all add: run retry Let_def case_prod_beta)
    note rest = skip_rest_conditions[OF assms(1), of ss ctx' "update (pg_type s) ?st cs"]
    show ?thesis
      using rest fresh stopped_reported[where st = "''False''" and t = "pg_type s" and types = "pg_type ` set ss"] p
        conditions_lawD(2)[OF assms(1), of cs "pg_type s" ?st]
      by (simp add: conditions_lawD(1)[OF assms(1)] status_text_def)
  next
    case continued
    let ?cs = "update (pg_type s) (default_status\<lparr>cn_status := Some True\<rparr>) cs"
    have p: "p = fst (progressor_run update ss ?cs ctx' w')" using Cons.prems(2) by (simp add: run continued)
    have "distinct (map pg_type ss)" using Cons.prems(1) by simp
    note rest = Cons.IH[OF this p]
    have up: "map_of (list ?cs) = (map_of (list cs))(pg_type s \<mapsto> ''True'')"
      unfolding conditions_lawD(1)[OF assms(1)] by (simp add: status_text_def)
    have "steps_reported (insert (pg_type s) (pg_type ` set ss)) (is_complete p) (map_of (list cs)) (map_of (list (progress_conditions p)))"
      by (rule continued_reported[OF rest[THEN conjunct1, unfolded up] fresh])
    then show ?thesis
      using rest conditions_lawD(2)[OF assms(1), of cs "pg_type s" "default_status\<lparr>cn_status := Some True\<rparr>"] by simp
  qed
qed

text \<open>Every way a run ends stores the conditions of the run and their readiness in the resource.\<close>

abbreviation result_resource :: "'r process_result \<Rightarrow> 'r" where
  "result_resource res \<equiv> (case res of ProcComplete r \<Rightarrow> r | ProcRetry r _ \<Rightarrow> r)"

lemma run_with_finish:
  assumes "fst (run_with sx ac ready_name steps ctx w) = Inr res"
  shows "\<exists>rs gen r. finish_ready sx ready_name (sx_update sx CONDITION_RECONCILED rs
      (progress_conditions (fst (progressor_run (sx_update sx) steps (sx_conditions sx (ac_resource ac ctx)) ctx w)))) gen r
    = Inr (result_resource res)"
proof (cases "fst (progressor_run (sx_update sx) steps (sx_conditions sx (ac_resource ac ctx)) ctx w)")
  case (ProgressFailed err cs)
  then show ?thesis using assms
    by (cases err) (auto simp: run_with_def Let_def case_prod_beta result_simps simp del: reconcile_error_text.simps ready_status.simps, blast+)
next
  case (ProgressComplete c cs)
  then show ?thesis using assms by (auto simp: run_with_def Let_def case_prod_beta result_simps simp del: ready_status.simps) blast
next
  case (ProgressRetry c d cs)
  then show ?thesis using assms by (auto simp: run_with_def Let_def case_prod_beta result_simps simp del: ready_status.simps) blast
qed

lemma finish_ready_result:
  assumes "section_law sx global" and "finish_ready sx ready_name cs gen r = Inr r'"
  shows "sx_conditions sx r' = cs"
    and "map_of (sx_list sx (global r')) ready_name = Some (if eval_ready (sx_list sx cs) = [] then ''True'' else ''False'')"
proof -
  obtain r1 st where set: "sx_set_status sx cs gen r = Inr r1" and upd: "sx_update_conditions sx (sx_update sx ready_name st) r1 = Inr r'"
    and st: "cn_status st = Some (eval_ready (sx_list sx cs) = [])"
    using assms(2) by (auto simp: finish_ready_def Let_def result_simps default_status_def split: if_splits)
  have law: "conditions_law (sx_update sx) (sx_list sx)" using assms(1) by (simp add: section_law_def)
  show "sx_conditions sx r' = cs" using set upd assms(1) unfolding section_law_def by metis
  have "global r' = sx_update sx ready_name st (global r1)" using upd assms(1) unfolding section_law_def by blast
  then show "map_of (sx_list sx (global r')) ready_name = Some (if eval_ready (sx_list sx cs) = [] then ''True'' else ''False'')"
    using st by (simp add: conditions_lawD(1)[OF law] status_text_def)
qed

lemma all_known:
  assumes "dom m = insert x A" and "x \<notin> A"
  shows "(\<forall>t st. m t = Some st \<longrightarrow> t = x \<or> st = ok) \<longleftrightarrow> (\<forall>t \<in> A. m t = Some ok)"
proof
  assume *: "\<forall>t st. m t = Some st \<longrightarrow> t = x \<or> st = ok"
  show "\<forall>t \<in> A. m t = Some ok"
  proof
    fix t
    assume t: "t \<in> A"
    then obtain st where "m t = Some st" using assms(1) by blast
    then show "m t = Some ok" using * t assms(2) by metis
  qed
next
  assume "\<forall>t \<in> A. m t = Some ok"
  then show "\<forall>t st. m t = Some st \<longrightarrow> t = x \<or> st = ok" using assms(1) by (metis domI insertE option.inject)
qed


definition demo_section :: "((string \<times> string) list \<times> (string \<times> string) list, (string \<times> string) list) section_env" where
  "demo_section = \<lparr>sx_update = (\<lambda>t st cs. (t, status_text (cn_status st)) # filter (\<lambda>c. fst c \<noteq> t) cs), sx_list = (\<lambda>cs. cs),
     sx_set_status = (\<lambda>cs _ r. Inr (cs, snd r)), sx_update_conditions = (\<lambda>f r. Inr (fst r, f (snd r))), sx_generation = (\<lambda>_. 0), sx_conditions = fst\<rparr>"

definition demo_accessor :: "((string \<times> string) list \<times> (string \<times> string) list, (string \<times> string) list \<times> (string \<times> string) list) accessor" where
  "demo_accessor = \<lparr>ac_resource = (\<lambda>r. r), ac_set_resource = (\<lambda>r _. r)\<rparr>"

definition demo_steps :: "((string \<times> string) list \<times> (string \<times> string) list, unit) progress_op list" where
  "demo_steps = [has_finalizer (\<lambda>_ r. (False, r)) demo_accessor ''kafka'',
     \<lparr>pg_type = ''TopicReady'', pg_run = (\<lambda>c w. (Inr (StepRetry c None), w)), pg_when_skipped = (\<lambda>c. (c, default_status)),
      pg_when_failed = default_status\<rparr>]"

lemma map_of_filter_other: "map_of (filter (\<lambda>c. fst c \<noteq> t) cs) = (map_of cs)(t := None)"
  by (induction cs) auto

lemma demo_section_law: "section_law demo_section snd"
proof -
  have "conditions_law (sx_update demo_section) (sx_list demo_section)"
    by (auto simp: conditions_law_def demo_section_def map_of_filter_other distinct_map_filter)
  then show ?thesis by (auto simp: section_law_def demo_section_def)
qed


end
