(* ===== verification/Ttn_Client.thy ===== *)
theory Ttn_Client
  imports Reconciler Command_Service
begin

text \<open>
  The client of The Things Network (\<open>ttn-operator/src/ttn.rs\<close>): the requests it makes, what it
  makes of the answers, and the JSON documents it sends.

  The world is the history of calls.  Parameters: the server, whose answer to a call is any
  function of the history, the URL library, and the texts of HTTP status codes.  A panic is a
  result of its own.
\<close>

section \<open>Data\<close>

record ttn_ids =
  ti_device_id :: string
  ti_dev_eui :: string
  ti_join_eui :: string

record ttn_end_device =
  te_name :: string
  te_network_server_address :: string
  te_application_server_address :: string
  te_join_server_address :: string

record ttn_ns_device =
  tn_multicast :: bool
  tn_supports_join :: bool
  tn_lorawan_version :: string
  tn_lorawan_phy_version :: string
  tn_mac_settings :: "json smap"
  tn_supports_class_b :: bool
  tn_supports_class_c :: bool
  tn_frequency_plan_id :: string

record ttn_js_device =
  tj_network_server_address :: string
  tj_application_server_address :: string
  tj_join_server_address :: string
  tj_network_server_kek_label :: string
  tj_application_server_kek_label :: string
  tj_application_server_id :: string
  tj_net_id :: json
  tj_app_key :: string

record ttn_device =
  tv_ids :: ttn_ids
  tv_end_device :: ttn_end_device
  tv_ns_device :: ttn_ns_device
  tv_js_device :: ttn_js_device

record ttn_context =
  tx_api_key :: string
  tx_url :: string

datatype ttn_owner = OwnerUser string | OwnerOrganization string

definition FIELD_MASK_WEBHOOK :: "string list" where
  "FIELD_MASK_WEBHOOK = [''base_url'', ''downlink_ack'', ''downlink_api_key'', ''downlink_failed'', ''downlink_nack'',
     ''downlink_queue_invalidated'', ''downlink_queued'', ''downlink_sent'', ''format'', ''headers'', ''ids'',
     ''ids.application_ids'', ''ids.application_ids.application_id'', ''ids.webhook_id'', ''join_accept'',
     ''location_solved'', ''service_data'', ''uplink_message'', ''uplink_message.path'']"

definition FIELD_MASK_DEVICE_CREATE :: "string list" where
  "FIELD_MASK_DEVICE_CREATE = [''ids.dev_eui'', ''ids.join_eui'']"

definition FIELD_MASK_DEVICE_JS_CREATE :: "string list" where
  "FIELD_MASK_DEVICE_JS_CREATE = [''ids.dev_eui'', ''ids.join_eui'', ''ids.device_id'']"

definition FIELD_MASK_DEVICE_NS_CREATE :: "string list" where
  "FIELD_MASK_DEVICE_NS_CREATE = [''ids.device_id'', ''ids.dev_eui'', ''ids.join_eui'']"

definition FIELD_MASK_DEVICE_CORE :: "string list" where
  "FIELD_MASK_DEVICE_CORE = [''name'', ''description'', ''attributes'', ''join_server_address'',
     ''network_server_address'', ''application_server_address'']"

definition FIELD_MASK_DEVICE_JS :: "string list" where
  "FIELD_MASK_DEVICE_JS = [''network_server_address'', ''application_server_address'', ''network_server_kek_label'',
     ''application_server_kek_label'', ''application_server_id'', ''net_id'', ''root_keys.app_key.key'']"

definition FIELD_MASK_DEVICE_AS :: "string list" where
  "FIELD_MASK_DEVICE_AS = [''ids.device_id'', ''ids.dev_eui'', ''ids.join_eui'']"

definition FIELD_MASK_DEVICE_NS :: "string list" where
  "FIELD_MASK_DEVICE_NS = [''multicast'', ''supports_join'', ''lorawan_version'', ''mac_settings.supports_32_bit_f_cnt'',
     ''supports_class_c'', ''supports_class_b'', ''lorawan_phy_version'', ''frequency_plan_id'']"

definition FIELD_MASK_APP_STR :: string where
  "FIELD_MASK_APP_STR = ''name,attributes''"

section \<open>JSON\<close>

text \<open>Assignment to an index of a JSON value: null becomes an object, any other value that is not an object panics.\<close>

fun json_entries :: "json \<Rightarrow> json smap option" where
  "json_entries Null = Some []"
| "json_entries (Object m) = Some m"
| "json_entries _ = None"

definition json_set :: "string \<Rightarrow> json \<Rightarrow> json \<Rightarrow> json option" where
  "json_set k v j = map_option (\<lambda>m. Object (AList.update k v m)) (json_entries j)"

definition json_set2 :: "string \<Rightarrow> string \<Rightarrow> json \<Rightarrow> json \<Rightarrow> json option" where
  "json_set2 k1 k2 v j =
     Option.bind (json_entries j) (\<lambda>m.
       map_option (\<lambda>v'. Object (AList.update k1 v' m))
         (json_set k2 v (case map_of m k1 of Some x \<Rightarrow> x | None \<Rightarrow> Null)))"

definition string_array :: "string list \<Rightarrow> json" where
  "string_array xs = Array (map String xs)"

definition ids_json :: "ttn_ids \<Rightarrow> json" where
  "ids_json ids = Object [(''device_id'', String (ti_device_id ids)), (''dev_eui'', String (ti_dev_eui ids)), (''join_eui'', String (ti_join_eui ids))]"

definition end_device_json :: "ttn_end_device \<Rightarrow> json smap" where
  "end_device_json d =
     [(''name'', String (te_name d)), (''network_server_address'', String (te_network_server_address d)),
      (''application_server_address'', String (te_application_server_address d)), (''join_server_address'', String (te_join_server_address d))]"

definition ns_device_json :: "ttn_ns_device \<Rightarrow> json smap" where
  "ns_device_json d =
     [(''multicast'', Bool (tn_multicast d)), (''supports_join'', Bool (tn_supports_join d)),
      (''lorawan_version'', String (tn_lorawan_version d)), (''lorawan_phy_version'', String (tn_lorawan_phy_version d)),
      (''mac_settings'', Object (tn_mac_settings d)), (''supports_class_b'', Bool (tn_supports_class_b d)),
      (''supports_class_c'', Bool (tn_supports_class_c d)), (''frequency_plan_id'', String (tn_frequency_plan_id d))]"

definition js_device_json :: "ttn_js_device \<Rightarrow> json smap" where
  "js_device_json d =
     [(''network_server_address'', String (tj_network_server_address d)),
      (''application_server_address'', String (tj_application_server_address d)),
      (''join_server_address'', String (tj_join_server_address d)),
      (''network_server_kek_label'', String (tj_network_server_kek_label d)),
      (''application_server_kek_label'', String (tj_application_server_kek_label d)),
      (''application_server_id'', String (tj_application_server_id d)), (''net_id'', tj_net_id d),
      (''root_keys'', Object [(''app_key'', Object [(''key'', String (tj_app_key d))])])]"

definition make_device_json :: "ttn_ids \<Rightarrow> json smap \<Rightarrow> string list \<Rightarrow> json" where
  "make_device_json ids v paths =
     Object [(''end_device'', Object (AList.update ''ids'' (ids_json ids) v)), (''field_mask'', Object [(''paths'', string_array paths)])]"

section \<open>Calls\<close>

record ttn_request =
  tr_method :: http_verb
  tr_url :: string
  tr_token :: string
  tr_body :: "json option"

record ttn_response =
  tp_status :: nat
  tp_text :: "string + string"
  tp_json :: "string + json"

datatype ttn_call =
    CallTtn ttn_request
  | CallGetDevice string string
  | CallCreateDevice api_device
  | CallUpdateDevice api_device

type_synonym ttn_history = "ttn_call list"

record ttn_env =
  tt_send :: "ttn_history \<Rightarrow> ttn_request \<Rightarrow> string + ttn_response"
  tt_extend :: "string \<Rightarrow> string list \<Rightarrow> string option"
  tt_query :: "string \<Rightarrow> string \<Rightarrow> string \<Rightarrow> string"
  tt_status_text :: "nat \<Rightarrow> string"

datatype ttn_stop = Failed reconcile_error | Panicked

type_synonym 'a ttn_io = "ttn_history \<Rightarrow> (ttn_stop + 'a) \<times> ttn_history"

definition stop_with :: "reconcile_error \<Rightarrow> 'a ttn_io" where
  "stop_with e w = (Inl (Failed e), w)"

text \<open>\<open>From<reqwest::Error>\<close>: a failed transport is a permanent error.\<close>

definition ttn_send :: "ttn_env \<Rightarrow> ttn_request \<Rightarrow> ttn_response ttn_io" where
  "ttn_send env rq w =
     (map_sum (\<lambda>e. Failed (Permanent e)) id (tt_send env w rq), w @ [CallTtn rq])"

definition url_for :: "ttn_env \<Rightarrow> ttn_context \<Rightarrow> string list \<Rightarrow> string ttn_io" where
  "url_for env ctx path w =
     (case tt_extend env (tx_url ctx) path of
        Some url \<Rightarrow> (Inr url, w)
      | None \<Rightarrow> stop_with (Permanent ''Failed to modify path'') w)"

definition default_error :: "ttn_env \<Rightarrow> ttn_response \<Rightarrow> reconcile_error" where
  "default_error env res =
     (let code = tp_status res;
          info = (case tp_text res of Inr t \<Rightarrow> t | Inl _ \<Rightarrow> []);
          msg = tt_status_text env code @ '': '' @ info
      in if code = 501 then Permanent (''Implementation error: '' @ msg)
         else if 500 \<le> code \<and> code < 600 then Temporary (''Request failed: '' @ msg)
         else Permanent (''Request failed: '' @ msg))"

definition ttn_request_for :: "ttn_context \<Rightarrow> http_verb \<Rightarrow> string \<Rightarrow> json option \<Rightarrow> ttn_request" where
  "ttn_request_for ctx verb url body = \<lparr>tr_method = verb, tr_url = url, tr_token = tx_api_key ctx, tr_body = body\<rparr>"

text \<open>The answer to a request that is accepted with any status of success; its text is read.\<close>

definition accept_success :: "ttn_env \<Rightarrow> ttn_response \<Rightarrow> unit ttn_io" where
  "accept_success env res w =
     (if is_success (tp_status res)
      then (case tp_text res of Inr _ \<Rightarrow> (Inr (), w) | Inl e \<Rightarrow> stop_with (Permanent e) w)
      else stop_with (default_error env res) w)"

text \<open>The answer to a query: the document, or that there is none.\<close>

definition accept_document :: "ttn_env \<Rightarrow> nat list \<Rightarrow> ttn_response \<Rightarrow> json option ttn_io" where
  "accept_document env missing res w =
     (if tp_status res = 200 then (case tp_json res of Inr j \<Rightarrow> (Inr (Some j), w) | Inl e \<Rightarrow> stop_with (Permanent e) w)
      else if tp_status res \<in> set missing then (Inr None, w)
      else stop_with (default_error env res) w)"

definition accept_codes :: "ttn_env \<Rightarrow> nat list \<Rightarrow> ttn_response \<Rightarrow> unit ttn_io" where
  "accept_codes env codes res w =
     (if tp_status res \<in> set codes then (Inr (), w) else stop_with (default_error env res) w)"

section \<open>Applications\<close>

fun owner_path :: "ttn_owner \<Rightarrow> string list" where
  "owner_path (OwnerUser user) = [''users'', user]"
| "owner_path (OwnerOrganization org) = [''organizations'', org]"

definition create_app_json :: "string \<Rightarrow> string \<Rightarrow> json" where
  "create_app_json app_id ttn_app_id =
     Object [(''application'', Object [(''ids'', Object [(''application_id'', String ttn_app_id)]), (''name'', String app_id),
       (''attributes'', Object [(''drogue-app'', String app_id)])])]"

definition ttn_create_app :: "ttn_env \<Rightarrow> string \<Rightarrow> string \<Rightarrow> ttn_owner \<Rightarrow> ttn_context \<Rightarrow> unit ttn_io" where
  "ttn_create_app env app_id ttn_app_id owner ctx w =
     io_bind (url_for env ctx ([''api'', ''v3''] @ owner_path owner @ [''applications'']) w) (\<lambda>url w.
     io_bind (ttn_send env (ttn_request_for ctx POST url (Some (create_app_json app_id ttn_app_id))) w) (\<lambda>res w.
       if \<not> is_success (tp_status res) \<and> tp_status res = 409
       then stop_with (Permanent (''An application with the name '' @ [CHR 0x27] @ ttn_app_id @ [CHR 0x27] @
         '' already exists in the TTN system. This may be another user claiming that name, or a previously created application which is still pending final deletion. You can still choose to use a different name.'')) w
       else accept_success env res w))"

definition update_app_json :: "string \<Rightarrow> json" where
  "update_app_json app_id =
     Object [(''application'', Object [(''name'', String app_id), (''attributes'', Object [(''drogue-app'', String app_id)])]),
       (''field_mask'', Object [(''paths'', string_array [''name'', ''attributes''])])]"

definition ttn_update_app :: "ttn_env \<Rightarrow> string \<Rightarrow> string \<Rightarrow> ttn_context \<Rightarrow> unit ttn_io" where
  "ttn_update_app env app_id ttn_app_id ctx w =
     io_bind (url_for env ctx [''api'', ''v3'', ''applications'', ttn_app_id] w) (\<lambda>url w.
     io_bind (ttn_send env (ttn_request_for ctx PUT url (Some (update_app_json app_id))) w) (accept_success env))"

definition ttn_get_app :: "ttn_env \<Rightarrow> string \<Rightarrow> ttn_context \<Rightarrow> json option ttn_io" where
  "ttn_get_app env app_id ctx w =
     io_bind (url_for env ctx [''api'', ''v3'', ''applications'', app_id] w) (\<lambda>url w.
     io_bind (ttn_send env (ttn_request_for ctx GET (tt_query env url ''field_mask'' FIELD_MASK_APP_STR) None) w)
       (accept_document env [403, 404]))"

definition ttn_delete_app :: "ttn_env \<Rightarrow> string \<Rightarrow> ttn_context \<Rightarrow> unit ttn_io" where
  "ttn_delete_app env app_id ctx w =
     io_bind (url_for env ctx [''api'', ''v3'', ''applications'', app_id] w) (\<lambda>url w.
     io_bind (ttn_send env (ttn_request_for ctx DELETE url None) w) (accept_codes env [200, 404]))"

section \<open>Webhooks\<close>

definition ttn_get_webhook :: "ttn_env \<Rightarrow> string \<Rightarrow> string \<Rightarrow> ttn_context \<Rightarrow> json option ttn_io" where
  "ttn_get_webhook env app_id webhook_id ctx w =
     io_bind (url_for env ctx [''api'', ''v3'', ''as'', ''webhooks'', app_id, webhook_id] w) (\<lambda>url w.
     io_bind (ttn_send env (ttn_request_for ctx GET (tt_query env url ''field_mask'' (join '','' FIELD_MASK_WEBHOOK)) None) w)
       (accept_document env [404]))"

definition webhook_fields :: "string \<Rightarrow> string \<Rightarrow> json smap" where
  "webhook_fields endpoint_url auth =
     [(''base_url'', String endpoint_url), (''format'', String ''json''), (''uplink_message'', Object []),
      (''headers'', Object [(''Authorization'', String auth)])]"

definition webhook_json :: "json smap \<Rightarrow> json" where
  "webhook_json webhook = Object [(''field_mask'', Object [(''paths'', string_array FIELD_MASK_WEBHOOK)]), (''webhook'', Object webhook)]"

definition ttn_create_webhook :: "ttn_env \<Rightarrow> string \<Rightarrow> string \<Rightarrow> string \<Rightarrow> string \<Rightarrow> ttn_context \<Rightarrow> unit ttn_io" where
  "ttn_create_webhook env app_id webhook_id endpoint_url auth ctx w =
     (let create = webhook_json ((''ids'', Object [(''webhook_id'', String webhook_id)]) # webhook_fields endpoint_url auth)
      in io_bind (url_for env ctx [''api'', ''v3'', ''as'', ''webhooks'', app_id] w) (\<lambda>url w.
         io_bind (ttn_send env (ttn_request_for ctx POST url (Some create)) w) (accept_success env)))"

definition ttn_update_webhook :: "ttn_env \<Rightarrow> string \<Rightarrow> string \<Rightarrow> string \<Rightarrow> string \<Rightarrow> ttn_context \<Rightarrow> unit ttn_io" where
  "ttn_update_webhook env app_id webhook_id endpoint_url auth ctx w =
     (let update = webhook_json (webhook_fields endpoint_url auth)
      in io_bind (url_for env ctx [''api'', ''v3'', ''as'', ''webhooks'', app_id, webhook_id] w) (\<lambda>url w.
         io_bind (ttn_send env (ttn_request_for ctx PUT url (Some update)) w) (accept_success env)))"

section \<open>Devices\<close>

definition ttn_get_device :: "ttn_env \<Rightarrow> string \<Rightarrow> string \<Rightarrow> ttn_context \<Rightarrow> json option ttn_io" where
  "ttn_get_device env app_id device_id ctx w =
     io_bind (url_for env ctx [''api'', ''v3'', ''applications'', app_id, ''devices'', device_id] w) (\<lambda>url w.
     io_bind (ttn_send env (ttn_request_for ctx GET url None) w) (accept_document env [404]))"

definition delete_device_json :: "ttn_env \<Rightarrow> string option \<Rightarrow> string \<Rightarrow> string \<Rightarrow> ttn_context \<Rightarrow> unit ttn_io" where
  "delete_device_json env pre app_id device_id ctx w =
     io_bind (url_for env ctx ([''api'', ''v3''] @ (case pre of Some p \<Rightarrow> [p] | None \<Rightarrow> []) @ [''applications'', app_id, ''devices'', device_id]) w) (\<lambda>url w.
     io_bind (ttn_send env (ttn_request_for ctx DELETE url None) w) (accept_codes env [200, 404]))"

definition ttn_delete_device :: "ttn_env \<Rightarrow> string \<Rightarrow> string \<Rightarrow> ttn_context \<Rightarrow> unit ttn_io" where
  "ttn_delete_device env app_id device_id ctx w =
     io_bind (delete_device_json env (Some ''ns'') app_id device_id ctx w) (\<lambda>_ w.
     io_bind (delete_device_json env (Some ''js'') app_id device_id ctx w) (\<lambda>_ w.
     io_bind (delete_device_json env (Some ''as'') app_id device_id ctx w) (\<lambda>_.
       delete_device_json env None app_id device_id ctx)))"

definition put_device_json ::
  "ttn_env \<Rightarrow> string \<Rightarrow> string \<Rightarrow> ttn_ids \<Rightarrow> json smap \<Rightarrow> string list \<Rightarrow> ttn_context \<Rightarrow> unit ttn_io" where
  "put_device_json env pre app_id ids payload paths ctx w =
     io_bind (url_for env ctx [''api'', ''v3'', pre, ''applications'', app_id, ''devices'', ti_device_id ids] w) (\<lambda>url w.
     io_bind (ttn_send env (ttn_request_for ctx PUT url (Some (make_device_json ids payload paths))) w) (accept_codes env [200]))"

definition set_ns_js_as ::
  "ttn_env \<Rightarrow> string \<Rightarrow> ttn_device \<Rightarrow> ttn_context \<Rightarrow> string list \<Rightarrow> string list \<Rightarrow> unit ttn_io" where
  "set_ns_js_as env app_id device ctx ns_mask js_mask w =
     io_bind (put_device_json env ''ns'' app_id (tv_ids device) (ns_device_json (tv_ns_device device)) ns_mask ctx w) (\<lambda>_ w.
     io_bind (put_device_json env ''js'' app_id (tv_ids device) (js_device_json (tv_js_device device)) js_mask ctx w) (\<lambda>_.
       put_device_json env ''as'' app_id (tv_ids device) [] FIELD_MASK_DEVICE_AS ctx))"

definition ttn_create_device :: "ttn_env \<Rightarrow> string \<Rightarrow> ttn_device \<Rightarrow> ttn_context \<Rightarrow> unit ttn_io" where
  "ttn_create_device env app_id device ctx w =
     io_bind (url_for env ctx [''api'', ''v3'', ''applications'', app_id, ''devices''] w) (\<lambda>url w.
     io_bind (ttn_send env (ttn_request_for ctx POST url (Some (make_device_json (tv_ids device) (end_device_json (tv_end_device device))
         (FIELD_MASK_DEVICE_CORE @ FIELD_MASK_DEVICE_CREATE)))) w) (\<lambda>res w.
     io_bind (accept_codes env [200] res w) (\<lambda>_.
       set_ns_js_as env app_id device ctx (FIELD_MASK_DEVICE_NS @ FIELD_MASK_DEVICE_NS_CREATE) (FIELD_MASK_DEVICE_JS @ FIELD_MASK_DEVICE_JS_CREATE))))"

definition ttn_update_device :: "ttn_env \<Rightarrow> string \<Rightarrow> ttn_device \<Rightarrow> ttn_context \<Rightarrow> unit ttn_io" where
  "ttn_update_device env app_id device ctx w =
     io_bind (url_for env ctx [''api'', ''v3'', ''applications'', app_id, ''devices'', ti_device_id (tv_ids device)] w) (\<lambda>url w.
     io_bind (ttn_send env (ttn_request_for ctx PUT url (Some (make_device_json (tv_ids device) (end_device_json (tv_end_device device))
         FIELD_MASK_DEVICE_CORE))) w) (\<lambda>res w.
     io_bind (accept_codes env [200] res w) (\<lambda>_.
       set_ns_js_as env app_id device ctx FIELD_MASK_DEVICE_NS FIELD_MASK_DEVICE_JS)))"

section \<open>What the client does\<close>

text \<open>A step extends the history by calls of a kind; the rules follow the structure of a step.\<close>

named_theorems does_intros

definition does :: "(ttn_call \<Rightarrow> bool) \<Rightarrow> 'a ttn_io \<Rightarrow> bool" where
  "does P m \<longleftrightarrow> (\<forall>w. \<exists>cs. snd (m w) = w @ cs \<and> (\<forall>c \<in> set cs. P c))"

lemma doesD:
  assumes "does P m" and "m w = (r, w')"
  obtains cs where "w' = w @ cs" "\<forall>c \<in> set cs. P c"
  using assms by (metis does_def snd_conv)

lemma does_return [does_intros]: "does P (\<lambda>w. (r, w))"
  by (simp add: does_def)

lemma does_stop [does_intros]: "does P (stop_with e)" "does P (\<lambda>w. stop_with e w)"
  by (simp_all add: does_def stop_with_def)

lemma does_bind [does_intros]:
  assumes "does P m" and "\<And>a. does P (f a)"
  shows "does P (\<lambda>w. io_bind (m w) f)"
  unfolding does_def
proof
  fix w
  obtain r w1 where m: "m w = (r, w1)" by force
  obtain cs where cs: "w1 = w @ cs" "\<forall>c \<in> set cs. P c" using doesD[OF assms(1) m] .
  show "\<exists>cs. snd (io_bind (m w) f) = w @ cs \<and> (\<forall>c \<in> set cs. P c)"
  proof (cases r)
    case (Inr a)
    obtain cs' where "snd (f a w1) = w1 @ cs'" "\<forall>c \<in> set cs'. P c" using assms(2)[of a] unfolding does_def by blast
    then show ?thesis using cs by (intro exI[of _ "cs @ cs'"]) (auto simp: m Inr)
  qed (use cs in \<open>auto simp: m\<close>)
qed

lemma does_url [does_intros]: "does P (url_for env ctx path)"
  by (simp add: does_def url_for_def stop_with_def split: option.splits)

lemma does_send [does_intros]: "P (CallTtn rq) \<Longrightarrow> does P (ttn_send env rq)"
  by (simp add: does_def ttn_send_def)

lemma does_accept [does_intros]:
  "does P (accept_success env res)" "does P (accept_document env missing res)" "does P (accept_codes env codes res)"
  by (simp_all add: does_def accept_success_def accept_document_def accept_codes_def stop_with_def split: sum.splits)

definition is_delete :: "ttn_call \<Rightarrow> bool" where
  "is_delete c \<longleftrightarrow> (case c of CallTtn rq \<Rightarrow> tr_method rq = DELETE | _ \<Rightarrow> False)"

lemma delete_app_does: "does is_delete (ttn_delete_app env app_id ctx)"
  unfolding ttn_delete_app_def by (intro does_intros) (simp add: is_delete_def ttn_request_for_def)

lemma delete_device_json_does: "does is_delete (delete_device_json env pre app_id device_id ctx)"
  unfolding delete_device_json_def by (intro does_intros) (simp add: is_delete_def ttn_request_for_def)

lemma delete_device_does: "does is_delete (ttn_delete_device env app_id device_id ctx)"
  unfolding ttn_delete_device_def by (intro does_intros delete_device_json_does)

text \<open>A sequence of requests, each answered with one of the given codes.\<close>

fun answered :: "ttn_env \<Rightarrow> ttn_history \<Rightarrow> (ttn_request \<times> nat list) list \<Rightarrow> bool" where
  "answered env w [] = True"
| "answered env w ((rq, codes) # rest) \<longleftrightarrow>
     (case tt_send env w rq of Inr res \<Rightarrow> tp_status res \<in> set codes | Inl _ \<Rightarrow> False) \<and> answered env (w @ [CallTtn rq]) rest"

abbreviation calls_of :: "(ttn_request \<times> nat list) list \<Rightarrow> ttn_history" where
  "calls_of rqs \<equiv> map (\<lambda>r. CallTtn (fst r)) rqs"

definition performed :: "ttn_env \<Rightarrow> ttn_history \<Rightarrow> (ttn_request \<times> nat list) list \<Rightarrow> ttn_history \<Rightarrow> bool" where
  "performed env w rqs w' \<longleftrightarrow> answered env w rqs \<and> w' = w @ calls_of rqs"

lemma answered_append: "answered env w (xs @ ys) \<longleftrightarrow> answered env w xs \<and> answered env (w @ calls_of xs) ys"
  by (induction xs arbitrary: w) auto

lemma performed_append: "performed env w xs w1 \<Longrightarrow> performed env w1 ys w' \<Longrightarrow> performed env w (xs @ ys) w'"
  by (auto simp: performed_def answered_append)

text \<open>The URL of a call, for calls whose URL could be built.\<close>

definition ttn_url :: "ttn_env \<Rightarrow> ttn_context \<Rightarrow> string list \<Rightarrow> string" where
  "ttn_url env ctx path = the (tt_extend env (tx_url ctx) path)"

lemma url_for_Inr: "url_for env ctx path w = (Inr url, w1) \<longleftrightarrow> tt_extend env (tx_url ctx) path = Some url \<and> w1 = w"
  by (auto simp: url_for_def stop_with_def split: option.splits)

lemma accept_codes_Inr: "accept_codes env codes res w = (Inr x, w') \<longleftrightarrow> tp_status res \<in> set codes \<and> w' = w"
  by (auto simp: accept_codes_def stop_with_def)

lemma accept_document_Inr:
  "accept_document env missing res w = (Inr d, w') \<Longrightarrow> w' = w \<and> tp_status res \<in> set (if d = None then missing else [200])"
  by (auto simp: accept_document_def stop_with_def split: sum.splits if_splits)

lemma send_Inr: "ttn_send env rq w = (Inr res, w1) \<longleftrightarrow> tt_send env w rq = Inr res \<and> w1 = w @ [CallTtn rq]"
  by (cases "tt_send env w rq") (auto simp: ttn_send_def)

lemmas call_simps = io_bind_Inr url_for_Inr accept_codes_Inr send_Inr

definition delete_requests :: "ttn_env \<Rightarrow> ttn_context \<Rightarrow> string \<Rightarrow> string \<Rightarrow> (ttn_request \<times> nat list) list" where
  "delete_requests env ctx app_id device_id =
     map (\<lambda>pre. (ttn_request_for ctx DELETE (ttn_url env ctx ([''api'', ''v3''] @ pre @ [''applications'', app_id, ''devices'', device_id])) None, [200, 404]))
       [[''ns''], [''js''], [''as''], []]"

lemma delete_json_ran:
  assumes "delete_device_json env pre app_id device_id ctx w = (Inr x, w')"
  shows "performed env w [(ttn_request_for ctx DELETE (ttn_url env ctx ([''api'', ''v3''] @ (case pre of Some p \<Rightarrow> [p] | None \<Rightarrow> [])
      @ [''applications'', app_id, ''devices'', device_id])) None, [200, 404])] w'"
  using assms by (auto simp: delete_device_json_def call_simps performed_def ttn_url_def)

lemma delete_device_ran:
  assumes "ttn_delete_device env app_id device_id ctx w = (Inr x, w')"
  shows "performed env w (delete_requests env ctx app_id device_id) w'"
proof -
  obtain w1 w2 w3 where "delete_device_json env (Some ''ns'') app_id device_id ctx w = (Inr (), w1)"
      "delete_device_json env (Some ''js'') app_id device_id ctx w1 = (Inr (), w2)"
      "delete_device_json env (Some ''as'') app_id device_id ctx w2 = (Inr (), w3)"
      "delete_device_json env None app_id device_id ctx w3 = (Inr x, w')"
    using assms by (auto simp: ttn_delete_device_def io_bind_Inr)
  note runs = this[THEN delete_json_ran]
  show ?thesis using performed_append[OF performed_append[OF performed_append[OF runs(1,2)] runs(3)] runs(4)] by (simp add: delete_requests_def)
qed

lemma delete_app_ran:
  assumes "ttn_delete_app env app_id ctx w = (Inr x, w')"
  shows "performed env w [(ttn_request_for ctx DELETE (ttn_url env ctx [''api'', ''v3'', ''applications'', app_id]) None, [200, 404])] w'"
  using assms by (auto simp: ttn_delete_app_def call_simps performed_def ttn_url_def)

definition put_request :: "ttn_env \<Rightarrow> ttn_context \<Rightarrow> string list \<Rightarrow> string \<Rightarrow> ttn_ids \<Rightarrow> json smap \<Rightarrow> string list \<Rightarrow> ttn_request \<times> nat list" where
  "put_request env ctx pre app_id ids payload paths =
     (ttn_request_for ctx PUT (ttn_url env ctx ([''api'', ''v3''] @ pre @ [''applications'', app_id, ''devices'', ti_device_id ids]))
       (Some (make_device_json ids payload paths)), [200])"

definition create_request :: "ttn_env \<Rightarrow> ttn_context \<Rightarrow> string \<Rightarrow> ttn_ids \<Rightarrow> json smap \<Rightarrow> string list \<Rightarrow> ttn_request \<times> nat list" where
  "create_request env ctx app_id ids payload paths =
     (ttn_request_for ctx POST (ttn_url env ctx [''api'', ''v3'', ''applications'', app_id, ''devices''])
       (Some (make_device_json ids payload paths)), [200])"

text \<open>The requests that write a device: to the registry, and then to the three servers.\<close>

definition write_requests :: "ttn_env \<Rightarrow> ttn_context \<Rightarrow> bool \<Rightarrow> string \<Rightarrow> ttn_device \<Rightarrow> (ttn_request \<times> nat list) list" where
  "write_requests env ctx create app_id d =
     [if create then create_request env ctx app_id (tv_ids d) (end_device_json (tv_end_device d)) (FIELD_MASK_DEVICE_CORE @ FIELD_MASK_DEVICE_CREATE)
      else put_request env ctx [] app_id (tv_ids d) (end_device_json (tv_end_device d)) FIELD_MASK_DEVICE_CORE,
      put_request env ctx [''ns''] app_id (tv_ids d) (ns_device_json (tv_ns_device d)) (FIELD_MASK_DEVICE_NS @ (if create then FIELD_MASK_DEVICE_NS_CREATE else [])),
      put_request env ctx [''js''] app_id (tv_ids d) (js_device_json (tv_js_device d)) (FIELD_MASK_DEVICE_JS @ (if create then FIELD_MASK_DEVICE_JS_CREATE else [])),
      put_request env ctx [''as''] app_id (tv_ids d) [] FIELD_MASK_DEVICE_AS]"

lemma put_json_ran:
  assumes "put_device_json env pre app_id ids payload paths ctx w = (Inr x, w')"
  shows "performed env w [put_request env ctx [pre] app_id ids payload paths] w'"
  using assms by (auto simp: put_device_json_def call_simps performed_def ttn_url_def put_request_def)

lemma set_ns_js_as_ran:
  assumes "set_ns_js_as env app_id d ctx ns js w = (Inr x, w')"
  shows "performed env w [put_request env ctx [''ns''] app_id (tv_ids d) (ns_device_json (tv_ns_device d)) ns,
     put_request env ctx [''js''] app_id (tv_ids d) (js_device_json (tv_js_device d)) js,
     put_request env ctx [''as''] app_id (tv_ids d) [] FIELD_MASK_DEVICE_AS] w'"
proof -
  obtain w1 w2 where "put_device_json env ''ns'' app_id (tv_ids d) (ns_device_json (tv_ns_device d)) ns ctx w = (Inr (), w1)"
      "put_device_json env ''js'' app_id (tv_ids d) (js_device_json (tv_js_device d)) js ctx w1 = (Inr (), w2)"
      "put_device_json env ''as'' app_id (tv_ids d) [] FIELD_MASK_DEVICE_AS ctx w2 = (Inr x, w')"
    using assms by (auto simp: set_ns_js_as_def io_bind_Inr)
  note runs = this[THEN put_json_ran]
  show ?thesis using performed_append[OF performed_append[OF runs(1,2)] runs(3)] by simp
qed

lemma write_device_ran:
  assumes "(if create then ttn_create_device env app_id d ctx w else ttn_update_device env app_id d ctx w) = (Inr x, w')"
  shows "performed env w (write_requests env ctx create app_id d) w'"
proof (cases create)
  case True
  then obtain w1 where "performed env w [create_request env ctx app_id (tv_ids d) (end_device_json (tv_end_device d)) (FIELD_MASK_DEVICE_CORE @ FIELD_MASK_DEVICE_CREATE)] w1"
      "set_ns_js_as env app_id d ctx (FIELD_MASK_DEVICE_NS @ FIELD_MASK_DEVICE_NS_CREATE) (FIELD_MASK_DEVICE_JS @ FIELD_MASK_DEVICE_JS_CREATE) w1 = (Inr x, w')"
    using assms by (auto simp: ttn_create_device_def call_simps performed_def ttn_url_def create_request_def)
  from performed_append[OF this(1) set_ns_js_as_ran[OF this(2)]] show ?thesis by (simp add: write_requests_def True)
next
  case False
  then obtain w1 where "performed env w [put_request env ctx [] app_id (tv_ids d) (end_device_json (tv_end_device d)) FIELD_MASK_DEVICE_CORE] w1"
      "set_ns_js_as env app_id d ctx FIELD_MASK_DEVICE_NS FIELD_MASK_DEVICE_JS w1 = (Inr x, w')"
    using assms by (auto simp: ttn_update_device_def call_simps performed_def ttn_url_def put_request_def)
  from performed_append[OF this(1) set_ns_js_as_ran[OF this(2)]] show ?thesis by (simp add: write_requests_def False)
qed

lemma get_device_ran:
  assumes "ttn_get_device env app_id device_id ctx w = (Inr found, w')"
  shows "performed env w [(ttn_request_for ctx GET (ttn_url env ctx [''api'', ''v3'', ''applications'', app_id, ''devices'', device_id]) None,
    if found = None then [404] else [200])] w'"
  using assms by (auto simp: ttn_get_device_def io_bind_Inr url_for_Inr send_Inr performed_def ttn_url_def dest!: accept_document_Inr split: if_splits)

end
