(* ===== verification/Ttn_Operator.thy ===== *)
theory Ttn_Operator
  imports Ttn_Client
begin

text \<open>
  The operator of The Things Network (\<open>ttn-operator/src\<close>): the configuration and status
  sections (\<open>data.rs\<close>) and the reconcilers of applications (\<open>controller/app.rs\<close>) and devices
  (\<open>controller/device.rs\<close>).

  Parameters: the registry, whose answers depend on the history, the URL library, the
  sections and finalizers of the client library, the random generator, and base64.
\<close>

section \<open>Sections\<close>

record ttn_op_env =
  to_ttn :: ttn_env
  to_parse_url :: "string \<Rightarrow> string + string"
  to_host :: "string \<Rightarrow> string option"
  to_decode_error :: "json \<Rightarrow> string"
  to_ensure_finalizer :: "string \<Rightarrow> string list \<Rightarrow> bool \<times> string list"
  to_remove_finalizer :: "string \<Rightarrow> string list \<Rightarrow> string list"
  to_get_device :: "ttn_history \<Rightarrow> string \<Rightarrow> string \<Rightarrow> string + api_device option"
  to_create_device :: "ttn_history \<Rightarrow> api_device \<Rightarrow> string + unit"
  to_update_device :: "ttn_history \<Rightarrow> api_device \<Rightarrow> string + unit"
  to_default_device :: api_device
  to_authentication :: "api_device \<Rightarrow> credential list option"
  to_add_credential :: "credential \<Rightarrow> api_device \<Rightarrow> string + api_device"
  to_set_commands :: "external_command list \<Rightarrow> api_device \<Rightarrow> string + api_device"
  to_gateway_selector :: "api_device \<Rightarrow> string list option"
  to_set_gateway_selector :: "string list \<Rightarrow> api_device \<Rightarrow> string + api_device"
  to_selector_key :: string
  to_password :: "ttn_history \<Rightarrow> string"
  to_basic :: "string \<Rightarrow> string \<Rightarrow> string option"
  to_endpoint_url :: string

datatype region_or_url = RegionUrl string | Region string

definition region_url :: "ttn_op_env \<Rightarrow> region_or_url \<Rightarrow> string + string" where
  "region_url env r =
     (case r of
        RegionUrl url \<Rightarrow> Inr url
      | Region region \<Rightarrow> to_parse_url env (''https://'' @ region @ ''.cloud.thethings.network''))"

record ttn_reconcile_status =
  tg_observed_generation :: u64
  tg_state :: string
  tg_reason :: "string option"

definition failed_status :: "u64 \<Rightarrow> string \<Rightarrow> ttn_reconcile_status" where
  "failed_status generation err = \<lparr>tg_observed_generation = generation, tg_state = ''Failed'', tg_reason = Some err\<rparr>"

definition reconciled_status :: "u64 \<Rightarrow> ttn_reconcile_status" where
  "reconciled_status generation = \<lparr>tg_observed_generation = generation, tg_state = ''Reconciled'', tg_reason = None\<rparr>"

record ttn_app_api =
  ta_api_key :: string
  ta_region :: region_or_url
  ta_owner :: ttn_owner
  ta_id :: "string option"

record ttn_app_spec =
  ts_api :: ttn_app_api

definition to_context :: "ttn_op_env \<Rightarrow> ttn_app_api \<Rightarrow> ttn_context ttn_io" where
  "to_context env api w =
     (case region_url env (ta_region api) of
        Inr url \<Rightarrow> (Inr \<lparr>tx_api_key = ta_api_key api, tx_url = url\<rparr>, w)
      | Inl err \<Rightarrow> stop_with (Permanent (''Failed to parse URL: '' @ err)) w)"

record ttn_app_status =
  tas_reconcile :: ttn_reconcile_status
  tas_app_id :: "string option"

record ttn_device_spec =
  td_dev_eui :: string
  td_app_eui :: string
  td_app_key :: string
  td_lorawan_version :: "string option"
  td_lorawan_phy_version :: "string option"
  td_supports_class_b :: bool
  td_supports_class_c :: bool
  td_frequency_plan_id :: string

record ttn_device_status =
  tds_reconcile :: ttn_reconcile_status

subsection \<open>Decoding and encoding\<close>

definition get_str :: "string \<Rightarrow> json smap \<Rightarrow> unit + string" where
  "get_str k m = (case map_of m k of Some (String s) \<Rightarrow> Inr s | _ \<Rightarrow> Inl ())"

definition get_opt_str :: "string \<Rightarrow> json smap \<Rightarrow> unit + string option" where
  "get_opt_str k m = (case map_of m k of None \<Rightarrow> Inr None | Some Null \<Rightarrow> Inr None | Some (String s) \<Rightarrow> Inr (Some s) | _ \<Rightarrow> Inl ())"

definition get_flag :: "string \<Rightarrow> json smap \<Rightarrow> unit + bool" where
  "get_flag k m = (case map_of m k of None \<Rightarrow> Inr False | Some (Bool b) \<Rightarrow> Inr b | _ \<Rightarrow> Inl ())"

fun owner_of_json :: "json \<Rightarrow> unit + ttn_owner" where
  "owner_of_json (String value) = Inr (OwnerUser value)"
| "owner_of_json (Object [(k, String v)]) =
     (if k = ''user'' then Inr (OwnerUser v) else if k = ''org'' then Inr (OwnerOrganization v) else Inl ())"
| "owner_of_json _ = Inl ()"

fun region_of_json :: "ttn_op_env \<Rightarrow> json \<Rightarrow> unit + region_or_url" where
  "region_of_json env (String s) = Inr (case to_parse_url env s of Inr url \<Rightarrow> RegionUrl url | Inl _ \<Rightarrow> Region s)"
| "region_of_json env _ = Inl ()"

definition get_with :: "(json \<Rightarrow> unit + 'a) \<Rightarrow> string \<Rightarrow> json smap \<Rightarrow> unit + 'a" where
  "get_with f k m = rbind (ok_or () (map_of m k)) f"

definition app_spec_of_json :: "ttn_op_env \<Rightarrow> json \<Rightarrow> unit + ttn_app_spec" where
  "app_spec_of_json env j =
     rbind (ok_or () (as_object j)) (\<lambda>m. rbind (get_with (\<lambda>a. ok_or () (as_object a)) ''api'' m) (\<lambda>api.
     rbind (get_str ''apiKey'' api) (\<lambda>key. rbind (get_with (region_of_json env) ''region'' api) (\<lambda>region.
     rbind (get_with owner_of_json ''owner'' api) (\<lambda>owner. rbind (get_opt_str ''id'' api) (\<lambda>i.
       Inr \<lparr>ts_api = \<lparr>ta_api_key = key, ta_region = region, ta_owner = owner, ta_id = i\<rparr>\<rparr>))))))"

definition reconcile_of_object :: "json smap \<Rightarrow> unit + ttn_reconcile_status" where
  "reconcile_of_object m =
     rbind (case map_of m ''observedGeneration'' of Some (Number n) \<Rightarrow> ok_or () (str_u64 n) | _ \<Rightarrow> Inl ()) (\<lambda>g.
     rbind (get_str ''state'' m) (\<lambda>state. rbind (get_opt_str ''reason'' m) (\<lambda>reason.
       Inr \<lparr>tg_observed_generation = g, tg_state = state, tg_reason = reason\<rparr>)))"

definition app_status_of_json :: "json \<Rightarrow> unit + ttn_app_status" where
  "app_status_of_json j =
     rbind (ok_or () (as_object j)) (\<lambda>m. rbind (reconcile_of_object m) (\<lambda>r. rbind (get_opt_str ''appId'' m) (\<lambda>i.
       Inr \<lparr>tas_reconcile = r, tas_app_id = i\<rparr>)))"

definition device_spec_of_json :: "json \<Rightarrow> unit + ttn_device_spec" where
  "device_spec_of_json j =
     rbind (ok_or () (as_object j)) (\<lambda>m. rbind (get_str ''dev_eui'' m) (\<lambda>dev_eui. rbind (get_str ''app_eui'' m) (\<lambda>app_eui.
     rbind (get_str ''app_key'' m) (\<lambda>app_key. rbind (get_opt_str ''lorawan_version'' m) (\<lambda>lv. rbind (get_opt_str ''lorawan_phy_version'' m) (\<lambda>pv.
     rbind (get_flag ''supports_class_b'' m) (\<lambda>b. rbind (get_flag ''supports_class_c'' m) (\<lambda>c. rbind (get_str ''frequency_plan_id'' m) (\<lambda>fp.
       Inr \<lparr>td_dev_eui = dev_eui, td_app_eui = app_eui, td_app_key = app_key, td_lorawan_version = lv, td_lorawan_phy_version = pv,
         td_supports_class_b = b, td_supports_class_c = c, td_frequency_plan_id = fp\<rparr>)))))))))"

definition device_status_of_json :: "json \<Rightarrow> unit + ttn_device_status" where
  "device_status_of_json j =
     rbind (ok_or () (as_object j)) (\<lambda>m. rbind (get_with (\<lambda>r. ok_or () (as_object r)) ''reconcile'' m) (\<lambda>r.
     rbind (reconcile_of_object r) (\<lambda>st. Inr \<lparr>tds_reconcile = st\<rparr>)))"

definition reconcile_object :: "ttn_reconcile_status \<Rightarrow> json smap" where
  "reconcile_object st =
     [(''observedGeneration'', Number (nat_str (unat (tg_observed_generation st)))), (''state'', String (tg_state st))]
     @ (case tg_reason st of Some r \<Rightarrow> [(''reason'', String r)] | None \<Rightarrow> [])"

definition app_status_json :: "ttn_app_status \<Rightarrow> json" where
  "app_status_json st = Object (reconcile_object (tas_reconcile st)
     @ [(''appId'', case tas_app_id st of Some i \<Rightarrow> String i | None \<Rightarrow> Null)])"

definition device_status_json :: "ttn_device_status \<Rightarrow> json" where
  "device_status_json st = Object [(''reconcile'', Object (reconcile_object (tds_reconcile st)))]"

text \<open>A section as the code reads it: it has to be valid, or an invalid one counts as missing.\<close>

definition section_checked :: "ttn_op_env \<Rightarrow> (json \<Rightarrow> unit + 'a) \<Rightarrow> json smap \<Rightarrow> ttn_stop + 'a option" where
  "section_checked env decode sections =
     (case map_of sections ''ttn'' of
        None \<Rightarrow> Inr None
      | Some j \<Rightarrow> (case decode j of Inr a \<Rightarrow> Inr (Some a) | Inl _ \<Rightarrow> Inl (Failed (Permanent (to_decode_error env j)))))"

definition section_lenient :: "(json \<Rightarrow> unit + 'a) \<Rightarrow> json smap \<Rightarrow> 'a option" where
  "section_lenient decode sections =
     (case map_of sections ''ttn'' of Some j \<Rightarrow> (case decode j of Inr a \<Rightarrow> Some a | Inl _ \<Rightarrow> None) | None \<Rightarrow> None)"

definition update_section :: "(json \<Rightarrow> unit + 'a) \<Rightarrow> ('a \<Rightarrow> json) \<Rightarrow> 'a \<Rightarrow> ('a \<Rightarrow> 'a) \<Rightarrow> json smap \<Rightarrow> unit + json smap" where
  "update_section decode encode dflt f sections =
     (case map_of sections ''ttn'' of
        None \<Rightarrow> Inr (AList.update ''ttn'' (encode (f dflt)) sections)
      | Some j \<Rightarrow> rbind (decode j) (\<lambda>a. Inr (AList.update ''ttn'' (encode (f a)) sections)))"

definition default_reconcile :: ttn_reconcile_status where
  "default_reconcile = \<lparr>tg_observed_generation = 0, tg_state = [], tg_reason = None\<rparr>"

section \<open>Applications\<close>

definition TTN_FINALIZER :: string where "TTN_FINALIZER = ''ttn''"

definition TTN_GATEWAY_NAME :: string where "TTN_GATEWAY_NAME = ''ttn-gateway''"

definition TTN_WEBHOOK_NAME :: string where "TTN_WEBHOOK_NAME = ''drogue-iot''"

definition ensure_stable_app_id :: "string \<Rightarrow> ttn_app_spec \<Rightarrow> string \<Rightarrow> unit ttn_io" where
  "ensure_stable_app_id name spec current_app_id w =
     (let defined_id = (case ta_id (ts_api spec) of Some i \<Rightarrow> i | None \<Rightarrow> name) in
      if defined_id \<noteq> current_app_id
      then stop_with (Permanent (''Application IDs have changed - requested: '' @ defined_id @ '', current: '' @ current_app_id)) w
      else (Inr (), w))"

text \<open>\<open>eval_state\<close> of both reconcilers.\<close>

fun eval_requested :: "bool \<Rightarrow> bool \<Rightarrow> bool \<Rightarrow> 'i \<Rightarrow> 'c \<Rightarrow> 'd \<Rightarrow> ('i, 'c, 'd) reconcile_state" where
  "eval_requested False False deleted i c d = Ignore i"
| "eval_requested True configured False i c d = Construct c"
| "eval_requested requested configured deleted i c d = Deconstruct d"

record ttn_app_construct =
  tac_app :: api_application
  tac_spec :: ttn_app_spec
  tac_status :: "ttn_app_status option"

record ttn_app_deconstruct =
  tad_app :: api_application
  tad_spec :: "ttn_app_spec option"
  tad_status :: "ttn_app_status option"

definition ttn_app_eval ::
  "ttn_op_env \<Rightarrow> api_application \<Rightarrow> ttn_stop + (api_application, ttn_app_construct, ttn_app_deconstruct) reconcile_state" where
  "ttn_app_eval env app =
     rbind (section_checked env (app_spec_of_json env) (pa_spec app)) (\<lambda>spec.
       let status = section_lenient app_status_of_json (pa_status app)
       in Inr (eval_requested (spec \<noteq> None) (TTN_FINALIZER \<in> set (pa_finalizers app)) (pa_deletion_timestamp app \<noteq> None)
            app \<lparr>tac_app = app, tac_spec = the spec, tac_status = status\<rparr> \<lparr>tad_app = app, tad_spec = spec, tad_status = status\<rparr>))"

definition find_password :: "credential list \<Rightarrow> password option" where
  "find_password cs = (case filter (\<lambda>c. case c of CPassword _ \<Rightarrow> True | _ \<Rightarrow> False) cs of CPassword p # _ \<Rightarrow> Some p | _ \<Rightarrow> None)"

definition gateway_password :: "ttn_op_env \<Rightarrow> api_device \<Rightarrow> (string \<times> api_device) ttn_io" where
  "gateway_password env gateway w =
     (case Option.bind (to_authentication env gateway) find_password of
        Some (Plain password) \<Rightarrow> (Inr (password, gateway), w)
      | _ \<Rightarrow>
          let password = to_password env w in
          case to_add_credential env (CPassword (Plain password)) gateway of
            Inr gateway \<Rightarrow> (Inr (password, gateway), w)
          | Inl e \<Rightarrow> stop_with (Permanent e) w)"

definition ensure_gateway_config :: "ttn_op_env \<Rightarrow> string \<Rightarrow> api_device \<Rightarrow> ttn_context \<Rightarrow> (string \<times> api_device) ttn_io" where
  "ensure_gateway_config env ttn_app_id gateway ctx w =
     io_bind (gateway_password env gateway w) (\<lambda>(password, gateway) w.
       case tt_extend (to_ttn env) (tx_url ctx) [''api'', ''v3'', ''as'', ''applications'', ttn_app_id, ''devices''] of
         None \<Rightarrow> stop_with (Permanent ''Unable to modify path'') w
       | Some downlink_url \<Rightarrow>
           (case to_set_commands env [\<lparr>xe_type = Some ''ttnv3'', xe_method = [], xe_url = downlink_url,
               xe_headers = [(''Authorization'', ''Bearer '' @ tx_api_key ctx)]\<rparr>] gateway of
              Inr gateway \<Rightarrow> (Inr (password, gateway), w)
            | Inl e \<Rightarrow> stop_with (Permanent e) w))"

definition registry_call :: "ttn_call \<Rightarrow> (ttn_history \<Rightarrow> string + 'a) \<Rightarrow> 'a ttn_io" where
  "registry_call c answer w = (map_sum (\<lambda>e. Failed (Temporary e)) id (answer w), w @ [c])"

definition ensure_gateway :: "ttn_op_env \<Rightarrow> string \<Rightarrow> string \<Rightarrow> ttn_context \<Rightarrow> string ttn_io" where
  "ensure_gateway env app_id name ctx w =
     io_bind (registry_call (CallGetDevice name TTN_GATEWAY_NAME) (\<lambda>h. to_get_device env h name TTN_GATEWAY_NAME) w) (\<lambda>gateway w.
       case gateway of
         None \<Rightarrow>
           io_bind (ensure_gateway_config env app_id ((to_default_device env)\<lparr>pd_application := name, pd_name := TTN_GATEWAY_NAME,
               pd_labels := [(''ttn/app-id'', app_id)]\<rparr>) ctx w) (\<lambda>(password, gateway) w.
           io_bind (registry_call (CallCreateDevice gateway) (\<lambda>h. to_create_device env h gateway) w) (\<lambda>_ w. (Inr password, w)))
       | Some gateway \<Rightarrow>
           io_bind (ensure_gateway_config env app_id gateway ctx w) (\<lambda>(password, gateway) w.
           io_bind (registry_call (CallUpdateDevice gateway) (\<lambda>h. to_update_device env h gateway) w) (\<lambda>_ w. (Inr password, w))))"

definition need_webhook_update :: "json \<Rightarrow> string \<Rightarrow> string \<Rightarrow> bool option" where
  "need_webhook_update current url auth =
     Option.bind (json_set ''base_url'' (String url) current) (\<lambda>j. Option.bind (json_set ''format'' (String ''json'') j) (\<lambda>j.
     Option.bind (json_set2 ''headers'' ''Authorization'' (String auth) j) (\<lambda>j. Option.bind (json_set ''uplink'' (Object []) j) (\<lambda>expected.
       Some (\<not> json_eq expected current)))))"

definition operator_update_app :: "ttn_op_env \<Rightarrow> string \<Rightarrow> json \<Rightarrow> string \<Rightarrow> ttn_context \<Rightarrow> unit ttn_io" where
  "operator_update_app env app_id ttn_app name ctx w =
     (case Option.bind (json_set ''name'' (String name) ttn_app) (json_set2 ''attributes'' ''drogue-app'' (String name)) of
        None \<Rightarrow> (Inl Panicked, w)
      | Some changed \<Rightarrow> if \<not> json_eq ttn_app changed then ttn_update_app (to_ttn env) name app_id ctx w else (Inr (), w))"

definition ensure_webhook :: "ttn_op_env \<Rightarrow> string \<Rightarrow> string \<Rightarrow> ttn_context \<Rightarrow> unit ttn_io" where
  "ensure_webhook env ttn_app_id auth ctx w =
     io_bind (ttn_get_webhook (to_ttn env) ttn_app_id TTN_WEBHOOK_NAME ctx w) (\<lambda>webhook w.
       case webhook of
         None \<Rightarrow> ttn_create_webhook (to_ttn env) ttn_app_id TTN_WEBHOOK_NAME (to_endpoint_url env) auth ctx w
       | Some webhook \<Rightarrow>
           (case need_webhook_update webhook (to_endpoint_url env) auth of
              None \<Rightarrow> (Inl Panicked, w)
            | Some True \<Rightarrow> ttn_update_webhook (to_ttn env) ttn_app_id TTN_WEBHOOK_NAME (to_endpoint_url env) auth ctx w
            | Some False \<Rightarrow> (Inr (), w)))"

definition ensure_app :: "ttn_op_env \<Rightarrow> string \<Rightarrow> ttn_app_spec \<Rightarrow> string \<Rightarrow> unit ttn_io" where
  "ensure_app env name spec ttn_app_id w =
     io_bind (to_context env (ts_api spec) w) (\<lambda>ctx w.
     io_bind (ensure_gateway env ttn_app_id name ctx w) (\<lambda>gw_password w.
     io_bind (ttn_get_app (to_ttn env) ttn_app_id ctx w) (\<lambda>ttn_app w.
     io_bind (case ttn_app of
                None \<Rightarrow> ttn_create_app (to_ttn env) name ttn_app_id (ta_owner (ts_api spec)) ctx w
              | Some ttn_app \<Rightarrow> operator_update_app env ttn_app_id ttn_app name ctx w) (\<lambda>_ w.
       case to_basic env (TTN_GATEWAY_NAME @ ''@'' @ name) gw_password of
         None \<Rightarrow> stop_with (Permanent ''Failed to convert auth information'') w
       | Some auth \<Rightarrow> ensure_webhook env ttn_app_id auth ctx w))))"

definition set_app_status :: "ttn_app_status \<Rightarrow> api_application \<Rightarrow> api_application" where
  "set_app_status st app = app\<lparr>pa_status := AList.update ''ttn'' (app_status_json st) (pa_status app)\<rparr>"

definition construct_status :: "string \<Rightarrow> ttn_app_construct \<Rightarrow> (ttn_app_status \<times> api_application) ttn_io" where
  "construct_status app_id ctx w =
     (let app = tac_app ctx in
      case tac_status ctx of
        Some status \<Rightarrow>
          (case tas_app_id status of
             Some i \<Rightarrow> io_bind (ensure_stable_app_id (pa_name app) (tac_spec ctx) i w) (\<lambda>_ w. (Inr (status, app), w))
           | None \<Rightarrow> (Inr (status\<lparr>tas_app_id := Some app_id\<rparr>, app), w))
      | None \<Rightarrow>
          let status = \<lparr>tas_reconcile = \<lparr>tg_observed_generation = pa_generation app, tg_state = ''Reconciling'', tg_reason = None\<rparr>,
                tas_app_id = Some app_id\<rparr>
          in (Inr (status, set_app_status status app), w))"

definition ttn_construct_app :: "ttn_op_env \<Rightarrow> ttn_app_construct \<Rightarrow> api_application process_result ttn_io" where
  "ttn_construct_app env ctx w =
     (let (added, fs) = to_ensure_finalizer env TTN_FINALIZER (pa_finalizers (tac_app ctx));
          ctx = ctx\<lparr>tac_app := (tac_app ctx)\<lparr>pa_finalizers := fs\<rparr>\<rparr>
      in if added then (Inr (ProcRetry (tac_app ctx) None), w)
         else let app_id = (case ta_id (ts_api (tac_spec ctx)) of Some i \<Rightarrow> i | None \<Rightarrow> pa_name (tac_app ctx)) in
           io_bind (construct_status app_id ctx w) (\<lambda>(status, app) w.
           io_bind (ensure_app env (pa_name app) (tac_spec ctx) app_id w) (\<lambda>_ w.
             (Inr (ProcComplete (set_app_status (status\<lparr>tas_reconcile := reconciled_status (pa_generation app)\<rparr>) app)), w))))"

definition ttn_deconstruct_app :: "ttn_op_env \<Rightarrow> ttn_app_deconstruct \<Rightarrow> api_application process_result ttn_io" where
  "ttn_deconstruct_app env ctx w =
     io_bind (case Option.bind (tad_status ctx) tas_app_id of
                Some app_id \<Rightarrow>
                  (case tad_spec ctx of
                     None \<Rightarrow> stop_with (Permanent ''Missing API configuration.'') w
                   | Some spec \<Rightarrow> io_bind (to_context env (ts_api spec) w) (\<lambda>ttn_ctx. ttn_delete_app (to_ttn env) app_id ttn_ctx))
              | None \<Rightarrow> (Inr (), w)) (\<lambda>_ w.
       (Inr (ProcComplete ((tad_app ctx)\<lparr>pa_finalizers := to_remove_finalizer env TTN_FINALIZER (pa_finalizers (tad_app ctx))\<rparr>)), w))"

definition ttn_app_reconciler ::
  "ttn_op_env \<Rightarrow> (api_application, api_application, ttn_app_construct, ttn_app_deconstruct, ttn_history, ttn_stop) reconciler" where
  "ttn_app_reconciler env =
     \<lparr>rr_eval_state = ttn_app_eval env, rr_construct = ttn_construct_app env, rr_deconstruct = ttn_deconstruct_app env\<rparr>"

definition ttn_app_process :: "ttn_op_env \<Rightarrow> api_application \<Rightarrow> api_application process_result ttn_io" where
  "ttn_app_process env app w = reconcile (ttn_app_reconciler env) app w"

definition ttn_app_recover :: "string \<Rightarrow> api_application \<Rightarrow> unit + api_application" where
  "ttn_app_recover message app =
     rbind (update_section app_status_of_json app_status_json \<lparr>tas_reconcile = default_reconcile, tas_app_id = None\<rparr>
         (\<lambda>st. st\<lparr>tas_reconcile := failed_status (pa_generation app) message\<rparr>) (pa_status app)) (\<lambda>sections.
       Inr (app\<lparr>pa_status := sections\<rparr>))"

section \<open>Devices\<close>

record ttn_dev_construct =
  tdc_app :: api_application
  tdc_app_spec :: "ttn_app_spec option"
  tdc_app_status :: "ttn_app_status option"
  tdc_device :: api_device
  tdc_device_spec :: ttn_device_spec

record ttn_dev_deconstruct =
  tdd_app_spec :: "ttn_app_spec option"
  tdd_app_status :: "ttn_app_status option"
  tdd_device :: api_device

definition ttn_dev_eval ::
  "ttn_op_env \<Rightarrow> api_application \<times> api_device \<Rightarrow> ttn_stop + (api_device, ttn_dev_construct, ttn_dev_deconstruct) reconcile_state" where
  "ttn_dev_eval env input =
     (let (app, device) = input in
      rbind (section_checked env (app_spec_of_json env) (pa_spec app)) (\<lambda>app_spec.
      rbind (section_checked env app_status_of_json (pa_status app)) (\<lambda>app_status.
      rbind (section_checked env device_spec_of_json (pd_spec device)) (\<lambda>device_spec.
        Inr (eval_requested (device_spec \<noteq> None) (TTN_FINALIZER \<in> set (pd_finalizers device)) (pd_deletion_timestamp device \<noteq> None)
          device \<lparr>tdc_app = app, tdc_app_spec = app_spec, tdc_app_status = app_status, tdc_device = device, tdc_device_spec = the device_spec\<rparr>
          \<lparr>tdd_app_spec = app_spec, tdd_app_status = app_status, tdd_device = device\<rparr>)))))"

definition ensure_gateway_for_device :: "ttn_op_env \<Rightarrow> api_device \<Rightarrow> (bool \<times> api_device) ttn_io" where
  "ensure_gateway_for_device env device w =
     (let original_gw = (case to_gateway_selector env device of Some gw \<Rightarrow> gw | None \<Rightarrow> []);
          gw = [''ttn-gateway'']
      in case to_set_gateway_selector env gw device of
           Inr device \<Rightarrow> (Inr (gw \<noteq> original_gw, device), w)
         | Inl e \<Rightarrow> stop_with (Permanent e) w)"

definition or_default :: "string option \<Rightarrow> string \<Rightarrow> string" where
  "or_default s d = (case s of Some x \<Rightarrow> if x = [] then d else x | None \<Rightarrow> d)"

definition make_ttn_device :: "string \<Rightarrow> string \<Rightarrow> ttn_device_spec \<Rightarrow> ttn_device" where
  "make_ttn_device ttn_device_id server spec =
     \<lparr>tv_ids = \<lparr>ti_device_id = ttn_device_id, ti_dev_eui = td_dev_eui spec, ti_join_eui = td_app_eui spec\<rparr>,
      tv_end_device = \<lparr>te_name = ttn_device_id, te_network_server_address = server, te_application_server_address = server,
        te_join_server_address = server\<rparr>,
      tv_ns_device = \<lparr>tn_multicast = False, tn_supports_join = True,
        tn_lorawan_version = or_default (td_lorawan_version spec) ''MAC_V1_0'',
        tn_lorawan_phy_version = or_default (td_lorawan_phy_version spec) ''PHY_V1_0'',
        tn_mac_settings = [(''supports_32_bit_f_cnt'', Bool True)], tn_supports_class_b = td_supports_class_b spec,
        tn_supports_class_c = td_supports_class_b spec, tn_frequency_plan_id = td_frequency_plan_id spec\<rparr>,
      tv_js_device = \<lparr>tj_network_server_address = server, tj_application_server_address = server, tj_join_server_address = server,
        tj_network_server_kek_label = [], tj_application_server_kek_label = [], tj_application_server_id = [],
        tj_net_id = Null, tj_app_key = td_app_key spec\<rparr>\<rparr>"

definition ensure_device :: "ttn_op_env \<Rightarrow> string \<Rightarrow> ttn_app_spec \<Rightarrow> string \<Rightarrow> ttn_device_spec \<Rightarrow> unit ttn_io" where
  "ensure_device env ttn_device_id app_spec ttn_app_id spec w =
     io_bind (to_context env (ts_api app_spec) w) (\<lambda>ctx w.
     io_bind (ttn_get_device (to_ttn env) ttn_app_id ttn_device_id ctx w) (\<lambda>ttn_device w.
       case region_url env (ta_region (ts_api app_spec)) of
         Inl _ \<Rightarrow> stop_with (Permanent ''Failed to parse TTN API URL'') w
       | Inr server \<Rightarrow>
           (case to_host env server of
              None \<Rightarrow> stop_with (Permanent ''Missing hostname of TTP API'') w
            | Some server \<Rightarrow>
                let device = make_ttn_device ttn_device_id server spec in
                case ttn_device of
                  None \<Rightarrow> ttn_create_device (to_ttn env) ttn_app_id device ctx w
                | Some _ \<Rightarrow> ttn_update_device (to_ttn env) ttn_app_id device ctx w)))"

definition set_device_status :: "ttn_device_status \<Rightarrow> api_device \<Rightarrow> api_device" where
  "set_device_status st device = device\<lparr>pd_status := AList.update ''ttn'' (device_status_json st) (pd_status device)\<rparr>"

definition ttn_construct_dev :: "ttn_op_env \<Rightarrow> ttn_dev_construct \<Rightarrow> api_device process_result ttn_io" where
  "ttn_construct_dev env ctx w =
     (let (added, fs) = to_ensure_finalizer env TTN_FINALIZER (pd_finalizers (tdc_device ctx));
          device = (tdc_device ctx)\<lparr>pd_finalizers := fs\<rparr>
      in if added then (Inr (ProcRetry device None), w)
         else let device_status = (case section_lenient device_status_of_json (pd_status device) of
                  Some st \<Rightarrow> st | None \<Rightarrow> \<lparr>tds_reconcile = default_reconcile\<rparr>) in
         case tdc_app_spec ctx of
           None \<Rightarrow> stop_with (Permanent ''Missing TTN configuration in application. Unable to process.'') w
         | Some app_spec \<Rightarrow>
         (case tdc_app_status ctx of
            None \<Rightarrow> stop_with (Temporary ''Missing TTN status information in application. Waiting ...'') w
          | Some app_status \<Rightarrow>
              let app_id = (case tas_app_id app_status of Some i \<Rightarrow> i | None \<Rightarrow> pa_name (tdc_app ctx)) in
              io_bind (ensure_stable_app_id (pa_name (tdc_app ctx)) app_spec app_id w) (\<lambda>_ w.
              io_bind (ensure_gateway_for_device env device w) (\<lambda>(changed, device) w.
                if changed then (Inr (ProcRetry device None), w)
                else io_bind (ensure_device env (pd_name device) app_spec app_id (tdc_device_spec ctx) w) (\<lambda>_ w.
                  (Inr (ProcComplete (set_device_status (device_status\<lparr>tds_reconcile := reconciled_status (pd_generation device)\<rparr>) device)), w))))))"

definition ttn_deconstruct_dev :: "ttn_op_env \<Rightarrow> ttn_dev_deconstruct \<Rightarrow> api_device process_result ttn_io" where
  "ttn_deconstruct_dev env ctx w =
     (let device = (tdd_device ctx)\<lparr>pd_spec := AList.delete (to_selector_key env) (pd_spec (tdd_device ctx))\<rparr> in
      io_bind (case Option.bind (tdd_app_status ctx) tas_app_id of
                 Some app_id \<Rightarrow>
                   (case tdd_app_spec ctx of
                      None \<Rightarrow> stop_with (Permanent ''Missing API configuration in application.'') w
                    | Some app_spec \<Rightarrow>
                        io_bind (to_context env (ts_api app_spec) w) (\<lambda>ttn_ctx. ttn_delete_device (to_ttn env) app_id (pd_name device) ttn_ctx))
               | None \<Rightarrow> (Inr (), w)) (\<lambda>_ w.
        (Inr (ProcComplete (device\<lparr>pd_status := AList.delete ''ttn'' (pd_status device),
            pd_finalizers := to_remove_finalizer env TTN_FINALIZER (pd_finalizers device)\<rparr>)), w)))"

definition ttn_dev_reconciler ::
  "ttn_op_env \<Rightarrow> (api_application \<times> api_device, api_device, ttn_dev_construct, ttn_dev_deconstruct, ttn_history, ttn_stop) reconciler" where
  "ttn_dev_reconciler env =
     \<lparr>rr_eval_state = ttn_dev_eval env, rr_construct = ttn_construct_dev env, rr_deconstruct = ttn_deconstruct_dev env\<rparr>"

definition ttn_dev_process :: "ttn_op_env \<Rightarrow> api_application \<times> api_device \<Rightarrow> api_device process_result ttn_io" where
  "ttn_dev_process env input w = reconcile (ttn_dev_reconciler env) input w"

definition ttn_dev_recover :: "string \<Rightarrow> api_application \<times> api_device \<Rightarrow> unit + api_device" where
  "ttn_dev_recover message input =
     (let device = snd input in
      rbind (update_section device_status_of_json device_status_json \<lparr>tds_reconcile = default_reconcile\<rparr>
          (\<lambda>st. st\<lparr>tds_reconcile := failed_status (pd_generation device) message\<rparr>) (pd_status device)) (\<lambda>sections.
        Inr (device\<lparr>pd_status := sections\<rparr>)))"

section \<open>Events\<close>

text \<open>The changes of the registry that the operator reconciles.\<close>

definition ttn_app_relevant :: "event \<Rightarrow> string option" where
  "ttn_app_relevant = relevant_app [''.'', ''.metadata'', ''.spec.ttn'']"

definition ttn_device_relevant :: "event \<Rightarrow> (string \<times> string) option" where
  "ttn_device_relevant = relevant_device [''.'', ''.metadata'', ''.spec.ttn'', ''.spec.gatewaySelector'']"

section \<open>Effects of the operator\<close>

text \<open>What the client library promises of finalizers and of setting a section.\<close>

definition client_library :: "ttn_op_env \<Rightarrow> bool" where
  "client_library env \<longleftrightarrow>
     (\<forall>f fs. (fst (to_ensure_finalizer env f fs) \<longleftrightarrow> f \<notin> set fs) \<and> f \<in> set (snd (to_ensure_finalizer env f fs)) \<and> f \<notin> set (to_remove_finalizer env f fs))
     \<and> (\<forall>gw d d'. to_set_gateway_selector env gw d = Inr d' \<longrightarrow> (\<exists>sp. d' = d\<lparr>pd_spec := sp\<rparr>))"

definition resource_of :: "'r process_result \<Rightarrow> 'r" where
  "resource_of p = (case p of ProcComplete r \<Rightarrow> r | ProcRetry r _ \<Rightarrow> r)"

lemma resource_of_simps [simp]: "resource_of (ProcComplete r) = r" "resource_of (ProcRetry r t) = r"
  by (simp_all add: resource_of_def)

lemma to_context_does [does_intros]: "does P (to_context env api)"
  by (simp add: does_def to_context_def stop_with_def split: sum.splits)

definition context_of :: "ttn_op_env \<Rightarrow> ttn_app_api \<Rightarrow> ttn_context" where
  "context_of env api = \<lparr>tx_api_key = ta_api_key api, tx_url = projr (region_url env (ta_region api))\<rparr>"

lemma to_context_Inr: "to_context env api w = (Inr ctx, w') \<Longrightarrow> ctx = context_of env api \<and> w' = w"
  by (auto simp: to_context_def context_of_def stop_with_def split: sum.splits)

lemma eval_requested_cases:
  obtains "eval_requested rq cf dl i c d = Ignore i" "\<not> rq" "\<not> cf"
  | "eval_requested rq cf dl i c d = Construct c" "rq" "\<not> dl"
  | "eval_requested rq cf dl i c d = Deconstruct d" "dl \<or> \<not> rq \<and> cf"
  by (cases rq; cases cf; cases dl) auto

lemma section_checked_lenient:
  "section_checked env decode m = Inr a \<Longrightarrow> section_lenient decode m = a"
  by (auto simp: section_checked_def section_lenient_def split: option.splits sum.splits)

lemma dev_process_cases:
  assumes "ttn_dev_process env (app, device) w = (r, w')"
  obtains (idle) "w' = w" "\<And>p. r = Inr p \<Longrightarrow> p = ProcComplete device \<and> section_lenient device_spec_of_json (pd_spec device) = None"
  | (construct) ctx where "ttn_construct_dev env ctx w = (r, w')" "tdc_device ctx = device" "tdc_app ctx = app" "pd_deletion_timestamp device = None"
      "tdc_app_spec ctx = section_lenient (app_spec_of_json env) (pa_spec app)" "tdc_app_status ctx = section_lenient app_status_of_json (pa_status app)"
      "section_lenient device_spec_of_json (pd_spec device) = Some (tdc_device_spec ctx)"
  | (deconstruct) ctx where "ttn_deconstruct_dev env ctx w = (r, w')" "tdd_device ctx = device"
      "pd_deletion_timestamp device \<noteq> None \<or> section_lenient device_spec_of_json (pd_spec device) = None"
      "tdd_app_spec ctx = section_lenient (app_spec_of_json env) (pa_spec app)" "tdd_app_status ctx = section_lenient app_status_of_json (pa_status app)"
proof (cases "ttn_dev_eval env (app, device)")
  case (Inl e)
  then have "w' = w" "r = Inl e" using assms by (auto simp: ttn_dev_process_def reconcile_def ttn_dev_reconciler_def)
  then show ?thesis using idle by blast
next
  case (Inr st)
  then obtain as ast ds where sec: "section_checked env (app_spec_of_json env) (pa_spec app) = Inr as"
      "section_checked env app_status_of_json (pa_status app) = Inr ast" "section_checked env device_spec_of_json (pd_spec device) = Inr ds"
    and st: "st = eval_requested (ds \<noteq> None) (TTN_FINALIZER \<in> set (pd_finalizers device)) (pd_deletion_timestamp device \<noteq> None) device
        \<lparr>tdc_app = app, tdc_app_spec = as, tdc_app_status = ast, tdc_device = device, tdc_device_spec = the ds\<rparr>
        \<lparr>tdd_app_spec = as, tdd_app_status = ast, tdd_device = device\<rparr>"
    by (auto simp: ttn_dev_eval_def Let_def result_simps)
  note len = sec[THEN section_checked_lenient]
  show ?thesis
  proof (cases rule: eval_requested_cases[of "ds \<noteq> None" "TTN_FINALIZER \<in> set (pd_finalizers device)" "pd_deletion_timestamp device \<noteq> None" device
        "\<lparr>tdc_app = app, tdc_app_spec = as, tdc_app_status = ast, tdc_device = device, tdc_device_spec = the ds\<rparr>"
        "\<lparr>tdd_app_spec = as, tdd_app_status = ast, tdd_device = device\<rparr>"])
    case 1
    then have "w' = w" "r = Inr (ProcComplete device) \<and> section_lenient device_spec_of_json (pd_spec device) = None"
      using assms by (auto simp: ttn_dev_process_def reconcile_def ttn_dev_reconciler_def Inr st len)
    then show ?thesis using idle by blast
  next
    case 2
    then show ?thesis using assms construct[OF _ _ _ _ _ _] by (auto simp: ttn_dev_process_def reconcile_def ttn_dev_reconciler_def Inr st len)
  next
    case 3
    then show ?thesis using assms deconstruct by (auto simp: ttn_dev_process_def reconcile_def ttn_dev_reconciler_def Inr st len)
  qed
qed

lemma deconstruct_dev_does: "does is_delete (ttn_deconstruct_dev env ctx)"
  unfolding ttn_deconstruct_dev_def Let_def
  by (cases "Option.bind (tdd_app_status ctx) tas_app_id"; cases "tdd_app_spec ctx") (auto intro!: does_intros delete_device_does)

lemma deconstruct_dev_ran:
  assumes "ttn_deconstruct_dev env ctx w = (Inr p, w')" and "Option.bind (tdd_app_status ctx) tas_app_id = Some app_id"
  shows "\<exists>spec. tdd_app_spec ctx = Some spec
     \<and> performed (to_ttn env) w (delete_requests (to_ttn env) (context_of env (ts_api spec)) app_id (pd_name (tdd_device ctx))) w'"
proof (cases "tdd_app_spec ctx")
  case None
  then show ?thesis using assms by (auto simp: ttn_deconstruct_dev_def Let_def io_bind_Inr stop_with_def)
next
  case (Some spec)
  then show ?thesis using assms
    by (auto simp: ttn_deconstruct_dev_def Let_def io_bind_Inr dest!: to_context_Inr delete_device_ran)
qed

lemma construct_dev_finalizer:
  assumes "client_library env" and "ttn_construct_dev env ctx w = (r, w')"
  shows "TTN_FINALIZER \<notin> set (pd_finalizers (tdc_device ctx)) \<Longrightarrow> w' = w"
    "r = Inr p \<Longrightarrow> TTN_FINALIZER \<in> set (pd_finalizers (resource_of p))"
proof -
  obtain added fs where fs: "to_ensure_finalizer env TTN_FINALIZER (pd_finalizers (tdc_device ctx)) = (added, fs)" by force
  have lib: "added \<longleftrightarrow> TTN_FINALIZER \<notin> set (pd_finalizers (tdc_device ctx))" "TTN_FINALIZER \<in> set fs"
      "\<And>gw d d'. to_set_gateway_selector env gw d = Inr d' \<Longrightarrow> pd_finalizers d' = pd_finalizers d"
    using assms(1) fs unfolding client_library_def by (metis fst_conv, metis snd_conv, force)
  show "w' = w" if "TTN_FINALIZER \<notin> set (pd_finalizers (tdc_device ctx))" using assms(2) fs lib(1) that by (simp add: ttn_construct_dev_def)
  show "TTN_FINALIZER \<in> set (pd_finalizers (resource_of p))" if "r = Inr p"
    using assms(2) fs lib(2) that unfolding ttn_construct_dev_def
    by (auto simp: Let_def io_bind_Inr stop_with_def ensure_gateway_for_device_def set_device_status_def dest!: lib(3)
        split: option.splits if_splits sum.splits prod.splits)
qed

text \<open>
  C29. The finalizer of a device guards what the operator has created for it in The Things
  Network.  Without the finalizer, the operator only deletes; and when it removes the
  finalizer of a device whose application is known to the network, the network has confirmed
  the deletion of the device on all of its four servers before, or that the device was not there.
\<close>

theorem ttn_device_finalizer_guards:
  assumes "client_library env" and "ttn_dev_process env (app, device) w = (r, w')"
  shows "(TTN_FINALIZER \<notin> set (pd_finalizers device) \<longrightarrow> (\<exists>cs. w' = w @ cs \<and> (\<forall>c \<in> set cs. is_delete c)))
     \<and> (\<forall>p app_id. r = Inr p \<and> TTN_FINALIZER \<in> set (pd_finalizers device) \<and> TTN_FINALIZER \<notin> set (pd_finalizers (resource_of p))
          \<and> Option.bind (section_lenient app_status_of_json (pa_status app)) tas_app_id = Some app_id \<longrightarrow>
          (\<exists>spec. section_lenient (app_spec_of_json env) (pa_spec app) = Some spec
             \<and> performed (to_ttn env) w (delete_requests (to_ttn env) (context_of env (ts_api spec)) app_id (pd_name device)) w'))"
  using assms(2)
proof (cases rule: dev_process_cases)
  case idle
  then show ?thesis by auto
next
  case (construct ctx)
  show ?thesis using construct_dev_finalizer[OF assms(1) construct(1)] construct(2) by auto
next
  case (deconstruct ctx)
  obtain cs where "w' = w @ cs" "\<forall>c \<in> set cs. is_delete c" using doesD[OF deconstruct_dev_does deconstruct(1)] .
  then show ?thesis using deconstruct_dev_ran[of env ctx w _ w'] deconstruct by auto
qed

text \<open>A status that was stored is read again as it was.\<close>

lemma reconcile_object_roundtrip:
  "map_of rest ''reason'' = None \<Longrightarrow> reconcile_of_object (reconcile_object st @ rest) = Inr st"
  by (cases "tg_reason st") (auto simp: reconcile_of_object_def reconcile_object_def get_str_def get_opt_str_def)

lemma app_status_roundtrip: "app_status_of_json (app_status_json st) = Inr st"
proof -
  have "map_of (reconcile_object (tas_reconcile st)) ''appId'' = None" by (auto simp: reconcile_object_def split: option.splits)
  then show ?thesis
    by (cases "tas_app_id st") (simp_all add: app_status_of_json_def app_status_json_def reconcile_object_roundtrip get_opt_str_def map_add_def)
qed

lemma device_status_roundtrip: "device_status_of_json (device_status_json st) = Inr st"
  using reconcile_object_roundtrip[of "[]" "tds_reconcile st"] by (simp add: device_status_of_json_def device_status_json_def get_with_def)

lemma section_lenient_update: "decode j = Inr a \<Longrightarrow> section_lenient decode (AList.update ''ttn'' j m) = Some a"
  by (simp add: section_lenient_def update_conv')

lemma ensure_device_ran:
  assumes "ensure_device env device_id app_spec app_id spec w = (Inr x, w')"
  shows "\<exists>server found. let ctx = context_of env (ts_api app_spec) in to_host env (tx_url ctx) = Some server
     \<and> performed (to_ttn env) w ((ttn_request_for ctx GET (ttn_url (to_ttn env) ctx [''api'', ''v3'', ''applications'', app_id, ''devices'', device_id]) None,
          if found then [200] else [404]) # write_requests (to_ttn env) ctx (\<not> found) app_id (make_ttn_device device_id server spec)) w'"
proof -
  obtain url where url: "region_url env (ta_region (ts_api app_spec)) = Inr url"
    using assms by (auto simp: ensure_device_def io_bind_Inr to_context_def stop_with_def split: sum.splits)
  let ?ctx = "context_of env (ts_api app_spec)"
  have ctx: "to_context env (ts_api app_spec) w = (Inr ?ctx, w)" "tx_url ?ctx = url" by (simp_all add: to_context_def context_of_def url)
  obtain d w1 server where d: "ttn_get_device (to_ttn env) app_id device_id ?ctx w = (Inr d, w1)" and server: "to_host env url = Some server"
    and wr: "(if d = None then ttn_create_device (to_ttn env) app_id (make_ttn_device device_id server spec) ?ctx w1
        else ttn_update_device (to_ttn env) app_id (make_ttn_device device_id server spec) ?ctx w1) = (Inr x, w')"
    using assms by (auto simp: ensure_device_def ctx io_bind_Inr url stop_with_def Let_def split: option.splits)
  from performed_append[OF get_device_ran[OF d] write_device_ran[OF wr]] server ctx(2) show ?thesis
    by (intro exI[of _ server] exI[of _ "d \<noteq> None"]) auto
qed

lemma device_status_update [simp]: "st\<lparr>tds_reconcile := r\<rparr> = \<lparr>tds_reconcile = r\<rparr>"
  by (cases st) simp

lemma construct_dev_complete:
  assumes "client_library env" and "ttn_construct_dev env ctx w = (Inr (ProcComplete d), w')"
  shows "\<exists>app_spec app_status. tdc_app_spec ctx = Some app_spec \<and> tdc_app_status ctx = Some app_status
     \<and> ensure_device env (pd_name (tdc_device ctx)) app_spec (case tas_app_id app_status of Some i \<Rightarrow> i | None \<Rightarrow> pa_name (tdc_app ctx))
         (tdc_device_spec ctx) w = (Inr (), w')
     \<and> section_lenient device_status_of_json (pd_status d) = Some \<lparr>tds_reconcile = reconciled_status (pd_generation (tdc_device ctx))\<rparr>
     \<and> TTN_FINALIZER \<in> set (pd_finalizers (tdc_device ctx))"
proof -
  let ?dev = "tdc_device ctx"
  obtain added fs where fs: "to_ensure_finalizer env TTN_FINALIZER (pd_finalizers ?dev) = (added, fs)" by force
  have lib: "added \<longleftrightarrow> TTN_FINALIZER \<notin> set (pd_finalizers ?dev)"
      "\<And>gw d d'. to_set_gateway_selector env gw d = Inr d' \<Longrightarrow> \<exists>sp. d' = d\<lparr>pd_spec := sp\<rparr>"
    using assms(1) fs unfolding client_library_def by (metis fst_conv, force)
  note run = assms(2)[unfolded ttn_construct_dev_def fs Let_def case_prod_conv]
  have fin: "\<not> added" using run by (auto split: if_splits)
  obtain app_spec where as: "tdc_app_spec ctx = Some app_spec" using run fin by (auto simp: stop_with_def split: option.splits)
  obtain app_status where ast: "tdc_app_status ctx = Some app_status" using run fin as by (auto simp: stop_with_def split: option.splits)
  obtain device' where set: "to_set_gateway_selector env [''ttn-gateway''] (?dev\<lparr>pd_finalizers := fs\<rparr>) = Inr device'"
    and dev: "ensure_device env (pd_name device') app_spec (case tas_app_id app_status of Some i \<Rightarrow> i | None \<Rightarrow> pa_name (tdc_app ctx)) (tdc_device_spec ctx) w = (Inr (), w')"
    and d: "d = set_device_status \<lparr>tds_reconcile = reconciled_status (pd_generation device')\<rparr> device'"
    using run fin as ast
    by (auto simp: io_bind_Inr stop_with_def ensure_stable_app_id_def ensure_gateway_for_device_def Let_def split: if_splits sum.splits)
  obtain sp where dev': "device' = ?dev\<lparr>pd_finalizers := fs, pd_spec := sp\<rparr>" using lib(2)[OF set] by auto
  have "section_lenient device_status_of_json (pd_status d) = Some \<lparr>tds_reconcile = reconciled_status (pd_generation ?dev)\<rparr>"
    by (simp add: d dev' set_device_status_def section_lenient_update device_status_roundtrip)
  then show ?thesis using as ast dev fin lib(1) by (simp add: dev')
qed

text \<open>
  When the reconciliation of a device is complete, the device is in sync with The Things
  Network: it was looked up, and then written to the registry of the network and to its
  network, join and application servers, in this order and each time confirmed, as the
  section of the device asks for; the status of the device tells the generation that is in sync.
\<close>

theorem ttn_device_complete:
  assumes "client_library env" and "ttn_dev_process env (app, device) w = (Inr (ProcComplete d), w')"
    and "section_lenient device_spec_of_json (pd_spec device) = Some spec" and "pd_deletion_timestamp device = None"
  shows "\<exists>app_spec app_status server found.
     section_lenient (app_spec_of_json env) (pa_spec app) = Some app_spec \<and> section_lenient app_status_of_json (pa_status app) = Some app_status \<and>
     (let ctx = context_of env (ts_api app_spec); app_id = (case tas_app_id app_status of Some i \<Rightarrow> i | None \<Rightarrow> pa_name app) in
       to_host env (tx_url ctx) = Some server
       \<and> performed (to_ttn env) w ((ttn_request_for ctx GET (ttn_url (to_ttn env) ctx [''api'', ''v3'', ''applications'', app_id, ''devices'', pd_name device]) None,
            if found then [200] else [404]) # write_requests (to_ttn env) ctx (\<not> found) app_id (make_ttn_device (pd_name device) server spec)) w')
     \<and> section_lenient device_status_of_json (pd_status d) = Some \<lparr>tds_reconcile = reconciled_status (pd_generation device)\<rparr>
     \<and> TTN_FINALIZER \<in> set (pd_finalizers device)"
  using assms(2)
proof (cases rule: dev_process_cases)
  case (construct ctx)
  have spec: "tdc_device_spec ctx = spec" using construct(7) assms(3) by simp
  obtain app_spec app_status where app: "tdc_app_spec ctx = Some app_spec" "tdc_app_status ctx = Some app_status"
    and run: "ensure_device env (pd_name device) app_spec (case tas_app_id app_status of Some i \<Rightarrow> i | None \<Rightarrow> pa_name app) spec w = (Inr (), w')"
    and d: "section_lenient device_status_of_json (pd_status d) = Some \<lparr>tds_reconcile = reconciled_status (pd_generation device)\<rparr>"
      "TTN_FINALIZER \<in> set (pd_finalizers device)"
    using construct_dev_complete[OF assms(1) construct(1), unfolded construct(2,3) spec] by blast
  from ensure_device_ran[OF run] app d show ?thesis unfolding construct(5,6) Let_def by blast
qed (use assms(3,4) in auto)

text \<open>
  C40. A failed setup leaks: when the first reconciliation of an application fails, whatever it
  has created in The Things Network by then, only the failure is stored and not the
  identifier of the application.  If the application is deleted next, the operator removes
  its finalizer without asking the network to delete anything.
\<close>

theorem ttn_failed_setup_leaks:
  assumes "client_library env" and "section_checked env (app_spec_of_json env) (pa_spec app) = Inr (Some spec)"
    and "map_of (pa_status app) ''ttn'' = None" and "ttn_app_process env app w = (Inl (Failed e), w1)"
    and "ttn_app_recover msg app = Inr app1"
  shows "\<exists>app2. ttn_app_process env (app1\<lparr>pa_deletion_timestamp := Some t\<rparr>) w1 = (Inr (ProcComplete app2), w1)
     \<and> TTN_FINALIZER \<notin> set (pa_finalizers app2)"
proof -
  have app1: "pa_spec app1 = pa_spec app"
      "section_lenient app_status_of_json (pa_status app1) = Some \<lparr>tas_reconcile = failed_status (pa_generation app) msg, tas_app_id = None\<rparr>"
    using assms(3,5) by (auto simp: ttn_app_recover_def update_section_def section_lenient_update app_status_roundtrip)
  have "TTN_FINALIZER \<notin> set (to_remove_finalizer env TTN_FINALIZER fs)" for fs using assms(1) by (simp add: client_library_def)
  then show ?thesis
    by (simp add: ttn_app_process_def reconcile_def ttn_app_reconciler_def ttn_app_eval_def app1 assms(2) Let_def ttn_deconstruct_app_def)
qed

text \<open>
  The class C of a device is never passed on: the flag of class B is sent twice.
\<close>

lemma class_c_is_class_b: "tn_supports_class_c (tv_ns_device (make_ttn_device i server spec)) = td_supports_class_b spec"
  by (simp add: make_ttn_device_def)

text \<open>
  The webhook is written in every reconciliation: the comparison expects a field \<open>uplink\<close>, which the
  operator neither writes nor asks for.
\<close>

lemma webhook_always_updated:
  assumes "map_of m ''uplink'' = None" and "map_of m ''headers'' = Some (Object hs)"
  shows "need_webhook_update (Object m) url auth = Some True"
proof -
  let ?m = "AList.update ''format'' (String ''json'') (AList.update ''base_url'' (String url) m)"
  let ?e = "AList.update ''uplink'' (Object []) (AList.update ''headers'' (Object (AList.update ''Authorization'' (String auth) hs)) ?m)"
  have "(''uplink'', Object []) \<in> set ?e" by (rule map_of_SomeD) (simp add: update_conv')
  then have "\<not> json_eq (Object ?e) (Object m)" using assms(1) by (auto intro!: bexI[of _ "(''uplink'', Object [])"])
  then show ?thesis
    using assms(2) by (simp add: need_webhook_update_def json_set_def json_set2_def update_conv')
qed

section \<open>An example\<close>

text \<open>A server with nothing in it, which accepts everything but webhooks.\<close>

definition demo_server :: ttn_env where
  "demo_server =
     \<lparr>tt_send = (\<lambda>h rq. Inr \<lparr>tp_status = (if tr_method rq = GET then 404 else if ''webhooks'' \<in> set (split_on (CHR ''/'') (tr_url rq)) then 500 else 200),
        tp_text = Inr [], tp_json = Inr Null\<rparr>),
      tt_extend = (\<lambda>url path. Some (join ''/'' (url # path))), tt_query = (\<lambda>url k v. url @ ''?'' @ k @ ''='' @ v), tt_status_text = nat_str\<rparr>"

definition demo_ttn :: ttn_op_env where
  "demo_ttn =
     \<lparr>to_ttn = demo_server, to_parse_url = (\<lambda>s. if starts_with s ''https://'' then Inr s else Inl ''relative URL''), to_host = (\<lambda>_. Some ''eu1''),
      to_decode_error = (\<lambda>_. []), to_ensure_finalizer = (\<lambda>f fs. (f \<notin> set fs, if f \<in> set fs then fs else fs @ [f])),
      to_remove_finalizer = removeAll, to_get_device = (\<lambda>_ _ _. Inr None), to_create_device = (\<lambda>_ _. Inr ()), to_update_device = (\<lambda>_ _. Inr ()),
      to_default_device = \<lparr>pd_name = [], pd_application = [], pd_uid = [], pd_resource_version = [], pd_labels = [], pd_annotations = [],
        pd_creation_timestamp = 0, pd_generation = 0, pd_deletion_timestamp = None, pd_finalizers = [], pd_spec = [], pd_status = []\<rparr>,
      to_authentication = (\<lambda>_. None), to_add_credential = (\<lambda>_. Inr), to_set_commands = (\<lambda>_. Inr),
      to_gateway_selector = (\<lambda>_. Some [''ttn-gateway'']), to_set_gateway_selector = (\<lambda>_. Inr), to_selector_key = ''gatewaySelector'',
      to_password = (\<lambda>_. ''secret''), to_basic = (\<lambda>u p. Some (u @ p)), to_endpoint_url = ''https://endpoint''\<rparr>"

definition demo_ttn_spec :: json where
  "demo_ttn_spec = Object [(''api'', Object [(''apiKey'', String ''key''), (''region'', String ''eu1''), (''owner'', String ''me'')])]"

definition demo_ttn_app :: "json smap \<Rightarrow> api_application" where
  "demo_ttn_app status = \<lparr>pa_name = ''app'', pa_uid = [], pa_resource_version = [], pa_labels = [], pa_annotations = [], pa_creation_timestamp = 0,
     pa_generation = 1, pa_deletion_timestamp = None, pa_finalizers = [''ttn''], pa_spec = [(''ttn'', demo_ttn_spec)], pa_status = status\<rparr>"

definition demo_app_status :: "json smap" where
  "demo_app_status = [(''ttn'', app_status_json \<lparr>tas_reconcile = reconciled_status 1, tas_app_id = Some ''app''\<rparr>)]"

definition demo_ttn_device :: "timestamp option \<Rightarrow> api_device" where
  "demo_ttn_device deleted = (to_default_device demo_ttn)\<lparr>pd_name := ''dev'', pd_application := ''app'', pd_generation := 3, pd_finalizers := [''ttn''],
     pd_deletion_timestamp := deleted,
     pd_spec := [(''ttn'', Object [(''dev_eui'', String ''e1''), (''app_eui'', String ''e2''), (''app_key'', String ''k''), (''frequency_plan_id'', String ''EU'')])]\<rparr>"

lemma demo_client_library: "client_library demo_ttn"
proof -
  have "\<exists>sp. d = d\<lparr>pd_spec := sp\<rparr>" for d :: api_device by (rule exI[of _ "pd_spec d"]) simp
  then show ?thesis by (auto simp: client_library_def demo_ttn_def)
qed

lemmas ttn_run_defs = ttn_dev_process_def reconcile_def ttn_dev_reconciler_def ttn_dev_eval_def ttn_construct_dev_def ttn_deconstruct_dev_def
  section_checked_def app_spec_of_json_def device_spec_of_json_def get_with_def get_str_def get_opt_str_def get_flag_def
  ensure_stable_app_id_def ensure_gateway_for_device_def ensure_device_def to_context_def region_url_def Let_def
  ttn_get_device_def ttn_create_device_def set_ns_js_as_def put_device_json_def ttn_delete_device_def delete_device_json_def
  url_for_def ttn_send_def ttn_request_for_def accept_document_def accept_codes_def

lemmas demo_ttn_defs = demo_ttn_def demo_server_def demo_ttn_app_def demo_app_status_def demo_ttn_device_def demo_ttn_spec_def
  app_status_roundtrip TTN_FINALIZER_def starts_with_def

theorem ttn_device_finalizer_guards_witness:
  "\<exists>p w'. ttn_dev_process demo_ttn (demo_ttn_app demo_app_status, demo_ttn_device (Some 5)) [] = (Inr p, w')
     \<and> TTN_FINALIZER \<notin> set (pd_finalizers (resource_of p))
     \<and> (\<exists>spec :: ttn_app_spec. performed demo_server [] (delete_requests demo_server (context_of demo_ttn (ts_api spec)) ''app'' ''dev'') w')"
proof -
  let ?run = "ttn_dev_process demo_ttn (demo_ttn_app demo_app_status, demo_ttn_device (Some 5)) []"
  have "case ?run of (Inr p, _) \<Rightarrow> TTN_FINALIZER \<notin> set (pd_finalizers (resource_of p)) | _ \<Rightarrow> False"
    by (simp add: ttn_run_defs demo_ttn_defs)
  then obtain p w' where run: "?run = (Inr p, w')" and p: "TTN_FINALIZER \<notin> set (pd_finalizers (resource_of p))"
    by (auto split: prod.splits sum.splits)
  have "TTN_FINALIZER \<in> set (pd_finalizers (demo_ttn_device (Some 5)))" "pd_name (demo_ttn_device (Some 5)) = ''dev''" "to_ttn demo_ttn = demo_server"
    "Option.bind (section_lenient app_status_of_json (pa_status (demo_ttn_app demo_app_status))) tas_app_id = Some ''app''"
    by (simp_all add: demo_ttn_defs section_lenient_def)
  with ttn_device_finalizer_guards[OF demo_client_library run] p
  have "\<exists>spec :: ttn_app_spec. performed demo_server [] (delete_requests demo_server (context_of demo_ttn (ts_api spec)) ''app'' ''dev'') w'" by auto
  with run p show ?thesis by blast
qed

theorem ttn_device_complete_witness:
  "\<exists>d w'. ttn_dev_process demo_ttn (demo_ttn_app demo_app_status, demo_ttn_device None) [] = (Inr (ProcComplete d), w')
     \<and> length w' = 5 \<and> section_lenient device_status_of_json (pd_status d) = Some \<lparr>tds_reconcile = reconciled_status 3\<rparr>"
proof -
  let ?run = "ttn_dev_process demo_ttn (demo_ttn_app demo_app_status, demo_ttn_device None) []"
  have "case ?run of (Inr (ProcComplete d), _) \<Rightarrow> True | _ \<Rightarrow> False" by (simp add: ttn_run_defs demo_ttn_defs make_ttn_device_def)
  then obtain d w' where run: "?run = (Inr (ProcComplete d), w')" by (auto split: prod.splits sum.splits process_result.splits)
  have dev: "pd_deletion_timestamp (demo_ttn_device None) = None" "pd_generation (demo_ttn_device None) = 3"
    "case section_lenient device_spec_of_json (pd_spec (demo_ttn_device None)) of Some _ \<Rightarrow> True | None \<Rightarrow> False" by code_simp+
  then obtain spec where "section_lenient device_spec_of_json (pd_spec (demo_ttn_device None)) = Some spec" by (auto split: option.splits)
  from ttn_device_complete[OF demo_client_library run this dev(1)] dev(2)
  show ?thesis by (auto simp: run performed_def write_requests_def Let_def)
qed

theorem ttn_failed_setup_leaks_witness:
  "\<exists>e w1 app1 app2. ttn_app_process demo_ttn (demo_ttn_app []) [] = (Inl (Failed e), w1)
     \<and> (\<exists>c \<in> set w1. case c of CallTtn rq \<Rightarrow> tr_method rq = POST \<and> tr_url rq = ''https://eu1.cloud.thethings.network/api/v3/users/me/applications'' | _ \<Rightarrow> False)
     \<and> ttn_app_recover ''failed'' (demo_ttn_app []) = Inr app1
     \<and> ttn_app_process demo_ttn (app1\<lparr>pa_deletion_timestamp := Some 7\<rparr>) w1 = (Inr (ProcComplete app2), w1) \<and> TTN_FINALIZER \<notin> set (pa_finalizers app2)"
proof -
  let ?run = "ttn_app_process demo_ttn (demo_ttn_app []) []"
  let ?created = "\<lambda>w. \<exists>c \<in> set w. case c of CallTtn rq \<Rightarrow> tr_method rq = POST \<and> tr_url rq = ''https://eu1.cloud.thethings.network/api/v3/users/me/applications'' | _ \<Rightarrow> False"
  have "case ?run of (Inl (Failed e), w1) \<Rightarrow> ?created w1 | _ \<Rightarrow> False" by code_simp
  then obtain e w1 where run: "?run = (Inl (Failed e), w1)" and created: "?created w1" by (auto split: prod.splits sum.splits ttn_stop.splits)
  have "case section_checked demo_ttn (app_spec_of_json demo_ttn) (pa_spec (demo_ttn_app [])) of Inr (Some _) \<Rightarrow> True | _ \<Rightarrow> False" by code_simp
  then obtain spec where spec: "section_checked demo_ttn (app_spec_of_json demo_ttn) (pa_spec (demo_ttn_app [])) = Inr (Some spec)"
    by (auto split: sum.splits option.splits)
  have "case ttn_app_recover ''failed'' (demo_ttn_app []) of Inr _ \<Rightarrow> True | _ \<Rightarrow> False" by code_simp
  then obtain app1 where app1: "ttn_app_recover ''failed'' (demo_ttn_app []) = Inr app1" by (auto split: sum.splits)
  have "map_of (pa_status (demo_ttn_app [])) ''ttn'' = None" by (simp add: demo_ttn_app_def)
  from ttn_failed_setup_leaks[OF demo_client_library spec this run app1, of 7] run created app1 show ?thesis by blast
qed

end
