(* ===== verification/Topic_Operators.thy ===== *)
theory Topic_Operators
  imports Reconciler Kafka_Names
begin

text \<open>
  The operators that create the Kafka resources of an application: with the Kafka admin API
  (\<open>topic-admin-operator/src\<close>), and through the custom resources of Strimzi
  (\<open>topic-strimzi-operator/src\<close>).

  Parameters: the Kafka admin client, the Kubernetes API, the sections, conditions and
  finalizers of the client library, and MD5.
\<close>

section \<open>What both operators use of the client library\<close>

record 'cs kafka_sections =
  ks_section :: "(api_application, 'cs) section_env"
  ks_ready_name :: string
  ks_ensure_finalizer :: "string \<Rightarrow> api_application \<Rightarrow> bool \<times> api_application"
  ks_remove_finalizer :: "string \<Rightarrow> api_application \<Rightarrow> api_application"

text \<open>\<open>recover\<close> of the operators whose status is a list of conditions.\<close>

definition recover_conditions :: "'cs kafka_sections \<Rightarrow> string \<Rightarrow> api_application \<Rightarrow> unit + api_application" where
  "recover_conditions ks message app =
     (let sx = ks_section ks;
          conditions = sx_update sx CONDITION_RECONCILED (ready_status (ReadyFailed message)) (sx_conditions sx app)
      in map_sum (\<lambda>_. ()) id (finish_ready sx (ks_ready_name ks) conditions (pa_generation app) app))"

section \<open>The admin operator\<close>

definition ADMIN_FINALIZER :: string where "ADMIN_FINALIZER = ''kafka-topic''"

record topic_config =
  tq_num_partitions :: "32 word"
  tq_num_replicas :: "32 word"
  tq_properties :: "string smap"

text \<open>\<open>ControllerConfig::translate\<close>; later properties win if two keys become the same.\<close>

definition translate_config :: "topic_config \<Rightarrow> topic_config" where
  "translate_config c = c\<lparr>tq_properties :=
     fold (\<lambda>(k, v). AList.update (map (\<lambda>ch. if ch = CHR ''_'' then CHR ''.'' else ch) k) v) (tq_properties c) []\<rparr>"

datatype kafka_code = TopicAlreadyExists | UnknownTopic | UnknownTopicOrPartition | BrokerTransportFailure | OtherCode string

datatype kafka_error = AdminOp kafka_code | AdminOpCreation string | OtherKafkaError string

record new_topic =
  nt_name :: string
  nt_num_partitions :: int
  nt_config :: "string smap"
  nt_replication :: int

record 's kafka_admin =
  kd_create_topics :: "new_topic list \<Rightarrow> 's \<Rightarrow> (kafka_error + (string \<times> kafka_code + string) list) \<times> 's"
  kd_delete_topics :: "string list \<Rightarrow> 's \<Rightarrow> (kafka_error + (string \<times> kafka_code + string) list) \<times> 's"
  kd_error_text :: "kafka_error \<Rightarrow> string"

text \<open>\<open>single_topic_response\<close> looks at the last result.\<close>

definition single_topic_response :: "kafka_error + (string \<times> kafka_code + string) list \<Rightarrow> kafka_error + unit" where
  "single_topic_response r =
     rbind r (\<lambda>rs. case rev rs of
         Inr _ # _ \<Rightarrow> Inr ()
       | Inl (_, err) # _ \<Rightarrow> Inl (AdminOp err)
       | [] \<Rightarrow> Inl (AdminOpCreation ''Missing response''))"

text \<open>\<open>try_into().unwrap_or(i32::MAX)\<close> of an unsigned number.\<close>

definition clamp_i32 :: "32 word \<Rightarrow> int" where
  "clamp_i32 n = min (uint n) (2 ^ 31 - 1)"

record admin_construct =
  yc_app :: api_application
  yc_events_topic_name :: "string option"

definition admin_accessor :: "(admin_construct, api_application) accessor" where
  "admin_accessor = \<lparr>ac_resource = yc_app, ac_set_resource = (\<lambda>app ctx. ctx\<lparr>yc_app := app\<rparr>)\<rparr>"

record 's admin_env =
  ya_config :: topic_config
  ya_admin :: "'s kafka_admin"
  ya_md5 :: "string \<Rightarrow> string"

definition new_topic_for :: "topic_config \<Rightarrow> string \<Rightarrow> new_topic" where
  "new_topic_for config topic_name =
     \<lparr>nt_name = topic_name, nt_num_partitions = clamp_i32 (tq_num_partitions config), nt_config = tq_properties config,
      nt_replication = clamp_i32 (tq_num_replicas config)\<rparr>"

definition create_topic_run :: "'s admin_env \<Rightarrow> admin_construct \<Rightarrow> 's \<Rightarrow> (reconcile_error + admin_construct step_result) \<times> 's" where
  "create_topic_run env ctx s =
     (let topic_name = make_kafka_resource_name (ya_md5 env) (Events (pa_name (yc_app ctx)));
          (r, s) = kd_create_topics (ya_admin env) [new_topic_for (ya_config env) topic_name] s;
          text = (\<lambda>err. ''Failed to create topic: '' @ kd_error_text (ya_admin env) err)
      in (case single_topic_response r of
            Inr _ \<Rightarrow> Inr (StepContinue ctx)
          | Inl (AdminOp TopicAlreadyExists) \<Rightarrow> Inr (StepContinue ctx)
          | Inl (AdminOp BrokerTransportFailure) \<Rightarrow> Inl (Temporary (text (AdminOp BrokerTransportFailure)))
          | Inl err \<Rightarrow> Inl (Permanent (text err)), s))"

definition create_topic :: "'s admin_env \<Rightarrow> (admin_construct, 's) progress_op" where
  "create_topic env =
     \<lparr>pg_type = ''CreateTopics'', pg_run = create_topic_run env, pg_when_skipped = (\<lambda>ctx. (ctx, default_status)), pg_when_failed = default_status\<rparr>"

definition admin_eval :: "api_application \<Rightarrow> reconcile_error + (api_application, admin_construct, api_application) reconcile_state" where
  "admin_eval app = Inr (eval_by_finalizer True app (pa_finalizers app) (pa_deletion_timestamp app) ADMIN_FINALIZER
     (\<lambda>app. \<lparr>yc_app = app, yc_events_topic_name = None\<rparr>) (\<lambda>app. app) (\<lambda>app. app))"

definition admin_construct_run ::
  "'cs kafka_sections \<Rightarrow> 's admin_env \<Rightarrow> admin_construct \<Rightarrow> 's \<Rightarrow> (reconcile_error + api_application process_result) \<times> 's" where
  "admin_construct_run ks env ctx s =
     run_with (ks_section ks) admin_accessor (ks_ready_name ks)
       [has_finalizer (ks_ensure_finalizer ks) admin_accessor ADMIN_FINALIZER, create_topic env] ctx s"

definition admin_deconstruct_run ::
  "'cs kafka_sections \<Rightarrow> 's admin_env \<Rightarrow> api_application \<Rightarrow> 's \<Rightarrow> (reconcile_error + api_application process_result) \<times> 's" where
  "admin_deconstruct_run ks env app s =
     (let topic_name = make_kafka_resource_name (ya_md5 env) (Events (pa_name app));
          (r, s) = kd_delete_topics (ya_admin env) [topic_name] s;
          gone = Inr (ProcComplete (ks_remove_finalizer ks ADMIN_FINALIZER app))
      in (case single_topic_response r of
            Inr _ \<Rightarrow> gone
          | Inl (AdminOp UnknownTopic) \<Rightarrow> gone
          | Inl (AdminOp UnknownTopicOrPartition) \<Rightarrow> gone
          | Inl (AdminOp BrokerTransportFailure) \<Rightarrow>
              Inl (Temporary (''Failed to create topic: '' @ kd_error_text (ya_admin env) (AdminOp BrokerTransportFailure)))
          | Inl err \<Rightarrow> Inl (Permanent (''Failed to delete topic: '' @ kd_error_text (ya_admin env) err)), s))"

definition admin_process ::
  "'cs kafka_sections \<Rightarrow> 's admin_env \<Rightarrow> api_application \<Rightarrow> 's \<Rightarrow> (reconcile_error + api_application process_result) \<times> 's" where
  "admin_process ks env app s =
     reconcile \<lparr>rr_eval_state = admin_eval, rr_construct = admin_construct_run ks env, rr_deconstruct = admin_deconstruct_run ks env\<rparr> app s"

definition admin_relevant :: "event \<Rightarrow> string option" where
  "admin_relevant = relevant_app [''.'', ''.metadata'']"

text \<open>The operation of the controller: the registry client, the reconciler and \<open>recover\<close>.\<close>

definition admin_operation ::
  "(string \<Rightarrow> 's \<Rightarrow> (unit + api_application option) \<times> 's) \<Rightarrow> (api_application, 's) registry_client \<Rightarrow> 'cs kafka_sections \<Rightarrow> 's admin_env
    \<Rightarrow> (string, api_application, api_application, 's) controller_op" where
  "admin_operation get_app rc ks env =
     \<lparr>on_get = get_app, on_process_resource = admin_process ks env, on_recover = (\<lambda>msg app s. (recover_conditions ks msg app, s)),
      on_update_if = registry_update_if rc, on_ref_output = id\<rparr>"

section \<open>The Strimzi operator\<close>

definition STRIMZI_FINALIZER :: string where "STRIMZI_FINALIZER = ''kafka''"

definition LABEL_KAFKA_CLUSTER :: string where "LABEL_KAFKA_CLUSTER = ''strimzi.io/cluster''"

definition LABEL_MARKER :: string where "LABEL_MARKER = ''drogue.io/auto-created''"

definition ANNOTATION_APP_NAME :: string where "ANNOTATION_APP_NAME = ''drogue.io/application-name''"

definition KEY_PASSWORD :: string where "KEY_PASSWORD = ''password''"

record strimzi_config =
  zc_topic_namespace :: string
  zc_cluster_name :: string

text \<open>
  A custom resource: labels and annotations may be missing; of its data, the operator writes
  the part \<open>spec\<close> and reads the conditions of the status.  A condition has a type and a status,
  as the API demands.
\<close>

record kube_object =
  ko_labels :: "string smap option"
  ko_annotations :: "string smap option"
  ko_spec :: json
  ko_conditions :: "(string \<times> string) list"

record kube_secret =
  kx_annotations :: "string smap option"
  kx_data :: "string smap option"

definition use_or_create :: "('v smap \<Rightarrow> 'v smap) \<Rightarrow> 'v smap option \<Rightarrow> 'v smap option" where
  "use_or_create f m = Some (f (case m of Some x \<Rightarrow> x | None \<Rightarrow> []))"

text \<open>
  The Kubernetes API: \<open>create_or_update\<close> reads an object, changes it by a function, and stores
  it; \<open>delete_optionally\<close> accepts that there is nothing to delete.
\<close>

datatype kube_kind = KafkaTopicKind | KafkaUserKind

record 's kube_api =
  kb_apply :: "kube_kind \<Rightarrow> string \<Rightarrow> string \<Rightarrow> (kube_object \<Rightarrow> kube_object) \<Rightarrow> 's \<Rightarrow> (string + kube_object) \<times> 's"
  kb_apply_secret :: "string \<Rightarrow> string \<Rightarrow> (kube_secret \<Rightarrow> kube_secret) \<Rightarrow> 's \<Rightarrow> (string + unit) \<times> 's"
  kb_delete :: "kube_kind \<Rightarrow> string \<Rightarrow> 's \<Rightarrow> (string + bool) \<times> 's"
  kb_delete_secret :: "string \<Rightarrow> 's \<Rightarrow> (string + bool) \<times> 's"
  kb_get_secret :: "string \<Rightarrow> 's \<Rightarrow> (string + kube_secret) \<times> 's"

record kafka_user_status =
  ku_username :: string
  ku_password :: string
  ku_mechanism :: string

record 's strimzi_env =
  zs_config :: strimzi_config
  zs_api :: "'s kube_api"
  zs_md5 :: "string \<Rightarrow> string"
  zs_utf8 :: "string \<Rightarrow> bool"
  zs_password :: "api_application \<Rightarrow> string option"
  zs_clear_downstream :: "api_application \<Rightarrow> reconcile_error + api_application"
  zs_set_user :: "kafka_user_status option \<Rightarrow> api_application \<Rightarrow> reconcile_error + api_application"

record strimzi_construct =
  zx_app :: api_application
  zx_events_topic :: "kube_object option"
  zx_events_topic_name :: "string option"
  zx_app_user :: "kube_object option"
  zx_app_user_name :: "string option"

type_synonym 's strimzi_step = "strimzi_construct \<Rightarrow> 's \<Rightarrow> (reconcile_error + strimzi_construct step_result) \<times> 's"

text \<open>\<open>From<kube::Error>\<close>: permanent.\<close>

definition kube_call :: "(string + 'a) \<times> 's \<Rightarrow> (reconcile_error + 'a) \<times> 's" where
  "kube_call r = (map_sum Permanent id (fst r), snd r)"

lemma kube_call_Inr: "kube_call r = (Inr x, s) \<longleftrightarrow> r = (Inr x, s)"
  by (cases r; cases "fst r") (auto simp: kube_call_def)

definition retry :: "'c \<Rightarrow> 'c step_result" where
  "retry ctx = StepRetry ctx (Some 15)"

fun condition_ready :: "string \<Rightarrow> (string \<times> string) list \<Rightarrow> bool option" where
  "condition_ready condition [] = None"
| "condition_ready condition ((ty, status) # rest) =
     (if ty = condition \<and> status = ''True'' then Some True
      else if ty = condition \<and> status = ''False'' then Some False
      else condition_ready condition rest)"

definition object_ready :: "kube_object option \<Rightarrow> bool" where
  "object_ready obj = (Option.bind obj (\<lambda>x. condition_ready ''Ready'' (ko_conditions x)) = Some True)"

subsection \<open>Topics\<close>

definition mark_object :: "strimzi_config \<Rightarrow> string \<Rightarrow> kube_object \<Rightarrow> kube_object" where
  "mark_object config app obj = obj\<lparr>
     ko_labels := use_or_create (\<lambda>labels. AList.update LABEL_MARKER ''true'' (AList.update LABEL_KAFKA_CLUSTER (zc_cluster_name config) labels)) (ko_labels obj),
     ko_annotations := use_or_create (AList.update ANNOTATION_APP_NAME app) (ko_annotations obj)\<rparr>"

definition topic_spec :: "string \<Rightarrow> json" where
  "topic_spec topic_name = Object [(''config'', Object []), (''partitions'', Number ''3''), (''replicas'', Number ''1''), (''topicName'', String topic_name)]"

definition ensure_kafka_topic :: "'s strimzi_env \<Rightarrow> resource_type \<Rightarrow> 's \<Rightarrow> (reconcile_error + kube_object \<times> string) \<times> 's" where
  "ensure_kafka_topic env target s =
     (let topic_name = make_kafka_resource_name (zs_md5 env) target in
      io_bind (kube_call (kb_apply (zs_api env) KafkaTopicKind (zc_topic_namespace (zs_config env)) topic_name
          (\<lambda>topic. (mark_object (zs_config env) (resource_app_name target) topic)\<lparr>ko_spec := topic_spec topic_name\<rparr>) s)) (\<lambda>topic s.
        (Inr (topic, topic_name), s)))"

definition strimzi_create_topic_run :: "'s strimzi_env \<Rightarrow> 's strimzi_step" where
  "strimzi_create_topic_run env ctx s =
     io_bind (ensure_kafka_topic env (Events (pa_name (zx_app ctx))) s) (\<lambda>(topic, topic_name) s.
       (Inr (StepContinue (ctx\<lparr>zx_events_topic := Some topic, zx_events_topic_name := Some topic_name\<rparr>)), s))"

definition topic_ready_run :: "'s strimzi_env \<Rightarrow> 's strimzi_step" where
  "topic_ready_run env ctx s =
     (rbind (zs_clear_downstream env (zx_app ctx)) (\<lambda>app.
        let ctx' = ctx\<lparr>zx_app := app\<rparr>
        in Inr (if object_ready (zx_events_topic ctx) then StepContinue ctx' else retry ctx')), s)"

subsection \<open>Users\<close>

definition acl :: "string \<Rightarrow> string \<Rightarrow> json" where
  "acl ty name = Object [(''host'', String ''*''), (''operation'', String ''Read''),
     (''resource'', Object [(''type'', String ty), (''name'', String name), (''patternType'', String ''literal'')])]"

definition user_spec :: "string \<Rightarrow> string \<Rightarrow> string option \<Rightarrow> json" where
  "user_spec app topic_name password_name =
     Object [(''authentication'', Object ((''type'', String ''scram-sha-512'') # (case password_name of
           Some p \<Rightarrow> [(''password'', Object [(''valueFrom'', Object [(''secretKeyRef'', Object [(''name'', String p), (''key'', String KEY_PASSWORD)])])])]
         | None \<Rightarrow> []))),
       (''authorization'', Object [(''acls'', Array [acl ''topic'' topic_name, acl ''group'' ''*'']), (''type'', String ''simple'')]),
       (''template'', Object [(''secret'', Object [(''metadata'', Object [(''annotations'', Object [(ANNOTATION_APP_NAME, String app)])])])])]"

definition user_mutator :: "'s strimzi_env \<Rightarrow> string \<Rightarrow> string option \<Rightarrow> kube_object \<Rightarrow> kube_object" where
  "user_mutator env app password user =
     (mark_object (zs_config env) app user)\<lparr>ko_spec := user_spec app (make_kafka_resource_name (zs_md5 env) (Events app))
        (map_option (\<lambda>_. make_kafka_resource_name (zs_md5 env) (Passwords app)) password)\<rparr>"

definition secret_mutator :: "string \<Rightarrow> string \<Rightarrow> kube_secret \<Rightarrow> kube_secret" where
  "secret_mutator app password secret = secret\<lparr>kx_annotations := use_or_create (AList.update ANNOTATION_APP_NAME app) (kx_annotations secret),
     kx_data := use_or_create (\<lambda>_. [(KEY_PASSWORD, password)]) (kx_data secret)\<rparr>"

definition ensure_kafka_user :: "'s strimzi_env \<Rightarrow> string \<Rightarrow> string option \<Rightarrow> 's \<Rightarrow> (reconcile_error + kube_object \<times> string) \<times> 's" where
  "ensure_kafka_user env app password s =
     (let user_name = make_kafka_resource_name (zs_md5 env) (Users app);
          password_name = make_kafka_resource_name (zs_md5 env) (Passwords app);
          ns = zc_topic_namespace (zs_config env) in
      io_bind (kube_call (kb_apply (zs_api env) KafkaUserKind ns user_name (user_mutator env app password) s)) (\<lambda>user s.
      io_bind (case password of
                 Some p \<Rightarrow> kube_call (kb_apply_secret (zs_api env) ns password_name (secret_mutator app p) s)
               | None \<Rightarrow> io_bind (kube_call (kb_delete_secret (zs_api env) password_name s)) (\<lambda>_ s. (Inr (), s))) (\<lambda>_ s.
        (Inr (user, user_name), s))))"

definition create_user_run :: "'s strimzi_env \<Rightarrow> 's strimzi_step" where
  "create_user_run env ctx s =
     io_bind (ensure_kafka_user env (pa_name (zx_app ctx)) (zs_password env (zx_app ctx)) s) (\<lambda>(user, user_name) s.
       (Inr (StepContinue (ctx\<lparr>zx_app_user := Some user, zx_app_user_name := Some user_name\<rparr>)), s))"

definition user_status_of :: "'s strimzi_env \<Rightarrow> bool \<Rightarrow> string option \<Rightarrow> kube_secret option \<Rightarrow> kafka_user_status option" where
  "user_status_of env user_ready user_name secret =
     (case (user_ready, user_name, Option.bind (Option.bind secret kx_data) (\<lambda>data. Option.bind (map_of data KEY_PASSWORD) (\<lambda>p.
          if zs_utf8 env p then Some p else None))) of
        (True, Some username, Some password) \<Rightarrow> Some \<lparr>ku_username = username, ku_password = password, ku_mechanism = ''SCRAM-SHA-512''\<rparr>
      | _ \<Rightarrow> None)"

definition user_ready_run :: "'s strimzi_env \<Rightarrow> 's strimzi_step" where
  "user_ready_run env ctx s =
     (let user_ready = object_ready (zx_app_user ctx);
          (secret, s) = (case zx_app_user_name ctx of
              None \<Rightarrow> (None, s)
            | Some user \<Rightarrow> (case kb_get_secret (zs_api env) user s of (Inr secret, s) \<Rightarrow> (Some secret, s) | (Inl _, s) \<Rightarrow> (None, s)));
          user = user_status_of env user_ready (zx_app_user_name ctx) secret
      in (rbind (zs_set_user env user (zx_app ctx)) (\<lambda>app.
            let ctx = ctx\<lparr>zx_app := app\<rparr> in Inr (if user_ready \<and> user \<noteq> None then StepContinue ctx else retry ctx)), s))"

subsection \<open>The reconciler\<close>

definition strimzi_accessor :: "(strimzi_construct, api_application) accessor" where
  "strimzi_accessor = \<lparr>ac_resource = zx_app, ac_set_resource = (\<lambda>app ctx. ctx\<lparr>zx_app := app\<rparr>)\<rparr>"

definition strimzi_op :: "string \<Rightarrow> 's strimzi_step \<Rightarrow> (strimzi_construct, 's) progress_op" where
  "strimzi_op type_name run =
     \<lparr>pg_type = type_name, pg_run = run, pg_when_skipped = (\<lambda>ctx. (ctx, default_status)), pg_when_failed = default_status\<rparr>"

definition strimzi_steps :: "'cs kafka_sections \<Rightarrow> 's strimzi_env \<Rightarrow> (strimzi_construct, 's) progress_op list" where
  "strimzi_steps ks env =
     [has_finalizer (ks_ensure_finalizer ks) strimzi_accessor STRIMZI_FINALIZER,
      strimzi_op ''CreateTopics'' (strimzi_create_topic_run env), strimzi_op ''TopicsReady'' (topic_ready_run env),
      strimzi_op ''CreateUser'' (create_user_run env), strimzi_op ''UserReady'' (user_ready_run env)]"

definition strimzi_eval :: "api_application \<Rightarrow> reconcile_error + (api_application, strimzi_construct, api_application) reconcile_state" where
  "strimzi_eval app = Inr (eval_by_finalizer True app (pa_finalizers app) (pa_deletion_timestamp app) STRIMZI_FINALIZER
     (\<lambda>app. \<lparr>zx_app = app, zx_events_topic = None, zx_events_topic_name = None, zx_app_user = None, zx_app_user_name = None\<rparr>)
     (\<lambda>app. app) (\<lambda>app. app))"

definition strimzi_construct_run ::
  "'cs kafka_sections \<Rightarrow> 's strimzi_env \<Rightarrow> strimzi_construct \<Rightarrow> 's \<Rightarrow> (reconcile_error + api_application process_result) \<times> 's" where
  "strimzi_construct_run ks env ctx s = run_with (ks_section ks) strimzi_accessor (ks_ready_name ks) (strimzi_steps ks env) ctx s"

definition strimzi_deconstruct_run ::
  "'cs kafka_sections \<Rightarrow> 's strimzi_env \<Rightarrow> api_application \<Rightarrow> 's \<Rightarrow> (reconcile_error + api_application process_result) \<times> 's" where
  "strimzi_deconstruct_run ks env app s =
     (let name = (\<lambda>t. make_kafka_resource_name (zs_md5 env) t) in
      io_bind (kube_call (kb_delete (zs_api env) KafkaTopicKind (name (Events (pa_name app))) s)) (\<lambda>_ s.
      io_bind (kube_call (kb_delete (zs_api env) KafkaUserKind (name (Users (pa_name app))) s)) (\<lambda>_ s.
      io_bind (kube_call (kb_delete_secret (zs_api env) (name (Passwords (pa_name app))) s)) (\<lambda>_ s.
        (Inr (ProcComplete (ks_remove_finalizer ks STRIMZI_FINALIZER app)), s)))))"

definition strimzi_process ::
  "'cs kafka_sections \<Rightarrow> 's strimzi_env \<Rightarrow> api_application \<Rightarrow> 's \<Rightarrow> (reconcile_error + api_application process_result) \<times> 's" where
  "strimzi_process ks env app s =
     reconcile \<lparr>rr_eval_state = strimzi_eval, rr_construct = strimzi_construct_run ks env, rr_deconstruct = strimzi_deconstruct_run ks env\<rparr> app s"

definition strimzi_relevant :: "event \<Rightarrow> string option" where
  "strimzi_relevant = relevant_app [''.'', ''.metadata'', ''.spec.downstream'']"

section \<open>Isolation of applications\<close>

text \<open>
  What a user resource allows, as the access rules of Strimzi and Kafka are documented: without
  simple authorization everything; with it, what some rule grants.  A rule has an operation,
  where \<open>All\<close> stands for every one, and a resource: a literal name is the resource of this name,
  or any for a star, and a prefix is every resource that starts with it.
\<close>

fun str_field :: "string \<Rightarrow> json \<Rightarrow> string" where
  "str_field k (Object m) = (case map_of m k of Some (String s) \<Rightarrow> s | _ \<Rightarrow> [])"
| "str_field k _ = []"

fun field :: "string \<Rightarrow> json \<Rightarrow> json" where
  "field k (Object m) = (case map_of m k of Some j \<Rightarrow> j | None \<Rightarrow> Null)"
| "field k _ = Null"

definition acl_covers :: "json \<Rightarrow> string \<Rightarrow> string \<Rightarrow> bool" where
  "acl_covers resource ty name \<longleftrightarrow> str_field ''type'' resource = ty
     \<and> (if str_field ''patternType'' resource = ''literal'' then str_field ''name'' resource \<in> {name, ''*''}
        else if str_field ''patternType'' resource = ''prefix'' then starts_with name (str_field ''name'' resource)
        else True)"

definition acl_grants :: "json \<Rightarrow> string \<Rightarrow> string \<Rightarrow> string \<Rightarrow> bool" where
  "acl_grants rule op ty name \<longleftrightarrow> str_field ''operation'' rule \<in> {op, ''All''} \<and> acl_covers (field ''resource'' rule) ty name"

definition user_may :: "json \<Rightarrow> string \<Rightarrow> string \<Rightarrow> string \<Rightarrow> bool" where
  "user_may spec op ty name \<longleftrightarrow> (let authorization = field ''authorization'' spec in
     str_field ''type'' authorization \<noteq> ''simple''
     \<or> (case field ''acls'' authorization of Array rules \<Rightarrow> list_ex (\<lambda>rule. acl_grants rule op ty name) rules | _ \<Rightarrow> False))"

lemma user_may_topic:
  assumes "make_kafka_resource_name (zs_md5 env) (Events app) \<noteq> ''*''"
  shows "user_may (ko_spec (user_mutator env app pw user)) op ''topic'' name \<longleftrightarrow>
     op = ''Read'' \<and> name = make_kafka_resource_name (zs_md5 env) (Events app)"
  using assms by (auto simp: user_may_def Let_def acl_grants_def acl_covers_def user_mutator_def user_spec_def acl_def)

text \<open>
  C30. The Kafka user of an application can only read, and only the topic of its own
  application: whatever was in the user resource before, what the operator writes allows the
  user exactly one thing to do with topics, to read the one with the events of its application,
  and that is not the topic of another application, or that of the commands.  Kubernetes stores
  the specification that the operator writes.  The names of the
  two applications have no backslash, which the pattern for names treats in a special way, and
  their MD5 digests do not collide.
\<close>

theorem strimzi_user_isolated:
  assumes "hex_digest (zs_md5 env)" and "CHR 0x5C \<notin> set a" and "CHR 0x5C \<notin> set b" and "zs_md5 env a = zs_md5 env b \<longrightarrow> a = b" and "a \<noteq> b"
    and "\<And>ns n f s user s'. kb_apply (zs_api env) KafkaUserKind ns n f s = (Inr user, s') \<Longrightarrow> \<exists>old. ko_spec user = ko_spec (f old)"
    and "ensure_kafka_user env a pw s = (Inr (user, user_name), s')"
  shows "(\<forall>op name. user_may (ko_spec user) op ''topic'' name \<longleftrightarrow> op = ''Read'' \<and> name = make_topic (zs_md5 env) EventsType a)
     \<and> make_topic (zs_md5 env) EventsType a \<notin> {make_topic (zs_md5 env) EventsType b, make_topic (zs_md5 env) CommandsType b}"
proof -
  let ?name = "make_kafka_resource_name (zs_md5 env)"
  have "?name (Events a) \<noteq> ?name (Events b)"
    using kafka_names_distinct[OF assms(1), of "Events a" "Events b"] assms(2-5) by auto
  moreover have "?name (Events a) \<noteq> ?name (Commands b)"
    using kafka_names_distinct[OF assms(1), of "Events a" "Commands b"] assms(2-4) by auto
  moreover have "?name (Events a) \<noteq> ''*''"
    using kafka_name_form[OF assms(1), of "Events a"] assms(2) by auto
  moreover obtain u where "ko_spec user = ko_spec (user_mutator env a pw u)"
  proof -
    obtain n1 s1 where "kube_call (kb_apply (zs_api env) KafkaUserKind (zc_topic_namespace (zs_config env)) n1 (user_mutator env a pw) s) = (Inr user, s1)"
      using assms(7) by (auto simp: ensure_kafka_user_def Let_def io_bind_Inr)
    then show thesis using assms(6) that unfolding kube_call_Inr by blast
  qed
  ultimately show ?thesis by (simp add: user_may_topic[simplified])
qed

definition demo_strimzi :: "unit strimzi_env" where
  "demo_strimzi = \<lparr>zs_config = \<lparr>zc_topic_namespace = ''drogue'', zc_cluster_name = ''kafka''\<rparr>,
     zs_api = \<lparr>kb_apply = (\<lambda>k ns n f s. (Inr (f \<lparr>ko_labels = None, ko_annotations = None, ko_spec = Null, ko_conditions = []\<rparr>), s)),
       kb_apply_secret = (\<lambda>ns n f s. (Inr (), s)), kb_delete = (\<lambda>k n s. (Inr True, s)), kb_delete_secret = (\<lambda>n s. (Inr True, s)),
       kb_get_secret = (\<lambda>n s. (Inl ''NotFound'', s))\<rparr>,
     zs_md5 = demo_md5, zs_utf8 = (\<lambda>_. True), zs_password = (\<lambda>_. None), zs_clear_downstream = Inr, zs_set_user = (\<lambda>_. Inr)\<rparr>"

theorem strimzi_user_isolated_witness:
  "\<exists>user user_name. ensure_kafka_user demo_strimzi ''foo'' None () = (Inr (user, user_name), ())
     \<and> user_may (ko_spec user) ''Read'' ''topic'' (make_topic demo_md5 EventsType ''foo'')
     \<and> \<not> user_may (ko_spec user) ''Read'' ''topic'' (make_topic demo_md5 EventsType ''bar'')"
proof -
  have md5: "zs_md5 demo_strimzi = demo_md5" by (simp add: demo_strimzi_def)
  have hex: "hex_digest demo_md5" by (auto simp: hex_digest_def demo_md5_def alnum_def in_range_def)
  have diff: "demo_md5 ''foo'' = demo_md5 ''bar'' \<longrightarrow> ''foo'' = ''bar''" by code_simp
  have api: "\<exists>old. ko_spec u = ko_spec (f old)" if "kb_apply (zs_api demo_strimzi) KafkaUserKind ns n f t = (Inr u, t')" for ns n f t u t'
    using that by (auto simp: demo_strimzi_def)
  have calls: "kb_apply (zs_api demo_strimzi) KafkaUserKind ns n f t =
      (Inr (f \<lparr>ko_labels = None, ko_annotations = None, ko_spec = Null, ko_conditions = []\<rparr>), t)"
    "kb_delete_secret (zs_api demo_strimzi) n t = (Inr True, t)" for ns n f t
    by (simp_all add: demo_strimzi_def)
  have "\<exists>user user_name. ensure_kafka_user demo_strimzi ''foo'' None () = (Inr (user, user_name), ())"
    unfolding ensure_kafka_user_def Let_def by (simp add: calls kube_call_def del: make_kafka_resource_name.simps)
  then obtain user user_name where run: "ensure_kafka_user demo_strimzi ''foo'' None () = (Inr (user, user_name), ())" by blast
  have "(\<forall>op name. user_may (ko_spec user) op ''topic'' name \<longleftrightarrow> op = ''Read'' \<and> name = make_topic demo_md5 EventsType ''foo'')
     \<and> make_topic demo_md5 EventsType ''foo'' \<notin> {make_topic demo_md5 EventsType ''bar'', make_topic demo_md5 CommandsType ''bar''}"
  proof (rule strimzi_user_isolated[of demo_strimzi "''foo''" "''bar''", unfolded md5])
    show "hex_digest demo_md5" by (rule hex)
    show "demo_md5 ''foo'' = demo_md5 ''bar'' \<longrightarrow> ''foo'' = ''bar''" by (rule diff)
    show "CHR 0x5C \<notin> set ''foo''" and "CHR 0x5C \<notin> set ''bar''" and "''foo'' \<noteq> ''bar''" by simp_all
    show "ensure_kafka_user demo_strimzi ''foo'' None () = (Inr (user, user_name), ())" by (rule run)
  qed (rule api)
  then show ?thesis using run by (metis insertI1)
qed

section \<open>Creating a topic\<close>

text \<open>
  The world of the admin operator: the application as the registry has it, and the topics of
  Kafka.  What a working registry, client library and Kafka do.
\<close>

record kafka_world =
  kw_app :: "api_application option"
  kw_topics :: "string list"

definition same_resource :: "api_application \<Rightarrow> api_application \<Rightarrow> bool" where
  "same_resource a b \<longleftrightarrow> pa_name a = pa_name b \<and> pa_finalizers a = pa_finalizers b \<and> pa_deletion_timestamp a = pa_deletion_timestamp b"

definition registry_works ::
  "(string \<Rightarrow> kafka_world \<Rightarrow> (unit + api_application option) \<times> kafka_world) \<Rightarrow> (api_application, kafka_world) registry_client \<Rightarrow> bool" where
  "registry_works get_app rc \<longleftrightarrow> (\<forall>n w. get_app n w = (Inr (kw_app w), w))
     \<and> (\<forall>a. \<exists>a'. rc_aggregate_ready rc a = Inr a' \<and> same_resource a a')
     \<and> (\<forall>a w. \<exists>a'. rc_update rc a w = (Inr (), w\<lparr>kw_app := Some a'\<rparr>) \<and> same_resource a a')"

definition sections_work :: "'cs kafka_sections \<Rightarrow> bool" where
  "sections_work ks \<longleftrightarrow> (\<forall>cs g r. \<exists>r'. sx_set_status (ks_section ks) cs g r = Inr r' \<and> same_resource r r')
     \<and> (\<forall>f r. \<exists>r'. sx_update_conditions (ks_section ks) f r = Inr r' \<and> same_resource r r')
     \<and> (\<forall>f a. (case ks_ensure_finalizer ks f a of (added, a') \<Rightarrow> (added \<longleftrightarrow> f \<notin> set (pa_finalizers a))
          \<and> same_resource (a\<lparr>pa_finalizers := pa_finalizers a'\<rparr>) a' \<and> f \<in> set (pa_finalizers a') \<and> (\<not> added \<longrightarrow> a' = a)))"

definition kafka_works :: "kafka_world kafka_admin \<Rightarrow> bool" where
  "kafka_works admin \<longleftrightarrow> (\<forall>t w. \<exists>r w'. kd_create_topics admin [t] w = (Inr [r], w') \<and> (case r of Inr _ \<Rightarrow> True | Inl e \<Rightarrow> snd e = TopicAlreadyExists)
     \<and> kw_app w' = kw_app w \<and> nt_name t \<in> set (kw_topics w'))"

lemma same_resource_trans: "same_resource a b \<Longrightarrow> same_resource b c \<Longrightarrow> same_resource a c"
  by (simp add: same_resource_def)

lemma finish_ready_same:
  assumes "sections_work ks"
  shows "\<exists>r'. finish_ready (ks_section ks) n cs g r = Inr r' \<and> same_resource r r'"
proof -
  obtain r1 where r1: "sx_set_status (ks_section ks) cs g r = Inr r1" "same_resource r r1" using assms unfolding sections_work_def by blast
  let ?waiting = "eval_ready (sx_list (ks_section ks) cs)"
  let ?ready = "if ?waiting = [] then default_status\<lparr>cn_status := Some True\<rparr>
      else \<lparr>cn_status = Some False, cn_reason = Some ''WaitingForReady'', cn_message = Some (''Waiting to become ready: '' @ join '', '' ?waiting)\<rparr>"
  obtain r2 where "sx_update_conditions (ks_section ks) (sx_update (ks_section ks) n ?ready) r1 = Inr r2" "same_resource r1 r2"
    using assms unfolding sections_work_def by blast
  then show ?thesis using r1 same_resource_trans[OF r1(2)] by (intro exI[of _ r2]) (simp add: finish_ready_def Let_def del: join.simps)
qed

lemma create_topic_works:
  assumes "kafka_works (ya_admin env)"
  shows "\<exists>w'. create_topic_run env ctx w = (Inr (StepContinue ctx), w') \<and> kw_app w' = kw_app w
     \<and> make_topic (ya_md5 env) EventsType (pa_name (yc_app ctx)) \<in> set (kw_topics w')"
proof -
  let ?t = "new_topic_for (ya_config env) (make_kafka_resource_name (ya_md5 env) (Events (pa_name (yc_app ctx))))"
  obtain r w' where r: "kd_create_topics (ya_admin env) [?t] w = (Inr [r], w')" "case r of Inr _ \<Rightarrow> True | Inl e \<Rightarrow> snd e = TopicAlreadyExists"
      "kw_app w' = kw_app w" "nt_name ?t \<in> set (kw_topics w')"
    using assms unfolding kafka_works_def by blast
  then show ?thesis
    by (auto simp: create_topic_run_def Let_def single_topic_response_def new_topic_for_def split: sum.splits prod.splits)
qed

lemma update_if_works:
  assumes "registry_works get_app rc"
  shows "\<exists>w'. registry_update_if rc a b w = (Inr (), w') \<and> kw_topics w' = kw_topics w
     \<and> (w' = w \<and> same_resource a b \<or> (\<exists>c. kw_app w' = Some c \<and> same_resource b c))"
proof -
  obtain b' where b': "rc_aggregate_ready rc b = Inr b'" "same_resource b b'" using assms unfolding registry_works_def by blast
  obtain c where "rc_update rc b' w = (Inr (), w\<lparr>kw_app := Some c\<rparr>)" "same_resource b' c" using assms unfolding registry_works_def by blast
  then show ?thesis using b' by (auto simp: registry_update_if_def same_resource_def)
qed

lemma admin_pass:
  assumes "registry_works get_app rc" and "sections_work ks" and "kafka_works (ya_admin env)"
    and "kw_app w = Some app" and "pa_deletion_timestamp app = None"
  shows "\<exists>w' app'. operation_process (admin_operation get_app rc ks env) key w =
       (Inr (if ADMIN_FINALIZER \<in> set (pa_finalizers app) then OpComplete else OpRetryNow), w')
     \<and> kw_app w' = Some app' \<and> pa_name app' = pa_name app \<and> pa_deletion_timestamp app' = None \<and> ADMIN_FINALIZER \<in> set (pa_finalizers app')
     \<and> (ADMIN_FINALIZER \<in> set (pa_finalizers app) \<longrightarrow> make_topic (ya_md5 env) EventsType (pa_name app) \<in> set (kw_topics w'))"
proof -
  let ?f = ADMIN_FINALIZER and ?ctx = "\<lparr>yc_app = app, yc_events_topic_name = None\<rparr>"
  obtain added a where ens: "ks_ensure_finalizer ks ?f app = (added, a)" by force
  have fin: "added \<longleftrightarrow> ?f \<notin> set (pa_finalizers app)" "same_resource (app\<lparr>pa_finalizers := pa_finalizers a\<rparr>) a" "?f \<in> set (pa_finalizers a)" "\<not> added \<Longrightarrow> a = app"
    using assms(2) ens unfolding sections_work_def by (metis (mono_tags, lifting) case_prod_conv)+
  have get: "get_app key w = (Inr (Some app), w)" using assms(1,4) by (simp add: registry_works_def)
  have proc: "admin_process ks env app w = admin_construct_run ks env ?ctx w"
    by (simp add: admin_process_def reconcile_def admin_eval_def eval_by_finalizer_def Let_def assms(5))
  note defs = admin_construct_run_def run_with_def has_finalizer_def admin_accessor_def ens Let_def
  show ?thesis
  proof (cases added)
    case True
    have "\<exists>n cs g. admin_construct_run ks env ?ctx w = (rbind (finish_ready (ks_section ks) n cs g a) (\<lambda>r. Inr (ProcRetry r None)), w)"
      using True by (simp add: defs create_topic_def) blast
    then obtain r where r: "admin_construct_run ks env ?ctx w = (Inr (ProcRetry r None), w)" "same_resource a r"
      using finish_ready_same[OF assms(2), of _ _ _ a] by (metis rbind.simps(2))
    obtain w' where up: "registry_update_if rc app r w = (Inr (), w')" "w' = w \<and> same_resource app r \<or> (\<exists>c. kw_app w' = Some c \<and> same_resource r c)"
      using update_if_works[OF assms(1)] by blast
    have "\<not> same_resource app r" using fin(1,3) True r(2) by (auto simp: same_resource_def)
    then obtain c where c: "kw_app w' = Some c" "same_resource r c" using up(2) by blast
    show ?thesis using up(1) c r fin True assms(5)
      by (auto simp: operation_process_def admin_operation_def get proc store_outcome_def op_retry_def same_resource_def)
  next
    case False
    obtain w1 where w1: "create_topic_run env ?ctx w = (Inr (StepContinue ?ctx), w1)" "kw_app w1 = Some app"
        "make_topic (ya_md5 env) EventsType (pa_name app) \<in> set (kw_topics w1)"
      using create_topic_works[OF assms(3), of ?ctx w] assms(4) by auto
    have "\<exists>n cs g. admin_construct_run ks env ?ctx w = (rbind (finish_ready (ks_section ks) n cs g app) (\<lambda>r. Inr (ProcComplete r)), w1)"
      using False fin(4) by (simp add: defs create_topic_def w1(1)) blast
    then obtain r where r: "admin_construct_run ks env ?ctx w = (Inr (ProcComplete r), w1)" "same_resource app r"
      using finish_ready_same[OF assms(2), of _ _ _ app] by (metis rbind.simps(2))
    obtain w' where up: "registry_update_if rc app r w1 = (Inr (), w')" "kw_topics w' = kw_topics w1"
        "w' = w1 \<and> same_resource app r \<or> (\<exists>c. kw_app w' = Some c \<and> same_resource r c)"
      using update_if_works[OF assms(1)] by blast
    then obtain c where c: "kw_app w' = Some c" "same_resource app c" using w1(2) r(2) by (auto simp: same_resource_def)
    show ?thesis using up(1,2) c r w1(3) fin False assms(5)
      by (auto simp: operation_process_def admin_operation_def get proc store_outcome_def same_resource_def)
  qed
qed

text \<open>
  C31. The admin operator gets its work done: for an application that is not being deleted,
  one run of the controller, with a registry and a Kafka broker that work, ends without
  anything left to do; then the topic of the events of the application exists, and the application has the finalizer that
  protects it.
\<close>

theorem topic_admin_converges:
  assumes "registry_works get_app rc" and "sections_work ks" and "kafka_works (ya_admin env)"
    and "kw_app w = Some app" and "pa_deletion_timestamp app = None"
  shows "\<exists>w' app'. inner_process (admin_operation get_app rc ks env) key w = (Inr None, w')
     \<and> kw_app w' = Some app' \<and> ADMIN_FINALIZER \<in> set (pa_finalizers app')
     \<and> make_topic (ya_md5 env) EventsType (pa_name app) \<in> set (kw_topics w')"
proof -
  let ?on = "admin_operation get_app rc ks env"
  have finishes: "\<exists>w' app'. process_loop ?on key n v = (None, w') \<and> kw_app w' = Some app' \<and> ADMIN_FINALIZER \<in> set (pa_finalizers app')
      \<and> make_topic (ya_md5 env) EventsType (pa_name a) \<in> set (kw_topics w')"
    if "kw_app v = Some a" "pa_deletion_timestamp a = None" "ADMIN_FINALIZER \<in> set (pa_finalizers a)" for v a n
    using admin_pass[OF assms(1-3) that(1,2), of key] that(3) by (subst process_loop_step) (auto simp: wants_retry_def loop_result_def)
  obtain w1 app1 where pass: "operation_process ?on key w = (Inr (if ADMIN_FINALIZER \<in> set (pa_finalizers app) then OpComplete else OpRetryNow), w1)"
      "kw_app w1 = Some app1" "pa_name app1 = pa_name app" "pa_deletion_timestamp app1 = None" "ADMIN_FINALIZER \<in> set (pa_finalizers app1)"
      "ADMIN_FINALIZER \<in> set (pa_finalizers app) \<longrightarrow> make_topic (ya_md5 env) EventsType (pa_name app) \<in> set (kw_topics w1)"
    using admin_pass[OF assms, of key] by blast
  show ?thesis
  proof (cases "ADMIN_FINALIZER \<in> set (pa_finalizers app)")
    case True
    then show ?thesis using pass by (simp add: inner_process_def process_loop_step[of ?on key MAX_RETRIES] wants_retry_def loop_result_def)
  next
    case False
    have "MAX_RETRIES = Suc 9" by (simp add: MAX_RETRIES_def)
    moreover have "process_loop ?on key (Suc 9) w = process_loop ?on key 9 w1"
      using pass(1) False by (subst process_loop_step) (simp add: wants_retry_def)
    ultimately show ?thesis using finishes[OF pass(2,4,5), of 9] pass(3) by (auto simp: inner_process_def)
  qed
qed

definition demo_kafka_sections :: "(string \<times> string) list kafka_sections" where
  "demo_kafka_sections = \<lparr>ks_section = \<lparr>sx_update = (\<lambda>t st cs. (t, status_text (cn_status st)) # filter (\<lambda>c. fst c \<noteq> t) cs), sx_list = (\<lambda>cs. cs),
       sx_set_status = (\<lambda>_ _ r. Inr r), sx_update_conditions = (\<lambda>_ r. Inr r), sx_generation = pa_generation, sx_conditions = (\<lambda>_. [])\<rparr>,
     ks_ready_name = ''KafkaReady'', ks_ensure_finalizer = (\<lambda>f a. (f \<notin> set (pa_finalizers a), if f \<in> set (pa_finalizers a) then a else a\<lparr>pa_finalizers := f # pa_finalizers a\<rparr>)),
     ks_remove_finalizer = (\<lambda>f a. a\<lparr>pa_finalizers := removeAll f (pa_finalizers a)\<rparr>)\<rparr>"

definition demo_kafka_admin :: "kafka_world kafka_admin" where
  "demo_kafka_admin = \<lparr>kd_create_topics = (\<lambda>ts w. (Inr (map (\<lambda>t. if nt_name t \<in> set (kw_topics w) then Inl (nt_name t, TopicAlreadyExists) else Inr (nt_name t)) ts),
       w\<lparr>kw_topics := map nt_name ts @ kw_topics w\<rparr>)),
     kd_delete_topics = (\<lambda>ts w. (Inr (map Inr ts), w\<lparr>kw_topics := filter (\<lambda>t. t \<notin> set ts) (kw_topics w)\<rparr>)), kd_error_text = (\<lambda>_. [])\<rparr>"

definition demo_admin_env :: "kafka_world admin_env" where
  "demo_admin_env = \<lparr>ya_config = \<lparr>tq_num_partitions = 1, tq_num_replicas = 1, tq_properties = []\<rparr>, ya_admin = demo_kafka_admin, ya_md5 = demo_md5\<rparr>"

definition demo_registry_client :: "(api_application, kafka_world) registry_client" where
  "demo_registry_client = \<lparr>rc_aggregate_ready = Inr, rc_update = (\<lambda>a w. (Inr (), w\<lparr>kw_app := Some a\<rparr>))\<rparr>"

definition demo_new_app :: api_application where
  "demo_new_app = \<lparr>pa_name = ''foo'', pa_uid = [], pa_resource_version = [], pa_labels = [], pa_annotations = [], pa_creation_timestamp = 0,
     pa_generation = 1, pa_deletion_timestamp = None, pa_finalizers = [], pa_spec = [], pa_status = []\<rparr>"

theorem topic_admin_converges_witness:
  "\<exists>w'. inner_process (admin_operation (\<lambda>_ w. (Inr (kw_app w), w)) demo_registry_client demo_kafka_sections demo_admin_env) ''foo''
       \<lparr>kw_app = Some demo_new_app, kw_topics = []\<rparr> = (Inr None, w') \<and> make_topic demo_md5 EventsType ''foo'' \<in> set (kw_topics w')"
proof -
  have "registry_works (\<lambda>_ w. (Inr (kw_app w), w)) demo_registry_client"
    by (auto simp: registry_works_def demo_registry_client_def same_resource_def)
  moreover have "sections_work demo_kafka_sections" by (auto simp: sections_work_def demo_kafka_sections_def same_resource_def)
  moreover have "kafka_works (ya_admin demo_admin_env)" by (auto simp: kafka_works_def demo_admin_env_def demo_kafka_admin_def)
  ultimately have "\<exists>w' app'. inner_process (admin_operation (\<lambda>_ w. (Inr (kw_app w), w)) demo_registry_client demo_kafka_sections demo_admin_env) ''foo''
       \<lparr>kw_app = Some demo_new_app, kw_topics = []\<rparr> = (Inr None, w') \<and> kw_app w' = Some app' \<and> ADMIN_FINALIZER \<in> set (pa_finalizers app')
       \<and> make_topic (ya_md5 demo_admin_env) EventsType (pa_name demo_new_app) \<in> set (kw_topics w')"
    by (rule topic_admin_converges) (simp_all add: demo_new_app_def)
  then show ?thesis by (auto simp: demo_admin_env_def demo_new_app_def)
qed

end
