(* ===== verification/Knative_Operator.thy ===== *)
theory Knative_Operator
  imports Topic_Operators Event_Rules
begin

text \<open>
  The operator that deploys an event source for an application which sends its events to an
  HTTP endpoint (\<open>knative-operator/src\<close>).

  Parameters: the Kubernetes API, the functions that edit a deployment (of the operator
  framework), the sections of the client library, and the text of a duration.
\<close>

section \<open>Deployments\<close>

definition KNATIVE_FINALIZER :: string where "KNATIVE_FINALIZER = ''knative''"

definition LABEL_APP_MARKER :: string where "LABEL_APP_MARKER = ''drogue.io/application''"

definition DEFAULT_IMAGE :: string where "DEFAULT_IMAGE = ''ghcr.io/drogue-iot/knative-event-source:latest''"

record deployment_template =
  dt_image :: "string option"
  dt_image_pull_policy :: "string option"

record knative_config =
  nc_target_namespace :: string
  nc_template :: deployment_template
  nc_bootstrap_servers :: string
  nc_properties :: "string smap"

datatype endpoint_auth = AuthNone | AuthBasic string "string option" | AuthBearer string

record knative_spec =
  np_disabled :: bool
  np_url :: string
  np_auth :: endpoint_auth
  np_tls :: "(bool \<times> string option) option"
  np_method :: "string option"
  np_timeout :: "nat option"
  np_headers :: "(string \<times> string) list"
  np_group_id :: "string option"

record container =
  cn_image :: "string option"
  cn_image_pull_policy :: "string option"
  cn_args :: "string list option"
  cn_command :: "string list option"
  cn_working_dir :: "string option"
  cn_env :: "string smap option"

record deployment =
  dp_annotations :: "string smap option"
  dp_match_labels :: "string smap option"
  dp_template_labels :: "string smap option"
  dp_containers :: "container smap"
  dp_conditions :: "(string \<times> string) list"

text \<open>The environment: \<open>add_env\<close> and \<open>set_env\<close> of a container, and \<open>apply_container\<close>, which edits a container that it creates if it is missing.\<close>

record 's knative_env =
  nv_config :: knative_config
  nv_md5 :: "string \<Rightarrow> string"
  nv_set_env :: "string \<Rightarrow> string option \<Rightarrow> container \<Rightarrow> string + container"
  nv_apply_container :: "string \<Rightarrow> (container \<Rightarrow> string + container) \<Rightarrow> deployment \<Rightarrow> string + deployment"
  nv_uppercase :: "string \<Rightarrow> string"
  nv_duration :: "nat \<Rightarrow> string"
  nv_spec :: "api_application \<Rightarrow> (string + knative_spec) option"
  nv_apply :: "string \<Rightarrow> string \<Rightarrow> (deployment \<Rightarrow> string + deployment) \<Rightarrow> 's \<Rightarrow> (string + deployment) \<times> 's"
  nv_delete :: "string \<Rightarrow> 's \<Rightarrow> (string + bool) \<times> 's"
  nv_clear_downstream :: "api_application \<Rightarrow> reconcile_error + api_application"
  nv_clear_ready :: "string \<Rightarrow> api_application \<Rightarrow> reconcile_error + api_application"
  nv_clear_status :: "api_application \<Rightarrow> api_application"

text \<open>A sequence of settings; the first that fails ends it.\<close>

fun set_envs :: "'s knative_env \<Rightarrow> (string \<times> string option) list \<Rightarrow> container \<Rightarrow> string + container" where
  "set_envs env [] c = Inr c"
| "set_envs env ((n, v) # rest) c = rbind (nv_set_env env n v c) (set_envs env rest)"

definition pull_policy :: "deployment_template \<Rightarrow> string \<Rightarrow> string" where
  "pull_policy tpl img =
     (case dt_image_pull_policy tpl of
        Some p \<Rightarrow> p
      | None \<Rightarrow> if ends_with img '':latest'' then ''Always'' else ''IfNotPresent'')"

definition clear_env :: "string smap \<Rightarrow> string smap" where
  "clear_env e = filter (\<lambda>(n, v). \<not> starts_with n ''ENDPOINT__HEADERS__'' \<and> \<not> starts_with n ''PROPERTIES__'') e"

fun auth_env :: "endpoint_auth \<Rightarrow> string option \<times> string option \<times> string option" where
  "auth_env AuthNone = (None, None, None)"
| "auth_env (AuthBasic username password) = (Some username, password, None)"
| "auth_env (AuthBearer token) = (None, None, Some token)"

definition bool_text :: "bool \<Rightarrow> string" where
  "bool_text b = (if b then ''true'' else ''false'')"

definition header_var :: "string \<Rightarrow> string" where
  "header_var n = ''ENDPOINT__HEADERS__'' @ n"

definition property_var :: "'s knative_env \<Rightarrow> string \<Rightarrow> string" where
  "property_var env k = ''PROPERTIES__'' @ nv_uppercase env k"

definition source_settings :: "'s knative_env \<Rightarrow> knative_spec \<Rightarrow> string \<Rightarrow> (string \<times> string option) list" where
  "source_settings env spec topic_name =
     (let (username, password, bearer) = auth_env (np_auth spec) in
      [(''MODE'', Some ''kafka''), (''K_SINK'', Some (np_url spec)),
       (''ENDPOINT__USERNAME'', username), (''ENDPOINT__PASSWORD'', password), (''ENDPOINT__TOKEN'', bearer),
       (''ENDPOINT__TLS_INSECURE'', Some (bool_text (case np_tls spec of Some (insecure, _) \<Rightarrow> insecure | None \<Rightarrow> False))),
       (''ENDPOINT__TLS_CERTIFICATE'', Option.bind (np_tls spec) snd),
       (''ENDPOINT__METHOD'', np_method spec), (''ENDPOINT__TIMEOUT'', map_option (nv_duration env) (np_timeout spec))]
      @ map (\<lambda>(n, v). (header_var n, Some v)) (np_headers spec)
      @ [(''TOPIC'', Some topic_name), (''BOOTSTRAP_SERVERS'', Some (nc_bootstrap_servers (nv_config env)))]
      @ map (\<lambda>(k, v). (property_var env k, Some v)) (nc_properties (nv_config env))
      @ [(''PROPERTIES__GROUP_ID'', Some (case np_group_id spec of Some g \<Rightarrow> g | None \<Rightarrow> ''knative-source''))])"

definition source_container :: "'s knative_env \<Rightarrow> knative_spec \<Rightarrow> string \<Rightarrow> container \<Rightarrow> string + container" where
  "source_container env spec topic_name c =
     (let tpl = nc_template (nv_config env);
          img = (case dt_image tpl of Some i \<Rightarrow> i | None \<Rightarrow> DEFAULT_IMAGE)
      in set_envs env (source_settings env spec topic_name)
           (c\<lparr>cn_image_pull_policy := Some (pull_policy tpl img), cn_image := Some img, cn_args := None, cn_command := None,
              cn_working_dir := None, cn_env := map_option clear_env (cn_env c)\<rparr>))"

definition reconcile_deployment ::
  "'s knative_env \<Rightarrow> string \<Rightarrow> knative_spec \<Rightarrow> string \<Rightarrow> deployment \<Rightarrow> string + deployment" where
  "reconcile_deployment env app spec topic_name d =
     (let labels = [(LABEL_APP_MARKER, []), (''name'', topic_name)]
      in nv_apply_container env ''source'' (source_container env spec topic_name)
           (d\<lparr>dp_annotations := use_or_create (AList.update ANNOTATION_APP_NAME app) (dp_annotations d),
              dp_match_labels := Some labels, dp_template_labels := Some labels\<rparr>))"

section \<open>The reconciler\<close>

record knative_construct =
  nx_app :: api_application
  nx_deployment :: "deployment option"

definition ensure_deployment :: "'s knative_env \<Rightarrow> knative_construct \<Rightarrow> knative_spec \<Rightarrow> 's \<Rightarrow> (reconcile_error + deployment) \<times> 's" where
  "ensure_deployment env ctx spec s =
     (let app = pa_name (nx_app ctx);
          topic_name = make_kafka_resource_name (nv_md5 env) (Events app);
          (r, s) = nv_apply env (nc_target_namespace (nv_config env)) topic_name (reconcile_deployment env app spec topic_name) s
      in (map_sum (\<lambda>err. Permanent (''Failed to reconcile source deployment: '' @ err)) id r, s))"

definition create_deployment_run ::
  "'s knative_env \<Rightarrow> knative_construct \<Rightarrow> 's \<Rightarrow> (reconcile_error + knative_construct step_result) \<times> 's" where
  "create_deployment_run env ctx s =
     (case nv_spec env (nx_app ctx) of
        None \<Rightarrow> (Inl (Permanent ''Missing spec section although it was detected earlier''), s)
      | Some (Inl e) \<Rightarrow> (Inl (Permanent e), s)
      | Some (Inr spec) \<Rightarrow>
          io_bind (ensure_deployment env ctx spec s) (\<lambda>d s. (Inr (StepContinue (ctx\<lparr>nx_deployment := Some d\<rparr>)), s)))"

definition source_ready_run ::
  "'s knative_env \<Rightarrow> knative_construct \<Rightarrow> 's \<Rightarrow> (reconcile_error + knative_construct step_result) \<times> 's" where
  "source_ready_run env ctx s =
     (let deployment_ready = (Option.bind (nx_deployment ctx) (\<lambda>d. condition_ready ''Available'' (dp_conditions d)) = Some True)
      in (rbind (nv_clear_downstream env (nx_app ctx)) (\<lambda>app.
            let ctx = ctx\<lparr>nx_app := app\<rparr> in Inr (if deployment_ready then StepContinue ctx else retry ctx)), s))"

definition knative_accessor :: "(knative_construct, api_application) accessor" where
  "knative_accessor = \<lparr>ac_resource = nx_app, ac_set_resource = (\<lambda>app ctx. ctx\<lparr>nx_app := app\<rparr>)\<rparr>"

definition knative_steps :: "'cs kafka_sections \<Rightarrow> 's knative_env \<Rightarrow> (knative_construct, 's) progress_op list" where
  "knative_steps ks env =
     has_finalizer (ks_ensure_finalizer ks) knative_accessor KNATIVE_FINALIZER
     # map (\<lambda>(type_name, run). \<lparr>pg_type = type_name, pg_run = run, pg_when_skipped = (\<lambda>ctx. (ctx, default_status)), pg_when_failed = default_status\<rparr>)
         [(''CreateDeployment'', create_deployment_run env), (''SourceReady'', source_ready_run env)]"

definition knative_eval ::
  "'s knative_env \<Rightarrow> api_application \<Rightarrow> reconcile_error + (api_application, knative_construct, api_application) reconcile_state" where
  "knative_eval env app =
     (let requested = (case nv_spec env app of Some (Inr spec) \<Rightarrow> \<not> np_disabled spec | Some (Inl _) \<Rightarrow> True | None \<Rightarrow> False)
      in Inr (eval_by_finalizer requested app (pa_finalizers app) (pa_deletion_timestamp app) KNATIVE_FINALIZER
           (\<lambda>app. \<lparr>nx_app = app, nx_deployment = None\<rparr>) (\<lambda>app. app) (\<lambda>app. app)))"

definition knative_construct_run ::
  "'cs kafka_sections \<Rightarrow> 's knative_env \<Rightarrow> knative_construct \<Rightarrow> 's \<Rightarrow> (reconcile_error + api_application process_result) \<times> 's" where
  "knative_construct_run ks env ctx s = run_with (ks_section ks) knative_accessor (ks_ready_name ks) (knative_steps ks env) ctx s"

definition knative_deconstruct_run ::
  "'cs kafka_sections \<Rightarrow> 's knative_env \<Rightarrow> api_application \<Rightarrow> 's \<Rightarrow> (reconcile_error + api_application process_result) \<times> 's" where
  "knative_deconstruct_run ks env app s =
     io_bind (kube_call (nv_delete env (make_kafka_resource_name (nv_md5 env) (Events (pa_name app))) s)) (\<lambda>gone s.
       if gone
       then (rbind (nv_clear_ready env (ks_ready_name ks) (ks_remove_finalizer ks KNATIVE_FINALIZER app)) (\<lambda>app.
               Inr (ProcComplete (nv_clear_status env app))), s)
       else (Inr (ProcRetry app (Some 10)), s))"

definition knative_process ::
  "'cs kafka_sections \<Rightarrow> 's knative_env \<Rightarrow> api_application \<Rightarrow> 's \<Rightarrow> (reconcile_error + api_application process_result) \<times> 's" where
  "knative_process ks env app s =
     reconcile \<lparr>rr_eval_state = knative_eval env, rr_construct = knative_construct_run ks env, rr_deconstruct = knative_deconstruct_run ks env\<rparr> app s"

definition knative_relevant :: "event \<Rightarrow> string option" where
  "knative_relevant = relevant_app [''.'', ''.metadata'', ''.spec.knative'']"

section \<open>The environment of the source\<close>

definition env_value :: "container \<Rightarrow> string \<Rightarrow> string option" where
  "env_value c n = Option.bind (cn_env c) (\<lambda>e. map_of e n)"

text \<open>
  What the operator framework promises: one variable is changed, one container is edited, and a
  deployment that is applied has the containers that the edit gave it.
\<close>

definition framework_works :: "'s knative_env \<Rightarrow> bool" where
  "framework_works env \<longleftrightarrow>
     (\<forall>n v c c'. nv_set_env env n v c = Inr c' \<longrightarrow> (\<forall>m. env_value c' m = (if m = n then v else env_value c m)))
     \<and> (\<forall>n f d d'. nv_apply_container env n f d = Inr d' \<longrightarrow> (\<exists>c c'. f c = Inr c' \<and> map_of (dp_containers d') n = Some c'))
     \<and> (\<forall>ns n f s d' s'. nv_apply env ns n f s = (Inr d', s') \<longrightarrow> (\<exists>d e. f d = Inr e \<and> dp_containers d' = dp_containers e))"

lemma set_envs_value:
  assumes "framework_works env" and "set_envs env xs c = Inr c'"
  shows "env_value c' m = (case map_of (rev xs) m of Some v \<Rightarrow> v | None \<Rightarrow> env_value c m)"
  using assms(2)
proof (induction xs arbitrary: c)
  case (Cons x xs)
  obtain n v where x: "x = (n, v)" by force
  obtain c1 where c1: "nv_set_env env n v c = Inr c1" "set_envs env xs c1 = Inr c'" using Cons.prems by (auto simp: x result_simps)
  have "env_value c1 m = (if m = n then v else env_value c m)" using assms(1) c1(1) unfolding framework_works_def by blast
  then show ?case using Cons.IH[OF c1(2)] by (auto simp: x map_add_def split: option.splits)
qed simp

lemma var_names:
  "header_var n = header_var m \<longleftrightarrow> n = m" "header_var n \<noteq> property_var env k" "property_var env k \<noteq> header_var n"
  "header_var n \<noteq> ''TOPIC''" "header_var n \<noteq> ''BOOTSTRAP_SERVERS''" "header_var n \<noteq> ''MODE''" "header_var n \<noteq> ''K_SINK''"
  "header_var n \<noteq> ''ENDPOINT__USERNAME''" "header_var n \<noteq> ''ENDPOINT__PASSWORD''" "header_var n \<noteq> ''ENDPOINT__TOKEN''"
  "header_var n \<noteq> ''ENDPOINT__TLS_INSECURE''" "header_var n \<noteq> ''ENDPOINT__TLS_CERTIFICATE''" "header_var n \<noteq> ''ENDPOINT__METHOD''"
  "header_var n \<noteq> ''ENDPOINT__TIMEOUT''" "header_var n \<noteq> ''PROPERTIES__GROUP_ID''"
  "property_var env k \<noteq> ''TOPIC''" "property_var env k \<noteq> ''K_SINK''" "property_var env k \<noteq> ''ENDPOINT__TOKEN''"
  by (simp_all add: header_var_def property_var_def)

lemma map_of_named: "(\<And>a b. g a = g b \<longleftrightarrow> a = b) \<Longrightarrow> map_of (map (\<lambda>(n, v). (g n, f v)) xs) (g k) = map_option f (map_of xs k)"
  by (induction xs) auto

lemma map_of_unnamed: "(\<And>a. g a \<noteq> k) \<Longrightarrow> map_of (map (\<lambda>(n, v). (g n, f v)) xs) k = None"
  by (auto simp: map_of_eq_None_iff) metis

lemma clear_env_value: "map_of (clear_env e) n = (if starts_with n ''ENDPOINT__HEADERS__'' \<or> starts_with n ''PROPERTIES__'' then None else map_of e n)"
  by (induction e) (auto simp: clear_env_def)

lemma header_setting: "map_of (rev (source_settings env spec topic)) (header_var h) = map_option Some (map_of (rev (np_headers spec)) h)"
proof -
  have "map_of (rev (map (\<lambda>(n, v). (header_var n, Some v)) (np_headers spec))) (header_var h) = map_option Some (map_of (rev (np_headers spec)) h)"
    unfolding rev_map by (rule map_of_named) (rule var_names)
  moreover have "map_of (rev (map (\<lambda>(k, v). (property_var env k, Some v)) ps)) (header_var h) = None" for ps :: "string smap"
    unfolding rev_map by (rule map_of_unnamed) (rule var_names)
  ultimately show ?thesis by (simp add: source_settings_def case_prod_beta map_add_def var_names split: option.splits)
qed

lemma fixed_setting:
  "map_of (rev (source_settings env spec topic)) ''TOPIC'' = Some (Some topic)"
  "map_of (rev (source_settings env spec topic)) ''K_SINK'' = Some (Some (np_url spec))"
  "map_of (rev (source_settings env spec topic)) ''ENDPOINT__TOKEN'' = Some (snd (snd (auth_env (np_auth spec))))"
proof -
  have other: "map_of (rev (map (\<lambda>(n, v). (header_var n, Some v)) hs)) k = None" "map_of (rev (map (\<lambda>(k, v). (property_var env k, Some v)) ps)) k = None"
    if "k \<in> {''TOPIC'', ''K_SINK'', ''ENDPOINT__TOKEN''}" for k and hs ps :: "string smap"
    unfolding rev_map by (rule map_of_unnamed, use that var_names in \<open>elim insertE emptyE; simp\<close>)+
  show "map_of (rev (source_settings env spec topic)) ''TOPIC'' = Some (Some topic)"
    by (simp add: source_settings_def case_prod_beta map_add_def other)
  show "map_of (rev (source_settings env spec topic)) ''K_SINK'' = Some (Some (np_url spec))"
    by (simp add: source_settings_def case_prod_beta map_add_def other)
  show "map_of (rev (source_settings env spec topic)) ''ENDPOINT__TOKEN'' = Some (snd (snd (auth_env (np_auth spec))))"
    by (simp add: source_settings_def case_prod_beta map_add_def other)
qed

lemma source_configured:
  assumes "framework_works env" and "reconcile_deployment env app spec (make_topic (nv_md5 env) EventsType app) d = Inr d'"
  shows "\<exists>c. map_of (dp_containers d') ''source'' = Some c
     \<and> env_value c ''TOPIC'' = Some (make_topic (nv_md5 env) EventsType app) \<and> env_value c ''K_SINK'' = Some (np_url spec)
     \<and> env_value c ''ENDPOINT__TOKEN'' = (case np_auth spec of AuthBearer t \<Rightarrow> Some t | _ \<Rightarrow> None)
     \<and> (\<forall>h. env_value c (header_var h) = map_of (rev (np_headers spec)) h)"
proof -
  let ?t = "make_topic (nv_md5 env) EventsType app"
  obtain c0 c where c: "source_container env spec ?t c0 = Inr c" "map_of (dp_containers d') ''source'' = Some c"
    using assms unfolding reconcile_deployment_def Let_def framework_works_def by blast
  define c1 where "c1 = c0\<lparr>cn_image_pull_policy := Some (pull_policy (nc_template (nv_config env)) (case dt_image (nc_template (nv_config env)) of Some i \<Rightarrow> i | None \<Rightarrow> DEFAULT_IMAGE)),
      cn_image := Some (case dt_image (nc_template (nv_config env)) of Some i \<Rightarrow> i | None \<Rightarrow> DEFAULT_IMAGE), cn_args := None, cn_command := None,
      cn_working_dir := None, cn_env := map_option clear_env (cn_env c0)\<rparr>"
  have run: "set_envs env (source_settings env spec ?t) c1 = Inr c" using c(1) by (simp add: source_container_def Let_def c1_def)
  have stale: "env_value c1 (header_var h) = None" for h
    by (cases "cn_env c0") (simp_all add: c1_def env_value_def clear_env_value starts_with_def header_var_def)
  have "snd (snd (auth_env (np_auth spec))) = (case np_auth spec of AuthBearer t \<Rightarrow> Some t | _ \<Rightarrow> None)" by (cases "np_auth spec") simp_all
  then show ?thesis using c(2) by (simp add: set_envs_value[OF assms(1) run] fixed_setting header_setting stale split: option.splits)
qed

lemma ensure_deployment_Inr:
  assumes "framework_works env" and "ensure_deployment env ctx spec s = (Inr d', s')"
  shows "\<exists>d e. reconcile_deployment env (pa_name (nx_app ctx)) spec (make_topic (nv_md5 env) EventsType (pa_name (nx_app ctx))) d = Inr e
     \<and> dp_containers d' = dp_containers e"
proof -
  let ?topic = "make_kafka_resource_name (nv_md5 env) (Events (pa_name (nx_app ctx)))"
  let ?edit = "reconcile_deployment env (pa_name (nx_app ctx)) spec ?topic"
  obtain s1 where "nv_apply env (nc_target_namespace (nv_config env)) ?topic ?edit s = (Inr d', s1)"
    using assms(2)
    by (cases "nv_apply env (nc_target_namespace (nv_config env)) ?topic ?edit s") (auto simp: ensure_deployment_def Let_def map_sum_def split: sum.splits)
  then show ?thesis using assms(1) unfolding framework_works_def make_topic.simps by blast
qed

text \<open>
  C32. The event source that the operator deploys for an application is configured as its
  section asks for.  When the step that creates the deployment succeeds, the section of the
  application was readable, and the deployment it got has a source which reads the topic of the
  events of this application and sends to the endpoint of the section, with exactly the
  headers of the section, the last value if one is given twice; no header of an earlier
  configuration is left, and no token unless the section has one.  Kubernetes and the operator
  framework store the containers as they are edited.
\<close>

theorem knative_source_configured:
  assumes "framework_works env" and "create_deployment_run env ctx s = (Inr result, s')"
  shows "\<exists>spec d' c. nv_spec env (nx_app ctx) = Some (Inr spec) \<and> result = StepContinue (ctx\<lparr>nx_deployment := Some d'\<rparr>)
     \<and> map_of (dp_containers d') ''source'' = Some c
     \<and> env_value c ''TOPIC'' = Some (make_topic (nv_md5 env) EventsType (pa_name (nx_app ctx))) \<and> env_value c ''K_SINK'' = Some (np_url spec)
     \<and> env_value c ''ENDPOINT__TOKEN'' = (case np_auth spec of AuthBearer t \<Rightarrow> Some t | _ \<Rightarrow> None)
     \<and> (\<forall>h. env_value c (header_var h) = map_of (rev (np_headers spec)) h)"
proof -
  obtain spec d' where step: "nv_spec env (nx_app ctx) = Some (Inr spec)" "ensure_deployment env ctx spec s = (Inr d', s')"
      "result = StepContinue (ctx\<lparr>nx_deployment := Some d'\<rparr>)"
    using assms(2) by (auto simp: create_deployment_run_def io_bind_Inr split: option.splits sum.splits)
  obtain d e where e: "reconcile_deployment env (pa_name (nx_app ctx)) spec (make_topic (nv_md5 env) EventsType (pa_name (nx_app ctx))) d = Inr e"
      "dp_containers d' = dp_containers e"
    using ensure_deployment_Inr[OF assms(1) step(2)] by blast
  from source_configured[OF assms(1) e(1)] show ?thesis unfolding e(2)[symmetric] using step(1,3) by blast
qed

definition demo_knative_spec :: knative_spec where
  "demo_knative_spec = \<lparr>np_disabled = False, np_url = ''http://sink'', np_auth = AuthNone, np_tls = None, np_method = None, np_timeout = None,
     np_headers = [(''a'', ''1'')], np_group_id = None\<rparr>"

definition demo_deployment :: deployment where
  "demo_deployment = \<lparr>dp_annotations = None, dp_match_labels = None, dp_template_labels = None,
     dp_containers = [(''source'', \<lparr>cn_image = None, cn_image_pull_policy = None, cn_args = None, cn_command = None, cn_working_dir = None,
       cn_env = Some [(''ENDPOINT__HEADERS__b'', ''2'')]\<rparr>)], dp_conditions = []\<rparr>"

definition demo_knative :: "unit knative_env" where
  "demo_knative = \<lparr>nv_config = \<lparr>nc_target_namespace = ''drogue'', nc_template = \<lparr>dt_image = None, dt_image_pull_policy = None\<rparr>, nc_bootstrap_servers = ''kafka'', nc_properties = []\<rparr>,
     nv_md5 = demo_md5,
     nv_set_env = (\<lambda>n v c. Inr (c\<lparr>cn_env := Some (let e = (case cn_env c of Some e \<Rightarrow> e | None \<Rightarrow> []) in case v of Some x \<Rightarrow> AList.update n x e | None \<Rightarrow> AList.delete n e)\<rparr>)),
     nv_apply_container = (\<lambda>n f d. rbind (f (case map_of (dp_containers d) n of Some c \<Rightarrow> c
        | None \<Rightarrow> \<lparr>cn_image = None, cn_image_pull_policy = None, cn_args = None, cn_command = None, cn_working_dir = None, cn_env = None\<rparr>)) (\<lambda>c.
          Inr (d\<lparr>dp_containers := AList.update n c (dp_containers d)\<rparr>))),
     nv_uppercase = id, nv_duration = nat_str, nv_spec = (\<lambda>_. Some (Inr demo_knative_spec)), nv_apply = (\<lambda>_ _ f s. (f demo_deployment, s)), nv_delete = (\<lambda>_ s. (Inr True, s)),
     nv_clear_downstream = Inr, nv_clear_ready = (\<lambda>_. Inr), nv_clear_status = id\<rparr>"

lemma demo_knative_works: "framework_works demo_knative"
  by (auto simp: framework_works_def demo_knative_def env_value_def result_simps update_conv' delete_conv' split: option.splits)

lemma demo_set_envs: "\<exists>c'. set_envs demo_knative xs c = Inr c'"
  by (induction xs arbitrary: c) (auto simp: demo_knative_def)

lemma demo_apply: "(\<And>c. \<exists>c'. f c = Inr c') \<Longrightarrow> \<exists>d'. nv_apply_container demo_knative n f d = Inr d'"
  by (simp add: demo_knative_def) (metis rbind.simps(2))

lemma demo_reconcile: "\<exists>e. reconcile_deployment demo_knative app spec topic d = Inr e"
  unfolding reconcile_deployment_def Let_def by (rule demo_apply) (simp only: source_container_def Let_def demo_set_envs)

lemma demo_ensure: "\<exists>d'. ensure_deployment demo_knative ctx spec s = (Inr d', s)"
proof -
  let ?topic = "make_kafka_resource_name (nv_md5 demo_knative) (Events (pa_name (nx_app ctx)))"
  obtain e where "reconcile_deployment demo_knative (pa_name (nx_app ctx)) spec ?topic demo_deployment = Inr e" using demo_reconcile by blast
  moreover have "nv_apply demo_knative ns n f t = (f demo_deployment, t)" for ns n f t by (simp add: demo_knative_def)
  ultimately show ?thesis by (simp add: ensure_deployment_def Let_def del: make_kafka_resource_name.simps)
qed

definition demo_knative_ctx :: knative_construct where
  "demo_knative_ctx = \<lparr>nx_app = \<lparr>pa_name = ''foo'', pa_uid = [], pa_resource_version = [], pa_labels = [], pa_annotations = [], pa_creation_timestamp = 0,
     pa_generation = 1, pa_deletion_timestamp = None, pa_finalizers = [], pa_spec = [], pa_status = []\<rparr>, nx_deployment = None\<rparr>"

theorem knative_source_configured_witness:
  "\<exists>d' c. create_deployment_run demo_knative demo_knative_ctx () = (Inr (StepContinue (demo_knative_ctx\<lparr>nx_deployment := Some d'\<rparr>)), ())
     \<and> map_of (dp_containers d') ''source'' = Some c \<and> env_value c ''TOPIC'' = Some (make_topic demo_md5 EventsType ''foo'')
     \<and> env_value c ''ENDPOINT__HEADERS__a'' = Some ''1'' \<and> env_value c ''ENDPOINT__HEADERS__b'' = None"
proof -
  have md5: "nv_md5 demo_knative = demo_md5" by (simp add: demo_knative_def)
  have app: "pa_name (nx_app demo_knative_ctx) = ''foo''" by (simp add: demo_knative_ctx_def)
  have spec: "nv_spec demo_knative a = Some (Inr demo_knative_spec)" for a by (simp add: demo_knative_def)
  obtain d1 where d1: "ensure_deployment demo_knative demo_knative_ctx demo_knative_spec () = (Inr d1, ())" using demo_ensure by blast
  have run: "create_deployment_run demo_knative demo_knative_ctx () = (Inr (StepContinue (demo_knative_ctx\<lparr>nx_deployment := Some d1\<rparr>)), ())"
    by (simp add: create_deployment_run_def spec d1)
  obtain spec d' c where c: "nv_spec demo_knative (nx_app demo_knative_ctx) = Some (Inr spec)"
      "StepContinue (demo_knative_ctx\<lparr>nx_deployment := Some d1\<rparr>) = StepContinue (demo_knative_ctx\<lparr>nx_deployment := Some d'\<rparr>)"
      "map_of (dp_containers d') ''source'' = Some c" "env_value c ''TOPIC'' = Some (make_topic demo_md5 EventsType ''foo'')"
      "\<forall>h. env_value c (header_var h) = map_of (rev (np_headers spec)) h"
    using knative_source_configured[OF demo_knative_works run] unfolding md5 app by blast
  have "spec = demo_knative_spec" using c(1) unfolding spec by blast
  then have "env_value c (header_var ''a'') = Some ''1''" "env_value c (header_var ''b'') = None"
    using c(5) by (simp_all add: demo_knative_spec_def)
  then show ?thesis using run c(3,4) unfolding c(2) header_var_def by (intro exI[of _ d'] exI[of _ c] conjI) (assumption | simp del: make_topic.simps)+
qed

end
