(* ===== verification/Ditto_Client.thy ===== *)
theory Ditto_Client
  imports Reconciler Event_Stream Command_Service
begin

text \<open>
  The client of Eclipse Ditto (\<open>ditto-registry-operator/src/ditto\<close>): its data, the requests
  for policies and things, the devops commands, and which failures are temporary.

  The world is the history of requests with their answers.  Parameters: the server, whose
  answer is any function of the history, the URL library, the access tokens, and the codecs
  derived for the data.
\<close>

section \<open>Data\<close>

datatype entity_id = EntityId string string

fun entity_text :: "entity_id \<Rightarrow> string" where
  "entity_text (EntityId ns name) = ns @ '':'' @ name"

definition entity_of_text :: "string \<Rightarrow> string + entity_id" where
  "entity_of_text s = (case split_on (CHR '':'') s of [ns, name] \<Rightarrow> Inr (EntityId ns name) | _ \<Rightarrow> Inl ''Invalid policy ID'')"

datatype ditto_permission = DittoRead | DittoWrite | DittoExecute

record ditto_permissions =
  dm_grant :: "ditto_permission list"
  dm_revoke :: "ditto_permission list"

definition grant :: "ditto_permission list \<Rightarrow> ditto_permissions" where
  "grant permissions = \<lparr>dm_grant = permissions, dm_revoke = []\<rparr>"

datatype ditto_resource = ThingResource string | PolicyResource string | MessageResource string

fun resource_text :: "ditto_resource \<Rightarrow> string" where
  "resource_text (ThingResource path) = ''thing:'' @ path"
| "resource_text (PolicyResource path) = ''policy:'' @ path"
| "resource_text (MessageResource path) = ''message:'' @ path"

definition resource_of_text :: "string \<Rightarrow> string + ditto_resource" where
  "resource_of_text s =
     (case split_on (CHR '':'') s of
        [kind, path] \<Rightarrow>
          if kind = ''thing'' then Inr (ThingResource path)
          else if kind = ''policy'' then Inr (PolicyResource path)
          else if kind = ''message'' then Inr (MessageResource path)
          else Inl ''Invalid policy ID''
      | _ \<Rightarrow> Inl ''Invalid policy ID'')"

record policy_entry =
  pe_subjects :: "string smap"
  pe_resources :: "(ditto_resource \<times> ditto_permissions) list"

record policy =
  po_policy_id :: entity_id
  po_entries :: "policy_entry smap"

record thing =
  tg_thing_id :: entity_id
  tg_policy_id :: entity_id
  tg_definition :: "string option"
  tg_attributes :: json
  tg_features :: "json smap"

section \<open>Devops commands\<close>

datatype qos_level = AtMostOnce | AtLeastOnce

record enforcement =
  en_input :: string
  en_filters :: "string list"

record connection_source =
  sr_addresses :: "string list"
  sr_consumer_count :: nat
  sr_qos :: "qos_level option"
  sr_authorization_context :: "string list"
  sr_enforcement :: enforcement
  sr_header_mapping :: "string smap"
  sr_payload_mapping :: "string list"

record connection_target =
  tt_address :: string
  tt_topics :: "string list"
  tt_authorization_context :: "string list"
  tt_header_mapping :: "string smap"
  tt_payload_mapping :: "string list"

record mapping_definition =
  md_mapping_engine :: string
  md_options :: "json smap"

datatype connection_status = ConnectionOpen

record connection =
  co_id :: string
  co_connection_type :: string
  co_connection_status :: connection_status
  co_client_count :: "nat option"
  co_failover_enabled :: bool
  co_uri :: string
  co_validate_certificates :: bool
  co_ca :: "string option"
  co_specific_config :: "string smap"
  co_sources :: "connection_source list"
  co_targets :: "connection_target list"
  co_mapping_definitions :: "mapping_definition smap"

datatype shutdown_reason = ShutdownPurgeNamespace string

datatype piggyback_command =
    CreateConnection connection
  | ModifyConnection connection
  | DeleteConnection string
  | BlockNamespace string
  | Shutdown shutdown_reason
  | PurgeNamespace string
  | UnblockNamespace string

record devops_headers =
  dh_aggregate :: bool
  dh_is_group_topic :: bool

definition default_headers :: devops_headers where
  "default_headers = \<lparr>dh_aggregate = False, dh_is_group_topic = False\<rparr>"

record devops_command =
  dc_target_actor_selection :: string
  dc_headers :: devops_headers
  dc_piggyback_command :: piggyback_command

record connectivity_entry =
  ce_status :: nat
  ce_error :: "string option"
  ce_message :: "string option"
  ce_description :: "string option"

record namespace_entry =
  ns_type :: string
  ns_status :: nat
  ns_namespace :: string
  ns_resource_type :: string
  ns_successful :: "bool option"

section \<open>Requests\<close>

datatype ditto_body = NoBody | PolicyBody policy | ThingBody thing | DevopsBody devops_command

record ditto_request =
  dr_verb :: http_verb
  dr_url :: string
  dr_token :: "string option"
  dr_body :: ditto_body

record reqwest_error =
  rw_timeout :: bool
  rw_connect :: bool
  rw_status :: "nat option"
  rw_text :: string

record ditto_response =
  dp_status :: nat
  dp_text :: "reqwest_error + string"
  dp_json :: "reqwest_error + json"

datatype ditto_error =
    UrlError string
  | TokenError string
  | RequestError reqwest_error
  | ResponseError nat
  | JsonError string

text \<open>\<open>code_is_temp\<close> and \<open>is_temporary\<close>.\<close>

definition code_is_temp :: "nat \<Rightarrow> bool" where
  "code_is_temp code \<longleftrightarrow> is_server_error code \<or> code = 408"

fun is_temporary :: "ditto_error \<Rightarrow> bool" where
  "is_temporary (RequestError err) \<longleftrightarrow>
     rw_timeout err \<or> rw_connect err \<or> (case rw_status err of Some code \<Rightarrow> code_is_temp code | None \<Rightarrow> False)"
| "is_temporary (ResponseError code) \<longleftrightarrow> code_is_temp code"
| "is_temporary _ \<longleftrightarrow> False"

type_synonym ditto_history = "(ditto_request \<times> (reqwest_error + ditto_response)) list"

type_synonym 'a ditto_io = "ditto_history \<Rightarrow> (ditto_error + 'a) \<times> ditto_history"

datatype ditto_provider = DevopsProvider | AdminProvider

record ditto_env =
  dv_url :: string
  dv_join :: "string \<Rightarrow> string \<Rightarrow> string + string"
  dv_append_query :: "string \<Rightarrow> string \<Rightarrow> string \<Rightarrow> string"
  dv_token :: "ditto_provider \<Rightarrow> ditto_history \<Rightarrow> string + string option"
  dv_send :: "ditto_history \<Rightarrow> ditto_request \<Rightarrow> reqwest_error + ditto_response"
  dv_debug :: bool
  dv_status_text :: "nat \<Rightarrow> string"
  dv_connectivity :: "json \<Rightarrow> string + connectivity_entry smap"
  dv_namespaces :: "json \<Rightarrow> string + namespace_entry smap"

fun ditto_error_text :: "ditto_env \<Rightarrow> ditto_error \<Rightarrow> string" where
  "ditto_error_text env (UrlError e) = ''failed to build URL: '' @ e"
| "ditto_error_text env (TokenError e) = ''failed to acquire access token: '' @ e"
| "ditto_error_text env (RequestError e) = ''failed to execute request: '' @ rw_text e"
| "ditto_error_text env (ResponseError code) = ''response indicated error ('' @ dv_status_text env code @ '')''"
| "ditto_error_text env (JsonError e) = ''JSON error ('' @ e @ '')''"

definition ditto_send :: "ditto_env \<Rightarrow> ditto_request \<Rightarrow> ditto_response ditto_io" where
  "ditto_send env rq w = (let a = dv_send env w rq in (map_sum RequestError id a, w @ [(rq, a)]))"

definition inject_token :: "ditto_env \<Rightarrow> ditto_provider \<Rightarrow> ditto_request \<Rightarrow> ditto_request ditto_io" where
  "inject_token env provider rq w = (map_sum TokenError (\<lambda>token. rq\<lparr>dr_token := token\<rparr>) (dv_token env provider w), w)"

datatype policy_operation = PolicyCreateOrUpdate policy | PolicyDelete entity_id

datatype thing_operation = ThingCreateOrUpdate thing | ThingDelete entity_id

definition new_request :: "ditto_env \<Rightarrow> http_verb \<Rightarrow> string \<Rightarrow> ditto_body \<Rightarrow> ditto_error + ditto_request" where
  "new_request env verb path body =
     rbind (map_err UrlError (dv_join env (dv_url env) ''/api/2/'')) (\<lambda>base.
     rbind (map_err UrlError (dv_join env base path)) (\<lambda>url.
       Inr \<lparr>dr_verb = verb, dr_url = url, dr_token = None, dr_body = body\<rparr>))"

fun policy_builder :: "ditto_env \<Rightarrow> policy_operation \<Rightarrow> ditto_error + ditto_request" where
  "policy_builder env (PolicyCreateOrUpdate p) = new_request env PUT (''policies/'' @ entity_text (po_policy_id p)) (PolicyBody p)"
| "policy_builder env (PolicyDelete policy_id) = new_request env DELETE (''policies/'' @ entity_text policy_id) NoBody"

fun thing_builder :: "ditto_env \<Rightarrow> thing_operation \<Rightarrow> ditto_error + ditto_request" where
  "thing_builder env (ThingCreateOrUpdate t) = new_request env PUT (''things/'' @ entity_text (tg_thing_id t)) (ThingBody t)"
| "thing_builder env (ThingDelete thing_id) = new_request env DELETE (''things/'' @ entity_text thing_id) NoBody"

definition read_answer :: "ditto_env \<Rightarrow> ditto_response \<Rightarrow> ditto_error + json option" where
  "read_answer env resp =
     (if is_success (dp_status resp)
      then if dp_status resp = 204 then Inr None else map_sum RequestError Some (dp_json resp)
      else if dv_debug env
        then rbind (map_err RequestError (dp_text resp)) (\<lambda>_. Inl (ResponseError (dp_status resp)))
        else Inl (ResponseError (dp_status resp)))"

definition ditto_request_run :: "ditto_env \<Rightarrow> ditto_provider \<Rightarrow> ditto_error + ditto_request \<Rightarrow> json option ditto_io" where
  "ditto_request_run env provider builder w =
     io_bind (builder, w) (\<lambda>rq w.
     io_bind (inject_token env provider rq w) (\<lambda>rq w.
     io_bind (ditto_send env rq w) (\<lambda>resp w. (read_answer env resp, w))))"

text \<open>\<open>error_for_status\<close>: the library makes an error of the codes of client and server errors.\<close>

definition error_for_status :: "ditto_env \<Rightarrow> ditto_response \<Rightarrow> ditto_error + ditto_response" where
  "error_for_status env resp =
     (if 400 \<le> dp_status resp \<and> dp_status resp < 600
      then Inl (RequestError \<lparr>rw_timeout = False, rw_connect = False, rw_status = Some (dp_status resp), rw_text = dv_status_text env (dp_status resp)\<rparr>)
      else Inr resp)"

definition devops :: "ditto_env \<Rightarrow> ditto_provider \<Rightarrow> nat option \<Rightarrow> (json \<Rightarrow> string + 'a) \<Rightarrow> devops_command \<Rightarrow> 'a ditto_io" where
  "devops env provider timeout decode command w =
     io_bind (map_err UrlError (dv_join env (dv_url env) ''/devops/piggyback/connectivity''), w) (\<lambda>url w.
     let url = (case timeout of Some t \<Rightarrow> dv_append_query env url ''timeout'' (nat_str t @ ''s'') | None \<Rightarrow> url) in
     io_bind (inject_token env provider \<lparr>dr_verb = POST, dr_url = url, dr_token = None, dr_body = NoBody\<rparr> w) (\<lambda>rq w.
     io_bind (ditto_send env (rq\<lparr>dr_body := DevopsBody command\<rparr>) w) (\<lambda>resp w.
       (rbind (error_for_status env resp) (\<lambda>resp.
        rbind (map_err RequestError (dp_json resp)) (\<lambda>j. map_err JsonError (decode j))), w))))"

section \<open>The websocket protocol\<close>

datatype protocol_policy_op = ProtocolCreate policy | ProtocolUpdate policy | ProtocolDelete entity_id

record request_options =
  ro_headers :: "string smap"
  ro_fields :: "string option"
  ro_extra :: "json smap"
  ro_revision :: "u64 option"
  ro_timestamp :: "timestamp option"

record request_envelope =
  rv_topic :: string
  rv_path :: string
  rv_value :: "policy option"
  rv_options :: request_options

fun to_topic :: "entity_id \<Rightarrow> string \<Rightarrow> string" where
  "to_topic (EntityId ns name) path = ns @ ''/'' @ name @ ''/'' @ path"

fun protocol_request :: "protocol_policy_op \<Rightarrow> request_options \<Rightarrow> request_envelope" where
  "protocol_request (ProtocolCreate p) options =
     \<lparr>rv_topic = to_topic (po_policy_id p) ''policies/commands/create'', rv_path = ''/'', rv_value = Some p, rv_options = options\<rparr>"
| "protocol_request (ProtocolUpdate p) options =
     \<lparr>rv_topic = to_topic (po_policy_id p) ''policies/commands/modify'', rv_path = ''/'', rv_value = Some p, rv_options = options\<rparr>"
| "protocol_request (ProtocolDelete i) options =
     \<lparr>rv_topic = to_topic i ''policies/commands/delete'', rv_path = ''/'', rv_value = None, rv_options = options\<rparr>"

section \<open>Texts\<close>

lemma entity_text_roundtrip:
  "entity_of_text (entity_text (EntityId ns name)) = Inr (EntityId ns name) \<longleftrightarrow> CHR '':'' \<notin> set ns \<and> CHR '':'' \<notin> set name"
proof
  assume "entity_of_text (entity_text (EntityId ns name)) = Inr (EntityId ns name)"
  then have "set (split_on (CHR '':'') (ns @ '':'' @ name)) = set [ns, name]" by (auto simp: entity_of_text_def split: list.splits)
  then have "ns \<in> set (split_on (CHR '':'') (ns @ '':'' @ name))" "name \<in> set (split_on (CHR '':'') (ns @ '':'' @ name))"
    by (simp_all only: list.set insert_iff simp_thms)
  then show "CHR '':'' \<notin> set ns \<and> CHR '':'' \<notin> set name" using split_on_parts_no_sep by blast
qed (simp add: entity_of_text_def split_on_append_sep split_on_no_sep)

lemma resource_text_roundtrip:
  assumes "CHR '':'' \<notin> set path"
  shows "resource_of_text (resource_text (ThingResource path)) = Inr (ThingResource path)"
    and "resource_of_text (resource_text (PolicyResource path)) = Inr (PolicyResource path)"
    and "resource_of_text (resource_text (MessageResource path)) = Inr (MessageResource path)"
  using assms split_on_append_sep[of "CHR '':''" "''thing''" path] split_on_append_sep[of "CHR '':''" "''policy''" path]
    split_on_append_sep[of "CHR '':''" "''message''" path]
  by (simp_all add: resource_of_text_def del: split_on.simps)

end
