(* ===== verification/Ditto_Operator.thy ===== *)
theory Ditto_Operator
  imports Ditto_Client Kafka_Names
begin

text \<open>
  The operator that connects applications and devices with Eclipse Ditto
  (\<open>ditto-registry-operator/src/controller\<close>): the connections between Kafka and Ditto, the
  policy of an application, the things of its devices, and their removal.

  Parameters: the client of \<open>Ditto_Client\<close>, the sections and finalizers of the client
  library, the URL and form encodings, MD5, and the two scripts of the inbound connection.
\<close>

section \<open>Settings\<close>

datatype ditto_topic = TwinEvents "string list" "string option"

datatype exporter_mode = DittoMode bool | CloudEventsMode bool

record exporter_target =
  xt_topic :: string
  xt_mode :: exporter_mode
  xt_subscriptions :: "ditto_topic list"

record exporter =
  xp_kafka :: kafka_client_config
  xp_targets :: "exporter_target list"

record ingress =
  ig_clients :: "nat option"
  ig_consumers :: "nat option"

record ditto_app_spec =
  das_exporter :: "exporter option"
  das_ingress :: "ingress option"

definition CONDITION_DITTO_READY :: string where "CONDITION_DITTO_READY = ''DittoReady''"

definition DITTO_FINALIZER :: string where "DITTO_FINALIZER = ''ditto''"

record ditto_op_env =
  oe_client :: ditto_env
  oe_kafka :: kafka_client_config
  oe_md5 :: "string \<Rightarrow> string"
  oe_spec :: "api_application \<Rightarrow> (string + ditto_app_spec) option"
  oe_has_label_flag :: "string smap \<Rightarrow> string \<Rightarrow> bool"
  oe_parse_url :: "string \<Rightarrow> string option"
  oe_set_credentials :: "string \<Rightarrow> string option \<Rightarrow> string \<Rightarrow> string option"
  oe_urlencode :: "string smap \<Rightarrow> string + string"
  oe_to_ditto :: string
  oe_from_ditto :: string

text \<open>What the client library does with a resource.\<close>

record ('r, 'cs) ditto_sections =
  dq_section :: "('r, 'cs) section_env"
  dq_ensure_finalizer :: "string \<Rightarrow> 'r \<Rightarrow> bool \<times> 'r"
  dq_remove_finalizer :: "string \<Rightarrow> 'r \<Rightarrow> 'r"
  dq_clear_ready :: "string \<Rightarrow> 'r \<Rightarrow> reconcile_error + 'r"
  dq_clear_status :: "'r \<Rightarrow> 'r"

text \<open>\<open>KafkaClientConfig::translate\<close>, applied when the controller is created.\<close>

definition translate_client :: "kafka_client_config \<Rightarrow> kafka_client_config" where
  "translate_client config = config\<lparr>kc_properties :=
     fold (\<lambda>(k, v). AList.update (replace_char (CHR ''_'') (CHR ''.'') k) v) (kc_properties config) []\<rparr>"

section \<open>Connections\<close>

datatype connection_type = Inbound | Outbound

fun connection_id :: "connection_type \<Rightarrow> string \<Rightarrow> string" where
  "connection_id Inbound app = ''kafka-drogue-'' @ app"
| "connection_id Outbound app = ''drogue-out-'' @ app"

record ditto_kafka_options =
  dk_uri :: string
  dk_specific_config :: "string smap"
  dk_validate_certificates :: bool
  dk_ca :: "string option"

text \<open>\<open>replace(".:", ":")\<close>.\<close>

fun drop_trailing_dot :: "string \<Rightarrow> string" where
  "drop_trailing_dot (c # d # rest) =
     (if c = CHR ''.'' \<and> d = CHR '':'' then CHR '':'' # drop_trailing_dot rest else c # drop_trailing_dot (d # rest))"
| "drop_trailing_dot s = s"

definition kafka_scheme :: "string smap \<Rightarrow> string" where
  "kafka_scheme properties =
     (case map_of properties ''security.protocol'' of
        Some p \<Rightarrow> if p = ''SSL'' \<or> p = ''SASL_SSL'' then ''ssl'' else ''tcp''
      | None \<Rightarrow> ''tcp'')"

definition specific_config :: "string \<Rightarrow> string smap \<Rightarrow> string \<Rightarrow> string smap" where
  "specific_config bootstrap_server properties group_id =
     fold (\<lambda>(k, v). case strip_prefix ''ditto.specificConfig.'' k of Some k \<Rightarrow> AList.update k v | None \<Rightarrow> id) properties
       ([(''bootstrapServers'', bootstrap_server)]
        @ (case map_of properties ''sasl.mechanism'' of Some m \<Rightarrow> [(''saslMechanism'', m)] | None \<Rightarrow> [])
        @ [(''groupId'', group_id)])"

definition connection_info :: "ditto_op_env \<Rightarrow> kafka_client_config \<Rightarrow> string \<Rightarrow> reconcile_error + ditto_kafka_options" where
  "connection_info env config group_id =
     (let properties = kc_properties config;
          bootstrap_server = drop_trailing_dot (kc_bootstrap_servers config);
          failed = Permanent ''Failed to build Kafka bootstrap URL''
      in rbind (ok_or failed (oe_parse_url env (kafka_scheme properties @ ''://'' @ bootstrap_server))) (\<lambda>uri.
         rbind (case map_of properties ''sasl.username'' of
                  Some username \<Rightarrow> ok_or failed (oe_set_credentials env username (map_of properties ''sasl.password'') uri)
                | None \<Rightarrow> Inr uri) (\<lambda>uri.
           Inr \<lparr>dk_uri = uri, dk_specific_config = specific_config bootstrap_server properties group_id,
                dk_validate_certificates = (case map_of properties ''ditto.validateCertificates'' of Some s \<Rightarrow> s = ''true'' | None \<Rightarrow> True),
                dk_ca = map_of properties ''ditto.ca''\<rparr>)))"

definition default_enforcement :: "string \<Rightarrow> enforcement" where
  "default_enforcement app =
     \<lparr>en_input = ''{{ header:ce_application }}:{{ header:ce_device }}'', en_filters = [app @ '':{{ thing:name }}'']\<rparr>"

definition default_header_mapping :: "string smap" where
  "default_header_mapping =
     [(''application'', ''{{ header:ce_application }}''), (''device'', ''{{ header:ce_device }}''),
      (''content-type'', ''{{ header:content-type }}'')]"

definition mapping_definitions_inbound :: "ditto_op_env \<Rightarrow> mapping_definition smap" where
  "mapping_definitions_inbound env =
     [(''drogue-cloud-events-mapping'', \<lparr>md_mapping_engine = ''JavaScript'', md_options =
        [(''incomingScript'', String (oe_to_ditto env)), (''outgoingScript'', String (oe_from_ditto env)),
         (''loadBytebufferJS'', String ''false''), (''loadLongJS'', String ''false'')]\<rparr>)]"

fun mapping_definitions_outbound :: "exporter_mode \<Rightarrow> string list \<times> string smap" where
  "mapping_definitions_outbound (DittoMode normalized) = (if normalized then [''Normalized''] else [], [])"
| "mapping_definitions_outbound (CloudEventsMode normalized) =
     (if normalized then [''Normalized''] else [],
      [(''ce_specversion'', ''1.0''), (''ce_source'', ''ditto:instance/{{ thing:namespace }}/{{ thing:name }}''),
       (''ce_id'', ''{{ header:correlation-id }}''), (''ce_time'', ''{{ time:now }}''),
       (''ce_type'', ''org.eclipse.io.ditto.v{{ header:version }}''), (''ce_dataschema'', ''urn:eclipse:ditto''),
       (''ce_application'', ''{{ thing:namespace }}''), (''ce_device'', ''{{ thing:name }}''), (''ce_subject'', ''{{ topic:action }}'')])"

definition inbound_connection_definition :: "ditto_op_env \<Rightarrow> string \<Rightarrow> ingress option \<Rightarrow> reconcile_error + connection" where
  "inbound_connection_definition env app ing =
     (let i = connection_id Inbound app in
      rbind (connection_info env (oe_kafka env) (''ditto-'' @ i)) (\<lambda>opts.
        Inr \<lparr>co_id = i, co_connection_type = ''kafka'', co_connection_status = ConnectionOpen, co_client_count = Option.bind ing ig_clients, co_failover_enabled = True,
             co_uri = dk_uri opts, co_validate_certificates = dk_validate_certificates opts, co_ca = dk_ca opts,
             co_specific_config = dk_specific_config opts,
             co_sources = [\<lparr>sr_addresses = [make_topic (oe_md5 env) EventsType app],
               sr_consumer_count = (case Option.bind ing ig_consumers of Some n \<Rightarrow> n | None \<Rightarrow> 1), sr_qos = Some AtLeastOnce,
               sr_authorization_context = [''pre-authenticated:drogue-cloud''], sr_enforcement = default_enforcement app,
               sr_header_mapping = default_header_mapping, sr_payload_mapping = [''drogue-cloud-events-mapping'']\<rparr>],
             co_targets = [], co_mapping_definitions = mapping_definitions_inbound env\<rparr>))"

fun twin_query :: "string \<Rightarrow> ditto_topic \<Rightarrow> string smap" where
  "twin_query ns (TwinEvents extra_fields flt) =
     [(''namespace'', ns)] @ (if extra_fields = [] then [] else [(''extraFields'', join '','' extra_fields)])
     @ (case flt of Some f \<Rightarrow> [(''filter'', f)] | None \<Rightarrow> [])"

definition twin_topic :: "ditto_op_env \<Rightarrow> string \<Rightarrow> ditto_topic \<Rightarrow> reconcile_error + string" where
  "twin_topic env ns topic =
     map_sum (\<lambda>err. Permanent (''Unable to encode outbound configuration options: '' @ err)) (\<lambda>q. ''_/_/things/twin/events?'' @ q)
       (oe_urlencode env (twin_query ns topic))"

text \<open>\<open>collect\<close> of results: the values, or the first error.\<close>

fun collect_all :: "('a \<Rightarrow> 'e + 'b) \<Rightarrow> 'a list \<Rightarrow> 'e + 'b list" where
  "collect_all f [] = Inr []"
| "collect_all f (x # xs) = rbind (f x) (\<lambda>y. rbind (collect_all f xs) (\<lambda>ys. Inr (y # ys)))"

definition outbound_connection_target :: "ditto_op_env \<Rightarrow> string \<Rightarrow> exporter_target \<Rightarrow> reconcile_error + connection_target" where
  "outbound_connection_target env app target =
     (if CHR ''/'' \<in> set (xt_topic target)
      then Inl (Permanent (''Ditto exporter Kafka topic must not contain slashes. Is: '' @ xt_topic target))
      else rbind (collect_all (twin_topic env app) (xt_subscriptions target)) (\<lambda>topics.
        let (payload_mapping, header_mapping) = mapping_definitions_outbound (xt_mode target)
        in Inr \<lparr>tt_address = xt_topic target @ ''/{{ thing:id }}'', tt_topics = topics,
             tt_authorization_context = [''pre-authenticated:drogue-cloud''], tt_header_mapping = header_mapping,
             tt_payload_mapping = payload_mapping\<rparr>))"

definition outbound_connection_definition :: "ditto_op_env \<Rightarrow> string \<Rightarrow> exporter \<Rightarrow> reconcile_error + connection" where
  "outbound_connection_definition env app exp =
     rbind (collect_all (outbound_connection_target env app) (xp_targets exp)) (\<lambda>targets.
     rbind (connection_info env (xp_kafka exp) (connection_id Outbound app)) (\<lambda>opts.
       Inr \<lparr>co_id = connection_id Outbound app, co_connection_type = ''kafka'', co_connection_status = ConnectionOpen, co_client_count = None, co_failover_enabled = True,
            co_uri = dk_uri opts, co_validate_certificates = dk_validate_certificates opts, co_ca = dk_ca opts,
            co_specific_config = dk_specific_config opts, co_sources = [], co_targets = targets, co_mapping_definitions = []\<rparr>))"

section \<open>Commands\<close>

type_synonym 'a operator_io = "ditto_history \<Rightarrow> (reconcile_error + 'a) \<times> ditto_history"

definition map_ditto_error :: "ditto_env \<Rightarrow> ditto_error \<Rightarrow> reconcile_error" where
  "map_ditto_error env err = (if is_temporary err then Temporary (ditto_error_text env err) else Permanent (ditto_error_text env err))"

definition as_operator :: "ditto_env \<Rightarrow> (ditto_error + 'a) \<times> ditto_history \<Rightarrow> (reconcile_error + 'a) \<times> ditto_history" where
  "as_operator env r = (map_err (map_ditto_error env) (fst r), snd r)"

definition eval_con_response :: "connectivity_entry smap \<Rightarrow> reconcile_error + unit" where
  "eval_con_response entries =
     (if entries = [] then Inl (Permanent ''Missing devops response'')
      else let r = snd (last entries) in
        if is_success (ce_status r) then Inr ()
        else Inl (Permanent (''DevOps error ('' @ nat_str (ce_status r) @ ''): '' @ (case ce_error r of Some e \<Rightarrow> e | None \<Rightarrow> []))))"

definition eval_ns_response :: "namespace_entry smap \<Rightarrow> reconcile_error + unit" where
  "eval_ns_response entries =
     (if entries = [] then Inl (Permanent ''Missing devops response'')
      else let r = snd (last entries) in
        if is_success (ns_status r) then Inr () else Inl (Permanent (''DevOps error ('' @ nat_str (ns_status r) @ '')'')))"

definition not_found :: "connectivity_entry smap \<Rightarrow> bool" where
  "not_found entries \<longleftrightarrow> (case entries of (_, r) # _ \<Rightarrow> ce_status r = 404 | [] \<Rightarrow> False)"

definition con_command :: "ditto_op_env \<Rightarrow> piggyback_command \<Rightarrow> connectivity_entry smap operator_io" where
  "con_command env cmd w =
     as_operator (oe_client env) (devops (oe_client env) DevopsProvider None (dv_connectivity (oe_client env))
       \<lparr>dc_target_actor_selection = ''/system/sharding/connection'', dc_headers = default_headers, dc_piggyback_command = cmd\<rparr> w)"

definition create_connection :: "ditto_op_env \<Rightarrow> connection \<Rightarrow> unit operator_io" where
  "create_connection env con w =
     io_bind (con_command env (ModifyConnection con) w) (\<lambda>response w.
     io_bind (if not_found response then con_command env (CreateConnection con) w else (Inr response, w)) (\<lambda>response w.
       (eval_con_response response, w)))"

definition delete_connection :: "ditto_op_env \<Rightarrow> string \<Rightarrow> unit operator_io" where
  "delete_connection env i w =
     io_bind (con_command env (DeleteConnection i) w) (\<lambda>response w.
       (if not_found response then Inr () else eval_con_response response, w))"

definition ns_command :: "ditto_op_env \<Rightarrow> nat option \<Rightarrow> devops_headers \<Rightarrow> piggyback_command \<Rightarrow> unit operator_io" where
  "ns_command env timeout headers cmd w =
     io_bind (as_operator (oe_client env) (devops (oe_client env) DevopsProvider timeout (dv_namespaces (oe_client env))
       \<lparr>dc_target_actor_selection = ''/system/distributedPubSubMediator'', dc_headers = headers, dc_piggyback_command = cmd\<rparr> w))
       (\<lambda>response w. (eval_ns_response response, w))"

definition block_namespace :: "ditto_op_env \<Rightarrow> string \<Rightarrow> unit operator_io" where
  "block_namespace env app = ns_command env None default_headers (BlockNamespace app)"

definition unblock_namespace :: "ditto_op_env \<Rightarrow> string \<Rightarrow> unit operator_io" where
  "unblock_namespace env app = ns_command env None default_headers (UnblockNamespace app)"

definition purge_namespace :: "ditto_op_env \<Rightarrow> string \<Rightarrow> unit operator_io" where
  "purge_namespace env app = ns_command env (Some 20) \<lparr>dh_aggregate = True, dh_is_group_topic = True\<rparr> (PurgeNamespace app)"

section \<open>Applications\<close>

record ditto_app_construct =
  dac_app :: api_application

definition create_inbound :: "ditto_op_env \<Rightarrow> ditto_app_construct \<Rightarrow> ditto_app_spec option \<Rightarrow> ditto_app_construct operator_io" where
  "create_inbound env ctx spec w =
     io_bind (inbound_connection_definition env (pa_name (dac_app ctx)) (Option.bind spec das_ingress), w) (\<lambda>con w.
     io_bind (create_connection env con w) (\<lambda>_ w. (Inr ctx, w)))"

definition create_outbound :: "ditto_op_env \<Rightarrow> ditto_app_construct \<Rightarrow> exporter \<Rightarrow> ditto_app_construct operator_io" where
  "create_outbound env ctx exp w =
     io_bind (outbound_connection_definition env (pa_name (dac_app ctx)) exp, w) (\<lambda>con w.
     io_bind (create_connection env con w) (\<lambda>_ w. (Inr ctx, w)))"

definition create_application_run :: "ditto_op_env \<Rightarrow> ditto_app_construct \<Rightarrow> ditto_app_construct step_result operator_io" where
  "create_application_run env ctx w =
     io_bind (case oe_spec env (dac_app ctx) of
                None \<Rightarrow> Inr None
              | Some (Inr spec) \<Rightarrow> Inr (Some spec)
              | Some (Inl err) \<Rightarrow> Inl (Permanent (''Failed to parse Ditto spec: '' @ err)), w) (\<lambda>spec w.
     io_bind (create_inbound env ctx spec w) (\<lambda>ctx w.
     io_bind (case Option.bind spec das_exporter of
                Some exp \<Rightarrow> create_outbound env ctx exp w
              | None \<Rightarrow> io_bind (delete_connection env (connection_id Outbound (pa_name (dac_app ctx))) w) (\<lambda>_ w. (Inr ctx, w))) (\<lambda>ctx w.
       (Inr (StepContinue ctx), w))))"

definition policy_id :: "string \<Rightarrow> entity_id" where
  "policy_id app = EntityId app ''default''"

definition application_policy :: "string \<Rightarrow> policy" where
  "application_policy app =
     (let rw = grant [DittoRead, DittoWrite] in
      \<lparr>po_policy_id = policy_id app, po_entries =
        [(''ADMIN'', \<lparr>pe_subjects = [(''keycloak:drogue-admin'', ''Admin access'')],
                     pe_resources = [(PolicyResource ''/'', rw), (ThingResource ''/'', rw)]\<rparr>),
         (''CONNECTION'', \<lparr>pe_subjects = [(''pre-authenticated:drogue-cloud'', ''Connection to Drogue IoT Kafka topic'')],
                     pe_resources = [(ThingResource ''/'', rw)]\<rparr>),
         (''USERS'', \<lparr>pe_subjects = [(''keycloak:drogue-user'', ''All users'')], pe_resources = [(ThingResource ''/'', rw)]\<rparr>)]\<rparr>)"

definition create_policy_run :: "ditto_op_env \<Rightarrow> ditto_app_construct \<Rightarrow> ditto_app_construct step_result operator_io" where
  "create_policy_run env ctx w =
     (let cl = oe_client env in
      io_bind (as_operator cl (ditto_request_run cl AdminProvider
          (policy_builder cl (PolicyCreateOrUpdate (application_policy (pa_name (dac_app ctx))))) w)) (\<lambda>_ w.
        (Inr (StepContinue ctx), w)))"

text \<open>The answer to a deletion: that there is nothing to delete is a success.\<close>

definition deleted :: "ditto_env \<Rightarrow> (ditto_error + json option) \<times> ditto_history \<Rightarrow> (reconcile_error + unit) \<times> ditto_history" where
  "deleted env r =
     (case r of
        (Inl err, w) \<Rightarrow> (if err = ResponseError 404 then Inr () else Inl (map_ditto_error env err), w)
      | (Inr _, w) \<Rightarrow> (Inr (), w))"

definition delete_policy_run :: "ditto_op_env \<Rightarrow> string \<Rightarrow> unit operator_io" where
  "delete_policy_run env app w =
     deleted (oe_client env) (ditto_request_run (oe_client env) AdminProvider (policy_builder (oe_client env) (PolicyDelete (policy_id app))) w)"

definition delete_application_run :: "ditto_op_env \<Rightarrow> string \<Rightarrow> unit operator_io" where
  "delete_application_run env app w =
     io_bind (delete_connection env (connection_id Inbound app) w) (\<lambda>_ w.
     io_bind (delete_connection env (connection_id Outbound app) w) (\<lambda>_ w.
     io_bind (block_namespace env app w) (\<lambda>_ w.
     io_bind (purge_namespace env app w) (\<lambda>_ w. unblock_namespace env app w))))"

definition ditto_op :: "string \<Rightarrow> ('c \<Rightarrow> 'c step_result operator_io) \<Rightarrow> ('c, ditto_history) progress_op" where
  "ditto_op type_name run =
     \<lparr>pg_type = type_name, pg_run = run, pg_when_skipped = (\<lambda>ctx. (ctx, default_status)), pg_when_failed = default_status\<rparr>"

definition ditto_app_accessor :: "(ditto_app_construct, api_application) accessor" where
  "ditto_app_accessor = \<lparr>ac_resource = dac_app, ac_set_resource = (\<lambda>app ctx. ctx\<lparr>dac_app := app\<rparr>)\<rparr>"

definition ditto_app_eval ::
  "ditto_op_env \<Rightarrow> api_application \<Rightarrow> reconcile_error + (api_application, ditto_app_construct, api_application) reconcile_state" where
  "ditto_app_eval env app =
     Inr (eval_by_finalizer (oe_has_label_flag env (pa_labels app) ''ditto'') app (pa_finalizers app) (pa_deletion_timestamp app) DITTO_FINALIZER
       (\<lambda>app. \<lparr>dac_app = app\<rparr>) (\<lambda>app. app) (\<lambda>app. app))"

definition ditto_app_construct_run ::
  "(api_application, 'cs) ditto_sections \<Rightarrow> ditto_op_env \<Rightarrow> ditto_app_construct \<Rightarrow> api_application process_result operator_io" where
  "ditto_app_construct_run ds env ctx w =
     run_with (dq_section ds) ditto_app_accessor CONDITION_DITTO_READY
       [has_finalizer (dq_ensure_finalizer ds) ditto_app_accessor DITTO_FINALIZER,
        ditto_op ''CreateApplication'' (create_application_run env), ditto_op ''CreatePolicy'' (create_policy_run env)] ctx w"

definition ditto_app_deconstruct_run ::
  "(api_application, 'cs) ditto_sections \<Rightarrow> ditto_op_env \<Rightarrow> api_application \<Rightarrow> api_application process_result operator_io" where
  "ditto_app_deconstruct_run ds env app w =
     io_bind (delete_application_run env (pa_name app) w) (\<lambda>_ w.
     io_bind (delete_policy_run env (pa_name app) w) (\<lambda>_ w.
       (rbind (dq_clear_ready ds CONDITION_DITTO_READY (dq_remove_finalizer ds DITTO_FINALIZER app)) (\<lambda>app.
          Inr (ProcComplete (dq_clear_status ds app))), w)))"

definition ditto_app_process ::
  "(api_application, 'cs) ditto_sections \<Rightarrow> ditto_op_env \<Rightarrow> api_application \<Rightarrow> api_application process_result operator_io" where
  "ditto_app_process ds env app w =
     reconcile \<lparr>rr_eval_state = ditto_app_eval env, rr_construct = ditto_app_construct_run ds env,
       rr_deconstruct = ditto_app_deconstruct_run ds env\<rparr> app w"

text \<open>\<open>recover\<close>; for a device the generation of its application is recorded.\<close>

definition ditto_recover :: "('r, 'cs) ditto_sections \<Rightarrow> string \<Rightarrow> u64 \<Rightarrow> 'r \<Rightarrow> unit + 'r" where
  "ditto_recover ds message generation r =
     (let sx = dq_section ds;
          conditions = sx_update sx CONDITION_RECONCILED (ready_status (ReadyFailed message)) (sx_conditions sx r)
      in map_sum (\<lambda>_. ()) id (finish_ready sx CONDITION_DITTO_READY conditions generation r))"

definition ditto_app_recover :: "(api_application, 'cs) ditto_sections \<Rightarrow> string \<Rightarrow> api_application \<Rightarrow> unit + api_application" where
  "ditto_app_recover ds message app = ditto_recover ds message (pa_generation app) app"

definition ditto_app_relevant :: "event \<Rightarrow> string option" where
  "ditto_app_relevant = relevant_app [''.'', ''.metadata'', ''.spec.ditto'']"

section \<open>Devices\<close>

record ditto_dev_construct =
  ddc_app :: api_application
  ddc_device :: api_device

definition thing_id :: "api_application \<Rightarrow> api_device \<Rightarrow> entity_id" where
  "thing_id app device = EntityId (pa_name app) (pd_name device)"

definition create_thing_run :: "ditto_op_env \<Rightarrow> ditto_dev_construct \<Rightarrow> ditto_dev_construct step_result operator_io" where
  "create_thing_run env ctx w =
     (let cl = oe_client env in
      io_bind (as_operator cl (ditto_request_run cl AdminProvider (thing_builder cl (ThingCreateOrUpdate
          \<lparr>tg_thing_id = thing_id (ddc_app ctx) (ddc_device ctx), tg_policy_id = policy_id (pa_name (ddc_app ctx)),
           tg_definition = None, tg_attributes = Null, tg_features = []\<rparr>)) w)) (\<lambda>_ w.
        (Inr (StepContinue ctx), w)))"

definition delete_thing_run :: "ditto_op_env \<Rightarrow> api_application \<Rightarrow> api_device \<Rightarrow> unit operator_io" where
  "delete_thing_run env app device w =
     deleted (oe_client env) (ditto_request_run (oe_client env) AdminProvider (thing_builder (oe_client env) (ThingDelete (thing_id app device))) w)"

definition ditto_dev_accessor :: "(ditto_dev_construct, api_device) accessor" where
  "ditto_dev_accessor = \<lparr>ac_resource = ddc_device, ac_set_resource = (\<lambda>device ctx. ctx\<lparr>ddc_device := device\<rparr>)\<rparr>"

definition ditto_dev_eval ::
  "ditto_op_env \<Rightarrow> api_application \<times> api_device \<Rightarrow> reconcile_error + (api_device, ditto_dev_construct, api_application \<times> api_device) reconcile_state" where
  "ditto_dev_eval env input =
     (let device = snd input in
      Inr (eval_by_finalizer (oe_has_label_flag env (pd_labels device) ''ditto'') input (pd_finalizers device) (pd_deletion_timestamp device)
        DITTO_FINALIZER (\<lambda>(app, device). \<lparr>ddc_app = app, ddc_device = device\<rparr>) (\<lambda>input. input) snd))"

definition ditto_dev_construct_run ::
  "(api_device, 'cs) ditto_sections \<Rightarrow> ditto_op_env \<Rightarrow> ditto_dev_construct \<Rightarrow> api_device process_result operator_io" where
  "ditto_dev_construct_run ds env ctx w =
     run_with (dq_section ds) ditto_dev_accessor CONDITION_DITTO_READY
       [has_finalizer (dq_ensure_finalizer ds) ditto_dev_accessor DITTO_FINALIZER, ditto_op ''CreateThing'' (create_thing_run env)] ctx w"

definition ditto_dev_deconstruct_run ::
  "(api_device, 'cs) ditto_sections \<Rightarrow> ditto_op_env \<Rightarrow> api_application \<times> api_device \<Rightarrow> api_device process_result operator_io" where
  "ditto_dev_deconstruct_run ds env input w =
     io_bind (delete_thing_run env (fst input) (snd input) w) (\<lambda>_ w.
       (rbind (dq_clear_ready ds CONDITION_DITTO_READY (dq_clear_status ds (snd input))) (\<lambda>device.
          Inr (ProcComplete (dq_remove_finalizer ds DITTO_FINALIZER device))), w))"

definition ditto_dev_process ::
  "(api_device, 'cs) ditto_sections \<Rightarrow> ditto_op_env \<Rightarrow> api_application \<times> api_device \<Rightarrow> api_device process_result operator_io" where
  "ditto_dev_process ds env input w =
     reconcile \<lparr>rr_eval_state = ditto_dev_eval env, rr_construct = ditto_dev_construct_run ds env,
       rr_deconstruct = ditto_dev_deconstruct_run ds env\<rparr> input w"

definition ditto_dev_recover ::
  "(api_device, 'cs) ditto_sections \<Rightarrow> string \<Rightarrow> api_application \<times> api_device \<Rightarrow> unit + api_device" where
  "ditto_dev_recover ds message input = ditto_recover ds message (pa_generation (fst input)) (snd input)"

definition ditto_device_relevant :: "event \<Rightarrow> (string \<times> string) option" where
  "ditto_device_relevant = relevant_device [''.'', ''.metadata'', ''.spec.ditto'']"

section \<open>What the operator asks for\<close>

text \<open>All requests that a step adds to the history satisfy a predicate.\<close>

definition asks :: "(ditto_request \<times> (reqwest_error + ditto_response) \<Rightarrow> bool) \<Rightarrow> (ditto_history \<Rightarrow> 'a \<times> ditto_history) \<Rightarrow> bool" where
  "asks P f \<longleftrightarrow> (\<forall>w. \<exists>new. snd (f w) = w @ new \<and> (\<forall>x \<in> set new. P x))"

lemma asks_nothing: "asks P (\<lambda>w. (r, w))"
  by (simp add: asks_def)

lemma asks_bind:
  assumes "asks P m" and "\<And>w a w'. m w = (Inr a, w') \<Longrightarrow> asks P (f a)"
  shows "asks P (\<lambda>w. io_bind (m w) f)"
  unfolding asks_def
proof
  fix w
  obtain new where new: "snd (m w) = w @ new" "\<forall>x \<in> set new. P x" using assms(1) by (auto simp: asks_def)
  show "\<exists>new. snd (io_bind (m w) f) = w @ new \<and> (\<forall>x \<in> set new. P x)"
  proof (cases "m w")
    case (Pair r w1)
    show ?thesis
    proof (cases r)
      case (Inr a)
      obtain new' where "snd (f a w1) = w1 @ new'" "\<forall>x \<in> set new'. P x"
        using assms(2)[of w a w1] Pair Inr by (auto simp: asks_def)
      then show ?thesis using new Pair Inr by (intro exI[of _ "new @ new'"]) auto
    qed (use new Pair in auto)
  qed
qed

lemma asks_if: "(b \<Longrightarrow> asks P f) \<Longrightarrow> (\<not> b \<Longrightarrow> asks P g) \<Longrightarrow> asks P (\<lambda>w. if b then f w else g w)"
  by (cases b) simp_all

lemma asks_option:
  "(\<And>x. m = Some x \<Longrightarrow> asks P (f x)) \<Longrightarrow> asks P g \<Longrightarrow> asks P (\<lambda>w. case m of None \<Rightarrow> g w | Some x \<Rightarrow> f x w)"
  by (cases m) simp_all

lemma asks_as_operator: "asks P f \<Longrightarrow> asks P (\<lambda>w. as_operator env (f w))"
  by (simp add: asks_def as_operator_def)

lemma asks_token: "asks P (inject_token env pr rq)"
  by (simp add: asks_def inject_token_def)

lemma asks_send: "(\<And>a. P (rq, a)) \<Longrightarrow> asks P (ditto_send env rq)"
  by (simp add: asks_def ditto_send_def Let_def)

lemma asks_devops: "(\<And>rq a. dr_body rq = DevopsBody cmd \<Longrightarrow> P (rq, a)) \<Longrightarrow> asks P (devops env pr t dec cmd)"
  unfolding devops_def[abs_def] Let_def by (intro asks_bind asks_nothing asks_token asks_send) simp_all

lemma asks_request:
  "(\<And>rq0 t a. b = Inr rq0 \<Longrightarrow> P (rq0\<lparr>dr_token := t\<rparr>, a)) \<Longrightarrow> asks P (ditto_request_run env pr b)"
  unfolding ditto_request_run_def[abs_def]
  by (intro asks_bind asks_nothing asks_token asks_send) (auto simp: inject_token_def map_sum_def split: sum.splits)

lemma asks_deleted: "asks P f \<Longrightarrow> asks P (\<lambda>w. deleted env (f w))"
proof -
  have "snd (deleted env r) = snd r" for r by (auto simp: deleted_def split: prod.splits sum.splits)
  then show "asks P f \<Longrightarrow> asks P (\<lambda>w. deleted env (f w))" by (simp add: asks_def)
qed

lemma asks_append: "asks P f \<Longrightarrow> snd (f w) = w' \<Longrightarrow> \<exists>new. w' = w @ new \<and> (\<forall>x \<in> set new. P x)"
  by (auto simp: asks_def)

text \<open>A run of steps asks for what each step asks for, with an invariant of the context.\<close>

lemma asks_progressor:
  fixes steps :: "('c, ditto_history) progress_op list"
  assumes "\<And>op ctx. op \<in> set steps \<Longrightarrow> I ctx \<Longrightarrow> asks P (pg_run op ctx)"
    and "\<And>op ctx w ctx' w'. op \<in> set steps \<Longrightarrow> I ctx \<Longrightarrow> pg_run op ctx w = (Inr (StepContinue ctx'), w') \<Longrightarrow> I ctx'"
    and "I ctx"
  shows "asks P (progressor_run update steps conditions ctx)"
proof -
  have "\<exists>new. snd (progressor_run update steps conditions ctx w) = w @ new \<and> (\<forall>x \<in> set new. P x)" for w
    using assms
  proof (induction steps arbitrary: conditions ctx w)
    case (Cons op steps)
    obtain r w1 where run: "pg_run op ctx w = (r, w1)" by force
    obtain new where new: "w1 = w @ new" "\<forall>x \<in> set new. P x" using asks_append[OF Cons.prems(1)[of op ctx], of w w1] Cons.prems(3) run by auto
    show ?case
    proof (cases "\<exists>ctx'. r = Inr (StepContinue ctx')")
      case True
      then obtain ctx' where r: "r = Inr (StepContinue ctx')" by blast
      have "I ctx'" using Cons.prems(2)[of op ctx w ctx' w1] Cons.prems(3) run r by simp
      then have "\<exists>more. snd (progressor_run update steps cs ctx' w1) = w1 @ more \<and> (\<forall>x \<in> set more. P x)" for cs
        by (intro Cons.IH) (auto intro: Cons.prems(1,2))
      then obtain more where "snd (progressor_run update (op # steps) conditions ctx w) = w1 @ more" "\<forall>x \<in> set more. P x"
        using run r by auto
      then show ?thesis using new by (intro exI[of _ "new @ more"]) auto
    next
      case False
      then have "snd (progressor_run update (op # steps) conditions ctx w) = w1"
        using run by (auto split: sum.splits step_result.splits prod.splits)
      then show ?thesis using new by blast
    qed
  qed simp
  then show ?thesis by (simp add: asks_def)
qed

lemma asks_run_with: "asks P (progressor_run (sx_update sx) steps (sx_conditions sx (ac_resource ac ctx)) ctx) \<Longrightarrow> asks P (run_with sx ac ready_name steps ctx)"
proof -
  have "snd (run_with sx ac ready_name steps ctx w) = snd (progressor_run (sx_update sx) steps (sx_conditions sx (ac_resource ac ctx)) ctx w)" for w
    by (simp add: run_with_def Let_def case_prod_beta)
  then show "asks P (progressor_run (sx_update sx) steps (sx_conditions sx (ac_resource ac ctx)) ctx) \<Longrightarrow> asks P (run_with sx ac ready_name steps ctx)"
    by (simp add: asks_def)
qed

section \<open>Connections of an application\<close>

lemma connection_id_inj: "connection_id t a = connection_id u b \<longleftrightarrow> t = u \<and> a = b"
  by (cases t; cases u) auto

definition inbound_of :: "ditto_op_env \<Rightarrow> string \<Rightarrow> connection \<Rightarrow> bool" where
  "inbound_of env app con \<longleftrightarrow> co_id con = ''kafka-drogue-'' @ app \<and> co_targets con = []
     \<and> (\<exists>src. co_sources con = [src] \<and> sr_addresses src = [make_topic (oe_md5 env) EventsType app]
          \<and> sr_enforcement src = \<lparr>en_input = ''{{ header:ce_application }}:{{ header:ce_device }}'', en_filters = [app @ '':{{ thing:name }}'']\<rparr>)"

text \<open>A subscription for the events of twins whose parameters name one namespace.\<close>

definition events_of :: "ditto_op_env \<Rightarrow> string \<Rightarrow> string \<Rightarrow> bool" where
  "events_of env ns topic \<longleftrightarrow> (\<exists>q text. filter (\<lambda>(k, v). k = ''namespace'') q = [(''namespace'', ns)]
     \<and> oe_urlencode env q = Inr text \<and> topic = ''_/_/things/twin/events?'' @ text)"

definition outbound_of :: "ditto_op_env \<Rightarrow> string \<Rightarrow> connection \<Rightarrow> bool" where
  "outbound_of env app con \<longleftrightarrow> co_id con = ''drogue-out-'' @ app \<and> co_sources con = []
     \<and> (\<forall>t \<in> set (co_targets con). \<forall>topic \<in> set (tt_topics t). events_of env app topic)"

fun scoped :: "ditto_op_env \<Rightarrow> string \<Rightarrow> piggyback_command \<Rightarrow> bool" where
  "scoped env app (ModifyConnection con) \<longleftrightarrow> inbound_of env app con \<or> outbound_of env app con"
| "scoped env app (CreateConnection con) \<longleftrightarrow> inbound_of env app con \<or> outbound_of env app con"
| "scoped env app (DeleteConnection i) \<longleftrightarrow> i \<in> {''kafka-drogue-'' @ app, ''drogue-out-'' @ app}"
| "scoped env app (BlockNamespace ns) \<longleftrightarrow> ns = app"
| "scoped env app (PurgeNamespace ns) \<longleftrightarrow> ns = app"
| "scoped env app (UnblockNamespace ns) \<longleftrightarrow> ns = app"
| "scoped env app (Shutdown _) \<longleftrightarrow> False"

text \<open>The address of the policy of an application.\<close>

definition policy_url :: "ditto_env \<Rightarrow> string \<Rightarrow> string \<Rightarrow> bool" where
  "policy_url env app url \<longleftrightarrow> (\<exists>base. dv_join env (dv_url env) ''/api/2/'' = Inr base
     \<and> dv_join env base (''policies/'' @ app @ '':default'') = Inr url)"

text \<open>A request that concerns one application: a command for it, or the change or deletion of its policy.\<close>

definition concerns :: "ditto_op_env \<Rightarrow> string \<Rightarrow> ditto_request \<times> (reqwest_error + ditto_response) \<Rightarrow> bool" where
  "concerns env app x \<longleftrightarrow> (case dr_body (fst x) of
       DevopsBody cmd \<Rightarrow> scoped env app (dc_piggyback_command cmd)
     | PolicyBody p \<Rightarrow> dr_verb (fst x) = PUT \<and> policy_url (oe_client env) app (dr_url (fst x)) \<and> po_policy_id p = EntityId app ''default''
     | NoBody \<Rightarrow> dr_verb (fst x) = DELETE \<and> policy_url (oe_client env) app (dr_url (fst x))
     | ThingBody _ \<Rightarrow> False)"

lemma asks_con_command: "scoped env app cmd \<Longrightarrow> asks (concerns env app) (con_command env cmd)"
  unfolding con_command_def[abs_def] by (intro asks_as_operator asks_devops) (simp add: concerns_def)

lemma asks_create_connection:
  "scoped env app (ModifyConnection con) \<Longrightarrow> scoped env app (CreateConnection con) \<Longrightarrow> asks (concerns env app) (create_connection env con)"
  unfolding create_connection_def[abs_def]
  by (intro asks_bind asks_con_command asks_if asks_nothing)

lemma asks_delete_connection: "asks (concerns env app) (delete_connection env (connection_id t app))"
  unfolding delete_connection_def[abs_def] by (intro asks_bind asks_con_command asks_nothing) (cases t; simp)

lemma asks_ns_command: "scoped env app cmd \<Longrightarrow> asks (concerns env app) (ns_command env t h cmd)"
  unfolding ns_command_def[abs_def] by (intro asks_bind asks_as_operator asks_devops asks_nothing) (simp add: concerns_def)

lemma collect_all_set: "collect_all f xs = Inr ys \<Longrightarrow> y \<in> set ys \<Longrightarrow> \<exists>x \<in> set xs. f x = Inr y"
  by (induction xs arbitrary: ys) (auto simp: result_simps)

lemma inbound_definition_scoped: "inbound_connection_definition env app ing = Inr con \<Longrightarrow> inbound_of env app con"
  by (auto simp: inbound_connection_definition_def Let_def result_simps inbound_of_def default_enforcement_def)

lemma twin_topic_scoped:
  assumes "twin_topic env app t = Inr topic"
  shows "events_of env app topic"
proof -
  have "filter (\<lambda>(k, v). k = ''namespace'') (twin_query app t) = [(''namespace'', app)]" by (cases t) (simp split: option.splits)
  then show ?thesis using assms by (cases "oe_urlencode env (twin_query app t)") (auto simp: twin_topic_def events_of_def)
qed

lemma outbound_target_scoped:
  assumes "outbound_connection_target env app target = Inr t" and "topic \<in> set (tt_topics t)"
  shows "events_of env app topic"
proof -
  have "\<exists>x \<in> set (xt_subscriptions target). twin_topic env app x = Inr topic"
    using assms by (auto simp: outbound_connection_target_def result_simps case_prod_beta Let_def split: if_splits dest: collect_all_set)
  then show ?thesis using twin_topic_scoped by blast
qed

lemma outbound_definition_scoped:
  assumes "outbound_connection_definition env app exp = Inr con"
  shows "outbound_of env app con"
proof -
  obtain targets where t: "collect_all (outbound_connection_target env app) (xp_targets exp) = Inr targets"
      "co_targets con = targets" "co_id con = connection_id Outbound app" "co_sources con = []"
    using assms by (auto simp: outbound_connection_definition_def result_simps)
  have "\<exists>x. outbound_connection_target env app x = Inr y" if "y \<in> set targets" for y using collect_all_set[OF t(1) that] by blast
  then show ?thesis unfolding outbound_of_def using t(2,4) t(3)[unfolded connection_id.simps] outbound_target_scoped by blast
qed

lemma asks_create_inbound: "asks (concerns env (pa_name (dac_app ctx))) (create_inbound env ctx spec)"
  unfolding create_inbound_def[abs_def]
  by (intro asks_bind asks_nothing asks_create_connection) (auto dest: inbound_definition_scoped)

lemma asks_create_outbound: "asks (concerns env (pa_name (dac_app ctx))) (create_outbound env ctx exp)"
  unfolding create_outbound_def[abs_def]
  by (intro asks_bind asks_nothing asks_create_connection) (auto dest: outbound_definition_scoped)

lemma create_inbound_ctx: "create_inbound env ctx spec w = (Inr ctx', w') \<Longrightarrow> ctx' = ctx"
  by (auto simp: create_inbound_def io_bind_Inr)

lemma create_outbound_ctx: "create_outbound env ctx exp w = (Inr ctx', w') \<Longrightarrow> ctx' = ctx"
  by (auto simp: create_outbound_def io_bind_Inr)

lemma asks_create_application: "asks (concerns env (pa_name (dac_app ctx))) (create_application_run env ctx)"
  unfolding create_application_run_def[abs_def]
  by (intro asks_bind asks_nothing asks_create_inbound)
    (auto dest!: create_inbound_ctx intro!: asks_option asks_create_outbound asks_bind asks_nothing asks_delete_connection)

lemma create_application_ctx: "create_application_run env ctx w = (Inr (StepContinue ctx'), w') \<Longrightarrow> ctx' = ctx"
  by (auto simp: create_application_run_def io_bind_Inr dest!: create_inbound_ctx create_outbound_ctx split: option.splits)

lemma policy_requests:
  assumes "op = PolicyCreateOrUpdate (application_policy app) \<or> op = PolicyDelete (policy_id app)"
  shows "asks (concerns env app) (ditto_request_run (oe_client env) AdminProvider (policy_builder (oe_client env) op))"
  using assms by (intro asks_request)
    (auto simp: concerns_def new_request_def result_simps application_policy_def policy_id_def policy_url_def Let_def)

lemma asks_create_policy: "asks (concerns env (pa_name (dac_app ctx))) (create_policy_run env ctx)"
  unfolding create_policy_run_def[abs_def] Let_def by (intro asks_bind asks_as_operator asks_nothing policy_requests) simp

lemma create_policy_ctx: "create_policy_run env ctx w = (Inr (StepContinue ctx'), w') \<Longrightarrow> ctx' = ctx"
  by (auto simp: create_policy_run_def Let_def io_bind_Inr)

lemma asks_deconstruct: "asks (concerns env (pa_name app)) (ditto_app_deconstruct_run ds env app)"
  unfolding ditto_app_deconstruct_run_def[abs_def] delete_application_run_def[abs_def] delete_policy_run_def[abs_def]
    block_namespace_def[abs_def] purge_namespace_def[abs_def] unblock_namespace_def[abs_def]
  by (intro asks_bind asks_nothing asks_deleted policy_requests asks_delete_connection asks_ns_command) simp_all

text \<open>What the library promises of the finalizers: adding one does not rename the application.\<close>

definition finalizers_keep_name :: "(api_application, 'cs) ditto_sections \<Rightarrow> bool" where
  "finalizers_keep_name ds \<longleftrightarrow> (\<forall>f app. pa_name (snd (dq_ensure_finalizer ds f app)) = pa_name app)"

lemma asks_construct:
  assumes "finalizers_keep_name ds"
  shows "asks (concerns env (pa_name (dac_app ctx))) (ditto_app_construct_run ds env ctx)"
  unfolding ditto_app_construct_run_def[abs_def]
proof (intro asks_run_with asks_progressor[where I = "\<lambda>c. pa_name (dac_app c) = pa_name (dac_app ctx)"])
  let ?fin = "has_finalizer (dq_ensure_finalizer ds) ditto_app_accessor DITTO_FINALIZER :: (ditto_app_construct, ditto_history) progress_op"
  let ?steps = "[?fin, ditto_op ''CreateApplication'' (create_application_run env), ditto_op ''CreatePolicy'' (create_policy_run env)]"
  fix op and c :: ditto_app_construct assume op: "op \<in> set ?steps" and c: "pa_name (dac_app c) = pa_name (dac_app ctx)"
  have fin: "pg_run ?fin c w = (r, w') \<Longrightarrow> w' = w \<and> (r = Inr (StepContinue c') \<longrightarrow> pa_name (dac_app c') = pa_name (dac_app ctx))" for w r w' c'
    using assms c by (auto simp: has_finalizer_def ditto_app_accessor_def finalizers_keep_name_def Let_def case_prod_beta split: if_splits)
  show "asks (concerns env (pa_name (dac_app ctx))) (pg_run op c)"
    using op asks_create_application[of env c] asks_create_policy[of env c] fin
    by (auto simp: c ditto_op_def asks_def) (metis append_Nil2 empty_iff list.set(1) prod.collapse)
  fix w c' w' assume "pg_run op c w = (Inr (StepContinue c'), w')"
  then show "pa_name (dac_app c') = pa_name (dac_app ctx)"
    using op fin c by (auto simp: ditto_op_def dest: create_application_ctx create_policy_ctx)
qed simp

text \<open>
  C34. A reconciliation stays within its application: whether the application is connected with
  Ditto or disconnected from it, whatever its settings are and whatever the server answers, every
  request concerns this application.  A connection that is created or changed is one of its two:
  the inbound one reads the topic of its events only, and Ditto is told to accept things of its
  namespace only; the outbound one subscribes with parameters that name one namespace, its own, as the form
  encoding of the library writes them.  The connections that are deleted, the namespace that is
  blocked, purged and unblocked and the policy that is written or deleted are its own.  The
  client library does not rename the application when it adds a finalizer.
\<close>

theorem ditto_connections_scoped:
  assumes "finalizers_keep_name ds"
  shows "\<exists>new. snd (ditto_app_process ds env app w) = w @ new \<and> (\<forall>x \<in> set new. concerns env (pa_name app) x)"
proof -
  consider "snd (ditto_app_process ds env app w) = w"
    | "ditto_app_process ds env app w = ditto_app_construct_run ds env \<lparr>dac_app = app\<rparr> w"
    | "ditto_app_process ds env app w = ditto_app_deconstruct_run ds env app w"
    by (cases "oe_has_label_flag env (pa_labels app) ''ditto''"; cases "pa_deletion_timestamp app"; cases "DITTO_FINALIZER \<in> set (pa_finalizers app)")
      (simp_all add: ditto_app_process_def reconcile_def ditto_app_eval_def eval_by_finalizer_def)
  then show ?thesis
  proof cases
    case 2
    then show ?thesis using asks_append[OF asks_construct[OF assms, of env "\<lparr>dac_app = app\<rparr>"] refl] by simp
  next
    case 3
    then show ?thesis using asks_append[OF asks_deconstruct refl] by metis
  qed simp
qed

section \<open>The end of an application\<close>

text \<open>
  A request with its answer that confirms a command of the cleanup.  Ditto answers with an entry
  for each part of it that took part.  The last entry reports a success, or the first one
  that the connection to delete does not exist; the answer itself is no error.
\<close>

definition success_code :: "nat \<Rightarrow> bool" where
  "success_code code \<longleftrightarrow> code \<in> {200..299}"

fun reported :: "ditto_env \<Rightarrow> piggyback_command \<Rightarrow> json \<Rightarrow> bool" where
  "reported env (DeleteConnection i) j \<longleftrightarrow> (\<exists>entries k e. dv_connectivity env j = Inr entries
     \<and> ((\<exists>front. entries = front @ [(k, e)] \<and> success_code (ce_status e)) \<or> (\<exists>rest. entries = (k, e) # rest \<and> ce_status e = 404)))"
| "reported env cmd j \<longleftrightarrow> (\<exists>front k e. dv_namespaces env j = Inr (front @ [(k, e)]) \<and> success_code (ns_status e))"

fun confirms :: "ditto_env \<Rightarrow> piggyback_command \<Rightarrow> ditto_request \<times> (reqwest_error + ditto_response) \<Rightarrow> bool" where
  "confirms env cmd (rq, a) \<longleftrightarrow> (\<exists>c resp j. dr_verb rq = POST \<and> dr_body rq = DevopsBody c \<and> dc_piggyback_command c = cmd \<and> a = Inr resp
     \<and> dp_status resp \<notin> {400..599} \<and> dp_json resp = Inr j \<and> reported env cmd j)"

fun confirms_policy :: "ditto_env \<Rightarrow> string \<Rightarrow> ditto_request \<times> (reqwest_error + ditto_response) \<Rightarrow> bool" where
  "confirms_policy env app (rq, a) \<longleftrightarrow> dr_verb rq = DELETE \<and> policy_url env app (dr_url rq) \<and> dr_body rq = NoBody
     \<and> (\<exists>resp. a = Inr resp \<and> (success_code (dp_status resp) \<or> dp_status resp = 404))"

lemma eval_con_reported:
  assumes "dv_connectivity env j = Inr entries" and "not_found entries \<or> eval_con_response entries = Inr ()"
  shows "reported env (DeleteConnection i) j"
proof (cases "not_found entries")
  case True
  then obtain k e rest where "entries = (k, e) # rest" "ce_status e = 404" by (auto simp: not_found_def split: list.splits)
  then show ?thesis using assms(1) by auto
next
  case False
  then obtain front k e where "entries = front @ [(k, e)]" "success_code (ce_status e)"
    using assms(2) by (cases entries rule: rev_cases) (auto simp: eval_con_response_def success_code_def is_success_def split: if_splits)
  then show ?thesis using assms(1) by auto
qed

lemma eval_ns_reported:
  assumes "dv_namespaces env j = Inr entries" and "eval_ns_response entries = Inr ()" and "\<nexists>i. cmd = DeleteConnection i"
  shows "reported env cmd j"
proof -
  obtain front k e where "entries = front @ [(k, e)]" "success_code (ns_status e)"
    using assms(2) by (cases entries rule: rev_cases) (auto simp: eval_ns_response_def success_code_def is_success_def split: if_splits)
  then show ?thesis using assms(1,3) by (cases cmd) auto
qed

lemma send_answered: "ditto_send env rq w = (Inr resp, w') \<longleftrightarrow> dv_send env w rq = Inr resp \<and> w' = w @ [(rq, Inr resp)]"
  by (cases "dv_send env w rq") (auto simp: ditto_send_def)

lemma token_injected: "inject_token env pr rq w = (Inr rq', w') \<longleftrightarrow> (\<exists>t. dv_token env pr w = Inr t \<and> rq' = rq\<lparr>dr_token := t\<rparr> \<and> w' = w)"
  by (cases "dv_token env pr w") (auto simp: inject_token_def)

lemma devops_Inr:
  assumes "devops env pr t dec cmd w = (Inr x, w')"
  shows "\<exists>rq resp j. w' = w @ [(rq, Inr resp)] \<and> dr_verb rq = POST \<and> dr_body rq = DevopsBody cmd \<and> dp_status resp \<notin> {400..599}
     \<and> dp_json resp = Inr j \<and> dec j = Inr x"
  using assms by (auto simp: devops_def io_bind_Inr Let_def send_answered token_injected result_simps error_for_status_def split: if_splits)

lemma as_operator_Inr: "as_operator env r = (Inr x, w') \<longleftrightarrow> r = (Inr x, w')"
  by (cases r) (auto simp: as_operator_def result_simps)

lemma delete_connection_confirmed:
  assumes "delete_connection env i w = (Inr u, w')"
  shows "\<exists>x. w' = w @ [x] \<and> confirms (oe_client env) (DeleteConnection i) x"
proof -
  obtain response where "con_command env (DeleteConnection i) w = (Inr response, w')" "not_found response \<or> eval_con_response response = Inr ()"
    using assms by (auto simp: delete_connection_def io_bind_Inr split: if_splits)
  then show ?thesis
    using eval_con_reported[of "oe_client env" _ response i]
    by (fastforce simp: con_command_def as_operator_Inr simp del: reported.simps dest!: devops_Inr)
qed

lemma ns_command_confirmed:
  assumes "ns_command env t h cmd w = (Inr u, w')" and "\<nexists>i. cmd = DeleteConnection i"
  shows "\<exists>x. w' = w @ [x] \<and> confirms (oe_client env) cmd x"
proof -
  obtain response w1 where run: "as_operator (oe_client env) (devops (oe_client env) DevopsProvider t (dv_namespaces (oe_client env))
       \<lparr>dc_target_actor_selection = ''/system/distributedPubSubMediator'', dc_headers = h, dc_piggyback_command = cmd\<rparr> w) = (Inr response, w')"
      "eval_ns_response response = Inr ()"
    using assms(1) by (auto simp: ns_command_def io_bind_Inr)
  then show ?thesis
    using eval_ns_reported[OF _ run(2) assms(2), of "oe_client env"] unfolding as_operator_Inr
    by (fastforce simp del: reported.simps dest!: devops_Inr)
qed

lemma request_answered:
  assumes "ditto_request_run env pr b w = (r, w')" and "\<And>e. b = Inl e \<Longrightarrow> r \<noteq> Inl e" and "(\<exists>c. r = Inl (ResponseError c)) \<or> (\<exists>j. r = Inr j)"
  shows "\<exists>rq0 t resp. b = Inr rq0 \<and> w' = w @ [(rq0\<lparr>dr_token := t\<rparr>, Inr resp)] \<and> read_answer env resp = r"
proof (cases b)
  case (Inr rq0)
  show ?thesis
  proof (cases "dv_token env pr w")
    case (Inr t)
    show ?thesis using assms \<open>b = Inr rq0\<close> Inr
      by (cases "dv_send env w (rq0\<lparr>dr_token := t\<rparr>)") (auto simp: ditto_request_run_def inject_token_def ditto_send_def)
  qed (use assms \<open>b = Inr rq0\<close> in \<open>auto simp: ditto_request_run_def inject_token_def\<close>)
qed (use assms in \<open>auto simp: ditto_request_run_def\<close>)

lemma policy_builder_error: "policy_builder env op = Inl e \<Longrightarrow> \<exists>u. e = UrlError u"
  by (cases op) (auto simp: new_request_def result_simps)

lemma delete_policy_confirmed:
  assumes "delete_policy_run env app w = (Inr u, w')"
  shows "\<exists>x. w' = w @ [x] \<and> confirms_policy (oe_client env) app x"
proof -
  let ?cl = "oe_client env"
  let ?run = "ditto_request_run ?cl AdminProvider (policy_builder ?cl (PolicyDelete (policy_id app))) w"
  obtain r where r: "?run = (r, w')" "r = Inl (ResponseError 404) \<or> (\<exists>j. r = Inr j)"
    using assms by (cases ?run) (auto simp: delete_policy_run_def deleted_def split: sum.splits if_splits)
  then obtain rq0 t resp where "policy_builder ?cl (PolicyDelete (policy_id app)) = Inr rq0"
      "w' = w @ [(rq0\<lparr>dr_token := t\<rparr>, Inr resp)]" "read_answer ?cl resp = r"
    using request_answered[OF r(1)] policy_builder_error[of ?cl "PolicyDelete (policy_id app)"] by blast
  moreover have "success_code (dp_status resp) \<or> dp_status resp = 404" if "read_answer ?cl resp = r"
    using that r(2) by (auto simp: read_answer_def result_simps success_code_def is_success_def split: if_splits)
  ultimately show ?thesis by (auto simp: new_request_def result_simps policy_url_def policy_id_def)
qed


text \<open>The answer to a purge has an entry for each kind of resource; only the last one is looked at.\<close>

lemma purge_checks_last_only: "is_success (ns_status r) \<Longrightarrow> eval_ns_response (others @ [(k, r)]) = Inr ()"
  by (simp add: eval_ns_response_def)

text \<open>Only the administrator may change the policy of an application.\<close>

lemma policy_changed_by_admin_only:
  assumes "(n, e) \<in> set (po_entries (application_policy app))" and "(PolicyResource path, perms) \<in> set (pe_resources e)"
  shows "pe_subjects e = [(''keycloak:drogue-admin'', ''Admin access'')]"
  using assms by (auto simp: application_policy_def Let_def)

section \<open>An example\<close>

definition demo_ditto_client :: ditto_env where
  "demo_ditto_client = \<lparr>dv_url = ''http://ditto'', dv_join = (\<lambda>base path. Inr (base @ path)), dv_append_query = (\<lambda>url k v. url @ ''?'' @ k @ ''='' @ v),
     dv_token = (\<lambda>_ _. Inr None), dv_send = (\<lambda>w rq. Inr \<lparr>dp_status = (if dr_body rq = NoBody then 204 else 200), dp_text = Inr [], dp_json = Inr Null\<rparr>),
     dv_debug = False, dv_status_text = nat_str, dv_connectivity = (\<lambda>_. Inr [(''c'', \<lparr>ce_status = 200, ce_error = None, ce_message = None, ce_description = None\<rparr>)]),
     dv_namespaces = (\<lambda>_. Inr [(''n'', \<lparr>ns_type = [], ns_status = 200, ns_namespace = [], ns_resource_type = [], ns_successful = None\<rparr>)])\<rparr>"

definition demo_ditto_op :: ditto_op_env where
  "demo_ditto_op = \<lparr>oe_client = demo_ditto_client, oe_kafka = \<lparr>kc_bootstrap_servers = ''kafka.:9092'', kc_properties = []\<rparr>, oe_md5 = demo_md5,
     oe_spec = (\<lambda>_. None), oe_has_label_flag = (\<lambda>_ _. True), oe_parse_url = Some, oe_set_credentials = (\<lambda>_ _. Some), oe_urlencode = (\<lambda>_. Inr []),
     oe_to_ditto = [], oe_from_ditto = []\<rparr>"

definition demo_ditto_app :: api_application where
  "demo_ditto_app = \<lparr>pa_name = ''foo'', pa_uid = [], pa_resource_version = [], pa_labels = [], pa_annotations = [], pa_creation_timestamp = 0,
     pa_generation = 1, pa_deletion_timestamp = Some 5, pa_finalizers = [''ditto''], pa_spec = [], pa_status = []\<rparr>"

definition demo_ditto_sections :: "(api_application, (string \<times> string) list) ditto_sections" where
  "demo_ditto_sections = \<lparr>dq_section = \<lparr>sx_update = (\<lambda>_ _ cs. cs), sx_list = id, sx_set_status = (\<lambda>_ _. Inr), sx_update_conditions = (\<lambda>_. Inr),
       sx_generation = pa_generation, sx_conditions = (\<lambda>_. [])\<rparr>,
     dq_ensure_finalizer = (\<lambda>_ app. (False, app)), dq_remove_finalizer = (\<lambda>f app. app\<lparr>pa_finalizers := filter (\<lambda>x. x \<noteq> f) (pa_finalizers app)\<rparr>),
     dq_clear_ready = (\<lambda>_. Inr), dq_clear_status = id\<rparr>"

definition demo_export_op :: ditto_op_env where
  "demo_export_op = demo_ditto_op\<lparr>oe_urlencode := (\<lambda>q. Inr (join ''&'' (map (\<lambda>(k, v). k @ ''='' @ v) q))),
     oe_spec := (\<lambda>_. Some (Inr \<lparr>das_exporter = Some \<lparr>xp_kafka = \<lparr>kc_bootstrap_servers = ''sink:9092'', kc_properties = []\<rparr>,
       xp_targets = [\<lparr>xt_topic = ''out'', xt_mode = DittoMode False, xt_subscriptions = [TwinEvents [] None]\<rparr>]\<rparr>, das_ingress = None\<rparr>))\<rparr>"

definition demo_live_app :: api_application where
  "demo_live_app = demo_ditto_app\<lparr>pa_deletion_timestamp := None\<rparr>"

fun modified_connection :: "ditto_request \<Rightarrow> connection option" where
  "modified_connection rq = (case dr_body rq of
       DevopsBody cmd \<Rightarrow> (case dc_piggyback_command cmd of ModifyConnection con \<Rightarrow> Some con | _ \<Rightarrow> None)
     | _ \<Rightarrow> None)"

theorem ditto_connections_scoped_witness:
  "\<exists>x y z con. snd (ditto_app_process demo_ditto_sections demo_export_op demo_live_app []) = [x, y, z]
     \<and> modified_connection (fst y) = Some con \<and> map tt_topics (co_targets con) = [[''_/_/things/twin/events?namespace=foo'']]
     \<and> outbound_of demo_export_op ''foo'' con"
proof -
  let ?w = "snd (ditto_app_process demo_ditto_sections demo_export_op demo_live_app [])"
  have keep: "finalizers_keep_name demo_ditto_sections" by (simp add: finalizers_keep_name_def demo_ditto_sections_def)
  have name: "pa_name demo_live_app = ''foo''" by (simp add: demo_live_app_def demo_ditto_app_def)
  have "length ?w = 3" by code_simp
  then obtain x y z where w: "?w = [x, y, z]" by (auto simp: numeral_3_eq_3 length_Suc_conv)
  have "map_option (\<lambda>con. map tt_topics (co_targets con)) (modified_connection (fst (?w ! 1))) = Some [[''_/_/things/twin/events?namespace=foo'']]" by code_simp
  then obtain con where con: "modified_connection (fst y) = Some con" "map tt_topics (co_targets con) = [[''_/_/things/twin/events?namespace=foo'']]"
    unfolding w by auto
  have "concerns demo_export_op ''foo'' y"
    using ditto_connections_scoped[OF keep, of demo_export_op demo_live_app "[]"] unfolding w name by auto
  then have "inbound_of demo_export_op ''foo'' con \<or> outbound_of demo_export_op ''foo'' con"
    using con(1) by (auto simp: concerns_def split: ditto_body.splits piggyback_command.splits)
  moreover have "co_targets con \<noteq> []" using con(2) by auto
  ultimately have "outbound_of demo_export_op ''foo'' con" by (auto simp: inbound_of_def)
  then show ?thesis using w con by (intro exI conjI)
qed


end
