(* ===== verification/Spec2Isabelle.thy ===== *)
theory Spec2Isabelle
  imports Rest_Endpoints Command_Service Management_Events Coap_Endpoint Mqtt_Endpoint Mqtt_Integration Websocket_Integration Ttn_Operator Knative_Operator Ditto_Operator
begin

text \<open>
  A verification library of Drogue Cloud.

  \<^bold>\<open>The program.\<close>  Devices connect to protocol endpoints (HTTP, CoAP, MQTT), which authenticate
  them, publish their messages as events, report their connection state and deliver commands
  to them.  Users consume events and send commands through integrations.  A registry keeps
  applications and devices; every change of it is announced by events, which pass through an
  outbox, and operators reconcile external systems with it.

  \<^bold>\<open>The registry.\<close>
  \<^item> \<open>Drogue_Prelude\<close>: results, strings, maps as association lists, tables with primary keys.
  \<^item> \<open>Json_Diff\<close>, \<open>Versioning\<close>: change detection (\<open>database-common/src/models/diff.rs\<close>) and the
    64-bit counters of generation and revision (\<open>gen.rs\<close>), the latter behind a locale that is
    interpreted for applications and devices.
  \<^item> \<open>Authz\<close>: \<open>authorize\<close>, \<open>ensure\<close> and the service errors (\<open>auth.rs\<close>, \<open>error.rs\<close>).
  \<^item> \<open>Sql_Select\<close>: the select builder (\<open>sql.rs\<close>) with its text and the meaning of its queries.
  \<^item> \<open>Registry_Db\<close>: the accessors of the tables (\<open>models/app.rs\<close>, \<open>models/device.rs\<close>); the
    state is a record of tables, its invariant \<open>reg_inv\<close> says that keys are unique and
    references and aliases are valid.
  \<^item> \<open>Registry_Events\<close>, \<open>Outbox\<close>: events and their cloud event form, the sender and the
    consumer loop (\<open>registry-events\<close>), the outbox table, its consumer and the resender
    (\<open>models/outbox.rs\<close>, \<open>outbox-controller\<close>).
  \<^item> \<open>Registry_Api\<close>, \<open>Management\<close>, \<open>Admin\<close>: the API form of entities and every operation of the
    management service (\<open>device-management-service/src/service\<close>).
  \<^item> \<open>Registry_Service\<close>, \<open>Registry_Access\<close>, \<open>Registry_Lifecycle\<close>: all requests together; that
    every request keeps the invariant and the life of each row (\<open>lifecycle_ok\<close> and
    \<open>registry_step\<close>: identity, counters, the mark of deletion and the finalizers) and
    changes nothing without permission, that the outbox refines the changes of the registry,
    and the life of an entity from creation to deletion.
  \<^item> \<open>Label_Selector\<close>, \<open>Rest_Endpoints\<close>: the parser of label selectors
    (\<open>service-api/src/labels\<close>) and the web handlers (\<open>device-management-service/src/endpoints\<close>,
    \<open>admin-service\<close>); what a call may change by its path and its body, and that the text of
    a selector selects what it says, from the parser over the query to the streamed array.

  \<^bold>\<open>Events, commands and device state.\<close>
  \<^item> \<open>Device_Auth\<close>: \<open>authenticate\<close>, \<open>request_key\<close> and \<open>authorize_gateway\<close>
    (\<open>authentication-service/src/service.rs\<close>).
  \<^item> \<open>Kafka_Names\<close>: the names of Kafka resources (\<open>service-api/src/kafka\<close>), with the pattern
    as a regular expression that is matched by derivatives.
  \<^item> \<open>Event_Rules\<close>: the rules of an application, external endpoints and the pool of clients
    (\<open>endpoint-common/src/sender/process\<close>).  The pool is a memo table: a locale states what a
    memo table promises, and a run with the pool equals one without.
  \<^item> \<open>Event_Sender\<close>: publishing an event (\<open>endpoint-common/src/sender\<close>, \<open>sink\<close>).  The sink
    is the list of records it accepted.
  \<^item> \<open>Device_State\<close>, \<open>State_Client\<close>: the device state service (\<open>device-state-service\<close>) and its
    client in the endpoints (\<open>service-common/src/state\<close>).  The contract between them is the
    locale \<open>state_service\<close>; the client is proved against it for a network that may lose any
    request or answer, and for any interference of other clients.
  \<^item> \<open>Commands\<close>, \<open>Command_Service\<close>: subscriptions and dispatch of commands
    (\<open>endpoint-common/src/command\<close>) over a two level map given by the locale \<open>entry_map\<close>, and
    the service that sends commands (\<open>integration-common/src/commands\<close>, \<open>command-endpoint\<close>);
    together, that an accepted command reaches the subscriptions that want it.

  \<^bold>\<open>The protocol endpoints.\<close>
  \<^item> \<open>Endpoint_Auth\<close>: the authenticator of all endpoints (\<open>endpoint-common/src/auth.rs\<close>): user
    names, headers, client certificates and pre-shared keys; who passes has proven who it is to
    the authentication service.  What a request claims is stated apart from the code
    (\<open>http_claim\<close>, \<open>mqtt_claim\<close>, \<open>psk_claim\<close>): names and secret belong together.
  \<^item> \<open>Http_Endpoint\<close>, \<open>Coap_Endpoint\<close>: publishing and waiting for a command
    (\<open>http-endpoint\<close>, \<open>coap-endpoint\<close>); every event is in the name of a device that proved its
    identity, up to what the rules of its application change.
  \<^item> \<open>Mqtt_Dialect\<close>, \<open>Mqtt_Common\<close>, \<open>Device_Cache\<close>, \<open>Mqtt_Session\<close>, \<open>Mqtt_Endpoint\<close>: topics, the
    protocol layer of both versions (\<open>mqtt-common\<close>), the cache of devices a gateway may act
    for, and the sessions (\<open>mqtt-endpoint/src/service\<close>); a run of a session is a list of
    packets and commands, and what it publishes and receives is stated of whole runs.

  \<^bold>\<open>The integrations.\<close>
  \<^item> \<open>Access_Tokens\<close>, \<open>User_Auth\<close>: the tokens of users (\<open>access-token-service\<close>) and their
    authorization (\<open>user-auth-service\<close>).
  \<^item> \<open>Event_Stream\<close>: consumer settings and the repair of events (\<open>event-common/src/stream\<close>,
    \<open>integration-common\<close>); an event that was published is read again as it was.
  \<^item> \<open>Mqtt_Integration\<close>, \<open>Websocket_Integration\<close>: sessions of users with their streams
    (\<open>mqtt-integration\<close>, \<open>websocket-integration\<close>).  The actors of the websocket service are a
    step relation over their mailboxes, with an invariant by rule induction.

  \<^bold>\<open>The operators.\<close>
  \<^item> \<open>Work_Queue\<close>: the queue of the operators (\<open>operator-common/src/controller/base/queue.rs\<close>) as
    functions on its table and as a step relation of writers, reader and clocks; the keys are
    given by the locale \<open>work_key\<close>, interpreted for applications and devices.  Work is kept
    as long as the clock of the database is not set back, which is a step of its own.
  \<^item> \<open>Controller\<close>, \<open>Reconciler\<close>: operations with retries and rescheduling, event dispatch,
    reconcilers, finalizers and progress conditions (\<open>operator-common/src/controller\<close>); what
    the client library promises of conditions is \<open>section_law\<close>.
  \<^item> \<open>Management_Events\<close>: the device management controller, which combines the registry
    events, the controller, the queue and the sender.
  \<^item> \<open>Topic_Operators\<close>: the operators of Kafka topics and users (\<open>topic-admin-operator\<close>,
    \<open>topic-strimzi-operator\<close>); a new application gets its topic, and the
    access rules of its user, read as Kafka reads them, allow to read it and no other topic.
  \<^item> \<open>Knative_Operator\<close>: the event source of an application (\<open>knative-operator\<close>), which reads
    its topic.
  \<^item> \<open>Ttn_Client\<close>, \<open>Ttn_Operator\<close>: the operator of The Things Network (\<open>ttn-operator\<close>); the world is
    the history of calls, and the server answers as it likes.  The finalizer of a device is
    removed only after its traces are.
  \<^item> \<open>Ditto_Client\<close>, \<open>Ditto_Operator\<close>: the operator of Eclipse Ditto (\<open>ditto-registry-operator\<close>),
    in the same way; every request stays within its application, and the cleanup is done in
    order, each command with an answer that reports a success (\<open>confirms\<close>, stated on the entries
    of the answers).

  \<^bold>\<open>Conventions.\<close>  A struct is a record, an enum a datatype, \<open>Result<T, E>\<close> is \<open>'e + 'a\<close> with
  \<open>rbind\<close> for the question mark operator, and state is passed explicitly.  A transaction
  returns the new state or an error that leaves the old one.  Hash maps are association
  lists, \<open>u64\<close> is a 64-bit word, times are integers.  Third-party code (section codecs, hash
  functions, certificates, HTTP, Kafka, Keycloak, MQTT topic filters, the list of
  conditions of the client library), the clock, random numbers and fresh identifiers are
  parameters, collected in records such as \<open>env\<close>, \<open>authn_env\<close>, \<open>sender_env\<close>, \<open>state_env\<close>,
  \<open>client_env\<close>, \<open>section_env\<close>, \<open>ttn_env\<close>, \<open>ditto_env\<close> and \<open>nom\<close>; what a theorem needs of them is a
  hypothesis, often named like \<open>kafka_works\<close> or \<open>nom_works\<close>.  Calls of external services are
  written with \<open>io_bind\<close>, which passes the world through a sequence of calls and ends it at the
  first error.  Definitions whose name starts with \<open>demo\<close> are the inputs of the witnesses.

  \<^bold>\<open>Termination.\<close>  Loops over data are recursive functions with a measure.  The retry loops
  with a bound recurse on the attempts left.  The loops that may run for ever (drawing an
  unused identifier, deleting a state, pinging, fetching from a queue with unreadable rows)
  are partial functions with results in \<open>option\<close>, and that they return under the stated
  conditions is proved separately; no fuel is used.

  \<^bold>\<open>Not modelled.\<close>  The servers of the protocols and their packet codecs, which are third-party
  libraries with glue around them (\<open>mqtt-common/src/server.rs\<close>), the console, the start-up and
  configuration of the services (\<open>server\<close>, and the \<open>run\<close> functions), the clients that only
  forward a call over HTTP (\<open>service-common/src/client\<close>), test support, and metrics, logging and
  timers.  Database connections that fail are left out except where a theory says otherwise.
\<close>

end
